(* ===== verification/Prelude.thy ===== *)
theory Prelude
  imports Main "HOL-Library.Word" "HOL-Library.AList"
begin

text \<open>
  Shared vocabulary of the development: machine integers, the error values of the
  \<open>anyhow::Result\<close> code, the result operations that stand for \<open>?\<close> and
  \<open>anyhow::ensure!\<close>, checked \<open>usize\<close> arithmetic, slice indexing with its panics,
  little-endian integer encodings, UTF-8 validation and hash maps.

  Conventions. \<open>usize\<close> values are natural numbers below \<open>2 ^ 64\<close>; a subtraction that
  would go below zero and an addition that would reach \<open>2 ^ 64\<close> are panics, as in a
  build with overflow checks. Values stored in the stream keep their width as words.
  Logging, \<open>Display\<close>/\<open>Debug\<close> formatting and wall-clock statistics produce no bytes of
  the output stream and are not part of the model.
\<close>

unbundle bit_operations_syntax

section \<open>Types\<close>

type_synonym byte = "8 word"
type_synonym u16 = "16 word"
type_synonym u32 = "32 word"
type_synonym u64 = "64 word"
type_synonym bytes = "byte list"

text \<open>The reasons of the \<open>anyhow::bail!\<close> and \<open>anyhow::ensure!\<close> sites, one per kind of
  message.\<close>

datatype io_reason =
    IoError | ShortRead | BadMagic | BadUtf8 | InvalidVersion
  | SourceVersionNotSet | DestinationVersionNotSet | NoSourceLength
  | NoDestinationLength | CannotAdjustOffset | CannotSetOffset
  | ReadingFromNoSource | WritingToNoDestination | CannotFlushDestination
  | WroteMoreThanUncompressed

datatype element_reason =
    BadCommandType | BadAttributeType | NotUpgradeable
  | FakeUpgradeOfUpgradeable | NotCompressible | NoSize | NoCrc
  | VersionMismatch | HeaderSizeMismatch | SizeAlreadySet | CrcAlreadySet
  | HeaderDoesNotFit | NoCompressionLevel | CompressorFailed
  | NotAppendable | NoSizeUpdateForV1 | NotTruncatable | NotEnoughData
  | PayloadNotEightBytes | VerifyFailed

datatype command_reason =
    DataAttributeNotLast | CrcMismatch | DirtyCommand | CleanCommand
  | NoDataAttribute | NoInitialSize | BadInitialSize | NoPath
  | NoStartOffset | OffsetMismatch | CompressibleNonData | CommandGrew
  | BadPadding | UnexpectedPreviousCommand | NoContext

datatype mp_reason =
    CacheAborted | CacheDone | NoBuffer | DuplicateBuffer | OffsetBeforeBuffer
  | BytesUnderflow | NoBytesRead | MissizedBuffer | HaltAfterAbort
  | QueueAborted | QueueDone | DuplicateElement | NoElement | WrongElement
  | FragmentInBatch | BadBatch | BatchTooBig | MalformedBatch
  | BadStrongCount | NonEmptyBatch | IncompleteAppend | BatchSizeMismatch
  | NoBatch | OtherTimeSet | NoHandle | WorkerPanicked | CoordinatorFailed | NoSyncContainer

datatype bail_reason =
    Io io_reason | Elem element_reason | Cmd command_reason | Mp mp_reason

datatype panic_reason =
    SliceIndexOutOfRange
  | ArithmeticOverflow
  | IndexOutOfRange
  | FreedContext
  | BadTypeSize
  | DivisionByZero

text \<open>
  What a call can end with instead of a value: an \<open>anyhow\<close> error, the one error that
  callers downcast (\<open>SendAttributeFailedToShrinkPayloadError\<close>, with its three sizes), a
  panic, or a thread that waits on a condition variable.
\<close>

datatype error =
    Bail bail_reason
  | FailedToShrinkPayload nat nat nat
  | Panic panic_reason
  | Blocked

type_synonym 'a result = "error + 'a"

section \<open>Results\<close>

definition rbind :: "'a result \<Rightarrow> ('a \<Rightarrow> 'b result) \<Rightarrow> 'b result" where
  "rbind m f = (case m of Inl e \<Rightarrow> Inl e | Inr x \<Rightarrow> f x)"

definition ensure :: "bool \<Rightarrow> bail_reason \<Rightarrow> 'a result \<Rightarrow> 'a result" where
  "ensure b k r = (if b then r else Inl (Bail k))"

definition of_option :: "bail_reason \<Rightarrow> 'a option \<Rightarrow> 'a result" where
  "of_option k x = (case x of None \<Rightarrow> Inl (Bail k) | Some v \<Rightarrow> Inr v)"

named_theorems result_simps \<open>case analysis of result computations\<close>

lemma rbind_Inl [simp]: "rbind (Inl e) f = Inl e"
  by (simp add: rbind_def)

lemma rbind_Inr [simp]: "rbind (Inr x) f = f x"
  by (simp add: rbind_def)

lemma rbind_eq_Inr_iff [result_simps]:
  "rbind m f = Inr y \<longleftrightarrow> (\<exists>x. m = Inr x \<and> f x = Inr y)"
  by (cases m) auto

lemma rbind_assoc: "rbind (rbind m f) g = rbind m (\<lambda>x. rbind (f x) g)"
  by (cases m) auto

lemma rbind_cong [fundef_cong]:
  assumes "m = m'" and "\<And>x. m' = Inr x \<Longrightarrow> f x = f' x"
  shows "rbind m f = rbind m' f'"
  using assms by (cases m') auto

lemma ensure_True [simp]: "ensure True k r = r"
  by (simp add: ensure_def)

lemma ensure_False [simp]: "ensure False k r = Inl (Bail k)"
  by (simp add: ensure_def)

lemma ensure_eq_Inr_iff [result_simps]: "ensure b k r = Inr y \<longleftrightarrow> b \<and> r = Inr y"
  by (simp add: ensure_def)

lemma ensure_cong [fundef_cong]:
  assumes "b = b'" and "b' \<Longrightarrow> r = r'"
  shows "ensure b k r = ensure b' k r'"
  using assms by (cases b') auto

lemma of_option_simps [simp]:
  "of_option k None = Inl (Bail k)" "of_option k (Some v) = Inr v"
  by (simp_all add: of_option_def)

lemma of_option_eq_Inr_iff [result_simps]: "of_option k x = Inr v \<longleftrightarrow> x = Some v"
  by (cases x) auto

section \<open>Checked arithmetic and slices\<close>

definition usub :: "nat \<Rightarrow> nat \<Rightarrow> nat result" where
  "usub a b = (if b \<le> a then Inr (a - b) else Inl (Panic ArithmeticOverflow))"

definition uadd :: "nat \<Rightarrow> nat \<Rightarrow> nat result" where
  "uadd a b = (if a + b < 2 ^ 64 then Inr (a + b) else Inl (Panic ArithmeticOverflow))"

definition usub32 :: "u32 \<Rightarrow> u32 \<Rightarrow> u32 result" where
  "usub32 a b = (if b \<le> a then Inr (a - b) else Inl (Panic ArithmeticOverflow))"

text \<open>\<open>&bs[a..b]\<close>, \<open>&bs[a..]\<close>, and writing a sub-slice back at its position.\<close>

definition slice_range :: "'a list \<Rightarrow> nat \<Rightarrow> nat \<Rightarrow> 'a list result" where
  "slice_range bs a b =
     (if a \<le> b \<and> b \<le> length bs then Inr (take (b - a) (drop a bs))
      else Inl (Panic SliceIndexOutOfRange))"

definition slice_from :: "'a list \<Rightarrow> nat \<Rightarrow> 'a list result" where
  "slice_from bs a =
     (if a \<le> length bs then Inr (drop a bs) else Inl (Panic SliceIndexOutOfRange))"

definition splice :: "'a list \<Rightarrow> nat \<Rightarrow> 'a list \<Rightarrow> 'a list" where
  "splice bs i r = take i bs @ r @ drop (i + length r) bs"

lemma usub_ok [simp]: "b \<le> a \<Longrightarrow> usub a b = Inr (a - b)"
  by (simp add: usub_def)

lemma usub_eq_Inr_iff [result_simps]: "usub a b = Inr c \<longleftrightarrow> b \<le> a \<and> c = a - b"
  by (auto simp: usub_def)

lemma uadd_ok: "a + b < 2 ^ 64 \<Longrightarrow> uadd a b = Inr (a + b)"
  by (simp add: uadd_def)

lemma uadd_eq_Inr_iff [result_simps]: "uadd a b = Inr c \<longleftrightarrow> a + b < 2 ^ 64 \<and> c = a + b"
  by (auto simp: uadd_def)

lemma slice_range_ok [simp]:
  "a \<le> b \<Longrightarrow> b \<le> length bs \<Longrightarrow> slice_range bs a b = Inr (take (b - a) (drop a bs))"
  by (simp add: slice_range_def)

lemma slice_from_ok [simp]: "a \<le> length bs \<Longrightarrow> slice_from bs a = Inr (drop a bs)"
  by (simp add: slice_from_def)

lemma slice_range_eq_Inr_iff [result_simps]:
  "slice_range bs a b = Inr r \<longleftrightarrow> a \<le> b \<and> b \<le> length bs \<and> r = take (b - a) (drop a bs)"
  by (auto simp: slice_range_def)

lemma slice_from_eq_Inr_iff [result_simps]:
  "slice_from bs a = Inr r \<longleftrightarrow> a \<le> length bs \<and> r = drop a bs"
  by (auto simp: slice_from_def)

lemma length_splice [simp]: "i + length r \<le> length bs \<Longrightarrow> length (splice bs i r) = length bs"
  by (simp add: splice_def)

lemma splice_append:
  "length xs = i \<Longrightarrow> length r = length ys \<Longrightarrow> splice (xs @ ys @ zs) i r = xs @ r @ zs"
  by (simp add: splice_def)

lemma splice_0 [simp]: "splice bs 0 r = r @ drop (length r) bs"
  by (simp add: splice_def)

section \<open>Little-endian integers\<close>

text \<open>\<open>to_le_bytes\<close> and \<open>from_le_bytes\<close> of the unsigned integer types.\<close>

primrec to_le :: "nat \<Rightarrow> 'a::len word \<Rightarrow> bytes" where
  "to_le 0 w = []"
| "to_le (Suc n) w = ucast w # to_le n (drop_bit 8 w)"

primrec from_le :: "bytes \<Rightarrow> 'a::len word" where
  "from_le [] = 0"
| "from_le (b # bs) = ucast b OR push_bit 8 (from_le bs)"

abbreviation le16 :: "u16 \<Rightarrow> bytes" where "le16 \<equiv> to_le 2"
abbreviation le32 :: "u32 \<Rightarrow> bytes" where "le32 \<equiv> to_le 4"
abbreviation le64 :: "u64 \<Rightarrow> bytes" where "le64 \<equiv> to_le 8"

lemma length_to_le [simp]: "length (to_le n w) = n"
  by (induction n arbitrary: w) auto

lemma to_le_numeral [simp]:
  "to_le (numeral k) w = ucast w # to_le (pred_numeral k) (drop_bit 8 w)"
  by (simp add: numeral_eq_Suc)

declare to_le_numeral [simp del]

lemma bit_from_le_to_le:
  fixes w :: "'a::len word"
  shows "bit (from_le (to_le n w) :: 'a word) i \<longleftrightarrow> i < 8 * n \<and> bit w i"
proof (induction n arbitrary: w i)
  case 0
  then show ?case by simp
next
  case (Suc n)
  show ?case
  proof (cases "i < 8")
    case True
    then show ?thesis
      by (auto simp: bit_or_iff bit_push_bit_iff bit_ucast_iff dest: bit_imp_le_length)
  next
    case False
    then show ?thesis
      by (auto simp: bit_or_iff bit_push_bit_iff bit_ucast_iff Suc.IH bit_drop_bit_eq
          dest: bit_imp_le_length)
  qed
qed

lemma from_le_to_le:
  fixes w :: "'a::len word"
  assumes "LENGTH('a) \<le> 8 * n"
  shows "(from_le (to_le n w) :: 'a word) = w"
  using assms by (auto simp: bit_eq_iff bit_from_le_to_le dest!: bit_imp_le_length)

lemma from_le16 [simp]: "(from_le (le16 w) :: u16) = w"
  by (rule from_le_to_le) simp

lemma from_le32 [simp]: "(from_le (le32 w) :: u32) = w"
  by (rule from_le_to_le) simp

lemma from_le64 [simp]: "(from_le (le64 w) :: u64) = w"
  by (rule from_le_to_le) simp

lemma nth_to_le: "k < n \<Longrightarrow> to_le n w ! k = ucast (drop_bit (8 * k) w)"
  by (induction n arbitrary: k w) (auto simp: less_Suc_eq_0_disj add.commute)

lemma bit_from_le:
  "bit (from_le bs :: 'a::len word) i \<longleftrightarrow>
     i < LENGTH('a) \<and> i < 8 * length bs \<and> bit (bs ! (i div 8)) (i mod 8)"
proof (induction bs arbitrary: i)
  case Nil
  then show ?case by simp
next
  case (Cons b bs)
  show ?case
  proof (cases "i < 8")
    case True
    then show ?thesis by (auto simp: bit_simps)
  next
    case False
    then have "i div 8 = Suc ((i - 8) div 8)" "i mod 8 = (i - 8) mod 8"
      by (simp_all add: le_div_geq le_mod_geq)
    moreover have "\<not> bit b i" using False bit_imp_le_length [of b i] by auto
    ultimately show ?thesis using False by (auto simp: bit_simps Cons.IH)
  qed
qed

lemma to_le_from_le:
  assumes "8 * length bs \<le> LENGTH('a)"
  shows "to_le (length bs) (from_le bs :: 'a::len word) = bs"
proof (rule nth_equalityI)
  fix k
  assume k: "k < length (to_le (length bs) (from_le bs :: 'a word))"
  have "j < 8 \<Longrightarrow> k < length bs \<Longrightarrow> (8 * k + j) div 8 = k \<and> 8 * k + j < 8 * length bs" for j
    by auto
  with k assms show "to_le (length bs) (from_le bs :: 'a word) ! k = bs ! k"
    by (intro bit_eqI) (auto simp: nth_to_le bit_simps bit_from_le)
qed simp

lemma unat_word_of_nat16: "n < 2 ^ 16 \<Longrightarrow> unat (word_of_nat n :: u16) = n"
  by (simp add: unat_of_nat)

lemma unat_word_of_nat32: "n < 2 ^ 32 \<Longrightarrow> unat (word_of_nat n :: u32) = n"
  by (simp add: unat_of_nat)

lemma unat_word_of_nat64: "n < 2 ^ 64 \<Longrightarrow> unat (word_of_nat n :: u64) = n"
  by (simp add: unat_of_nat)

lemmas unat_word_of_nat = unat_word_of_nat16 unat_word_of_nat32 unat_word_of_nat64

text \<open>Offsets are sums of sizes; keep \<open>n + 2\<close> as it is written.\<close>

declare add_2_eq_Suc [simp del] add_2_eq_Suc' [simp del]

section \<open>UTF-8\<close>

text \<open>\<open>std::str::from_utf8\<close>: the well-formed byte sequences of the Unicode standard.\<close>

definition utf8_cont :: "byte \<Rightarrow> bool" where
  "utf8_cont b \<longleftrightarrow> 0x80 \<le> b \<and> b \<le> 0xBF"

definition utf8_second3 :: "byte \<Rightarrow> byte \<Rightarrow> bool" where
  "utf8_second3 b0 b1 \<longleftrightarrow>
     (if b0 = 0xE0 then 0xA0 \<le> b1 \<and> b1 \<le> 0xBF
      else if b0 = 0xED then 0x80 \<le> b1 \<and> b1 \<le> 0x9F
      else utf8_cont b1)"

definition utf8_second4 :: "byte \<Rightarrow> byte \<Rightarrow> bool" where
  "utf8_second4 b0 b1 \<longleftrightarrow>
     (if b0 = 0xF0 then 0x90 \<le> b1 \<and> b1 \<le> 0xBF
      else if b0 = 0xF4 then 0x80 \<le> b1 \<and> b1 \<le> 0x8F
      else utf8_cont b1)"

fun utf8_valid :: "bytes \<Rightarrow> bool" where
  "utf8_valid [] = True"
| "utf8_valid (b0 # bs) =
     (if b0 < 0x80 then utf8_valid bs
      else if 0xC2 \<le> b0 \<and> b0 \<le> 0xDF then
        (case bs of b1 # r \<Rightarrow> utf8_cont b1 \<and> utf8_valid r | _ \<Rightarrow> False)
      else if 0xE0 \<le> b0 \<and> b0 \<le> 0xEF then
        (case bs of b1 # b2 # r \<Rightarrow> utf8_second3 b0 b1 \<and> utf8_cont b2 \<and> utf8_valid r
         | _ \<Rightarrow> False)
      else if 0xF0 \<le> b0 \<and> b0 \<le> 0xF4 then
        (case bs of b1 # b2 # b3 # r \<Rightarrow>
           utf8_second4 b0 b1 \<and> utf8_cont b2 \<and> utf8_cont b3 \<and> utf8_valid r
         | _ \<Rightarrow> False)
      else False)"

definition from_utf8 :: "bytes \<Rightarrow> bytes result" where
  "from_utf8 bs = (if utf8_valid bs then Inr bs else Inl (Bail (Io BadUtf8)))"

lemma from_utf8_eq_Inr_iff [result_simps]: "from_utf8 bs = Inr s \<longleftrightarrow> utf8_valid bs \<and> s = bs"
  by (auto simp: from_utf8_def)

lemma utf8_valid_ascii: "\<forall>b \<in> set bs. b < 0x80 \<Longrightarrow> utf8_valid bs"
  by (induction bs) auto

section \<open>Association lists\<close>

lemma update_fresh: "map_of al k = None \<Longrightarrow> AList.update k v al = al @ [(k, v)]"
  by (induction al) (auto split: if_splits)

lemma delete_fresh: "map_of al k = None \<Longrightarrow> AList.delete k al = al"
  by (induction al) (auto split: if_splits)

section \<open>Zero-filled vectors\<close>

text \<open>\<open>vec![0; n]\<close>.\<close>

abbreviation zeros :: "nat \<Rightarrow> bytes" where
  "zeros n \<equiv> replicate n 0"

end
