(* ===== verification/Nom.thy ===== *)
theory Nom
  imports Prelude
begin

text \<open>
  The vocabulary of the parsers that are written with the crate nom: the results of a parser, the
  operator \<open>?\<close> on them, and the parts of nom that the parsers of \<open>antlir2/sendstream_parser\<close> call.
  The crate is not part of the sources, so its functions are the fields of a record that the parsers
  take as an argument; \<open>nom_documented\<close> is what the documentation of nom says of them.
\<close>

section \<open>Parser results\<close>

datatype nom_err = NomError | NomFailure | NomIncomplete

text \<open>\<open>IResult\<close>, and the panics of the code that calls a parser.\<close>

datatype ('i, 'a) iresult = IOk 'i 'a | IErr nom_err | IPanic

definition ibind :: "('i, 'a) iresult \<Rightarrow> ('i \<Rightarrow> 'a \<Rightarrow> ('i, 'b) iresult) \<Rightarrow> ('i, 'b) iresult" where
  "ibind r f = (case r of IOk i x \<Rightarrow> f i x | IErr e \<Rightarrow> IErr e | IPanic \<Rightarrow> IPanic)"

lemma ibind_simps [simp]:
  "ibind (IOk i x) f = f i x"
  "ibind (IErr e) f = IErr e"
  "ibind IPanic f = IPanic"
  by (simp_all add: ibind_def)

lemma ibind_eq_IOk_iff: "ibind r f = IOk i y \<longleftrightarrow> (\<exists>j x. r = IOk j x \<and> f j x = IOk i y)"
  by (cases r) simp_all

section \<open>Streaming parsers of bytes\<close>

record nom_streaming =
  nm_tag :: "bytes \<Rightarrow> bytes \<Rightarrow> (bytes, bytes) iresult"
  nm_take :: "nat \<Rightarrow> bytes \<Rightarrow> (bytes, bytes) iresult"
  nm_le_u16 :: "bytes \<Rightarrow> (bytes, u16) iresult"
  nm_le_u32 :: "bytes \<Rightarrow> (bytes, u32) iresult"

text \<open>
  \<open>tag\<close> recognises its argument, fails on anything else, and asks for more data when the input is a
  proper prefix of its argument; \<open>take\<close> and the integers ask for more data when the input is too
  short.
\<close>

definition nom_documented :: "nom_streaming \<Rightarrow> bool" where
  "nom_documented N \<longleftrightarrow>
     (\<forall>t i. nm_tag N t i =
        (if take (length t) i = t then IOk (drop (length t) i) t
         else if take (length i) t = i then IErr NomIncomplete else IErr NomError)) \<and>
     (\<forall>n i. nm_take N n i = (if n \<le> length i then IOk (drop n i) (take n i) else IErr NomIncomplete)) \<and>
     (\<forall>i. nm_le_u16 N i = (if 2 \<le> length i then IOk (drop 2 i) (from_le (take 2 i)) else IErr NomIncomplete)) \<and>
     (\<forall>i. nm_le_u32 N i = (if 4 \<le> length i then IOk (drop 4 i) (from_le (take 4 i)) else IErr NomIncomplete))"

text \<open>The documented behaviour is consistent.\<close>

definition example_nom :: nom_streaming where
  "example_nom =
     \<lparr>nm_tag = (\<lambda>t i. if take (length t) i = t then IOk (drop (length t) i) t
        else if take (length i) t = i then IErr NomIncomplete else IErr NomError),
      nm_take = (\<lambda>n i. if n \<le> length i then IOk (drop n i) (take n i) else IErr NomIncomplete),
      nm_le_u16 = (\<lambda>i. if 2 \<le> length i then IOk (drop 2 i) (from_le (take 2 i)) else IErr NomIncomplete),
      nm_le_u32 = (\<lambda>i. if 4 \<le> length i then IOk (drop 4 i) (from_le (take 4 i)) else IErr NomIncomplete)\<rparr>"

lemma example_nom_documented: "nom_documented example_nom"
  by (simp add: nom_documented_def example_nom_def)

lemma nom_take: "nom_documented N \<Longrightarrow> length bs = n \<Longrightarrow> nm_take N n (bs @ rest) = IOk rest bs"
  by (simp add: nom_documented_def)

lemma nom_take_short: "nom_documented N \<Longrightarrow> length i < n \<Longrightarrow> nm_take N n i = IErr NomIncomplete"
  by (simp add: nom_documented_def)

lemma nom_tag: "nom_documented N \<Longrightarrow> nm_tag N t (t @ rest) = IOk rest t"
  by (simp add: nom_documented_def)

lemma nom_tag_short:
  "nom_documented N \<Longrightarrow> t = i @ u \<Longrightarrow> u \<noteq> [] \<Longrightarrow> nm_tag N t i = IErr NomIncomplete"
  by (simp add: nom_documented_def)

lemma nom_le_u16: "nom_documented N \<Longrightarrow> nm_le_u16 N (le16 w @ rest) = IOk rest w"
  by (simp add: nom_documented_def)

lemma nom_le_u32: "nom_documented N \<Longrightarrow> nm_le_u32 N (le32 w @ rest) = IOk rest w"
  by (simp add: nom_documented_def)

lemma nom_le_short:
  "nom_documented N \<Longrightarrow> length i < 2 \<Longrightarrow> nm_le_u16 N i = IErr NomIncomplete"
  "nom_documented N \<Longrightarrow> length i < 4 \<Longrightarrow> nm_le_u32 N i = IErr NomIncomplete"
  by (simp_all add: nom_documented_def)

lemmas nom_accepts = nom_take nom_tag nom_le_u16 nom_le_u32

end
