(* ===== verification/Decimal.thy ===== *)
theory Decimal
  imports Prelude
begin

text \<open>
  The parts of the Rust standard library that the text formats of \<open>antlir2_userns\<close> and \<open>antlir2_users\<close>
  use: decimal numbers as \<open>Display\<close> prints and \<open>FromStr\<close> reads them, \<open>str::split\<close>,
  \<open>str::split_whitespace\<close>, \<open>str::lines\<close> and the joining of parts with a separator.
\<close>

section \<open>Decimal numbers\<close>

definition is_digit :: "char \<Rightarrow> bool" where
  "is_digit c \<longleftrightarrow> c \<in> set ''0123456789''"

definition digit_value :: "char \<Rightarrow> nat" where
  "digit_value c = of_char c - 48"

definition decimal_value :: "string \<Rightarrow> nat" where
  "decimal_value = foldl (\<lambda>v c. 10 * v + digit_value c) 0"

fun show_nat :: "nat \<Rightarrow> string" where
  "show_nat n = (if n < 10 then [''0123456789'' ! n] else show_nat (n div 10) @ [''0123456789'' ! (n mod 10)])"

declare show_nat.simps [simp del]

definition show_u32 :: "u32 \<Rightarrow> string" where
  "show_u32 w = show_nat (unat w)"

text \<open>\<open>u32::from_str\<close>: an optional plus sign and at least one digit, and the value fits.\<close>

definition parse_digits :: "string \<Rightarrow> u32 option" where
  "parse_digits s =
     (if s \<noteq> [] \<and> list_all is_digit s \<and> decimal_value s < 2 ^ 32 then Some (word_of_nat (decimal_value s)) else None)"

definition parse_u32 :: "string \<Rightarrow> u32 option" where
  "parse_u32 s = (case s of c # cs \<Rightarrow> if c = CHR ''+'' then parse_digits cs else parse_digits s | [] \<Rightarrow> None)"

lemma digit_nth: "n < 10 \<Longrightarrow> is_digit (''0123456789'' ! n) \<and> digit_value (''0123456789'' ! n) = n"
proof -
  assume "n < 10"
  then have "n \<in> {0, 1, 2, 3, 4} \<or> n \<in> {5, 6, 7, 8, 9}"
    by (cases "n < 5") auto
  then show ?thesis
    by (auto simp: is_digit_def digit_value_def)
qed

lemma show_nat_digits: "list_all is_digit (show_nat n)"
proof (induction n rule: show_nat.induct)
  case (1 n)
  then show ?case
    by (subst show_nat.simps) (simp add: digit_nth)
qed

lemma show_nat_not_Nil [simp]: "show_nat n \<noteq> []"
  by (subst show_nat.simps) simp

lemma show_nat_value: "decimal_value (show_nat n) = n"
proof (induction n rule: show_nat.induct)
  case (1 n)
  then show ?case
    by (subst show_nat.simps) (simp add: decimal_value_def digit_nth)
qed

lemma show_u32_digits: "list_all is_digit (show_u32 w)"
  by (simp add: show_u32_def show_nat_digits)

lemma show_u32_not_Nil [simp]: "show_u32 w \<noteq> []"
  by (simp add: show_u32_def)

lemma show_u32_value: "decimal_value (show_u32 w) = unat w"
  by (simp add: show_u32_def show_nat_value)

lemma parse_digits_show: "parse_digits (show_u32 w) = Some w"
  using unsigned_less [of w] by (simp add: parse_digits_def show_u32_digits show_u32_value)

lemma parse_u32_show: "parse_u32 (show_u32 w) = Some w"
proof (cases "show_u32 w")
  case (Cons c cs)
  then show ?thesis
    using show_u32_digits [of w] parse_digits_show [of w] by (auto simp: parse_u32_def is_digit_def)
qed simp

lemma digit_free: "list_all is_digit s \<Longrightarrow> \<not> is_digit c \<Longrightarrow> c \<notin> set s"
  by (auto simp: list_all_iff)

lemma show_u32_free: "\<not> is_digit c \<Longrightarrow> c \<notin> set (show_u32 w)"
  using digit_free show_u32_digits by blast

section \<open>Splitting and joining\<close>

text \<open>\<open>str::split\<close> at a character: one piece more than separators, the pieces may be empty.\<close>

fun split_at :: "char \<Rightarrow> string \<Rightarrow> string list" where
  "split_at c [] = [[]]"
| "split_at c (x # xs) =
     (if x = c then [] # split_at c xs
      else case split_at c xs of p # ps \<Rightarrow> (x # p) # ps | [] \<Rightarrow> [[x]])"

text \<open>\<open>str::lines\<close>: the lines end at a newline, a carriage return before it belongs to the line ending,
  and a final newline does not start another line.\<close>

definition strip_cr :: "string \<Rightarrow> string" where
  "strip_cr l = (if l \<noteq> [] \<and> last l = CHR 0x0D then butlast l else l)"

definition lines_of :: "string \<Rightarrow> string list" where
  "lines_of s =
     (let ps = split_at (CHR 0x0A) s
      in map strip_cr (butlast ps) @ (if last ps = [] then [] else [last ps]))"

text \<open>\<open>str::split_whitespace\<close> on ASCII text.\<close>

definition is_space :: "char \<Rightarrow> bool" where
  "is_space c \<longleftrightarrow> c \<in> {CHR 0x09, CHR 0x0A, CHR 0x0B, CHR 0x0C, CHR 0x0D, CHR 0x20}"

fun split_spaces :: "string \<Rightarrow> string list" where
  "split_spaces [] = []"
| "split_spaces (x # xs) =
     (if is_space x then split_spaces xs
      else case xs of
        [] \<Rightarrow> [[x]]
      | y # _ \<Rightarrow> if is_space y then [x] # split_spaces xs
                else case split_spaces xs of p # ps \<Rightarrow> (x # p) # ps | [] \<Rightarrow> [[x]])"

fun join_with :: "string \<Rightarrow> string list \<Rightarrow> string" where
  "join_with sep [] = []"
| "join_with sep [part] = part"
| "join_with sep (part # p # ps) = part @ sep @ join_with sep (p # ps)"

lemma join_with_Cons: "join_with sep (a # as) = a @ (if as = [] then [] else sep @ join_with sep as)"
  by (cases as) simp_all

lemma split_at_not_Nil [simp]: "split_at c s \<noteq> []"
  by (induction s) (simp_all split: list.split)

lemma split_at_free: "c \<notin> set s \<Longrightarrow> split_at c s = [s]"
  by (induction s) auto

lemma split_at_append: "c \<notin> set s \<Longrightarrow> split_at c (s @ c # t) = s # split_at c t"
  by (induction s) auto

lemma lines_of_line:
  "CHR 0x0A \<notin> set l \<Longrightarrow> l = [] \<or> last l \<noteq> CHR 0x0D \<Longrightarrow> lines_of (l @ CHR 0x0A # rest) = l # lines_of rest"
  by (auto simp: lines_of_def split_at_append Let_def strip_cr_def)

lemma lines_of_Nil [simp]: "lines_of [] = []"
  by (simp add: lines_of_def)

lemma lines_of_lines:
  "\<forall>l \<in> set ls. CHR 0x0A \<notin> set l \<and> (l = [] \<or> last l \<noteq> CHR 0x0D) \<Longrightarrow>
   lines_of (concat (map (\<lambda>l. l @ [CHR 0x0A]) ls)) = ls"
  by (induction ls) (simp_all add: lines_of_line)

lemma split_spaces_word:
  "\<forall>c \<in> set w. \<not> is_space c \<Longrightarrow> w \<noteq> [] \<Longrightarrow> split_spaces w = [w]"
proof (induction w)
  case (Cons x w)
  then show ?case
    by (cases w) auto
qed simp

lemma split_spaces_append:
  "\<forall>c \<in> set w. \<not> is_space c \<Longrightarrow> w \<noteq> [] \<Longrightarrow> is_space s \<Longrightarrow> split_spaces (w @ s # t) = w # split_spaces t"
proof (induction w)
  case (Cons x w)
  then show ?case
    by (cases w) auto
qed simp

end
