(* ===== verification/Nom_Text.thy ===== *)
theory Nom_Text
  imports Nom Decimal
begin

text \<open>
  The parsers of nom for complete text that \<open>antlir2_mode\<close> and \<open>antlir2_users\<close> call. Each is an argument
  of the parsers that use it; for each, a predicate says what its documentation promises. A parser that
  the sources call at several types occurs once for each of them, with the same predicate.
\<close>

type_synonym 'a parser = "string \<Rightarrow> (string, 'a) iresult"

section \<open>Single parsers\<close>

text \<open>\<open>tag\<close> recognises its argument, \<open>char\<close> one character, and \<open>none_of\<close> one character that is not in
  its argument.\<close>

definition tag_spec :: "(string \<Rightarrow> string parser) \<Rightarrow> bool" where
  "tag_spec tag \<longleftrightarrow>
     (\<forall>t i. tag t i = (if take (length t) i = t then IOk (drop (length t) i) t else IErr NomError))"

definition char_spec :: "(char \<Rightarrow> char parser) \<Rightarrow> bool" where
  "char_spec char \<longleftrightarrow>
     (\<forall>c i. char c i = (case i of x # xs \<Rightarrow> if x = c then IOk xs c else IErr NomError | [] \<Rightarrow> IErr NomError))"

definition none_of_spec :: "(string \<Rightarrow> char parser) \<Rightarrow> bool" where
  "none_of_spec none_of \<longleftrightarrow>
     (\<forall>cs i. none_of cs i = (case i of x # xs \<Rightarrow> if x \<in> set cs then IErr NomError else IOk xs x | [] \<Rightarrow> IErr NomError))"

text \<open>\<open>take_until\<close> takes what stands before the first occurrence of its argument and fails if there is
  none; \<open>take_until1\<close> also fails if nothing stands before it. The sources call them with one character.\<close>

definition take_until_spec :: "(string \<Rightarrow> string parser) \<Rightarrow> bool" where
  "take_until_spec take_until \<longleftrightarrow>
     (\<forall>c i. take_until [c] i =
        (if c \<in> set i then IOk (dropWhile (\<lambda>x. x \<noteq> c) i) (takeWhile (\<lambda>x. x \<noteq> c) i) else IErr NomError))"

definition take_until1_spec :: "(string \<Rightarrow> string parser) \<Rightarrow> bool" where
  "take_until1_spec take_until1 \<longleftrightarrow>
     (\<forall>c i. take_until1 [c] i =
        (if c \<in> set i \<and> hd i \<noteq> c then IOk (dropWhile (\<lambda>x. x \<noteq> c) i) (takeWhile (\<lambda>x. x \<noteq> c) i) else IErr NomError))"

text \<open>\<open>oct_digit1\<close> takes one or more octal digits; \<open>u32\<close> takes a decimal number and fails if it does not
  fit.\<close>

definition octal_digit :: "char \<Rightarrow> bool" where
  "octal_digit c \<longleftrightarrow> c \<in> set ''01234567''"

definition oct_digit1_spec :: "string parser \<Rightarrow> bool" where
  "oct_digit1_spec oct_digit1 \<longleftrightarrow>
     (\<forall>i. oct_digit1 i =
        (if takeWhile octal_digit i = [] then IErr NomError
         else IOk (dropWhile octal_digit i) (takeWhile octal_digit i)))"

definition u32_spec :: "u32 parser \<Rightarrow> bool" where
  "u32_spec u32 \<longleftrightarrow>
     (\<forall>i. u32 i = (case parse_digits (takeWhile is_digit i) of
        Some w \<Rightarrow> IOk (dropWhile is_digit i) w | None \<Rightarrow> IErr NomError))"

section \<open>Combinators\<close>

text \<open>\<open>alt\<close> takes the first alternative that does not fail, \<open>opt\<close> turns a failure into \<open>None\<close>,
  \<open>recognize\<close> returns the text that its parser has taken, and \<open>all_consuming\<close> fails if input is left.\<close>

definition alt_spec :: "(string parser list \<Rightarrow> string parser) \<Rightarrow> bool" where
  "alt_spec alt \<longleftrightarrow>
     (\<forall>i. alt [] i = IErr NomError) \<and>
     (\<forall>p ps i. alt (p # ps) i = (if p i = IErr NomError then alt ps i else p i))"

definition opt_spec :: "('a parser \<Rightarrow> 'a option parser) \<Rightarrow> bool" where
  "opt_spec opt \<longleftrightarrow>
     (\<forall>p i. opt p i = (if p i = IErr NomError then IOk i None else ibind (p i) (\<lambda>j x. IOk j (Some x))))"

definition recognize_spec :: "('a parser \<Rightarrow> string parser) \<Rightarrow> bool" where
  "recognize_spec recognize \<longleftrightarrow>
     (\<forall>p i. recognize p i = ibind (p i) (\<lambda>j x. IOk j (take (length i - length j) i)))"

definition all_consuming_spec :: "('a parser \<Rightarrow> 'a parser) \<Rightarrow> bool" where
  "all_consuming_spec all_consuming \<longleftrightarrow>
     (\<forall>p i. all_consuming p i = ibind (p i) (\<lambda>j x. if j = [] then IOk j x else IErr NomError))"

text \<open>\<open>many0\<close> and \<open>many1\<close> repeat a parser until it fails, \<open>many_m_n\<close> from 0 up to the given number of
  times; none of them accepts a parser that takes nothing.\<close>

definition many0_spec :: "('a parser \<Rightarrow> 'a list parser) \<Rightarrow> bool" where
  "many0_spec many0 \<longleftrightarrow>
     (\<forall>p i. p i = IErr NomError \<longrightarrow> many0 p i = IOk i []) \<and>
     (\<forall>p i j x. p i = IOk j x \<and> length j < length i \<longrightarrow> many0 p i = ibind (many0 p j) (\<lambda>k xs. IOk k (x # xs)))"

definition many1_spec :: "('a parser \<Rightarrow> 'a list parser) \<Rightarrow> bool" where
  "many1_spec many1 \<longleftrightarrow>
     (\<forall>p i. p i = IErr NomError \<longrightarrow> many1 p i = IErr NomError) \<and>
     (\<forall>p i j x. p i = IOk j x \<and> length j < length i \<longrightarrow>
        many1 p i = (if p j = IErr NomError then IOk j [x] else ibind (many1 p j) (\<lambda>k xs. IOk k (x # xs))))"

definition many_m_n_spec :: "(nat \<Rightarrow> nat \<Rightarrow> 'a parser \<Rightarrow> 'a list parser) \<Rightarrow> bool" where
  "many_m_n_spec many_m_n \<longleftrightarrow>
     (\<forall>p i. many_m_n 0 0 p i = IOk i []) \<and>
     (\<forall>n p i. p i = IErr NomError \<longrightarrow> many_m_n 0 (Suc n) p i = IOk i []) \<and>
     (\<forall>n p i j x. p i = IOk j x \<and> length j < length i \<longrightarrow>
        many_m_n 0 (Suc n) p i = ibind (many_m_n 0 n p j) (\<lambda>k xs. IOk k (x # xs)))"

text \<open>\<open>separated_list0\<close> parses elements with separators in between, and does not take a separator that no
  element follows.\<close>

definition separated_list0_spec :: "('s parser \<Rightarrow> 'a parser \<Rightarrow> 'a list parser) \<Rightarrow> bool" where
  "separated_list0_spec separated_list0 \<longleftrightarrow>
     (\<forall>sep p i. p i = IErr NomError \<longrightarrow> separated_list0 sep p i = IOk i []) \<and>
     (\<forall>sep p i j x. p i = IOk j x \<and> sep j = IErr NomError \<longrightarrow> separated_list0 sep p i = IOk j [x]) \<and>
     (\<forall>sep p i j x k y. p i = IOk j x \<and> sep j = IOk k y \<and> length j \<le> length i \<and> length k < length j \<longrightarrow>
        separated_list0 sep p i =
          (if p k = IErr NomError then IOk j [x] else ibind (separated_list0 sep p k) (\<lambda>l xs. IOk l (x # xs))))"

section \<open>Finishing a parse\<close>

text \<open>\<open>Finish::finish\<close> panics on a parser that asks for more input; otherwise the callers make one error
  message of the error.\<close>

datatype text_error = ParseError | TextPanic

definition finish :: "(string, 'a) iresult \<Rightarrow> text_error + 'a" where
  "finish r = (case r of IOk _ x \<Rightarrow> Inr x | IErr e \<Rightarrow> Inl (if e = NomIncomplete then TextPanic else ParseError)
     | IPanic \<Rightarrow> Inl TextPanic)"

lemma finish_simps [simp]:
  "finish (IOk i x) = Inr x" "finish (IErr NomError) = Inl ParseError" "finish IPanic = Inl TextPanic"
  by (simp_all add: finish_def)

section \<open>Outcomes\<close>

text \<open>The parser fails, or takes some of its input and returns a value of the given kind.\<close>

definition outcome :: "('a \<Rightarrow> bool) \<Rightarrow> string \<Rightarrow> (string, 'a) iresult \<Rightarrow> bool" where
  "outcome good i r \<longleftrightarrow> r = IErr NomError \<or> (\<exists>j x. r = IOk j x \<and> length j \<le> length i \<and> good x)"

lemma outcome_IOk: "good x \<Longrightarrow> outcome good i (IOk i x)"
  by (simp add: outcome_def)

lemma outcome_bind:
  assumes "outcome P i r" and "\<And>j x. P x \<Longrightarrow> outcome Q j (f j x)"
  shows "outcome Q i (ibind r f)"
  using assms by (fastforce simp: outcome_def)

section \<open>Lists of printed elements\<close>

lemma separated_stop: "separated_list0_spec f \<Longrightarrow> p i = IErr NomError \<Longrightarrow> f sep p i = IOk i []"
  by (simp add: separated_list0_spec_def)

lemma separated_last: "separated_list0_spec f \<Longrightarrow> p i = IOk j x \<Longrightarrow> sep j = IErr NomError \<Longrightarrow> f sep p i = IOk j [x]"
  by (simp add: separated_list0_spec_def)

lemma separated_step:
  assumes "separated_list0_spec f" and "p i = IOk j x" and "sep j = IOk k y" and "length j \<le> length i" and "length k < length j"
  shows "f sep p i = (if p k = IErr NomError then IOk j [x] else ibind (f sep p k) (\<lambda>l xs. IOk l (x # xs)))"
proof -
  have "\<forall>sep p i j x k y. p i = IOk j x \<and> sep j = IOk k y \<and> length j \<le> length i \<and> length k < length j \<longrightarrow>
      f sep p i = (if p k = IErr NomError then IOk j [x] else ibind (f sep p k) (\<lambda>l xs. IOk l (x # xs)))"
    using assms(1) unfolding separated_list0_spec_def by (elim conjE)
  then show ?thesis
    using assms(2-) by blast
qed

lemma many0_simps:
  assumes "many0_spec f"
  shows "p i = IErr NomError \<Longrightarrow> f p i = IOk i []"
    and "p i = IOk j x \<Longrightarrow> length j < length i \<Longrightarrow> f p i = ibind (f p j) (\<lambda>k xs. IOk k (x # xs))"
  using assms by (simp_all add: many0_spec_def)

lemma many1_fails: "many1_spec f \<Longrightarrow> p i = IErr NomError \<Longrightarrow> f p i = IErr NomError"
  by (simp add: many1_spec_def)

lemma many1_step:
  assumes "many1_spec f" and "p i = IOk j x" and "length j < length i"
  shows "f p i = (if p j = IErr NomError then IOk j [x] else ibind (f p j) (\<lambda>k xs. IOk k (x # xs)))"
proof -
  have "\<forall>p i j x. p i = IOk j x \<and> length j < length i \<longrightarrow>
      f p i = (if p j = IErr NomError then IOk j [x] else ibind (f p j) (\<lambda>k xs. IOk k (x # xs)))"
    using assms(1) unfolding many1_spec_def by (elim conjE)
  then show ?thesis
    using assms(2-) by blast
qed

text \<open>If the parser of an element either fails or returns a good element, so does every element of a list.\<close>

lemma separated_sound:
  assumes "separated_list0_spec f"
    and item: "\<And>i. P i \<Longrightarrow> p i = IErr NomError \<or> (\<exists>j x. p i = IOk j x \<and> length j \<le> length i \<and> P j \<and> good x)"
    and sep: "\<And>i. P i \<Longrightarrow> sep i = IErr NomError \<or> (\<exists>j y. sep i = IOk j y \<and> length j < length i \<and> P j)"
    and "P i"
  shows "\<exists>j xs. f sep p i = IOk j xs \<and> length j \<le> length i \<and> (\<forall>x \<in> set xs. good x)"
  using \<open>P i\<close>
proof (induction i rule: length_induct)
  case (1 i)
  show ?case
  proof (cases "p i = IErr NomError")
    case True
    then show ?thesis
      by (simp add: separated_stop [OF assms(1)])
  next
    case False
    then obtain j x where j: "p i = IOk j x" "length j \<le> length i" "P j" "good x"
      using item 1 by blast
    show ?thesis
    proof (cases "sep j = IErr NomError")
      case True
      then show ?thesis
        using j by (simp add: separated_last [OF assms(1)])
    next
      case False
      then obtain k y where k: "sep j = IOk k y" "length k < length j" "P k"
        using sep j by blast
      then obtain l xs where "f sep p k = IOk l xs" "length l \<le> length k" "\<forall>x \<in> set xs. good x"
        using 1 j by (meson order_less_le_trans)
      then show ?thesis
        using j k by (auto simp: separated_step [of f p i j x sep k y, OF assms(1) j(1) k(1) j(2) k(2)])
    qed
  qed
qed

text \<open>
  The interface of a list of elements, each printed by \<open>show_item\<close> and followed by the separator or by the
  end of the list: where a delimiter follows, the parser of an element reads the printed element back.
\<close>

locale separated_text =
  fixes separated_list0 :: "'s parser \<Rightarrow> 'a parser \<Rightarrow> 'a list parser"
    and sep :: "'s parser" and item :: "'a parser"
    and separator :: string and delimited :: "string \<Rightarrow> bool"
    and show_item :: "'a \<Rightarrow> string" and good :: "'a \<Rightarrow> bool"
  assumes documented: "separated_list0_spec separated_list0"
    and sep_read: "\<exists>y. sep (separator @ rest) = IOk rest y"
    and separator_delimits: "delimited (separator @ rest)"
    and separator_not_Nil: "separator \<noteq> []"
    and item_read: "good x \<Longrightarrow> delimited rest \<Longrightarrow> item (show_item x @ rest) = IOk rest x"
begin

definition ends_list :: "string \<Rightarrow> bool" where
  "ends_list rest \<longleftrightarrow>
     delimited rest \<and> (sep rest = IErr NomError \<or> (\<exists>k y. sep rest = IOk k y \<and> length k < length rest \<and> item k = IErr NomError))"

lemma items_read:
  assumes "\<forall>x \<in> set xs. good x" and "xs \<noteq> []" and "ends_list rest"
  shows "separated_list0 sep item (join_with separator (map show_item xs) @ rest) = IOk rest xs"
  using assms(1,2)
proof (induction xs)
  case (Cons x xs)
  show ?case
  proof (cases "xs = []")
    case True
    have x: "item (show_item x @ rest) = IOk rest x"
      using Cons.prems assms(3) by (simp add: item_read ends_list_def)
    show ?thesis
      using assms(3) x True separated_last [OF documented, of item _ rest x sep]
        separated_step [OF documented, of item "show_item x @ rest" rest x sep]
      by (auto simp: ends_list_def)
  next
    case False
    let ?more = "join_with separator (map show_item xs) @ rest"
    obtain z zs where xs: "xs = z # zs"
      using False by (cases xs) auto
    have "item ?more \<noteq> IErr NomError"
      using xs Cons.prems assms(3) item_read [of z "if zs = [] then rest else separator @ join_with separator (map show_item zs) @ rest"]
      by (auto simp: join_with_Cons ends_list_def separator_delimits split: if_splits)
    moreover obtain y where "sep (separator @ ?more) = IOk ?more y"
      using sep_read by blast
    ultimately show ?thesis
      using Cons False separator_not_Nil separator_delimits [of ?more]
      by (simp add: join_with_Cons separated_step [OF documented] item_read)
  qed
qed simp

end

section \<open>The documented behaviour is consistent\<close>

definition example_tag :: "string \<Rightarrow> string parser" where
  "example_tag t i = (if take (length t) i = t then IOk (drop (length t) i) t else IErr NomError)"

definition example_char :: "char \<Rightarrow> char parser" where
  "example_char c i = (case i of x # xs \<Rightarrow> if x = c then IOk xs c else IErr NomError | [] \<Rightarrow> IErr NomError)"

definition example_none_of :: "string \<Rightarrow> char parser" where
  "example_none_of cs i = (case i of x # xs \<Rightarrow> if x \<in> set cs then IErr NomError else IOk xs x | [] \<Rightarrow> IErr NomError)"

definition example_take_until :: "bool \<Rightarrow> string \<Rightarrow> string parser" where
  "example_take_until some t i =
     (if hd t \<in> set i \<and> (some \<longrightarrow> hd i \<noteq> hd t)
      then IOk (dropWhile (\<lambda>x. x \<noteq> hd t) i) (takeWhile (\<lambda>x. x \<noteq> hd t) i) else IErr NomError)"

definition example_oct_digit1 :: "string parser" where
  "example_oct_digit1 i =
     (if takeWhile octal_digit i = [] then IErr NomError else IOk (dropWhile octal_digit i) (takeWhile octal_digit i))"

definition example_u32 :: "u32 parser" where
  "example_u32 i =
     (case parse_digits (takeWhile is_digit i) of Some w \<Rightarrow> IOk (dropWhile is_digit i) w | None \<Rightarrow> IErr NomError)"

fun example_alt :: "string parser list \<Rightarrow> string parser" where
  "example_alt [] i = IErr NomError"
| "example_alt (p # ps) i = (if p i = IErr NomError then example_alt ps i else p i)"

definition example_opt :: "'a parser \<Rightarrow> 'a option parser" where
  "example_opt p i = (if p i = IErr NomError then IOk i None else ibind (p i) (\<lambda>j x. IOk j (Some x)))"

definition example_recognize :: "'a parser \<Rightarrow> string parser" where
  "example_recognize p i = ibind (p i) (\<lambda>j x. IOk j (take (length i - length j) i))"

definition example_all_consuming :: "'a parser \<Rightarrow> 'a parser" where
  "example_all_consuming p i = ibind (p i) (\<lambda>j x. if j = [] then IOk j x else IErr NomError)"

fun example_many_m_n :: "nat \<Rightarrow> nat \<Rightarrow> 'a parser \<Rightarrow> 'a list parser" where
  "example_many_m_n m 0 p i = IOk i []"
| "example_many_m_n m (Suc n) p i =
     (if p i = IErr NomError then IOk i []
      else ibind (p i) (\<lambda>j x. if length j < length i
             then ibind (example_many_m_n m n p j) (\<lambda>k xs. IOk k (x # xs)) else IErr NomError))"

function example_many0 :: "'a parser \<Rightarrow> 'a list parser" where
  "example_many0 p i =
     (if p i = IErr NomError then IOk i []
      else ibind (p i) (\<lambda>j x. if length j < length i
             then ibind (example_many0 p j) (\<lambda>k xs. IOk k (x # xs)) else IErr NomError))"
  by pat_completeness auto
termination by (relation "measure (\<lambda>(p, i). length i)") auto

function example_many1 :: "'a parser \<Rightarrow> 'a list parser" where
  "example_many1 p i =
     ibind (p i) (\<lambda>j x. if length j < length i
       then if p j = IErr NomError then IOk j [x] else ibind (example_many1 p j) (\<lambda>k xs. IOk k (x # xs))
       else IErr NomError)"
  by pat_completeness auto
termination by (relation "measure (\<lambda>(p, i). length i)") auto

function example_separated :: "'s parser \<Rightarrow> 'a parser \<Rightarrow> 'a list parser" where
  "example_separated sep p i =
     (if p i = IErr NomError then IOk i []
      else ibind (p i) (\<lambda>j x. if sep j = IErr NomError then IOk j [x]
           else ibind (sep j) (\<lambda>k _. if \<not> (length j \<le> length i \<and> length k < length j) then IErr NomError
                else if p k = IErr NomError then IOk j [x]
                else ibind (example_separated sep p k) (\<lambda>l xs. IOk l (x # xs)))))"
  by pat_completeness auto
termination by (relation "measure (\<lambda>(sep, p, i). length i)") auto

declare example_many0.simps [simp del] example_many1.simps [simp del] example_separated.simps [simp del]

lemma example_specs:
  "tag_spec example_tag" "char_spec example_char" "none_of_spec example_none_of"
  "take_until_spec (example_take_until False)" "take_until1_spec (example_take_until True)"
  "oct_digit1_spec example_oct_digit1" "u32_spec example_u32" "alt_spec example_alt" "opt_spec example_opt"
  "recognize_spec example_recognize" "all_consuming_spec example_all_consuming"
  "many_m_n_spec example_many_m_n" "many0_spec example_many0" "many1_spec example_many1"
  "separated_list0_spec example_separated"
  by (simp_all add: tag_spec_def char_spec_def none_of_spec_def take_until_spec_def take_until1_spec_def oct_digit1_spec_def
      u32_spec_def alt_spec_def opt_spec_def recognize_spec_def all_consuming_spec_def many_m_n_spec_def many0_spec_def
      many1_spec_def separated_list0_spec_def example_tag_def example_char_def example_none_of_def example_take_until_def
      example_oct_digit1_def example_u32_def example_opt_def example_recognize_def example_all_consuming_def
      example_many0.simps example_many1.simps example_separated.simps)

end
