(* ===== verification/Users.thy ===== *)
theory Users
  imports Nom_Text
begin

text \<open>
  \<open>antlir2/antlir2_users/src\<close>: the password, group and shadow files of an image (\<open>lib.rs\<close>, \<open>passwd.rs\<close>,
  \<open>group.rs\<close>, \<open>shadow.rs\<close>) and the maps of predefined ids (\<open>uidmaps.rs\<close>, without the reading of the JSON
  file). The functions of nom are the fields of a record. \<open>tuple\<close> runs its parsers one after the other
  and is written as the sequence of them; \<open>context\<close> only adds to the error message. Borrowed and owned
  text are the same value, so \<open>into_owned\<close> is the identity; a path is its text.
\<close>

section \<open>The parts of nom\<close>

datatype Days = Days u32

record 'r nom_users =
  nu_tag :: "string \<Rightarrow> string parser"
  nu_alt :: "string parser list \<Rightarrow> string parser"
  nu_char :: "char \<Rightarrow> char parser"
  nu_newline :: "char parser"
  nu_take_until :: "string \<Rightarrow> string parser"
  nu_take_until1 :: "string \<Rightarrow> string parser"
  nu_u32 :: "u32 parser"
  nu_opt :: "Days parser \<Rightarrow> Days option parser"
  nu_none_of :: "string \<Rightarrow> char parser"
  nu_many1 :: "char parser \<Rightarrow> string parser"
  nu_recognize :: "string parser \<Rightarrow> string parser"
  nu_separated_names :: "char parser \<Rightarrow> string parser \<Rightarrow> string list parser"
  nu_all_consuming_names :: "string list parser \<Rightarrow> string list parser"
  nu_separated_list0 :: "char parser \<Rightarrow> 'r parser \<Rightarrow> 'r list parser"
  nu_many0 :: "char parser \<Rightarrow> string parser"
  nu_all_consuming :: "string parser \<Rightarrow> string parser"

definition nom_users_documented :: "'r nom_users \<Rightarrow> bool" where
  "nom_users_documented N \<longleftrightarrow>
     tag_spec (nu_tag N) \<and> alt_spec (nu_alt N) \<and> char_spec (nu_char N) \<and> nu_newline N = nu_char N (CHR 0x0A) \<and>
     take_until_spec (nu_take_until N) \<and> take_until1_spec (nu_take_until1 N) \<and> u32_spec (nu_u32 N) \<and>
     opt_spec (nu_opt N) \<and> none_of_spec (nu_none_of N) \<and> many1_spec (nu_many1 N) \<and> recognize_spec (nu_recognize N) \<and>
     separated_list0_spec (nu_separated_names N) \<and> all_consuming_spec (nu_all_consuming_names N) \<and>
     separated_list0_spec (nu_separated_list0 N) \<and> many0_spec (nu_many0 N) \<and> all_consuming_spec (nu_all_consuming N)"

definition example_nom_users :: "'r nom_users" where
  "example_nom_users =
     \<lparr>nu_tag = example_tag, nu_alt = example_alt, nu_char = example_char, nu_newline = example_char (CHR 0x0A),
      nu_take_until = example_take_until False, nu_take_until1 = example_take_until True, nu_u32 = example_u32,
      nu_opt = example_opt, nu_none_of = example_none_of, nu_many1 = example_many1, nu_recognize = example_recognize,
      nu_separated_names = example_separated, nu_all_consuming_names = example_all_consuming,
      nu_separated_list0 = example_separated, nu_many0 = example_many0, nu_all_consuming = example_all_consuming\<rparr>"

lemma example_nom_users_documented: "nom_users_documented example_nom_users"
  by (simp add: nom_users_documented_def example_nom_users_def example_specs)

section \<open>Ids and passwords\<close>

datatype UserId = UserId u32

datatype GroupId = GroupId u32

primrec UserId_as_raw :: "UserId \<Rightarrow> u32" where
  "UserId_as_raw (UserId i) = i"

primrec GroupId_as_raw :: "GroupId \<Rightarrow> u32" where
  "GroupId_as_raw (GroupId i) = i"

datatype Password = Shadow | Locked | Empty

definition Password_parse :: "'r nom_users \<Rightarrow> Password parser" where
  "Password_parse N input =
     ibind (nu_alt N [nu_tag N ''x'', nu_tag N ''!'', nu_tag N ''''] input) (\<lambda>input txt.
     if txt = ''x'' then IOk input Shadow
     else if txt = ''!'' then IOk input Locked
     else if txt = '''' then IOk input Empty
     else IPanic)"

primrec Password_to_string :: "Password \<Rightarrow> string" where
  "Password_to_string Shadow = ''x''"
| "Password_to_string Locked = ''!''"
| "Password_to_string Empty = ''''"

section \<open>The shadow file\<close>

primrec Days_as_u32 :: "Days \<Rightarrow> u32" where
  "Days_as_u32 (Days d) = d"

definition Days_parse :: "'r nom_users \<Rightarrow> Days parser" where
  "Days_parse N input = ibind (nu_u32 N input) (\<lambda>input days. IOk input (Days days))"

record ShadowRecord =
  sr_name :: string
  sr_encrypted_password :: string
  sr_last_password_change :: "Days option"
  sr_minimum_password_age :: "Days option"
  sr_maximum_password_age :: "Days option"
  sr_password_warning_period :: "Days option"
  sr_password_inactivity_period :: "Days option"
  sr_account_expiration_date :: "Days option"
  sr_reserved :: string

text \<open>\<open>context(_, opt(Days::parse))\<close> with the colon after it.\<close>

definition opt_days :: "'r nom_users \<Rightarrow> Days option parser" where
  "opt_days N input =
     ibind (nu_opt N (Days_parse N) input) (\<lambda>input days.
     ibind (nu_char N CHR '':'' input) (\<lambda>input _. IOk input days))"

definition ShadowRecord_parse :: "'r nom_users \<Rightarrow> ShadowRecord parser" where
  "ShadowRecord_parse N input =
     ibind (nu_take_until1 N '':'' input) (\<lambda>input name.
     ibind (nu_char N CHR '':'' input) (\<lambda>input _.
     ibind (nu_take_until N '':'' input) (\<lambda>input encrypted_password.
     ibind (nu_char N CHR '':'' input) (\<lambda>input _.
     ibind (opt_days N input) (\<lambda>input last_password_change.
     ibind (opt_days N input) (\<lambda>input minimum_password_age.
     ibind (opt_days N input) (\<lambda>input maximum_password_age.
     ibind (opt_days N input) (\<lambda>input password_warning_period.
     ibind (opt_days N input) (\<lambda>input password_inactivity_period.
     ibind (opt_days N input) (\<lambda>input account_expiration_date.
     ibind (nu_take_until N [CHR 0x0A] input) (\<lambda>input reserved.
     IOk input
       \<lparr>sr_name = name, sr_encrypted_password = encrypted_password, sr_last_password_change = last_password_change,
        sr_minimum_password_age = minimum_password_age, sr_maximum_password_age = maximum_password_age,
        sr_password_warning_period = password_warning_period,
        sr_password_inactivity_period = password_inactivity_period,
        sr_account_expiration_date = account_expiration_date, sr_reserved = reserved\<rparr>)))))))))))"

definition OptionalDays_to_string :: "Days option \<Rightarrow> string" where
  "OptionalDays_to_string d = (case d of Some days \<Rightarrow> show_u32 (Days_as_u32 days) | None \<Rightarrow> '''')"

definition ShadowRecord_to_string :: "ShadowRecord \<Rightarrow> string" where
  "ShadowRecord_to_string r =
     sr_name r @ '':'' @ sr_encrypted_password r @ '':'' @
     OptionalDays_to_string (sr_last_password_change r) @ '':'' @
     OptionalDays_to_string (sr_minimum_password_age r) @ '':'' @
     OptionalDays_to_string (sr_maximum_password_age r) @ '':'' @
     OptionalDays_to_string (sr_password_warning_period r) @ '':'' @
     OptionalDays_to_string (sr_password_inactivity_period r) @ '':'' @
     OptionalDays_to_string (sr_account_expiration_date r) @ '':'' @ sr_reserved r"

text \<open>The three files have the same outer form; each source file repeats it for its own records.\<close>

definition records_parse :: "'r nom_users \<Rightarrow> 'r parser \<Rightarrow> 'r list parser" where
  "records_parse N record_parse input =
     ibind (nu_separated_list0 N (nu_newline N) record_parse input) (\<lambda>input records.
     ibind (nu_all_consuming N (nu_many0 N (nu_newline N)) input) (\<lambda>input _. IOk input records))"

definition records_to_string :: "('r \<Rightarrow> string) \<Rightarrow> 'r list \<Rightarrow> string" where
  "records_to_string show_record records = concat (map (\<lambda>record. show_record record @ [CHR 0x0A]) records)"

datatype EtcShadow = EtcShadow "ShadowRecord list"

primrec EtcShadow_records :: "EtcShadow \<Rightarrow> ShadowRecord list" where
  "EtcShadow_records (EtcShadow records) = records"

definition EtcShadow_new :: EtcShadow where
  "EtcShadow_new = EtcShadow []"

definition EtcShadow_parse_internal :: "ShadowRecord nom_users \<Rightarrow> EtcShadow parser" where
  "EtcShadow_parse_internal N input =
     ibind (records_parse N (ShadowRecord_parse N) input) (\<lambda>input records. IOk input (EtcShadow records))"

definition EtcShadow_parse :: "ShadowRecord nom_users \<Rightarrow> string \<Rightarrow> text_error + EtcShadow" where
  "EtcShadow_parse N input = finish (EtcShadow_parse_internal N input)"

definition EtcShadow_push :: "EtcShadow \<Rightarrow> ShadowRecord \<Rightarrow> EtcShadow" where
  "EtcShadow_push s record = EtcShadow (EtcShadow_records s @ [record])"

definition EtcShadow_to_string :: "EtcShadow \<Rightarrow> string" where
  "EtcShadow_to_string s = records_to_string ShadowRecord_to_string (EtcShadow_records s)"

section \<open>The password file\<close>

record UserRecord =
  ur_name :: string
  ur_password :: Password
  ur_uid :: UserId
  ur_gid :: GroupId
  ur_comment :: string
  ur_homedir :: string
  ur_shell :: string

definition UserRecord_parse :: "'r nom_users \<Rightarrow> UserRecord parser" where
  "UserRecord_parse N input =
     ibind (nu_take_until1 N '':'' input) (\<lambda>input name.
     ibind (nu_char N CHR '':'' input) (\<lambda>input _.
     ibind (Password_parse N input) (\<lambda>input password.
     ibind (nu_char N CHR '':'' input) (\<lambda>input _.
     ibind (nu_u32 N input) (\<lambda>input uid.
     ibind (nu_char N CHR '':'' input) (\<lambda>input _.
     ibind (nu_u32 N input) (\<lambda>input gid.
     ibind (nu_char N CHR '':'' input) (\<lambda>input _.
     ibind (nu_take_until N '':'' input) (\<lambda>input comment.
     ibind (nu_char N CHR '':'' input) (\<lambda>input _.
     ibind (nu_take_until1 N '':'' input) (\<lambda>input homedir.
     ibind (nu_char N CHR '':'' input) (\<lambda>input _.
     ibind (nu_take_until1 N [CHR 0x0A] input) (\<lambda>input shell.
     IOk input
       \<lparr>ur_name = name, ur_password = password, ur_uid = UserId uid, ur_gid = GroupId gid, ur_comment = comment,
        ur_homedir = homedir, ur_shell = shell\<rparr>)))))))))))))"

definition UserRecord_to_string :: "UserRecord \<Rightarrow> string" where
  "UserRecord_to_string r =
     ur_name r @ '':'' @ Password_to_string (ur_password r) @ '':'' @ show_u32 (UserId_as_raw (ur_uid r)) @ '':'' @
     show_u32 (GroupId_as_raw (ur_gid r)) @ '':'' @ ur_comment r @ '':'' @ ur_homedir r @ '':'' @ ur_shell r"

definition new_shadow_record :: "UserRecord \<Rightarrow> ShadowRecord" where
  "new_shadow_record r =
     \<lparr>sr_name = ur_name r,
      sr_encrypted_password = (case ur_password r of Shadow \<Rightarrow> ''!!'' | Locked \<Rightarrow> ''!!'' | Empty \<Rightarrow> ''''),
      sr_last_password_change = None, sr_minimum_password_age = None, sr_maximum_password_age = None,
      sr_password_warning_period = None, sr_password_inactivity_period = None, sr_account_expiration_date = None,
      sr_reserved = ''''\<rparr>"

datatype EtcPasswd = EtcPasswd "UserRecord list"

primrec EtcPasswd_records :: "EtcPasswd \<Rightarrow> UserRecord list" where
  "EtcPasswd_records (EtcPasswd records) = records"

definition EtcPasswd_new :: EtcPasswd where
  "EtcPasswd_new =
     EtcPasswd [\<lparr>ur_name = ''root'', ur_password = Shadow, ur_uid = UserId 0, ur_gid = GroupId 0, ur_comment = '''',
       ur_homedir = ''/root'', ur_shell = ''/bin/bash''\<rparr>]"

definition EtcPasswd_parse_internal :: "UserRecord nom_users \<Rightarrow> EtcPasswd parser" where
  "EtcPasswd_parse_internal N input =
     ibind (records_parse N (UserRecord_parse N) input) (\<lambda>input records. IOk input (EtcPasswd records))"

definition EtcPasswd_parse :: "UserRecord nom_users \<Rightarrow> string \<Rightarrow> text_error + EtcPasswd" where
  "EtcPasswd_parse N input = finish (EtcPasswd_parse_internal N input)"

definition EtcPasswd_push :: "EtcPasswd \<Rightarrow> UserRecord \<Rightarrow> EtcPasswd" where
  "EtcPasswd_push p record = EtcPasswd (EtcPasswd_records p @ [record])"

definition get_user_by_name :: "EtcPasswd \<Rightarrow> string \<Rightarrow> UserRecord option" where
  "get_user_by_name p name = find (\<lambda>r. ur_name r = name) (EtcPasswd_records p)"

definition get_user_by_id :: "EtcPasswd \<Rightarrow> UserId \<Rightarrow> UserRecord option" where
  "get_user_by_id p id' = find (\<lambda>r. ur_uid r = id') (EtcPasswd_records p)"

definition EtcPasswd_to_string :: "EtcPasswd \<Rightarrow> string" where
  "EtcPasswd_to_string p = records_to_string UserRecord_to_string (EtcPasswd_records p)"

section \<open>The group file\<close>

record GroupRecord =
  gr_name :: string
  gr_password :: Password
  gr_gid :: GroupId
  gr_users :: "string list"

definition group_member :: "'r nom_users \<Rightarrow> string parser" where
  "group_member N = nu_recognize N (nu_many1 N (nu_none_of N '',''))"

definition GroupRecord_parse :: "'r nom_users \<Rightarrow> GroupRecord parser" where
  "GroupRecord_parse N input =
     ibind (nu_take_until1 N '':'' input) (\<lambda>input name.
     ibind (nu_char N CHR '':'' input) (\<lambda>input _.
     ibind (Password_parse N input) (\<lambda>input password.
     ibind (nu_char N CHR '':'' input) (\<lambda>input _.
     ibind (nu_u32 N input) (\<lambda>input gid.
     ibind (nu_char N CHR '':'' input) (\<lambda>input _.
     ibind (nu_take_until N [CHR 0x0A] input) (\<lambda>input users.
     ibind (nu_all_consuming_names N (nu_separated_names N (nu_char N CHR '','') (group_member N)) users) (\<lambda>_ users.
     IOk input \<lparr>gr_name = name, gr_password = password, gr_gid = GroupId gid, gr_users = users\<rparr>))))))))"

definition GroupRecord_to_string :: "GroupRecord \<Rightarrow> string" where
  "GroupRecord_to_string r =
     gr_name r @ '':'' @ Password_to_string (gr_password r) @ '':'' @ show_u32 (GroupId_as_raw (gr_gid r)) @ '':'' @
     concat (map (\<lambda>(i, u). u @ (if i < length (gr_users r) - 1 then '','' else '''')) (enumerate 0 (gr_users r)))"

datatype EtcGroup = EtcGroup "GroupRecord list"

primrec EtcGroup_records :: "EtcGroup \<Rightarrow> GroupRecord list" where
  "EtcGroup_records (EtcGroup records) = records"

definition EtcGroup_new :: EtcGroup where
  "EtcGroup_new =
     EtcGroup [\<lparr>gr_name = ''root'', gr_password = Shadow, gr_gid = GroupId 0, gr_users = [''root'']\<rparr>]"

definition EtcGroup_parse_internal :: "GroupRecord nom_users \<Rightarrow> EtcGroup parser" where
  "EtcGroup_parse_internal N input =
     ibind (records_parse N (GroupRecord_parse N) input) (\<lambda>input records. IOk input (EtcGroup records))"

definition EtcGroup_parse :: "GroupRecord nom_users \<Rightarrow> string \<Rightarrow> text_error + EtcGroup" where
  "EtcGroup_parse N input = finish (EtcGroup_parse_internal N input)"

definition EtcGroup_push :: "EtcGroup \<Rightarrow> GroupRecord \<Rightarrow> EtcGroup" where
  "EtcGroup_push g record = EtcGroup (EtcGroup_records g @ [record])"

definition get_group_by_name :: "EtcGroup \<Rightarrow> string \<Rightarrow> GroupRecord option" where
  "get_group_by_name g name = find (\<lambda>r. gr_name r = name) (EtcGroup_records g)"

definition get_group_by_id :: "EtcGroup \<Rightarrow> GroupId \<Rightarrow> GroupRecord option" where
  "get_group_by_id g id' = find (\<lambda>r. gr_gid r = id') (EtcGroup_records g)"

text \<open>A mutable reference to the first record of that name: what the caller does with it is a function on
  the record.\<close>

fun update_first :: "('r \<Rightarrow> bool) \<Rightarrow> ('r \<Rightarrow> 'r) \<Rightarrow> 'r list \<Rightarrow> 'r list option" where
  "update_first P f [] = None"
| "update_first P f (r # rs) = (if P r then Some (f r # rs) else map_option ((#) r) (update_first P f rs))"

definition get_group_by_name_mut :: "EtcGroup \<Rightarrow> string \<Rightarrow> (GroupRecord \<Rightarrow> GroupRecord) \<Rightarrow> EtcGroup option" where
  "get_group_by_name_mut g name f = map_option EtcGroup (update_first (\<lambda>r. gr_name r = name) f (EtcGroup_records g))"

definition EtcGroup_to_string :: "EtcGroup \<Rightarrow> string" where
  "EtcGroup_to_string g = records_to_string GroupRecord_to_string (EtcGroup_records g)"

section \<open>Maps of predefined ids\<close>

record UidMapUser =
  um_uid :: u32
  um_user_system :: "bool option"
  um_user_comment :: "string option"

record UidMapGroup =
  um_gid :: u32
  um_group_system :: "bool option"
  um_group_comment :: "string option"

record UidMap =
  um_users :: "string \<rightharpoonup> UidMapUser"
  um_groups :: "string \<rightharpoonup> UidMapGroup"

definition get_uid :: "UidMap \<Rightarrow> string \<Rightarrow> UserId option" where
  "get_uid m user = map_option (\<lambda>u. UserId (um_uid u)) (um_users m user)"

definition get_gid :: "UidMap \<Rightarrow> string \<Rightarrow> GroupId option" where
  "get_gid m name = map_option (\<lambda>g. GroupId (um_gid g)) (um_groups m name)"

end
