(* ===== verification/Users_Text.thy ===== *)
theory Users_Text
  imports Users
begin

text \<open>
  The password, group and shadow files are read back as they are printed. The laws that a file needs of
  its records are one interface, which each of the three formats implements; from them follow that the
  text of the file is parsed to its records again, and that every text that is accepted has records that
  can be printed and read again.
\<close>

section \<open>Single fields\<close>

lemma nom_users_simps:
  assumes "nom_users_documented N"
  shows nu_tag_simp: "nu_tag N t i = (if take (length t) i = t then IOk (drop (length t) i) t else IErr NomError)"
    and nu_alt_simps: "nu_alt N [] i = IErr NomError"
      "nu_alt N (p # ps) i = (if p i = IErr NomError then nu_alt N ps i else p i)"
    and nu_char_simp: "nu_char N c i = (case i of x # xs \<Rightarrow> if x = c then IOk xs c else IErr NomError | [] \<Rightarrow> IErr NomError)"
    and nu_newline_simp: "nu_newline N i =
      (case i of x # xs \<Rightarrow> if x = CHR 0x0A then IOk xs (CHR 0x0A) else IErr NomError | [] \<Rightarrow> IErr NomError)"
    and nu_take_until_simp: "nu_take_until N [c] i =
      (if c \<in> set i then IOk (dropWhile (\<lambda>x. x \<noteq> c) i) (takeWhile (\<lambda>x. x \<noteq> c) i) else IErr NomError)"
    and nu_take_until1_simp: "nu_take_until1 N [c] i =
      (if c \<in> set i \<and> hd i \<noteq> c then IOk (dropWhile (\<lambda>x. x \<noteq> c) i) (takeWhile (\<lambda>x. x \<noteq> c) i) else IErr NomError)"
    and nu_u32_simp: "nu_u32 N i = (case parse_digits (takeWhile is_digit i) of
      Some w \<Rightarrow> IOk (dropWhile is_digit i) w | None \<Rightarrow> IErr NomError)"
    and nu_opt_simp: "nu_opt N q i = (if q i = IErr NomError then IOk i None else ibind (q i) (\<lambda>j x. IOk j (Some x)))"
    and nu_none_of_simp: "nu_none_of N cs [] = IErr NomError"
      "nu_none_of N cs (x # xs) = (if x \<in> set cs then IErr NomError else IOk xs x)"
    and nu_recognize_simp: "nu_recognize N s i = ibind (s i) (\<lambda>j x. IOk j (take (length i - length j) i))"
    and nu_all_names_simp: "nu_all_consuming_names N ss i = ibind (ss i) (\<lambda>j x. if j = [] then IOk j x else IErr NomError)"
    and nu_all_simp: "nu_all_consuming N s i = ibind (s i) (\<lambda>j x. if j = [] then IOk j x else IErr NomError)"
    and nu_separated: "separated_list0_spec (nu_separated_list0 N)" "separated_list0_spec (nu_separated_names N)"
    and nu_many: "many0_spec (nu_many0 N)" "many1_spec (nu_many1 N)"
  using assms
  by (simp_all add: nom_users_documented_def tag_spec_def alt_spec_def char_spec_def take_until_spec_def take_until1_spec_def
      u32_spec_def opt_spec_def none_of_spec_def recognize_spec_def all_consuming_spec_def)

text \<open>A field up to the next colon or newline, with the delimiter left in the input.\<close>

lemma until_read:
  assumes "nom_users_documented N" and "c \<notin> set field"
  shows "nu_take_until N [c] (field @ c # rest) = IOk (c # rest) field"
    and "field \<noteq> [] \<Longrightarrow> nu_take_until1 N [c] (field @ c # rest) = IOk (c # rest) field"
proof -
  have "takeWhile (\<lambda>x. x \<noteq> c) (field @ c # rest) = field" "dropWhile (\<lambda>x. x \<noteq> c) (field @ c # rest) = c # rest"
    using assms(2) by (simp_all add: takeWhile_append dropWhile_append)
  then show "nu_take_until N [c] (field @ c # rest) = IOk (c # rest) field"
    "field \<noteq> [] \<Longrightarrow> nu_take_until1 N [c] (field @ c # rest) = IOk (c # rest) field"
    using assms by (auto simp: nu_take_until_simp nu_take_until1_simp hd_append)
qed

lemma colon_read: "nom_users_documented N \<Longrightarrow> nu_char N c (c # rest) = IOk rest c"
  by (simp add: nu_char_simp)

lemma u32_read:
  assumes "nom_users_documented N" and "\<not> is_digit c"
  shows "nu_u32 N (show_u32 w @ c # rest) = IOk (c # rest) w"
proof -
  have "takeWhile is_digit (show_u32 w @ c # rest) = show_u32 w" "dropWhile is_digit (show_u32 w @ c # rest) = c # rest"
    using assms(2) show_u32_digits [of w] by (simp_all add: takeWhile_append dropWhile_append list_all_iff takeWhile_eq_all_conv)
  then show ?thesis
    using assms(1) by (simp add: nu_u32_simp parse_digits_show)
qed

lemma not_digit [simp]: "\<not> is_digit CHR '':''" "\<not> is_digit (CHR 0x0A)"
  by (simp_all add: is_digit_def)

lemma password_read: "nom_users_documented N \<Longrightarrow> Password_parse N (Password_to_string p @ CHR '':'' # rest) = IOk (CHR '':'' # rest) p"
  by (cases p) (simp_all add: Password_parse_def nu_tag_simp nu_alt_simps)

lemma days_read:
  "nom_users_documented N \<Longrightarrow> opt_days N (OptionalDays_to_string d @ CHR '':'' # rest) = IOk rest d"
proof (cases d)
  case None
  then show "nom_users_documented N \<Longrightarrow> ?thesis"
    by (simp add: opt_days_def OptionalDays_to_string_def nu_opt_simp Days_parse_def nu_u32_simp parse_digits_def colon_read)
next
  case (Some days)
  then show "nom_users_documented N \<Longrightarrow> ?thesis"
    by (cases days) (simp add: opt_days_def OptionalDays_to_string_def nu_opt_simp Days_parse_def u32_read colon_read)
qed

lemmas field_reads = until_read colon_read u32_read password_read days_read

section \<open>Records\<close>

definition user_fits :: "UserRecord \<Rightarrow> bool" where
  "user_fits r \<longleftrightarrow>
     ur_name r \<noteq> [] \<and> CHR '':'' \<notin> set (ur_name r) \<and> CHR '':'' \<notin> set (ur_comment r) \<and>
     ur_homedir r \<noteq> [] \<and> CHR '':'' \<notin> set (ur_homedir r) \<and> ur_shell r \<noteq> [] \<and> CHR 0x0A \<notin> set (ur_shell r)"

definition shadow_fits :: "ShadowRecord \<Rightarrow> bool" where
  "shadow_fits r \<longleftrightarrow>
     sr_name r \<noteq> [] \<and> CHR '':'' \<notin> set (sr_name r) \<and> CHR '':'' \<notin> set (sr_encrypted_password r) \<and>
     CHR 0x0A \<notin> set (sr_reserved r)"

definition member_fits :: "string \<Rightarrow> bool" where
  "member_fits u \<longleftrightarrow> u \<noteq> [] \<and> CHR '','' \<notin> set u \<and> CHR 0x0A \<notin> set u"

definition group_fits :: "GroupRecord \<Rightarrow> bool" where
  "group_fits r \<longleftrightarrow> gr_name r \<noteq> [] \<and> CHR '':'' \<notin> set (gr_name r) \<and> (\<forall>u \<in> set (gr_users r). member_fits u)"

lemma user_read:
  assumes "nom_users_documented N" and "user_fits r"
  shows "UserRecord_parse N (UserRecord_to_string r @ CHR 0x0A # rest) = IOk (CHR 0x0A # rest) r"
proof -
  obtain uid gid where "ur_uid r = UserId uid" "ur_gid r = GroupId gid"
    by (cases "ur_uid r"; cases "ur_gid r")
  then show ?thesis
    using assms by (simp add: UserRecord_parse_def UserRecord_to_string_def user_fits_def field_reads)
qed

lemma shadow_read:
  assumes "nom_users_documented N" and "shadow_fits r"
  shows "ShadowRecord_parse N (ShadowRecord_to_string r @ CHR 0x0A # rest) = IOk (CHR 0x0A # rest) r"
  using assms by (simp add: ShadowRecord_parse_def ShadowRecord_to_string_def shadow_fits_def field_reads)

section \<open>The members of a group\<close>

lemma many1_none_of:
  assumes N: "nom_users_documented N"
  shows "nu_many1 N (nu_none_of N [c]) i =
    (if i = [] \<or> hd i = c then IErr NomError else IOk (dropWhile (\<lambda>x. x \<noteq> c) i) (takeWhile (\<lambda>x. x \<noteq> c) i))"
proof (induction i)
  case Nil
  then show ?case
    using many1_fails [OF nu_many(2) [OF N]] by (simp add: nu_none_of_simp [OF N])
next
  case (Cons x i)
  show ?case
  proof (cases "x = c")
    case True
    then show ?thesis
      using many1_fails [OF nu_many(2) [OF N]] by (simp add: nu_none_of_simp [OF N])
  next
    case False
    then show ?thesis
      using many1_step [OF nu_many(2) [OF N], of "nu_none_of N [c]" "x # i" i x] Cons.IH
      by (cases i) (auto simp: nu_none_of_simp [OF N])
  qed
qed

lemma group_member_simp:
  assumes N: "nom_users_documented N"
  shows "group_member N i = (if i = [] \<or> hd i = CHR '','' then IErr NomError
    else IOk (dropWhile (\<lambda>x. x \<noteq> CHR '','') i) (takeWhile (\<lambda>x. x \<noteq> CHR '','') i))"
proof -
  have "take (length i - length (dropWhile (\<lambda>x. x \<noteq> CHR '','') i)) i = takeWhile (\<lambda>x. x \<noteq> CHR '','') i"
    by (metis (no_types) add_diff_cancel_right' append_eq_conv_conj length_append takeWhile_dropWhile_id)
  then show ?thesis
    by (simp add: group_member_def nu_recognize_simp [OF N] many1_none_of [OF N])
qed

definition names_delimited :: "string \<Rightarrow> bool" where
  "names_delimited rest \<longleftrightarrow> rest = [] \<or> hd rest = CHR '',''"

locale documented_users =
  fixes N :: "'r nom_users"
  assumes documented: "nom_users_documented N"

sublocale documented_users \<subseteq> names: separated_text "nu_separated_names N" "nu_char N CHR '',''" "group_member N" "'',''"
    names_delimited "\<lambda>u. u" member_fits
proof
  show "\<exists>y. nu_char N CHR '','' ('','' @ rest) = IOk rest y" for rest
    by (simp add: colon_read [OF documented])
  show "group_member N (u @ rest) = IOk rest u" if "member_fits u" "names_delimited rest" for u rest
  proof -
    have "takeWhile (\<lambda>x. x \<noteq> CHR '','') (u @ rest) = u" "dropWhile (\<lambda>x. x \<noteq> CHR '','') (u @ rest) = rest"
      using that by (cases rest; auto simp: member_fits_def names_delimited_def takeWhile_append dropWhile_append)+
    then show ?thesis
      using that by (cases u) (auto simp: group_member_simp [OF documented] member_fits_def)
  qed
qed (simp_all add: nu_separated [OF documented] names_delimited_def)

interpretation example_users: documented_users example_nom_users
  by unfold_locales (rule example_nom_users_documented)

context documented_users
begin

lemma members_read:
  assumes "\<forall>u \<in> set us. member_fits u"
  shows "nu_all_consuming_names N (nu_separated_names N (nu_char N CHR '','') (group_member N)) (join_with '','' us) = IOk [] us"
proof (cases "us = []")
  case True
  then show ?thesis
    by (simp add: nu_all_names_simp [OF documented] separated_stop [OF nu_separated(2) [OF documented]] group_member_simp [OF documented])
next
  case False
  then show ?thesis
    using names.items_read [OF assms, of "[]"]
    by (simp add: nu_all_names_simp [OF documented] names.ends_list_def nu_char_simp [OF documented] names_delimited_def)
qed

end

lemma joined_names:
  "concat (map (\<lambda>(i, u). u @ (if i < n + length us - 1 then '','' else [])) (enumerate n us)) = join_with '','' us"
proof (induction us arbitrary: n)
  case (Cons u us)
  then show ?case
    using Cons.IH [of "Suc n"] by (cases us) simp_all
qed simp

lemma joined_free: "\<forall>u \<in> set us. member_fits u \<Longrightarrow> CHR 0x0A \<notin> set (join_with '','' us)"
  by (induction us) (auto simp: join_with_Cons member_fits_def)

lemma group_read:
  assumes "nom_users_documented N" and "group_fits r"
  shows "GroupRecord_parse N (GroupRecord_to_string r @ CHR 0x0A # rest) = IOk (CHR 0x0A # rest) r"
proof -
  obtain gid where "gr_gid r = GroupId gid"
    by (cases "gr_gid r")
  then show ?thesis
    using assms joined_names [of 0 "gr_users r"]
    by (simp add: GroupRecord_parse_def GroupRecord_to_string_def group_fits_def field_reads joined_free
        documented_users.members_read [OF documented_users.intro])
qed

section \<open>What the parsers return\<close>

lemma field_outcomes:
  assumes "nom_users_documented N"
  shows until_outcome: "outcome (\<lambda>s. c \<notin> set s) i (nu_take_until N [c] i)"
    and until1_outcome: "outcome (\<lambda>s. s \<noteq> [] \<and> c \<notin> set s) i (nu_take_until1 N [c] i)"
    and char_outcome: "outcome (\<lambda>_. True) i (nu_char N c i)"
    and u32_outcome: "outcome (\<lambda>_. True) i (nu_u32 N i)"
    and password_outcome: "outcome (\<lambda>_. True) i (Password_parse N i)"
    and days_outcome: "outcome (\<lambda>_. True) i (opt_days N i)"
proof -
  have len: "length (dropWhile P i) \<le> length i" for P and i :: string
    by (rule length_dropWhile_le)
  show "outcome (\<lambda>s. c \<notin> set s) i (nu_take_until N [c] i)"
    "outcome (\<lambda>s. s \<noteq> [] \<and> c \<notin> set s) i (nu_take_until1 N [c] i)"
    using assms len by (auto simp: outcome_def nu_take_until_simp nu_take_until1_simp takeWhile_eq_Nil_iff dest: set_takeWhileD)
  show c: "outcome (\<lambda>_. True) i (nu_char N c i)" for c i
    using assms by (auto simp: outcome_def nu_char_simp split: list.split)
  show u: "outcome (\<lambda>_. True) i (nu_u32 N i)" for i
    using assms len by (auto simp: outcome_def nu_u32_simp split: option.split)
  show "outcome (\<lambda>_. True) i (Password_parse N i)"
    using assms by (auto simp: outcome_def Password_parse_def nu_tag_simp nu_alt_simps)
  have "outcome (\<lambda>_. True) i (nu_opt N (Days_parse N) i)" for i
    using assms u [of i] by (auto simp: outcome_def nu_opt_simp Days_parse_def)
  then show "outcome (\<lambda>_. True) i (opt_days N i)"
    unfolding opt_days_def by (rule outcome_bind) (rule outcome_bind [OF c], simp add: outcome_IOk)
qed

lemma user_outcome: "nom_users_documented N \<Longrightarrow> outcome user_fits i (UserRecord_parse N i)"
  unfolding UserRecord_parse_def
  by (rule outcome_bind, erule field_outcomes)+ (simp add: outcome_IOk user_fits_def)

lemma shadow_outcome: "nom_users_documented N \<Longrightarrow> outcome shadow_fits i (ShadowRecord_parse N i)"
  unfolding ShadowRecord_parse_def
  by (rule outcome_bind, erule field_outcomes)+ (simp add: outcome_IOk shadow_fits_def)

lemma members_outcome:
  assumes N: "nom_users_documented N" and "CHR 0x0A \<notin> set i"
  shows "outcome (\<lambda>us. \<forall>u \<in> set us. member_fits u) i
    (nu_all_consuming_names N (nu_separated_names N (nu_char N CHR '','') (group_member N)) i)"
proof -
  have "\<exists>j us. nu_separated_names N (nu_char N CHR '','') (group_member N) i = IOk j us \<and> length j \<le> length i \<and>
      (\<forall>u \<in> set us. member_fits u)"
  proof (rule separated_sound [where f = "nu_separated_names N" and P = "\<lambda>i. CHR 0x0A \<notin> set i" and good = member_fits])
    show "separated_list0_spec (nu_separated_names N)"
      by (rule nu_separated(2) [OF N])
    show "group_member N i = IErr NomError \<or>
        (\<exists>j x. group_member N i = IOk j x \<and> length j \<le> length i \<and> CHR 0x0A \<notin> set j \<and> member_fits x)"
      if "CHR 0x0A \<notin> set i" for i
      using that by (auto simp: group_member_simp [OF N] member_fits_def takeWhile_eq_Nil_iff length_dropWhile_le
          dest: set_takeWhileD set_dropWhileD)
    show "nu_char N CHR '','' i = IErr NomError \<or>
        (\<exists>j y. nu_char N CHR '','' i = IOk j y \<and> length j < length i \<and> CHR 0x0A \<notin> set j)"
      if "CHR 0x0A \<notin> set i" for i
      using that by (auto simp: nu_char_simp [OF N] split: list.split)
  qed (rule assms(2))
  then show ?thesis
    by (force simp: outcome_def nu_all_names_simp [OF N])
qed

lemma group_outcome:
  assumes N: "nom_users_documented N"
  shows "outcome group_fits i (GroupRecord_parse N i)"
proof -
  have members: "outcome group_fits i (ibind (nu_all_consuming_names N (nu_separated_names N (nu_char N CHR '','') (group_member N)) users)
      (\<lambda>_ users. IOk i \<lparr>gr_name = name, gr_password = password, gr_gid = GroupId gid, gr_users = users\<rparr>))"
    if "CHR 0x0A \<notin> set users" "name \<noteq> [] \<and> CHR '':'' \<notin> set name" for i name password gid users
    using members_outcome [OF N that(1)] that(2) by (auto simp: outcome_def group_fits_def)
  show ?thesis
    unfolding GroupRecord_parse_def by ((rule outcome_bind, rule field_outcomes [OF N])+) (rule members)
qed

section \<open>Files\<close>

definition line_end :: "string \<Rightarrow> bool" where
  "line_end rest \<longleftrightarrow> rest \<noteq> [] \<and> hd rest = CHR 0x0A"

text \<open>What a file needs of the parser and the printing of its records.\<close>

locale etc_file = documented_users N for N :: "'r nom_users" +
  fixes record_parse :: "'r parser" and show_record :: "'r \<Rightarrow> string" and fits :: "'r \<Rightarrow> bool"
  assumes record_read: "fits r \<Longrightarrow> record_parse (show_record r @ CHR 0x0A # rest) = IOk (CHR 0x0A # rest) r"
    and record_outcome: "outcome fits i (record_parse i)"
    and no_record: "record_parse [] = IErr NomError"

sublocale etc_file \<subseteq> records: separated_text "nu_separated_list0 N" "nu_newline N" record_parse "[CHR 0x0A]" line_end show_record fits
proof
  show "\<exists>y. nu_newline N ([CHR 0x0A] @ rest) = IOk rest y" for rest
    by (simp add: nu_newline_simp [OF documented])
  show "record_parse (show_record r @ rest) = IOk rest r" if "fits r" "line_end rest" for r rest
    using that record_read [of r "tl rest"] by (cases rest) (simp_all add: line_end_def)
qed (simp_all add: nu_separated [OF documented] line_end_def)

context etc_file
begin

lemma records_to_string_join:
  "records \<noteq> [] \<Longrightarrow> records_to_string show_record records = join_with [CHR 0x0A] (map show_record records) @ [CHR 0x0A]"
proof (induction records)
  case (Cons r rs)
  then show ?case
    by (cases rs) (simp_all add: records_to_string_def)
qed simp

lemma newlines_read: "nu_all_consuming N (nu_many0 N (nu_newline N)) (replicate n (CHR 0x0A)) = IOk [] (replicate n (CHR 0x0A))"
proof -
  have "nu_many0 N (nu_newline N) (replicate n (CHR 0x0A)) = IOk [] (replicate n (CHR 0x0A))"
    by (induction n) (simp_all add: many0_simps [OF nu_many(1) [OF documented]] nu_newline_simp [OF documented])
  then show ?thesis
    by (simp add: nu_all_simp [OF documented])
qed

lemma records_read:
  assumes "\<forall>r \<in> set records. fits r"
  shows "records_parse N record_parse (records_to_string show_record records) = IOk [] records"
proof (cases "records = []")
  case True
  then show ?thesis
    using newlines_read [of 0]
    by (simp add: records_parse_def records_to_string_def separated_stop [OF nu_separated(1) [OF documented]] no_record)
next
  case False
  have "records.ends_list [CHR 0x0A]"
    by (simp add: records.ends_list_def line_end_def nu_newline_simp [OF documented] no_record)
  then show ?thesis
    using False records.items_read [OF assms] newlines_read [of 1]
    by (simp add: records_parse_def records_to_string_join)
qed

lemma records_fit:
  assumes "records_parse N record_parse input = IOk rest records"
  shows "\<forall>r \<in> set records. fits r"
proof -
  have "\<exists>j rs. nu_separated_list0 N (nu_newline N) record_parse input = IOk j rs \<and> length j \<le> length input \<and> (\<forall>r \<in> set rs. fits r)"
  proof (rule separated_sound [where f = "nu_separated_list0 N" and P = "\<lambda>_. True" and good = fits])
    show "record_parse i = IErr NomError \<or> (\<exists>j x. record_parse i = IOk j x \<and> length j \<le> length i \<and> True \<and> fits x)" for i
      using record_outcome [of i] by (simp add: outcome_def)
    show "nu_newline N i = IErr NomError \<or> (\<exists>j y. nu_newline N i = IOk j y \<and> length j < length i \<and> True)" for i
      by (auto simp: nu_newline_simp [OF documented] split: list.split)
  qed (simp_all add: nu_separated [OF documented])
  then show ?thesis
    using assms by (auto simp: records_parse_def ibind_eq_IOk_iff)
qed

lemma records_reread:
  "records_parse N record_parse input = IOk rest records \<Longrightarrow>
   records_parse N record_parse (records_to_string show_record records) = IOk [] records"
  using records_fit records_read by blast

end

lemma no_records:
  assumes "nom_users_documented N"
  shows "UserRecord_parse N [] = IErr NomError" "GroupRecord_parse N [] = IErr NomError" "ShadowRecord_parse N [] = IErr NomError"
  using assms
  by (simp_all add: UserRecord_parse_def GroupRecord_parse_def ShadowRecord_parse_def nu_take_until1_simp)

lemma passwd_file: "nom_users_documented N \<Longrightarrow> etc_file N (UserRecord_parse N) UserRecord_to_string user_fits"
  by unfold_locales (simp_all add: user_read user_outcome no_records)

lemma group_file: "nom_users_documented N \<Longrightarrow> etc_file N (GroupRecord_parse N) GroupRecord_to_string group_fits"
  by unfold_locales (simp_all add: group_read group_outcome no_records)

lemma shadow_file: "nom_users_documented N \<Longrightarrow> etc_file N (ShadowRecord_parse N) ShadowRecord_to_string shadow_fits"
  by unfold_locales (simp_all add: shadow_read shadow_outcome no_records)

interpretation example_passwd: etc_file "example_nom_users :: UserRecord nom_users"
    "UserRecord_parse (example_nom_users :: UserRecord nom_users)" UserRecord_to_string user_fits
  by (rule passwd_file [OF example_nom_users_documented])

interpretation example_group: etc_file "example_nom_users :: GroupRecord nom_users"
    "GroupRecord_parse (example_nom_users :: GroupRecord nom_users)" GroupRecord_to_string group_fits
  by (rule group_file [OF example_nom_users_documented])

interpretation example_shadow: etc_file "example_nom_users :: ShadowRecord nom_users"
    "ShadowRecord_parse (example_nom_users :: ShadowRecord nom_users)" ShadowRecord_to_string shadow_fits
  by (rule shadow_file [OF example_nom_users_documented])

section \<open>The files of an image\<close>

lemma finish_eq_Inr: "finish r = Inr x \<longleftrightarrow> (\<exists>i. r = IOk i x)"
  by (cases r) (simp_all add: finish_def)

lemma passwd_parses:
  assumes "nom_users_documented N" and "\<forall>r \<in> set (EtcPasswd_records p). user_fits r"
  shows "EtcPasswd_parse N (EtcPasswd_to_string p) = Inr p"
  using etc_file.records_read [OF passwd_file [OF assms(1)] assms(2)]
  by (cases p) (simp add: EtcPasswd_parse_def EtcPasswd_parse_internal_def EtcPasswd_to_string_def)

lemma passwd_parsed_fits:
  assumes "nom_users_documented N" and "EtcPasswd_parse N s = Inr p"
  shows "\<forall>r \<in> set (EtcPasswd_records p). user_fits r"
  using assms(2) etc_file.records_fit [OF passwd_file [OF assms(1)]]
  by (auto simp: EtcPasswd_parse_def EtcPasswd_parse_internal_def finish_eq_Inr ibind_eq_IOk_iff)

lemma group_parses:
  assumes "nom_users_documented N" and "\<forall>r \<in> set (EtcGroup_records g). group_fits r"
  shows "EtcGroup_parse N (EtcGroup_to_string g) = Inr g"
  using etc_file.records_read [OF group_file [OF assms(1)] assms(2)]
  by (cases g) (simp add: EtcGroup_parse_def EtcGroup_parse_internal_def EtcGroup_to_string_def)

lemma group_parsed_fits:
  assumes "nom_users_documented N" and "EtcGroup_parse N s = Inr g"
  shows "\<forall>r \<in> set (EtcGroup_records g). group_fits r"
  using assms(2) etc_file.records_fit [OF group_file [OF assms(1)]]
  by (auto simp: EtcGroup_parse_def EtcGroup_parse_internal_def finish_eq_Inr ibind_eq_IOk_iff)

lemma shadow_parses:
  assumes "nom_users_documented N" and "\<forall>r \<in> set (EtcShadow_records h). shadow_fits r"
  shows "EtcShadow_parse N (EtcShadow_to_string h) = Inr h"
  using etc_file.records_read [OF shadow_file [OF assms(1)] assms(2)]
  by (cases h) (simp add: EtcShadow_parse_def EtcShadow_parse_internal_def EtcShadow_to_string_def)

lemma shadow_parsed_fits:
  assumes "nom_users_documented N" and "EtcShadow_parse N s = Inr h"
  shows "\<forall>r \<in> set (EtcShadow_records h). shadow_fits r"
  using assms(2) etc_file.records_fit [OF shadow_file [OF assms(1)]]
  by (auto simp: EtcShadow_parse_def EtcShadow_parse_internal_def finish_eq_Inr ibind_eq_IOk_iff)

text \<open>C25. Whatever password, group and shadow texts the parsers accept, blank lines at the end included, the
  printed form of the records is a text that they accept too, and it gives the same records: writing a
  database back and reading it again loses nothing.\<close>

theorem etc_files_reparse:
  assumes "nom_users_documented N" and "nom_users_documented M" and "nom_users_documented K"
    and "EtcPasswd_parse N ps = Inr p" and "EtcGroup_parse M gs = Inr g" and "EtcShadow_parse K hs = Inr h"
  shows "EtcPasswd_parse N (EtcPasswd_to_string p) = Inr p \<and> EtcGroup_parse M (EtcGroup_to_string g) = Inr g \<and>
    EtcShadow_parse K (EtcShadow_to_string h) = Inr h"
  using passwd_parses [OF assms(1) passwd_parsed_fits [OF assms(1,4)]] group_parses [OF assms(2) group_parsed_fits [OF assms(2,5)]]
    shadow_parses [OF assms(3) shadow_parsed_fits [OF assms(3,6)]]
  by simp

theorem etc_files_reparse_witness:
  "EtcPasswd_parse example_nom_users (EtcPasswd_to_string EtcPasswd_new) = Inr EtcPasswd_new \<and>
   EtcGroup_parse example_nom_users (EtcGroup_to_string EtcGroup_new) = Inr EtcGroup_new \<and>
   EtcShadow_parse example_nom_users (EtcShadow_to_string EtcShadow_new) = Inr EtcShadow_new"
proof -
  have "EtcPasswd_parse example_nom_users (EtcPasswd_to_string EtcPasswd_new) = Inr EtcPasswd_new"
    "EtcGroup_parse example_nom_users (EtcGroup_to_string EtcGroup_new) = Inr EtcGroup_new"
    "EtcShadow_parse example_nom_users (EtcShadow_to_string EtcShadow_new) = Inr EtcShadow_new"
    using passwd_parses [OF example_nom_users_documented] group_parses [OF example_nom_users_documented]
      shadow_parses [OF example_nom_users_documented]
    by (simp_all add: EtcPasswd_new_def EtcGroup_new_def EtcShadow_new_def user_fits_def group_fits_def member_fits_def)
  from etc_files_reparse [OF example_nom_users_documented example_nom_users_documented example_nom_users_documented this]
  show ?thesis .
qed

end
