(* ===== verification/Depgraph_Items.thy ===== *)
theory Depgraph_Items
  imports Decimal
begin

text \<open>
  \<open>antlir2/antlir2_depgraph_if/src\<close>: the items that features provide and require (\<open>item.rs\<close>), requirements and
  their validators (\<open>requirement.rs\<close>, \<open>validator.rs\<close>, \<open>lib.rs\<close>), and the facts about directory entries that stand
  for items of a parent layer (\<open>antlir2_facts/src/fact/dir_entry.rs\<close>, \<open>antlir2_depgraph/src/fact_interop.rs\<close>).
  A path is its text; the operations of \<open>std::path\<close> are those on Unix.
\<close>

section \<open>Paths\<close>

datatype Component = RootDir | CurDir | ParentDir | Normal string

text \<open>\<open>Path::components\<close>: repeated separators and inner dots are dropped.\<close>

definition component_of :: "string \<Rightarrow> Component option" where
  "component_of s = (if s = [] \<or> s = ''.'' then None else if s = ''..'' then Some ParentDir else Some (Normal s))"

definition components :: "string \<Rightarrow> Component list" where
  "components s =
     (let parts = split_at CHR ''/'' s
      in (if s \<noteq> [] \<and> hd s = CHR ''/'' then [RootDir] else if hd parts = ''.'' then [CurDir] else []) @
         List.map_filter component_of parts)"

text \<open>\<open>PathBuf::push\<close> replaces the path if the argument is absolute.\<close>

definition path_push :: "string \<Rightarrow> string \<Rightarrow> string" where
  "path_push buf p =
     (if p \<noteq> [] \<and> hd p = CHR ''/'' then p
      else if buf = [] \<or> last buf = CHR ''/'' then buf @ p
      else buf @ ''/'' @ p)"

text \<open>\<open>PathBuf::pop\<close>, for text without repeated or trailing separators, which is all it is called on.\<close>

definition path_pop :: "string \<Rightarrow> string" where
  "path_pop s =
     (if s = ''/'' then s
      else let t = rev (dropWhile (\<lambda>c. c \<noteq> CHR ''/'') (rev s))
           in if t = [] \<or> t = ''/'' then t else butlast t)"

section \<open>Items\<close>

datatype FileType = File | SymlinkType | Directory | BlockDevice | CharDevice | Fifo | Socket

text \<open>The bits of \<open>SFlag\<close> are those of POSIX; \<open>contains\<close> asks for all bits of its argument.\<close>

definition sflag_contains :: "u32 \<Rightarrow> u32 \<Rightarrow> bool" where
  "sflag_contains mode flag \<longleftrightarrow> mode AND flag = flag"

definition S_IFIFO :: u32 where "S_IFIFO = 0x1000"
definition S_IFCHR :: u32 where "S_IFCHR = 0x2000"
definition S_IFDIR :: u32 where "S_IFDIR = 0x4000"
definition S_IFBLK :: u32 where "S_IFBLK = 0x6000"
definition S_IFREG :: u32 where "S_IFREG = 0x8000"
definition S_IFLNK :: u32 where "S_IFLNK = 0xA000"
definition S_IFSOCK :: u32 where "S_IFSOCK = 0xC000"

definition FileType_from_mode :: "u32 \<Rightarrow> FileType option" where
  "FileType_from_mode mode =
     (if sflag_contains mode S_IFDIR then Some Directory
      else if sflag_contains mode S_IFLNK then Some SymlinkType
      else if sflag_contains mode S_IFSOCK then Some Socket
      else if sflag_contains mode S_IFIFO then Some Fifo
      else if sflag_contains mode S_IFCHR then Some CharDevice
      else if sflag_contains mode S_IFBLK then Some BlockDevice
      else if sflag_contains mode S_IFREG then Some File
      else None)"

record FsEntry =
  fe_path :: string
  fe_file_type :: FileType
  fe_mode :: u32

record Mount =
  mt_path :: string
  mt_file_type :: FileType
  mt_mode :: u32
  mt_source_description :: string

datatype PathItem = Entry FsEntry | SymlinkItem (si_link: string) (si_target: string) | MountItem Mount

datatype Item = ItemPath PathItem | ItemUser string | ItemGroup string

datatype ItemKey = KeyPath string | KeyUser string | KeyGroup string

fun Item_key :: "Item \<Rightarrow> ItemKey" where
  "Item_key (ItemPath (Entry e)) = KeyPath (fe_path e)"
| "Item_key (ItemPath (SymlinkItem link target)) = KeyPath link"
| "Item_key (ItemPath (MountItem mnt)) = KeyPath (mt_path mnt)"
| "Item_key (ItemUser name) = KeyUser name"
| "Item_key (ItemGroup name) = KeyGroup name"

section \<open>Requirements\<close>

datatype Validator = Exists | All "Validator list" | Any "Validator list" | HasFileType FileType | Executable

fun satisfies :: "Validator \<Rightarrow> Item \<Rightarrow> bool" where
  "satisfies Exists item = True"
| "satisfies (All vs) item = list_all (\<lambda>v. satisfies v item) vs"
| "satisfies (Any vs) item = list_ex (\<lambda>v. satisfies v item) vs"
| "satisfies (HasFileType f) item = (case item of ItemPath (Entry e) \<Rightarrow> fe_file_type e = f | _ \<Rightarrow> False)"
| "satisfies Executable item =
     (case item of ItemPath (Entry e) \<Rightarrow> fe_file_type e = File \<and> fe_mode e AND 0x49 \<noteq> 0 | _ \<Rightarrow> False)"

record Requirement =
  rq_key :: ItemKey
  rq_validator :: Validator
  rq_ordered :: bool

definition Requirement_ordered :: "ItemKey \<Rightarrow> Validator \<Rightarrow> Requirement" where
  "Requirement_ordered key validator = \<lparr>rq_key = key, rq_validator = validator, rq_ordered = True\<rparr>"

definition Requirement_unordered :: "ItemKey \<Rightarrow> Validator \<Rightarrow> Requirement" where
  "Requirement_unordered key validator = \<lparr>rq_key = key, rq_validator = validator, rq_ordered = False\<rparr>"

text \<open>A feature as the graph sees it: its label, its type and its data, which is compared as a value.\<close>

record Feature =
  ft_label :: string
  ft_feature_type :: string
  ft_data :: string

record AnalyzedFeature =
  af_feature :: Feature
  af_requires :: "Requirement list"
  af_provides :: "Item list"

section \<open>Facts\<close>

record FileCommon =
  fc_path :: string
  fc_uid :: u32
  fc_gid :: u32
  fc_mode :: u32

record SymlinkFact =
  sl_common :: FileCommon
  sl_target :: string
  sl_raw_target :: string

datatype DirEntry = DirectoryEntry FileCommon | SymlinkEntry SymlinkFact | RegularFileEntry FileCommon

text \<open>\<open>Path::parent\<close>, for the paths of facts.\<close>

definition path_parent :: "string \<Rightarrow> string option" where
  "path_parent s = (if s = [] \<or> s = ''/'' then None else Some (path_pop s))"

fun target_step :: "string \<Rightarrow> Component \<Rightarrow> string" where
  "target_step target RootDir = path_push target ''/''"
| "target_step target CurDir = target"
| "target_step target ParentDir = path_pop target"
| "target_step target (Normal n) = path_push target n"

definition Symlink_new :: "FileCommon \<Rightarrow> string \<Rightarrow> SymlinkFact" where
  "Symlink_new common raw_target =
     \<lparr>sl_common = common,
      sl_target = foldl target_step (case path_parent (fc_path common) of Some p \<Rightarrow> p | None \<Rightarrow> ''/'') (components raw_target),
      sl_raw_target = raw_target\<rparr>"

primrec DirEntry_common :: "DirEntry \<Rightarrow> FileCommon" where
  "DirEntry_common (DirectoryEntry d) = d"
| "DirEntry_common (SymlinkEntry s) = sl_common s"
| "DirEntry_common (RegularFileEntry f) = f"

primrec DirEntry_to_item :: "DirEntry \<Rightarrow> PathItem" where
  "DirEntry_to_item (DirectoryEntry d) =
     Entry \<lparr>fe_path = fc_path d, fe_file_type = Directory, fe_mode = fc_mode d\<rparr>"
| "DirEntry_to_item (SymlinkEntry s) = SymlinkItem (fc_path (sl_common s)) (sl_target s)"
| "DirEntry_to_item (RegularFileEntry f) =
     Entry \<lparr>fe_path = fc_path f,
       fe_file_type = (case FileType_from_mode (fc_mode f) of Some t \<Rightarrow> t | None \<Rightarrow> File),
       fe_mode = fc_mode f\<rparr>"

section \<open>File types of modes\<close>

text \<open>What the bits of a mode mean.\<close>

definition type_of_bits :: "u32 \<Rightarrow> FileType option" where
  "type_of_bits mode =
     (let t = mode AND 0xF000
      in if t = S_IFDIR then Some Directory else if t = S_IFLNK then Some SymlinkType
         else if t = S_IFSOCK then Some Socket else if t = S_IFIFO then Some Fifo
         else if t = S_IFCHR then Some CharDevice else if t = S_IFBLK then Some BlockDevice
         else if t = S_IFREG then Some File else None)"

lemma sflag_contains_masked: "flag AND 0xF000 = flag \<Longrightarrow> sflag_contains mode flag \<longleftrightarrow> sflag_contains (mode AND 0xF000) flag"
  by (simp add: sflag_contains_def and.assoc and.left_commute) (metis and.commute)

lemmas sflags = S_IFIFO_def S_IFCHR_def S_IFDIR_def S_IFBLK_def S_IFREG_def S_IFLNK_def S_IFSOCK_def

text \<open>Of the seven kinds of files, exactly sockets and block devices are given the wrong type by \<open>from_mode\<close>:
  their type bits include those of a directory, and they are taken for directories.\<close>

theorem file_type_from_mode:
  "type_of_bits mode = Some t \<Longrightarrow>
   FileType_from_mode mode = Some (if t = Socket \<or> t = BlockDevice then Directory else t)"
proof -
  assume t: "type_of_bits mode = Some t"
  have "FileType_from_mode mode = FileType_from_mode (mode AND 0xF000)"
    unfolding FileType_from_mode_def sflags
    by (subst (1 2 3 4 5 6 7) sflag_contains_masked) simp_all
  then show ?thesis
    using t by (auto simp: type_of_bits_def Let_def FileType_from_mode_def sflag_contains_def sflags split: if_splits)
qed

theorem file_type_from_mode_witness: "FileType_from_mode 0x61B0 = Some Directory"
  using file_type_from_mode [of "0x61B0" BlockDevice] by (simp add: type_of_bits_def sflags)

end
