(* ===== verification/Accounts.thy ===== *)
theory Accounts
  imports Users_Text Depgraph_Items
begin

text \<open>
  The features that write the user and group files of an image: \<open>antlir2/features/user/user.rs\<close>, \<open>group/group.rs\<close> and
  \<open>usermod/usermod.rs\<close>, with the databases of \<open>antlir2_compile/src/lib.rs\<close> that they read. The layer is its three files and
  the permissions of \<open>/etc/shadow\<close>; \<open>/etc\<close> and the files are not symbolic links, so that \<open>dst_path\<close> names them. A file may be
  missing, unreadable or not writable. The loading of a uidmap, a JSON file, is a parameter.
\<close>

section \<open>The layer\<close>

datatype etc_name = PasswdFile | ShadowFile | GroupFile

datatype file_state = NotFound | Unreadable | Content string

record layer =
  ly_files :: "etc_name \<Rightarrow> file_state"
  ly_writable :: "etc_name \<Rightarrow> bool"
  ly_shadow_mode :: "u32 option"

datatype compile_error = NoSuchUser string | NoSuchGroup string | LoadUsers text_error | IO | Other

type_synonym 'a compiled = "(compile_error + 'a) \<times> layer"

record users_nom =
  un_passwd :: "UserRecord nom_users"
  un_shadow :: "ShadowRecord nom_users"
  un_group :: "GroupRecord nom_users"

definition users_nom_documented :: "users_nom \<Rightarrow> bool" where
  "users_nom_documented N \<longleftrightarrow>
     nom_users_documented (un_passwd N) \<and> nom_users_documented (un_shadow N) \<and> nom_users_documented (un_group N)"

definition example_users_nom :: users_nom where
  "example_users_nom = \<lparr>un_passwd = example_nom_users, un_shadow = example_nom_users, un_group = example_nom_users\<rparr>"

lemma example_users_nom_documented: "users_nom_documented example_users_nom"
  by (simp add: users_nom_documented_def example_users_nom_def example_nom_users_documented)

text \<open>\<open>parse_file\<close> on an open file, and the default for a missing one.\<close>

definition read_db :: "(string \<Rightarrow> text_error + 'a) \<Rightarrow> 'a \<Rightarrow> file_state \<Rightarrow> compile_error + 'a" where
  "read_db from_str default_db f =
     (case f of
        NotFound \<Rightarrow> Inr default_db
      | Unreadable \<Rightarrow> Inl IO
      | Content src \<Rightarrow> (case from_str src of Inl e \<Rightarrow> Inl (LoadUsers e) | Inr db \<Rightarrow> Inr db))"

definition user_db :: "users_nom \<Rightarrow> layer \<Rightarrow> compile_error + EtcPasswd" where
  "user_db N L = read_db (EtcPasswd_parse (un_passwd N)) EtcPasswd_new (ly_files L PasswdFile)"

definition shadow_db :: "users_nom \<Rightarrow> layer \<Rightarrow> compile_error + EtcShadow" where
  "shadow_db N L = read_db (EtcShadow_parse (un_shadow N)) EtcShadow_new (ly_files L ShadowFile)"

definition groups_db :: "users_nom \<Rightarrow> layer \<Rightarrow> compile_error + EtcGroup" where
  "groups_db N L = read_db (EtcGroup_parse (un_group N)) EtcGroup_new (ly_files L GroupFile)"

definition ctx_uid :: "users_nom \<Rightarrow> layer \<Rightarrow> string \<Rightarrow> compile_error + UserId" where
  "ctx_uid N L name =
     (case user_db N L of
        Inl e \<Rightarrow> Inl e
      | Inr db \<Rightarrow> (case get_user_by_name db name of Some u \<Rightarrow> Inr (ur_uid u) | None \<Rightarrow> Inl (NoSuchUser name)))"

definition ctx_gid :: "users_nom \<Rightarrow> layer \<Rightarrow> string \<Rightarrow> compile_error + GroupId" where
  "ctx_gid N L name =
     (case groups_db N L of
        Inl e \<Rightarrow> Inl e
      | Inr db \<Rightarrow> (case get_group_by_name db name of Some g \<Rightarrow> Inr (gr_gid g) | None \<Rightarrow> Inl (NoSuchGroup name)))"

text \<open>\<open>?\<close> on a result that leaves the layer alone, and \<open>std::fs::write\<close> with \<open>?\<close>.\<close>

definition attempt :: "compile_error + 'a \<Rightarrow> layer \<Rightarrow> ('a \<Rightarrow> 'b compiled) \<Rightarrow> 'b compiled" where
  "attempt r L k = (case r of Inl e \<Rightarrow> (Inl e, L) | Inr x \<Rightarrow> k x)"

definition write_file :: "etc_name \<Rightarrow> string \<Rightarrow> layer \<Rightarrow> (layer \<Rightarrow> 'b compiled) \<Rightarrow> 'b compiled" where
  "write_file f text L k =
     (if ly_writable L f then k (L\<lparr>ly_files := (ly_files L)(f := Content text)\<rparr>) else (Inl IO, L))"

section \<open>Users\<close>

record UserFeature =
  uf_username :: string
  uf_uid :: "u32 option"
  uf_uidmap :: string
  uf_primary_group :: string
  uf_supplementary_groups :: "string list"
  uf_home_dir :: string
  uf_shell :: string
  uf_comment :: "string option"

definition user_get_uid :: "(string \<Rightarrow> text_error + UidMap) \<Rightarrow> u32 option \<Rightarrow> string \<Rightarrow> string \<Rightarrow> compile_error + UserId" where
  "user_get_uid load supplied_uid uidmap username =
     (case supplied_uid of
        Some uid \<Rightarrow> Inr (UserId uid)
      | None \<Rightarrow>
          (case load uidmap of
             Inl e \<Rightarrow> Inl Other
           | Inr m \<Rightarrow> (case get_uid m username of Some uid \<Rightarrow> Inr uid | None \<Rightarrow> Inl Other)))"

definition User_provides :: "UserFeature \<Rightarrow> Item list" where
  "User_provides u = [ItemUser (uf_username u)]"

definition User_requires :: "(string \<Rightarrow> text_error + UidMap) \<Rightarrow> UserFeature \<Rightarrow> compile_error + Requirement list" where
  "User_requires load u =
     (case user_get_uid load (uf_uid u) (uf_uidmap u) (uf_username u) of
        Inl e \<Rightarrow> Inl e
      | Inr _ \<Rightarrow>
          Inr ([Requirement_unordered (KeyPath (uf_home_dir u)) (HasFileType Directory),
                Requirement_unordered (KeyPath (uf_shell u)) Executable,
                Requirement_ordered (KeyPath ''/etc/passwd'') Exists,
                Requirement_ordered (KeyPath ''/etc/group'') Exists] @
               map (\<lambda>g. Requirement_ordered (KeyGroup g) Exists) (uf_supplementary_groups u @ [uf_primary_group u])))"

text \<open>The loop over the groups: the name is appended to the first group of each name.\<close>

fun add_to_groups :: "string \<Rightarrow> string list \<Rightarrow> EtcGroup \<Rightarrow> compile_error + EtcGroup" where
  "add_to_groups username [] db = Inr db"
| "add_to_groups username (name # names) db =
     (case get_group_by_name_mut db name (\<lambda>r. r\<lparr>gr_users := gr_users r @ [username]\<rparr>) of
        None \<Rightarrow> Inl Other
      | Some db \<Rightarrow> add_to_groups username names db)"

definition user_record :: "UserFeature \<Rightarrow> UserId \<Rightarrow> GroupId \<Rightarrow> UserRecord" where
  "user_record u uid gid =
     \<lparr>ur_name = uf_username u, ur_password = Shadow, ur_uid = uid, ur_gid = gid,
      ur_comment = (case uf_comment u of Some c \<Rightarrow> c | None \<Rightarrow> ''''), ur_homedir = uf_home_dir u, ur_shell = uf_shell u\<rparr>"

definition User_compile :: "users_nom \<Rightarrow> (string \<Rightarrow> text_error + UidMap) \<Rightarrow> UserFeature \<Rightarrow> layer \<Rightarrow> unit compiled" where
  "User_compile N load u L =
     attempt (user_db N L) L (\<lambda>users.
     attempt (user_get_uid load (uf_uid u) (uf_uidmap u) (uf_username u)) L (\<lambda>uid.
     attempt (ctx_gid N L (uf_primary_group u)) L (\<lambda>gid.
     let record = user_record u uid gid
     in attempt (shadow_db N L) L (\<lambda>shadow.
        let shadow = EtcShadow_push shadow (new_shadow_record record);
            users = EtcPasswd_push users record
        in write_file PasswdFile (EtcPasswd_to_string users) L (\<lambda>L.
           write_file ShadowFile (EtcShadow_to_string shadow) L (\<lambda>L.
           let L = L\<lparr>ly_shadow_mode := Some 0\<rparr>
           in attempt (groups_db N L) L (\<lambda>groups.
              attempt (add_to_groups (uf_username u) (uf_supplementary_groups u @ [uf_primary_group u]) groups) L (\<lambda>groups.
              write_file GroupFile (EtcGroup_to_string groups) L (\<lambda>L. (Inr (), L))))))))))"

section \<open>Groups\<close>

record GroupFeature =
  gf_gid :: "u32 option"
  gf_groupname :: string
  gf_uidmap :: string

definition group_get_gid :: "(string \<Rightarrow> text_error + UidMap) \<Rightarrow> u32 option \<Rightarrow> string \<Rightarrow> string \<Rightarrow> compile_error + GroupId" where
  "group_get_gid load supplied_gid uidmap groupname =
     (case supplied_gid of
        Some gid \<Rightarrow> Inr (GroupId gid)
      | None \<Rightarrow>
          (case load uidmap of
             Inl e \<Rightarrow> Inl Other
           | Inr m \<Rightarrow> (case get_gid m groupname of Some gid \<Rightarrow> Inr gid | None \<Rightarrow> Inl Other)))"

definition Group_provides :: "GroupFeature \<Rightarrow> Item list" where
  "Group_provides g = [ItemGroup (gf_groupname g)]"

definition Group_requires :: "(string \<Rightarrow> text_error + UidMap) \<Rightarrow> GroupFeature \<Rightarrow> compile_error + Requirement list" where
  "Group_requires load g =
     (case group_get_gid load (gf_gid g) (gf_uidmap g) (gf_groupname g) of
        Inl e \<Rightarrow> Inl e
      | Inr _ \<Rightarrow> Inr [Requirement_ordered (KeyPath ''/etc/group'') Exists])"

definition Group_compile :: "users_nom \<Rightarrow> (string \<Rightarrow> text_error + UidMap) \<Rightarrow> GroupFeature \<Rightarrow> layer \<Rightarrow> unit compiled" where
  "Group_compile N load g L =
     attempt (groups_db N L) L (\<lambda>groups.
     attempt (group_get_gid load (gf_gid g) (gf_uidmap g) (gf_groupname g)) L (\<lambda>gid.
     let record = \<lparr>gr_name = gf_groupname g, gr_password = Shadow, gr_gid = gid, gr_users = []\<rparr>
     in write_file GroupFile (EtcGroup_to_string (EtcGroup_push groups record)) L (\<lambda>L. (Inr (), L))))"

section \<open>Changes of users\<close>

record UserMod =
  md_username :: string
  md_add_supplementary_groups :: "string list"

definition UserMod_provides :: "UserMod \<Rightarrow> Item list" where
  "UserMod_provides m = []"

definition UserMod_requires :: "UserMod \<Rightarrow> Requirement list" where
  "UserMod_requires m =
     Requirement_ordered (KeyUser (md_username m)) Exists #
     map (\<lambda>g. Requirement_ordered (KeyGroup g) Exists) (md_add_supplementary_groups m)"

definition UserMod_compile :: "users_nom \<Rightarrow> UserMod \<Rightarrow> layer \<Rightarrow> unit compiled" where
  "UserMod_compile N m L =
     attempt (groups_db N L) L (\<lambda>groups.
     attempt (add_to_groups (md_username m) (md_add_supplementary_groups m) groups) L (\<lambda>groups.
     write_file GroupFile (EtcGroup_to_string groups) L (\<lambda>L. (Inr (), L))))"

end
