(* ===== verification/Facts_Db.thy ===== *)
theory Facts_Db
  imports Accounts "HOL-Library.Char_ord" "HOL-Library.List_Lexorder"
begin

text \<open>
  The database of facts about a built layer: \<open>antlir2/antlir2_facts/src/lib.rs\<close>, the facts of \<open>src/fact/\<close> and the unit files of
  \<open>antlir2_systemd/src/lib.rs\<close>.

  A byte string is a list of characters, so that a key (a BLOB) is its bytes and the order of keys is that of the bytes. The table is the
  list of its rows, and a SQL statement of the source is the function on rows that the statement says; failures of the database itself are
  not modelled. The JSON text of a fact is a parameter: \<open>to_json\<close> may fail, as it does for a path that is not UTF-8.
\<close>

section \<open>Rows\<close>

type_synonym Key = string

record fact_row =
  row_kind :: string
  row_key :: Key
  row_value :: string

type_synonym facts_table = "fact_row list"

datatype facts_error =
    JsonError
  | InvalidJson
  | CanonicalizeRoot
  | WalkError
  | NotUnderRoot string
  | StatError string
  | ReadLinkError string
  | OtherFileType string
  | ReadPasswd
  | ParsePasswd text_error
  | ReadGroup
  | ParseGroup text_error
  | PrepareRpm
  | RpmDbPath
  | RpmQuery
  | RpmStatus string
  | DecodeField string
  | ParseEpoch string
  | ParseSize string
  | ListUnits
  | Privileges
  | OutputExists string
  | CopyParent string
  | MountNamespace
  | MountOverlay
  | ImpossibleCombination
  | ChownOutput string

definition fbind :: "facts_error + 'a \<Rightarrow> ('a \<Rightarrow> facts_error + 'b) \<Rightarrow> facts_error + 'b" where
  "fbind r f = (case r of Inl e \<Rightarrow> Inl e | Inr x \<Rightarrow> f x)"

section \<open>Facts\<close>

record 'f json =
  to_json :: "'f \<Rightarrow> string option"
  from_json :: "string \<Rightarrow> 'f option"

text \<open>What the database relies on of \<open>serde_json\<close>: the text that is written for a fact reads as that fact.\<close>

definition json_documented :: "'f json \<Rightarrow> bool" where
  "json_documented J \<longleftrightarrow> (\<forall>f s. to_json J f = Some s \<longrightarrow> from_json J s = Some f)"

record 'f Fact =
  fact_kind :: string
  fact_key :: "'f \<Rightarrow> Key"
  fact_json :: "'f json"

record UserFact =
  uf_name :: string
  uf_id :: u32

definition User_new :: "string \<Rightarrow> u32 \<Rightarrow> UserFact" where
  "User_new name i = \<lparr>uf_name = name, uf_id = i\<rparr>"

definition User_fact :: "UserFact json \<Rightarrow> UserFact Fact" where
  "User_fact J = \<lparr>fact_kind = ''antlir2_facts::fact::user::User'', fact_key = uf_name, fact_json = J\<rparr>"

record GroupFact =
  gf_name :: string
  gf_id :: u32
  gf_members :: "string list"

definition Group_new :: "string \<Rightarrow> u32 \<Rightarrow> string list \<Rightarrow> GroupFact" where
  "Group_new name i members = \<lparr>gf_name = name, gf_id = i, gf_members = members\<rparr>"

definition Group_fact :: "GroupFact json \<Rightarrow> GroupFact Fact" where
  "Group_fact J = \<lparr>fact_kind = ''antlir2_facts::fact::user::Group'', fact_key = gf_name, fact_json = J\<rparr>"

text \<open>The key of a directory entry is its path.\<close>

definition DirEntry_path :: "DirEntry \<Rightarrow> string" where
  "DirEntry_path e = fc_path (DirEntry_common e)"

definition DirEntry_fact :: "DirEntry json \<Rightarrow> DirEntry Fact" where
  "DirEntry_fact J = \<lparr>fact_kind = ''antlir2_facts::fact::dir_entry::DirEntry'', fact_key = DirEntry_path, fact_json = J\<rparr>"

definition FileCommon_new_with_metadata :: "string \<Rightarrow> u32 \<times> u32 \<times> u32 \<Rightarrow> FileCommon" where
  "FileCommon_new_with_metadata path metadata =
     (case metadata of (uid, gid, mode) \<Rightarrow> \<lparr>fc_path = path, fc_uid = uid, fc_gid = gid, fc_mode = mode\<rparr>)"

record Rpm =
  rpm_name :: string
  rpm_epoch :: u64
  rpm_version :: string
  rpm_release :: string
  rpm_arch :: string
  rpm_changelog :: "string option"
  rpm_os :: "string option"
  rpm_size :: u64
  rpm_source_rpm :: string

definition show_u64 :: "u64 \<Rightarrow> string" where
  "show_u64 w = show_nat (unat w)"

definition Rpm_evra :: "Rpm \<Rightarrow> string" where
  "Rpm_evra r =
     (if rpm_epoch r = 0 then rpm_version r @ ''-'' @ rpm_release r @ ''.'' @ rpm_arch r
      else show_u64 (rpm_epoch r) @ '':'' @ rpm_version r @ ''-'' @ rpm_release r @ ''.'' @ rpm_arch r)"

definition Rpm_to_string :: "Rpm \<Rightarrow> string" where
  "Rpm_to_string r =
     (if rpm_epoch r = 0 then rpm_name r @ '':'' @ rpm_version r @ ''-'' @ rpm_release r @ ''.'' @ rpm_arch r
      else rpm_name r @ ''-'' @ show_u64 (rpm_epoch r) @ '':'' @ rpm_version r @ ''-'' @ rpm_release r @ ''.'' @ rpm_arch r)"

definition Rpm_nevra :: "Rpm \<Rightarrow> string" where
  "Rpm_nevra r = Rpm_to_string r"

definition Rpm_fact :: "Rpm json \<Rightarrow> Rpm Fact" where
  "Rpm_fact J = \<lparr>fact_kind = ''antlir2_facts::fact::rpm::Rpm'', fact_key = Rpm_nevra, fact_json = J\<rparr>"

datatype UnitFileState =
  UnitEnabled | UnitEnabledRuntime | UnitLinked | UnitLinkedRuntime | UnitMasked | UnitMaskedRuntime | UnitStatic | UnitDisabled
  | UnitInvalid | UnitAlias | UnitIndirect | UnitGenerated | UnitBad

datatype Preset = PresetEnabled | PresetDisabled

datatype UnitType =
  TypeService | TypeSocket | TypeDevice | TypeMount | TypeAutomount | TypeSwap | TypeTarget | TypePath | TypeTimer | TypeSlice | TypeScope
  | TypeOther string

record UnitFile =
  unit_name :: string
  unit_state :: UnitFileState
  unit_preset :: "Preset option"

definition UnitType_from :: "string \<Rightarrow> UnitType" where
  "UnitType_from s =
     (if s = ''service'' then TypeService else if s = ''socket'' then TypeSocket else if s = ''device'' then TypeDevice
      else if s = ''mount'' then TypeMount else if s = ''automount'' then TypeAutomount else if s = ''swap'' then TypeSwap
      else if s = ''target'' then TypeTarget else if s = ''path'' then TypePath else if s = ''timer'' then TypeTimer
      else if s = ''slice'' then TypeSlice else if s = ''scope'' then TypeSlice else TypeOther s)"

text \<open>\<open>rsplit_once('.')\<close> is the text after the last dot; without a dot the call panics.\<close>

definition unit_type :: "UnitFile \<Rightarrow> UnitType option" where
  "unit_type u =
     (let name = unit_name u
      in if CHR ''.'' \<in> set name then Some (UnitType_from (rev (takeWhile (\<lambda>c. c \<noteq> CHR ''.'') (rev name)))) else None)"

definition UnitFile_fact :: "UnitFile json \<Rightarrow> UnitFile Fact" where
  "UnitFile_fact J = \<lparr>fact_kind = ''antlir2_systemd::UnitFile'', fact_key = unit_name, fact_json = J\<rparr>"

section \<open>The database\<close>

text \<open>\<open>INSERT OR REPLACE\<close> and \<open>DELETE\<close> by the primary key.\<close>

definition has_row_key :: "string \<Rightarrow> Key \<Rightarrow> fact_row \<Rightarrow> bool" where
  "has_row_key kind key r \<longleftrightarrow> row_kind r = kind \<and> row_key r = key"

definition insert_or_replace :: "string \<Rightarrow> Key \<Rightarrow> string \<Rightarrow> facts_table \<Rightarrow> facts_table" where
  "insert_or_replace kind key val t =
     filter (\<lambda>r. \<not> has_row_key kind key r) t @ [\<lparr>row_kind = kind, row_key = key, row_value = val\<rparr>]"

definition delete_row :: "string \<Rightarrow> Key \<Rightarrow> facts_table \<Rightarrow> facts_table" where
  "delete_row kind key t = filter (\<lambda>r. \<not> has_row_key kind key r) t"

definition select_value :: "string \<Rightarrow> facts_table \<Rightarrow> Key \<Rightarrow> string option" where
  "select_value kind t key = map_option row_value (List.find (has_row_key kind key) t)"

definition select_kind :: "string \<Rightarrow> facts_table \<Rightarrow> fact_row list" where
  "select_kind kind t = filter (\<lambda>r. row_kind r = kind) t"

definition Database_insert :: "'f Fact \<Rightarrow> 'f \<Rightarrow> facts_table \<Rightarrow> facts_error + facts_table" where
  "Database_insert F f t =
     (case to_json (fact_json F) f of
        None \<Rightarrow> Inl JsonError
      | Some val \<Rightarrow> Inr (insert_or_replace (fact_kind F) (fact_key F f) val t))"

definition row_to_fact :: "'f Fact \<Rightarrow> string \<Rightarrow> facts_error + 'f" where
  "row_to_fact F val = (case from_json (fact_json F) val of None \<Rightarrow> Inl InvalidJson | Some f \<Rightarrow> Inr f)"

fun rows_to_facts :: "'f Fact \<Rightarrow> fact_row list \<Rightarrow> facts_error + 'f list" where
  "rows_to_facts F [] = Inr []"
| "rows_to_facts F (r # rs) =
     fbind (row_to_fact F (row_value r)) (\<lambda>f. fbind (rows_to_facts F rs) (\<lambda>fs. Inr (f # fs)))"

definition Database_get :: "'f Fact \<Rightarrow> facts_table \<Rightarrow> Key \<Rightarrow> facts_error + 'f option" where
  "Database_get F t key =
     (case select_value (fact_kind F) t key of
        None \<Rightarrow> Inr None
      | Some val \<Rightarrow> fbind (row_to_fact F val) (\<lambda>f. Inr (Some f)))"

definition Database_iter :: "'f Fact \<Rightarrow> facts_table \<Rightarrow> facts_error + 'f list" where
  "Database_iter F t = rows_to_facts F (sort_key row_key (select_kind (fact_kind F) t))"

definition Database_iter_prefix :: "'f Fact \<Rightarrow> facts_table \<Rightarrow> Key \<Rightarrow> facts_error + 'f list" where
  "Database_iter_prefix F t key =
     (let last = key @ [CHR 0xFF]
      in rows_to_facts F
           (sort_key row_key (filter (\<lambda>r. key \<le> row_key r \<and> row_key r < last) (select_kind (fact_kind F) t))))"

definition Database_all_keys :: "'f Fact \<Rightarrow> facts_table \<Rightarrow> Key list" where
  "Database_all_keys F t = map row_key (select_kind (fact_kind F) t)"

section \<open>Transactions\<close>

text \<open>A transaction keeps the rows of the database as they were, which a drop without a commit restores.\<close>

record Transaction =
  tx_saved :: facts_table
  tx_rows :: facts_table

definition Database_transaction :: "facts_table \<Rightarrow> Transaction" where
  "Database_transaction t = \<lparr>tx_saved = t, tx_rows = t\<rparr>"

definition Transaction_insert :: "'f Fact \<Rightarrow> 'f \<Rightarrow> Transaction \<Rightarrow> facts_error + Transaction" where
  "Transaction_insert F f tx =
     (case to_json (fact_json F) f of
        None \<Rightarrow> Inl JsonError
      | Some val \<Rightarrow> Inr (tx\<lparr>tx_rows := insert_or_replace (fact_kind F) (fact_key F f) val (tx_rows tx)\<rparr>))"

definition Transaction_delete :: "'f Fact \<Rightarrow> Key \<Rightarrow> Transaction \<Rightarrow> bool \<times> Transaction" where
  "Transaction_delete F key tx =
     (list_ex (has_row_key (fact_kind F) key) (tx_rows tx), tx\<lparr>tx_rows := delete_row (fact_kind F) key (tx_rows tx)\<rparr>)"

definition Transaction_all_keys :: "'f Fact \<Rightarrow> Transaction \<Rightarrow> Key list" where
  "Transaction_all_keys F tx = map row_key (select_kind (fact_kind F) (tx_rows tx))"

definition Transaction_commit :: "Transaction \<Rightarrow> facts_table" where
  "Transaction_commit tx = tx_rows tx"

definition Transaction_drop :: "Transaction \<Rightarrow> facts_table" where
  "Transaction_drop tx = tx_saved tx"

section \<open>The primary key\<close>

definition table_wf :: "facts_table \<Rightarrow> bool" where
  "table_wf t \<longleftrightarrow> distinct (map (\<lambda>r. (row_kind r, row_key r)) t)"

lemma fbind_eq_Inr_iff: "fbind r f = Inr y \<longleftrightarrow> (\<exists>x. r = Inr x \<and> f x = Inr y)"
  by (simp add: fbind_def split: sum.split)

lemma fbind_simps [simp]: "fbind (Inl e) f = Inl e" "fbind (Inr x) f = f x"
  by (simp_all add: fbind_def)

lemma find_filter_self: "List.find P (filter (\<lambda>r. \<not> P r) t) = None"
  by (induction t) auto

lemma find_filter_other: "(\<And>r. P r \<Longrightarrow> Q r) \<Longrightarrow> List.find P (filter Q t) = List.find P t"
  by (induction t) auto

lemma find_append: "List.find P (xs @ ys) = (case List.find P xs of Some x \<Rightarrow> Some x | None \<Rightarrow> List.find P ys)"
  by (induction xs) simp_all

lemma find_without:
  "List.find (has_row_key k x) (filter (\<lambda>r. \<not> has_row_key kind key r) t) =
   (if k = kind \<and> x = key then None else List.find (has_row_key k x) t)"
proof (cases "k = kind \<and> x = key")
  case False
  then have "List.find (has_row_key k x) (filter (\<lambda>r. \<not> has_row_key kind key r) t) = List.find (has_row_key k x) t"
    by (intro find_filter_other) (auto simp: has_row_key_def)
  with False show ?thesis
    by auto
qed (simp add: find_filter_self)

lemma has_row_key_row [simp]: "has_row_key k x \<lparr>row_kind = kind, row_key = key, row_value = v\<rparr> \<longleftrightarrow> kind = k \<and> key = x"
  by (simp add: has_row_key_def)

lemma select_insert:
  "select_value k (insert_or_replace kind key val t) = (if k = kind then (select_value k t)(key \<mapsto> val) else select_value k t)"
  by (rule ext) (auto simp: select_value_def insert_or_replace_def find_append find_without split: option.split)

lemma select_delete:
  "select_value k (delete_row kind key t) = (if k = kind then (select_value k t)(key := None) else select_value k t)"
  by (rule ext) (auto simp: select_value_def delete_row_def find_without)

lemma select_kind_keys: "set (map row_key (select_kind kind t)) = dom (select_value kind t)"
proof -
  have "key \<in> row_key ` set (select_kind kind t) \<longleftrightarrow> List.find (has_row_key kind key) t \<noteq> None" for key
    by (auto simp: find_None_iff select_kind_def has_row_key_def)
  then show ?thesis
    by (auto simp: dom_def select_value_def)
qed

lemma table_wf_insert: "table_wf t \<Longrightarrow> table_wf (insert_or_replace kind key val t)"
  by (auto simp: table_wf_def insert_or_replace_def has_row_key_def distinct_map_filter)

lemma table_wf_delete: "table_wf t \<Longrightarrow> table_wf (delete_row kind key t)"
  by (simp add: table_wf_def delete_row_def distinct_map_filter)

lemma select_value_row:
  assumes "table_wf t" "r \<in> set t"
  shows "select_value (row_kind r) t (row_key r) = Some (row_value r)"
  using assms by (induction t) (force simp: table_wf_def select_value_def has_row_key_def)+

end
