(* ===== verification/Facts_Populate.thy ===== *)
theory Facts_Populate
  imports Facts_Db
begin

text \<open>
  \<open>antlir2/antlir2_facts/bin/new_facts_db.rs\<close>: the database of a layer, made from the database of its parent by inserting the facts of
  every kind that the layer has and deleting those that it no longer has.

  What the program sees of the layer is a record: the entries of the directory walk, the user and group files, and the output of the \<open>rpm\<close>
  and \<open>systemctl\<close> commands. The directory walk (\<open>jwalk\<close>), the isolation, the overlayfs and the privileges are not part of these sources.
\<close>

section \<open>The layer\<close>

record walk_entry =
  we_path :: string
  we_metadata :: "(u32 \<times> u32 \<times> u32) option"
  we_file_type :: FileType
  we_link :: "string option"

datatype cmd_output = CmdNotFound | CmdFailed | CmdOutput bool string string

record layer_view =
  lv_root :: "string option"
  lv_walk :: "walk_entry option list"
  lv_passwd :: file_state
  lv_group :: file_state
  lv_unshare :: bool
  lv_command :: bool
  lv_rpm_dbpath :: "string option"
  lv_exists :: "string \<Rightarrow> bool"
  lv_rpm_qa :: cmd_output
  lv_systemctl :: "string option"

record facts_json =
  fj_dir_entry :: "DirEntry json"
  fj_user :: "UserFact json"
  fj_group :: "GroupFact json"
  fj_rpm :: "Rpm json"
  fj_unit :: "UnitFile json"
  fj_units_from :: "string \<Rightarrow> UnitFile list option"

text \<open>\<open>Path::strip_prefix\<close>, for paths below a canonical directory.\<close>

definition strip_root :: "string \<Rightarrow> string \<Rightarrow> string option" where
  "strip_root root p =
     (let base = (if root = ''/'' then [] else root) @ ''/''
      in if p = root then Some []
         else if take (length base) p = base then Some (drop (length base) p) else None)"

text \<open>\<open>PathExt::join_abs\<close>.\<close>

definition strip_abs :: "string \<Rightarrow> string" where
  "strip_abs p = dropWhile (\<lambda>c. c = CHR ''/'') p"

definition join_abs :: "string \<Rightarrow> string \<Rightarrow> string" where
  "join_abs base p = path_push base (strip_abs p)"

section \<open>The loops\<close>

text \<open>The loop that turns each item into a fact, takes its key out of the set of facts to remove and inserts it, and the loop that deletes
  what is left in that set.\<close>

fun insert_each :: "'f Fact \<Rightarrow> ('x \<Rightarrow> facts_error + 'f) \<Rightarrow> 'x list \<Rightarrow> Key list \<Rightarrow> Transaction \<Rightarrow> facts_error + Key list \<times> Transaction" where
  "insert_each F conv [] remove tx = Inr (remove, tx)"
| "insert_each F conv (x # xs) remove tx =
     fbind (conv x) (\<lambda>f.
       fbind (Transaction_insert F f tx) (\<lambda>tx'.
         insert_each F conv xs (removeAll (fact_key F f) remove) tx'))"

definition delete_each :: "'f Fact \<Rightarrow> Key list \<Rightarrow> Transaction \<Rightarrow> Transaction" where
  "delete_each F remove tx = fold (\<lambda>key tx. snd (Transaction_delete F key tx)) remove tx"

section \<open>Files\<close>

definition entry_fact :: "string \<Rightarrow> walk_entry option \<Rightarrow> facts_error + DirEntry" where
  "entry_fact root entry =
     (case entry of
        None \<Rightarrow> Inl WalkError
      | Some e \<Rightarrow>
          (case strip_root root (we_path e) of
             None \<Rightarrow> Inl (NotUnderRoot (we_path e))
           | Some relpath \<Rightarrow>
               (case we_metadata e of
                  None \<Rightarrow> Inl (StatError (we_path e))
                | Some meta \<Rightarrow>
                    (let common = FileCommon_new_with_metadata (path_push ''/'' relpath) meta
                     in if we_file_type e = Directory then Inr (DirectoryEntry common)
                        else if we_file_type e = SymlinkType
                        then (case we_link e of
                                None \<Rightarrow> Inl (ReadLinkError (we_path e))
                              | Some raw_target \<Rightarrow> Inr (SymlinkEntry (Symlink_new common raw_target)))
                        else if we_file_type e = File then Inr (RegularFileEntry common)
                        else Inl (OtherFileType (we_path e))))))"

definition populate_files :: "facts_json \<Rightarrow> layer_view \<Rightarrow> string \<Rightarrow> Transaction \<Rightarrow> facts_error + Transaction" where
  "populate_files J L root tx =
     (let F = DirEntry_fact (fj_dir_entry J)
      in fbind (insert_each F (entry_fact root) (lv_walk L) (Transaction_all_keys F tx) tx) (\<lambda>(remove, tx).
           Inr (delete_each F remove tx)))"

section \<open>Users and groups\<close>

definition passwd_of :: "users_nom \<Rightarrow> file_state \<Rightarrow> facts_error + EtcPasswd" where
  "passwd_of N f =
     (case f of
        Content src \<Rightarrow> (case EtcPasswd_parse (un_passwd N) src of Inl e \<Rightarrow> Inl (ParsePasswd e) | Inr db \<Rightarrow> Inr db)
      | NotFound \<Rightarrow> Inr EtcPasswd_new
      | Unreadable \<Rightarrow> Inl ReadPasswd)"

definition group_of :: "users_nom \<Rightarrow> file_state \<Rightarrow> facts_error + EtcGroup" where
  "group_of N f =
     (case f of
        Content src \<Rightarrow> (case EtcGroup_parse (un_group N) src of Inl e \<Rightarrow> Inl (ParseGroup e) | Inr db \<Rightarrow> Inr db)
      | NotFound \<Rightarrow> Inr EtcGroup_new
      | Unreadable \<Rightarrow> Inl ReadGroup)"

definition user_fact_of :: "UserRecord \<Rightarrow> facts_error + UserFact" where
  "user_fact_of user = Inr (User_new (ur_name user) (UserId_as_raw (ur_uid user)))"

definition group_fact_of :: "GroupRecord \<Rightarrow> facts_error + GroupFact" where
  "group_fact_of g = Inr (Group_new (gr_name g) (GroupId_as_raw (gr_gid g)) (gr_users g))"

definition populate_usergroups :: "facts_json \<Rightarrow> users_nom \<Rightarrow> layer_view \<Rightarrow> Transaction \<Rightarrow> facts_error + Transaction" where
  "populate_usergroups J N L tx =
     (let U = User_fact (fj_user J); G = Group_fact (fj_group J)
      in fbind (passwd_of N (lv_passwd L)) (\<lambda>user_db.
         fbind (insert_each U user_fact_of (EtcPasswd_records user_db) (Transaction_all_keys U tx) tx) (\<lambda>(remove_users, tx1).
         fbind (group_of N (lv_group L)) (\<lambda>group_db.
         fbind (insert_each G group_fact_of (EtcGroup_records group_db) (Transaction_all_keys G tx) tx1) (\<lambda>(remove_groups, tx2).
           Inr (delete_each G remove_groups (delete_each U remove_users tx2)))))))"

section \<open>Rpms\<close>

text \<open>\<open>str::from_utf8\<close> on the bytes of a field; the optional fields are absent when \<open>rpm\<close> prints \<open>(none)\<close>.\<close>

definition decode_rpm_field :: "string \<Rightarrow> facts_error + string" where
  "decode_rpm_field s = (if utf8_valid (map of_char s) then Inr s else Inl (DecodeField s))"

definition decode_rpm_field_opt :: "string \<Rightarrow> facts_error + string option" where
  "decode_rpm_field_opt s = fbind (decode_rpm_field s) (\<lambda>s. Inr (if s = ''(none)'' then None else Some s))"

text \<open>\<open>u64::from_str\<close>.\<close>

definition parse_digits64 :: "string \<Rightarrow> u64 option" where
  "parse_digits64 s =
     (if s \<noteq> [] \<and> list_all is_digit s \<and> decimal_value s < 2 ^ 64 then Some (word_of_nat (decimal_value s)) else None)"

definition parse_u64 :: "string \<Rightarrow> u64 option" where
  "parse_u64 s = (case s of c # cs \<Rightarrow> if c = CHR ''+'' then parse_digits64 cs else parse_digits64 s | [] \<Rightarrow> None)"

definition opt_u64 :: "(string \<Rightarrow> facts_error) \<Rightarrow> string option \<Rightarrow> facts_error + u64" where
  "opt_u64 err f = (case f of None \<Rightarrow> Inr 0 | Some s \<Rightarrow> (case parse_u64 s of None \<Rightarrow> Inl (err s) | Some n \<Rightarrow> Inr n))"

text \<open>\<open>itertools::tuples\<close>: the pieces nine at a time, an incomplete rest is dropped.\<close>

type_synonym rpm_fields = "string \<times> string \<times> string \<times> string \<times> string \<times> string \<times> string \<times> string \<times> string"

fun tuples :: "string list \<Rightarrow> rpm_fields list" where
  "tuples (a # b # c # d # e # f # g # h # i # rest) = (a, b, c, d, e, f, g, h, i) # tuples rest"
| "tuples _ = []"

definition rpm_of_fields :: "rpm_fields \<Rightarrow> facts_error + Rpm" where
  "rpm_of_fields fs =
     (case fs of (name, epoch, version, release, arch, changelog, os, sz, source_rpm) \<Rightarrow>
        fbind (decode_rpm_field name) (\<lambda>name.
        fbind (decode_rpm_field_opt epoch) (\<lambda>epoch.
        fbind (decode_rpm_field version) (\<lambda>version.
        fbind (decode_rpm_field release) (\<lambda>release.
        fbind (decode_rpm_field arch) (\<lambda>arch.
        fbind (decode_rpm_field_opt changelog) (\<lambda>changelog.
        fbind (decode_rpm_field_opt os) (\<lambda>os.
        fbind (decode_rpm_field_opt sz) (\<lambda>sz.
        fbind (decode_rpm_field source_rpm) (\<lambda>source_rpm.
        fbind (opt_u64 ParseEpoch epoch) (\<lambda>epoch.
        fbind (opt_u64 ParseSize sz) (\<lambda>sz.
          Inr \<lparr>rpm_name = name, rpm_epoch = epoch, rpm_version = version, rpm_release = release, rpm_arch = arch,
               rpm_changelog = changelog, rpm_os = os, rpm_size = sz, rpm_source_rpm = source_rpm\<rparr>))))))))))))"

text \<open>The command that lists the rpms: none if the image has no rpm database or no \<open>rpm\<close>. The path of the database is trimmed of white
  space, which is ASCII in what \<open>rpm\<close> prints.\<close>

definition trim :: "string \<Rightarrow> string" where
  "trim s = rev (dropWhile is_space (rev (dropWhile is_space s)))"

definition rpm_db_missing :: "layer_view \<Rightarrow> string \<Rightarrow> string option \<Rightarrow> facts_error + bool" where
  "rpm_db_missing L root build_appliance =
     (if \<not> lv_unshare L \<or> \<not> lv_command L then Inl PrepareRpm
      else case build_appliance of
        None \<Rightarrow> Inr False
      | Some _ \<Rightarrow>
          (case lv_rpm_dbpath L of
             None \<Rightarrow> Inl RpmDbPath
           | Some out \<Rightarrow>
               if \<not> utf8_valid (map of_char out) then Inl RpmDbPath
               else Inr (\<not> lv_exists L (join_abs root (trim out)))))"

definition rpm_listing :: "layer_view \<Rightarrow> string \<Rightarrow> string option \<Rightarrow> facts_error + string option" where
  "rpm_listing L root build_appliance =
     fbind (rpm_db_missing L root build_appliance) (\<lambda>missing.
       if missing then Inr None
       else case lv_rpm_qa L of
         CmdNotFound \<Rightarrow> Inr None
       | CmdFailed \<Rightarrow> Inl RpmQuery
       | CmdOutput success stdout stderr \<Rightarrow> if success then Inr (Some stdout) else Inl (RpmStatus stderr))"

definition populate_rpms :: "facts_json \<Rightarrow> layer_view \<Rightarrow> string \<Rightarrow> string option \<Rightarrow> Transaction \<Rightarrow> facts_error + Transaction" where
  "populate_rpms J L root build_appliance tx =
     (let F = Rpm_fact (fj_rpm J); remove = Transaction_all_keys F tx
      in fbind (rpm_listing L root build_appliance) (\<lambda>listing.
           case listing of
             None \<Rightarrow> Inr tx
           | Some stdout \<Rightarrow>
               fbind (insert_each F rpm_of_fields (tuples (split_at (CHR 0xFF) stdout)) remove tx) (\<lambda>(remove, tx).
                 Inr (delete_each F remove tx))))"

section \<open>Units\<close>

definition list_unit_files :: "facts_json \<Rightarrow> layer_view \<Rightarrow> facts_error + UnitFile list" where
  "list_unit_files J L =
     (case lv_systemctl L of
        None \<Rightarrow> Inl ListUnits
      | Some stdout \<Rightarrow> (case fj_units_from J stdout of None \<Rightarrow> Inl ListUnits | Some units \<Rightarrow> Inr units))"

definition populate_systemd_units :: "facts_json \<Rightarrow> layer_view \<Rightarrow> Transaction \<Rightarrow> facts_error + Transaction" where
  "populate_systemd_units J L tx =
     (let F = UnitFile_fact (fj_unit J); remove = Transaction_all_keys F tx
      in fbind (list_unit_files J L) (\<lambda>units.
           fbind (insert_each F Inr units remove tx) (\<lambda>(remove, tx).
             Inr (delete_each F remove tx))))"

section \<open>The program\<close>

definition populate :: "facts_json \<Rightarrow> users_nom \<Rightarrow> layer_view \<Rightarrow> string option \<Rightarrow> Transaction \<Rightarrow> facts_error + Transaction" where
  "populate J N L build_appliance tx =
     (case lv_root L of
        None \<Rightarrow> Inl CanonicalizeRoot
      | Some root \<Rightarrow>
          fbind (populate_files J L root tx) (\<lambda>tx.
          fbind (populate_usergroups J N L tx) (\<lambda>tx.
          fbind (populate_rpms J L root build_appliance tx) (\<lambda>tx.
            populate_systemd_units J L tx))))"

text \<open>The files that hold databases, by path, and what the steps of \<open>main\<close> that are not modelled do: the privileges, the mount namespace,
  the overlayfs and the change of owner. A layer is given as a path or as an overlayfs, which has its own view once it is mounted.\<close>

record facts_args =
  fa_subvol_symlink :: "string option"
  fa_overlayfs :: "string option"
  fa_parent :: "string option"
  fa_build_appliance :: "string option"
  fa_db :: string
  fa_rootless :: bool

record facts_env =
  fe_userns :: bool
  fe_init :: bool
  fe_escalate :: bool
  fe_mount_ns :: bool
  fe_subvol :: "string \<Rightarrow> layer_view"
  fe_overlayfs :: "string \<Rightarrow> layer_view option"
  fe_lchown :: "string \<Rightarrow> bool"

type_synonym db_files = "string \<rightharpoonup> facts_table"

definition Root_view :: "facts_env \<Rightarrow> facts_args \<Rightarrow> facts_error + layer_view" where
  "Root_view E A =
     (case (fa_subvol_symlink A, fa_overlayfs A) of
        (Some p, None) \<Rightarrow> Inr (fe_subvol E p)
      | (None, Some model) \<Rightarrow> (case fe_overlayfs E model of None \<Rightarrow> Inl MountOverlay | Some L \<Rightarrow> Inr L)
      | _ \<Rightarrow> Inl ImpossibleCombination)"

text \<open>What \<open>main\<close> does between opening the transaction and committing it.\<close>

definition fill_transaction :: "facts_json \<Rightarrow> users_nom \<Rightarrow> facts_env \<Rightarrow> facts_args \<Rightarrow> Transaction \<Rightarrow> facts_error + Transaction" where
  "fill_transaction J N E A tx =
     (if \<not> fa_rootless A \<and> \<not> fe_escalate E then Inl Privileges
      else if \<not> fe_mount_ns E then Inl MountNamespace
      else fbind (Root_view E A) (\<lambda>L.
             fbind (populate J N L (fa_build_appliance A) tx) (\<lambda>tx.
               if fe_lchown E (fa_db A) then Inr tx else Inl (ChownOutput (fa_db A)))))"

definition new_facts_db :: "facts_json \<Rightarrow> users_nom \<Rightarrow> facts_env \<Rightarrow> facts_args \<Rightarrow> db_files \<Rightarrow> (facts_error + unit) \<times> db_files" where
  "new_facts_db J N E A files =
     (if (if fa_rootless A then \<not> fe_userns E else \<not> fe_init E) then (Inl Privileges, files)
      else if files (fa_db A) \<noteq> None then (Inl (OutputExists (fa_db A)), files)
      else
        (case (case fa_parent A of
                 None \<Rightarrow> Inr []
               | Some parent \<Rightarrow> (case files parent of None \<Rightarrow> Inl (CopyParent parent) | Some t \<Rightarrow> Inr t)) of
           Inl e \<Rightarrow> (Inl e, files)
         | Inr t \<Rightarrow>
             (let tx = Database_transaction t
              in case fill_transaction J N E A tx of
                   Inl e \<Rightarrow> (Inl e, files(fa_db A \<mapsto> Transaction_drop tx))
                 | Inr tx \<Rightarrow> (Inr (), files(fa_db A \<mapsto> Transaction_commit tx)))))"

end
