(* ===== verification/Facts_Store.thy ===== *)
theory Facts_Store
  imports Facts_Populate
begin

text \<open>
  What the loops of \<open>new_facts_db.rs\<close> do to the database: a store of values by key, in which the values of a list are put and the keys that
  are not in that list are deleted, holds that list and nothing else. The rows of one kind of fact in a transaction are such a store.
\<close>

section \<open>Stores\<close>

locale keyed_store =
  fixes look :: "'t \<Rightarrow> 'k \<Rightarrow> 'v option"
    and put :: "'k \<Rightarrow> 'v \<Rightarrow> 't \<Rightarrow> 't"
    and del :: "'k \<Rightarrow> 't \<Rightarrow> 't"
    and rest :: "'t \<Rightarrow> 'r"
  assumes look_put: "look (put k v t) = (look t)(k \<mapsto> v)"
    and look_del: "look (del k t) = (look t)(k := None)"
    and rest_put: "rest (put k v t) = rest t"
    and rest_del: "rest (del k t) = rest t"
begin

lemma look_puts: "look (fold (\<lambda>(k, v). put k v) kvs t) = look t ++ map_of (rev kvs)"
  by (induction kvs arbitrary: t) (auto simp: look_put)

lemma look_dels: "look (fold del ks t) = look t |` (- set ks)"
  by (induction ks arbitrary: t) (auto simp: look_del restrict_map_def fun_eq_iff)

lemma synced:
  assumes "set ks = dom (look t) - fst ` set kvs"
  shows "look (fold del ks (fold (\<lambda>(k, v). put k v) kvs t)) = map_of (rev kvs)"
proof
  fix k
  show "look (fold del ks (fold (\<lambda>(k, v). put k v) kvs t)) k = map_of (rev kvs) k"
  proof (cases "map_of (rev kvs) k")
    case None
    then have "k \<notin> fst ` set kvs"
      by (simp add: map_of_eq_None_iff)
    with None assms show ?thesis
      by (auto simp: look_dels look_puts restrict_map_def map_add_def)
  next
    case (Some v)
    then have "k \<in> fst ` set kvs"
      using map_of_SomeD [OF Some] by force
    with Some assms show ?thesis
      by (simp add: look_dels look_puts restrict_map_def)
  qed
qed

lemma rest_puts: "rest (fold (\<lambda>(k, v). put k v) kvs t) = rest t"
  by (induction kvs arbitrary: t) (auto simp: rest_put)

lemma rest_dels: "rest (fold del ks t) = rest t"
  by (induction ks arbitrary: t) (auto simp: rest_del)

end

section \<open>The facts of one kind\<close>

definition kind_values :: "string \<Rightarrow> Transaction \<Rightarrow> Key \<Rightarrow> string option" where
  "kind_values kind tx = select_value kind (tx_rows tx)"

definition put_value :: "string \<Rightarrow> Key \<Rightarrow> string \<Rightarrow> Transaction \<Rightarrow> Transaction" where
  "put_value kind key val tx = tx\<lparr>tx_rows := insert_or_replace kind key val (tx_rows tx)\<rparr>"

definition delete_value :: "string \<Rightarrow> Key \<Rightarrow> Transaction \<Rightarrow> Transaction" where
  "delete_value kind key tx = tx\<lparr>tx_rows := delete_row kind key (tx_rows tx)\<rparr>"

definition other_values :: "string \<Rightarrow> Transaction \<Rightarrow> facts_table \<times> (string \<Rightarrow> Key \<Rightarrow> string option)" where
  "other_values kind tx = (tx_saved tx, \<lambda>k. if k = kind then Map.empty else select_value k (tx_rows tx))"

interpretation kind_store: keyed_store "kind_values kind" "put_value kind" "delete_value kind" "other_values kind" for kind
  by unfold_locales
    (auto simp: kind_values_def put_value_def delete_value_def other_values_def select_insert select_delete fun_eq_iff)

text \<open>The facts that a list of items gives, if each of them is one that can be stored.\<close>

fun storable :: "'f Fact \<Rightarrow> ('x \<Rightarrow> facts_error + 'f) \<Rightarrow> 'x list \<Rightarrow> 'f list option" where
  "storable F conv [] = Some []"
| "storable F conv (x # xs) =
     (case conv x of
        Inl _ \<Rightarrow> None
      | Inr f \<Rightarrow> if to_json (fact_json F) f = None then None else map_option (Cons f) (storable F conv xs))"

definition stored_values :: "'f Fact \<Rightarrow> 'f list \<Rightarrow> (Key \<times> string) list" where
  "stored_values F fs = map (\<lambda>f. (fact_key F f, the (to_json (fact_json F) f))) fs"

lemma storable_json: "storable F conv xs = Some fs \<Longrightarrow> \<forall>f \<in> set fs. to_json (fact_json F) f \<noteq> None"
  by (induction xs arbitrary: fs) (auto split: sum.splits if_splits)

lemma fst_stored_values [simp]: "fst ` set (stored_values F fs) = fact_key F ` set fs"
  by (force simp: stored_values_def)

lemma insert_each_iff:
  "insert_each F conv xs remove tx = Inr (remove', tx') \<longleftrightarrow>
   (\<exists>fs. storable F conv xs = Some fs \<and> remove' = filter (\<lambda>k. k \<notin> fact_key F ` set fs) remove \<and>
      tx' = fold (\<lambda>(k, v). put_value (fact_kind F) k v) (stored_values F fs) tx)"
proof (induction xs arbitrary: remove tx)
  case (Cons x xs)
  then show ?case
    by (cases "conv x"; cases "to_json (fact_json F) (projr (conv x))")
      (auto simp: Transaction_insert_def put_value_def stored_values_def removeAll_filter_not_eq intro!: filter_cong)
qed (auto simp: stored_values_def)

lemma delete_each_eq: "delete_each F ks tx = fold (delete_value (fact_kind F)) ks tx"
  unfolding delete_each_def by (rule fold_cong) (simp_all add: Transaction_delete_def delete_value_def fun_eq_iff)

text \<open>One loop after the other.\<close>

definition sync_facts :: "'f Fact \<Rightarrow> 'f list \<Rightarrow> Transaction \<Rightarrow> Transaction" where
  "sync_facts F fs tx =
     delete_each F (filter (\<lambda>k. k \<notin> fact_key F ` set fs) (Transaction_all_keys F tx))
       (fold (\<lambda>(k, v). put_value (fact_kind F) k v) (stored_values F fs) tx)"

lemma sync_values: "kind_values (fact_kind F) (sync_facts F fs tx) = map_of (rev (stored_values F fs))"
  unfolding sync_facts_def delete_each_eq
proof (rule kind_store.synced)
  show "set (filter (\<lambda>k. k \<notin> fact_key F ` set fs) (Transaction_all_keys F tx)) =
      dom (kind_values (fact_kind F) tx) - fst ` set (stored_values F fs)"
    using select_kind_keys [of "fact_kind F" "tx_rows tx"]
    by (simp add: Transaction_all_keys_def kind_values_def set_diff_eq)
qed

lemma sync_others: "other_values (fact_kind F) (sync_facts F fs tx) = other_values (fact_kind F) tx"
  by (simp add: sync_facts_def delete_each_eq kind_store.rest_dels kind_store.rest_puts)

lemma sync_other_kind:
  "kind \<noteq> fact_kind F \<Longrightarrow> kind_values kind (sync_facts F fs tx) = kind_values kind tx"
  using fun_cong [OF arg_cong [where f = snd, OF sync_others [of F fs tx]], of kind] by (simp add: other_values_def kind_values_def)

lemma kind_values_sync:
  "kind_values kind (sync_facts F fs tx) =
   (if kind = fact_kind F then map_of (rev (stored_values F fs)) else kind_values kind tx)"
  by (simp add: sync_values sync_other_kind)

lemma sync_saved: "tx_saved (sync_facts F fs tx) = tx_saved tx"
  using sync_others [of F fs tx] by (auto simp: other_values_def)

lemma loops_iff:
  "fbind (insert_each F conv xs (Transaction_all_keys F tx) tx) (\<lambda>(remove, tx). Inr (delete_each F remove tx)) = Inr tx' \<longleftrightarrow>
   (\<exists>fs. storable F conv xs = Some fs \<and> tx' = sync_facts F fs tx)"
  by (auto simp: fbind_eq_Inr_iff insert_each_iff sync_facts_def)

text \<open>Facts of different kinds do not interfere.\<close>

lemma delete_put_commute:
  "kind \<noteq> kind' \<Longrightarrow> delete_value kind k (put_value kind' k' v tx) = put_value kind' k' v (delete_value kind k tx)"
  by (auto simp: delete_value_def put_value_def delete_row_def insert_or_replace_def conj_commute)

lemma deletes_puts_commute:
  assumes "kind \<noteq> kind'"
  shows "fold (delete_value kind) ks (fold (\<lambda>(k, v). put_value kind' k v) kvs tx) =
    fold (\<lambda>(k, v). put_value kind' k v) kvs (fold (delete_value kind) ks tx)"
proof -
  have "delete_value kind k (fold (\<lambda>(k, v). put_value kind' k v) kvs tx) =
      fold (\<lambda>(k, v). put_value kind' k v) kvs (delete_value kind k tx)" for k tx
    by (induction kvs arbitrary: tx) (auto simp: delete_put_commute assms)
  then show ?thesis
    by (induction ks arbitrary: tx) auto
qed

lemma keys_put: "kind \<noteq> fact_kind F \<Longrightarrow> Transaction_all_keys F (put_value kind k v tx) = Transaction_all_keys F tx"
  by (auto simp: Transaction_all_keys_def put_value_def insert_or_replace_def select_kind_def has_row_key_def
      intro!: arg_cong [where f = "map row_key"] filter_cong)

lemma keys_puts:
  "kind \<noteq> fact_kind F \<Longrightarrow> Transaction_all_keys F (fold (\<lambda>(k, v). put_value kind k v) kvs tx) = Transaction_all_keys F tx"
  by (induction kvs arbitrary: tx) (auto simp: keys_put)

lemma keys_delete: "kind \<noteq> fact_kind F \<Longrightarrow> Transaction_all_keys F (delete_value kind k tx) = Transaction_all_keys F tx"
  by (auto simp: Transaction_all_keys_def delete_value_def delete_row_def select_kind_def has_row_key_def
      intro!: arg_cong [where f = "map row_key"] filter_cong)

lemma keys_deletes:
  "kind \<noteq> fact_kind F \<Longrightarrow> Transaction_all_keys F (fold (delete_value kind) ks tx) = Transaction_all_keys F tx"
  by (induction ks arbitrary: tx) (auto simp: keys_delete)

lemma two_loops_iff:
  assumes "fact_kind F \<noteq> fact_kind G"
  shows "fbind (insert_each F conv xs (Transaction_all_keys F tx) tx) (\<lambda>(remove, tx1).
       fbind (m :: facts_error + 'd) (\<lambda>d.
         fbind (insert_each G conv' (ys d) (Transaction_all_keys G tx) tx1) (\<lambda>(remove', tx2).
           Inr (delete_each G remove' (delete_each F remove tx2))))) = Inr tx' \<longleftrightarrow>
     (\<exists>fs d gs. storable F conv xs = Some fs \<and> m = Inr d \<and> storable G conv' (ys d) = Some gs \<and>
       tx' = sync_facts G gs (sync_facts F fs tx))"
  using assms
  by (auto simp: fbind_eq_Inr_iff insert_each_iff sync_facts_def delete_each_eq deletes_puts_commute keys_puts keys_deletes)

text \<open>Values read back are the facts that were stored; of several with one key, the last.\<close>

definition describes :: "'f Fact \<Rightarrow> 'f list \<Rightarrow> facts_table \<Rightarrow> bool" where
  "describes F fs t \<longleftrightarrow> (\<forall>key. Database_get F t key = Inr (map_of (rev (map (\<lambda>f. (fact_key F f, f)) fs)) key))"

lemma map_of_stored:
  "map_of (rev (stored_values F fs)) key =
   map_option (\<lambda>f. the (to_json (fact_json F) f)) (map_of (rev (map (\<lambda>f. (fact_key F f, f)) fs)) key)"
proof -
  have "rev (stored_values F fs) = map (\<lambda>(k, f). (k, the (to_json (fact_json F) f))) (rev (map (\<lambda>f. (fact_key F f, f)) fs))"
    by (simp add: stored_values_def rev_map)
  then show ?thesis
    by (simp add: map_of_map)
qed

lemma describes_stored:
  assumes "json_documented (fact_json F)" "\<forall>f \<in> set fs. to_json (fact_json F) f \<noteq> None"
    and "select_value (fact_kind F) t = map_of (rev (stored_values F fs))"
  shows "describes F fs t"
  unfolding describes_def
proof
  fix key
  show "Database_get F t key = Inr (map_of (rev (map (\<lambda>f. (fact_key F f, f)) fs)) key)"
  proof (cases "map_of (rev (map (\<lambda>f. (fact_key F f, f)) fs)) key")
    case None
    then show ?thesis
      by (simp add: Database_get_def assms(3) map_of_stored)
  next
    case (Some f)
    then have "f \<in> set fs"
      using map_of_SomeD by fastforce
    then obtain v where "to_json (fact_json F) f = Some v" "from_json (fact_json F) v = Some f"
      using assms(1,2) by (auto simp: json_documented_def)
    with Some show ?thesis
      by (simp add: Database_get_def assms(3) map_of_stored row_to_fact_def)
  qed
qed

end
