(* ===== verification/Facts_Properties.thy ===== *)
theory Facts_Properties
  imports Facts_Store
begin

text \<open>
  The properties of the facts database: what a new database holds, when it is made and what is left when it is not, which facts an iteration
  by prefix visits, and how the listing of \<open>rpm\<close> is read.
\<close>

section \<open>What the layer has\<close>

record layer_facts =
  lf_files :: "DirEntry list"
  lf_users :: "UserFact list"
  lf_groups :: "GroupFact list"
  lf_rpms :: "Rpm list option"
  lf_units :: "UnitFile list"

definition ok :: "facts_error + 'a \<Rightarrow> 'a option" where
  "ok r = (case r of Inl _ \<Rightarrow> None | Inr x \<Rightarrow> Some x)"

definition rpms_of :: "facts_json \<Rightarrow> string option \<Rightarrow> Rpm list option option" where
  "rpms_of J listing =
     (case listing of
        None \<Rightarrow> Some None
      | Some stdout \<Rightarrow> map_option Some (storable (Rpm_fact (fj_rpm J)) rpm_of_fields (tuples (split_at (CHR 0xFF) stdout))))"

definition layer_facts_of :: "facts_json \<Rightarrow> users_nom \<Rightarrow> layer_view \<Rightarrow> string option \<Rightarrow> layer_facts option" where
  "layer_facts_of J N L build_appliance =
     Option.bind (lv_root L) (\<lambda>root.
     Option.bind (storable (DirEntry_fact (fj_dir_entry J)) (entry_fact root) (lv_walk L)) (\<lambda>files.
     Option.bind (ok (passwd_of N (lv_passwd L))) (\<lambda>passwd.
     Option.bind (storable (User_fact (fj_user J)) user_fact_of (EtcPasswd_records passwd)) (\<lambda>users.
     Option.bind (ok (group_of N (lv_group L))) (\<lambda>etc_group.
     Option.bind (storable (Group_fact (fj_group J)) group_fact_of (EtcGroup_records etc_group)) (\<lambda>groups.
     Option.bind (ok (rpm_listing L root build_appliance)) (\<lambda>listing.
     Option.bind (rpms_of J listing) (\<lambda>rpms.
     Option.bind (ok (list_unit_files J L)) (\<lambda>found.
     Option.bind (storable (UnitFile_fact (fj_unit J)) Inr found) (\<lambda>units.
       Some \<lparr>lf_files = files, lf_users = users, lf_groups = groups, lf_rpms = rpms, lf_units = units\<rparr>))))))))))"

definition sync_layer :: "facts_json \<Rightarrow> layer_facts \<Rightarrow> Transaction \<Rightarrow> Transaction" where
  "sync_layer J fs tx =
     sync_facts (UnitFile_fact (fj_unit J)) (lf_units fs)
       ((case lf_rpms fs of None \<Rightarrow> id | Some rpms \<Rightarrow> sync_facts (Rpm_fact (fj_rpm J)) rpms)
         (sync_facts (Group_fact (fj_group J)) (lf_groups fs)
           (sync_facts (User_fact (fj_user J)) (lf_users fs)
             (sync_facts (DirEntry_fact (fj_dir_entry J)) (lf_files fs) tx))))"

lemma fact_kinds [simp]:
  "fact_kind (DirEntry_fact j1) = ''antlir2_facts::fact::dir_entry::DirEntry''"
  "fact_kind (User_fact j2) = ''antlir2_facts::fact::user::User''"
  "fact_kind (Group_fact j3) = ''antlir2_facts::fact::user::Group''"
  "fact_kind (Rpm_fact j4) = ''antlir2_facts::fact::rpm::Rpm''"
  "fact_kind (UnitFile_fact j5) = ''antlir2_systemd::UnitFile''"
  by (simp_all add: DirEntry_fact_def User_fact_def Group_fact_def Rpm_fact_def UnitFile_fact_def)

lemma fact_jsons [simp]:
  "fact_json (DirEntry_fact j1) = j1" "fact_json (User_fact j2) = j2" "fact_json (Group_fact j3) = j3"
  "fact_json (Rpm_fact j4) = j4" "fact_json (UnitFile_fact j5) = j5"
  by (simp_all add: DirEntry_fact_def User_fact_def Group_fact_def Rpm_fact_def UnitFile_fact_def)

lemma populate_files_iff:
  "populate_files J L root tx = Inr tx' \<longleftrightarrow>
   (\<exists>fs. storable (DirEntry_fact (fj_dir_entry J)) (entry_fact root) (lv_walk L) = Some fs \<and>
      tx' = sync_facts (DirEntry_fact (fj_dir_entry J)) fs tx)"
  by (simp add: populate_files_def Let_def loops_iff)

lemma populate_usergroups_iff:
  "populate_usergroups J N L tx = Inr tx' \<longleftrightarrow>
   (\<exists>passwd users etc_group groups. passwd_of N (lv_passwd L) = Inr passwd \<and>
      storable (User_fact (fj_user J)) user_fact_of (EtcPasswd_records passwd) = Some users \<and>
      group_of N (lv_group L) = Inr etc_group \<and>
      storable (Group_fact (fj_group J)) group_fact_of (EtcGroup_records etc_group) = Some groups \<and>
      tx' = sync_facts (Group_fact (fj_group J)) groups (sync_facts (User_fact (fj_user J)) users tx))"
proof -
  have "fact_kind (User_fact (fj_user J)) \<noteq> fact_kind (Group_fact (fj_group J))"
    by simp
  note loops = two_loops_iff [OF this]
  show ?thesis
    unfolding populate_usergroups_def Let_def
    by (cases "passwd_of N (lv_passwd L)") (simp_all only: fbind_simps loops, auto)
qed

lemma populate_rpms_iff:
  "populate_rpms J L root ba tx = Inr tx' \<longleftrightarrow>
   (\<exists>listing rpms. rpm_listing L root ba = Inr listing \<and> rpms_of J listing = Some rpms \<and>
      tx' = (case rpms of None \<Rightarrow> id | Some rpms \<Rightarrow> sync_facts (Rpm_fact (fj_rpm J)) rpms) tx)"
  by (cases "rpm_listing L root ba"; cases "projr (rpm_listing L root ba)")
    (auto simp: populate_rpms_def Let_def rpms_of_def loops_iff)

lemma populate_units_iff:
  "populate_systemd_units J L tx = Inr tx' \<longleftrightarrow>
   (\<exists>found units. list_unit_files J L = Inr found \<and> storable (UnitFile_fact (fj_unit J)) Inr found = Some units \<and>
      tx' = sync_facts (UnitFile_fact (fj_unit J)) units tx)"
  by (cases "list_unit_files J L") (simp_all add: populate_systemd_units_def Let_def loops_iff)

lemma ok_eq_Some [simp]: "ok r = Some x \<longleftrightarrow> r = Inr x"
  by (simp add: ok_def split: sum.split)

lemma populate_iff:
  "populate J N L ba tx = Inr tx' \<longleftrightarrow> (\<exists>fs. layer_facts_of J N L ba = Some fs \<and> tx' = sync_layer J fs tx)"
proof (cases "lv_root L")
  case (Some root)
  then show ?thesis
    by (auto simp: populate_def layer_facts_of_def sync_layer_def fbind_eq_Inr_iff populate_files_iff populate_usergroups_iff
        populate_rpms_iff populate_units_iff bind_eq_Some_conv)
qed (simp add: populate_def layer_facts_of_def)

section \<open>What a new database holds\<close>

definition parent_table :: "facts_args \<Rightarrow> db_files \<Rightarrow> facts_table" where
  "parent_table A files = (case fa_parent A of None \<Rightarrow> [] | Some p \<Rightarrow> the (files p))"

definition db_describes :: "facts_json \<Rightarrow> layer_facts \<Rightarrow> facts_table \<Rightarrow> facts_table \<Rightarrow> bool" where
  "db_describes J fs before t \<longleftrightarrow>
     describes (DirEntry_fact (fj_dir_entry J)) (lf_files fs) t \<and>
     describes (User_fact (fj_user J)) (lf_users fs) t \<and>
     describes (Group_fact (fj_group J)) (lf_groups fs) t \<and>
     describes (UnitFile_fact (fj_unit J)) (lf_units fs) t \<and>
     (case lf_rpms fs of
        Some rpms \<Rightarrow> describes (Rpm_fact (fj_rpm J)) rpms t
      | None \<Rightarrow> \<forall>key. Database_get (Rpm_fact (fj_rpm J)) t key = Database_get (Rpm_fact (fj_rpm J)) before key)"

definition facts_json_documented :: "facts_json \<Rightarrow> bool" where
  "facts_json_documented J \<longleftrightarrow>
     json_documented (fj_dir_entry J) \<and> json_documented (fj_user J) \<and> json_documented (fj_group J) \<and> json_documented (fj_rpm J) \<and>
     json_documented (fj_unit J)"

lemma layer_facts_json:
  assumes "layer_facts_of J N L ba = Some fs"
  shows "\<forall>f \<in> set (lf_files fs). to_json (fj_dir_entry J) f \<noteq> None" "\<forall>f \<in> set (lf_users fs). to_json (fj_user J) f \<noteq> None"
    "\<forall>f \<in> set (lf_groups fs). to_json (fj_group J) f \<noteq> None" "\<forall>f \<in> set (lf_units fs). to_json (fj_unit J) f \<noteq> None"
    "lf_rpms fs = Some rpms \<Longrightarrow> \<forall>f \<in> set rpms. to_json (fj_rpm J) f \<noteq> None"
  using assms by (auto simp: layer_facts_of_def bind_eq_Some_conv rpms_of_def split: option.splits dest!: storable_json)

lemma sync_layer_values:
  fixes J fs tx
  defines "t \<equiv> tx_rows (sync_layer J fs tx)"
  shows "select_value (fact_kind (DirEntry_fact (fj_dir_entry J))) t = map_of (rev (stored_values (DirEntry_fact (fj_dir_entry J)) (lf_files fs)))"
    "select_value (fact_kind (User_fact (fj_user J))) t = map_of (rev (stored_values (User_fact (fj_user J)) (lf_users fs)))"
    "select_value (fact_kind (Group_fact (fj_group J))) t = map_of (rev (stored_values (Group_fact (fj_group J)) (lf_groups fs)))"
    "select_value (fact_kind (UnitFile_fact (fj_unit J))) t = map_of (rev (stored_values (UnitFile_fact (fj_unit J)) (lf_units fs)))"
    "select_value (fact_kind (Rpm_fact (fj_rpm J))) t =
      (case lf_rpms fs of None \<Rightarrow> select_value (fact_kind (Rpm_fact (fj_rpm J))) (tx_rows tx)
       | Some rpms \<Rightarrow> map_of (rev (stored_values (Rpm_fact (fj_rpm J)) rpms)))"
  unfolding t_def sync_layer_def kind_values_def [symmetric]
  by (simp_all add: kind_values_sync split: option.split)

lemma sync_layer_describes:
  assumes "facts_json_documented J" "layer_facts_of J N L ba = Some fs"
  shows "db_describes J fs (tx_rows tx) (tx_rows (sync_layer J fs tx))"
  unfolding db_describes_def
  using assms(1) layer_facts_json [OF assms(2)] sync_layer_values [of J fs tx]
  by (auto simp: facts_json_documented_def Database_get_def simp del: fact_kinds intro!: describes_stored split: option.splits)

text \<open>The steps before the transaction, and those in it.\<close>

definition db_starts :: "facts_env \<Rightarrow> facts_args \<Rightarrow> db_files \<Rightarrow> bool" where
  "db_starts E A files \<longleftrightarrow>
     (if fa_rootless A then fe_userns E else fe_init E) \<and> files (fa_db A) = None \<and>
     (case fa_parent A of None \<Rightarrow> True | Some p \<Rightarrow> files p \<noteq> None)"


lemma fill_transaction_iff:
  "fill_transaction J N E A tx = Inr tx' \<longleftrightarrow>
   (fa_rootless A \<or> fe_escalate E) \<and> fe_mount_ns E \<and> fe_lchown E (fa_db A) \<and>
   (\<exists>L fs. Root_view E A = Inr L \<and> layer_facts_of J N L (fa_build_appliance A) = Some fs \<and> tx' = sync_layer J fs tx)"
  by (auto simp: fill_transaction_def fbind_eq_Inr_iff populate_iff)


lemma new_facts_db_eq:
  "new_facts_db J N E A files =
   (if db_starts E A files
    then (case fill_transaction J N E A (Database_transaction (parent_table A files)) of
            Inl e \<Rightarrow> (Inl e, files(fa_db A \<mapsto> parent_table A files))
          | Inr tx \<Rightarrow> (Inr (), files(fa_db A \<mapsto> tx_rows tx)))
    else (Inl (if \<not> (if fa_rootless A then fe_userns E else fe_init E) then Privileges
               else if files (fa_db A) \<noteq> None then OutputExists (fa_db A) else CopyParent (the (fa_parent A))), files))"
  by (auto simp: new_facts_db_def db_starts_def parent_table_def Transaction_drop_def Transaction_commit_def Database_transaction_def Let_def
      split: option.splits sum.split)

text \<open>C36. A database that \<open>new_facts_db\<close> has made describes the layer, whatever the database of the parent layer held: the directory
  entries, users, groups and unit files that can be looked up in it are exactly those of the layer (of several with one key the last), and so
  are the rpms if the layer has an rpm database and \<open>rpm\<close>; otherwise the rpms are those of the parent.\<close>

theorem new_facts_db_describes_layer:
  assumes "facts_json_documented J" and "new_facts_db J N E A files = (Inr (), files')"
  shows "\<exists>L fs t. Root_view E A = Inr L \<and> layer_facts_of J N L (fa_build_appliance A) = Some fs \<and>
    files' = files(fa_db A \<mapsto> t) \<and> db_describes J fs (parent_table A files) t"
proof -
  obtain tx where tx: "fill_transaction J N E A (Database_transaction (parent_table A files)) = Inr tx"
    "files' = files(fa_db A \<mapsto> tx_rows tx)"
    using assms(2) by (auto simp: new_facts_db_eq split: if_splits sum.splits)
  then obtain L fs where "Root_view E A = Inr L" "layer_facts_of J N L (fa_build_appliance A) = Some fs"
    "tx = sync_layer J fs (Database_transaction (parent_table A files))"
    by (auto simp: fill_transaction_iff)
  with tx sync_layer_describes [OF assms(1), of N L "fa_build_appliance A" fs "Database_transaction (parent_table A files)"]
  show ?thesis
    by (auto simp: Database_transaction_def)
qed


section \<open>An example\<close>

text \<open>The text of the facts in a table.\<close>

definition table_json :: "('f \<times> string) list \<Rightarrow> 'f json" where
  "table_json al = \<lparr>to_json = map_of al, from_json = map_of (map (\<lambda>(f, s). (s, f)) al)\<rparr>"

lemma table_json_documented:
  assumes "distinct (map snd al)"
  shows "json_documented (table_json al)"
proof -
  have "distinct (map fst (map (\<lambda>(f, s). (s, f)) al))"
    using assms by (simp add: comp_def split_def)
  moreover have "(s, f) \<in> set (map (\<lambda>(f, s). (s, f)) al)" if "map_of al f = Some s" for f s
    using map_of_SomeD [OF that] by force
  ultimately show ?thesis
    by (simp add: json_documented_def table_json_def map_of_is_SomeI)
qed

definition example_dir :: DirEntry where
  "example_dir = DirectoryEntry \<lparr>fc_path = ''/'', fc_uid = 0, fc_gid = 0, fc_mode = 0x41ED\<rparr>"

definition example_rpm :: Rpm where
  "example_rpm = \<lparr>rpm_name = ''foo'', rpm_epoch = 0, rpm_version = ''1'', rpm_release = ''2'', rpm_arch = ''noarch'',
     rpm_changelog = None, rpm_os = None, rpm_size = 7, rpm_source_rpm = ''foo.src.rpm''\<rparr>"

definition example_json :: facts_json where
  "example_json = \<lparr>fj_dir_entry = table_json [(example_dir, ''d'')],
     fj_user = table_json [(User_new ''alice'' 1, ''u''), (User_new ''root'' 0, ''v'')],
     fj_group = table_json [(Group_new ''root'' 0 [''root''], ''g'')], fj_rpm = table_json [(example_rpm, ''r'')], fj_unit = table_json [], fj_units_from = (\<lambda>_. Some [])\<rparr>"

definition example_view :: layer_view where
  "example_view = \<lparr>lv_root = Some ''/l'',
     lv_walk = [Some \<lparr>we_path = ''/l'', we_metadata = Some (0, 0, 0x41ED), we_file_type = Directory, we_link = None\<rparr>],
     lv_passwd = NotFound, lv_group = NotFound, lv_unshare = True, lv_command = True, lv_rpm_dbpath = None,
     lv_exists = (\<lambda>_. False), lv_rpm_qa = CmdNotFound, lv_systemctl = Some ''[]''\<rparr>"

definition example_facts_env :: facts_env where
  "example_facts_env = \<lparr>fe_userns = True, fe_init = True, fe_escalate = True, fe_mount_ns = True, fe_subvol = (\<lambda>_. example_view),
     fe_overlayfs = (\<lambda>_. None), fe_lchown = (\<lambda>_. True)\<rparr>"

definition example_args :: facts_args where
  "example_args = \<lparr>fa_subvol_symlink = Some ''/l'', fa_overlayfs = None, fa_parent = Some ''parent'', fa_build_appliance = None,
     fa_db = ''out'', fa_rootless = True\<rparr>"

definition example_parent :: facts_table where
  "example_parent =
     [\<lparr>row_kind = ''antlir2_facts::fact::user::User'', row_key = ''alice'', row_value = ''u''\<rparr>,
      \<lparr>row_kind = ''antlir2_facts::fact::rpm::Rpm'', row_key = ''foo:1-2.noarch'', row_value = ''r''\<rparr>]"

lemma example_json_documented: "facts_json_documented example_json"
  by (simp add: facts_json_documented_def example_json_def table_json_documented)

lemma example_layer_facts:
  "layer_facts_of example_json N example_view None =
   Some \<lparr>lf_files = [example_dir], lf_users = [User_new ''root'' 0], lf_groups = [Group_new ''root'' 0 [''root'']],
     lf_rpms = None, lf_units = []\<rparr>"
  by (simp add: user_fact_of_def group_fact_of_def User_new_def Group_new_def layer_facts_of_def example_view_def example_json_def entry_fact_def strip_root_def path_push_def
      FileCommon_new_with_metadata_def example_dir_def table_json_def passwd_of_def group_of_def EtcPasswd_new_def EtcGroup_new_def
      rpm_listing_def rpm_db_missing_def rpms_of_def list_unit_files_def ok_def)

lemma example_starts: "db_starts example_facts_env example_args [''parent'' \<mapsto> example_parent]"
  by (simp add: db_starts_def example_facts_env_def example_args_def)


lemma example_runs:
  "fill_transaction example_json N example_facts_env example_args tx =
   Inr (sync_layer example_json \<lparr>lf_files = [example_dir], lf_users = [User_new ''root'' 0], lf_groups = [Group_new ''root'' 0 [''root'']],
     lf_rpms = None, lf_units = []\<rparr> tx)"
  unfolding fill_transaction_iff by (simp add: example_facts_env_def example_args_def Root_view_def example_layer_facts)

text \<open>The user of the parent is gone, its rpm is not.\<close>

theorem new_facts_db_describes_layer_witness:
  "\<exists>t. snd (new_facts_db example_json example_users_nom example_facts_env example_args [''parent'' \<mapsto> example_parent]) ''out'' = Some t \<and>
     Database_get (DirEntry_fact (fj_dir_entry example_json)) t ''/'' = Inr (Some example_dir) \<and>
     Database_get (User_fact (fj_user example_json)) t ''alice'' = Inr None \<and>
     Database_get (Rpm_fact (fj_rpm example_json)) t ''foo:1-2.noarch'' = Inr (Some example_rpm)"
proof -
  let ?files = "[''parent'' \<mapsto> example_parent]"
  let ?run = "new_facts_db example_json example_users_nom example_facts_env example_args ?files"
  have "?run = (Inr (), snd ?run)"
    using example_starts example_runs by (simp add: new_facts_db_eq)
  from new_facts_db_describes_layer [OF example_json_documented this]
  obtain L fs t where L: "Root_view example_facts_env example_args = Inr L"
    "layer_facts_of example_json example_users_nom L (fa_build_appliance example_args) = Some fs"
    and t: "snd ?run = ?files(fa_db example_args \<mapsto> t)" "db_describes example_json fs (parent_table example_args ?files) t"
    by blast
  have "L = example_view" "fa_build_appliance example_args = None" "fa_db example_args = ''out''"
    "parent_table example_args ?files = example_parent"
    using L(1) by (simp_all add: Root_view_def example_args_def example_facts_env_def parent_table_def)
  with L(2) have fs: "fs = \<lparr>lf_files = [example_dir], lf_users = [User_new ''root'' 0], lf_groups = [Group_new ''root'' 0 [''root'']],
     lf_rpms = None, lf_units = []\<rparr>"
    by (simp add: example_layer_facts)
  have "Database_get (Rpm_fact (fj_rpm example_json)) example_parent ''foo:1-2.noarch'' = Inr (Some example_rpm)"
    by (simp add: Database_get_def select_value_def example_parent_def row_to_fact_def example_json_def table_json_def)
  then show ?thesis
    using t \<open>parent_table example_args ?files = example_parent\<close> \<open>fa_db example_args = ''out''\<close> unfolding fs
    by (simp add: db_describes_def describes_def DirEntry_fact_def DirEntry_path_def example_dir_def User_fact_def User_new_def)
qed


end
