(* ===== verification/Facts_Queries.thy ===== *)
theory Facts_Queries
  imports Facts_Properties "HOL-Library.Sublist"
begin

text \<open>
  Queries of the facts database and the texts it is made from: iteration by a prefix of the key, the listing that \<open>rpm -qa\<close> prints and the keys
  of rpms.
\<close>

section \<open>Bytes that are not text\<close>



section \<open>Iteration by prefix\<close>

lemma char_le_ff: "(c :: char) \<le> CHR 0xFF"
  using nat_of_char_less_256 [of c] by (simp add: less_eq_char_def del: nat_of_char_less_256)

lemma key_range: "key \<le> k \<and> k < key @ [CHR 0xFF] \<longleftrightarrow> (\<exists>rest. k = key @ rest \<and> (rest = [] \<or> hd rest \<noteq> CHR 0xFF))"
proof (induction key arbitrary: k)
  case Nil
  show ?case
    using char_le_ff by (cases k) (auto simp: less_le)
next
  case (Cons c key)
  show ?case
  proof (cases k)
    case (Cons d k')
    then show ?thesis
      using Cons.IH [of k'] by auto
  qed simp
qed

text \<open>The rows of a kind hold facts under their keys, as they do when they were inserted.\<close>

definition holds_facts :: "'f Fact \<Rightarrow> facts_table \<Rightarrow> bool" where
  "holds_facts F t \<longleftrightarrow>
     table_wf t \<and> (\<forall>r \<in> set (select_kind (fact_kind F) t). \<exists>f. from_json (fact_json F) (row_value r) = Some f \<and> fact_key F f = row_key r)"

lemma holds_facts_insert:
  assumes "holds_facts F t" "json_documented (fact_json F)" "Database_insert F f t = Inr t'"
  shows "holds_facts F t'"
proof -
  obtain v where v: "to_json (fact_json F) f = Some v" "t' = insert_or_replace (fact_kind F) (fact_key F f) v t"
    using assms(3) by (auto simp: Database_insert_def split: option.splits)
  then have "from_json (fact_json F) v = Some f"
    using assms(2) by (simp add: json_documented_def)
  moreover have "table_wf t'"
    using assms(1) v by (simp add: holds_facts_def table_wf_insert)
  ultimately show ?thesis
    using v assms(1) by (auto simp: holds_facts_def select_kind_def insert_or_replace_def)
qed

lemma rows_read:
  "(\<And>r. r \<in> set rs \<Longrightarrow> \<exists>f. from_json (fact_json F) (row_value r) = Some f \<and> fact_key F f = row_key r) \<Longrightarrow>
   \<exists>fs. rows_to_facts F rs = Inr fs \<and> map (fact_key F) fs = map row_key rs \<and>
     (\<forall>f. f \<in> set fs \<longleftrightarrow> (\<exists>r \<in> set rs. from_json (fact_json F) (row_value r) = Some f))"
proof (induction rs)
  case (Cons r rs)
  from Cons.prems [of r] obtain f where f: "from_json (fact_json F) (row_value r) = Some f" "fact_key F f = row_key r"
    by auto
  from Cons.IH [OF Cons.prems] obtain fs where "rows_to_facts F rs = Inr fs" "map (fact_key F) fs = map row_key rs"
    "\<forall>f. f \<in> set fs \<longleftrightarrow> (\<exists>r \<in> set rs. from_json (fact_json F) (row_value r) = Some f)"
    by auto
  with f show ?case
    by (auto simp: row_to_fact_def)
qed simp

lemma find_Some_in: "List.find P xs = Some x \<Longrightarrow> x \<in> set xs \<and> P x"
  by (induction xs) (auto split: if_splits)

lemma get_row:
  assumes "holds_facts F t"
  shows "Database_get F t (fact_key F f) = Inr (Some f) \<longleftrightarrow>
    (\<exists>r \<in> set (select_kind (fact_kind F) t). row_key r = fact_key F f \<and> from_json (fact_json F) (row_value r) = Some f)"
proof
  assume "Database_get F t (fact_key F f) = Inr (Some f)"
  then obtain r where "List.find (has_row_key (fact_kind F) (fact_key F f)) t = Some r" "from_json (fact_json F) (row_value r) = Some f"
    by (auto simp: Database_get_def select_value_def row_to_fact_def split: option.splits)
  then show "\<exists>r \<in> set (select_kind (fact_kind F) t). row_key r = fact_key F f \<and> from_json (fact_json F) (row_value r) = Some f"
    using find_Some_in [of "has_row_key (fact_kind F) (fact_key F f)" t r] by (auto simp: select_kind_def has_row_key_def)
next
  assume "\<exists>r \<in> set (select_kind (fact_kind F) t). row_key r = fact_key F f \<and> from_json (fact_json F) (row_value r) = Some f"
  then obtain r where r: "r \<in> set t" "row_kind r = fact_kind F" "row_key r = fact_key F f" "from_json (fact_json F) (row_value r) = Some f"
    by (auto simp: select_kind_def)
  with select_value_row [of t r] assms show "Database_get F t (fact_key F f) = Inr (Some f)"
    by (simp add: Database_get_def row_to_fact_def holds_facts_def)
qed

lemma distinct_select_kind: "table_wf t \<Longrightarrow> distinct (map row_key (select_kind kind t))"
  by (auto simp: table_wf_def select_kind_def distinct_map inj_on_def)

text \<open>C38. Iterating by a prefix visits, in the order of their keys and each once, exactly the facts of that kind whose key starts with the
  prefix and does not go on with the byte 255; as long as keys are text there are no others with the prefix.\<close>

theorem iter_prefix_exact:
  assumes "holds_facts F t"
  shows "\<exists>fs. Database_iter_prefix F t p = Inr fs \<and> sorted_wrt (<) (map (fact_key F) fs) \<and>
    (\<forall>f. f \<in> set fs \<longleftrightarrow> Database_get F t (fact_key F f) = Inr (Some f) \<and> prefix p (fact_key F f) \<and> \<not> prefix (p @ [CHR 0xFF]) (fact_key F f))"
proof -
  let ?rs = "sort_key row_key (filter (\<lambda>r. p \<le> row_key r \<and> row_key r < p @ [CHR 0xFF]) (select_kind (fact_kind F) t))"
  have "\<exists>f. from_json (fact_json F) (row_value r) = Some f \<and> fact_key F f = row_key r" if "r \<in> set ?rs" for r
    using that assms by (auto simp: holds_facts_def)
  from rows_read [OF this] obtain fs where fs: "rows_to_facts F ?rs = Inr fs" "map (fact_key F) fs = map row_key ?rs"
    "\<forall>f. f \<in> set fs \<longleftrightarrow> (\<exists>r \<in> set ?rs. from_json (fact_json F) (row_value r) = Some f)"
    by blast
  have "distinct (map row_key ?rs)"
    using distinct_select_kind [of t "fact_kind F"] assms by (simp add: holds_facts_def distinct_map inj_on_def)
  then have "sorted_wrt (<) (map row_key ?rs)"
    by (simp add: strict_sorted_iff)
  moreover have "(p \<le> k \<and> k < p @ [CHR 0xFF]) \<longleftrightarrow> prefix p k \<and> \<not> prefix (p @ [CHR 0xFF]) k" for k
    unfolding key_range by (auto simp: prefix_def) (metis hd_Cons_tl)
  then have "f \<in> set fs \<longleftrightarrow> Database_get F t (fact_key F f) = Inr (Some f) \<and> prefix p (fact_key F f) \<and> \<not> prefix (p @ [CHR 0xFF]) (fact_key F f)" for f
    using assms unfolding fs(3) [rule_format] get_row [OF assms] by (force simp: holds_facts_def)
  ultimately show ?thesis
    using fs by (auto simp: Database_iter_prefix_def Let_def)
qed

definition example_holds :: facts_table where
  "example_holds =
     [\<lparr>row_kind = ''antlir2_facts::fact::user::User'', row_key = ''root'', row_value = ''v''\<rparr>,
      \<lparr>row_kind = ''antlir2_facts::fact::user::User'', row_key = ''alice'', row_value = ''u''\<rparr>]"

theorem iter_prefix_exact_witness:
  "\<exists>fs. Database_iter_prefix (User_fact (fj_user example_json)) example_holds ''al'' = Inr fs \<and> User_new ''alice'' 1 \<in> set fs"
proof -
  have "holds_facts (User_fact (fj_user example_json)) example_holds"
    by (simp add: holds_facts_def table_wf_def example_holds_def select_kind_def example_json_def table_json_def User_fact_def User_new_def)
  from iter_prefix_exact [OF this, of "''al''"] obtain fs where
    "Database_iter_prefix (User_fact (fj_user example_json)) example_holds ''al'' = Inr fs"
    "User_new ''alice'' 1 \<in> set fs \<longleftrightarrow>
       Database_get (User_fact (fj_user example_json)) example_holds ''alice'' = Inr (Some (User_new ''alice'' 1)) \<and>
       prefix ''al'' ''alice'' \<and> \<not> prefix (''al'' @ [CHR 0xFF]) ''alice''"
    by (auto simp: User_fact_def User_new_def)
  moreover have "Database_get (User_fact (fj_user example_json)) example_holds ''alice'' = Inr (Some (User_new ''alice'' 1))"
    by (simp add: Database_get_def select_value_def example_holds_def row_to_fact_def example_json_def table_json_def)
  ultimately show ?thesis
    by simp
qed

section \<open>The listing of rpms\<close>






lemma show_u64_digits: "list_all is_digit (show_u64 w)"
  by (simp add: show_u64_def show_nat_digits)

lemma parse_u64_show: "parse_u64 (show_u64 w) = Some w"
proof -
  have "parse_digits64 (show_u64 w) = Some w"
    using unsigned_less [of w] show_u64_digits [of w] by (simp add: parse_digits64_def show_u64_def show_nat_value)
  moreover have "show_u64 w \<noteq> []"
    by (simp add: show_u64_def)
  ultimately show ?thesis
    using show_u64_digits [of w] by (auto simp: parse_u64_def is_digit_def split: list.split)
qed







section \<open>The keys of rpms\<close>

text \<open>What a version, a release and an architecture do not contain.\<close>

definition nevra_fits :: "Rpm \<Rightarrow> bool" where
  "nevra_fits r \<longleftrightarrow>
     CHR '':'' \<notin> set (rpm_version r) \<union> set (rpm_release r) \<union> set (rpm_arch r) \<and>
     CHR ''-'' \<notin> set (rpm_version r) \<and> CHR ''.'' \<notin> set (rpm_arch r)"

definition nevra_name :: "Rpm \<Rightarrow> string" where
  "nevra_name r = (if rpm_epoch r = 0 then rpm_name r else rpm_name r @ ''-'' @ show_u64 (rpm_epoch r))"

lemma append_first_eq: "c \<notin> set a \<Longrightarrow> c \<notin> set a' \<Longrightarrow> a @ c # b = a' @ c # b' \<longleftrightarrow> a = a' \<and> b = b'"
proof (induction a arbitrary: a')
  case Nil
  then show ?case
    by (cases a') auto
next
  case (Cons x a)
  then show ?case
    by (cases a') auto
qed

lemma append_last_eq:
  assumes "c \<notin> set b" "c \<notin> set b'"
  shows "a @ c # b = a' @ c # b' \<longleftrightarrow> a = a' \<and> b = b'"
proof -
  have "a @ c # b = a' @ c # b' \<longleftrightarrow> rev (a @ c # b) = rev (a' @ c # b')"
    by (simp only: rev_is_rev_conv)
  also have "\<dots> \<longleftrightarrow> rev b @ c # rev a = rev b' @ c # rev a'"
    by simp
  also have "\<dots> \<longleftrightarrow> a = a' \<and> b = b'"
    using assms by (subst append_first_eq) auto
  finally show ?thesis .
qed

lemma nevra_eq_parts:
  assumes "nevra_fits r" "nevra_fits r'"
  shows "Rpm_nevra r = Rpm_nevra r' \<longleftrightarrow>
    nevra_name r = nevra_name r' \<and> rpm_version r = rpm_version r' \<and> rpm_release r = rpm_release r' \<and> rpm_arch r = rpm_arch r'"
proof -
  have "Rpm_nevra r = nevra_name r @ CHR '':'' # rpm_version r @ CHR ''-'' # rpm_release r @ CHR ''.'' # rpm_arch r" for r
    by (simp add: Rpm_nevra_def Rpm_to_string_def nevra_name_def)
  with assms show ?thesis
    by (simp add: nevra_fits_def append_last_eq append_first_eq)
qed

lemma show_u64_inj: "show_u64 v = show_u64 w \<longleftrightarrow> v = w"
proof
  assume same: "show_u64 v = show_u64 w"
  show "v = w"
    using parse_u64_show [of v] unfolding same parse_u64_show by (rule option.inject [THEN iffD1, symmetric])
qed (rule arg_cong)

lemma show_u64_no_dash: "CHR ''-'' \<notin> set (show_u64 w)"
  by (rule digit_free [OF show_u64_digits]) (simp add: is_digit_def)

text \<open>C40. The key of an rpm tells it from every other rpm with a different name, epoch, version, release or architecture, with one
  exception: an rpm of epoch 0 whose name ends in a dash and a number has the key of the rpm of the shorter name with that number as its
  epoch.\<close>

theorem nevra_key_collisions:
  assumes "nevra_fits r" "nevra_fits r'"
  shows "Rpm_nevra r = Rpm_nevra r' \<longleftrightarrow>
    rpm_version r = rpm_version r' \<and> rpm_release r = rpm_release r' \<and> rpm_arch r = rpm_arch r' \<and>
    (rpm_name r = rpm_name r' \<and> rpm_epoch r = rpm_epoch r' \<or>
     rpm_epoch r = 0 \<and> rpm_epoch r' \<noteq> 0 \<and> rpm_name r = rpm_name r' @ ''-'' @ show_u64 (rpm_epoch r') \<or>
     rpm_epoch r \<noteq> 0 \<and> rpm_epoch r' = 0 \<and> rpm_name r @ ''-'' @ show_u64 (rpm_epoch r) = rpm_name r')"
proof -
  have "rpm_name r @ CHR ''-'' # show_u64 (rpm_epoch r) = rpm_name r' @ CHR ''-'' # show_u64 (rpm_epoch r') \<longleftrightarrow>
      rpm_name r = rpm_name r' \<and> rpm_epoch r = rpm_epoch r'"
    using append_last_eq [OF show_u64_no_dash show_u64_no_dash] show_u64_inj by simp
  then show ?thesis
    unfolding nevra_eq_parts [OF assms] nevra_name_def
    by (cases "rpm_epoch r = 0"; cases "rpm_epoch r' = 0") auto
qed

theorem nevra_key_collisions_witness:
  "Rpm_nevra (example_rpm\<lparr>rpm_name := ''lib-5''\<rparr>) = Rpm_nevra (example_rpm\<lparr>rpm_name := ''lib'', rpm_epoch := 5\<rparr>)"
proof -
  have "nevra_fits (example_rpm\<lparr>rpm_name := ''lib-5''\<rparr>)" "nevra_fits (example_rpm\<lparr>rpm_name := ''lib'', rpm_epoch := 5\<rparr>)"
    by (simp_all add: nevra_fits_def example_rpm_def)
  moreover have "show_u64 5 = ''5''"
    by (simp add: show_u64_def show_nat.simps)
  ultimately show ?thesis
    by (subst nevra_key_collisions) (simp_all add: example_rpm_def)
qed

section \<open>Unit types\<close>

text \<open>No unit is a scope: the suffix of a scope unit is taken for that of a slice.\<close>

theorem unit_type_never_scope: "unit_type u \<noteq> Some TypeScope"
  by (simp add: unit_type_def UnitType_from_def Let_def)

lemma scope_is_slice: "unit_type \<lparr>unit_name = ''init.scope'', unit_state = st, unit_preset = None\<rparr> = Some TypeSlice"
  by (simp add: unit_type_def UnitType_from_def)

end
