(* ===== verification/Sendstream_Types.thy ===== *)
theory Sendstream_Types
  imports Nom
begin

text \<open>
  \<open>antlir2/sendstream_parser/src/lib.rs\<close>: the commands of a send stream as the parser gives them to
  its caller, one record per command. A path is its bytes. A \<open>Uuid\<close> is the number it is made from;
  a \<open>SystemTime\<close> is the seconds and nanoseconds since the epoch.
\<close>

type_synonym u128 = "128 word"

section \<open>Values\<close>

datatype TemporaryPath = TemporaryPath bytes
datatype Ctransid = Ctransid u64
datatype Uuid = Uuid u128
datatype Uid = Uid u32
datatype Gid = Gid u32
datatype Mode = Mode u32
datatype CloneLen = CloneLen u64
datatype LinkTarget = LinkTarget bytes
datatype Rdev = Rdev u64
datatype XattrName = XattrName bytes
datatype XattrData = XattrData bytes
datatype Ino = Ino u64
datatype FileOffset = FileOffset u64
datatype Data = Data bytes
datatype SystemTime = SystemTime nat nat
datatype Atime = Atime SystemTime
datatype Ctime = Ctime SystemTime
datatype Mtime = Mtime SystemTime

section \<open>Commands\<close>

record Subvol =
  subvol_path :: bytes
  subvol_uuid :: Uuid
  subvol_ctransid :: Ctransid

record Chmod =
  chmod_path :: bytes
  chmod_mode :: Mode

record Chown =
  chown_path :: bytes
  chown_uid :: Uid
  chown_gid :: Gid

record Clone =
  clone_src_offset :: FileOffset
  clone_len :: CloneLen
  clone_src_path :: bytes
  clone_uuid :: Uuid
  clone_ctransid :: Ctransid
  clone_dst_path :: bytes
  clone_dst_offset :: FileOffset

record Link =
  link_link_name :: bytes
  link_target :: LinkTarget

record Mkdir =
  mkdir_path :: TemporaryPath
  mkdir_ino :: Ino

record Mkspecial =
  mkspecial_path :: TemporaryPath
  mkspecial_ino :: Ino
  mkspecial_rdev :: Rdev
  mkspecial_mode :: Mode

datatype Mkfifo = Mkfifo Mkspecial
datatype Mknod = Mknod Mkspecial
datatype Mksock = Mksock Mkspecial

record Mkfile =
  mkfile_path :: TemporaryPath
  mkfile_ino :: Ino

record RemoveXattr =
  remove_xattr_path :: bytes
  remove_xattr_name :: XattrName

record Rename =
  rename_from :: bytes
  rename_to :: bytes

record Rmdir =
  rmdir_path :: bytes

record Symlink =
  symlink_link_name :: bytes
  symlink_ino :: Ino
  symlink_target :: LinkTarget

record SetXattr =
  set_xattr_path :: bytes
  set_xattr_name :: XattrName
  set_xattr_data :: XattrData

record Snapshot =
  snapshot_path :: bytes
  snapshot_uuid :: Uuid
  snapshot_ctransid :: Ctransid
  snapshot_clone_uuid :: Uuid
  snapshot_clone_ctransid :: Ctransid

record Truncate =
  truncate_path :: bytes
  truncate_size :: u64

record Unlink =
  unlink_path :: bytes

record UpdateExtent =
  update_extent_path :: bytes
  update_extent_offset :: FileOffset
  update_extent_len :: u64

record Utimes =
  utimes_path :: bytes
  utimes_atime :: Atime
  utimes_mtime :: Mtime
  utimes_ctime :: Ctime

record Write =
  write_path :: bytes
  write_offset_field :: FileOffset
  write_data_field :: Data

datatype Command =
    Command_Chmod Chmod
  | Command_Chown Chown
  | Command_Clone Clone
  | Command_End
  | Command_Link Link
  | Command_Mkdir Mkdir
  | Command_Mkfifo Mkfifo
  | Command_Mkfile Mkfile
  | Command_Mknod Mknod
  | Command_Mksock Mksock
  | Command_RemoveXattr RemoveXattr
  | Command_Rename Rename
  | Command_Rmdir Rmdir
  | Command_SetXattr SetXattr
  | Command_Snapshot Snapshot
  | Command_Subvol Subvol
  | Command_Symlink Symlink
  | Command_Truncate Truncate
  | Command_Unlink Unlink
  | Command_UpdateExtent UpdateExtent
  | Command_Utimes Utimes
  | Command_Write Write

section \<open>Errors\<close>

datatype Error = TrailingData bytes | Incomplete | IO | Unparsable

datatype ParserControl = KeepGoing | Enough

end
