(* ===== verification/Change_Stream.thy ===== *)
theory Change_Stream
  imports Sendstream_Types
begin

text \<open>
  \<open>antlir2/antlir2_change_stream/src\<close>: the difference of two directory trees as a stream of changes that turns the old tree into the new
  one, and the stream that builds a tree from nothing.

  A tree has what the operating system says of it: the entries of a directory in the order in which they are read, the metadata and the
  extended attributes in the order of their names. Failures of the operating system are not modelled. The type of the contents
  of files is a parameter, as it is in the source, with the two functions of its trait.
\<close>

section \<open>\<open>lib.rs\<close>\<close>

type_synonym fpath = "bytes list"

datatype file_type = FtDir | FtFile | FtSymlink | FtBlock | FtChar | FtFifo | FtSocket

datatype change_error = UnsupportedFileType fpath file_type

datatype 'c Operation =
    Op_Chmod u32
  | Op_Chown u32 u32
  | Op_Contents 'c
  | Op_Create u32
  | Op_Symlink bytes
  | Op_HardLink bytes
  | Op_Mkdir u32
  | Op_Mkfifo u32
  | Op_Mknod u64 u32
  | Op_Rmdir
  | Op_Unlink
  | Op_Rename fpath
  | Op_SetTimes SystemTime SystemTime
  | Op_SetXattr bytes bytes
  | Op_RemoveXattr bytes

datatype 'c Change = Change (chg_path: fpath) (chg_operation: "'c Operation")

section \<open>Trees\<close>

record Metadata =
  md_mode :: u32
  md_uid :: u32
  md_gid :: u32
  md_rdev :: u64
  md_atime :: SystemTime
  md_mtime :: SystemTime
  md_xattrs :: "(bytes \<times> bytes) list"

datatype tree_node =
    TDir Metadata "(bytes \<times> tree_node) list"
  | TFile Metadata bytes
  | TSymlink Metadata bytes
  | TSpecial Metadata file_type

type_synonym dir = "Metadata \<times> (bytes \<times> tree_node) list"

fun node_meta :: "tree_node \<Rightarrow> Metadata" where
  "node_meta (TDir m es) = m"
| "node_meta (TFile m c) = m"
| "node_meta (TSymlink m t) = m"
| "node_meta (TSpecial m ft) = m"

fun node_type :: "tree_node \<Rightarrow> file_type" where
  "node_type (TDir m es) = FtDir"
| "node_type (TFile m c) = FtFile"
| "node_type (TSymlink m t) = FtSymlink"
| "node_type (TSpecial m ft) = ft"

section \<open>\<open>contents.rs\<close>\<close>

text \<open>An implementation of the trait. \<open>ci_differs\<close> takes both values as mutable references, so it returns them as it leaves them.
  \<open>ci_read\<close> is what a consumer reads from a value.\<close>

record 'c contents_impl =
  ci_from_file :: "bytes \<Rightarrow> 'c"
  ci_differs :: "'c \<Rightarrow> 'c \<Rightarrow> bool \<times> 'c \<times> 'c"
  ci_read :: "'c \<Rightarrow> bytes"

definition vec_contents :: "bytes contents_impl" where
  "vec_contents = \<lparr>ci_from_file = (\<lambda>b. b), ci_differs = (\<lambda>a b. (a \<noteq> b, a, b)), ci_read = (\<lambda>b. b)\<rparr>"

text \<open>An open file, or a buffered reader of one: its bytes and the position from which it is read.\<close>

record open_file =
  of_data :: bytes
  of_pos :: nat

definition CHUNK_SIZE :: nat where
  "CHUNK_SIZE = 0x4000"

definition of_rest :: "open_file \<Rightarrow> bytes" where
  "of_rest f = drop (of_pos f) (of_data f)"

text \<open>\<open>take(chunk_size).read_to_end\<close>: the next chunk, or what is left.\<close>

definition read_chunk :: "open_file \<Rightarrow> bytes \<times> open_file" where
  "read_chunk f = (let buf = take CHUNK_SIZE (of_rest f) in (buf, f\<lparr>of_pos := of_pos f + length buf\<rparr>))"

lemma read_chunk_shorter:
  assumes "read_chunk f = (buf, f')"
  shows "length buf = min CHUNK_SIZE (length (of_rest f))" and "length (of_rest f') = length (of_rest f) - length buf"
    and "of_rest f = buf @ of_rest f'"
  using assms
  by (auto simp: read_chunk_def Let_def of_rest_def min_def) (metis append_take_drop_id drop_drop add.commute length_take min_def length_drop)

function readers_differ :: "open_file \<Rightarrow> open_file \<Rightarrow> bool \<times> open_file \<times> open_file" where
  "readers_differ a b =
     (case read_chunk a of (a_buf, a) \<Rightarrow>
      case read_chunk b of (b_buf, b) \<Rightarrow>
        let a_n = length a_buf
        in if a_buf \<noteq> b_buf then (True, a, b)
           else if a_n = 0 \<or> a_n < CHUNK_SIZE then (False, a, b)
           else readers_differ a b)"
  by pat_completeness auto
termination
proof (relation "measure (\<lambda>(a, b). length (of_rest a))")
  fix a b x y xa ya and n :: nat
  assume "(x, y) = read_chunk a" and "n = length x" and "\<not> (n = 0 \<or> n < CHUNK_SIZE)"
  then have "of_rest a = x @ of_rest y" and "0 < length x"
    using read_chunk_shorter(3) [of a x y] by simp_all
  then show "((y, ya), a, b) \<in> measure (\<lambda>(a, b). length (of_rest a))"
    by simp
qed simp

declare readers_differ.simps [simp del]

text \<open>For \<open>File\<close>, \<open>readers_differ\<close> gets temporary buffered readers over the two files; the bytes they have read ahead and not handed out, \<open>ahead\<close>
  of them at most, are lost with them. \<open>BufReader<File>\<close> keeps its buffer.\<close>

definition skip_ahead :: "nat \<Rightarrow> open_file \<Rightarrow> open_file" where
  "skip_ahead ahead f = f\<lparr>of_pos := min (length (of_data f)) (of_pos f + ahead)\<rparr>"

definition File_differs :: "nat \<Rightarrow> open_file \<Rightarrow> open_file \<Rightarrow> bool \<times> open_file \<times> open_file" where
  "File_differs ahead self other =
     (if length (of_data self) \<noteq> length (of_data other) then (True, self, other)
      else case readers_differ self other of (d, self, other) \<Rightarrow> (d, skip_ahead ahead self, skip_ahead ahead other))"

definition File_contents :: "nat \<Rightarrow> open_file contents_impl" where
  "File_contents ahead =
     \<lparr>ci_from_file = (\<lambda>b. \<lparr>of_data = b, of_pos = 0\<rparr>), ci_differs = File_differs ahead, ci_read = of_rest\<rparr>"

definition BufReader_differs :: "open_file \<Rightarrow> open_file \<Rightarrow> bool \<times> open_file \<times> open_file" where
  "BufReader_differs self other =
     (if length (of_data self) \<noteq> length (of_data other) then (True, self, other) else readers_differ self other)"

definition BufReader_contents :: "open_file contents_impl" where
  "BufReader_contents = \<lparr>ci_from_file = (\<lambda>b. \<lparr>of_data = b, of_pos = 0\<rparr>), ci_differs = BufReader_differs, ci_read = of_rest\<rparr>"

section \<open>\<open>compare.rs\<close>\<close>

datatype 'c Instruction =
    Ins_Change "'c Change"
  | CompareTree fpath dir dir
  | RemoveTree fpath dir
  | AddTree fpath dir
  | CompareFile fpath tree_node tree_node
  | NewFile fpath tree_node

text \<open>Without the bits of the file type.\<close>

definition sanitize_mode :: "u32 \<Rightarrow> u32" where
  "sanitize_mode mode = mode AND NOT 0xF000"

definition maybe_chown :: "Metadata \<Rightarrow> Metadata \<Rightarrow> 'c Operation list" where
  "maybe_chown old new =
     (if md_uid old \<noteq> md_uid new \<or> md_gid old \<noteq> md_gid new then [Op_Chown (md_uid new) (md_gid new)] else [])"

definition maybe_chmod :: "Metadata \<Rightarrow> Metadata \<Rightarrow> 'c Operation list" where
  "maybe_chmod old new =
     (if sanitize_mode (md_mode old) \<noteq> sanitize_mode (md_mode new) then [Op_Chmod (sanitize_mode (md_mode new))] else [])"

definition maybe_set_times :: "Metadata \<Rightarrow> Metadata \<Rightarrow> 'c Operation list" where
  "maybe_set_times old new = (if md_mtime old \<noteq> md_mtime new then [Op_SetTimes (md_atime new) (md_mtime new)] else [])"

section \<open>\<open>compare/xattrs.rs\<close>\<close>

definition xattr_ops :: "(bytes \<times> bytes) list option \<Rightarrow> (bytes \<times> bytes) list \<Rightarrow> 'c Operation list" where
  "xattr_ops old new =
     (let old = (case old of Some o' \<Rightarrow> o' | None \<Rightarrow> [])
      in map Op_RemoveXattr (filter (\<lambda>old_name. old_name \<notin> fst ` set new) (map fst old)) @
         map (\<lambda>(name, value). Op_SetXattr name value)
           (filter (\<lambda>(name, value). case map_of old name of Some old_value \<Rightarrow> old_value \<noteq> value | None \<Rightarrow> True) new))"

section \<open>\<open>compare/file.rs\<close>\<close>

definition file_compare :: "'c contents_impl \<Rightarrow> tree_node \<Rightarrow> tree_node \<Rightarrow> 'c Operation list" where
  "file_compare C old new =
     (case (old, new) of
        (TFile _ old_bytes, TFile _ new_bytes) \<Rightarrow>
          (case ci_differs C (ci_from_file C new_bytes) (ci_from_file C old_bytes) of (differs, new_contents, _) \<Rightarrow>
             if differs then [Op_Contents new_contents] else [])
      | (TSymlink _ old_target, TSymlink _ new_target) \<Rightarrow>
          if old_target \<noteq> new_target then [Op_Unlink, Op_Symlink new_target] else []
      | _ \<Rightarrow> []) @
     xattr_ops (Some (md_xattrs (node_meta old))) (md_xattrs (node_meta new)) @
     maybe_chmod (node_meta old) (node_meta new) @ maybe_chown (node_meta old) (node_meta new) @
     maybe_set_times (node_meta old) (node_meta new)"

definition file_add :: "'c contents_impl \<Rightarrow> fpath \<Rightarrow> tree_node \<Rightarrow> change_error + 'c Operation list" where
  "file_add C path file =
     (let meta = node_meta file;
          rest = xattr_ops None (md_xattrs meta) @
            [Op_Chown (md_uid meta) (md_gid meta), Op_SetTimes (md_atime meta) (md_mtime meta)]
      in case file of
           TFile _ bs \<Rightarrow> Inr ([Op_Create (sanitize_mode (md_mode meta)), Op_Contents (ci_from_file C bs)] @ rest)
         | TSymlink _ target \<Rightarrow> Inr (Op_Symlink target # rest)
         | _ \<Rightarrow> Inl (UnsupportedFileType path (node_type file)))"

section \<open>\<open>compare/tree.rs\<close>\<close>

text \<open>The instructions in the order in which they are pushed: the last one is carried out first.\<close>

definition changes_at :: "fpath \<Rightarrow> 'c Operation list \<Rightarrow> 'c Instruction list" where
  "changes_at path ops = map (\<lambda>op. Ins_Change (Change path op)) ops"

definition new_instruction :: "fpath \<Rightarrow> tree_node \<Rightarrow> 'c Instruction" where
  "new_instruction path new = (case new of TDir m es \<Rightarrow> AddTree path (m, es) | _ \<Rightarrow> NewFile path new)"

definition remove_instruction :: "fpath \<Rightarrow> tree_node \<Rightarrow> 'c Instruction" where
  "remove_instruction path old = (case old of TDir m es \<Rightarrow> RemoveTree path (m, es) | _ \<Rightarrow> Ins_Change (Change path Op_Unlink))"

definition compare_entry :: "fpath \<Rightarrow> (bytes \<times> tree_node) list \<Rightarrow> bytes \<times> tree_node \<Rightarrow> 'c Instruction list" where
  "compare_entry prefix old_entries entry =
     (case entry of (name, new) \<Rightarrow>
        let path = prefix @ [name]
        in case map_of old_entries name of
             Some old \<Rightarrow>
               if node_type old \<noteq> node_type new then [new_instruction path new, remove_instruction path old]
               else (case (old, new) of
                       (TDir om oes, TDir nm nes) \<Rightarrow> [CompareTree path (om, oes) (nm, nes)]
                     | _ \<Rightarrow> [CompareFile path old new])
           | None \<Rightarrow> [new_instruction path new])"

definition tree_compare :: "fpath \<Rightarrow> dir \<Rightarrow> dir \<Rightarrow> 'c Instruction list" where
  "tree_compare prefix old new =
     (case (old, new) of ((old_meta, old_entries), (new_meta, new_entries)) \<Rightarrow>
        changes_at prefix (maybe_chown old_meta new_meta @ maybe_chmod old_meta new_meta @ maybe_set_times old_meta new_meta @
          xattr_ops (Some (md_xattrs old_meta)) (md_xattrs new_meta)) @
        map (\<lambda>(name, t). remove_instruction (prefix @ [name]) t)
          (filter (\<lambda>(name, t). map_of new_entries name = None) old_entries) @
        concat (map (compare_entry prefix old_entries) new_entries))"

definition tree_remove :: "fpath \<Rightarrow> dir \<Rightarrow> 'c Instruction list" where
  "tree_remove prefix dir =
     Ins_Change (Change prefix Op_Rmdir) # map (\<lambda>(name, t). remove_instruction (prefix @ [name]) t) (snd dir)"

definition tree_add :: "fpath \<Rightarrow> dir \<Rightarrow> 'c Instruction list" where
  "tree_add prefix dir =
     (case dir of (meta, entries) \<Rightarrow>
        changes_at prefix [Op_SetTimes (md_atime meta) (md_mtime meta), Op_Chown (md_uid meta) (md_gid meta)] @
        map (\<lambda>(name, t). new_instruction (prefix @ [name]) t) entries @
        changes_at prefix [Op_Mkdir (sanitize_mode (md_mode meta))])"

section \<open>The stack machine\<close>

fun node_weight :: "tree_node \<Rightarrow> nat" where
  "node_weight (TDir m es) = Suc (sum_list (map (\<lambda>(n, t). Suc (node_weight t)) es))"
| "node_weight _ = 1"

fun instruction_weight :: "'c Instruction \<Rightarrow> nat" where
  "instruction_weight (Ins_Change c) = 0"
| "instruction_weight (CompareTree p (om, oes) (nm, nes)) = Suc (node_weight (TDir om oes)) * Suc (node_weight (TDir nm nes))"
| "instruction_weight (RemoveTree p (m, es)) = node_weight (TDir m es)"
| "instruction_weight (AddTree p (m, es)) = node_weight (TDir m es)"
| "instruction_weight (CompareFile p old new) = 1"
| "instruction_weight (NewFile p t) = 1"

definition stack_weight :: "'c Instruction list \<Rightarrow> nat" where
  "stack_weight st = sum_list (map instruction_weight st)"

lemma stack_weight_simps [simp]:
  "stack_weight [] = 0" "stack_weight (i # st) = instruction_weight i + stack_weight st"
  "stack_weight (st @ st') = stack_weight st + stack_weight st'" "stack_weight (rev st) = stack_weight st"
  "stack_weight (changes_at p ops) = 0"
  by (auto simp: stack_weight_def changes_at_def rev_map [symmetric] comp_def)

lemma entry_weights [simp]:
  "instruction_weight (new_instruction p t) = node_weight t" "instruction_weight (remove_instruction p t) \<le> node_weight t" "0 < node_weight t"
  by (cases t; simp add: new_instruction_def remove_instruction_def)+

lemma entries_weight:
  "stack_weight (map (\<lambda>(n, t). remove_instruction (prefix @ [n]) t) es :: 'c Instruction list) \<le> sum_list (map (\<lambda>(n, t). Suc (node_weight t)) es)"
  "stack_weight (map (\<lambda>(n, t). new_instruction (prefix @ [n]) t) es :: 'c Instruction list) \<le> sum_list (map (\<lambda>(n, t). Suc (node_weight t)) es)"
  by (induction es) (auto intro!: le_SucI add_mono)

lemma map_of_weight: "map_of es name = Some t \<Longrightarrow> Suc (node_weight t) \<le> sum_list (map (\<lambda>(n, t). Suc (node_weight t)) es)"
  by (induction es) (auto split: if_splits)

lemma compare_entry_weight:
  "stack_weight (compare_entry prefix oes (name, new) :: 'c Instruction list) \<le> Suc (sum_list (map (\<lambda>(n, t). Suc (node_weight t)) oes)) * Suc (node_weight new)"
    (is "_ \<le> Suc ?old * _")
proof (cases "map_of oes name")
  case None
  then show ?thesis
    by (simp add: compare_entry_def)
next
  case (Some old)
  then have old: "Suc (node_weight old) \<le> ?old"
    by (rule map_of_weight)
  have "stack_weight (compare_entry prefix oes (name, new) :: 'c Instruction list) \<le> Suc (node_weight old) * Suc (node_weight new)"
  proof (cases "node_type old = node_type new")
    case True
    with Some show ?thesis
      by (cases old; cases new) (auto simp: compare_entry_def)
  next
    case False
    with Some show ?thesis
      by (auto simp: compare_entry_def Let_def intro!: le_SucI trans_le_add1)
  qed
  also have "\<dots> \<le> Suc ?old * Suc (node_weight new)"
    using old by (intro mult_le_mono1) simp
  finally show ?thesis .
qed

lemma compare_entries_weight:
  "stack_weight (concat (map (compare_entry prefix oes) nes) :: 'c Instruction list) \<le>
     Suc (sum_list (map (\<lambda>(n, t). Suc (node_weight t)) oes)) * sum_list (map (\<lambda>(n, t). Suc (node_weight t)) nes)"
proof (induction nes)
  case (Cons e nes)
  then show ?case
    using compare_entry_weight [of prefix oes "fst e" "snd e", where 'c = 'c] by (cases e) (simp add: algebra_simps)
qed simp

lemma tree_compare_weight:
  "stack_weight (tree_compare p (om, oes) (nm, nes) :: 'c Instruction list) < instruction_weight (CompareTree p (om, oes) (nm, nes) :: 'c Instruction)"
proof -
  let ?w = "\<lambda>es. sum_list (map (\<lambda>(n, t). Suc (node_weight t)) es)"
  have "stack_weight (map (\<lambda>(name, t). remove_instruction (p @ [name]) t) (filter P oes) :: 'c Instruction list) \<le> ?w oes" for P
    using entries_weight(1) [of p "filter P oes"] sum_list_filter_le_nat [of "\<lambda>(n, t). Suc (node_weight t)" P oes] order_trans by blast
  moreover have "stack_weight (concat (map (compare_entry p oes) nes) :: 'c Instruction list) \<le> Suc (?w oes) * ?w nes"
    by (rule compare_entries_weight)
  ultimately have "stack_weight (tree_compare p (om, oes) (nm, nes) :: 'c Instruction list) \<le> ?w oes + Suc (?w oes) * ?w nes"
    by (simp add: tree_compare_def add_mono)
  also have "\<dots> < instruction_weight (CompareTree p (om, oes) (nm, nes) :: 'c Instruction)"
    by (simp add: algebra_simps)
  finally show ?thesis .
qed

text \<open>The changes that are yielded, and the error that ends the run.\<close>

function run_to_completion :: "'c contents_impl \<Rightarrow> 'c Instruction list \<Rightarrow> 'c Change list \<times> change_error option" where
  "run_to_completion C [] = ([], None)"
| "run_to_completion C (Ins_Change c # stack) = (case run_to_completion C stack of (cs, e) \<Rightarrow> (c # cs, e))"
| "run_to_completion C (CompareTree prefix old new # stack) = run_to_completion C (rev (tree_compare prefix old new) @ stack)"
| "run_to_completion C (RemoveTree prefix dir # stack) = run_to_completion C (rev (tree_remove prefix dir) @ stack)"
| "run_to_completion C (AddTree prefix dir # stack) = run_to_completion C (rev (tree_add prefix dir) @ stack)"
| "run_to_completion C (CompareFile path old new # stack) =
     run_to_completion C (rev (changes_at path (rev (file_compare C old new))) @ stack)"
| "run_to_completion C (NewFile path file # stack) =
     (case file_add C path file of
        Inl e \<Rightarrow> ([], Some e)
      | Inr ops \<Rightarrow> run_to_completion C (rev (changes_at path (rev ops)) @ stack))"
  by pat_completeness auto
termination
proof (relation "measures [stack_weight \<circ> snd, length \<circ> snd]")
  fix C :: "'c contents_impl" and p and old new :: dir and st :: "'c Instruction list"
  obtain om oes nm nes where d: "old = (om, oes)" "new = (nm, nes)"
    by (cases old; cases new)
  with tree_compare_weight [of p om oes nm nes, where 'c = 'c]
  show "((C, rev (tree_compare p old new) @ st), C, CompareTree p old new # st) \<in> measures [stack_weight \<circ> snd, length \<circ> snd]"
    by (simp del: instruction_weight.simps)
next
  fix C :: "'c contents_impl" and p and d :: dir and st :: "'c Instruction list"
  obtain m es where "d = (m, es)"
    by (cases d)
  then show "((C, rev (tree_remove p d) @ st), C, RemoveTree p d # st) \<in> measures [stack_weight \<circ> snd, length \<circ> snd]"
    "((C, rev (tree_add p d) @ st), C, AddTree p d # st) \<in> measures [stack_weight \<circ> snd, length \<circ> snd]"
    using entries_weight [of p es, where 'c = 'c] by (simp_all add: tree_remove_def tree_add_def less_Suc_eq_le)
qed auto

declare run_to_completion.simps(3-7) [simp del]

section \<open>\<open>iter.rs\<close>\<close>

text \<open>What the iterator gives: the changes, and at the end the error.\<close>

definition with_initial_instruction :: "'c contents_impl \<Rightarrow> 'c Instruction \<Rightarrow> (change_error + 'c Change) list" where
  "with_initial_instruction C instruction =
     (case run_to_completion C [instruction] of (cs, e) \<Rightarrow> map Inr cs @ (case e of Some err \<Rightarrow> [Inl err] | None \<Rightarrow> []))"

definition Iter_diff :: "'c contents_impl \<Rightarrow> dir \<Rightarrow> dir \<Rightarrow> (change_error + 'c Change) list" where
  "Iter_diff C old new = with_initial_instruction C (CompareTree [] old new)"

definition Iter_from_empty :: "'c contents_impl \<Rightarrow> dir \<Rightarrow> (change_error + 'c Change) list" where
  "Iter_from_empty C new = with_initial_instruction C (AddTree [] new)"

end
