(* ===== verification/Oci_Layer.thy ===== *)
theory Oci_Layer
  imports Change_Stream "HOL-Library.List_Lexorder" "HOL-Library.Product_Lexorder"
begin

text \<open>
  \<open>antlir2/antlir2_packager/make_oci_layer/src/main.rs\<close>: the layer of an OCI image as a tar archive of the changes from a parent to a child
  tree, with the removed paths as whiteout files.

  The tar crate is not part of the sources: a header is the record of the fields that have been set, and the archive is the list of the
  calls of its builder. The ordered map of the source is a sorted list of pairs.
\<close>

section \<open>Entries\<close>

datatype tar_type = TarRegular | TarDirectory | TarFifo | TarBlock | TarChar | TarLink | TarSymlink

record tar_header =
  th_mode :: "u32 option"
  th_uid :: "u64 option"
  th_gid :: "u64 option"
  th_type :: "tar_type option"
  th_device :: "u64 option"
  th_mtime :: "u64 option"

definition new_ustar :: tar_header where
  "new_ustar = \<lparr>th_mode = None, th_uid = None, th_gid = None, th_type = None, th_device = None, th_mtime = None\<rparr>"

datatype oci_contents = OciUnset | OciLink bytes | OciFile open_file | OciWhiteout

record oci_entry =
  oe_header :: tar_header
  oe_contents :: oci_contents
  oe_extensions :: "(bytes \<times> bytes) list"

definition oci_default :: oci_entry where
  "oci_default = \<lparr>oe_header = new_ustar, oe_contents = OciUnset, oe_extensions = []\<rparr>"

datatype oci_error = OciStream change_error | OciXattrName bytes | OciRootRemoved | OciNotFound fpath | OciFileType fpath

definition obind :: "oci_error + 'a \<Rightarrow> ('a \<Rightarrow> oci_error + 'b) \<Rightarrow> oci_error + 'b" where
  "obind r f = (case r of Inl e \<Rightarrow> Inl e | Inr x \<Rightarrow> f x)"

type_synonym oci_entries = "(fpath \<times> oci_entry) list"

text \<open>\<open>entries.entry(path).or_default()\<close>, changed in place.\<close>

fun upsert :: "fpath \<Rightarrow> (oci_entry \<Rightarrow> oci_entry) \<Rightarrow> oci_entries \<Rightarrow> oci_entries" where
  "upsert p f [] = [(p, f oci_default)]"
| "upsert p f ((q, e) # es) =
     (if p = q then (q, f e) # es else if p < q then (p, f oci_default) # (q, e) # es else (q, e) # upsert p f es)"

section \<open>Changes\<close>

definition SCHILY_XATTR :: bytes where
  "SCHILY_XATTR = [0x53, 0x43, 0x48, 0x49, 0x4C, 0x59, 0x2E, 0x78, 0x61, 0x74, 0x74, 0x72, 0x2E]"

definition WHITEOUT :: bytes where
  "WHITEOUT = [0x2E, 0x77, 0x68, 0x2E]"

definition whiteout_path :: "fpath \<Rightarrow> oci_error + fpath" where
  "whiteout_path path = (if path = [] then Inl OciRootRemoved else Inr (butlast path @ [WHITEOUT @ last path]))"

definition set_header :: "(tar_header \<Rightarrow> tar_header) \<Rightarrow> oci_entry \<Rightarrow> oci_entry" where
  "set_header f e = e\<lparr>oe_header := f (oe_header e)\<rparr>"

definition link_entry :: "tar_type \<Rightarrow> bytes \<Rightarrow> oci_entry \<Rightarrow> oci_entry" where
  "link_entry t target e = (set_header (\<lambda>h. h\<lparr>th_type := Some t\<rparr>) e)\<lparr>oe_contents := OciLink target\<rparr>"

definition made :: "u32 \<Rightarrow> tar_type \<Rightarrow> oci_entry \<Rightarrow> oci_entry" where
  "made mode t = set_header (\<lambda>h. h\<lparr>th_mode := Some mode, th_type := Some t\<rparr>)"

fun oci_change :: "oci_entries \<Rightarrow> open_file Change \<Rightarrow> oci_error + oci_entries" where
  "oci_change entries (Change path operation) =
     (case operation of
        Op_Create mode \<Rightarrow> Inr (upsert path (made mode TarRegular) entries)
      | Op_Mkdir mode \<Rightarrow> Inr (upsert path (made mode TarDirectory) entries)
      | Op_Mkfifo mode \<Rightarrow> Inr (upsert path (made mode TarFifo) entries)
      | Op_Mknod rdev mode \<Rightarrow>
          Inr (upsert path (set_header (\<lambda>h. h\<lparr>th_mode := Some mode,
            th_type := Some (if mode AND 0x6000 = 0x6000 then TarBlock else TarChar), th_device := Some rdev\<rparr>)) entries)
      | Op_Chmod mode \<Rightarrow> Inr (upsert path (set_header (\<lambda>h. h\<lparr>th_mode := Some mode\<rparr>)) entries)
      | Op_Chown uid gid \<Rightarrow>
          Inr (upsert path (set_header (\<lambda>h. h\<lparr>th_uid := Some (ucast uid), th_gid := Some (ucast gid)\<rparr>)) entries)
      | Op_SetTimes atime mtime \<Rightarrow> Inr entries
      | Op_HardLink target \<Rightarrow> Inr (upsert path (link_entry TarLink target) entries)
      | Op_Symlink target \<Rightarrow> Inr (upsert path (link_entry TarSymlink target) entries)
      | Op_Rename to \<Rightarrow> Inr (upsert path (\<lambda>e. e) entries)
      | Op_Contents contents \<Rightarrow> Inr (upsert path (\<lambda>e. e\<lparr>oe_contents := OciFile contents\<rparr>) entries)
      | Op_RemoveXattr name \<Rightarrow> Inr (upsert path (\<lambda>e. e) entries)
      | Op_SetXattr name value \<Rightarrow>
          if utf8_valid name
          then Inr (upsert path (\<lambda>e. e\<lparr>oe_extensions := oe_extensions e @ [(SCHILY_XATTR @ name, value)]\<rparr>) entries)
          else Inl (OciXattrName name)
      | Op_Unlink \<Rightarrow>
          obind (whiteout_path path) (\<lambda>wh_path. Inr (upsert wh_path (\<lambda>e. e\<lparr>oe_contents := OciWhiteout\<rparr>) entries))
      | Op_Rmdir \<Rightarrow>
          obind (whiteout_path path) (\<lambda>wh_path. Inr (upsert wh_path (\<lambda>e. e\<lparr>oe_contents := OciWhiteout\<rparr>) entries)))"

fun oci_changes :: "oci_entries \<Rightarrow> (change_error + open_file Change) list \<Rightarrow> oci_error + oci_entries" where
  "oci_changes entries [] = Inr entries"
| "oci_changes entries (Inl e # stream) = Inl (OciStream e)"
| "oci_changes entries (Inr change # stream) = obind (oci_change entries change) (\<lambda>entries. oci_changes entries stream)"

section \<open>The archive\<close>

datatype tar_call =
    Append_pax "(bytes \<times> bytes) list"
  | Append_link tar_header fpath bytes
  | Append_file fpath open_file
  | Append_data tar_header fpath

fun node_at :: "tree_node \<Rightarrow> fpath \<Rightarrow> tree_node option" where
  "node_at t [] = Some t"
| "node_at (TDir m es) (n # p) = (case map_of es n of Some t \<Rightarrow> node_at t p | None \<Rightarrow> None)"
| "node_at _ (n # p) = None"

definition write_contents_of :: "tree_node \<Rightarrow> fpath \<Rightarrow> oci_entry \<Rightarrow> oci_error + tar_call" where
  "write_contents_of child path entry =
     (let header = (oe_header entry)\<lparr>th_mtime := Some 1075852800\<rparr>
      in case oe_contents entry of
           OciLink target \<Rightarrow> Inr (Append_link header path target)
         | OciFile f \<Rightarrow> Inr (Append_file path f)
         | OciWhiteout \<Rightarrow> Inr (Append_data header path)
         | OciUnset \<Rightarrow>
             (case node_at child path of
                None \<Rightarrow> Inl (OciNotFound path)
              | Some (TFile _ bs) \<Rightarrow> Inr (Append_file path \<lparr>of_data = bs, of_pos = 0\<rparr>)
              | Some (TDir _ _) \<Rightarrow> Inr (Append_data (header\<lparr>th_type := Some TarDirectory\<rparr>) path)
              | Some (TSymlink _ target) \<Rightarrow> Inr (Append_link (header\<lparr>th_type := Some TarSymlink\<rparr>) path target)
              | Some (TSpecial _ _) \<Rightarrow> Inl (OciFileType path)))"

fun write_entries :: "tree_node \<Rightarrow> oci_entries \<Rightarrow> oci_error + tar_call list" where
  "write_entries child [] = Inr []"
| "write_entries child ((path, entry) # entries) =
     (if path = [] then write_entries child entries
      else obind (write_contents_of child path entry) (\<lambda>call.
           obind (write_entries child entries) (\<lambda>calls.
           Inr (Append_pax (sort (oe_extensions entry)) # call # calls))))"

text \<open>\<open>ahead\<close> is what the temporary readers of the comparison read ahead.\<close>

definition make_oci_layer :: "nat \<Rightarrow> dir option \<Rightarrow> dir \<Rightarrow> oci_error + tar_call list" where
  "make_oci_layer ahead parent child =
     (let stream = (case parent of
            Some p \<Rightarrow> Iter_diff (File_contents ahead) p child
          | None \<Rightarrow> Iter_from_empty (File_contents ahead) child)
      in obind (oci_changes [] stream) (write_entries (TDir (fst child) (snd child))))"

end
