(* ===== verification/Change_Apply.thy ===== *)
theory Change_Apply
  imports Change_Stream
begin

text \<open>
  What the changes do: a file system of paths on which every change is the system call that it is named after, and the calculus of
  effects at a path with which the streams are verified. Times are left out: they change with every entry of a directory.
\<close>

section \<open>File systems\<close>

datatype fkind = KDir | KFile bytes | KLink bytes | KSpecial file_type u64

record fnode =
  fn_kind :: fkind
  fn_mode :: u32
  fn_uid :: u32
  fn_gid :: u32
  fn_xattrs :: "bytes \<rightharpoonup> bytes"

type_synonym fsys = "fpath \<rightharpoonup> fnode"

definition fresh_node :: "fkind \<Rightarrow> u32 \<Rightarrow> fnode" where
  "fresh_node k m = \<lparr>fn_kind = k, fn_mode = m, fn_uid = 0, fn_gid = 0, fn_xattrs = Map.empty\<rparr>"

definition parent_ok :: "fsys \<Rightarrow> fpath \<Rightarrow> bool" where
  "parent_ok fs p \<longleftrightarrow> p = [] \<or> (\<exists>d. fs (butlast p) = Some d \<and> fn_kind d = KDir)"

definition make_at :: "fsys \<Rightarrow> fpath \<Rightarrow> fnode \<Rightarrow> fsys option" where
  "make_at fs p n = (if fs p = None \<and> parent_ok fs p then Some (fs(p \<mapsto> n)) else None)"

definition modify_at :: "fsys \<Rightarrow> fpath \<Rightarrow> (fnode \<Rightarrow> fnode option) \<Rightarrow> fsys option" where
  "modify_at fs p f = Option.bind (fs p) (\<lambda>n. map_option (\<lambda>n'. fs(p \<mapsto> n')) (f n))"

text \<open>Operations that the streams do not contain are not given a meaning.\<close>

fun apply_op :: "'c contents_impl \<Rightarrow> fsys \<Rightarrow> fpath \<Rightarrow> 'c Operation \<Rightarrow> fsys option" where
  "apply_op C fs p (Op_Chmod m) = modify_at fs p (\<lambda>n. Some (n\<lparr>fn_mode := m\<rparr>))"
| "apply_op C fs p (Op_Chown u g) = modify_at fs p (\<lambda>n. Some (n\<lparr>fn_uid := u, fn_gid := g\<rparr>))"
| "apply_op C fs p (Op_Contents c) =
     modify_at fs p (\<lambda>n. case fn_kind n of KFile _ \<Rightarrow> Some (n\<lparr>fn_kind := KFile (ci_read C c)\<rparr>) | _ \<Rightarrow> None)"
| "apply_op C fs p (Op_Create m) = make_at fs p (fresh_node (KFile []) m)"
| "apply_op C fs p (Op_Symlink t) = make_at fs p (fresh_node (KLink t) 0x1FF)"
| "apply_op C fs p (Op_Mkdir m) = make_at fs p (fresh_node KDir m)"
| "apply_op C fs p Op_Rmdir =
     (case fs p of
        Some n \<Rightarrow> if fn_kind n = KDir \<and> (\<forall>q. q \<noteq> [] \<longrightarrow> fs (p @ q) = None) then Some (fs(p := None)) else None
      | None \<Rightarrow> None)"
| "apply_op C fs p Op_Unlink = (case fs p of Some n \<Rightarrow> if fn_kind n \<noteq> KDir then Some (fs(p := None)) else None | None \<Rightarrow> None)"
| "apply_op C fs p (Op_SetTimes a m) = modify_at fs p Some"
| "apply_op C fs p (Op_SetXattr name v) = modify_at fs p (\<lambda>n. Some (n\<lparr>fn_xattrs := (fn_xattrs n)(name \<mapsto> v)\<rparr>))"
| "apply_op C fs p (Op_RemoveXattr name) =
     modify_at fs p (\<lambda>n. if fn_xattrs n name = None then None else Some (n\<lparr>fn_xattrs := (fn_xattrs n)(name := None)\<rparr>))"
| "apply_op C fs p _ = None"

fun apply_changes :: "'c contents_impl \<Rightarrow> fsys \<Rightarrow> 'c Change list \<Rightarrow> fsys option" where
  "apply_changes C fs [] = Some fs"
| "apply_changes C fs (c # cs) = Option.bind (apply_op C fs (chg_path c) (chg_operation c)) (\<lambda>fs. apply_changes C fs cs)"

lemma apply_changes_append: "apply_changes C fs (cs @ ds) = Option.bind (apply_changes C fs cs) (\<lambda>fs. apply_changes C fs ds)"
  by (induction cs arbitrary: fs) (simp_all add: bind_assoc)

section \<open>Trees as file systems\<close>

text \<open>A node with what is below it, by the first name.\<close>

definition sub :: "fnode \<Rightarrow> (bytes \<Rightarrow> fsys) \<Rightarrow> fsys" where
  "sub d kids r = (case r of [] \<Rightarrow> Some d | n # r' \<Rightarrow> kids n r')"

lemma sub_simps [simp]: "sub d kids [] = Some d" "sub d kids (n # r) = kids n r"
  by (simp_all add: sub_def)

definition meta_node :: "fkind \<Rightarrow> Metadata \<Rightarrow> fnode" where
  "meta_node k m = \<lparr>fn_kind = k, fn_mode = sanitize_mode (md_mode m), fn_uid = md_uid m, fn_gid = md_gid m, fn_xattrs = map_of (md_xattrs m)\<rparr>"

fun node_kind :: "tree_node \<Rightarrow> fkind" where
  "node_kind (TDir m es) = KDir"
| "node_kind (TFile m c) = KFile c"
| "node_kind (TSymlink m t) = KLink t"
| "node_kind (TSpecial m ft) = KSpecial ft (md_rdev m)"

function flat :: "tree_node \<Rightarrow> fsys" where
  "flat (TDir m es) = sub (meta_node KDir m) (\<lambda>n. case map_of es n of Some t \<Rightarrow> flat t | None \<Rightarrow> Map.empty)"
| "flat (TFile m c) = sub (meta_node (KFile c) m) (\<lambda>_. Map.empty)"
| "flat (TSymlink m l) = sub (meta_node (KLink l) m) (\<lambda>_. Map.empty)"
| "flat (TSpecial m ft) = sub (meta_node (KSpecial ft (md_rdev m)) m) (\<lambda>_. Map.empty)"
  by pat_completeness auto
termination
  by (relation "measure node_weight") (auto dest: map_of_weight)

section \<open>Effects at a path\<close>

definition subtree :: "fsys \<Rightarrow> fpath \<Rightarrow> fsys" where
  "subtree fs p r = fs (p @ r)"

definition graft :: "fsys \<Rightarrow> fpath \<Rightarrow> fsys \<Rightarrow> fsys" where
  "graft fs p f q = (if take (length p) q = p then f (drop (length p) q) else fs q)"

lemma graft_simps [simp]:
  "subtree (graft fs p f) p = f" "graft (graft fs p f) p g = graft fs p g" "graft fs [] f = f" "subtree fs [] = fs" "graft fs p f (p @ r) = f r"
  by (auto simp: graft_def subtree_def fun_eq_iff)

lemma graft_self: "graft fs p (subtree fs p) = fs"
  by (auto simp: graft_def subtree_def fun_eq_iff) (metis append_take_drop_id)

lemma graft_subtree: "subtree fs p = f \<Longrightarrow> graft fs p f = fs"
  using graft_self [of fs p] by auto

lemma graft_root: "graft fs p ((subtree fs p)([] := x)) = fs(p := x)"
proof
  fix q
  show "graft fs p ((subtree fs p)([] := x)) q = (fs(p := x)) q"
  proof (cases "take (length p) q = p")
    case True
    then obtain r where "q = p @ r"
      by (metis append_take_drop_id)
    then show ?thesis
      by (simp add: subtree_def)
  qed (auto simp: graft_def)
qed

lemma parent_ok_graft [simp]: "parent_ok (graft fs p f) p = parent_ok fs p"
proof (cases "p = []")
  case False
  then have "length (butlast p) < length p"
    by simp
  then have "take (length p) (butlast p) \<noteq> p"
    by (metis length_take min_less_iff_conj nat_neq_iff)
  then show ?thesis
    by (simp add: parent_ok_def graft_def)
qed (simp add: parent_ok_def)

definition effect :: "'c contents_impl \<Rightarrow> fpath \<Rightarrow> 'c Change list \<Rightarrow> fsys \<Rightarrow> fsys \<Rightarrow> bool" where
  "effect C p cs f g \<longleftrightarrow> (\<forall>fs. subtree fs p = f \<and> parent_ok fs p \<longrightarrow> apply_changes C fs cs = Some (graft fs p g))"

lemma effect_Nil: "effect C p [] f f"
  by (simp add: effect_def graft_subtree)

lemma effect_append:
  assumes "effect C p cs f g" and "effect C p ds g h"
  shows "effect C p (cs @ ds) f h"
  using assms by (simp add: effect_def apply_changes_append)

lemma effect_child:
  assumes "effect C (p @ [n]) cs (kids n) k" and "fn_kind d = KDir"
  shows "effect C p cs (sub d kids) (sub d (kids(n := k)))"
  unfolding effect_def
proof (intro allI impI)
  fix fs
  assume fs: "subtree fs p = sub d kids \<and> parent_ok fs p"
  then have at: "fs (p @ r) = sub d kids r" for r
    by (metis subtree_def)
  have "subtree fs (p @ [n]) = kids n"
    using at [of "n # _"] by (simp add: subtree_def fun_eq_iff)
  moreover have "parent_ok fs (p @ [n])"
    using at [of "[]"] assms(2) by (simp add: parent_ok_def)
  ultimately have "apply_changes C fs cs = Some (graft fs (p @ [n]) k)"
    using assms(1) by (simp add: effect_def)
  moreover have "graft fs (p @ [n]) k q = graft fs p (sub d (kids(n := k))) q" for q
  proof (cases "take (length p) q = p")
    case True
    then obtain r where q: "q = p @ r"
      by (metis append_take_drop_id)
    then show ?thesis
      using at [of r] by (cases r) (simp_all add: graft_def)
  next
    case False
    then have "take (length (p @ [n])) q \<noteq> p @ [n]"
      by (metis append_eq_conv_conj append_take_drop_id append.assoc)
    with False show ?thesis
      by (simp add: graft_def)
  qed
  ultimately show "apply_changes C fs cs = Some (graft fs p (sub d (kids(n := k))))"
    by (simp add: fun_eq_iff)
qed

text \<open>An operation at the path depends only on the node there and what is below it.\<close>

lemma effect_op:
  assumes "apply_op C f [] op = Some g"
  shows "effect C p [Change p op] f g"
  unfolding effect_def
proof (intro allI impI)
  fix fs
  assume fs: "subtree fs p = f \<and> parent_ok fs p"
  then have at: "fs (p @ r) = f r" and root: "graft fs p (f([] := x)) = fs(p := x)" and parent: "parent_ok fs p" for r x
    using graft_root [of fs p x] by (auto simp: subtree_def)
  have p: "fs p = f []"
    using at [of "[]"] by simp
  have make: "make_at fs p n = Some (graft fs p g)" if "make_at f [] n = Some g" for n
    using that p parent by (auto simp: make_at_def root split: if_splits)
  have modify: "modify_at fs p h = Some (graft fs p g)" if "modify_at f [] h = Some g" for h
    using that p by (auto simp: modify_at_def root bind_eq_Some_conv)
  have "apply_op C fs p op = Some (graft fs p g)"
    using assms by (cases op) (auto intro!: make modify simp: p at root split: option.splits if_splits)
  then show "apply_changes C fs [Change p op] = Some (graft fs p g)"
    by simp
qed

fun apply_ops :: "'c contents_impl \<Rightarrow> fsys \<Rightarrow> 'c Operation list \<Rightarrow> fsys option" where
  "apply_ops C f [] = Some f"
| "apply_ops C f (op # ops) = Option.bind (apply_op C f [] op) (\<lambda>f. apply_ops C f ops)"

lemma apply_ops_append: "apply_ops C f (xs @ ys) = Option.bind (apply_ops C f xs) (\<lambda>f. apply_ops C f ys)"
  by (induction xs arbitrary: f) (simp_all add: bind_assoc)

lemma effect_ops: "apply_ops C f ops = Some g \<Longrightarrow> effect C p (map (Change p) ops) f g"
proof (induction ops arbitrary: f)
  case (Cons op ops)
  then obtain h where "apply_op C f [] op = Some h" "apply_ops C h ops = Some g"
    by (auto simp: bind_eq_Some_conv)
  with Cons.IH effect_append [OF effect_op] show ?case
    by fastforce
qed (simp add: effect_Nil)

end
