(* ===== verification/Change_Diff.thy ===== *)
theory Change_Diff
  imports Change_Apply
begin

text \<open>
  What the stack machine does: adding a tree builds it, removing a tree removes it, and comparing two trees turns the one into the other. The
  type of the contents is seen through the contract of its trait.
\<close>

section \<open>Runs\<close>

definition and_then :: "'c Change list \<times> change_error option \<Rightarrow> 'c Change list \<times> change_error option \<Rightarrow> 'c Change list \<times> change_error option" where
  "and_then r s = (if snd r = None then (fst r @ fst s, snd s) else r)"

lemma run_append: "run_to_completion C (xs @ ys) = and_then (run_to_completion C xs) (run_to_completion C ys)"
proof (induction C xs rule: run_to_completion.induct)
  case (7 C p t st)
  then show ?case
    by (simp add: run_to_completion.simps(7) and_then_def split: sum.split)
qed (simp_all add: and_then_def run_to_completion.simps(3-6) split: prod.split)

lemma run_changes: "run_to_completion C (changes_at p ops) = (map (Change p) ops, None)"
  by (induction ops) (simp_all add: changes_at_def)

lemma rev_changes_at: "rev (changes_at p ops) = changes_at p (rev ops)"
  by (simp add: changes_at_def rev_map)

definition yields :: "'c contents_impl \<Rightarrow> 'c Instruction list \<Rightarrow> fpath \<Rightarrow> fsys \<Rightarrow> fsys \<Rightarrow> bool" where
  "yields C is p f g \<longleftrightarrow> (\<exists>cs. run_to_completion C is = (cs, None) \<and> effect C p cs f g)"

lemma yields_Nil: "yields C [] p f f"
  by (simp add: yields_def effect_Nil)

lemma yields_append: "yields C is p f g \<Longrightarrow> yields C js p g h \<Longrightarrow> yields C (is @ js) p f h"
  by (auto simp: yields_def run_append and_then_def intro: effect_append)

lemma yields_child: "yields C is (p @ [n]) (kids n) k \<Longrightarrow> fn_kind d = KDir \<Longrightarrow> yields C is p (sub d kids) (sub d (kids(n := k)))"
  by (auto simp: yields_def intro: effect_child)

lemma yields_ops: "apply_ops C f ops = Some g \<Longrightarrow> yields C (changes_at p ops) p f g"
  by (simp add: yields_def run_changes effect_ops)

lemma yields_tree:
  "yields C (rev (tree_compare p old new)) p f g \<Longrightarrow> yields C [CompareTree p old new] p f g"
  "yields C (rev (tree_remove p d)) p f g \<Longrightarrow> yields C [RemoveTree p d] p f g"
  "yields C (rev (tree_add p d)) p f g \<Longrightarrow> yields C [AddTree p d] p f g"
  by (simp_all add: yields_def run_to_completion.simps(3-5))

text \<open>The entries of a directory, each with its own instructions.\<close>

lemma yields_entries:
  assumes "distinct (map fst es)" and "fn_kind d = KDir" and "\<forall>(n, t) \<in> set es. yields C (F n t) (p @ [n]) (kids n) (K n t)"
  shows "yields C (concat (map (\<lambda>(n, t). F n t) es)) p (sub d kids)
    (sub d (\<lambda>n. case map_of es n of Some t \<Rightarrow> K n t | None \<Rightarrow> kids n))"
  using assms(1,3)
proof (induction es arbitrary: kids)
  case Nil
  then show ?case
    by (simp add: yields_Nil)
next
  case (Cons e es)
  obtain n t where e: "e = (n, t)"
    by (cases e)
  have "yields C (F n t) p (sub d kids) (sub d (kids(n := K n t)))"
    using Cons.prems(2) assms(2) e by (intro yields_child) simp_all
  moreover have "yields C (concat (map (\<lambda>(n, t). F n t) es)) p (sub d (kids(n := K n t)))
      (sub d (\<lambda>m. case map_of es m of Some t \<Rightarrow> K m t | None \<Rightarrow> (kids(n := K n t)) m))"
    by (rule Cons.IH) (use Cons.prems e in \<open>force+\<close>)
  moreover have "(\<lambda>m. case map_of es m of Some t \<Rightarrow> K m t | None \<Rightarrow> (kids(n := K n t)) m) =
      (\<lambda>m. case map_of (e # es) m of Some t \<Rightarrow> K m t | None \<Rightarrow> kids m)"
  proof -
    have "map_of es n = None"
      using Cons.prems(1) e by (simp add: map_of_eq_None_iff)
    then show ?thesis
      by (auto simp: e fun_eq_iff split: option.split)
  qed
  ultimately show ?case
    using e yields_append by fastforce
qed

lemma map_of_reversed: "distinct (map fst es) \<Longrightarrow> map_of (rev es) = map_of es"
  by (simp add: map_of_inject_set rev_map [symmetric])

lemma yields_entries_rev:
  assumes "distinct (map fst es)" and "fn_kind d = KDir" and "\<forall>(n, t) \<in> set es. yields C (rev (F n t)) (p @ [n]) (kids n) (K n t)"
  shows "yields C (rev (concat (map (\<lambda>(n, t). F n t) es))) p (sub d kids)
    (sub d (\<lambda>n. case map_of es n of Some t \<Rightarrow> K n t | None \<Rightarrow> kids n))"
  using yields_entries [of "rev es" d C "\<lambda>n t. rev (F n t)" p kids K] assms
  by (simp add: rev_concat rev_map [symmetric] map_of_reversed comp_def split_def)

lemma yields_single_entries:
  assumes "distinct (map fst es)" and "fn_kind d = KDir" and "\<forall>(n, t) \<in> set es. yields C [F n t] (p @ [n]) (kids n) (K n t)"
  shows "yields C (rev (map (\<lambda>(n, t). F n t) es)) p (sub d kids)
    (sub d (\<lambda>n. case map_of es n of Some t \<Rightarrow> K n t | None \<Rightarrow> kids n))"
proof -
  have "concat (map (\<lambda>(n, t). [F n t]) es) = map (\<lambda>(n, t). F n t) es"
    by (induction es) auto
  with yields_entries_rev [of es d C "\<lambda>n t. [F n t]" p kids K] assms show ?thesis
    by simp
qed

section \<open>Operations on a node\<close>

lemma modify_sub: "modify_at (sub d kids) [] f = map_option (\<lambda>d. sub d kids) (f d)"
  by (cases "f d") (auto simp: modify_at_def fun_eq_iff sub_def split: list.split)

lemma make_sub: "make_at Map.empty [] n = Some (sub n (\<lambda>_. Map.empty))"
  by (auto simp: make_at_def parent_ok_def fun_eq_iff sub_def split: list.split)

lemma remove_ops:
  assumes "distinct names" and "set names \<subseteq> dom (fn_xattrs d)"
  shows "apply_ops C (sub d kids) (map Op_RemoveXattr names) = Some (sub (d\<lparr>fn_xattrs := fn_xattrs d |` (- set names)\<rparr>) kids)"
  using assms
proof (induction names arbitrary: d)
  case (Cons name names)
  let ?d = "d\<lparr>fn_xattrs := (fn_xattrs d)(name := None)\<rparr>"
  have "apply_ops C (sub ?d kids) (map Op_RemoveXattr names) = Some (sub (?d\<lparr>fn_xattrs := fn_xattrs ?d |` (- set names)\<rparr>) kids)"
    by (rule Cons.IH) (use Cons.prems in auto)
  moreover have "(fn_xattrs d)(name := None) |` (- set names) = fn_xattrs d |` (- insert name (set names))"
    by (simp add: restrict_map_def fun_eq_iff)
  moreover have "fn_xattrs d name \<noteq> None"
    using Cons.prems(2) by auto
  ultimately show ?case
    by (simp add: modify_sub del: restrict_fun_upd)
qed (simp add: restrict_map_def)

lemma set_ops: "apply_ops C (sub d kids) (map (\<lambda>(n, v). Op_SetXattr n v) xs) = Some (sub (d\<lparr>fn_xattrs := fn_xattrs d ++ map_of (rev xs)\<rparr>) kids)"
proof (induction xs arbitrary: d)
  case (Cons x xs)
  obtain n v where x: "x = (n, v)"
    by (cases x)
  have "(fn_xattrs d)(n \<mapsto> v) ++ map_of (rev xs) = fn_xattrs d ++ map_of (rev (x # xs))"
    by (simp add: x map_add_assoc [symmetric])
  with Cons.IH [of "d\<lparr>fn_xattrs := (fn_xattrs d)(n \<mapsto> v)\<rparr>"] show ?case
    by (simp add: x modify_sub fun_upd_def)
qed simp

lemma xattr_update:
  fixes old new :: "(bytes \<times> bytes) list"
  defines "gone \<equiv> filter (\<lambda>old_name. old_name \<notin> fst ` set new) (map fst old)"
    and "changed \<equiv> filter (\<lambda>(name, value). case map_of old name of Some old_value \<Rightarrow> old_value \<noteq> value | None \<Rightarrow> True) new"
  assumes "distinct (map fst new)"
  shows "(map_of old |` (- set gone)) ++ map_of changed = map_of new" and "(map_of old ++ map_of changed) |` (- set gone) = map_of new"
    and "distinct (map fst changed)"
proof -
  have changed: "map_of changed k = Some v \<longleftrightarrow> map_of new k = Some v \<and> map_of old k \<noteq> Some v" for k v
    using assms(3) by (auto simp: changed_def map_of_eq_Some_iff distinct_map_filter split: option.splits)
  have gone: "k \<in> set gone \<longleftrightarrow> map_of old k \<noteq> None \<and> map_of new k = None" for k
    by (auto simp: gone_def map_of_eq_None_iff)
  have "((map_of old |` (- set gone)) ++ map_of changed) k = map_of new k \<and> ((map_of old ++ map_of changed) |` (- set gone)) k = map_of new k" for k
  proof (cases "map_of changed k")
    case (Some v)
    with changed [of k v] gone [of k] show ?thesis
      by (simp add: map_add_def restrict_map_def)
  next
    case None
    then have "map_of new k = None \<or> map_of new k = map_of old k"
      using changed [of k "the (map_of new k)"] by (cases "map_of new k") auto
    with None gone [of k] show ?thesis
      by (auto simp: map_add_def restrict_map_def)
  qed
  then show "(map_of old |` (- set gone)) ++ map_of changed = map_of new" "(map_of old ++ map_of changed) |` (- set gone) = map_of new"
    by auto
  show "distinct (map fst changed)"
    using assms(3) by (simp add: changed_def distinct_map_filter)
qed

lemma apply_xattr_ops:
  assumes "distinct (map fst old)" and "distinct (map fst new)" and "fn_xattrs d = map_of old"
  shows "apply_ops C (sub d kids) (xattr_ops (Some old) new) = Some (sub (d\<lparr>fn_xattrs := map_of new\<rparr>) kids)"
    and "apply_ops C (sub d kids) (rev (xattr_ops (Some old) new)) = Some (sub (d\<lparr>fn_xattrs := map_of new\<rparr>) kids)"
proof -
  let ?gone = "filter (\<lambda>old_name. old_name \<notin> fst ` set new) (map fst old)"
  let ?changed = "filter (\<lambda>(name, value). case map_of old name of Some old_value \<Rightarrow> old_value \<noteq> value | None \<Rightarrow> True) new"
  note update = xattr_update [OF assms(2), of old]
  have gone: "distinct ?gone" "set ?gone \<subseteq> dom (map_of old)"
    using assms(1) by (auto simp: dom_map_of_conv_image_fst)
  have "apply_ops C (sub d kids) (map Op_RemoveXattr ?gone) = Some (sub (d\<lparr>fn_xattrs := fn_xattrs d |` (- set ?gone)\<rparr>) kids)"
    using gone assms(3) by (intro remove_ops) simp_all
  then show "apply_ops C (sub d kids) (xattr_ops (Some old) new) = Some (sub (d\<lparr>fn_xattrs := map_of new\<rparr>) kids)"
    using update(1) by (simp add: xattr_ops_def apply_ops_append set_ops map_of_reversed [OF update(3)] assms(3))
  let ?d = "d\<lparr>fn_xattrs := map_of old ++ map_of ?changed\<rparr>"
  have "set (rev ?gone) \<subseteq> dom (fn_xattrs ?d)"
    using gone(2) by (simp add: le_supI2)
  with gone(1) have "apply_ops C (sub ?d kids) (map Op_RemoveXattr (rev ?gone)) =
      Some (sub (?d\<lparr>fn_xattrs := fn_xattrs ?d |` (- set (rev ?gone))\<rparr>) kids)"
    by (intro remove_ops) simp_all
  then have "apply_ops C (sub ?d kids) (map Op_RemoveXattr (rev ?gone)) = Some (sub (d\<lparr>fn_xattrs := map_of new\<rparr>) kids)"
    using update(2) by simp
  then show "apply_ops C (sub d kids) (rev (xattr_ops (Some old) new)) = Some (sub (d\<lparr>fn_xattrs := map_of new\<rparr>) kids)"
    by (simp add: xattr_ops_def apply_ops_append rev_map set_ops assms(3))
qed

lemma apply_new_xattrs:
  assumes "distinct (map fst new)" and "fn_xattrs d = Map.empty"
  shows "apply_ops C (sub d kids) (xattr_ops None new) = Some (sub (d\<lparr>fn_xattrs := map_of new\<rparr>) kids)"
  using apply_xattr_ops(1) [of "[]" new d C kids] assms by (simp add: xattr_ops_def)

lemma apply_maybe:
  "apply_ops C (sub d kids) (maybe_chown old new) =
     Some (sub (if md_uid old \<noteq> md_uid new \<or> md_gid old \<noteq> md_gid new then d\<lparr>fn_uid := md_uid new, fn_gid := md_gid new\<rparr> else d) kids)"
  "apply_ops C (sub d kids) (maybe_chmod old new) =
     Some (sub (if sanitize_mode (md_mode old) \<noteq> sanitize_mode (md_mode new) then d\<lparr>fn_mode := sanitize_mode (md_mode new)\<rparr> else d) kids)"
  "apply_ops C (sub d kids) (maybe_set_times old new) = Some (sub d kids)"
  by (simp_all add: maybe_chown_def maybe_chmod_def maybe_set_times_def modify_sub)

section \<open>The contract of the contents\<close>

text \<open>What the streams need of an implementation of the trait: a consumer reads the file, and two values differ if the files do.\<close>

locale comparable_contents =
  fixes C :: "'c contents_impl"
  assumes read_from_file: "ci_read C (ci_from_file C b) = b"
    and differs_iff: "fst (ci_differs C (ci_from_file C a) (ci_from_file C b)) \<longleftrightarrow> a \<noteq> b"

text \<open>Comparing must leave the new value as it was, since it is handed on.\<close>

locale faithful_contents = comparable_contents C for C :: "'c contents_impl" +
  assumes read_after_differs: "a \<noteq> b \<Longrightarrow> ci_read C (fst (snd (ci_differs C (ci_from_file C a) (ci_from_file C b)))) = a"

section \<open>Trees that can be added\<close>

text \<open>A directory that is added loses its extended attributes.\<close>

fun added :: "tree_node \<Rightarrow> tree_node" where
  "added (TDir m es) = TDir (m\<lparr>md_xattrs := []\<rparr>) (map (\<lambda>(n, t). (n, added t)) es)"
| "added t = t"

fun addable :: "tree_node \<Rightarrow> bool" where
  "addable (TDir m es) \<longleftrightarrow> distinct (map fst es) \<and> (\<forall>(n, t) \<in> set es. addable t)"
| "addable (TFile m c) \<longleftrightarrow> distinct (map fst (md_xattrs m))"
| "addable (TSymlink m l) \<longleftrightarrow> distinct (map fst (md_xattrs m)) \<and> sanitize_mode (md_mode m) = 0x1FF"
| "addable (TSpecial m ft) \<longleftrightarrow> False"

lemma map_of_added: "map_of (map (\<lambda>(n, t). (n, added t)) es) n = map_option added (map_of es n)"
  by (induction es) auto

lemma flat_added:
  "flat (added (TDir m es)) =
     sub (meta_node KDir (m\<lparr>md_xattrs := []\<rparr>)) (\<lambda>n. case map_of es n of Some t \<Rightarrow> flat (added t) | None \<Rightarrow> Map.empty)"
  by (auto simp: map_of_added fun_eq_iff sub_def split: list.split option.split)

lemma tree_induct [case_names dir regular symlink special]:
  assumes "\<And>m es. (\<And>n t. (n, t) \<in> set es \<Longrightarrow> P t) \<Longrightarrow> P (TDir m es)" and "\<And>m c. P (TFile m c)"
    and "\<And>m l. P (TSymlink m l)" and "\<And>m ft. P (TSpecial m ft)"
  shows "P t"
proof (induction t rule: tree_node.induct)
  case (TDir m es)
  then show ?case
    using assms(1) by (metis snds.intros snd_conv)
qed (use assms in auto)

context comparable_contents
begin

lemma add_file:
  assumes "addable t" and "node_type t \<noteq> FtDir"
  shows "yields C [NewFile p t] p Map.empty (flat t)"
proof -
  obtain ops where ops: "file_add C p t = Inr ops" "apply_ops C Map.empty ops = Some (flat t)"
    using assms by (cases t) (auto simp: file_add_def make_sub modify_sub read_from_file apply_new_xattrs fresh_node_def apply_ops_append
        meta_node_def)
  have "run_to_completion C [NewFile p t] = (map (Change p) ops, None)"
    by (simp add: run_to_completion.simps(7) ops(1) rev_changes_at run_changes)
  with ops(2) show ?thesis
    by (simp add: yields_def effect_ops)
qed

lemma add_tree: "addable t \<Longrightarrow> yields C [new_instruction p t] p Map.empty (flat (added t))"
proof (induction t arbitrary: p rule: tree_induct)
  case (dir m es)
  let ?mkdir = "changes_at p [Op_Mkdir (sanitize_mode (md_mode m))]"
  let ?meta = "changes_at p [Op_Chown (md_uid m) (md_gid m), Op_SetTimes (md_atime m) (md_mtime m)]"
  let ?d = "fresh_node KDir (sanitize_mode (md_mode m))"
  let ?kids = "\<lambda>n. case map_of es n of Some t \<Rightarrow> flat (added t) | None \<Rightarrow> Map.empty"
  have "yields C ?mkdir p Map.empty (sub ?d (\<lambda>_. Map.empty))"
    by (rule yields_ops) (simp add: make_sub)
  moreover have "yields C (rev (map (\<lambda>(n, t). new_instruction (p @ [n]) t) es)) p (sub ?d (\<lambda>_. Map.empty)) (sub ?d ?kids)"
    by (rule yields_single_entries) (use dir in \<open>auto simp: fresh_node_def\<close>)
  moreover have "yields C ?meta p (sub ?d ?kids) (flat (added (TDir m es)))"
    unfolding flat_added by (rule yields_ops) (simp add: modify_sub fresh_node_def meta_node_def)
  ultimately have "yields C (?mkdir @ rev (map (\<lambda>(n, t). new_instruction (p @ [n]) t) es) @ ?meta) p Map.empty
      (flat (added (TDir m es)))"
    by (blast intro: yields_append)
  moreover have "rev (tree_add p (m, es) :: 'c Instruction list) = ?mkdir @ rev (map (\<lambda>(n, t). new_instruction (p @ [n]) t) es) @ ?meta"
    by (simp add: tree_add_def rev_changes_at)
  ultimately show ?case
    using yields_tree(3) [of C p "(m, es)"] by (simp add: new_instruction_def [of p "TDir m es"] del: flat.simps added.simps)
next
  case (regular m c)
  then show ?case
    using add_file [of "TFile m c" p] by (simp add: new_instruction_def)
next
  case (symlink m l)
  then show ?case
    using add_file [of "TSymlink m l" p] by (simp add: new_instruction_def)
qed simp

end

section \<open>Trees that can be removed\<close>

fun removable :: "tree_node \<Rightarrow> bool" where
  "removable (TDir m es) \<longleftrightarrow> distinct (map fst es) \<and> (\<forall>(n, t) \<in> set es. removable t)"
| "removable t \<longleftrightarrow> True"

lemma remove_leaf: "fn_kind d \<noteq> KDir \<Longrightarrow> yields C [Ins_Change (Change p Op_Unlink)] p (sub d (\<lambda>_. Map.empty)) Map.empty"
  using yields_ops [of C "sub d (\<lambda>_. Map.empty)" "[Op_Unlink]" Map.empty p]
  by (simp add: changes_at_def fun_eq_iff sub_def split: list.split)

lemma remove_tree: "removable t \<Longrightarrow> yields C [remove_instruction p t] p (flat t) Map.empty"
proof (induction t arbitrary: p rule: tree_induct)
  case (dir m es)
  let ?d = "meta_node KDir m" and ?kids = "\<lambda>n. case map_of es n of Some t \<Rightarrow> flat t | None \<Rightarrow> Map.empty"
  have "yields C (rev (map (\<lambda>(n, t). remove_instruction (p @ [n]) t) es)) p (sub ?d ?kids)
      (sub ?d (\<lambda>n. case map_of es n of Some t \<Rightarrow> Map.empty | None \<Rightarrow> ?kids n))"
    by (rule yields_single_entries) (use dir in \<open>auto simp: meta_node_def\<close>)
  moreover have "(\<lambda>n. case map_of es n of Some t \<Rightarrow> Map.empty | None \<Rightarrow> ?kids n) = (\<lambda>n. Map.empty)"
    by (auto simp: fun_eq_iff split: option.split)
  moreover have "yields C (changes_at p [Op_Rmdir]) p (sub ?d (\<lambda>n. Map.empty)) Map.empty"
    by (rule yields_ops) (auto simp: meta_node_def sub_def fun_eq_iff split: list.splits)
  ultimately have "yields C (rev (map (\<lambda>(n, t). remove_instruction (p @ [n]) t) es) @ changes_at p [Op_Rmdir]) p (flat (TDir m es)) Map.empty"
    by (simp add: yields_append)
  then show ?case
    using yields_tree(2) [of C p "(m, es)"] by (simp add: remove_instruction_def [of p "TDir m es"] tree_remove_def changes_at_def del: flat.simps)
qed (simp_all add: remove_instruction_def remove_leaf meta_node_def)

section \<open>Trees that can be compared\<close>

text \<open>A tree that is added as it is: no directory has extended attributes.\<close>

definition plain :: "tree_node \<Rightarrow> bool" where
  "plain t \<longleftrightarrow> addable t \<and> added t = t"

text \<open>A symbolic link with a new target is created anew, so it loses its extended attributes and, unless the owner changes too, its owner. A device
  node is not created anew when its number changes.\<close>

function diffable :: "tree_node \<Rightarrow> tree_node \<Rightarrow> bool" where
  "diffable (TDir om oes) (TDir nm nes) \<longleftrightarrow>
     distinct (map fst oes) \<and> distinct (map fst nes) \<and> distinct (map fst (md_xattrs om)) \<and> distinct (map fst (md_xattrs nm)) \<and>
     (\<forall>(n, t) \<in> set oes. removable t) \<and>
     (\<forall>(n, t) \<in> set nes. case map_of oes n of
        None \<Rightarrow> plain t | Some old \<Rightarrow> if node_type old = node_type t then diffable old t else plain t)"
| "diffable (TFile om oc) (TFile nm nc) \<longleftrightarrow> distinct (map fst (md_xattrs om)) \<and> distinct (map fst (md_xattrs nm))"
| "diffable (TSymlink om ol) (TSymlink nm nl) \<longleftrightarrow>
     distinct (map fst (md_xattrs om)) \<and> distinct (map fst (md_xattrs nm)) \<and>
     sanitize_mode (md_mode om) = 0x1FF \<and> sanitize_mode (md_mode nm) = 0x1FF \<and>
     (ol \<noteq> nl \<longrightarrow> md_xattrs om = [] \<and>
        (md_uid om \<noteq> md_uid nm \<or> md_gid om \<noteq> md_gid nm \<or> md_uid nm = 0 \<and> md_gid nm = 0))"
| "diffable (TSpecial om oft) (TSpecial nm nft) \<longleftrightarrow>
     oft = nft \<and> nft \<in> {FtBlock, FtChar, FtFifo, FtSocket} \<and> md_rdev om = md_rdev nm \<and> distinct (map fst (md_xattrs om)) \<and> distinct (map fst (md_xattrs nm))"
| "diffable (TDir om oes) (TFile nm nc) \<longleftrightarrow> False"
| "diffable (TDir om oes) (TSymlink nm nl) \<longleftrightarrow> False"
| "diffable (TDir om oes) (TSpecial nm nft) \<longleftrightarrow> False"
| "diffable (TFile om oc) (TDir nm nes) \<longleftrightarrow> False"
| "diffable (TFile om oc) (TSymlink nm nl) \<longleftrightarrow> False"
| "diffable (TFile om oc) (TSpecial nm nft) \<longleftrightarrow> False"
| "diffable (TSymlink om ol) (TDir nm nes) \<longleftrightarrow> False"
| "diffable (TSymlink om ol) (TFile nm nc) \<longleftrightarrow> False"
| "diffable (TSymlink om ol) (TSpecial nm nft) \<longleftrightarrow> False"
| "diffable (TSpecial om oft) (TDir nm nes) \<longleftrightarrow> False"
| "diffable (TSpecial om oft) (TFile nm nc) \<longleftrightarrow> False"
| "diffable (TSpecial om oft) (TSymlink nm nl) \<longleftrightarrow> False"
  by pat_completeness auto
termination
proof (relation "measure (\<lambda>(old, new). node_weight new)")
  fix om nm :: Metadata and oes nes :: "(bytes \<times> tree_node) list" and e n t and old
  assume "e \<in> set nes" and "(n, t) = e"
  then have "node_weight t < sum_list (map (\<lambda>(n, t). Suc (node_weight t)) nes)"
    using member_le_sum_list [of "Suc (node_weight t)" "map (\<lambda>(n, t). Suc (node_weight t)) nes"] by force
  then show "((old, t), TDir om oes, TDir nm nes) \<in> measure (\<lambda>(old, new). node_weight new)"
    by simp
qed simp

definition compare_instruction :: "fpath \<Rightarrow> tree_node \<Rightarrow> tree_node \<Rightarrow> 'c Instruction" where
  "compare_instruction p old new =
     (case (old, new) of (TDir om oes, TDir nm nes) \<Rightarrow> CompareTree p (om, oes) (nm, nes) | _ \<Rightarrow> CompareFile p old new)"

lemma maybe_rev:
  "rev (maybe_chown o' n) = maybe_chown o' n" "rev (maybe_chmod o' n) = maybe_chmod o' n" "rev (maybe_set_times o' n) = maybe_set_times o' n"
  by (simp_all add: maybe_chown_def maybe_chmod_def maybe_set_times_def)

lemma map_of_filter_key: "map_of (filter (\<lambda>(n, t). Q n) es) n = (if Q n then map_of es n else None)"
  by (induction es) auto

lemma metadata_ops:
  assumes "distinct (map fst (md_xattrs om))" and "distinct (map fst (md_xattrs nm))"
  shows "apply_ops C (sub (meta_node k om) kids) (xattr_ops (Some (md_xattrs om)) (md_xattrs nm) @ maybe_chmod om nm @ maybe_chown om nm @
      maybe_set_times om nm) = Some (sub (meta_node k nm) kids)"
    and "apply_ops C (sub (meta_node k om) kids) (rev (maybe_chown om nm @ maybe_chmod om nm @ maybe_set_times om nm @
      xattr_ops (Some (md_xattrs om)) (md_xattrs nm))) = Some (sub (meta_node k nm) kids)"
  using assms by (simp_all add: apply_ops_append apply_xattr_ops apply_maybe maybe_rev meta_node_def)

context faithful_contents
begin

lemma contents_op:
  "fn_kind d = KFile b \<Longrightarrow> apply_ops C (sub d kids)
     (case ci_differs C (ci_from_file C a) (ci_from_file C b) of (differs, new_contents, _) \<Rightarrow> if differs then [Op_Contents new_contents] else []) =
     Some (sub (d\<lparr>fn_kind := KFile a\<rparr>) kids)"
  using differs_iff [of a b] read_after_differs [of a b] by (cases d) (auto simp: modify_sub split: prod.split)

lemma compare_file:
  assumes "diffable old new" and "node_type new \<noteq> FtDir"
  shows "yields C [CompareFile p old new] p (flat old) (flat new)"
proof -
  have "apply_ops C (flat old) (file_compare C old new) = Some (flat new)"
  proof (cases new)
    case (TFile nm nc)
    with assms(1) obtain om oc where old: "old = TFile om oc" by (cases old) auto
    have "(meta_node (KFile oc) om)\<lparr>fn_kind := KFile nc\<rparr> = meta_node (KFile nc) om" "fn_kind (meta_node (KFile oc) om) = KFile oc"
      by (simp_all add: meta_node_def)
    then have contents: "apply_ops C (flat old) (case ci_differs C (ci_from_file C nc) (ci_from_file C oc) of
        (differs, new_contents, _) \<Rightarrow> if differs then [Op_Contents new_contents] else []) = Some (sub (meta_node (KFile nc) om) (\<lambda>_. Map.empty))"
      using contents_op [of "meta_node (KFile oc) om" oc "\<lambda>_. Map.empty" nc] by (simp add: old)
    show ?thesis
      unfolding file_compare_def apply_ops_append [of C "flat old"]
      using TFile old assms(1) contents metadata_ops(1) [of om nm C "KFile nc" "\<lambda>_. Map.empty"] by simp
  next
    case (TSymlink nm nl)
    with assms(1) obtain om ol where old: "old = TSymlink om ol" by (cases old) auto
    show ?thesis
    proof (cases "ol = nl")
      case True
      with TSymlink old assms(1) show ?thesis
        by (simp add: file_compare_def metadata_ops)
    next
      case False
      have "(sub (meta_node (KLink ol) om) (\<lambda>_. Map.empty))([] := None) = Map.empty"
        by (auto simp: fun_eq_iff sub_def split: list.split)
      with False TSymlink old assms(1) show ?thesis
        by (auto simp: file_compare_def make_sub apply_ops_append apply_xattr_ops apply_maybe meta_node_def fresh_node_def)
    qed
  next
    case (TSpecial nm nft)
    with assms(1) obtain om where "old = TSpecial om nft" by (cases old) auto
    with TSpecial assms(1) show ?thesis
      by (simp add: file_compare_def metadata_ops)
  qed (use assms(2) in simp)
  moreover have "run_to_completion C [CompareFile p old new] = (map (Change p) (file_compare C old new), None)"
    by (simp add: run_to_completion.simps(6) rev_changes_at run_changes)
  ultimately show ?thesis
    by (simp add: yields_def effect_ops)
qed

lemma compare_entry_yields:
  assumes "case map_of oes n of None \<Rightarrow> plain t | Some old \<Rightarrow> if node_type old = node_type t then diffable old t else plain t"
    and "\<And>old. map_of oes n = Some old \<Longrightarrow> removable old"
    and "\<And>old. diffable old t \<Longrightarrow> yields C [compare_instruction (p @ [n]) old t] (p @ [n]) (flat old) (flat t)"
  shows "yields C (rev (compare_entry p oes (n, t))) (p @ [n]) (case map_of oes n of Some old \<Rightarrow> flat old | None \<Rightarrow> Map.empty) (flat t)"
proof (cases "map_of oes n")
  case None
  with assms(1) add_tree [of t "p @ [n]"] show ?thesis
    by (simp add: compare_entry_def plain_def)
next
  case (Some old)
  show ?thesis
  proof (cases "node_type old = node_type t")
    case True
    with Some assms(1) have "diffable old t" by simp
    then have "rev (compare_entry p oes (n, t)) = [compare_instruction (p @ [n]) old t :: 'c Instruction]"
      using Some True by (cases old; cases t) (simp_all add: compare_entry_def compare_instruction_def)
    with assms(3) [OF \<open>diffable old t\<close>] Some show ?thesis
      by simp
  next
    case False
    with Some assms(1) add_tree [of t "p @ [n]"] have "yields C [new_instruction (p @ [n]) t] (p @ [n]) Map.empty (flat t)"
      by (simp add: plain_def)
    from yields_append [OF remove_tree [OF assms(2) [OF Some]] this] Some False show ?thesis
      by (simp add: compare_entry_def Let_def)
  qed
qed

lemma compare_tree: "diffable old new \<Longrightarrow> yields C [compare_instruction p old new] p (flat old) (flat new)"
proof (induction new arbitrary: old p rule: tree_induct)
  case (dir nm nes)
  then obtain om oes where old: "old = TDir om oes" by (cases old) auto
  note d = dir.prems [unfolded old, simplified]
  let ?gone = "filter (\<lambda>(name, t). map_of nes name = None) oes"
  let ?old = "\<lambda>n. case map_of oes n of Some t \<Rightarrow> flat t | None \<Rightarrow> Map.empty"
  let ?both = "\<lambda>n. case map_of nes n of Some t \<Rightarrow> flat t | None \<Rightarrow> ?old n"
  let ?new = "\<lambda>n. case map_of nes n of Some t \<Rightarrow> flat t | None \<Rightarrow> Map.empty"
  let ?ops = "maybe_chown om nm @ maybe_chmod om nm @ maybe_set_times om nm @ xattr_ops (Some (md_xattrs om)) (md_xattrs nm)"
  have rem: "removable t" if "map_of oes n = Some t" for n t
    using d map_of_SomeD [OF that] by auto
  have "yields C (rev (concat (map (\<lambda>(n, t). compare_entry p oes (n, t)) nes))) p (sub (meta_node KDir om) ?old) (sub (meta_node KDir om) ?both)"
  proof (rule yields_entries_rev)
    show "\<forall>(n, t) \<in> set nes. yields C (rev (compare_entry p oes (n, t))) (p @ [n]) (?old n) (flat t)"
      using d dir.IH rem by (auto intro!: compare_entry_yields)
  qed (use d in \<open>simp_all add: meta_node_def\<close>)
  moreover have "yields C (rev (map (\<lambda>(n, t). remove_instruction (p @ [n]) t) ?gone)) p (sub (meta_node KDir om) ?both)
      (sub (meta_node KDir om) (\<lambda>n. case map_of ?gone n of Some t \<Rightarrow> Map.empty | None \<Rightarrow> ?both n))"
  proof (rule yields_single_entries)
    show "\<forall>(n, t) \<in> set ?gone. yields C [remove_instruction (p @ [n]) t] (p @ [n]) (?both n) Map.empty"
      using d by (auto intro!: remove_tree)
  qed (use d in \<open>simp_all add: meta_node_def distinct_map_filter\<close>)
  moreover have "(\<lambda>n. case map_of ?gone n of Some t \<Rightarrow> Map.empty | None \<Rightarrow> ?both n) = ?new"
  proof
    fix n
    have "map_of ?gone n = (if map_of nes n = None then map_of oes n else None)"
      using map_of_filter_key [of "\<lambda>n. map_of nes n = None" oes n] by simp
    then show "(case map_of ?gone n of Some t \<Rightarrow> Map.empty | None \<Rightarrow> ?both n) = ?new n"
      by (auto split: option.split)
  qed
  moreover have "yields C (changes_at p (rev ?ops)) p (sub (meta_node KDir om) ?new) (sub (meta_node KDir nm) ?new)"
    using d by (intro yields_ops metadata_ops(2)) simp_all
  ultimately have "yields C (rev (concat (map (\<lambda>(n, t). compare_entry p oes (n, t)) nes)) @
      rev (map (\<lambda>(n, t). remove_instruction (p @ [n]) t) ?gone) @ changes_at p (rev ?ops)) p (flat old) (flat (TDir nm nes))"
    unfolding old flat.simps(1) by (metis (no_types, lifting) yields_append)
  moreover have "rev (tree_compare p (om, oes) (nm, nes) :: 'c Instruction list) = rev (concat (map (\<lambda>(n, t). compare_entry p oes (n, t)) nes)) @
      rev (map (\<lambda>(n, t). remove_instruction (p @ [n]) t) ?gone) @ changes_at p (rev ?ops)"
    by (simp add: tree_compare_def rev_changes_at [symmetric] del: rev_append) simp
  ultimately show ?case
    using yields_tree(1) [of C p "(om, oes)" "(nm, nes)"] by (simp add: compare_instruction_def old del: flat.simps)
next
  case (regular nm nc)
  then show ?case
    using compare_file [of old "TFile nm nc" p] by (cases old) (simp_all add: compare_instruction_def)
next
  case (symlink nm nl)
  then show ?case
    using compare_file [of old "TSymlink nm nl" p] by (cases old) (simp_all add: compare_instruction_def)
next
  case (special nm nft)
  then obtain om where "old = TSpecial om nft" by (cases old) auto
  moreover from this special have "nft \<noteq> FtDir" by auto
  ultimately show ?case
    using compare_file [of old "TSpecial nm nft" p] special by (simp add: compare_instruction_def)
qed

end

end
