(* ===== verification/Change_Properties.thy ===== *)
theory Change_Properties
  imports Change_Diff
begin

text \<open>
  The properties of the change stream, for the implementations of its contents: vectors of bytes, files and buffered files.
\<close>

section \<open>The implementations of the contents\<close>

lemma readers_differ_iff: "fst (readers_differ a b) \<longleftrightarrow> of_rest a \<noteq> of_rest b"
proof (induction a b rule: readers_differ.induct)
  case (1 a b)
  obtain x a' where a: "read_chunk a = (x, a')" by (cases "read_chunk a")
  obtain y b' where b: "read_chunk b = (y, b')" by (cases "read_chunk b")
  note ra = read_chunk_shorter [OF a] and rb = read_chunk_shorter [OF b]
  show ?case
  proof (cases "x = y")
    case False
    then have "of_rest a \<noteq> of_rest b"
      using ra(1) rb(1) a b by (auto simp: read_chunk_def Let_def)
    with False show ?thesis
      by (simp add: readers_differ.simps [of a b] a b)
  next
    case True
    show ?thesis
    proof (cases "length x = 0 \<or> length x < CHUNK_SIZE")
      case short: True
      then have "length x = length (of_rest a)" "length y = length (of_rest b)"
        using ra(1) rb(1) True by (auto simp: min_def CHUNK_SIZE_def split: if_splits)
      then have "of_rest a' = []" "of_rest b' = []"
        using ra(2) rb(2) by simp_all
      with short True ra(3) rb(3) show ?thesis
        by (simp add: readers_differ.simps [of a b] a b)
    next
      case long: False
      with 1 [OF a [symmetric] b [symmetric] refl] True ra(3) rb(3) show ?thesis
        by (simp add: readers_differ.simps [of a b] a b)
    qed
  qed
qed

lemma readers_differ_advances:
  assumes "readers_differ a b = (d, a', b')"
  shows "of_data a' = of_data a \<and> of_pos a + min CHUNK_SIZE (length (of_rest a)) \<le> of_pos a'"
  using assms
proof (induction a b rule: readers_differ.induct)
  case (1 a b)
  obtain x a1 where a: "read_chunk a = (x, a1)" by (cases "read_chunk a")
  obtain y b1 where b: "read_chunk b = (y, b1)" by (cases "read_chunk b")
  have a1: "of_data a1 = of_data a" "of_pos a1 = of_pos a + min CHUNK_SIZE (length (of_rest a))"
    using a by (auto simp: read_chunk_def Let_def)
  show ?case
  proof (cases "x \<noteq> y \<or> length x = 0 \<or> length x < CHUNK_SIZE")
    case True
    with 1(2) a1 show ?thesis
      by (auto simp: readers_differ.simps [of a b] a b Let_def split: if_splits)
  next
    case False
    with 1(2) have "readers_differ a1 b1 = (d, a', b')"
      by (simp add: readers_differ.simps [of a b] a b)
    with 1(1) [OF a [symmetric] b [symmetric] refl] False a1 show ?thesis
      by auto
  qed
qed

lemma File_differs_iff: "fst (File_differs ahead \<lparr>of_data = a, of_pos = 0\<rparr> \<lparr>of_data = b, of_pos = 0\<rparr>) \<longleftrightarrow> a \<noteq> b"
  using readers_differ_iff [of "\<lparr>of_data = a, of_pos = 0\<rparr>" "\<lparr>of_data = b, of_pos = 0\<rparr>"]
  by (auto simp: File_differs_def of_rest_def split: prod.splits)


interpretation opened: comparable_contents "File_contents ahead" for ahead
  using File_differs_iff by unfold_locales (simp_all add: File_contents_def of_rest_def)

interpretation buffered: comparable_contents BufReader_contents
  using readers_differ_iff [of "\<lparr>of_data = _, of_pos = 0\<rparr>" "\<lparr>of_data = _, of_pos = 0\<rparr>"]
  by unfold_locales (auto simp: BufReader_contents_def BufReader_differs_def of_rest_def)

section \<open>Differences\<close>



definition example_meta :: "u32 \<Rightarrow> u32 \<Rightarrow> (bytes \<times> bytes) list \<Rightarrow> Metadata" where
  "example_meta mode uid xs =
     \<lparr>md_mode = mode, md_uid = uid, md_gid = 0, md_rdev = 0, md_atime = SystemTime 1 0, md_mtime = SystemTime 1 0, md_xattrs = xs\<rparr>"

text \<open>A directory becomes a file, a file changes, another goes, and a directory with a link is new.\<close>

definition example_old :: "(bytes \<times> tree_node) list" where
  "example_old =
     [([0x61], TDir (example_meta 0x41ED 0 [([0x78], [1])]) [([0x62], TFile (example_meta 0x81A4 0 []) [9])]),
      ([0x63], TFile (example_meta 0x81A4 0 [([0x78], [1])]) [1, 2]), ([0x64], TFile (example_meta 0x81A4 0 []) [])]"






text \<open>Open files are handed on where the comparison has left them: for two different files of the same length, the change that is to set
  the contents of the new file carries a file from which the bytes of the first chunk at least cannot be read any more.\<close>

lemma compared_file_consumed:
  assumes "length a = length b" and "a \<noteq> b"
  obtains f where "file_compare (File_contents ahead) (TFile om b) (TFile nm a) = Op_Contents f #
      (xattr_ops (Some (md_xattrs om)) (md_xattrs nm) @ maybe_chmod om nm @ maybe_chown om nm @ maybe_set_times om nm)"
    and "of_data f = a" and "length (of_rest f) \<le> length a - CHUNK_SIZE"
proof -
  let ?a = "\<lparr>of_data = a, of_pos = 0\<rparr>" and ?b = "\<lparr>of_data = b, of_pos = 0\<rparr>"
  obtain d a' b' where r: "readers_differ ?a ?b = (d, a', b')" by (metis prod_cases3)
  have d: "d"
    using readers_differ_iff [of ?a ?b] r assms(2) by (simp add: of_rest_def)
  have a': "of_data a' = a" "min CHUNK_SIZE (length a) \<le> of_pos a'"
    using readers_differ_advances [OF r] by (simp_all add: of_rest_def)
  have "file_compare (File_contents ahead) (TFile om b) (TFile nm a) = Op_Contents (skip_ahead ahead a') #
      (xattr_ops (Some (md_xattrs om)) (md_xattrs nm) @ maybe_chmod om nm @ maybe_chown om nm @ maybe_set_times om nm)"
    using r d assms(1) by (simp add: file_compare_def File_contents_def File_differs_def)
  moreover have "of_data (skip_ahead ahead a') = a" "length (of_rest (skip_ahead ahead a')) \<le> length a - CHUNK_SIZE"
    using a' by (auto simp: of_rest_def skip_ahead_def)
  ultimately show thesis
    by (rule that)
qed

section \<open>Trees that do not change, and trees that cannot be added\<close>

fun named_once :: "tree_node \<Rightarrow> bool" where
  "named_once (TDir m es) \<longleftrightarrow>
     distinct (map fst es) \<and> distinct (map fst (md_xattrs m)) \<and> (\<forall>(n, t) \<in> set es. named_once t)"
| "named_once t \<longleftrightarrow> distinct (map fst (md_xattrs (node_meta t)))"

lemma xattr_ops_self: "distinct (map fst xs) \<Longrightarrow> xattr_ops (Some xs) xs = []"
  by (auto simp: xattr_ops_def filter_empty_conv split: option.splits)

lemma maybe_self: "maybe_chown m m = []" "maybe_chmod m m = []" "maybe_set_times m m = []"
  by (simp_all add: maybe_chown_def maybe_chmod_def maybe_set_times_def)

lemma run_all_Nil: "\<forall>i \<in> set is. run_to_completion C [i] = ([], None) \<Longrightarrow> run_to_completion C is = ([], None)"
proof (induction "is")
  case (Cons i is')
  then show ?case
    using run_append [of C "[i]" is'] by (simp add: and_then_def)
qed simp

lemma compare_self:
  fixes C :: "'c contents_impl"
  assumes "\<And>a. \<not> fst (ci_differs C (ci_from_file C a) (ci_from_file C a))"
  shows "named_once t \<Longrightarrow> run_to_completion C [compare_instruction p t t] = ([], None)"
proof (induction t arbitrary: p rule: tree_induct)
  case (dir m es)
  have gone: "filter (\<lambda>(name, t). map_of es name = None) es = []"
    by (auto simp: filter_empty_conv map_of_eq_None_iff) (metis fst_conv image_eqI)
  have entry: "compare_entry p es (n, t) = [compare_instruction (p @ [n]) t t :: 'c Instruction]" if "(n, t) \<in> set es" for n t
    using dir.prems that by (cases t) (simp_all add: compare_entry_def compare_instruction_def)
  have "run_to_completion C [i] = ([], None)" if i: "i \<in> set (concat (map (compare_entry p es) es))" for i
  proof -
    obtain n t where t: "(n, t) \<in> set es" "i \<in> set (compare_entry p es (n, t))"
      using i by auto
    then have "i = compare_instruction (p @ [n]) t t" and "named_once t"
      using entry [OF t(1)] dir.prems by auto
    with dir.IH [OF t(1)] show ?thesis
      by simp
  qed
  then have "run_to_completion C (rev (tree_compare p (m, es) (m, es))) = ([], None)"
    using dir.prems by (intro run_all_Nil) (auto simp: tree_compare_def maybe_self xattr_ops_self gone changes_at_def)
  then show ?case
    by (simp add: compare_instruction_def run_to_completion.simps(3))
next
  case (regular m c)
  have "file_compare C (TFile m c) (TFile m c) = []"
    using assms [of c] regular by (auto simp: file_compare_def maybe_self xattr_ops_self split: prod.split)
  then show ?case
    by (simp add: compare_instruction_def run_to_completion.simps(6) changes_at_def)
qed (simp_all add: compare_instruction_def run_to_completion.simps(6) changes_at_def file_compare_def maybe_self xattr_ops_self)

text \<open>A tree does not differ from itself: the stream is empty.\<close>

theorem diff_of_same_tree_is_empty:
  assumes "named_once (TDir m es)"
  shows "Iter_diff (File_contents ahead) (m, es) (m, es) = []"
  using compare_self [OF _ assms, of "File_contents ahead" "[]"] opened.differs_iff [of ahead]
  by (simp add: Iter_diff_def with_initial_instruction_def compare_instruction_def)

theorem diff_of_same_tree_is_empty_witness:
  "Iter_diff (File_contents 0) (example_meta 0x41ED 0 [], example_old) (example_meta 0x41ED 0 [], example_old) = []"
  by (rule diff_of_same_tree_is_empty) (simp add: example_old_def example_meta_def)

fun has_special :: "tree_node \<Rightarrow> bool" where
  "has_special (TDir m es) \<longleftrightarrow> (\<exists>(n, t) \<in> set es. has_special t)"
| "has_special (TSpecial m ft) \<longleftrightarrow> True"
| "has_special t \<longleftrightarrow> False"

lemma run_error: "i \<in> set is \<Longrightarrow> snd (run_to_completion C [i]) \<noteq> None \<Longrightarrow> snd (run_to_completion C is) \<noteq> None"
proof (induction "is")
  case (Cons j is')
  then show ?case
    using run_append [of C "[j]" is'] by (auto simp: and_then_def)
qed simp

lemma special_fails: "has_special t \<Longrightarrow> snd (run_to_completion C [new_instruction p t]) \<noteq> None"
proof (induction t arbitrary: p rule: tree_induct)
  case (dir m es)
  then obtain n t where t: "(n, t) \<in> set es" "has_special t"
    by auto
  then have "new_instruction (p @ [n]) t \<in> set (rev (tree_add p (m, es)))"
    by (force simp: tree_add_def)
  from run_error [OF this dir.IH [OF t]] show ?case
    by (simp add: new_instruction_def run_to_completion.simps(5))
qed (simp_all add: new_instruction_def run_to_completion.simps(7) file_add_def)

text \<open>A new tree with a device node, a fifo or a socket anywhere ends the stream with an error.\<close>

theorem from_empty_rejects_special:
  assumes "has_special (TDir m es)"
  shows "\<exists>cs e. Iter_from_empty C (m, es) = map Inr cs @ [Inl e]"
  using special_fails [OF assms, of C "[]"]
  by (auto simp: Iter_from_empty_def with_initial_instruction_def new_instruction_def split: prod.split)

theorem from_empty_rejects_special_witness:
  "\<exists>cs e. Iter_from_empty vec_contents (example_meta 0x41ED 0 [], [([0x61], TSpecial (example_meta 0x11A4 0 []) FtFifo)]) = map Inr cs @ [Inl e]"
  by (rule from_empty_rejects_special) simp

end
