(* ===== verification/Oci_Properties.thy ===== *)
theory Oci_Properties
  imports Oci_Layer Change_Properties
begin

text \<open>
  The properties of the OCI layers: what the archive of a new tree holds, and what a changed file becomes.
\<close>

section \<open>The ordered map\<close>




definition or_default :: "oci_entry option \<Rightarrow> oci_entry" where
  "or_default e = (case e of Some x \<Rightarrow> x | None \<Rightarrow> oci_default)"

lemma or_default_simps [simp]: "or_default (Some x) = x" "or_default None = oci_default"
  by (simp_all add: or_default_def)


section \<open>The operations at a path\<close>

definition ops_at :: "fpath \<Rightarrow> 'c Change list \<Rightarrow> 'c Operation list" where
  "ops_at q cs = map chg_operation (filter (\<lambda>c. chg_path c = q) cs)"

lemma ops_at_simps [simp]: "ops_at q [] = []" "ops_at q (cs @ ds) = ops_at q cs @ ops_at q ds"
  "ops_at q (c # cs) = (if chg_path c = q then chg_operation c # ops_at q cs else ops_at q cs)"
  "ops_at q (map (Change p) ops) = (if p = q then ops else [])"
  by (simp_all add: ops_at_def comp_def)





section \<open>The stream of a new tree\<close>














section \<open>The archive of a new tree\<close>















section \<open>The archive of a changed file\<close>



end
