(* ===== verification/Sendstream_Wire.thy ===== *)
theory Sendstream_Wire
  imports Sendstream_Types
begin

text \<open>
  \<open>antlir2/sendstream_parser/src/wire/tlv.rs\<close> and \<open>cmd.rs\<close>: the parsers of attributes and of single
  commands. An attribute type is the value of the type parameters of \<open>parse_tlv_with_attr\<close>.
\<close>

section \<open>Attribute types\<close>

datatype Attr =
    Attr_Unspecified | Attr_Uuid | Attr_Ctransid | Attr_Ino | Attr_Size | Attr_Mode | Attr_Uid | Attr_Gid
  | Attr_Rdev | Attr_Ctime | Attr_Mtime | Attr_Atime | Attr_Otime | Attr_XattrName | Attr_XattrData
  | Attr_Path | Attr_PathTo | Attr_Link | Attr_FileOffset | Attr_Data | Attr_CloneUuid | Attr_CloneCtransid
  | Attr_ClonePath | Attr_CloneOffset | Attr_CloneLen

primrec Attr_as_u16 :: "Attr \<Rightarrow> u16" where
  "Attr_as_u16 Attr_Unspecified = 0"
| "Attr_as_u16 Attr_Uuid = 1"
| "Attr_as_u16 Attr_Ctransid = 2"
| "Attr_as_u16 Attr_Ino = 3"
| "Attr_as_u16 Attr_Size = 4"
| "Attr_as_u16 Attr_Mode = 5"
| "Attr_as_u16 Attr_Uid = 6"
| "Attr_as_u16 Attr_Gid = 7"
| "Attr_as_u16 Attr_Rdev = 8"
| "Attr_as_u16 Attr_Ctime = 9"
| "Attr_as_u16 Attr_Mtime = 10"
| "Attr_as_u16 Attr_Atime = 11"
| "Attr_as_u16 Attr_Otime = 12"
| "Attr_as_u16 Attr_XattrName = 13"
| "Attr_as_u16 Attr_XattrData = 14"
| "Attr_as_u16 Attr_Path = 15"
| "Attr_as_u16 Attr_PathTo = 16"
| "Attr_as_u16 Attr_Link = 17"
| "Attr_as_u16 Attr_FileOffset = 18"
| "Attr_as_u16 Attr_Data = 19"
| "Attr_as_u16 Attr_CloneUuid = 20"
| "Attr_as_u16 Attr_CloneCtransid = 21"
| "Attr_as_u16 Attr_ClonePath = 22"
| "Attr_as_u16 Attr_CloneOffset = 23"
| "Attr_as_u16 Attr_CloneLen = 24"

definition Attr_tag :: "Attr \<Rightarrow> bytes" where
  "Attr_tag a = le16 (Attr_as_u16 a)"

section \<open>Attributes\<close>

text \<open>The trait \<open>Tlv\<close>: the length \<open>L\<close>, the default attribute, and \<open>parse\<close> or, if \<open>L\<close> is not 0,
  \<open>parse_exact\<close>. \<open>None\<close> is a panic.\<close>

record 'a Tlv =
  tlv_length :: nat
  tlv_attr :: Attr
  tlv_parse :: "bytes \<Rightarrow> 'a option"

definition parse_tlv_with_attr ::
  "nom_streaming \<Rightarrow> 'a Tlv \<Rightarrow> Attr \<Rightarrow> bytes \<Rightarrow> (bytes, 'a) iresult" where
  "parse_tlv_with_attr N T attr input =
     ibind (nm_tag N (Attr_tag attr) input) (\<lambda>input _.
     if tlv_length T = 0 then
       ibind (nm_le_u16 N input) (\<lambda>input len.
       ibind (nm_take N (unat len) input) (\<lambda>input data.
       case tlv_parse T data of Some value \<Rightarrow> IOk input value | None \<Rightarrow> IPanic))
     else
       ibind (nm_tag N (le16 (word_of_nat (tlv_length T))) input) (\<lambda>input _.
       ibind (nm_take N (tlv_length T) input) (\<lambda>input data.
       case tlv_parse T data of Some value \<Rightarrow> IOk input value | None \<Rightarrow> IPanic)))"

definition parse_tlv :: "nom_streaming \<Rightarrow> 'a Tlv \<Rightarrow> bytes \<Rightarrow> (bytes, 'a) iresult" where
  "parse_tlv N T input = parse_tlv_with_attr N T (tlv_attr T) input"

text \<open>\<open>SystemTime + Duration\<close> panics when the seconds leave the signed 64-bit range.\<close>

definition time_add :: "SystemTime \<Rightarrow> nat \<Rightarrow> nat \<Rightarrow> SystemTime option" where
  "time_add t secs nanos =
     (case t of SystemTime s n \<Rightarrow>
        let total = n + nanos; carry = total div 10 ^ 9
        in if s + secs + carry < 2 ^ 63 then Some (SystemTime (s + secs + carry) (total mod 10 ^ 9)) else None)"

definition parse_time :: "bytes \<Rightarrow> SystemTime option" where
  "parse_time data =
     (let secs = unat (from_le (take 8 data) :: u64); nanos = unat (from_le (drop 8 data) :: u32)
      in Option.bind (time_add (SystemTime 0 0) secs 0) (\<lambda>t.
         time_add t (nanos div 10 ^ 9) (nanos mod 10 ^ 9)))"

definition Path_tlv :: "bytes Tlv" where
  "Path_tlv = \<lparr>tlv_length = 0, tlv_attr = Attr_Path, tlv_parse = Some\<rparr>"

definition TemporaryPath_tlv :: "TemporaryPath Tlv" where
  "TemporaryPath_tlv = \<lparr>tlv_length = 0, tlv_attr = Attr_Path, tlv_parse = (\<lambda>data. Some (TemporaryPath data))\<rparr>"

definition Uuid_tlv :: "Uuid Tlv" where
  "Uuid_tlv = \<lparr>tlv_length = 16, tlv_attr = Attr_Uuid, tlv_parse = (\<lambda>data. Some (Uuid (from_le data)))\<rparr>"

definition Ctransid_tlv :: "Ctransid Tlv" where
  "Ctransid_tlv = \<lparr>tlv_length = 8, tlv_attr = Attr_Ctransid, tlv_parse = (\<lambda>data. Some (Ctransid (from_le data)))\<rparr>"

definition Uid_tlv :: "Uid Tlv" where
  "Uid_tlv = \<lparr>tlv_length = 8, tlv_attr = Attr_Uid, tlv_parse = (\<lambda>data. Some (Uid (ucast (from_le data :: u64))))\<rparr>"

definition Gid_tlv :: "Gid Tlv" where
  "Gid_tlv = \<lparr>tlv_length = 8, tlv_attr = Attr_Gid, tlv_parse = (\<lambda>data. Some (Gid (ucast (from_le data :: u64))))\<rparr>"

definition Mode_tlv :: "Mode Tlv" where
  "Mode_tlv = \<lparr>tlv_length = 8, tlv_attr = Attr_Mode, tlv_parse = (\<lambda>data. Some (Mode (ucast (from_le data :: u64))))\<rparr>"

definition Ino_tlv :: "Ino Tlv" where
  "Ino_tlv = \<lparr>tlv_length = 8, tlv_attr = Attr_Ino, tlv_parse = (\<lambda>data. Some (Ino (from_le data)))\<rparr>"

definition XattrName_tlv :: "XattrName Tlv" where
  "XattrName_tlv = \<lparr>tlv_length = 0, tlv_attr = Attr_XattrName, tlv_parse = (\<lambda>data. Some (XattrName data))\<rparr>"

definition XattrData_tlv :: "XattrData Tlv" where
  "XattrData_tlv = \<lparr>tlv_length = 0, tlv_attr = Attr_XattrData, tlv_parse = (\<lambda>data. Some (XattrData data))\<rparr>"

definition FileOffset_tlv :: "FileOffset Tlv" where
  "FileOffset_tlv = \<lparr>tlv_length = 8, tlv_attr = Attr_FileOffset, tlv_parse = (\<lambda>data. Some (FileOffset (from_le data)))\<rparr>"

definition Data_tlv :: "Data Tlv" where
  "Data_tlv = \<lparr>tlv_length = 0, tlv_attr = Attr_Data, tlv_parse = (\<lambda>data. Some (Data data))\<rparr>"

definition LinkTarget_tlv :: "LinkTarget Tlv" where
  "LinkTarget_tlv = \<lparr>tlv_length = 0, tlv_attr = Attr_Link, tlv_parse = (\<lambda>data. Some (LinkTarget data))\<rparr>"

definition Rdev_tlv :: "Rdev Tlv" where
  "Rdev_tlv = \<lparr>tlv_length = 8, tlv_attr = Attr_Rdev, tlv_parse = (\<lambda>data. Some (Rdev (from_le data)))\<rparr>"

definition CloneLen_tlv :: "CloneLen Tlv" where
  "CloneLen_tlv = \<lparr>tlv_length = 8, tlv_attr = Attr_CloneLen, tlv_parse = (\<lambda>data. Some (CloneLen (from_le data)))\<rparr>"

definition u64_tlv :: "u64 Tlv" where
  "u64_tlv = \<lparr>tlv_length = 8, tlv_attr = Attr_Size, tlv_parse = (\<lambda>data. Some (from_le data))\<rparr>"

definition Atime_tlv :: "Atime Tlv" where
  "Atime_tlv = \<lparr>tlv_length = 12, tlv_attr = Attr_Atime, tlv_parse = (\<lambda>data. map_option Atime (parse_time data))\<rparr>"

definition Mtime_tlv :: "Mtime Tlv" where
  "Mtime_tlv = \<lparr>tlv_length = 12, tlv_attr = Attr_Mtime, tlv_parse = (\<lambda>data. map_option Mtime (parse_time data))\<rparr>"

definition Ctime_tlv :: "Ctime Tlv" where
  "Ctime_tlv = \<lparr>tlv_length = 12, tlv_attr = Attr_Ctime, tlv_parse = (\<lambda>data. map_option Ctime (parse_time data))\<rparr>"

lemmas tlv_defs = Path_tlv_def TemporaryPath_tlv_def Uuid_tlv_def Ctransid_tlv_def Uid_tlv_def Gid_tlv_def
  Mode_tlv_def Ino_tlv_def XattrName_tlv_def XattrData_tlv_def FileOffset_tlv_def Data_tlv_def LinkTarget_tlv_def
  Rdev_tlv_def CloneLen_tlv_def u64_tlv_def Atime_tlv_def Mtime_tlv_def Ctime_tlv_def

section \<open>Command headers\<close>

datatype CommandType =
    Unspecified | Type_Subvol | Type_Snapshot | Type_Mkfile | Type_Mkdir | Type_Mknod | Type_Mkfifo | Type_Mksock
  | Type_Symlink | Type_Rename | Type_Link | Type_Unlink | Type_Rmdir | Type_SetXattr | Type_RemoveXattr
  | Type_Write | Type_Clone | Type_Truncate | Type_Chmod | Type_Chown | Type_Utimes | Type_End
  | Type_UpdateExtent | Unknown u16

definition CommandType_variants :: "CommandType list" where
  "CommandType_variants =
     [Unspecified, Type_Subvol, Type_Snapshot, Type_Mkfile, Type_Mkdir, Type_Mknod, Type_Mkfifo, Type_Mksock,
      Type_Symlink, Type_Rename, Type_Link, Type_Unlink, Type_Rmdir, Type_SetXattr, Type_RemoveXattr,
      Type_Write, Type_Clone, Type_Truncate, Type_Chmod, Type_Chown, Type_Utimes, Type_End, Type_UpdateExtent]"

definition CommandType_from_u16 :: "u16 \<Rightarrow> CommandType" where
  "CommandType_from_u16 u =
     (if unat u < length CommandType_variants then CommandType_variants ! unat u else Unknown u)"

definition CommandType_parse :: "nom_streaming \<Rightarrow> bytes \<Rightarrow> (bytes, CommandType) iresult" where
  "CommandType_parse N input = ibind (nm_le_u16 N input) (\<lambda>input ty. IOk input (CommandType_from_u16 ty))"

record CommandHeader =
  ch_len :: nat
  ch_ty :: CommandType
  ch_crc32 :: u32

definition CommandHeader_parse :: "nom_streaming \<Rightarrow> bytes \<Rightarrow> (bytes, CommandHeader) iresult" where
  "CommandHeader_parse N input =
     ibind (nm_le_u32 N input) (\<lambda>input len.
     ibind (CommandType_parse N input) (\<lambda>input ty.
     ibind (nm_le_u32 N input) (\<lambda>input crc32.
     IOk input \<lparr>ch_len = unat len, ch_ty = ty, ch_crc32 = crc32\<rparr>)))"

section \<open>Commands\<close>

definition Subvol_parse :: "nom_streaming \<Rightarrow> bytes \<Rightarrow> (bytes, Subvol) iresult" where
  "Subvol_parse N input =
     ibind (parse_tlv N Path_tlv input) (\<lambda>input path.
     ibind (parse_tlv N Uuid_tlv input) (\<lambda>input uuid.
     ibind (parse_tlv N Ctransid_tlv input) (\<lambda>input ctransid.
     IOk input \<lparr>subvol_path = path, subvol_uuid = uuid, subvol_ctransid = ctransid\<rparr>)))"

definition Chmod_parse :: "nom_streaming \<Rightarrow> bytes \<Rightarrow> (bytes, Chmod) iresult" where
  "Chmod_parse N input =
     ibind (parse_tlv N Path_tlv input) (\<lambda>input path.
     ibind (parse_tlv N Mode_tlv input) (\<lambda>input mode.
     IOk input \<lparr>chmod_path = path, chmod_mode = mode\<rparr>))"

definition Chown_parse :: "nom_streaming \<Rightarrow> bytes \<Rightarrow> (bytes, Chown) iresult" where
  "Chown_parse N input =
     ibind (parse_tlv N Path_tlv input) (\<lambda>input path.
     ibind (parse_tlv N Uid_tlv input) (\<lambda>input uid.
     ibind (parse_tlv N Gid_tlv input) (\<lambda>input gid.
     IOk input \<lparr>chown_path = path, chown_uid = uid, chown_gid = gid\<rparr>)))"

definition Clone_parse :: "nom_streaming \<Rightarrow> bytes \<Rightarrow> (bytes, Clone) iresult" where
  "Clone_parse N input =
     ibind (parse_tlv N FileOffset_tlv input) (\<lambda>input dst_offset.
     ibind (parse_tlv N CloneLen_tlv input) (\<lambda>input len.
     ibind (parse_tlv N Path_tlv input) (\<lambda>input dst_path.
     ibind (parse_tlv_with_attr N Uuid_tlv Attr_CloneUuid input) (\<lambda>input uuid.
     ibind (parse_tlv_with_attr N Ctransid_tlv Attr_CloneCtransid input) (\<lambda>input ctransid.
     ibind (parse_tlv_with_attr N Path_tlv Attr_ClonePath input) (\<lambda>input src_path.
     ibind (parse_tlv_with_attr N FileOffset_tlv Attr_CloneOffset input) (\<lambda>input src_offset.
     IOk input \<lparr>clone_src_offset = src_offset, clone_len = len, clone_src_path = src_path, clone_uuid = uuid,
       clone_ctransid = ctransid, clone_dst_path = dst_path, clone_dst_offset = dst_offset\<rparr>)))))))"

definition Link_parse :: "nom_streaming \<Rightarrow> bytes \<Rightarrow> (bytes, Link) iresult" where
  "Link_parse N input =
     ibind (parse_tlv N Path_tlv input) (\<lambda>input link_name.
     ibind (parse_tlv N LinkTarget_tlv input) (\<lambda>input target.
     IOk input \<lparr>link_link_name = link_name, link_target = target\<rparr>))"

definition Symlink_parse :: "nom_streaming \<Rightarrow> bytes \<Rightarrow> (bytes, Symlink) iresult" where
  "Symlink_parse N input =
     ibind (parse_tlv N Path_tlv input) (\<lambda>input link_name.
     ibind (parse_tlv N Ino_tlv input) (\<lambda>input ino.
     ibind (parse_tlv N LinkTarget_tlv input) (\<lambda>input target.
     IOk input \<lparr>symlink_link_name = link_name, symlink_ino = ino, symlink_target = target\<rparr>)))"

definition Mkdir_parse :: "nom_streaming \<Rightarrow> bytes \<Rightarrow> (bytes, Mkdir) iresult" where
  "Mkdir_parse N input =
     ibind (parse_tlv N TemporaryPath_tlv input) (\<lambda>input path.
     ibind (parse_tlv N Ino_tlv input) (\<lambda>input ino.
     IOk input \<lparr>mkdir_path = path, mkdir_ino = ino\<rparr>))"

definition Mkfile_parse :: "nom_streaming \<Rightarrow> bytes \<Rightarrow> (bytes, Mkfile) iresult" where
  "Mkfile_parse N input =
     ibind (parse_tlv N TemporaryPath_tlv input) (\<lambda>input path.
     ibind (parse_tlv N Ino_tlv input) (\<lambda>input ino.
     IOk input \<lparr>mkfile_path = path, mkfile_ino = ino\<rparr>))"

definition Mkspecial_parse :: "nom_streaming \<Rightarrow> bytes \<Rightarrow> (bytes, Mkspecial) iresult" where
  "Mkspecial_parse N input =
     ibind (parse_tlv N TemporaryPath_tlv input) (\<lambda>input path.
     ibind (parse_tlv N Ino_tlv input) (\<lambda>input ino.
     ibind (parse_tlv N Rdev_tlv input) (\<lambda>input rdev.
     ibind (parse_tlv N Mode_tlv input) (\<lambda>input mode.
     IOk input \<lparr>mkspecial_path = path, mkspecial_ino = ino, mkspecial_rdev = rdev, mkspecial_mode = mode\<rparr>))))"

definition Mknod_parse :: "nom_streaming \<Rightarrow> bytes \<Rightarrow> (bytes, Mknod) iresult" where
  "Mknod_parse N input = ibind (Mkspecial_parse N input) (\<lambda>r s. IOk r (Mknod s))"

definition Mkfifo_parse :: "nom_streaming \<Rightarrow> bytes \<Rightarrow> (bytes, Mkfifo) iresult" where
  "Mkfifo_parse N input = ibind (Mkspecial_parse N input) (\<lambda>r s. IOk r (Mkfifo s))"

definition Mksock_parse :: "nom_streaming \<Rightarrow> bytes \<Rightarrow> (bytes, Mksock) iresult" where
  "Mksock_parse N input = ibind (Mkspecial_parse N input) (\<lambda>r s. IOk r (Mksock s))"

definition RemoveXattr_parse :: "nom_streaming \<Rightarrow> bytes \<Rightarrow> (bytes, RemoveXattr) iresult" where
  "RemoveXattr_parse N input =
     ibind (parse_tlv N Path_tlv input) (\<lambda>input path.
     ibind (parse_tlv N XattrName_tlv input) (\<lambda>input name.
     IOk input \<lparr>remove_xattr_path = path, remove_xattr_name = name\<rparr>))"

definition Rename_parse :: "nom_streaming \<Rightarrow> bytes \<Rightarrow> (bytes, Rename) iresult" where
  "Rename_parse N input =
     ibind (parse_tlv N Path_tlv input) (\<lambda>input from.
     ibind (parse_tlv_with_attr N Path_tlv Attr_PathTo input) (\<lambda>input to.
     IOk input \<lparr>rename_from = from, rename_to = to\<rparr>))"

definition Rmdir_parse :: "nom_streaming \<Rightarrow> bytes \<Rightarrow> (bytes, Rmdir) iresult" where
  "Rmdir_parse N input = ibind (parse_tlv N Path_tlv input) (\<lambda>input path. IOk input \<lparr>rmdir_path = path\<rparr>)"

definition SetXattr_parse :: "nom_streaming \<Rightarrow> bytes \<Rightarrow> (bytes, SetXattr) iresult" where
  "SetXattr_parse N input =
     ibind (parse_tlv N Path_tlv input) (\<lambda>input path.
     ibind (parse_tlv N XattrName_tlv input) (\<lambda>input name.
     ibind (parse_tlv N XattrData_tlv input) (\<lambda>input data.
     IOk input \<lparr>set_xattr_path = path, set_xattr_name = name, set_xattr_data = data\<rparr>)))"

definition Truncate_parse :: "nom_streaming \<Rightarrow> bytes \<Rightarrow> (bytes, Truncate) iresult" where
  "Truncate_parse N input =
     ibind (parse_tlv N Path_tlv input) (\<lambda>input path.
     ibind (parse_tlv N u64_tlv input) (\<lambda>input size'.
     IOk input \<lparr>truncate_path = path, truncate_size = size'\<rparr>))"

definition Snapshot_parse :: "nom_streaming \<Rightarrow> bytes \<Rightarrow> (bytes, Snapshot) iresult" where
  "Snapshot_parse N input =
     ibind (parse_tlv N Path_tlv input) (\<lambda>input path.
     ibind (parse_tlv N Uuid_tlv input) (\<lambda>input uuid.
     ibind (parse_tlv N Ctransid_tlv input) (\<lambda>input ctransid.
     ibind (parse_tlv_with_attr N Uuid_tlv Attr_CloneUuid input) (\<lambda>input clone_uuid.
     ibind (parse_tlv_with_attr N Ctransid_tlv Attr_CloneCtransid input) (\<lambda>input clone_ctransid.
     IOk input \<lparr>snapshot_path = path, snapshot_uuid = uuid, snapshot_ctransid = ctransid,
       snapshot_clone_uuid = clone_uuid, snapshot_clone_ctransid = clone_ctransid\<rparr>)))))"

definition Unlink_parse :: "nom_streaming \<Rightarrow> bytes \<Rightarrow> (bytes, Unlink) iresult" where
  "Unlink_parse N input = ibind (parse_tlv N Path_tlv input) (\<lambda>input path. IOk input \<lparr>unlink_path = path\<rparr>)"

definition UpdateExtent_parse :: "nom_streaming \<Rightarrow> bytes \<Rightarrow> (bytes, UpdateExtent) iresult" where
  "UpdateExtent_parse N input =
     ibind (parse_tlv N Path_tlv input) (\<lambda>input path.
     ibind (parse_tlv N FileOffset_tlv input) (\<lambda>input offset.
     ibind (parse_tlv N u64_tlv input) (\<lambda>input len.
     IOk input \<lparr>update_extent_path = path, update_extent_offset = offset, update_extent_len = len\<rparr>)))"

definition Utimes_parse :: "nom_streaming \<Rightarrow> bytes \<Rightarrow> (bytes, Utimes) iresult" where
  "Utimes_parse N input =
     ibind (parse_tlv N Path_tlv input) (\<lambda>input path.
     ibind (parse_tlv N Atime_tlv input) (\<lambda>input atime.
     ibind (parse_tlv N Mtime_tlv input) (\<lambda>input mtime.
     ibind (parse_tlv N Ctime_tlv input) (\<lambda>input ctime.
     IOk input \<lparr>utimes_path = path, utimes_atime = atime, utimes_mtime = mtime, utimes_ctime = ctime\<rparr>))))"

definition Write_parse :: "nom_streaming \<Rightarrow> bytes \<Rightarrow> (bytes, Write) iresult" where
  "Write_parse N input =
     ibind (parse_tlv N Path_tlv input) (\<lambda>input path.
     ibind (parse_tlv N FileOffset_tlv input) (\<lambda>input offset.
     ibind (parse_tlv N Data_tlv input) (\<lambda>input data.
     IOk input \<lparr>write_path = path, write_offset_field = offset, write_data_field = data\<rparr>)))"

text \<open>\<open>expect\<close> on the result of a command's parser, with \<open>into\<close>.\<close>

definition expect_into :: "('i, 'a) iresult \<Rightarrow> ('a \<Rightarrow> 'b) \<Rightarrow> ('i, 'b) iresult" where
  "expect_into r f = (case r of IOk i x \<Rightarrow> IOk i (f x) | _ \<Rightarrow> IPanic)"

text \<open>The macro \<open>parse_subtypes\<close>; the \<open>unreachable!\<close> arm is reached by types without a parser.\<close>

fun parse_subtypes :: "nom_streaming \<Rightarrow> CommandType \<Rightarrow> bytes \<Rightarrow> (bytes, Command) iresult" where
  "parse_subtypes N Type_Chmod d = expect_into (Chmod_parse N d) Command_Chmod"
| "parse_subtypes N Type_Chown d = expect_into (Chown_parse N d) Command_Chown"
| "parse_subtypes N Type_Clone d = expect_into (Clone_parse N d) Command_Clone"
| "parse_subtypes N Type_Link d = expect_into (Link_parse N d) Command_Link"
| "parse_subtypes N Type_Mkdir d = expect_into (Mkdir_parse N d) Command_Mkdir"
| "parse_subtypes N Type_Mkfifo d = expect_into (Mkfifo_parse N d) Command_Mkfifo"
| "parse_subtypes N Type_Mkfile d = expect_into (Mkfile_parse N d) Command_Mkfile"
| "parse_subtypes N Type_Mknod d = expect_into (Mknod_parse N d) Command_Mknod"
| "parse_subtypes N Type_Mksock d = expect_into (Mksock_parse N d) Command_Mksock"
| "parse_subtypes N Type_RemoveXattr d = expect_into (RemoveXattr_parse N d) Command_RemoveXattr"
| "parse_subtypes N Type_Rename d = expect_into (Rename_parse N d) Command_Rename"
| "parse_subtypes N Type_Rmdir d = expect_into (Rmdir_parse N d) Command_Rmdir"
| "parse_subtypes N Type_SetXattr d = expect_into (SetXattr_parse N d) Command_SetXattr"
| "parse_subtypes N Type_Snapshot d = expect_into (Snapshot_parse N d) Command_Snapshot"
| "parse_subtypes N Type_Subvol d = expect_into (Subvol_parse N d) Command_Subvol"
| "parse_subtypes N Type_Symlink d = expect_into (Symlink_parse N d) Command_Symlink"
| "parse_subtypes N Type_Truncate d = expect_into (Truncate_parse N d) Command_Truncate"
| "parse_subtypes N Type_Unlink d = expect_into (Unlink_parse N d) Command_Unlink"
| "parse_subtypes N Type_UpdateExtent d = expect_into (UpdateExtent_parse N d) Command_UpdateExtent"
| "parse_subtypes N Type_Utimes d = expect_into (Utimes_parse N d) Command_Utimes"
| "parse_subtypes N Type_Write d = expect_into (Write_parse N d) Command_Write"
| "parse_subtypes N Type_End d = IOk d Command_End"
| "parse_subtypes N Unspecified d = IPanic"
| "parse_subtypes N (Unknown u) d = IPanic"

definition Command_parse :: "nom_streaming \<Rightarrow> bytes \<Rightarrow> (bytes, Command) iresult" where
  "Command_parse N input =
     ibind (CommandHeader_parse N input) (\<lambda>input hdr.
     ibind (nm_take N (ch_len hdr) input) (\<lambda>input cmd_data.
     ibind (parse_subtypes N (ch_ty hdr) cmd_data) (\<lambda>cmd_remaining cmd.
     if cmd_remaining = [] then IOk input cmd else IPanic)))"

end
