(* ===== verification/Blocking.thy ===== *)
theory Blocking
  imports Prelude
begin

text \<open>
  The blocking primitives of \<open>mp/sync\<close>: the life-cycle state shared by the read-once
  buffer cache and the two element queues (\<open>blocking_sync_primitive.rs\<close>), with the
  interface \<open>BlockingSyncPrimitive\<close> as a locale.

  An operation on a primitive takes the shared state and returns a result together with
  the state it leaves behind, also when the result is an error: the state is shared with
  other threads, so what was written before a failure stays written. Waiting on a
  condition variable is the result \<open>Inl Blocked\<close> with the state unchanged.
\<close>

datatype PrimitiveState = Running | Aborted | Done

text \<open>The transition made by every \<open>halt\<close>: aborting is always allowed, finishing is not
  allowed after an abort.\<close>

definition halt_state :: "PrimitiveState \<Rightarrow> bool \<Rightarrow> PrimitiveState result" where
  "halt_state s unplanned =
     ensure (\<not> (s = Aborted \<and> \<not> unplanned)) (Mp HaltAfterAbort)
       (Inr (if unplanned then Aborted else Done))"

lemma halt_state_simps [simp]:
  "halt_state s True = Inr Aborted"
  "s \<noteq> Aborted \<Longrightarrow> halt_state s False = Inr Done"
  "halt_state Aborted False = Inl (Bail (Mp HaltAfterAbort))"
  by (simp_all add: halt_state_def)

text \<open>
  \<open>BlockingSyncPrimitive\<close>: a primitive has a life-cycle state, and \<open>halt\<close> moves only
  that state, along \<open>halt_state\<close>.
\<close>

locale blocking_sync_primitive =
  fixes halt :: "'q \<Rightarrow> bool \<Rightarrow> unit result \<times> 'q"
    and state_of :: "'q \<Rightarrow> PrimitiveState"
  assumes halt_ok: "halt_state (state_of q) u = Inr s \<Longrightarrow>
      fst (halt q u) = Inr () \<and> state_of (snd (halt q u)) = s"
    and halt_refused: "halt_state (state_of q) u = Inl e \<Longrightarrow> halt q u = (Inl e, q)"
begin

lemma halt_unplanned: "fst (halt q True) = Inr () \<and> state_of (snd (halt q True)) = Aborted"
  using halt_ok [of q True Aborted] by simp

lemma halt_planned:
  "state_of q \<noteq> Aborted \<Longrightarrow> fst (halt q False) = Inr () \<and> state_of (snd (halt q False)) = Done"
  using halt_ok [of q False Done] by simp

lemma abort_is_final: "state_of q = Aborted \<Longrightarrow> state_of (snd (halt q u)) = Aborted"
  using halt_unplanned [of q] halt_refused [of q False] by (cases u) auto

lemma halt_stops: "state_of (snd (halt q u)) \<noteq> Running"
proof (cases "halt_state (state_of q) u")
  case (Inl e)
  then have "state_of q = Aborted"
    by (auto simp: halt_state_def ensure_def split: if_splits)
  with abort_is_final show ?thesis by simp
next
  case (Inr s)
  with halt_ok show ?thesis
    by (auto simp: halt_state_def ensure_def split: if_splits)
qed

end

end
