(* ===== verification/Read_Once_Cache.thy ===== *)
theory Read_Once_Cache
  imports Blocking
begin

text \<open>
  \<open>mp/sync/read_buffer.rs\<close> and \<open>mp/sync/read_once_buffer_cache.rs\<close>: the cache through
  which the reader and the command construction threads see the input stream while one
  prefetcher fills it. The two hash maps are association lists with distinct keys; the
  reader-writer lock and the mutex delimit atomic sections, and each operation below is
  the sequence of its sections.
\<close>

section \<open>Read buffers\<close>

record ReadBuffer =
  rb_buffer :: bytes
  rb_key :: nat
  rb_start_offset :: nat

definition ReadBuffer_new :: "nat \<Rightarrow> nat \<Rightarrow> nat \<Rightarrow> ReadBuffer" where
  "ReadBuffer_new key start_offset initial_size =
     \<lparr>rb_buffer = zeros initial_size, rb_key = key, rb_start_offset = start_offset\<rparr>"

text \<open>\<open>ReadBuffer_read rb offset want\<close> gives the bytes copied into the remaining
  \<open>want\<close> bytes of the caller's slice.\<close>

definition ReadBuffer_read :: "ReadBuffer \<Rightarrow> nat \<Rightarrow> nat \<Rightarrow> bytes result" where
  "ReadBuffer_read rb offset want =
     ensure (rb_start_offset rb \<le> offset) (Mp OffsetBeforeBuffer)
       (let buffer_offset = offset - rb_start_offset rb
        in rbind (usub (length (rb_buffer rb)) buffer_offset) (\<lambda>avail.
           Inr (take (min avail want) (drop buffer_offset (rb_buffer rb)))))"

section \<open>The cache\<close>

record ReadOnceBufferCache =
  robci_buffers :: "(nat \<times> ReadBuffer) list"
  robcm_bytes_remaining :: "(nat \<times> nat) list"
  robcm_next_key_to_fetch :: nat
  robcm_state :: PrimitiveState
  robc_buffer_size :: nat
  robc_cache_start_address :: nat
  robc_maximum_buffers_to_cache :: nat

definition ReadOnceBufferCache_new :: "nat \<Rightarrow> nat \<Rightarrow> nat \<Rightarrow> ReadOnceBufferCache result" where
  "ReadOnceBufferCache_new buffer_size cache_start_address max_buffers_to_cache =
     (if buffer_size = 0 then Inl (Panic DivisionByZero)
      else Inr \<lparr>robci_buffers = [], robcm_bytes_remaining = [],
        robcm_next_key_to_fetch = cache_start_address div buffer_size, robcm_state = Running,
        robc_buffer_size = buffer_size, robc_cache_start_address = cache_start_address,
        robc_maximum_buffers_to_cache = max_buffers_to_cache\<rparr>)"

text \<open>The predicate a reader waits on.\<close>

definition reader_waits :: "ReadOnceBufferCache \<Rightarrow> nat \<Rightarrow> bool" where
  "reader_waits c key \<longleftrightarrow> robcm_state c = Running \<and>
     (case map_of (robcm_bytes_remaining c) key of None \<Rightarrow> True | Some n \<Rightarrow> n = 0)"

definition read_buffer_from_cache ::
  "ReadOnceBufferCache \<Rightarrow> nat \<Rightarrow> nat \<Rightarrow> nat \<Rightarrow> bytes result" where
  "read_buffer_from_cache c key offset want =
     (if reader_waits c key then Inl Blocked
      else ensure (robcm_state c \<noteq> Aborted) (Mp CacheAborted)
        (rbind (of_option (Mp NoBuffer) (map_of (robci_buffers c) key)) (\<lambda>buffer.
         ReadBuffer_read buffer offset want)))"

definition put_buffer ::
  "ReadOnceBufferCache \<Rightarrow> ReadBuffer \<Rightarrow> unit result \<times> ReadOnceBufferCache" where
  "put_buffer c buffer =
     (let key = rb_key buffer; size = length (rb_buffer buffer);
          old_entry = map_of (robci_buffers c) key;
          c1 = (if size \<noteq> 0 then c\<lparr>robci_buffers := AList.update key buffer (robci_buffers c)\<rparr> else c)
      in if size \<noteq> 0 \<and> old_entry \<noteq> None then (Inl (Bail (Mp DuplicateBuffer)), c1)
         else case robcm_state c1 of
           Aborted \<Rightarrow> (Inl (Bail (Mp CacheAborted)), c1)
         | Done \<Rightarrow> (Inl (Bail (Mp CacheDone)), c1)
         | Running \<Rightarrow>
             if size = 0 then
               (Inr (), c1\<lparr>robcm_bytes_remaining := AList.delete key (robcm_bytes_remaining c1),
                           robcm_state := Done\<rparr>)
             else
               (Inr (), c1\<lparr>robcm_bytes_remaining :=
                             AList.update key size (robcm_bytes_remaining c1)\<rparr>))"

text \<open>The predicate the prefetcher waits on.\<close>

definition prefetcher_waits :: "ReadOnceBufferCache \<Rightarrow> bool" where
  "prefetcher_waits c \<longleftrightarrow>
     length (robcm_bytes_remaining c) = robc_maximum_buffers_to_cache c \<and> robcm_state c = Running"

definition get_buffer_to_fill ::
  "ReadOnceBufferCache \<Rightarrow> ReadBuffer option result \<times> ReadOnceBufferCache" where
  "get_buffer_to_fill c =
     (if prefetcher_waits c then (Inl Blocked, c)
      else case robcm_state c of
        Aborted \<Rightarrow> (Inl (Bail (Mp CacheAborted)), c)
      | Done \<Rightarrow> (Inr None, c)
      | Running \<Rightarrow>
          let key = robcm_next_key_to_fetch c;
              c1 = c\<lparr>robcm_next_key_to_fetch := key + 1\<rparr>;
              offset = (if key = robc_cache_start_address c div robc_buffer_size c
                        then robc_cache_start_address c mod robc_buffer_size c else 0)
          in (Inr (Some (ReadBuffer_new key offset (robc_buffer_size c - offset))), c1))"

definition update_bytes_read ::
  "ReadOnceBufferCache \<Rightarrow> nat \<Rightarrow> nat \<Rightarrow> unit result \<times> ReadOnceBufferCache" where
  "update_bytes_read c key bytes_read =
     (if robcm_state c = Aborted then (Inl (Bail (Mp CacheAborted)), c)
      else case map_of (robcm_bytes_remaining c) key of
        None \<Rightarrow> (Inl (Bail (Mp NoBuffer)), c)
      | Some current_bytes \<Rightarrow>
          if current_bytes < bytes_read then (Inl (Bail (Mp BytesUnderflow)), c)
          else let new_value = current_bytes - bytes_read
               in if new_value = 0 then
                    (Inr (), c\<lparr>robcm_bytes_remaining := AList.delete key (robcm_bytes_remaining c),
                               robci_buffers := AList.delete key (robci_buffers c)\<rparr>)
                  else
                    (Inr (), c\<lparr>robcm_bytes_remaining :=
                                 AList.update key new_value (robcm_bytes_remaining c)\<rparr>))"

text \<open>One turn of the loop of \<open>read_exact\<close>: copy what the buffer at \<open>address\<close> holds, at
  most \<open>want\<close> bytes, and account for them.\<close>

definition read_exact_turn ::
  "ReadOnceBufferCache \<Rightarrow> nat \<Rightarrow> nat \<Rightarrow> bytes result \<times> ReadOnceBufferCache" where
  "read_exact_turn c address want =
     (if robc_buffer_size c = 0 then (Inl (Panic DivisionByZero), c)
      else let key = address div robc_buffer_size c; offset = address mod robc_buffer_size c
      in case read_buffer_from_cache c key offset want of
           Inl e \<Rightarrow> (Inl e, c)
         | Inr bs \<Rightarrow>
             if bs = [] then (Inl (Bail (Mp NoBytesRead)), c)
             else case update_bytes_read c key (length bs) of
                 (Inl e, c1) \<Rightarrow> (Inl e, c1)
               | (Inr _, c1) \<Rightarrow> (Inr bs, c1))"

lemma read_exact_turn_length:
  assumes "read_exact_turn c address want = (Inr bs, c')"
  shows "0 < length bs \<and> length bs \<le> want"
  using assms
  by (auto simp: read_exact_turn_def read_buffer_from_cache_def ReadBuffer_read_def Let_def
      result_simps split: if_splits sum.splits prod.splits)

text \<open>\<open>ReadOnceBufferCache_read_exact c n start_offset\<close> fills a slice of \<open>n\<close> bytes.\<close>

function ReadOnceBufferCache_read_exact ::
  "ReadOnceBufferCache \<Rightarrow> nat \<Rightarrow> nat \<Rightarrow> bytes result \<times> ReadOnceBufferCache" where
  "ReadOnceBufferCache_read_exact c n address =
     (if n = 0 then (Inr [], c)
      else case read_exact_turn c address n of
          (Inl e, c1) \<Rightarrow> (Inl e, c1)
        | (Inr bs, c1) \<Rightarrow>
            (case ReadOnceBufferCache_read_exact c1 (n - length bs) (address + length bs) of
               (Inl e, c2) \<Rightarrow> (Inl e, c2)
             | (Inr rest, c2) \<Rightarrow> (Inr (bs @ rest), c2)))"
  by pat_completeness auto
termination
proof (relation "measure (\<lambda>(c, n, address). n)", goal_cases)
  case 1
  then show ?case by simp
next
  case (2 c n address x y bs)
  then have "read_exact_turn c address n = (Inr bs, y)" by simp
  with 2(1) show ?case by (auto dest: read_exact_turn_length)
qed

declare ReadOnceBufferCache_read_exact.simps [simp del]

definition ReadOnceBufferCache_halt ::
  "ReadOnceBufferCache \<Rightarrow> bool \<Rightarrow> unit result \<times> ReadOnceBufferCache" where
  "ReadOnceBufferCache_halt c unplanned =
     (case halt_state (robcm_state c) unplanned of
        Inl e \<Rightarrow> (Inl e, c)
      | Inr s \<Rightarrow> (Inr (), c\<lparr>robcm_state := s\<rparr>))"

interpretation robc: blocking_sync_primitive ReadOnceBufferCache_halt robcm_state
  by unfold_locales (simp_all add: ReadOnceBufferCache_halt_def)

end
