(* ===== verification/Context.thy ===== *)
theory Context
  imports Read_Once_Cache
begin

text \<open>
  The IO context of the upgrade tool: \<open>send_version.rs\<close>,
  \<open>send_stream_upgrade_options.rs\<close>, \<open>send_stream_upgrade_source.rs\<close>,
  \<open>send_stream_upgrade_destination.rs\<close> and \<open>send_stream_upgrade_context.rs\<close>.

  The process environment is data: a reader is the script of what its \<open>read\<close> calls will
  return (short reads, end of file and IO errors included), a writer is the file written
  so far and the space left on the device. A child context made by
  \<open>clone_with_new_buffers\<close> owns the slice it was given; its creator reads the slice back
  with \<open>dest_slice\<close> when the child is returned, as the borrow does in the source.
\<close>

section \<open>Versions\<close>

datatype SendVersion = SendVersion1 | SendVersion2

instantiation SendVersion :: linorder
begin

fun less_eq_SendVersion :: "SendVersion \<Rightarrow> SendVersion \<Rightarrow> bool" where
  "less_eq_SendVersion SendVersion2 SendVersion1 = False"
| "less_eq_SendVersion _ _ = True"

definition less_SendVersion :: "SendVersion \<Rightarrow> SendVersion \<Rightarrow> bool" where
  "less_SendVersion a b \<longleftrightarrow> a = SendVersion1 \<and> b = SendVersion2"

instance
proof
  fix x y z :: SendVersion
  show "(x < y) = (x \<le> y \<and> \<not> y \<le> x)"
    by (cases x; cases y) (simp_all add: less_SendVersion_def)
  show "x \<le> x" by (cases x) simp_all
  show "x \<le> z" if "x \<le> y" "y \<le> z" using that by (cases x; cases y; cases z) simp_all
  show "x = y" if "x \<le> y" "y \<le> x" using that by (cases x; cases y) simp_all
  show "x \<le> y \<or> y \<le> x" by (cases x; cases y) simp_all
qed

end

lemma SendVersion_order [simp]:
  "SendVersion1 \<le> v" "v \<le> SendVersion2" "SendVersion2 \<le> v \<longleftrightarrow> v = SendVersion2"
  "SendVersion1 < SendVersion2" "\<not> v < SendVersion1" "\<not> SendVersion2 < v"
  by (cases v; simp add: less_SendVersion_def)+

definition version_to_value :: "SendVersion \<Rightarrow> u32" where
  "version_to_value v = (case v of SendVersion1 \<Rightarrow> 1 | SendVersion2 \<Rightarrow> 2)"

definition value_to_version :: "u32 \<Rightarrow> SendVersion result" where
  "value_to_version value =
     (if value = version_to_value SendVersion1 then Inr SendVersion1
      else if value = version_to_value SendVersion2 then Inr SendVersion2
      else Inl (Bail (Io InvalidVersion)))"

section \<open>Options\<close>

record SendStreamUpgradeOptions =
  avoid_crcing_input :: bool
  bytes_to_log :: nat
  compression_level :: int
  extra_buffer_cache_backlog :: nat
  opt_input :: "string option"
  maximum_batched_extent_size :: nat
  opt_output :: "string option"
  pad_with_dummy_commands :: bool
  opt_quiet :: bool
  read_buffer_size :: nat
  serde_checks :: bool
  thread_count :: nat
  opt_verbose :: nat
  write_buffer_size :: nat

definition SendStreamUpgradeOptions_default :: SendStreamUpgradeOptions where
  "SendStreamUpgradeOptions_default =
     \<lparr>avoid_crcing_input = False, bytes_to_log = 0, compression_level = 3,
      extra_buffer_cache_backlog = 1073741824, opt_input = None,
      maximum_batched_extent_size = 131072, opt_output = None,
      pad_with_dummy_commands = False, opt_quiet = False, read_buffer_size = 1048576,
      serde_checks = False, thread_count = 0, opt_verbose = 0, write_buffer_size = 8192\<rparr>"

section \<open>Readers and writers\<close>

datatype chunk = Chunk bytes | ReadFails

type_synonym reader = "chunk list"

text \<open>One call of \<open>Read::read\<close> with room for \<open>n\<close> bytes.\<close>

fun reader_read :: "reader \<Rightarrow> nat \<Rightarrow> (bytes \<times> reader) result" where
  "reader_read [] n = Inr ([], [])"
| "reader_read (ReadFails # r) n = Inl (Bail (Io IoError))"
| "reader_read (Chunk bs # r) n =
     Inr (take n bs, if length bs \<le> n then r else Chunk (drop n bs) # r)"

lemma reader_read_length: "reader_read r n = Inr (bs, r') \<Longrightarrow> length bs \<le> n"
  by (induction r n rule: reader_read.induct) auto

text \<open>The loop around it in \<open>SendStreamUpgradeSource::read\<close>: until the buffer is full or a
  read gives nothing.\<close>

function read_loop :: "reader \<Rightarrow> nat \<Rightarrow> (bytes \<times> reader) result" where
  "read_loop r n =
     (if n = 0 then Inr ([], r)
      else rbind (reader_read r n) (\<lambda>(bs, r1).
        if bs = [] then Inr ([], r1)
        else rbind (read_loop r1 (n - length bs)) (\<lambda>(rest, r2). Inr (bs @ rest, r2))))"
  by pat_completeness auto
termination
  by (relation "measure (\<lambda>(r, n). n)") (auto dest: reader_read_length)

declare read_loop.simps [simp del]

text \<open>
  \<open>BufWriter\<close> over a file: \<open>bw_buffer\<close> holds at most \<open>bw_capacity\<close> bytes that have not
  reached \<open>bw_file\<close> yet; \<open>bw_space\<close> is the space left on the device, if it is limited.
\<close>

record BufWriter =
  bw_capacity :: nat
  bw_buffer :: bytes
  bw_file :: bytes
  bw_space :: "nat option"

definition file_write_all :: "BufWriter \<Rightarrow> bytes \<Rightarrow> BufWriter result" where
  "file_write_all w bs =
     (case bw_space w of
        None \<Rightarrow> Inr (w\<lparr>bw_file := bw_file w @ bs\<rparr>)
      | Some n \<Rightarrow>
          if length bs \<le> n then Inr (w\<lparr>bw_file := bw_file w @ bs, bw_space := Some (n - length bs)\<rparr>)
          else Inl (Bail (Io IoError)))"

definition BufWriter_flush :: "BufWriter \<Rightarrow> BufWriter result" where
  "BufWriter_flush w =
     rbind (file_write_all w (bw_buffer w)) (\<lambda>w1. Inr (w1\<lparr>bw_buffer := []\<rparr>))"

definition BufWriter_write_all :: "BufWriter \<Rightarrow> bytes \<Rightarrow> BufWriter result" where
  "BufWriter_write_all w bs =
     rbind (if bw_capacity w < length (bw_buffer w) + length bs then BufWriter_flush w else Inr w)
       (\<lambda>w1. if bw_capacity w1 \<le> length bs then file_write_all w1 bs
             else Inr (w1\<lparr>bw_buffer := bw_buffer w1 @ bs\<rparr>))"

section \<open>Sources\<close>

datatype SendStreamSource =
    SssBufReader reader
  | SssReader reader
  | SssSliceReader bytes
  | SssReadOnceBufferCache ReadOnceBufferCache
  | SssNoSource

record SendStreamUpgradeSource =
  ssus_source :: SendStreamSource
  ssus_offset :: nat
  ssus_version :: "SendVersion option"

text \<open>\<open>opened\<close> is what opening the input file gives: the script of a reader positioned at
  \<open>offset\<close>, or the error.\<close>

definition Source_new_from_file ::
  "reader result \<Rightarrow> string option \<Rightarrow> bool \<Rightarrow> nat \<Rightarrow> SendVersion option \<Rightarrow> SendStreamUpgradeSource result"
where
  "Source_new_from_file opened input skip_buffering_for_stdin offset version =
     rbind opened (\<lambda>input_file.
       let skip_buffering = (case input of None \<Rightarrow> skip_buffering_for_stdin | Some _ \<Rightarrow> False)
       in Inr \<lparr>ssus_source = (if skip_buffering then SssReader input_file else SssBufReader input_file),
               ssus_offset = offset, ssus_version = version\<rparr>)"

definition Source_new_from_slice ::
  "bytes option \<Rightarrow> nat \<Rightarrow> SendVersion option \<Rightarrow> SendStreamUpgradeSource" where
  "Source_new_from_slice sl offset version =
     \<lparr>ssus_source = (case sl of Some s \<Rightarrow> SssSliceReader s | None \<Rightarrow> SssNoSource),
      ssus_offset = offset, ssus_version = version\<rparr>"

definition Source_new_from_buffer_cache ::
  "ReadOnceBufferCache \<Rightarrow> nat \<Rightarrow> SendVersion option \<Rightarrow> SendStreamUpgradeSource" where
  "Source_new_from_buffer_cache buffer_cache offset version =
     \<lparr>ssus_source = SssReadOnceBufferCache buffer_cache, ssus_offset = offset, ssus_version = version\<rparr>"

text \<open>\<open>Source_read s n\<close>: the bytes put at the front of a buffer of \<open>n\<close> bytes.\<close>

definition Source_read ::
  "SendStreamUpgradeSource \<Rightarrow> nat \<Rightarrow> (bytes \<times> SendStreamUpgradeSource) result" where
  "Source_read s n =
     rbind
       (case ssus_source s of
          SssBufReader r \<Rightarrow> rbind (read_loop r n) (\<lambda>(bs, r1). Inr (bs, SssBufReader r1))
        | SssReader r \<Rightarrow> rbind (read_loop r n) (\<lambda>(bs, r1). Inr (bs, SssReader r1))
        | SssSliceReader sl \<Rightarrow>
            rbind (slice_range sl (ssus_offset s) (ssus_offset s + n)) (\<lambda>bs.
            Inr (bs, SssSliceReader sl))
        | SssReadOnceBufferCache buffer_cache \<Rightarrow>
            (case ReadOnceBufferCache_read_exact buffer_cache n (ssus_offset s) of
               (Inl e, _) \<Rightarrow> Inl e
             | (Inr bs, c1) \<Rightarrow> Inr (bs, SssReadOnceBufferCache c1))
        | SssNoSource \<Rightarrow> Inl (Bail (Io ReadingFromNoSource)))
       (\<lambda>(bs, src). Inr (bs, s\<lparr>ssus_source := src, ssus_offset := ssus_offset s + length bs\<rparr>))"

definition Source_is_external :: "SendStreamUpgradeSource \<Rightarrow> bool" where
  "Source_is_external s =
     (case ssus_source s of SssBufReader _ \<Rightarrow> True | SssReader _ \<Rightarrow> True | _ \<Rightarrow> False)"

definition Source_get_length :: "SendStreamUpgradeSource \<Rightarrow> nat result" where
  "Source_get_length s =
     (case ssus_source s of SssSliceReader sl \<Rightarrow> Inr (length sl)
      | _ \<Rightarrow> Inl (Bail (Io NoSourceLength)))"

definition Source_get_version :: "SendStreamUpgradeSource \<Rightarrow> SendVersion result" where
  "Source_get_version s = of_option (Io SourceVersionNotSet) (ssus_version s)"

definition Source_adjust_offset :: "SendStreamUpgradeSource \<Rightarrow> nat \<Rightarrow> SendStreamUpgradeSource result" where
  "Source_adjust_offset s increment =
     (case ssus_source s of
        SssReadOnceBufferCache _ \<Rightarrow> Inr (s\<lparr>ssus_offset := ssus_offset s + increment\<rparr>)
      | _ \<Rightarrow> Inl (Bail (Io CannotAdjustOffset)))"

definition Source_set_offset :: "SendStreamUpgradeSource \<Rightarrow> nat \<Rightarrow> SendStreamUpgradeSource result" where
  "Source_set_offset s offset =
     (case ssus_source s of
        SssReadOnceBufferCache _ \<Rightarrow> Inr (s\<lparr>ssus_offset := offset\<rparr>)
      | _ \<Rightarrow> Inl (Bail (Io CannotSetOffset)))"

section \<open>Destinations\<close>

datatype SendStreamDestination =
    SsdBufWriter BufWriter
  | SsdSliceWriter bytes
  | SsdNoDestination

record SendStreamUpgradeDestination =
  ssud_destination :: SendStreamDestination
  ssud_offset :: nat
  ssud_version :: "SendVersion option"

text \<open>\<open>opened\<close> is what opening the output gives: the file contents before \<open>offset\<close> and
  the space on the device, or the error.\<close>

definition Destination_new_from_file ::
  "(bytes \<times> nat option) result \<Rightarrow> nat \<Rightarrow> nat \<Rightarrow> SendVersion option \<Rightarrow> SendStreamUpgradeDestination result"
where
  "Destination_new_from_file opened write_buffer_size' offset version =
     rbind opened (\<lambda>(file, space).
       Inr \<lparr>ssud_destination = SsdBufWriter
              \<lparr>bw_capacity = write_buffer_size', bw_buffer = [], bw_file = file, bw_space = space\<rparr>,
            ssud_offset = offset, ssud_version = version\<rparr>)"

definition Destination_new_from_slice ::
  "bytes option \<Rightarrow> nat \<Rightarrow> SendVersion option \<Rightarrow> SendStreamUpgradeDestination" where
  "Destination_new_from_slice sl offset version =
     \<lparr>ssud_destination = (case sl of Some s \<Rightarrow> SsdSliceWriter s | None \<Rightarrow> SsdNoDestination),
      ssud_offset = offset, ssud_version = version\<rparr>"

definition Destination_new_from_none :: "SendVersion option \<Rightarrow> SendStreamUpgradeDestination" where
  "Destination_new_from_none version =
     \<lparr>ssud_destination = SsdNoDestination, ssud_offset = 0, ssud_version = version\<rparr>"

definition Destination_write_all ::
  "SendStreamUpgradeDestination \<Rightarrow> bytes \<Rightarrow> SendStreamUpgradeDestination result" where
  "Destination_write_all d buffer =
     rbind
       (case ssud_destination d of
          SsdBufWriter w \<Rightarrow> rbind (BufWriter_write_all w buffer) (\<lambda>w1. Inr (SsdBufWriter w1))
        | SsdSliceWriter sl \<Rightarrow>
            if ssud_offset d + length buffer \<le> length sl
            then Inr (SsdSliceWriter (splice sl (ssud_offset d) buffer))
            else Inl (Panic SliceIndexOutOfRange)
        | SsdNoDestination \<Rightarrow> Inl (Bail (Io WritingToNoDestination)))
       (\<lambda>dst. Inr (d\<lparr>ssud_destination := dst, ssud_offset := ssud_offset d + length buffer\<rparr>))"

definition Destination_get_length :: "SendStreamUpgradeDestination \<Rightarrow> nat result" where
  "Destination_get_length d =
     (case ssud_destination d of SsdSliceWriter sl \<Rightarrow> Inr (length sl)
      | _ \<Rightarrow> Inl (Bail (Io NoDestinationLength)))"

definition Destination_get_version :: "SendStreamUpgradeDestination \<Rightarrow> SendVersion result" where
  "Destination_get_version d = of_option (Io DestinationVersionNotSet) (ssud_version d)"

definition Destination_flush :: "SendStreamUpgradeDestination \<Rightarrow> SendStreamUpgradeDestination result" where
  "Destination_flush d =
     (case ssud_destination d of
        SsdBufWriter w \<Rightarrow> rbind (BufWriter_flush w) (\<lambda>w1. Inr (d\<lparr>ssud_destination := SsdBufWriter w1\<rparr>))
      | _ \<Rightarrow> Inl (Bail (Io CannotFlushDestination)))"

section \<open>Contexts\<close>

record SendStreamUpgradeContext =
  ssuc_options :: SendStreamUpgradeOptions
  ssuc_source :: SendStreamUpgradeSource
  ssuc_destination :: SendStreamUpgradeDestination
  ssuc_associated_with_parent :: bool

type_synonym ctx = SendStreamUpgradeContext

definition Context_new ::
  "SendStreamUpgradeOptions \<Rightarrow> reader result \<Rightarrow> (bytes \<times> nat option) result \<Rightarrow> ctx result" where
  "Context_new options opened_input opened_output =
     rbind (Source_new_from_file opened_input (opt_input options) (thread_count options \<noteq> 1) 0 None)
       (\<lambda>source.
     rbind (Destination_new_from_file opened_output (write_buffer_size options) 0 None)
       (\<lambda>destination.
     Inr \<lparr>ssuc_options = options, ssuc_source = source, ssuc_destination = destination,
          ssuc_associated_with_parent = False\<rparr>))"

definition clone_with_new_buffers ::
  "ctx \<Rightarrow> bytes option \<Rightarrow> bytes option \<Rightarrow> SendVersion \<Rightarrow> SendVersion \<Rightarrow> ctx" where
  "clone_with_new_buffers c read write source_version destination_version =
     \<lparr>ssuc_options = ssuc_options c,
      ssuc_source = Source_new_from_slice read 0 (Some source_version),
      ssuc_destination = Destination_new_from_slice write 0 (Some destination_version),
      ssuc_associated_with_parent = True\<rparr>"

definition dest_slice :: "ctx \<Rightarrow> bytes" where
  "dest_slice c =
     (case ssud_destination (ssuc_destination c) of SsdSliceWriter s \<Rightarrow> s | _ \<Rightarrow> [])"

definition Context_read :: "ctx \<Rightarrow> nat \<Rightarrow> (bytes \<times> ctx) result" where
  "Context_read c n =
     rbind (Source_read (ssuc_source c) n) (\<lambda>(bs, s). Inr (bs, c\<lparr>ssuc_source := s\<rparr>))"

definition read_exact :: "ctx \<Rightarrow> nat \<Rightarrow> (bytes \<times> ctx) result" where
  "read_exact c n =
     rbind (Context_read c n) (\<lambda>(bs, c1). ensure (n = length bs) (Io ShortRead) (Inr (bs, c1)))"

definition read16 :: "ctx \<Rightarrow> (u16 \<times> ctx) result" where
  "read16 c = rbind (read_exact c 2) (\<lambda>(bs, c1). Inr (from_le bs, c1))"

definition read32 :: "ctx \<Rightarrow> (u32 \<times> ctx) result" where
  "read32 c = rbind (read_exact c 4) (\<lambda>(bs, c1). Inr (from_le bs, c1))"

definition get_read_offset :: "ctx \<Rightarrow> nat" where
  "get_read_offset c = ssus_offset (ssuc_source c)"

definition adjust_read_offset :: "ctx \<Rightarrow> nat \<Rightarrow> ctx result" where
  "adjust_read_offset c increment =
     rbind (Source_adjust_offset (ssuc_source c) increment) (\<lambda>s. Inr (c\<lparr>ssuc_source := s\<rparr>))"

definition set_read_offset :: "ctx \<Rightarrow> nat \<Rightarrow> ctx result" where
  "set_read_offset c new_offset =
     rbind (Source_set_offset (ssuc_source c) new_offset) (\<lambda>s. Inr (c\<lparr>ssuc_source := s\<rparr>))"

definition get_read_len :: "ctx \<Rightarrow> nat result" where
  "get_read_len c = Source_get_length (ssuc_source c)"

definition write_all :: "ctx \<Rightarrow> bytes \<Rightarrow> nat \<Rightarrow> ctx result" where
  "write_all c buffer uncompressed_bytes =
     rbind (Destination_write_all (ssuc_destination c) buffer) (\<lambda>d.
     if \<not> ssuc_associated_with_parent c \<and> length buffer \<noteq> uncompressed_bytes
     then ensure (length buffer < uncompressed_bytes) (Io WroteMoreThanUncompressed)
            (Inr (c\<lparr>ssuc_destination := d\<rparr>))
     else Inr (c\<lparr>ssuc_destination := d\<rparr>))"

definition write16 :: "ctx \<Rightarrow> u16 \<Rightarrow> ctx result" where
  "write16 c value = write_all c (le16 value) 2"

definition write32 :: "ctx \<Rightarrow> u32 \<Rightarrow> ctx result" where
  "write32 c value = write_all c (le32 value) 4"

definition write64 :: "ctx \<Rightarrow> u64 \<Rightarrow> ctx result" where
  "write64 c value = write_all c (le64 value) 8"

definition get_write_offset :: "ctx \<Rightarrow> nat" where
  "get_write_offset c = ssud_offset (ssuc_destination c)"

definition get_write_len :: "ctx \<Rightarrow> nat result" where
  "get_write_len c = Destination_get_length (ssuc_destination c)"

definition set_versions :: "ctx \<Rightarrow> SendVersion \<Rightarrow> SendVersion \<Rightarrow> ctx" where
  "set_versions c source_version destination_version =
     c\<lparr>ssuc_source := (ssuc_source c)\<lparr>ssus_version := Some source_version\<rparr>,
       ssuc_destination := (ssuc_destination c)\<lparr>ssud_version := Some destination_version\<rparr>\<rparr>"

definition get_source_version :: "ctx \<Rightarrow> SendVersion result" where
  "get_source_version c = Source_get_version (ssuc_source c)"

definition get_destination_version :: "ctx \<Rightarrow> SendVersion result" where
  "get_destination_version c = Destination_get_version (ssuc_destination c)"

definition Context_flush :: "ctx \<Rightarrow> ctx result" where
  "Context_flush c = rbind (Destination_flush (ssuc_destination c)) (\<lambda>d. Inr (c\<lparr>ssuc_destination := d\<rparr>))"

section \<open>Frame lemmas\<close>

lemma read_loop_length: "read_loop r n = Inr (bs, r') \<Longrightarrow> length bs \<le> n"
proof (induction r n arbitrary: bs r' rule: read_loop.induct)
  case (1 r n)
  show ?case
  proof (cases "n = 0")
    case True
    with "1.prems" show ?thesis by (simp add: read_loop.simps)
  next
    case False
    with "1.prems" obtain b1 r1 where b1: "reader_read r n = Inr (b1, r1)"
      by (auto simp: read_loop.simps [of r n] result_simps)
    show ?thesis
    proof (cases "b1 = []")
      case True
      with "1.prems" b1 False show ?thesis by (simp add: read_loop.simps [of r n])
    next
      case ne: False
      with "1.prems" b1 False obtain rest r2 where "read_loop r1 (n - length b1) = Inr (rest, r2)"
        and "bs = b1 @ rest"
        by (auto simp: read_loop.simps [of r n] result_simps)
      with "1.IH" [OF False b1 refl ne] reader_read_length [OF b1] show ?thesis by fastforce
    qed
  qed
qed

lemma read_exact_frame:
  assumes "read_exact c n = Inr (bs, c')"
  shows "length bs = n" "get_read_offset c' = get_read_offset c + n"
    "ssuc_options c' = ssuc_options c" "ssuc_destination c' = ssuc_destination c"
    "ssus_version (ssuc_source c') = ssus_version (ssuc_source c)"
    "ssuc_associated_with_parent c' = ssuc_associated_with_parent c"
  using assms
  by (auto simp: read_exact_def Context_read_def Source_read_def get_read_offset_def result_simps
      split: prod.splits)

lemma write_all_frame:
  assumes "write_all c bs n = Inr c'"
  shows "ssuc_source c' = ssuc_source c" "ssuc_options c' = ssuc_options c"
    "get_write_offset c' = get_write_offset c + length bs"
    "ssud_version (ssuc_destination c') = ssud_version (ssuc_destination c)"
    "ssuc_associated_with_parent c' = ssuc_associated_with_parent c"
  using assms
  by (auto simp: write_all_def Destination_write_all_def get_write_offset_def result_simps
      split: if_splits)

lemma read16_frame:
  assumes "read16 c = Inr (w, c')"
  shows "get_read_offset c' = get_read_offset c + 2"
  using assms by (auto simp: read16_def result_simps dest: read_exact_frame(2))

end
