(* ===== verification/Sendstream_Parse.thy ===== *)
theory Sendstream_Parse
  imports Sendstream_Wire Context
begin

text \<open>
  \<open>antlir2/sendstream_parser/src/wire/mod.rs\<close>: the parser of a source of bytes that holds any number
  of send streams. The source is the list of what its reads return, as in \<open>Context\<close>; when the list is
  used up, every further read is at the end of the input. The callback is a function on the caller's
  state. Neither loop has a bound of its own, so both may fail to return, which is \<open>None\<close>.
\<close>

definition MAGIC_HEADER :: bytes where
  "MAGIC_HEADER = [0x62, 0x74, 0x72, 0x66, 0x73, 0x2D, 0x73, 0x74, 0x72, 0x65, 0x61, 0x6D, 0]"

definition parse_header :: "nom_streaming \<Rightarrow> bytes \<Rightarrow> (bytes, u32) iresult" where
  "parse_header N input =
     ibind (nm_tag N MAGIC_HEADER input) (\<lambda>remainder _.
     ibind (nm_le_u32 N remainder) (\<lambda>remainder version. IOk remainder version))"

text \<open>One \<open>read_buf\<close>.\<close>

fun read_buf :: "reader \<Rightarrow> (bytes \<times> reader) option" where
  "read_buf [] = Some ([], [])"
| "read_buf (Chunk bs # r) = Some (bs, r)"
| "read_buf (ReadFails # r) = None"

text \<open>How the loop over the commands in the buffer ends, with the caller's state.\<close>

datatype 's command_loop =
    Loop_return nat 's
  | Loop_end bytes nat 's
  | Loop_more bytes nat 's
  | Loop_error Error 's
  | Loop_panic 's

partial_function (option) parse_commands ::
  "nom_streaming \<Rightarrow> ('s \<Rightarrow> Command \<Rightarrow> ParserControl \<times> 's) \<Rightarrow> nat \<Rightarrow> bytes \<Rightarrow> nat \<Rightarrow> 's \<Rightarrow> 's command_loop option"
where
  "parse_commands N f bytes_read unparsed command_count s =
     (case Command_parse N unparsed of
        IOk remainder command \<Rightarrow>
          (case f s command of
             (Enough, s) \<Rightarrow> Some (Loop_return (command_count + 1) s)
           | (KeepGoing, s) \<Rightarrow>
               if command = Command_End then Some (Loop_end remainder (command_count + 1) s)
               else parse_commands N f bytes_read remainder (command_count + 1) s)
      | IErr NomIncomplete \<Rightarrow>
          if bytes_read = 0 then Some (Loop_error (TrailingData unparsed) s)
          else Some (Loop_more unparsed command_count s)
      | IErr _ \<Rightarrow> Some (Loop_error Unparsable s)
      | IPanic \<Rightarrow> Some (Loop_panic s))"

datatype parse_outcome = Returned nat | Raised Error | Panicked

partial_function (option) parse_loop ::
  "nom_streaming \<Rightarrow> ('s \<Rightarrow> Command \<Rightarrow> ParserControl \<times> 's) \<Rightarrow> reader \<Rightarrow> bytes \<Rightarrow> u32 option \<Rightarrow> nat \<Rightarrow> 's \<Rightarrow>
   (parse_outcome \<times> 's) option"
where
  "parse_loop N f r unparsed header command_count s =
     (case read_buf r of
        None \<Rightarrow> Some (Raised IO, s)
      | Some (bs, r') \<Rightarrow>
          let unparsed = unparsed @ bs in
          if bs \<noteq> [] \<or> unparsed \<noteq> [] then
            if header \<noteq> None then
              Option.bind (parse_commands N f (length bs) unparsed command_count s) (\<lambda>res.
              case res of
                Loop_return command_count s \<Rightarrow> Some (Returned command_count, s)
              | Loop_end remainder command_count s \<Rightarrow> parse_loop N f r' remainder None command_count s
              | Loop_more unparsed command_count s \<Rightarrow> parse_loop N f r' unparsed header command_count s
              | Loop_error e s \<Rightarrow> Some (Raised e, s)
              | Loop_panic s \<Rightarrow> Some (Panicked, s))
            else
              (case parse_header N unparsed of
                 IOk remainder version \<Rightarrow> parse_loop N f r' remainder (Some version) command_count s
               | IErr NomIncomplete \<Rightarrow> parse_loop N f r' unparsed header command_count s
               | IErr _ \<Rightarrow> Some (Raised Unparsable, s)
               | IPanic \<Rightarrow> Some (Panicked, s))
          else if header \<noteq> None then Some (Raised Incomplete, s)
          else Some (Returned command_count, s))"

definition parse ::
  "nom_streaming \<Rightarrow> ('s \<Rightarrow> Command \<Rightarrow> ParserControl \<times> 's) \<Rightarrow> reader \<Rightarrow> 's \<Rightarrow> (parse_outcome \<times> 's) option" where
  "parse N f r s = parse_loop N f r [] None 0 s"

end
