(* ===== verification/Command_Header.thy ===== *)
theory Command_Header
  imports Context
begin

text \<open>
  \<open>send_elements/send_header.rs\<close> (the stream header) and
  \<open>send_elements/send_command_header.rs\<close> (the header of every command).
\<close>

section \<open>The stream header\<close>

text \<open>\<open>"btrfs-stream\0"\<close>.\<close>

definition BTRFS_MAGIC :: bytes where
  "BTRFS_MAGIC = [0x62, 0x74, 0x72, 0x66, 0x73, 0x2D, 0x73, 0x74, 0x72, 0x65, 0x61, 0x6D, 0]"

record SendHeader =
  sh_magic :: bytes
  sh_version :: SendVersion

definition SendHeader_new :: "ctx \<Rightarrow> (SendHeader \<times> ctx) result" where
  "SendHeader_new c =
     rbind (read_exact c (length BTRFS_MAGIC)) (\<lambda>(magic_bytes, c1).
     rbind (from_utf8 magic_bytes) (\<lambda>magic.
     ensure (magic = BTRFS_MAGIC) (Io BadMagic)
       (rbind (read32 c1) (\<lambda>(version_value, c2).
        rbind (value_to_version version_value) (\<lambda>version.
        Inr (\<lparr>sh_magic = magic, sh_version = version\<rparr>, c2))))))"

definition SendHeader_persist_header :: "ctx \<Rightarrow> ctx result" where
  "SendHeader_persist_header c =
     rbind (write_all c BTRFS_MAGIC (length BTRFS_MAGIC)) (\<lambda>c1.
     rbind (get_destination_version c1) (\<lambda>version.
     write32 c1 (version_to_value version)))"

definition SendHeader_get_size :: nat where
  "SendHeader_get_size = length BTRFS_MAGIC + 4"

section \<open>Command types\<close>

datatype BtrfsSendCommandType =
    BTRFS_SEND_C_UNSPEC | BTRFS_SEND_C_SUBVOL | BTRFS_SEND_C_SNAPSHOT
  | BTRFS_SEND_C_MKFILE | BTRFS_SEND_C_MKDIR | BTRFS_SEND_C_MKNOD
  | BTRFS_SEND_C_MKFIFO | BTRFS_SEND_C_MKSOCK | BTRFS_SEND_C_SYMLINK
  | BTRFS_SEND_C_RENAME | BTRFS_SEND_C_LINK | BTRFS_SEND_C_UNLINK
  | BTRFS_SEND_C_RMDIR | BTRFS_SEND_C_SET_XATTR | BTRFS_SEND_C_REMOVE_XATTR
  | BTRFS_SEND_C_WRITE | BTRFS_SEND_C_CLONE | BTRFS_SEND_C_TRUNCATE
  | BTRFS_SEND_C_CHMOD | BTRFS_SEND_C_CHOWN | BTRFS_SEND_C_UTIMES
  | BTRFS_SEND_C_END | BTRFS_SEND_C_UPDATE_EXTENT | BTRFS_SEND_C_FALLOCATE
  | BTRFS_SEND_C_SETFLAGS | BTRFS_SEND_C_ENCODED_WRITE

text \<open>The enum in the order of its discriminants, which start at 0 without gaps.\<close>

definition all_command_types :: "BtrfsSendCommandType list" where
  "all_command_types =
    [BTRFS_SEND_C_UNSPEC, BTRFS_SEND_C_SUBVOL, BTRFS_SEND_C_SNAPSHOT,
     BTRFS_SEND_C_MKFILE, BTRFS_SEND_C_MKDIR, BTRFS_SEND_C_MKNOD,
     BTRFS_SEND_C_MKFIFO, BTRFS_SEND_C_MKSOCK, BTRFS_SEND_C_SYMLINK,
     BTRFS_SEND_C_RENAME, BTRFS_SEND_C_LINK, BTRFS_SEND_C_UNLINK,
     BTRFS_SEND_C_RMDIR, BTRFS_SEND_C_SET_XATTR, BTRFS_SEND_C_REMOVE_XATTR,
     BTRFS_SEND_C_WRITE, BTRFS_SEND_C_CLONE, BTRFS_SEND_C_TRUNCATE,
     BTRFS_SEND_C_CHMOD, BTRFS_SEND_C_CHOWN, BTRFS_SEND_C_UTIMES,
     BTRFS_SEND_C_END, BTRFS_SEND_C_UPDATE_EXTENT, BTRFS_SEND_C_FALLOCATE,
     BTRFS_SEND_C_SETFLAGS, BTRFS_SEND_C_ENCODED_WRITE]"

primrec command_type_to_u16 :: "BtrfsSendCommandType \<Rightarrow> u16" where
  "command_type_to_u16 BTRFS_SEND_C_UNSPEC = 0"
| "command_type_to_u16 BTRFS_SEND_C_SUBVOL = 1"
| "command_type_to_u16 BTRFS_SEND_C_SNAPSHOT = 2"
| "command_type_to_u16 BTRFS_SEND_C_MKFILE = 3"
| "command_type_to_u16 BTRFS_SEND_C_MKDIR = 4"
| "command_type_to_u16 BTRFS_SEND_C_MKNOD = 5"
| "command_type_to_u16 BTRFS_SEND_C_MKFIFO = 6"
| "command_type_to_u16 BTRFS_SEND_C_MKSOCK = 7"
| "command_type_to_u16 BTRFS_SEND_C_SYMLINK = 8"
| "command_type_to_u16 BTRFS_SEND_C_RENAME = 9"
| "command_type_to_u16 BTRFS_SEND_C_LINK = 10"
| "command_type_to_u16 BTRFS_SEND_C_UNLINK = 11"
| "command_type_to_u16 BTRFS_SEND_C_RMDIR = 12"
| "command_type_to_u16 BTRFS_SEND_C_SET_XATTR = 13"
| "command_type_to_u16 BTRFS_SEND_C_REMOVE_XATTR = 14"
| "command_type_to_u16 BTRFS_SEND_C_WRITE = 15"
| "command_type_to_u16 BTRFS_SEND_C_CLONE = 16"
| "command_type_to_u16 BTRFS_SEND_C_TRUNCATE = 17"
| "command_type_to_u16 BTRFS_SEND_C_CHMOD = 18"
| "command_type_to_u16 BTRFS_SEND_C_CHOWN = 19"
| "command_type_to_u16 BTRFS_SEND_C_UTIMES = 20"
| "command_type_to_u16 BTRFS_SEND_C_END = 21"
| "command_type_to_u16 BTRFS_SEND_C_UPDATE_EXTENT = 22"
| "command_type_to_u16 BTRFS_SEND_C_FALLOCATE = 23"
| "command_type_to_u16 BTRFS_SEND_C_SETFLAGS = 24"
| "command_type_to_u16 BTRFS_SEND_C_ENCODED_WRITE = 25"

definition command_type_from_u16 :: "u16 \<Rightarrow> BtrfsSendCommandType option" where
  "command_type_from_u16 n = find (\<lambda>t. command_type_to_u16 t = n) all_command_types"

lemma command_type_from_to_u16 [simp]: "command_type_from_u16 (command_type_to_u16 t) = Some t"
  by (cases t) (simp_all add: command_type_from_u16_def all_command_types_def)

text \<open>The static tables.\<close>

definition COMPRESSIBLE_COMMAND_TYPES ::
  "BtrfsSendCommandType \<rightharpoonup> SendVersion \<times> BtrfsSendCommandType" where
  "COMPRESSIBLE_COMMAND_TYPES =
     [BTRFS_SEND_C_WRITE \<mapsto> (SendVersion2, BTRFS_SEND_C_ENCODED_WRITE)]"

definition UPGRADEABLE_COMMAND_TYPES :: "BtrfsSendCommandType \<rightharpoonup> SendVersion list" where
  "UPGRADEABLE_COMMAND_TYPES = [BTRFS_SEND_C_WRITE \<mapsto> [SendVersion2]]"

definition APPENDABLE_COMMAND_TYPES :: "BtrfsSendCommandType list" where
  "APPENDABLE_COMMAND_TYPES = [BTRFS_SEND_C_WRITE]"

definition PADDABLE_COMMAND_TYPES :: "BtrfsSendCommandType list" where
  "PADDABLE_COMMAND_TYPES = [BTRFS_SEND_C_WRITE]"

lemmas command_type_tables = COMPRESSIBLE_COMMAND_TYPES_def UPGRADEABLE_COMMAND_TYPES_def
  APPENDABLE_COMMAND_TYPES_def PADDABLE_COMMAND_TYPES_def

section \<open>Command headers\<close>

record SendCommandHeader =
  sch_size :: "u32 option"
  sch_command_type :: BtrfsSendCommandType
  sch_crc32c :: "u32 option"
  sch_version :: SendVersion

text \<open>\<open>get_header_size\<close>: the sizes of the size, type and crc fields.\<close>

definition command_header_size :: nat where
  "command_header_size = 4 + 2 + 4"

definition SendCommandHeader_new :: "ctx \<Rightarrow> (SendCommandHeader \<times> ctx) result" where
  "SendCommandHeader_new c =
     rbind (read32 c) (\<lambda>(size, c1).
     rbind (read16 c1) (\<lambda>(command_type_u16, c2).
     rbind (of_option (Elem BadCommandType) (command_type_from_u16 command_type_u16)) (\<lambda>command_type.
     rbind (read32 c2) (\<lambda>(crc32c, c3).
     rbind (get_source_version c3) (\<lambda>version.
     Inr (\<lparr>sch_size = Some size, sch_command_type = command_type, sch_crc32c = Some crc32c,
           sch_version = version\<rparr>, c3))))))"

definition generate_pad_command_header :: "ctx \<Rightarrow> nat \<Rightarrow> SendCommandHeader result" where
  "generate_pad_command_header c sz =
     rbind (get_destination_version c) (\<lambda>version.
     Inr \<lparr>sch_size = Some (word_of_nat sz), sch_command_type = BTRFS_SEND_C_UPDATE_EXTENT,
          sch_crc32c = None, sch_version = version\<rparr>)"

text \<open>\<open>BTreeSet::range\<close> panics when its start is above its end.\<close>

definition is_command_upgradeable :: "SendCommandHeader \<Rightarrow> ctx \<Rightarrow> bool result" where
  "is_command_upgradeable h c =
     rbind (get_destination_version c) (\<lambda>new_version.
     let old_version = sch_version h
     in if old_version = new_version then Inr False
        else case UPGRADEABLE_COMMAND_TYPES (sch_command_type h) of
            None \<Rightarrow> Inr False
          | Some versions \<Rightarrow>
              if new_version < old_version then Inl (Panic IndexOutOfRange)
              else Inr (0 < length (filter (\<lambda>v. old_version < v \<and> v \<le> new_version) versions)))"

definition SendCommandHeader_upgrade :: "SendCommandHeader \<Rightarrow> ctx \<Rightarrow> SendCommandHeader result" where
  "SendCommandHeader_upgrade h c =
     rbind (get_destination_version c) (\<lambda>version.
     rbind (is_command_upgradeable h c) (\<lambda>upgradeable.
     ensure upgradeable (Elem NotUpgradeable)
       (ensure (sch_size h \<noteq> None) (Elem NoSize)
         (ensure (sch_crc32c h \<noteq> None) (Elem NoCrc)
           (Inr (h\<lparr>sch_size := None, sch_crc32c := None, sch_version := version\<rparr>))))))"

definition SendCommandHeader_fake_an_upgrade ::
  "SendCommandHeader \<Rightarrow> ctx \<Rightarrow> SendCommandHeader result" where
  "SendCommandHeader_fake_an_upgrade h c =
     rbind (is_command_upgradeable h c) (\<lambda>upgradeable.
     ensure (\<not> upgradeable) (Elem FakeUpgradeOfUpgradeable)
       (rbind (get_destination_version c) (\<lambda>version. Inr (h\<lparr>sch_version := version\<rparr>))))"

definition is_command_compressible :: "SendCommandHeader \<Rightarrow> bool" where
  "is_command_compressible h =
     (case COMPRESSIBLE_COMMAND_TYPES (sch_command_type h) of
        Some (version, _) \<Rightarrow> version \<le> sch_version h
      | None \<Rightarrow> False)"

definition get_compressed_command_type :: "SendCommandHeader \<Rightarrow> BtrfsSendCommandType result" where
  "get_compressed_command_type h =
     (case COMPRESSIBLE_COMMAND_TYPES (sch_command_type h) of
        Some (version, new_command_type) \<Rightarrow>
          ensure (version \<le> sch_version h) (Elem NotCompressible) (Inr new_command_type)
      | None \<Rightarrow> Inl (Bail (Elem NotCompressible)))"

definition SendCommandHeader_compress :: "SendCommandHeader \<Rightarrow> ctx \<Rightarrow> SendCommandHeader result" where
  "SendCommandHeader_compress h c =
     rbind (get_destination_version c) (\<lambda>version.
     ensure (is_command_compressible h) (Elem NotCompressible)
       (ensure (sch_size h \<noteq> None) (Elem NoSize)
         (rbind (get_compressed_command_type h) (\<lambda>command_type.
          Inr \<lparr>sch_size = None, sch_command_type = command_type, sch_crc32c = None,
               sch_version = version\<rparr>))))"

definition SendCommandHeader_copy ::
  "SendCommandHeader \<Rightarrow> u32 option \<Rightarrow> SendCommandHeader result" where
  "SendCommandHeader_copy h command_payload_size =
     ensure (sch_size h \<noteq> None) (Elem NoSize)
       (ensure (sch_crc32c h \<noteq> None) (Elem NoCrc)
         (Inr (h\<lparr>sch_size := command_payload_size, sch_crc32c := Some 0\<rparr>)))"

definition SendCommandHeader_persist :: "SendCommandHeader \<Rightarrow> ctx \<Rightarrow> bool \<Rightarrow> ctx result" where
  "SendCommandHeader_persist h c skip_crc32c =
     rbind (of_option (Elem NoSize) (sch_size h)) (\<lambda>size.
     rbind (if skip_crc32c then Inr 0 else of_option (Elem NoCrc) (sch_crc32c h)) (\<lambda>crc32c.
     rbind (get_destination_version c) (\<lambda>destination_version.
     ensure (sch_version h = destination_version) (Elem VersionMismatch)
       (rbind (write32 c size) (\<lambda>c1.
        rbind (write16 c1 (command_type_to_u16 (sch_command_type h))) (\<lambda>c2.
        rbind (write32 c2 crc32c) (\<lambda>c3.
        ensure (get_write_offset c3 - get_write_offset c = command_header_size) (Elem HeaderSizeMismatch)
          (Inr c3))))))))"

definition set_size :: "SendCommandHeader \<Rightarrow> u32 \<Rightarrow> SendCommandHeader result" where
  "set_size h sz = ensure (sch_size h = None) (Elem SizeAlreadySet) (Inr (h\<lparr>sch_size := Some sz\<rparr>))"

definition set_crc32c :: "SendCommandHeader \<Rightarrow> u32 \<Rightarrow> SendCommandHeader result" where
  "set_crc32c h crc32c =
     ensure ((case sch_crc32c h of None \<Rightarrow> 0 | Some v \<Rightarrow> v) = 0) (Elem CrcAlreadySet)
       (Inr (h\<lparr>sch_crc32c := Some crc32c\<rparr>))"

definition is_command_end :: "SendCommandHeader \<Rightarrow> bool" where
  "is_command_end h \<longleftrightarrow> sch_command_type h = BTRFS_SEND_C_END"

definition SendCommandHeader_is_appendable :: "SendCommandHeader \<Rightarrow> bool" where
  "SendCommandHeader_is_appendable h \<longleftrightarrow> sch_command_type h \<in> set APPENDABLE_COMMAND_TYPES"

definition are_commands_appendable :: "SendCommandHeader \<Rightarrow> SendCommandHeader \<Rightarrow> bool" where
  "are_commands_appendable h other \<longleftrightarrow>
     sch_command_type h = sch_command_type other \<and> sch_version h = sch_version other \<and>
     SendCommandHeader_is_appendable h"

definition is_paddable :: "SendCommandHeader \<Rightarrow> bool" where
  "is_paddable h \<longleftrightarrow> sch_command_type h \<in> set PADDABLE_COMMAND_TYPES"

definition get_command_payload_size :: "SendCommandHeader \<Rightarrow> nat result" where
  "get_command_payload_size h = rbind (of_option (Elem NoSize) (sch_size h)) (\<lambda>size. Inr (unat size))"

definition get_crc32c :: "SendCommandHeader \<Rightarrow> u32 result" where
  "get_crc32c h = of_option (Elem NoCrc) (sch_crc32c h)"

end
