(* ===== verification/Attribute_Header.thy ===== *)
theory Attribute_Header
  imports Context
begin

text \<open>\<open>send_elements/send_attribute_header.rs\<close>: the type and, unless the version leaves it
  out, the size of an attribute.\<close>

section \<open>Attribute types\<close>

datatype BtrfsSendAttributeType =
    BTRFS_SEND_A_UNSPEC | BTRFS_SEND_A_UUID | BTRFS_SEND_A_CTRANSID | BTRFS_SEND_A_INO
  | BTRFS_SEND_A_SIZE | BTRFS_SEND_A_MODE | BTRFS_SEND_A_UID | BTRFS_SEND_A_GID
  | BTRFS_SEND_A_RDEV | BTRFS_SEND_A_CTIME | BTRFS_SEND_A_MTIME | BTRFS_SEND_A_ATIME
  | BTRFS_SEND_A_OTIME | BTRFS_SEND_A_XATTR_NAME | BTRFS_SEND_A_XATTR_DATA
  | BTRFS_SEND_A_PATH | BTRFS_SEND_A_PATH_TO | BTRFS_SEND_A_PATH_LINK
  | BTRFS_SEND_A_FILE_OFFSET | BTRFS_SEND_A_DATA | BTRFS_SEND_A_CLONE_UUID
  | BTRFS_SEND_A_CLONE_CTRANSID | BTRFS_SEND_A_CLONE_PATH | BTRFS_SEND_A_CLONE_OFFSET
  | BTRFS_SEND_A_CLONE_LEN | BTRFS_SEND_A_FALLOCATE_MODE | BTRFS_SEND_A_SETFLAGS_FLAGS
  | BTRFS_SEND_A_UNENCODED_FILE_LEN | BTRFS_SEND_A_UNENCODED_LEN
  | BTRFS_SEND_A_UNENCODED_OFFSET | BTRFS_SEND_A_COMPRESSION | BTRFS_SEND_A_ENCRYPTION

definition all_attribute_types :: "BtrfsSendAttributeType list" where
  "all_attribute_types =
    [BTRFS_SEND_A_UNSPEC, BTRFS_SEND_A_UUID, BTRFS_SEND_A_CTRANSID, BTRFS_SEND_A_INO,
     BTRFS_SEND_A_SIZE, BTRFS_SEND_A_MODE, BTRFS_SEND_A_UID, BTRFS_SEND_A_GID,
     BTRFS_SEND_A_RDEV, BTRFS_SEND_A_CTIME, BTRFS_SEND_A_MTIME, BTRFS_SEND_A_ATIME,
     BTRFS_SEND_A_OTIME, BTRFS_SEND_A_XATTR_NAME, BTRFS_SEND_A_XATTR_DATA,
     BTRFS_SEND_A_PATH, BTRFS_SEND_A_PATH_TO, BTRFS_SEND_A_PATH_LINK,
     BTRFS_SEND_A_FILE_OFFSET, BTRFS_SEND_A_DATA, BTRFS_SEND_A_CLONE_UUID,
     BTRFS_SEND_A_CLONE_CTRANSID, BTRFS_SEND_A_CLONE_PATH, BTRFS_SEND_A_CLONE_OFFSET,
     BTRFS_SEND_A_CLONE_LEN, BTRFS_SEND_A_FALLOCATE_MODE, BTRFS_SEND_A_SETFLAGS_FLAGS,
     BTRFS_SEND_A_UNENCODED_FILE_LEN, BTRFS_SEND_A_UNENCODED_LEN,
     BTRFS_SEND_A_UNENCODED_OFFSET, BTRFS_SEND_A_COMPRESSION, BTRFS_SEND_A_ENCRYPTION]"

primrec attribute_type_to_u16 :: "BtrfsSendAttributeType \<Rightarrow> u16" where
  "attribute_type_to_u16 BTRFS_SEND_A_UNSPEC = 0"
| "attribute_type_to_u16 BTRFS_SEND_A_UUID = 1"
| "attribute_type_to_u16 BTRFS_SEND_A_CTRANSID = 2"
| "attribute_type_to_u16 BTRFS_SEND_A_INO = 3"
| "attribute_type_to_u16 BTRFS_SEND_A_SIZE = 4"
| "attribute_type_to_u16 BTRFS_SEND_A_MODE = 5"
| "attribute_type_to_u16 BTRFS_SEND_A_UID = 6"
| "attribute_type_to_u16 BTRFS_SEND_A_GID = 7"
| "attribute_type_to_u16 BTRFS_SEND_A_RDEV = 8"
| "attribute_type_to_u16 BTRFS_SEND_A_CTIME = 9"
| "attribute_type_to_u16 BTRFS_SEND_A_MTIME = 10"
| "attribute_type_to_u16 BTRFS_SEND_A_ATIME = 11"
| "attribute_type_to_u16 BTRFS_SEND_A_OTIME = 12"
| "attribute_type_to_u16 BTRFS_SEND_A_XATTR_NAME = 13"
| "attribute_type_to_u16 BTRFS_SEND_A_XATTR_DATA = 14"
| "attribute_type_to_u16 BTRFS_SEND_A_PATH = 15"
| "attribute_type_to_u16 BTRFS_SEND_A_PATH_TO = 16"
| "attribute_type_to_u16 BTRFS_SEND_A_PATH_LINK = 17"
| "attribute_type_to_u16 BTRFS_SEND_A_FILE_OFFSET = 18"
| "attribute_type_to_u16 BTRFS_SEND_A_DATA = 19"
| "attribute_type_to_u16 BTRFS_SEND_A_CLONE_UUID = 20"
| "attribute_type_to_u16 BTRFS_SEND_A_CLONE_CTRANSID = 21"
| "attribute_type_to_u16 BTRFS_SEND_A_CLONE_PATH = 22"
| "attribute_type_to_u16 BTRFS_SEND_A_CLONE_OFFSET = 23"
| "attribute_type_to_u16 BTRFS_SEND_A_CLONE_LEN = 24"
| "attribute_type_to_u16 BTRFS_SEND_A_FALLOCATE_MODE = 25"
| "attribute_type_to_u16 BTRFS_SEND_A_SETFLAGS_FLAGS = 26"
| "attribute_type_to_u16 BTRFS_SEND_A_UNENCODED_FILE_LEN = 27"
| "attribute_type_to_u16 BTRFS_SEND_A_UNENCODED_LEN = 28"
| "attribute_type_to_u16 BTRFS_SEND_A_UNENCODED_OFFSET = 29"
| "attribute_type_to_u16 BTRFS_SEND_A_COMPRESSION = 30"
| "attribute_type_to_u16 BTRFS_SEND_A_ENCRYPTION = 31"

definition attribute_type_from_u16 :: "u16 \<Rightarrow> BtrfsSendAttributeType option" where
  "attribute_type_from_u16 n = find (\<lambda>t. attribute_type_to_u16 t = n) all_attribute_types"

lemma attribute_type_from_to_u16 [simp]:
  "attribute_type_from_u16 (attribute_type_to_u16 t) = Some t"
  by (cases t) (simp_all add: attribute_type_from_u16_def all_attribute_types_def)

definition BTRFS_ENCODED_IO_COMPRESSION_ZSTD :: u32 where
  "BTRFS_ENCODED_IO_COMPRESSION_ZSTD = 2"

definition COMPRESSIBLE_ATTRIBUTE_TYPES ::
  "BtrfsSendAttributeType \<rightharpoonup> SendVersion \<times> BtrfsSendAttributeType" where
  "COMPRESSIBLE_ATTRIBUTE_TYPES = [BTRFS_SEND_A_DATA \<mapsto> (SendVersion2, BTRFS_SEND_A_DATA)]"

definition SIZE_LESS_ATTRIBUTE_TYPES :: "BtrfsSendAttributeType \<rightharpoonup> SendVersion" where
  "SIZE_LESS_ATTRIBUTE_TYPES = [BTRFS_SEND_A_DATA \<mapsto> SendVersion2]"

definition APPENDABLE_ATTRIBUTE_TYPES :: "BtrfsSendAttributeType list" where
  "APPENDABLE_ATTRIBUTE_TYPES = [BTRFS_SEND_A_DATA]"

lemmas attribute_type_tables = COMPRESSIBLE_ATTRIBUTE_TYPES_def SIZE_LESS_ATTRIBUTE_TYPES_def
  APPENDABLE_ATTRIBUTE_TYPES_def

section \<open>Attribute headers\<close>

record SendAttributeHeader =
  sah_attribute_type :: BtrfsSendAttributeType
  sah_size :: "u16 option"
  sah_version :: SendVersion

definition SendAttributeHeader_new :: "ctx \<Rightarrow> (SendAttributeHeader \<times> ctx) result" where
  "SendAttributeHeader_new c =
     rbind (get_source_version c) (\<lambda>version.
     rbind (read16 c) (\<lambda>(attribute_type_u16, c1).
     rbind (of_option (Elem BadAttributeType) (attribute_type_from_u16 attribute_type_u16))
       (\<lambda>attribute_type.
     rbind (case SIZE_LESS_ATTRIBUTE_TYPES attribute_type of
              Some size_less_version \<Rightarrow>
                if size_less_version \<le> version then Inr (None, c1)
                else rbind (read16 c1) (\<lambda>(size, c2). Inr (Some size, c2))
            | None \<Rightarrow> rbind (read16 c1) (\<lambda>(size, c2). Inr (Some size, c2))) (\<lambda>(size, c2).
     Inr (\<lparr>sah_attribute_type = attribute_type, sah_size = size, sah_version = version\<rparr>, c2)))))"

definition SendAttributeHeader_construct ::
  "BtrfsSendAttributeType \<Rightarrow> u16 \<Rightarrow> SendVersion \<Rightarrow> SendAttributeHeader" where
  "SendAttributeHeader_construct attribute_type sz version =
     \<lparr>sah_attribute_type = attribute_type, sah_size = Some sz, sah_version = version\<rparr>"

definition SendAttributeHeader_copy :: "SendAttributeHeader \<Rightarrow> SendAttributeHeader" where
  "SendAttributeHeader_copy h =
     \<lparr>sah_attribute_type = sah_attribute_type h, sah_size = sah_size h, sah_version = sah_version h\<rparr>"

definition is_attribute_upgradeable :: "SendAttributeHeader \<Rightarrow> ctx \<Rightarrow> bool result" where
  "is_attribute_upgradeable h c =
     rbind (get_destination_version c) (\<lambda>new_version.
     let old_version = sah_version h
     in if old_version = new_version then Inr False
        else case SIZE_LESS_ATTRIBUTE_TYPES (sah_attribute_type h) of
            Some version \<Rightarrow> Inr (old_version < version \<and> version = new_version)
          | None \<Rightarrow> Inr False)"

definition SendAttributeHeader_upgrade ::
  "SendAttributeHeader \<Rightarrow> ctx \<Rightarrow> SendAttributeHeader result" where
  "SendAttributeHeader_upgrade h c =
     rbind (is_attribute_upgradeable h c) (\<lambda>upgradeable.
     ensure upgradeable (Elem NotUpgradeable)
       (rbind (get_source_version c) (\<lambda>source_version.
        rbind (get_destination_version c) (\<lambda>destination_version.
        Inr (if source_version = SendVersion1 \<and> destination_version = SendVersion2
             then h\<lparr>sah_size := None, sah_version := destination_version\<rparr> else h)))))"

definition is_attribute_compressible :: "SendAttributeHeader \<Rightarrow> bool" where
  "is_attribute_compressible h =
     (case COMPRESSIBLE_ATTRIBUTE_TYPES (sah_attribute_type h) of
        Some (version, _) \<Rightarrow> version \<le> sah_version h
      | None \<Rightarrow> False)"

definition get_compressed_attribute_type :: "SendAttributeHeader \<Rightarrow> BtrfsSendAttributeType result" where
  "get_compressed_attribute_type h =
     (case COMPRESSIBLE_ATTRIBUTE_TYPES (sah_attribute_type h) of
        Some (version, new_attribute_type) \<Rightarrow>
          ensure (version \<le> sah_version h) (Elem NotCompressible) (Inr new_attribute_type)
      | None \<Rightarrow> Inl (Bail (Elem NotCompressible)))"

definition SendAttributeHeader_compress ::
  "SendAttributeHeader \<Rightarrow> ctx \<Rightarrow> SendAttributeHeader result" where
  "SendAttributeHeader_compress h c =
     ensure (is_attribute_compressible h) (Elem NotCompressible)
       (rbind (get_destination_version c) (\<lambda>destination_version.
        rbind (get_compressed_attribute_type h) (\<lambda>attribute_type.
        Inr \<lparr>sah_attribute_type = attribute_type, sah_size = None, sah_version = destination_version\<rparr>)))"

definition SendAttributeHeader_persist :: "SendAttributeHeader \<Rightarrow> ctx \<Rightarrow> ctx result" where
  "SendAttributeHeader_persist h c =
     rbind (get_destination_version c) (\<lambda>destination_version.
     ensure (sah_version h = destination_version) (Elem VersionMismatch)
       (rbind (write16 c (attribute_type_to_u16 (sah_attribute_type h))) (\<lambda>c1.
        case sah_size h of Some sz \<Rightarrow> write16 c1 sz | None \<Rightarrow> Inr c1)))"

definition is_attribute_appendable :: "SendAttributeHeader \<Rightarrow> bool" where
  "is_attribute_appendable h \<longleftrightarrow> sah_attribute_type h \<in> set APPENDABLE_ATTRIBUTE_TYPES"

definition can_append_attributes :: "SendAttributeHeader \<Rightarrow> SendAttributeHeader \<Rightarrow> bool" where
  "can_append_attributes h other \<longleftrightarrow>
     sah_attribute_type h = sah_attribute_type other \<and> is_attribute_appendable h"

definition is_attribute_truncatable :: "SendAttributeHeader \<Rightarrow> bool" where
  "is_attribute_truncatable h = is_attribute_appendable h"

definition has_size :: "SendAttributeHeader \<Rightarrow> bool" where
  "has_size h \<longleftrightarrow> sah_size h \<noteq> None"

definition get_attribute_payload_size :: "SendAttributeHeader \<Rightarrow> nat result" where
  "get_attribute_payload_size h = rbind (of_option (Elem NoSize) (sah_size h)) (\<lambda>size. Inr (unat size))"

definition attribute_header_size :: "SendAttributeHeader \<Rightarrow> nat" where
  "attribute_header_size h = 2 + (case sah_size h of Some _ \<Rightarrow> 2 | None \<Rightarrow> 0)"

definition get_attribute_total_size :: "SendAttributeHeader \<Rightarrow> nat \<Rightarrow> nat result" where
  "get_attribute_total_size h bytes_remaining =
     (case get_attribute_payload_size h of
        Inr payload_size \<Rightarrow> Inr (attribute_header_size h + payload_size)
      | Inl _ \<Rightarrow> ensure (attribute_header_size h \<le> bytes_remaining) (Elem HeaderDoesNotFit)
                   (Inr bytes_remaining))"

definition is_attribute_send_a_path :: "SendAttributeHeader \<Rightarrow> bool" where
  "is_attribute_send_a_path h \<longleftrightarrow> sah_attribute_type h = BTRFS_SEND_A_PATH"

definition is_attribute_send_a_file_offset :: "SendAttributeHeader \<Rightarrow> bool" where
  "is_attribute_send_a_file_offset h \<longleftrightarrow> sah_attribute_type h = BTRFS_SEND_A_FILE_OFFSET"

definition is_attribute_send_a_data :: "SendAttributeHeader \<Rightarrow> bool" where
  "is_attribute_send_a_data h \<longleftrightarrow> sah_attribute_type h = BTRFS_SEND_A_DATA"

end
