(* ===== verification/Attribute.thy ===== *)
theory Attribute
  imports Attribute_Header
begin

text \<open>
  \<open>send_elements/send_attribute.rs\<close>: an attribute is its header together with the buffer
  that holds the encoded header and the payload.

  The zstd encoder and the hardware CRC32C are third-party crates; they enter the model as
  the two fields of \<open>externs\<close>. \<open>zstd_encode level window_log input\<close> is \<open>None\<close> where the
  encoder fails.
\<close>

record externs =
  crc32c_hw_update :: "u32 \<Rightarrow> bytes \<Rightarrow> u32"
  zstd_encode :: "int \<Rightarrow> nat \<Rightarrow> bytes \<Rightarrow> bytes option"

definition BTRFS_ZSTD_WINDOW_LOG :: nat where
  "BTRFS_ZSTD_WINDOW_LOG = 17"

record SendAttribute =
  sa_header :: SendAttributeHeader
  sa_buffer :: bytes
  sa_uncompressed_size :: nat
  sa_uncompressed_payload_size :: nat
  sa_version :: SendVersion

definition SendAttribute_eq :: "SendAttribute \<Rightarrow> SendAttribute \<Rightarrow> bool" where
  "SendAttribute_eq a b \<longleftrightarrow>
     sa_header a = sa_header b \<and> sa_version a = sa_version b \<and> sa_buffer a = sa_buffer b"

definition SendAttribute_get_size :: "SendAttribute \<Rightarrow> nat" where
  "SendAttribute_get_size a = length (sa_buffer a)"

text \<open>The buffer always starts with the header, so the subtraction cannot underflow.\<close>

definition get_payload_size :: "SendAttribute \<Rightarrow> nat" where
  "get_payload_size a = SendAttribute_get_size a - attribute_header_size (sa_header a)"

section \<open>Construction\<close>

definition SendAttribute_new :: "ctx \<Rightarrow> (SendAttribute \<times> ctx) result" where
  "SendAttribute_new c =
     rbind (get_source_version c) (\<lambda>version.
     rbind (get_read_len c) (\<lambda>len.
     rbind (usub len (get_read_offset c)) (\<lambda>bytes_remaining.
     rbind (SendAttributeHeader_new c) (\<lambda>(header, c1).
     rbind (get_attribute_total_size header bytes_remaining) (\<lambda>total_size.
     let header_size = attribute_header_size header; buffer = zeros total_size
     in rbind (SendAttributeHeader_persist header
          (clone_with_new_buffers c1 None (Some buffer) version version)) (\<lambda>sub_context.
     rbind (slice_from (dest_slice sub_context) header_size) (\<lambda>rest.
     rbind (read_exact c1 (length rest)) (\<lambda>(payload, c2).
     Inr (\<lparr>sa_header = header, sa_buffer = take header_size (dest_slice sub_context) @ payload,
           sa_uncompressed_size = total_size,
           sa_uncompressed_payload_size = total_size - header_size,
           sa_version = version\<rparr>, c2)))))))))"

text \<open>\<open>new_from_u32\<close>, \<open>new_from_u64\<close> and \<open>new_from_string\<close> differ in the payload they
  write after the header.\<close>

definition SendAttribute_new_from_u32 ::
  "ctx \<Rightarrow> BtrfsSendAttributeType \<Rightarrow> u32 \<Rightarrow> SendAttribute result" where
  "SendAttribute_new_from_u32 c attribute_type value =
     rbind (get_destination_version c) (\<lambda>version.
     let payload_size = 4;
         header = SendAttributeHeader_construct attribute_type (word_of_nat payload_size) version;
         total_size = attribute_header_size header + payload_size
     in rbind (SendAttributeHeader_persist header
          (clone_with_new_buffers c None (Some (zeros total_size)) version version)) (\<lambda>sub_context.
     rbind (write32 sub_context value) (\<lambda>sub_context.
     Inr \<lparr>sa_header = header, sa_buffer = dest_slice sub_context, sa_uncompressed_size = total_size,
          sa_uncompressed_payload_size = payload_size, sa_version = version\<rparr>)))"

definition SendAttribute_new_from_u64 ::
  "ctx \<Rightarrow> BtrfsSendAttributeType \<Rightarrow> u64 \<Rightarrow> SendAttribute result" where
  "SendAttribute_new_from_u64 c attribute_type value =
     rbind (get_destination_version c) (\<lambda>version.
     let payload_size = 8;
         header = SendAttributeHeader_construct attribute_type (word_of_nat payload_size) version;
         total_size = attribute_header_size header + payload_size
     in rbind (SendAttributeHeader_persist header
          (clone_with_new_buffers c None (Some (zeros total_size)) version version)) (\<lambda>sub_context.
     rbind (write64 sub_context value) (\<lambda>sub_context.
     Inr \<lparr>sa_header = header, sa_buffer = dest_slice sub_context, sa_uncompressed_size = total_size,
          sa_uncompressed_payload_size = payload_size, sa_version = version\<rparr>)))"

definition SendAttribute_new_from_string ::
  "ctx \<Rightarrow> BtrfsSendAttributeType \<Rightarrow> bytes \<Rightarrow> SendAttribute result" where
  "SendAttribute_new_from_string c attribute_type string_buffer =
     rbind (get_destination_version c) (\<lambda>version.
     let payload_size = length string_buffer;
         header = SendAttributeHeader_construct attribute_type (word_of_nat payload_size) version;
         total_size = attribute_header_size header + payload_size
     in rbind (SendAttributeHeader_persist header
          (clone_with_new_buffers c None (Some (zeros total_size)) version version)) (\<lambda>sub_context.
     rbind (write_all sub_context string_buffer (length string_buffer)) (\<lambda>sub_context.
     Inr \<lparr>sa_header = header, sa_buffer = dest_slice sub_context, sa_uncompressed_size = total_size,
          sa_uncompressed_payload_size = payload_size, sa_version = version\<rparr>)))"

definition SendAttribute_copy_range ::
  "SendAttribute \<Rightarrow> ctx \<Rightarrow> nat \<Rightarrow> nat \<Rightarrow> SendAttribute result" where
  "SendAttribute_copy_range a c payload_start_offset payload_end_offset =
     (let version = sa_version a; header = SendAttributeHeader_copy (sa_header a);
          header_size = attribute_header_size header
      in rbind (usub payload_end_offset payload_start_offset) (\<lambda>payload_size.
      let total_size = header_size + payload_size
      in rbind (SendAttributeHeader_persist header
           (clone_with_new_buffers c None (Some (zeros total_size)) version version)) (\<lambda>sub_context.
      rbind (slice_range (sa_buffer a) (payload_start_offset + header_size)
               (payload_end_offset + header_size)) (\<lambda>range.
      rbind (write_all sub_context range payload_size) (\<lambda>sub_context.
      Inr \<lparr>sa_header = header, sa_buffer = dest_slice sub_context, sa_uncompressed_size = total_size,
           sa_uncompressed_payload_size = payload_size, sa_version = version\<rparr>)))))"

section \<open>Upgrade and compression\<close>

definition SendAttribute_is_upgradeable :: "SendAttribute \<Rightarrow> ctx \<Rightarrow> bool result" where
  "SendAttribute_is_upgradeable a c = is_attribute_upgradeable (sa_header a) c"

definition SendAttribute_is_compressible :: "SendAttribute \<Rightarrow> bool" where
  "SendAttribute_is_compressible a = is_attribute_compressible (sa_header a)"

definition SendAttribute_upgrade :: "SendAttribute \<Rightarrow> ctx \<Rightarrow> SendAttribute result" where
  "SendAttribute_upgrade a c =
     rbind (get_destination_version c) (\<lambda>version.
     rbind (SendAttribute_is_upgradeable a c) (\<lambda>upgradeable.
     ensure upgradeable (Elem NotUpgradeable)
       (rbind (SendAttributeHeader_upgrade (sa_header a) c) (\<lambda>upgraded_header.
        let old_header_size = attribute_header_size (sa_header a);
            new_header_size = attribute_header_size upgraded_header;
            payload_size = get_payload_size a;
            upgraded_buffer = zeros (new_header_size + payload_size)
        in rbind (SendAttributeHeader_persist upgraded_header
             (clone_with_new_buffers c None (Some upgraded_buffer) (sa_version a) version))
             (\<lambda>sub_context.
        rbind (slice_from (sa_buffer a) old_header_size) (\<lambda>old_payload.
        rbind (read_exact (clone_with_new_buffers c (Some old_payload) None (sa_version a) version)
                 payload_size) (\<lambda>(payload, _).
        Inr \<lparr>sa_header = upgraded_header,
             sa_buffer = take new_header_size (dest_slice sub_context) @ payload,
             sa_uncompressed_size = new_header_size + payload_size,
             sa_uncompressed_payload_size = payload_size, sa_version = version\<rparr>)))))))"

definition SendAttribute_fake_an_upgrade :: "SendAttribute \<Rightarrow> ctx \<Rightarrow> SendAttribute result" where
  "SendAttribute_fake_an_upgrade a c =
     rbind (SendAttribute_is_upgradeable a c) (\<lambda>upgradeable.
     ensure (\<not> upgradeable) (Elem FakeUpgradeOfUpgradeable)
       (rbind (get_destination_version c) (\<lambda>version. Inr (a\<lparr>sa_version := version\<rparr>))))"

definition SendAttribute_compress ::
  "externs \<Rightarrow> SendAttribute \<Rightarrow> ctx \<Rightarrow> nat \<Rightarrow> SendAttribute result" where
  "SendAttribute_compress x a c minimum_bytes_to_save =
     rbind (get_destination_version c) (\<lambda>version.
     rbind (SendAttribute_is_upgradeable a c) (\<lambda>upgradeable.
     ensure (\<not> upgradeable \<and> SendAttribute_is_compressible a) (Elem NotCompressible)
       (rbind (SendAttributeHeader_compress (sa_header a) c) (\<lambda>compressed_header.
        let old_header_size = attribute_header_size (sa_header a);
            new_header_size = attribute_header_size compressed_header;
            old_payload_size = get_payload_size a
        in rbind (SendAttributeHeader_persist compressed_header
             (clone_with_new_buffers c None (Some (zeros new_header_size)) (sa_version a) version))
             (\<lambda>sub_context.
        ensure (compression_level (ssuc_options c) \<noteq> 0) (Elem NoCompressionLevel)
          (rbind (slice_from (sa_buffer a) old_header_size) (\<lambda>payload.
           rbind (of_option (Elem CompressorFailed)
                    (zstd_encode x (compression_level (ssuc_options c)) BTRFS_ZSTD_WINDOW_LOG payload))
             (\<lambda>encoded.
           let new_attribute =
                 \<lparr>sa_header = compressed_header, sa_buffer = dest_slice sub_context @ encoded,
                  sa_uncompressed_size = sa_uncompressed_size a,
                  sa_uncompressed_payload_size = old_payload_size, sa_version = version\<rparr>;
               new_payload_size = get_payload_size new_attribute
           in if new_payload_size + minimum_bytes_to_save \<le> old_payload_size then Inr new_attribute
              else Inl (FailedToShrinkPayload old_payload_size new_payload_size minimum_bytes_to_save)))))))))"

definition compress_space_check :: "SendAttribute \<Rightarrow> ctx \<Rightarrow> unit result" where
  "compress_space_check a c =
     rbind (get_write_len c) (\<lambda>write_length.
     rbind (usub write_length (get_write_offset c)) (\<lambda>bytes_remaining.
     if length (sa_buffer a) \<le> bytes_remaining then Inr ()
     else Inl (FailedToShrinkPayload write_length (get_write_offset c + length (sa_buffer a)) 0)))"

section \<open>Append and truncate\<close>

definition SendAttribute_can_append :: "SendAttribute \<Rightarrow> SendAttribute \<Rightarrow> bool" where
  "SendAttribute_can_append a other \<longleftrightarrow>
     sa_version a = sa_version other \<and> can_append_attributes (sa_header a) (sa_header other)"

definition SendAttribute_append ::
  "SendAttribute \<Rightarrow> SendAttribute \<Rightarrow> nat \<Rightarrow> (nat \<times> SendAttribute) result" where
  "SendAttribute_append a other max_payload_size =
     (if max_payload_size < sa_uncompressed_payload_size a then Inr (0, a)
      else ensure (SendAttribute_can_append a other) (Elem NotAppendable)
        (ensure (\<not> has_size (sa_header a)) (Elem NoSizeUpdateForV1)
          (let bytes_to_append = min (sa_uncompressed_payload_size other)
                 (max_payload_size - sa_uncompressed_payload_size a);
               other_buffer_start_offset = attribute_header_size (sa_header other);
               other_buffer_end_offset = other_buffer_start_offset + bytes_to_append
           in rbind (slice_range (sa_buffer other) other_buffer_start_offset other_buffer_end_offset)
                (\<lambda>extra.
              Inr (bytes_to_append,
                a\<lparr>sa_buffer := sa_buffer a @ extra,
                  sa_uncompressed_size := sa_uncompressed_size a + bytes_to_append,
                  sa_uncompressed_payload_size := sa_uncompressed_payload_size a + bytes_to_append\<rparr>)))))"

definition is_truncateable :: "SendAttribute \<Rightarrow> bool" where
  "is_truncateable a = is_attribute_truncatable (sa_header a)"

definition truncate_payload_at_start :: "SendAttribute \<Rightarrow> nat \<Rightarrow> SendAttribute result" where
  "truncate_payload_at_start a bytes_to_remove =
     (if bytes_to_remove = 0 then Inr a
      else ensure (is_truncateable a) (Elem NotTruncatable)
        (ensure (bytes_to_remove \<le> sa_uncompressed_payload_size a) (Elem NotEnoughData)
          (ensure (\<not> has_size (sa_header a)) (Elem NoSizeUpdateForV1)
            (let payload_offset = attribute_header_size (sa_header a);
                 bytes_to_preserve = sa_uncompressed_payload_size a - bytes_to_remove
             in rbind (slice_range (sa_buffer a) (payload_offset + bytes_to_remove)
                         (payload_offset + bytes_to_remove + bytes_to_preserve)) (\<lambda>preserved.
                rbind (usub (sa_uncompressed_size a) bytes_to_remove) (\<lambda>uncompressed_size.
                Inr (a\<lparr>sa_buffer := take (bytes_to_preserve + payload_offset)
                                     (splice (sa_buffer a) payload_offset preserved),
                       sa_uncompressed_size := uncompressed_size,
                       sa_uncompressed_payload_size :=
                         sa_uncompressed_payload_size a - bytes_to_remove\<rparr>)))))))"

section \<open>Verification and persistence\<close>

definition SendAttribute_verify :: "SendAttribute \<Rightarrow> ctx \<Rightarrow> unit result" where
  "SendAttribute_verify a c =
     (if \<not> serde_checks (ssuc_options c) then Inr ()
      else let version = sa_version a
      in rbind (slice_range (sa_buffer a) 0 (attribute_header_size (sa_header a))) (\<lambda>_.
      rbind (SendAttributeHeader_new
        (clone_with_new_buffers c (Some (sa_buffer a)) None version version)) (\<lambda>(header, _).
      let header_size = attribute_header_size header
      in rbind (get_attribute_total_size header (length (sa_buffer a))) (\<lambda>total_size.
      ensure (total_size = length (sa_buffer a)) (Elem VerifyFailed)
        (rbind (get_attribute_total_size (sa_header a) total_size) (\<lambda>old_total_size.
         ensure (total_size = old_total_size) (Elem VerifyFailed)
           (rbind (SendAttributeHeader_persist header
              (clone_with_new_buffers c None (Some (zeros total_size)) version version))
              (\<lambda>sub_context.
            rbind (slice_from (sa_buffer a) header_size) (\<lambda>rest.
            let new_attribute =
                  \<lparr>sa_header = header, sa_buffer = splice (dest_slice sub_context) header_size rest,
                   sa_uncompressed_size = total_size,
                   sa_uncompressed_payload_size = total_size - header_size, sa_version = version\<rparr>
            in ensure (SendAttribute_eq a new_attribute) (Elem VerifyFailed) (Inr ()))))))))))"

definition SendAttribute_persist :: "SendAttribute \<Rightarrow> ctx \<Rightarrow> ctx result" where
  "SendAttribute_persist a c =
     rbind (get_destination_version c) (\<lambda>destination_version.
     ensure (sa_version a = destination_version) (Elem VersionMismatch)
       (write_all c (sa_buffer a) (sa_uncompressed_size a)))"

definition is_send_a_path :: "SendAttribute \<Rightarrow> bool" where
  "is_send_a_path a = is_attribute_send_a_path (sa_header a)"

definition is_send_a_file_offset :: "SendAttribute \<Rightarrow> bool" where
  "is_send_a_file_offset a = is_attribute_send_a_file_offset (sa_header a)"

definition is_send_a_data :: "SendAttribute \<Rightarrow> bool" where
  "is_send_a_data a = is_attribute_send_a_data (sa_header a)"

definition get_payload_as_string :: "SendAttribute \<Rightarrow> bytes result" where
  "get_payload_as_string a =
     rbind (slice_from (sa_buffer a) (attribute_header_size (sa_header a))) from_utf8"

definition get_payload_as_u64 :: "SendAttribute \<Rightarrow> u64 result" where
  "get_payload_as_u64 a =
     rbind (slice_from (sa_buffer a) (attribute_header_size (sa_header a))) (\<lambda>payload_bytes.
     ensure (length payload_bytes = 8) (Elem PayloadNotEightBytes) (Inr (from_le payload_bytes)))"

section \<open>Progress\<close>

lemma SendAttributeHeader_new_progress:
  assumes "SendAttributeHeader_new c = Inr (h, c')"
  shows "get_read_offset c' = get_read_offset c + attribute_header_size h"
  using assms
  by (auto simp: SendAttributeHeader_new_def attribute_header_size_def result_simps
      split: option.splits if_splits dest!: read16_frame)

lemma attribute_header_size_ge: "2 \<le> attribute_header_size h"
  by (simp add: attribute_header_size_def)

text \<open>Reading an attribute consumes its whole encoding, at least the two bytes of a type.\<close>

lemma SendAttribute_new_progress:
  assumes "SendAttribute_new c = Inr (a, c')"
  shows "get_read_offset c < get_read_offset c'" "0 < SendAttribute_get_size a"
proof -
  from assms obtain h c1 sub bs version where
    h: "SendAttributeHeader_new c = Inr (h, c1)"
    and r: "read_exact c1 (length (drop (attribute_header_size h) (dest_slice sub))) = Inr (bs, c')"
    and a: "sa_buffer a = take (attribute_header_size h) (dest_slice sub) @ bs"
    and le: "attribute_header_size h \<le> length (dest_slice sub)"
    by (auto simp: SendAttribute_new_def Let_def result_simps)
  note hs = attribute_header_size_ge [of h]
  show "get_read_offset c < get_read_offset c'"
    using SendAttributeHeader_new_progress [OF h] read_exact_frame(2) [OF r] hs by simp
  show "0 < SendAttribute_get_size a"
    using a le hs by (auto simp: SendAttribute_get_size_def)
qed

lemma SendAttribute_persist_frame:
  assumes "SendAttribute_persist a c = Inr c'"
  shows "get_read_offset c' = get_read_offset c"
  using assms
  by (auto simp: SendAttribute_persist_def result_simps get_read_offset_def dest: write_all_frame(1))

end
