(* ===== verification/Command.thy ===== *)
theory Command
  imports Command_Header Attribute
begin

text \<open>
  \<open>send_elements/send_command.rs\<close>: a command keeps its encoded bytes in \<open>sc_buffer\<close> and a
  copy of its data attribute beside it. Appending and truncating change the copy and the
  start offset and leave the buffer stale (\<open>sc_data_attribute_dirty\<close>); \<open>flush\<close> and
  \<open>compress\<close> rebuild the buffer.
\<close>

definition BLOCK_SIZE :: nat where
  "BLOCK_SIZE = 4096"

record SendCommand =
  sc_header :: SendCommandHeader
  sc_buffer :: bytes
  sc_data_attribute :: "SendAttribute option"
  sc_data_attribute_initial_size :: "nat option"
  sc_data_attribute_dirty :: bool
  sc_path :: "bytes option"
  sc_start_offset :: "nat option"
  sc_uncompressed_size :: nat
  sc_version :: SendVersion

text \<open>The inner checksum is third-party; \<open>compute_crc32c\<close> supplies the initial value and
  the final complement.\<close>

definition compute_crc32c :: "externs \<Rightarrow> bytes \<Rightarrow> u32" where
  "compute_crc32c x buffer = NOT (crc32c_hw_update x (NOT 0) buffer)"

section \<open>Equality\<close>

definition opt_attribute_eq :: "SendAttribute option \<Rightarrow> SendAttribute option \<Rightarrow> bool" where
  "opt_attribute_eq a b =
     (case (a, b) of (None, None) \<Rightarrow> True | (Some s, Some t) \<Rightarrow> SendAttribute_eq s t | _ \<Rightarrow> False)"

definition SendCommand_eq :: "SendCommand \<Rightarrow> SendCommand \<Rightarrow> bool result" where
  "SendCommand_eq s other =
     (if sc_header s \<noteq> sc_header other \<or> sc_path s \<noteq> sc_path other \<or>
         sc_start_offset s \<noteq> sc_start_offset other \<or> sc_version s \<noteq> sc_version other
      then Inr False
      else if \<not> sc_data_attribute_dirty s \<and> \<not> sc_data_attribute_dirty other
      then Inr (sc_buffer s = sc_buffer other)
      else case (sc_data_attribute_initial_size s, sc_data_attribute_initial_size other) of
          (Some init, Some other_init) \<Rightarrow>
            rbind (usub (length (sc_buffer s)) init) (\<lambda>pre_data_attribute_size.
            rbind (usub (length (sc_buffer other)) other_init) (\<lambda>other_pre_data_attribute_size.
            if pre_data_attribute_size \<noteq> other_pre_data_attribute_size then Inr False
            else Inr (opt_attribute_eq (sc_data_attribute s) (sc_data_attribute other))))
        | _ \<Rightarrow> Inr False)"

section \<open>Walking the attributes\<close>

text \<open>What the parser caches while it walks the payload.\<close>

record ParsedAttributes =
  p_data_attribute :: "SendAttribute option"
  p_initial_size :: "nat option"
  p_path :: "bytes option"
  p_start_offset :: "nat option"

definition parsed_none :: ParsedAttributes where
  "parsed_none = \<lparr>p_data_attribute = None, p_initial_size = None, p_path = None, p_start_offset = None\<rparr>"

definition cache_attribute :: "SendAttribute \<Rightarrow> ParsedAttributes \<Rightarrow> ParsedAttributes result" where
  "cache_attribute attribute p =
     (if is_send_a_path attribute then
        rbind (get_payload_as_string attribute) (\<lambda>path. Inr (p\<lparr>p_path := Some path\<rparr>))
      else if is_send_a_file_offset attribute then
        rbind (get_payload_as_u64 attribute) (\<lambda>offset. Inr (p\<lparr>p_start_offset := Some (unat offset)\<rparr>))
      else if is_send_a_data attribute then
        Inr (p\<lparr>p_data_attribute := Some attribute,
               p_initial_size := Some (SendAttribute_get_size attribute)\<rparr>)
      else Inr p)"

text \<open>The loop of \<open>new_from_header\<close>.\<close>

function parse_attributes ::
  "ctx \<Rightarrow> nat \<Rightarrow> nat \<Rightarrow> ParsedAttributes \<Rightarrow> ParsedAttributes result" where
  "parse_attributes sub_context payload_size buffer_offset p =
     (if buffer_offset < payload_size then
        ensure (p_data_attribute p = None) (Cmd DataAttributeNotLast)
          (rbind (SendAttribute_new sub_context) (\<lambda>(attribute, sub_context1).
           rbind (cache_attribute attribute p) (\<lambda>p1.
           parse_attributes sub_context1 payload_size
             (buffer_offset + SendAttribute_get_size attribute) p1)))
      else Inr p)"
  by pat_completeness auto
termination
  by (relation "measure (\<lambda>(sub, n, off, p). n - off)")
    (auto dest!: SendAttribute_new_progress(2))

declare parse_attributes.simps [simp del]

text \<open>
  The loop that copies the attributes in front of the data attribute to a fresh buffer and
  replaces the file offset, in \<open>flush_pre_data_to_buffer\<close> and again in \<open>verify\<close>. The read
  offset of the child context is the loop variable, less the command header.
\<close>

function flush_attributes :: "ctx \<Rightarrow> nat \<Rightarrow> nat \<Rightarrow> ctx result" where
  "flush_attributes sub_context pre_data_size command_start_offset =
     (if get_read_offset sub_context + command_header_size < pre_data_size then
        rbind (SendAttribute_new sub_context) (\<lambda>(attribute, sub_context1).
        rbind (SendAttribute_verify attribute sub_context1) (\<lambda>_.
        rbind (if is_send_a_file_offset attribute
               then rbind (SendAttribute_new_from_u64 sub_context1 BTRFS_SEND_A_FILE_OFFSET
                             (word_of_nat command_start_offset))
                      (\<lambda>command_start_offset_attribute.
                       SendAttribute_persist command_start_offset_attribute sub_context1)
               else SendAttribute_persist attribute sub_context1) (\<lambda>sub_context2.
        ensure (get_read_offset sub_context2 + command_header_size =
                get_write_offset sub_context2 + command_header_size) (Cmd OffsetMismatch)
          (flush_attributes sub_context2 pre_data_size command_start_offset))))
      else Inr sub_context)"
  by pat_completeness auto
termination
proof (relation "measure (\<lambda>(sub, n, off). n - (get_read_offset sub + command_header_size))",
    goal_cases)
  case 1
  then show ?case by simp
next
  case (2 sub n off y attribute sub1 u sub2)
  then have "get_read_offset sub2 = get_read_offset sub1"
    by (auto simp: result_simps split: if_splits dest: SendAttribute_persist_frame)
  with 2 show ?case by (auto dest!: SendAttribute_new_progress(1))
qed

declare flush_attributes.simps [simp del]

text \<open>The loop of \<open>verify\<close> over the whole payload.\<close>

function verify_attributes ::
  "ctx \<Rightarrow> nat \<Rightarrow> ParsedAttributes \<Rightarrow> (ParsedAttributes \<times> ctx) result" where
  "verify_attributes sub_context total_size p =
     (if get_read_offset sub_context + command_header_size < total_size then
        rbind (SendAttribute_new sub_context) (\<lambda>(attribute, sub_context1).
        rbind (SendAttribute_verify attribute sub_context1) (\<lambda>_.
        rbind (SendAttribute_persist attribute sub_context1) (\<lambda>sub_context2.
        rbind (cache_attribute attribute p) (\<lambda>p1.
        ensure (get_read_offset sub_context2 + command_header_size =
                get_write_offset sub_context2 + command_header_size) (Elem VerifyFailed)
          (verify_attributes sub_context2 total_size p1)))))
      else Inr (p, sub_context))"
  by pat_completeness auto
termination
  by (relation "measure (\<lambda>(sub, n, p). n - (get_read_offset sub + command_header_size))")
    (auto dest!: SendAttribute_new_progress(1) SendAttribute_persist_frame)

declare verify_attributes.simps [simp del]

section \<open>Verification\<close>

text \<open>The bytes \<open>verify\<close> reads back: the buffer of a clean command, or what flushing a
  dirty one would give, under the stale header.\<close>

definition verify_source_buffer :: "SendCommand \<Rightarrow> ctx \<Rightarrow> bytes result" where
  "verify_source_buffer s c =
     (if \<not> sc_data_attribute_dirty s then Inr (sc_buffer s)
      else
        rbind (of_option (Cmd NoDataAttribute) (sc_data_attribute s)) (\<lambda>dirty_data_attribute.
        rbind (of_option (Cmd NoInitialSize) (sc_data_attribute_initial_size s)) (\<lambda>init.
        rbind (of_option (Cmd NoStartOffset) (sc_start_offset s)) (\<lambda>command_start_offset.
        rbind (usub (length (sc_buffer s)) init) (\<lambda>pre_size.
        let total_size = pre_size + SendAttribute_get_size dirty_data_attribute;
            version = sc_version s
        in rbind (slice_range (zeros total_size) 0 command_header_size) (\<lambda>_.
        rbind (slice_range (sc_buffer s) 0 command_header_size) (\<lambda>header_bytes.
        let flushed_buffer = splice (zeros total_size) 0 header_bytes
        in rbind (slice_range (sc_buffer s) command_header_size pre_size) (\<lambda>read_slice.
        rbind (slice_range flushed_buffer command_header_size pre_size) (\<lambda>write_slice.
        rbind (flush_attributes
                 (clone_with_new_buffers c (Some read_slice) (Some write_slice) version version)
                 pre_size command_start_offset) (\<lambda>sub_context.
        let flushed_buffer = splice flushed_buffer command_header_size (dest_slice sub_context)
        in rbind (slice_from flushed_buffer pre_size) (\<lambda>data_slice.
        rbind (SendAttribute_persist dirty_data_attribute
                 (clone_with_new_buffers c None (Some data_slice) version version)) (\<lambda>sub_context.
        Inr (splice flushed_buffer pre_size (dest_slice sub_context))))))))))))))"

definition SendCommand_verify :: "externs \<Rightarrow> SendCommand \<Rightarrow> ctx \<Rightarrow> unit result" where
  "SendCommand_verify x s c =
     (if \<not> serde_checks (ssuc_options c) then Inr ()
      else let version = sc_version s
      in rbind (verify_source_buffer s c) (\<lambda>source_buffer.
      rbind (SendCommandHeader_new
               (clone_with_new_buffers c (Some source_buffer) None version version)) (\<lambda>(header, _).
      rbind (get_command_payload_size header) (\<lambda>payload_size.
      let total_size = command_header_size + payload_size
      in rbind (get_command_payload_size (sc_header s)) (\<lambda>old_payload_size.
      ensure (total_size = length (sc_buffer s)) (Elem VerifyFailed)
        (ensure (total_size = command_header_size + old_payload_size) (Elem VerifyFailed)
          (let total_size = (if sc_data_attribute_dirty s then length source_buffer else total_size);
               buffer = zeros total_size
           in rbind (slice_from source_buffer command_header_size) (\<lambda>read_slice.
           rbind (slice_from buffer command_header_size) (\<lambda>write_slice.
           rbind (verify_attributes
                    (clone_with_new_buffers c (Some read_slice) (Some write_slice) version version)
                    total_size parsed_none) (\<lambda>(p, sub_context).
           ensure (get_read_offset sub_context + command_header_size = total_size) (Elem VerifyFailed)
             (let buffer = splice buffer command_header_size (dest_slice sub_context)
              in rbind (SendCommandHeader_persist header
                   (clone_with_new_buffers c None (Some buffer) version version)
                   (\<not> sc_data_attribute_dirty s)) (\<lambda>sub_context.
              rbind (if sc_data_attribute_dirty s then Inr (dest_slice sub_context)
                     else rbind (get_crc32c header) (\<lambda>stored_crc32c.
                       ensure (stored_crc32c = compute_crc32c x (dest_slice sub_context))
                         (Elem VerifyFailed)
                         (rbind (SendCommandHeader_persist header
                            (clone_with_new_buffers c None (Some (dest_slice sub_context)) version version)
                            False) (\<lambda>sub_context. Inr (dest_slice sub_context))))) (\<lambda>buffer.
              let new_command =
                    \<lparr>sc_header = header, sc_buffer = buffer,
                     sc_data_attribute = p_data_attribute p,
                     sc_data_attribute_initial_size = p_initial_size p,
                     sc_data_attribute_dirty = False, sc_path = p_path p,
                     sc_start_offset = p_start_offset p, sc_uncompressed_size = total_size,
                     sc_version = version\<rparr>
              in rbind (SendCommand_eq s new_command) (\<lambda>same.
                 ensure same (Elem VerifyFailed) (Inr ())))))))))))))))"

section \<open>Construction\<close>

definition SendCommand_new_from_header ::
  "externs \<Rightarrow> ctx \<Rightarrow> SendCommandHeader \<Rightarrow> (SendCommand \<times> ctx) result" where
  "SendCommand_new_from_header x c header =
     rbind (get_source_version c) (\<lambda>version.
     rbind (get_command_payload_size header) (\<lambda>payload_size.
     let total_size = command_header_size + payload_size
     in rbind (read_exact c payload_size) (\<lambda>(payload, c1).
     let buffer = zeros command_header_size @ payload
     in rbind (parse_attributes (clone_with_new_buffers c1 (Some payload) None version version)
                 payload_size 0 parsed_none) (\<lambda>p.
     rbind (if avoid_crcing_input (ssuc_options c1) then Inr buffer
            else rbind (SendCommandHeader_persist header
                   (clone_with_new_buffers c1 None (Some buffer) version version) True) (\<lambda>sub_context.
              rbind (get_crc32c header) (\<lambda>stored_crc32c.
              ensure (stored_crc32c = compute_crc32c x (dest_slice sub_context)) (Cmd CrcMismatch)
                (Inr (dest_slice sub_context))))) (\<lambda>buffer.
     rbind (SendCommandHeader_persist header
              (clone_with_new_buffers c1 None (Some buffer) version version) False) (\<lambda>sub_context.
     let command =
           \<lparr>sc_header = header, sc_buffer = dest_slice sub_context,
            sc_data_attribute = p_data_attribute p,
            sc_data_attribute_initial_size = p_initial_size p,
            sc_data_attribute_dirty = False, sc_path = p_path p,
            sc_start_offset = p_start_offset p, sc_uncompressed_size = total_size,
            sc_version = version\<rparr>
     in rbind (SendCommand_verify x command c1) (\<lambda>_. Inr (command, c1))))))))"

definition SendCommand_new :: "externs \<Rightarrow> ctx \<Rightarrow> (SendCommand \<times> ctx) result" where
  "SendCommand_new x c =
     rbind (SendCommandHeader_new c) (\<lambda>(header, c1). SendCommand_new_from_header x c1 header)"

section \<open>Predicates and small accessors\<close>

definition SendCommand_is_appendable :: "SendCommand \<Rightarrow> bool" where
  "SendCommand_is_appendable s = SendCommandHeader_is_appendable (sc_header s)"

definition SendCommand_can_append :: "SendCommand \<Rightarrow> SendCommand \<Rightarrow> bool result" where
  "SendCommand_can_append s other =
     (case (sc_data_attribute s, sc_start_offset s, sc_start_offset other) of
        (Some data_attribute, Some start_offset, Some other_start_offset) \<Rightarrow>
          if sc_version s = sc_version other \<and>
             are_commands_appendable (sc_header s) (sc_header other) \<and>
             sc_path s = sc_path other \<and> sc_data_attribute other \<noteq> None
          then rbind (uadd start_offset (sa_uncompressed_payload_size data_attribute)) (\<lambda>end_offset.
               Inr (end_offset = other_start_offset))
          else Inr False
      | _ \<Rightarrow> Inr False)"

definition SendCommand_is_upgradeable :: "SendCommand \<Rightarrow> ctx \<Rightarrow> bool result" where
  "SendCommand_is_upgradeable s c = is_command_upgradeable (sc_header s) c"

definition SendCommand_is_compressible :: "SendCommand \<Rightarrow> bool" where
  "SendCommand_is_compressible s = is_command_compressible (sc_header s)"

definition SendCommand_is_end :: "SendCommand \<Rightarrow> bool" where
  "SendCommand_is_end s = is_command_end (sc_header s)"

definition SendCommand_is_empty :: "SendCommand \<Rightarrow> bool" where
  "SendCommand_is_empty s =
     (case sc_data_attribute s of None \<Rightarrow> False | Some a \<Rightarrow> sa_uncompressed_payload_size a = 0)"

definition SendCommand_is_full :: "SendCommand \<Rightarrow> ctx \<Rightarrow> bool" where
  "SendCommand_is_full s c =
     (case sc_data_attribute s of None \<Rightarrow> False
      | Some a \<Rightarrow> maximum_batched_extent_size (ssuc_options c) \<le> sa_uncompressed_payload_size a)"

definition get_cached_data_payload_size :: "SendCommand \<Rightarrow> nat" where
  "get_cached_data_payload_size s =
     (case sc_data_attribute s of Some a \<Rightarrow> get_payload_size a | None \<Rightarrow> 0)"

section \<open>Upgrade\<close>

text \<open>The loop of \<open>upgrade\<close>: each attribute is read in the old version, upgraded, and written
  in the new one.\<close>

function upgrade_attributes ::
  "ctx \<Rightarrow> ctx \<Rightarrow> nat \<Rightarrow> SendAttribute option \<times> nat option \<Rightarrow>
   ((SendAttribute option \<times> nat option) \<times> ctx) result" where
  "upgrade_attributes c sub_context old_total_size data =
     (if get_read_offset sub_context + command_header_size < old_total_size then
        rbind (SendAttribute_new sub_context) (\<lambda>(attribute, sub_context1).
        rbind (SendAttribute_is_upgradeable attribute c) (\<lambda>upgradeable.
        rbind (if upgradeable then SendAttribute_upgrade attribute sub_context1
               else SendAttribute_fake_an_upgrade attribute sub_context1) (\<lambda>attribute.
        rbind (SendAttribute_persist attribute sub_context1) (\<lambda>sub_context2.
        if is_send_a_data attribute then
          upgrade_attributes c sub_context2 old_total_size
            (Some attribute, Some (SendAttribute_get_size attribute))
        else ensure (\<not> SendAttribute_is_compressible attribute) (Cmd CompressibleNonData)
          (upgrade_attributes c sub_context2 old_total_size data)))))
      else Inr (data, sub_context))"
  by pat_completeness auto
termination
  by (relation "measure (\<lambda>(c, sub, n, data). n - (get_read_offset sub + command_header_size))")
    (auto dest!: SendAttribute_new_progress(1) SendAttribute_persist_frame)

declare upgrade_attributes.simps [simp del]

definition SendCommand_upgrade :: "externs \<Rightarrow> SendCommand \<Rightarrow> ctx \<Rightarrow> SendCommand result" where
  "SendCommand_upgrade x s c =
     (let source_version = sc_version s
      in rbind (get_destination_version c) (\<lambda>destination_version.
      rbind (SendCommand_is_upgradeable s c) (\<lambda>upgradeable.
      ensure upgradeable (Elem NotUpgradeable)
        (rbind (SendCommandHeader_upgrade (sc_header s) c) (\<lambda>upgraded_header.
         rbind (get_command_payload_size (sc_header s)) (\<lambda>old_payload_size.
         let old_total_size = command_header_size + old_payload_size;
             upgraded_buffer = zeros old_total_size
         in rbind (slice_from (sc_buffer s) command_header_size) (\<lambda>read_slice.
         rbind (upgrade_attributes c
                  (clone_with_new_buffers c (Some read_slice)
                     (Some (drop command_header_size upgraded_buffer)) source_version destination_version)
                  old_total_size (None, None)) (\<lambda>((data_attribute, initial_size), sub_context).
         let old_offset = get_read_offset sub_context + command_header_size;
             new_offset = get_write_offset sub_context + command_header_size;
             upgraded_buffer = splice upgraded_buffer command_header_size (dest_slice sub_context)
         in ensure (old_offset = old_total_size) (Cmd OffsetMismatch)
           (rbind (usub32 (word_of_nat new_offset) (word_of_nat command_header_size))
              (\<lambda>new_payload_size.
            rbind (set_size upgraded_header new_payload_size) (\<lambda>upgraded_header.
            let upgraded_buffer = take new_offset upgraded_buffer
            in rbind (SendCommandHeader_persist upgraded_header
                 (clone_with_new_buffers c None (Some upgraded_buffer) source_version destination_version)
                 True) (\<lambda>sub_context.
            let upgraded_buffer = dest_slice sub_context
            in rbind (set_crc32c upgraded_header (compute_crc32c x upgraded_buffer))
                 (\<lambda>upgraded_header.
            rbind (SendCommandHeader_persist upgraded_header
                 (clone_with_new_buffers c None (Some upgraded_buffer) source_version destination_version)
                 False) (\<lambda>sub_context.
            let new_command =
                  s\<lparr>sc_header := upgraded_header, sc_buffer := dest_slice sub_context,
                    sc_data_attribute := data_attribute,
                    sc_data_attribute_initial_size := initial_size,
                    sc_data_attribute_dirty := False, sc_uncompressed_size := new_offset,
                    sc_version := destination_version\<rparr>
            in rbind (SendCommand_verify x new_command c) (\<lambda>_. Inr new_command)))))))))))))))"

definition SendCommand_fake_an_upgrade :: "SendCommand \<Rightarrow> ctx \<Rightarrow> SendCommand result" where
  "SendCommand_fake_an_upgrade s c =
     rbind (SendCommand_is_upgradeable s c) (\<lambda>upgradeable.
     ensure (\<not> upgradeable) (Elem FakeUpgradeOfUpgradeable)
       (rbind (SendCommandHeader_fake_an_upgrade (sc_header s) c) (\<lambda>header.
        rbind (get_destination_version c) (\<lambda>version.
        Inr (s\<lparr>sc_header := header, sc_version := version\<rparr>)))))"

section \<open>Flush\<close>

definition flush_pre_data_to_buffer :: "SendCommand \<Rightarrow> ctx \<Rightarrow> bytes \<Rightarrow> bool \<Rightarrow> bytes result" where
  "flush_pre_data_to_buffer s c buffer allow_clean =
     rbind (of_option (Cmd NoInitialSize) (sc_data_attribute_initial_size s)) (\<lambda>init.
     rbind (get_destination_version c) (\<lambda>destination_version.
     rbind (get_command_payload_size (sc_header s)) (\<lambda>old_payload_size.
     rbind (usub (command_header_size + old_payload_size) init) (\<lambda>old_pre_data_size.
     rbind (of_option (Cmd NoStartOffset) (sc_start_offset s)) (\<lambda>command_start_offset.
     ensure (sc_data_attribute_dirty s \<or> allow_clean) (Cmd CleanCommand)
       (rbind (slice_range (sc_buffer s) command_header_size old_pre_data_size) (\<lambda>read_slice.
        rbind (slice_range buffer command_header_size old_pre_data_size) (\<lambda>write_slice.
        rbind (flush_attributes
                 (clone_with_new_buffers c (Some read_slice) (Some write_slice)
                    (sc_version s) destination_version)
                 old_pre_data_size command_start_offset) (\<lambda>sub_context.
        Inr (splice buffer command_header_size (dest_slice sub_context)))))))))))"

definition flush_header_to_buffer ::
  "externs \<Rightarrow> ctx \<Rightarrow> bytes \<Rightarrow> SendCommandHeader \<Rightarrow> (bytes \<times> SendCommandHeader) result" where
  "flush_header_to_buffer x c buffer header =
     rbind (get_destination_version c) (\<lambda>version.
     rbind (SendCommandHeader_persist header
              (clone_with_new_buffers c None (Some buffer) version version) True) (\<lambda>sub_context.
     rbind (set_crc32c header (compute_crc32c x (dest_slice sub_context))) (\<lambda>header.
     rbind (SendCommandHeader_persist header
              (clone_with_new_buffers c None (Some (dest_slice sub_context)) version version) False)
       (\<lambda>sub_context. Inr (dest_slice sub_context, header)))))"

definition SendCommand_flush :: "externs \<Rightarrow> SendCommand \<Rightarrow> ctx \<Rightarrow> SendCommand result" where
  "SendCommand_flush x s c =
     rbind (get_destination_version c) (\<lambda>destination_version.
     ensure (sc_data_attribute_dirty s) (Cmd CleanCommand)
       (rbind (of_option (Cmd NoDataAttribute) (sc_data_attribute s)) (\<lambda>data_attribute.
        rbind (of_option (Cmd NoInitialSize) (sc_data_attribute_initial_size s)) (\<lambda>init.
        rbind (SendCommandHeader_copy (sc_header s) None) (\<lambda>flush_header.
        rbind (get_command_payload_size (sc_header s)) (\<lambda>old_payload_size.
        rbind (usub (command_header_size + old_payload_size) init) (\<lambda>old_pre_data_size.
        let data_attribute_size = SendAttribute_get_size data_attribute;
            new_total_size = old_pre_data_size + data_attribute_size
        in rbind (usub32 (word_of_nat new_total_size) (word_of_nat command_header_size))
             (\<lambda>new_payload_size.
        rbind (flush_pre_data_to_buffer s c (zeros new_total_size) False) (\<lambda>buffer.
        rbind (slice_from (sc_buffer s) old_pre_data_size) (\<lambda>read_slice.
        rbind (slice_from buffer old_pre_data_size) (\<lambda>write_slice.
        rbind (SendAttribute_persist data_attribute
                 (clone_with_new_buffers c (Some read_slice) (Some write_slice)
                    (sc_version s) destination_version)) (\<lambda>sub_context.
        let buffer = splice buffer old_pre_data_size (dest_slice sub_context)
        in rbind (set_size flush_header new_payload_size) (\<lambda>flush_header.
        rbind (flush_header_to_buffer x c buffer flush_header) (\<lambda>(buffer, flush_header).
        Inr (s\<lparr>sc_header := flush_header, sc_buffer := buffer,
               sc_data_attribute_initial_size := Some data_attribute_size,
               sc_data_attribute_dirty := False\<rparr>)))))))))))))))"

section \<open>Compression\<close>

text \<open>The three steps taken for each of the attributes that describe the encoding: build it,
  check that it fits, write it.\<close>

definition compress_put_u64 :: "ctx \<Rightarrow> BtrfsSendAttributeType \<Rightarrow> u64 \<Rightarrow> ctx result" where
  "compress_put_u64 sub_context attribute_type value =
     rbind (SendAttribute_new_from_u64 sub_context attribute_type value) (\<lambda>metadata_attribute.
     rbind (compress_space_check metadata_attribute sub_context) (\<lambda>_.
     SendAttribute_persist metadata_attribute sub_context))"

definition compress_put_u32 :: "ctx \<Rightarrow> BtrfsSendAttributeType \<Rightarrow> u32 \<Rightarrow> ctx result" where
  "compress_put_u32 sub_context attribute_type value =
     rbind (SendAttribute_new_from_u32 sub_context attribute_type value) (\<lambda>metadata_attribute.
     rbind (compress_space_check metadata_attribute sub_context) (\<lambda>_.
     SendAttribute_persist metadata_attribute sub_context))"

text \<open>The region of the command after the pre-data attributes: the metadata of the encoding
  and the compressed data attribute.\<close>

definition compress_data_region ::
  "externs \<Rightarrow> SendAttribute \<Rightarrow> ctx \<Rightarrow> (SendAttribute \<times> ctx \<times> nat) result" where
  "compress_data_region x data_attribute sub_context =
     (let start_offset = get_write_offset sub_context;
          uncompressed_size = word_of_nat (sa_uncompressed_payload_size data_attribute)
      in rbind (compress_put_u64 sub_context BTRFS_SEND_A_UNENCODED_FILE_LEN uncompressed_size)
           (\<lambda>sub_context.
      rbind (compress_put_u64 sub_context BTRFS_SEND_A_UNENCODED_LEN uncompressed_size)
           (\<lambda>sub_context.
      rbind (compress_put_u64 sub_context BTRFS_SEND_A_UNENCODED_OFFSET 0) (\<lambda>sub_context.
      rbind (compress_put_u32 sub_context BTRFS_SEND_A_COMPRESSION BTRFS_ENCODED_IO_COMPRESSION_ZSTD)
           (\<lambda>sub_context.
      let extra_bytes_written = get_write_offset sub_context - start_offset
      in rbind (SendAttribute_compress x data_attribute sub_context extra_bytes_written)
           (\<lambda>compressed_attribute.
      rbind (SendAttribute_persist compressed_attribute sub_context) (\<lambda>sub_context.
      Inr (compressed_attribute, sub_context, get_write_offset sub_context - start_offset))))))))"

text \<open>The attributes in front of the data: copied from a clean command, flushed from a dirty one.\<close>

definition compress_pre_data :: "SendCommand \<Rightarrow> ctx \<Rightarrow> nat \<Rightarrow> bytes \<Rightarrow> bytes result" where
  "compress_pre_data s c old_pre_data_size compressed_buffer =
     rbind (get_destination_version c) (\<lambda>destination_version.
     if \<not> sc_data_attribute_dirty s then
       rbind (slice_range (sc_buffer s) command_header_size old_pre_data_size) (\<lambda>read_slice.
       rbind (slice_range compressed_buffer command_header_size old_pre_data_size) (\<lambda>write_slice.
       rbind (read_exact (clone_with_new_buffers c (Some read_slice) None
                (sc_version s) destination_version) (length write_slice)) (\<lambda>(pre_data, _).
       Inr (splice compressed_buffer command_header_size pre_data))))
     else flush_pre_data_to_buffer s c compressed_buffer False)"

definition SendCommand_compress :: "externs \<Rightarrow> SendCommand \<Rightarrow> ctx \<Rightarrow> SendCommand result" where
  "SendCommand_compress x s c =
     (let source_version = sc_version s
      in rbind (get_destination_version c) (\<lambda>destination_version.
      ensure (SendCommand_is_compressible s) (Elem NotCompressible)
        (rbind (of_option (Cmd NoDataAttribute) (sc_data_attribute s)) (\<lambda>data_attribute.
         rbind (of_option (Cmd NoInitialSize) (sc_data_attribute_initial_size s)) (\<lambda>init.
         ensure (SendAttribute_is_compressible data_attribute) (Elem NotCompressible)
           (rbind (SendCommandHeader_compress (sc_header s) c) (\<lambda>compressed_header.
            rbind (get_command_payload_size (sc_header s)) (\<lambda>old_payload_size.
            rbind (usub (command_header_size + old_payload_size) init) (\<lambda>old_pre_data_size.
            let new_max_total_size = old_pre_data_size + SendAttribute_get_size data_attribute
            in rbind (usub32 (word_of_nat new_max_total_size) (word_of_nat command_header_size))
                 (\<lambda>new_max_payload_size.
            rbind (compress_pre_data s c old_pre_data_size (zeros new_max_total_size))
              (\<lambda>compressed_buffer.
            rbind (slice_from (sc_buffer s) old_pre_data_size) (\<lambda>read_slice.
            rbind (slice_from compressed_buffer old_pre_data_size) (\<lambda>write_slice.
            rbind (compress_data_region x data_attribute
                     (clone_with_new_buffers c (Some read_slice) (Some write_slice)
                        source_version destination_version))
              (\<lambda>(compressed_data_attribute, sub_context, extra_bytes_written).
            let compressed_buffer = splice compressed_buffer old_pre_data_size (dest_slice sub_context);
                new_total_size = old_pre_data_size + extra_bytes_written
            in rbind (usub32 (word_of_nat new_total_size) (word_of_nat command_header_size))
                 (\<lambda>new_payload_size.
            ensure (new_payload_size \<le> new_max_payload_size) (Cmd CommandGrew)
              (rbind (set_size compressed_header new_payload_size) (\<lambda>compressed_header.
               ensure (new_total_size \<le> length compressed_buffer) (Cmd CommandGrew)
                 (rbind (flush_header_to_buffer x c (take new_total_size compressed_buffer)
                           compressed_header) (\<lambda>(compressed_buffer, compressed_header).
                  let new_command =
                        s\<lparr>sc_header := compressed_header, sc_buffer := compressed_buffer,
                          sc_data_attribute := Some compressed_data_attribute,
                          sc_data_attribute_initial_size :=
                            Some (SendAttribute_get_size compressed_data_attribute),
                          sc_data_attribute_dirty := False, sc_version := destination_version\<rparr>
                  in rbind (SendCommand_verify x new_command c) (\<lambda>_. Inr new_command))))))))))))))))))))"

section \<open>Append, truncate, copy\<close>

definition SendCommand_append ::
  "externs \<Rightarrow> SendCommand \<Rightarrow> ctx \<Rightarrow> SendCommand \<Rightarrow> (nat \<times> SendCommand) result" where
  "SendCommand_append x s c other =
     rbind (SendCommand_can_append s other) (\<lambda>can_append.
     ensure can_append (Elem NotAppendable)
       (rbind (of_option (Cmd NoDataAttribute) (sc_data_attribute s)) (\<lambda>data_attribute.
        rbind (of_option (Cmd NoDataAttribute) (sc_data_attribute other)) (\<lambda>other_data_attribute.
        rbind (SendAttribute_append data_attribute other_data_attribute
                 (maximum_batched_extent_size (ssuc_options c))) (\<lambda>(bytes_appended, data_attribute).
        let s1 = s\<lparr>sc_data_attribute := Some data_attribute,
                   sc_uncompressed_size := sc_uncompressed_size s + bytes_appended,
                   sc_data_attribute_dirty := True\<rparr>
        in rbind (SendCommand_verify x s1 c) (\<lambda>_. Inr (bytes_appended, s1)))))))"

definition truncate_data_payload_at_start ::
  "externs \<Rightarrow> SendCommand \<Rightarrow> ctx \<Rightarrow> nat \<Rightarrow> SendCommand result" where
  "truncate_data_payload_at_start x s c bytes_to_remove =
     rbind (of_option (Cmd NoDataAttribute) (sc_data_attribute s)) (\<lambda>data_attribute.
     rbind (of_option (Cmd NoInitialSize) (sc_data_attribute_initial_size s)) (\<lambda>_.
     rbind (of_option (Cmd NoStartOffset) (sc_start_offset s)) (\<lambda>offset.
     rbind (truncate_payload_at_start data_attribute bytes_to_remove) (\<lambda>data_attribute.
     rbind (usub (sc_uncompressed_size s) bytes_to_remove) (\<lambda>uncompressed_size.
     rbind (uadd offset bytes_to_remove) (\<lambda>start_offset.
     let s1 = s\<lparr>sc_data_attribute := Some data_attribute, sc_uncompressed_size := uncompressed_size,
                sc_data_attribute_dirty := True, sc_start_offset := Some start_offset\<rparr>
     in rbind (SendCommand_verify x s1 c) (\<lambda>_. Inr s1)))))))"

definition SendCommand_copy_range ::
  "externs \<Rightarrow> SendCommand \<Rightarrow> ctx \<Rightarrow> nat \<Rightarrow> nat \<Rightarrow> SendCommand result" where
  "SendCommand_copy_range x s c data_payload_start_offset data_payload_end_offset =
     ensure (\<not> sc_data_attribute_dirty s) (Cmd DirtyCommand)
       (ensure (SendCommand_is_appendable s) (Elem NotAppendable)
         (let version = sc_version s
          in rbind (of_option (Cmd NoDataAttribute) (sc_data_attribute s)) (\<lambda>old_data_attribute.
          rbind (of_option (Cmd NoInitialSize) (sc_data_attribute_initial_size s)) (\<lambda>init.
          ensure (init = SendAttribute_get_size old_data_attribute) (Cmd BadInitialSize)
            (rbind (get_command_payload_size (sc_header s)) (\<lambda>old_payload_size.
             rbind (usub data_payload_end_offset data_payload_start_offset) (\<lambda>new_data_payload_size.
             rbind (usub (command_header_size + old_payload_size + new_data_payload_size)
                      (get_payload_size old_data_attribute)) (\<lambda>new_total_size.
             rbind (usub new_total_size command_header_size) (\<lambda>new_payload_size.
             rbind (SendCommandHeader_copy (sc_header s) (Some (word_of_nat new_payload_size))) (\<lambda>header.
             let buffer = zeros new_total_size
             in rbind (slice_range buffer 0 command_header_size) (\<lambda>header_slice.
             rbind (SendCommandHeader_persist header
                      (clone_with_new_buffers c None (Some header_slice) version version) True)
               (\<lambda>sub_context.
             rbind (flush_pre_data_to_buffer s c (splice buffer 0 (dest_slice sub_context)) True)
               (\<lambda>buffer.
             rbind (of_option (Cmd NoPath) (sc_path s)) (\<lambda>path.
             rbind (of_option (Cmd NoStartOffset) (sc_start_offset s)) (\<lambda>offset.
             rbind (uadd offset data_payload_start_offset) (\<lambda>start_offset.
             rbind (SendAttribute_copy_range old_data_attribute c data_payload_start_offset
                      data_payload_end_offset) (\<lambda>data_attribute.
             let command =
                   \<lparr>sc_header = header, sc_buffer = buffer, sc_data_attribute = Some data_attribute,
                    sc_data_attribute_initial_size = Some (SendAttribute_get_size data_attribute),
                    sc_data_attribute_dirty = True, sc_path = Some path,
                    sc_start_offset = Some start_offset, sc_uncompressed_size = new_total_size,
                    sc_version = version\<rparr>
             in rbind (SendCommand_verify x command c) (\<lambda>_. Inr command))))))))))))))))))"

section \<open>Padding and persistence\<close>

text \<open>Up to the next block boundary, or one block further if the pad command does not fit.\<close>

definition pad_command_size :: "nat \<Rightarrow> nat \<Rightarrow> nat \<Rightarrow> nat \<Rightarrow> nat" where
  "pad_command_size write_offset pre_data_attribute_size data_attribute_header_size minimum_command_size =
     (let pad_size = BLOCK_SIZE -
            (write_offset + pre_data_attribute_size + data_attribute_header_size) mod BLOCK_SIZE
      in if pad_size < minimum_command_size then pad_size + BLOCK_SIZE else pad_size)"

definition generate_pad_command :: "externs \<Rightarrow> SendCommand \<Rightarrow> ctx \<Rightarrow> SendCommand result" where
  "generate_pad_command x s c =
     rbind (get_destination_version c) (\<lambda>version.
     ensure (\<not> sc_data_attribute_dirty s) (Cmd DirtyCommand)
       (rbind (of_option (Cmd NoDataAttribute) (sc_data_attribute s)) (\<lambda>data_attribute.
        rbind (of_option (Cmd NoInitialSize) (sc_data_attribute_initial_size s)) (\<lambda>init.
        rbind (usub (length (sc_buffer s)) init) (\<lambda>pre_data_attribute_size.
        rbind (SendAttribute_new_from_string c BTRFS_SEND_A_PATH []) (\<lambda>path_attribute.
        rbind (SendAttribute_new_from_u64 c BTRFS_SEND_A_FILE_OFFSET 0) (\<lambda>file_offset_attribute.
        rbind (SendAttribute_new_from_u64 c BTRFS_SEND_A_SIZE 0) (\<lambda>size_attribute.
        let data_attribute_header_size =
              SendAttribute_get_size data_attribute - get_payload_size data_attribute;
            minimum_command_size = command_header_size + SendAttribute_get_size path_attribute +
              SendAttribute_get_size file_offset_attribute + SendAttribute_get_size size_attribute;
            pad_size = pad_command_size (get_write_offset c) pre_data_attribute_size
              data_attribute_header_size minimum_command_size;
            pad_payload_size = pad_size - command_header_size
        in rbind (generate_pad_command_header c pad_payload_size) (\<lambda>header.
        let pad_path = replicate (pad_size - minimum_command_size) 0x61
        in rbind (SendAttribute_new_from_string c BTRFS_SEND_A_PATH pad_path) (\<lambda>path_attribute.
        rbind (SendCommandHeader_persist header
                 (clone_with_new_buffers c None (Some (zeros pad_size)) version version) True)
          (\<lambda>sub_context.
        rbind (SendAttribute_persist path_attribute sub_context) (\<lambda>sub_context.
        rbind (SendAttribute_persist file_offset_attribute sub_context) (\<lambda>sub_context.
        rbind (SendAttribute_persist size_attribute sub_context) (\<lambda>sub_context.
        ensure (get_write_offset sub_context - 0 = pad_size) (Cmd BadPadding)
          (rbind (set_crc32c header (compute_crc32c x (dest_slice sub_context))) (\<lambda>header.
           rbind (SendCommandHeader_persist header
                    (clone_with_new_buffers c None (Some (dest_slice sub_context)) version version)
                    False) (\<lambda>sub_context.
           Inr \<lparr>sc_header = header, sc_buffer = dest_slice sub_context, sc_data_attribute = None,
                sc_data_attribute_initial_size = None, sc_data_attribute_dirty = False,
                sc_path = None, sc_start_offset = None, sc_uncompressed_size = pad_size,
                sc_version = version\<rparr>)))))))))))))))))"

text \<open>The block of \<open>persist\<close> that writes a pad command before a command whose payload can be
  cloned from the stream.\<close>

definition persist_pad :: "externs \<Rightarrow> SendCommand \<Rightarrow> ctx \<Rightarrow> ctx result" where
  "persist_pad x s c =
     rbind (of_option (Cmd NoDataAttribute) (sc_data_attribute s)) (\<lambda>data_attribute.
     rbind (of_option (Cmd NoStartOffset) (sc_start_offset s)) (\<lambda>start_offset.
     if start_offset mod BLOCK_SIZE = 0 \<and> get_payload_size data_attribute mod BLOCK_SIZE = 0 then
       rbind (generate_pad_command x s c) (\<lambda>pad_command.
       rbind (write_all c (sc_buffer pad_command) (sc_uncompressed_size pad_command)) (\<lambda>c1.
       rbind (of_option (Cmd NoInitialSize) (sc_data_attribute_initial_size s)) (\<lambda>init.
       rbind (usub (length (sc_buffer s)) init) (\<lambda>pre_data_attribute_size.
       let data_attribute_header_size =
             SendAttribute_get_size data_attribute - get_payload_size data_attribute;
           expected_data_payload_offset =
             get_write_offset c1 + pre_data_attribute_size + data_attribute_header_size
       in ensure (expected_data_payload_offset mod BLOCK_SIZE = 0) (Cmd BadPadding) (Inr c1)))))
     else Inr c))"

definition SendCommand_persist :: "externs \<Rightarrow> SendCommand \<Rightarrow> ctx \<Rightarrow> ctx result" where
  "SendCommand_persist x s c =
     rbind (SendCommand_verify x s c) (\<lambda>_.
     rbind (get_destination_version c) (\<lambda>destination_version.
     ensure (sc_version s = destination_version) (Elem VersionMismatch)
       (ensure (\<not> sc_data_attribute_dirty s) (Cmd DirtyCommand)
         (rbind (if pad_with_dummy_commands (ssuc_options c) \<and> is_paddable (sc_header s)
                 then persist_pad x s c else Inr c) (\<lambda>c1.
          write_all c1 (sc_buffer s) (sc_uncompressed_size s))))))"

end
