(* ===== verification/Slice_Context.thy ===== *)
theory Slice_Context
  imports Command
begin

text \<open>
  Contexts over slices, in the shape the proofs use: \<open>sctx\<close> names both slices, both offsets
  and both versions of a child context, and the lemmas evaluate every primitive on it. The
  component proofs rewrite with them and never unfold the context records.
\<close>

definition sctx ::
  "SendStreamUpgradeOptions \<Rightarrow> bytes option \<Rightarrow> nat \<Rightarrow> SendVersion \<Rightarrow>
   bytes option \<Rightarrow> nat \<Rightarrow> SendVersion \<Rightarrow> ctx" where
  "sctx opts r i sv w j dv =
     \<lparr>ssuc_options = opts, ssuc_source = Source_new_from_slice r i (Some sv),
      ssuc_destination = Destination_new_from_slice w j (Some dv),
      ssuc_associated_with_parent = True\<rparr>"

lemma clone_is_sctx [simp]:
  "clone_with_new_buffers c r w sv dv = sctx (ssuc_options c) r 0 sv w 0 dv"
  by (simp add: clone_with_new_buffers_def sctx_def)

lemma sctx_simps [simp]:
  "ssuc_options (sctx opts r i sv w j dv) = opts"
  "get_read_offset (sctx opts r i sv w j dv) = i"
  "get_write_offset (sctx opts r i sv w j dv) = j"
  "get_source_version (sctx opts r i sv w j dv) = Inr sv"
  "get_destination_version (sctx opts r i sv w j dv) = Inr dv"
  "get_read_len (sctx opts (Some rs) i sv w j dv) = Inr (length rs)"
  "get_write_len (sctx opts r i sv (Some ws) j dv) = Inr (length ws)"
  "dest_slice (sctx opts r i sv (Some ws) j dv) = ws"
  by (simp_all add: sctx_def get_read_offset_def get_write_offset_def get_source_version_def
      get_destination_version_def get_read_len_def get_write_len_def dest_slice_def
      Source_new_from_slice_def Destination_new_from_slice_def Source_get_version_def
      Destination_get_version_def Source_get_length_def Destination_get_length_def)

lemma read_exact_sctx:
  "i + n \<le> length r \<Longrightarrow>
   read_exact (sctx opts (Some r) i sv w j dv) n =
     Inr (take n (drop i r), sctx opts (Some r) (i + n) sv w j dv)"
  by (simp add: read_exact_def Context_read_def Source_read_def sctx_def Source_new_from_slice_def)

lemma read_exact_sctx_panics:
  "length r < i + n \<Longrightarrow>
   read_exact (sctx opts (Some r) i sv w j dv) n = Inl (Panic SliceIndexOutOfRange)"
  by (simp add: read_exact_def Context_read_def Source_read_def sctx_def Source_new_from_slice_def
      slice_range_def)

lemma write_all_sctx:
  "j + length bs \<le> length w \<Longrightarrow>
   write_all (sctx opts r i sv (Some w) j dv) bs n =
     Inr (sctx opts r i sv (Some (splice w j bs)) (j + length bs) dv)"
  by (simp add: write_all_def Destination_write_all_def sctx_def Destination_new_from_slice_def)

text \<open>Reading the next piece of a slice, and writing behind what is already written.\<close>

lemma read_exact_next [simp]:
  "length pre = i \<Longrightarrow> length bs = n \<Longrightarrow>
   read_exact (sctx opts (Some (pre @ bs @ rest)) i sv w j dv) n =
     Inr (bs, sctx opts (Some (pre @ bs @ rest)) (i + n) sv w j dv)"
  by (simp add: read_exact_sctx)

lemma write_all_next [simp]:
  "length pre = j \<Longrightarrow> length bs \<le> length rest \<Longrightarrow>
   write_all (sctx opts r i sv (Some (pre @ rest)) j dv) bs n =
     Inr (sctx opts r i sv (Some (pre @ bs @ drop (length bs) rest)) (j + length bs) dv)"
  by (simp add: write_all_sctx splice_def)

lemma write_all_first [simp]:
  "length bs \<le> length rest \<Longrightarrow>
   write_all (sctx opts r i sv (Some rest) 0 dv) bs n =
     Inr (sctx opts r i sv (Some (bs @ drop (length bs) rest)) (length bs) dv)"
  by (simp add: write_all_sctx)

lemma read16_next:
  "length pre = i \<Longrightarrow>
   read16 (sctx opts (Some (pre @ le16 v @ rest)) i sv w j dv) =
     Inr (v, sctx opts (Some (pre @ le16 v @ rest)) (i + 2) sv w j dv)"
  by (simp add: read16_def)

lemma read32_next:
  "length pre = i \<Longrightarrow>
   read32 (sctx opts (Some (pre @ le32 v @ rest)) i sv w j dv) =
     Inr (v, sctx opts (Some (pre @ le32 v @ rest)) (i + 4) sv w j dv)"
  by (simp add: read32_def)

end
