(* ===== verification/Wire.thy ===== *)
theory Wire
  imports Slice_Context
begin

text \<open>
  The wire format of send streams as an abstract specification, and the proof that the
  attribute layer implements it.

  An attribute is a type and a payload; on the wire it is the type, the payload size unless
  the version leaves it out, and the payload. A command is a type, its attributes in front
  of the data attribute, and the data, if it has any; on the wire it is the payload size,
  the type, the checksum of the whole command with a zero checksum field, and the encoded
  attributes. \<open>mk_attr\<close> is the in-memory attribute for such a pair.
\<close>

section \<open>Attributes\<close>

type_synonym attr = "BtrfsSendAttributeType \<times> bytes"

definition sizeless :: "SendVersion \<Rightarrow> BtrfsSendAttributeType \<Rightarrow> bool" where
  "sizeless v t \<longleftrightarrow> t = BTRFS_SEND_A_DATA \<and> v = SendVersion2"

definition enc_attr_header :: "SendVersion \<Rightarrow> BtrfsSendAttributeType \<Rightarrow> nat \<Rightarrow> bytes" where
  "enc_attr_header v t n =
     le16 (attribute_type_to_u16 t) @ (if sizeless v t then [] else le16 (word_of_nat n))"

definition enc_attr :: "SendVersion \<Rightarrow> attr \<Rightarrow> bytes" where
  "enc_attr v a = enc_attr_header v (fst a) (length (snd a)) @ snd a"

definition enc_attrs :: "SendVersion \<Rightarrow> attr list \<Rightarrow> bytes" where
  "enc_attrs v as = concat (map (enc_attr v) as)"

text \<open>A payload fits its size field.\<close>

definition attr_fits :: "SendVersion \<Rightarrow> attr \<Rightarrow> bool" where
  "attr_fits v a \<longleftrightarrow> sizeless v (fst a) \<or> length (snd a) < 2 ^ 16"

definition mk_attr_header :: "SendVersion \<Rightarrow> BtrfsSendAttributeType \<Rightarrow> nat \<Rightarrow> SendAttributeHeader" where
  "mk_attr_header v t n =
     \<lparr>sah_attribute_type = t, sah_size = (if sizeless v t then None else Some (word_of_nat n)),
      sah_version = v\<rparr>"

definition mk_attr :: "SendVersion \<Rightarrow> attr \<Rightarrow> SendAttribute" where
  "mk_attr v a =
     \<lparr>sa_header = mk_attr_header v (fst a) (length (snd a)), sa_buffer = enc_attr v a,
      sa_uncompressed_size = length (enc_attr v a),
      sa_uncompressed_payload_size = length (snd a), sa_version = v\<rparr>"

named_theorems wire \<open>evaluation of the element operations on wire encodings\<close>

lemma length_enc_attr_header [simp]:
  "length (enc_attr_header v t n) = (if sizeless v t then 2 else 4)"
  by (simp add: enc_attr_header_def)

lemma attribute_header_size_mk [simp]:
  "attribute_header_size (mk_attr_header v t n) = (if sizeless v t then 2 else 4)"
  by (simp add: attribute_header_size_def mk_attr_header_def)

lemma length_enc_attr: "length (enc_attr v a) = (if sizeless v (fst a) then 2 else 4) + length (snd a)"
  by (simp add: enc_attr_def)

lemma enc_attrs_simps [simp]:
  "enc_attrs v [] = []"
  "enc_attrs v (a # as) = enc_attr v a @ enc_attrs v as"
  "enc_attrs v (as @ bs) = enc_attrs v as @ enc_attrs v bs"
  by (simp_all add: enc_attrs_def)

lemma mk_attr_simps [simp]:
  "sa_header (mk_attr v a) = mk_attr_header v (fst a) (length (snd a))"
  "sa_buffer (mk_attr v a) = enc_attr v a"
  "sa_uncompressed_size (mk_attr v a) = length (enc_attr v a)"
  "sa_uncompressed_payload_size (mk_attr v a) = length (snd a)"
  "sa_version (mk_attr v a) = v"
  by (simp_all add: mk_attr_def)

lemma mk_attr_header_simps [simp]:
  "sah_attribute_type (mk_attr_header v t n) = t"
  "sah_version (mk_attr_header v t n) = v"
  "sah_size (mk_attr_header v t n) = (if sizeless v t then None else Some (word_of_nat n))"
  by (simp_all add: mk_attr_header_def)

lemma get_size_mk_attr [simp]: "SendAttribute_get_size (mk_attr v a) = length (enc_attr v a)"
  by (simp add: SendAttribute_get_size_def)

lemma get_payload_size_mk_attr [simp]: "get_payload_size (mk_attr v a) = length (snd a)"
  by (simp add: get_payload_size_def length_enc_attr)

lemma is_send_a_mk_attr [simp]:
  "is_send_a_path (mk_attr v a) \<longleftrightarrow> fst a = BTRFS_SEND_A_PATH"
  "is_send_a_file_offset (mk_attr v a) \<longleftrightarrow> fst a = BTRFS_SEND_A_FILE_OFFSET"
  "is_send_a_data (mk_attr v a) \<longleftrightarrow> fst a = BTRFS_SEND_A_DATA"
  by (simp_all add: is_send_a_path_def is_send_a_file_offset_def is_send_a_data_def
      is_attribute_send_a_path_def is_attribute_send_a_file_offset_def is_attribute_send_a_data_def)

lemma size_less_table:
  "SIZE_LESS_ATTRIBUTE_TYPES t = (if t = BTRFS_SEND_A_DATA then Some SendVersion2 else None)"
  by (simp add: SIZE_LESS_ATTRIBUTE_TYPES_def)

subsection \<open>Reading and writing attribute headers\<close>

lemma SendAttributeHeader_new_enc [wire]:
  assumes "length pre = i"
  shows "SendAttributeHeader_new (sctx opts (Some (pre @ enc_attr_header v t n @ rest)) i v w j dv) =
     Inr (mk_attr_header v t n,
          sctx opts (Some (pre @ enc_attr_header v t n @ rest))
            (i + (if sizeless v t then 2 else 4)) v w j dv)"
proof -
  have r1: "read16 (sctx opts (Some (pre @ le16 q @ tl)) i v w j dv) =
      Inr (q, sctx opts (Some (pre @ le16 q @ tl)) (i + 2) v w j dv)" for q tl
    using assms by (rule read16_next)
  have r2: "read16 (sctx opts (Some (pre @ le16 q @ le16 m @ rest)) (i + 2) v w j dv) =
      Inr (m, sctx opts (Some (pre @ le16 q @ le16 m @ rest)) (i + 4) v w j dv)" for q m
    using assms read16_next [of "pre @ le16 q" "i + 2" opts m rest] by (simp add: add.commute)
  have data: "attribute_type_from_u16 19 = Some BTRFS_SEND_A_DATA"
    using attribute_type_from_to_u16 [of BTRFS_SEND_A_DATA] by simp
  show ?thesis
    by (auto simp: SendAttributeHeader_new_def enc_attr_header_def mk_attr_header_def size_less_table
        sizeless_def r1 r2 data)
qed

lemma SendAttributeHeader_persist_enc [wire]:
  assumes "length pre = j" and "(if sizeless v t then 2 else 4) \<le> length rest"
  shows "SendAttributeHeader_persist (mk_attr_header v t n) (sctx opts r i sv (Some (pre @ rest)) j v) =
     Inr (sctx opts r i sv
            (Some (pre @ enc_attr_header v t n @ drop (if sizeless v t then 2 else 4) rest))
            (j + (if sizeless v t then 2 else 4)) v)"
proof -
  let ?ty = "le16 (attribute_type_to_u16 t)"
  have w1: "write16 (sctx opts r i sv (Some (pre @ rest)) j v) (attribute_type_to_u16 t) =
      Inr (sctx opts r i sv (Some (pre @ ?ty @ drop 2 rest)) (j + 2) v)"
    using assms by (auto simp: write16_def split: if_splits)
  have w2: "write16 (sctx opts r i sv (Some (pre @ ?ty @ drop 2 rest)) (j + 2) v) m =
      Inr (sctx opts r i sv (Some (pre @ ?ty @ le16 m @ drop 4 rest)) (j + 4) v)"
    if "4 \<le> length rest" for m
    using assms that write_all_next [of "pre @ ?ty" "j + 2" "le16 m" "drop 2 rest"]
    by (simp add: write16_def add.commute)
  show ?thesis
    using assms(2)
    by (auto simp: SendAttributeHeader_persist_def mk_attr_header_def enc_attr_header_def w1 w2)
qed

lemma SendAttributeHeader_persist_first [wire]:
  assumes "(if sizeless v t then 2 else 4) \<le> length rest"
  shows "SendAttributeHeader_persist (mk_attr_header v t n) (sctx opts r i sv (Some rest) 0 v) =
     Inr (sctx opts r i sv
            (Some (enc_attr_header v t n @ drop (if sizeless v t then 2 else 4) rest))
            (if sizeless v t then 2 else 4) v)"
  using SendAttributeHeader_persist_enc [of "[]" 0 v t rest] assms by simp

subsection \<open>Reading attributes\<close>

lemma get_attribute_total_size_mk:
  assumes "attr_fits v (t, p)"
  shows "get_attribute_total_size (mk_attr_header v t (length p)) rem =
    (if sizeless v t then (if 2 \<le> rem then Inr rem else Inl (Bail (Elem HeaderDoesNotFit)))
     else Inr (4 + length p))"
  using assms
  by (auto simp: get_attribute_total_size_def get_attribute_payload_size_def attr_fits_def
      unat_word_of_nat ensure_def)

text \<open>Reading an encoded attribute gives it back and moves just past it. The data attribute
  of a version 2 command has no size: it extends to the end of the slice.\<close>

lemma SendAttribute_new_enc [wire]:
  assumes "length pre = i" and "attr_fits v a" and "sizeless v (fst a) \<Longrightarrow> rest = []"
  shows "SendAttribute_new (sctx opts (Some (pre @ enc_attr v a @ rest)) i v w j dv) =
     Inr (mk_attr v a, sctx opts (Some (pre @ enc_attr v a @ rest)) (i + length (enc_attr v a)) v w j dv)"
proof -
  obtain t p where a: "a = (t, p)" by (cases a)
  let ?hs = "if sizeless v t then 2 else (4::nat)"
  let ?h = "enc_attr_header v t (length p)"
  have hd: "SendAttributeHeader_new (sctx opts (Some (pre @ ?h @ p @ rest)) i v w j dv) =
     Inr (mk_attr_header v t (length p), sctx opts (Some (pre @ ?h @ p @ rest)) (i + ?hs) v w j dv)"
    using SendAttributeHeader_new_enc [OF assms(1)] by simp
  have tot: "get_attribute_total_size (mk_attr_header v t (length p)) (?hs + length p + length rest) =
      Inr (?hs + length p)"
    using assms(2,3) a get_attribute_total_size_mk [of v t p] by auto
  have rd: "read_exact (sctx opts (Some (pre @ ?h @ p @ rest)) (i + ?hs) v w j dv) (length p) =
      Inr (p, sctx opts (Some (pre @ ?h @ p @ rest)) (i + ?hs + length p) v w j dv)"
    using assms(1) read_exact_next [of "pre @ ?h" "i + ?hs" p "length p" opts rest] by simp
  show ?thesis
    using assms(1) tot
    by (simp add: SendAttribute_new_def a enc_attr_def hd rd wire mk_attr_def Let_def add_ac
        SendAttributeHeader_persist_first)
qed

subsection \<open>Writing and checking attributes\<close>

lemma SendAttribute_persist_next [wire]:
  assumes "length pre = j" and "sa_version b = v" and "length (sa_buffer b) \<le> length rest"
  shows "SendAttribute_persist b (sctx opts r i sv (Some (pre @ rest)) j v) =
     Inr (sctx opts r i sv (Some (pre @ sa_buffer b @ drop (length (sa_buffer b)) rest))
            (j + length (sa_buffer b)) v)"
  using assms by (simp add: SendAttribute_persist_def)

lemma SendAttribute_persist_first [wire]:
  assumes "sa_version b = v" and "length (sa_buffer b) \<le> length rest"
  shows "SendAttribute_persist b (sctx opts r i sv (Some rest) 0 v) =
     Inr (sctx opts r i sv (Some (sa_buffer b @ drop (length (sa_buffer b)) rest))
            (length (sa_buffer b)) v)"
  using SendAttribute_persist_next [of "[]" 0 b v rest] assms by simp

lemma SendAttribute_eq_refl [simp]: "SendAttribute_eq a a"
  by (simp add: SendAttribute_eq_def)

text \<open>The serialisation check accepts every encoded attribute.\<close>

lemma SendAttribute_verify_mk [wire]:
  assumes "attr_fits v a"
  shows "SendAttribute_verify (mk_attr v a) c = Inr ()"
proof -
  obtain t p where a: "a = (t, p)" by (cases a)
  let ?hs = "if sizeless v t then 2 else (4::nat)"
  have tot: "get_attribute_total_size (mk_attr_header v t (length p)) (?hs + length p) =
      Inr (?hs + length p)"
    using assms a get_attribute_total_size_mk [of v t p] by auto
  have hd: "SendAttributeHeader_new (sctx (ssuc_options c) (Some (enc_attr v (t, p))) 0 v None 0 v) =
     Inr (mk_attr_header v t (length p),
          sctx (ssuc_options c) (Some (enc_attr v (t, p))) ?hs v None 0 v)"
    using SendAttributeHeader_new_enc [of "[]" 0 "ssuc_options c" v t "length p" p None 0 v]
    by (simp add: enc_attr_def)
  show ?thesis
    using tot
    by (simp add: SendAttribute_verify_def a hd length_enc_attr SendAttributeHeader_persist_first
        Let_def splice_def SendAttribute_eq_def)
      (simp add: enc_attr_def)
qed

lemma get_payload_as_string_mk [wire]:
  "get_payload_as_string (mk_attr v a) = from_utf8 (snd a)"
  by (simp add: get_payload_as_string_def length_enc_attr) (simp add: enc_attr_def)

lemma get_payload_as_u64_mk [wire]:
  "get_payload_as_u64 (mk_attr v a) =
     ensure (length (snd a) = 8) (Elem PayloadNotEightBytes) (Inr (from_le (snd a)))"
  by (simp add: get_payload_as_u64_def length_enc_attr) (simp add: enc_attr_def)

subsection \<open>Building attributes\<close>

lemma SendAttributeHeader_construct_mk:
  "\<not> sizeless v t \<Longrightarrow> SendAttributeHeader_construct t (word_of_nat n) v = mk_attr_header v t n"
  by (simp add: SendAttributeHeader_construct_def mk_attr_header_def)

lemma SendAttribute_new_from_u64_mk [wire]:
  assumes "get_destination_version c = Inr v" and "\<not> sizeless v t"
  shows "SendAttribute_new_from_u64 c t n = Inr (mk_attr v (t, le64 n))"
proof -
  have w: "write64 (sctx opts None 0 v (Some (pre @ zeros 8)) (length pre) v) n =
      Inr (sctx opts None 0 v (Some (pre @ le64 n)) (length pre + 8) v)" for opts pre
    by (simp add: write64_def)
  show ?thesis
    using assms w [of "ssuc_options c" "enc_attr_header v t 8"]
    by (simp add: SendAttribute_new_from_u64_def Let_def SendAttributeHeader_construct_mk
        SendAttributeHeader_construct_mk [of v t 8, simplified] SendAttributeHeader_persist_first
        mk_attr_def enc_attr_def)
qed

lemma SendAttribute_new_from_u32_mk [wire]:
  assumes "get_destination_version c = Inr v" and "\<not> sizeless v t"
  shows "SendAttribute_new_from_u32 c t n = Inr (mk_attr v (t, le32 n))"
proof -
  have w: "write32 (sctx opts None 0 v (Some (pre @ zeros 4)) (length pre) v) n =
      Inr (sctx opts None 0 v (Some (pre @ le32 n)) (length pre + 4) v)" for opts pre
    by (simp add: write32_def)
  show ?thesis
    using assms w [of "ssuc_options c" "enc_attr_header v t 4"]
    by (simp add: SendAttribute_new_from_u32_def Let_def SendAttributeHeader_construct_mk
        SendAttributeHeader_construct_mk [of v t 4, simplified] SendAttributeHeader_persist_first
        mk_attr_def enc_attr_def)
qed

lemma SendAttribute_new_from_string_mk [wire]:
  assumes "get_destination_version c = Inr v" and "\<not> sizeless v t"
  shows "SendAttribute_new_from_string c t bs = Inr (mk_attr v (t, bs))"
  using assms
    write_all_next [of "enc_attr_header v t (length bs)" 4 bs "zeros (length bs)" "ssuc_options c" None 0 v v]
  by (simp add: SendAttribute_new_from_string_def Let_def SendAttributeHeader_construct_mk
      SendAttributeHeader_persist_first mk_attr_def enc_attr_def)

subsection \<open>Changing attributes\<close>

lemma sizeless_data [simp]: "sizeless SendVersion2 BTRFS_SEND_A_DATA" "\<not> sizeless SendVersion1 t"
  by (simp_all add: sizeless_def)

lemma sizeless_other: "t \<noteq> BTRFS_SEND_A_DATA \<Longrightarrow> \<not> sizeless v t"
  by (simp add: sizeless_def)

lemma enc_attr_version: "fst a \<noteq> BTRFS_SEND_A_DATA \<Longrightarrow> enc_attr v a = enc_attr v' a"
  by (simp add: enc_attr_def enc_attr_header_def sizeless_def)

lemma enc_attrs_version:
  "\<forall>a \<in> set as. fst a \<noteq> BTRFS_SEND_A_DATA \<Longrightarrow> enc_attrs v as = enc_attrs v' as"
  by (induction as) (auto simp: enc_attr_version [of _ v v'])

lemma SendAttribute_is_upgradeable_mk [wire]:
  assumes "get_destination_version c = Inr dv"
  shows "SendAttribute_is_upgradeable (mk_attr v a) c =
    Inr (v = SendVersion1 \<and> dv = SendVersion2 \<and> fst a = BTRFS_SEND_A_DATA)"
  using assms
  by (cases v; cases dv)
    (auto simp: SendAttribute_is_upgradeable_def is_attribute_upgradeable_def size_less_table)

lemma SendAttribute_is_compressible_mk [wire]:
  "SendAttribute_is_compressible (mk_attr v a) \<longleftrightarrow> sizeless v (fst a)"
  by (simp add: SendAttribute_is_compressible_def is_attribute_compressible_def
      COMPRESSIBLE_ATTRIBUTE_TYPES_def sizeless_def)

text \<open>Upgrading the data attribute re-encodes it without its size; every other attribute is
  only relabelled.\<close>

lemma SendAttribute_upgrade_mk [wire]:
  assumes "get_source_version c = Inr SendVersion1" and "get_destination_version c = Inr SendVersion2"
  shows "SendAttribute_upgrade (mk_attr SendVersion1 (BTRFS_SEND_A_DATA, p)) c =
    Inr (mk_attr SendVersion2 (BTRFS_SEND_A_DATA, p))"
proof -
  let ?D = BTRFS_SEND_A_DATA
  have h: "SendAttributeHeader_upgrade (mk_attr_header SendVersion1 ?D (length p)) c =
      Inr (mk_attr_header SendVersion2 ?D (length p))"
    using assms
    by (simp add: SendAttributeHeader_upgrade_def is_attribute_upgradeable_def size_less_table
        mk_attr_header_def)
  have r: "read_exact (sctx opts (Some p) 0 sv None 0 dv) (length p) =
      Inr (p, sctx opts (Some p) (length p) sv None 0 dv)" for opts sv dv
    using read_exact_next [of "[]" 0 p "length p" opts "[]"] by simp
  have d: "drop 4 (enc_attr SendVersion1 (?D, p)) = p"
    by (simp add: enc_attr_def)
  show ?thesis
    using assms
    by (simp add: SendAttribute_upgrade_def SendAttribute_is_upgradeable_mk h Let_def
        SendAttributeHeader_persist_first length_enc_attr d r)
      (simp add: mk_attr_def enc_attr_def)
qed

lemma SendAttribute_fake_an_upgrade_mk [wire]:
  assumes "get_destination_version c = Inr dv"
    and "\<not> (v = SendVersion1 \<and> dv = SendVersion2 \<and> fst a = BTRFS_SEND_A_DATA)"
  shows "SendAttribute_fake_an_upgrade (mk_attr v a) c = Inr ((mk_attr v a)\<lparr>sa_version := dv\<rparr>)"
  using assms by (auto simp: SendAttribute_fake_an_upgrade_def wire)

abbreviation data_attr :: "bytes \<Rightarrow> SendAttribute" where
  "data_attr d \<equiv> mk_attr SendVersion2 (BTRFS_SEND_A_DATA, d)"

lemma mk_data_header: "mk_attr_header SendVersion2 BTRFS_SEND_A_DATA n = mk_attr_header SendVersion2 BTRFS_SEND_A_DATA m"
  by (simp add: mk_attr_header_def)

lemma enc_data_attr: "enc_attr SendVersion2 (BTRFS_SEND_A_DATA, d) = le16 (attribute_type_to_u16 BTRFS_SEND_A_DATA) @ d"
  by (simp add: enc_attr_def enc_attr_header_def del: attribute_type_to_u16.simps)

text \<open>Appending moves a prefix of the other payload, as long as the batch limit allows.\<close>

lemma SendAttribute_append_mk [wire]:
  "SendAttribute_append (data_attr d) (data_attr e) mx =
     Inr (min (length e) (mx - length d), data_attr (d @ take (mx - length d) e))"
proof (cases "mx < length d")
  case True
  then show ?thesis by (simp add: SendAttribute_append_def)
next
  case False
  have "can_append_attributes (mk_attr_header SendVersion2 BTRFS_SEND_A_DATA n)
      (mk_attr_header SendVersion2 BTRFS_SEND_A_DATA m)" for n m
    by (simp add: can_append_attributes_def is_attribute_appendable_def APPENDABLE_ATTRIBUTE_TYPES_def)
  moreover have "slice_range (enc_attr SendVersion2 (BTRFS_SEND_A_DATA, e)) 2 (2 + n) = Inr (take n e)"
    if "n \<le> length e" for n
    using that by (simp add: length_enc_attr) (simp add: enc_attr_def)
  moreover have "take (min (length e) (mx - length d)) e = take (mx - length d) e"
    by (simp add: min_def)
  ultimately show ?thesis
    using False
    by (simp add: SendAttribute_append_def SendAttribute_can_append_def has_size_def)
      (simp add: mk_attr_def enc_attr_def enc_attr_header_def mk_attr_header_def Let_def)
qed

lemma truncate_payload_at_start_mk [wire]:
  assumes "n \<le> length d"
  shows "truncate_payload_at_start (data_attr d) n = Inr (data_attr (drop n d))"
proof (cases "n = 0")
  case True
  then show ?thesis by (simp add: truncate_payload_at_start_def)
next
  case False
  have "is_truncateable (data_attr d)"
    by (simp add: is_truncateable_def is_attribute_truncatable_def is_attribute_appendable_def
        APPENDABLE_ATTRIBUTE_TYPES_def)
  with False assms show ?thesis
    by (simp add: truncate_payload_at_start_def has_size_def Let_def length_enc_attr splice_def)
      (simp add: enc_data_attr mk_attr_def mk_attr_header_def del: attribute_type_to_u16.simps)
qed

lemma SendAttribute_copy_range_mk [wire]:
  assumes "a \<le> b" and "b \<le> length d"
  shows "SendAttribute_copy_range (data_attr d) c a b = Inr (data_attr (take (b - a) (drop a d)))"
proof -
  let ?h = "enc_attr_header SendVersion2 BTRFS_SEND_A_DATA (length d)"
  have h: "SendAttributeHeader_copy h = h" for h by (simp add: SendAttributeHeader_copy_def)
  have w: "write_all (sctx opts None 0 v (Some (?h @ zeros (b - a))) 2 v) (take (b - a) (drop a d)) m =
      Inr (sctx opts None 0 v (Some (?h @ take (b - a) (drop a d))) (2 + (b - a)) v)" for opts v m
    using assms write_all_next [of ?h 2 "take (b - a) (drop a d)" "zeros (b - a)"] by simp
  have s: "slice_range (enc_attr SendVersion2 (BTRFS_SEND_A_DATA, d)) (a + 2) (b + 2) =
      Inr (take (b - a) (drop a d))"
    using assms by (simp add: length_enc_attr) (simp add: enc_attr_def)
  show ?thesis
    using assms
    by (simp add: SendAttribute_copy_range_def h Let_def SendAttributeHeader_persist_first s w)
      (simp add: mk_attr_def enc_attr_def enc_attr_header_def mk_attr_header_def)
qed

subsection \<open>Compressing attributes\<close>

text \<open>Compression replaces the payload by the encoder's output when that saves at least the
  given number of bytes, keeps the uncompressed sizes, and otherwise reports that the payload
  did not shrink.\<close>

lemma SendAttribute_compress_mk [wire]:
  assumes "get_destination_version c = Inr SendVersion2" and "compression_level (ssuc_options c) \<noteq> 0"
  shows "SendAttribute_compress x (data_attr d) c n =
    (case zstd_encode x (compression_level (ssuc_options c)) BTRFS_ZSTD_WINDOW_LOG d of
       None \<Rightarrow> Inl (Bail (Elem CompressorFailed))
     | Some z \<Rightarrow>
         if length z + n \<le> length d
         then Inr ((data_attr z)\<lparr>sa_uncompressed_size := length d + 2,
                                 sa_uncompressed_payload_size := length d\<rparr>)
         else Inl (FailedToShrinkPayload (length d) (length z) n))"
proof -
  let ?D = BTRFS_SEND_A_DATA
  have h: "SendAttributeHeader_compress (mk_attr_header SendVersion2 ?D n) c =
      Inr (mk_attr_header SendVersion2 ?D m)" for n m
    using assms
    by (simp add: SendAttributeHeader_compress_def is_attribute_compressible_def
        get_compressed_attribute_type_def COMPRESSIBLE_ATTRIBUTE_TYPES_def mk_attr_header_def)
  have d: "drop 2 (enc_attr SendVersion2 (?D, d)) = d"
    by (simp add: enc_attr_def)
  have e: "enc_attr_header SendVersion2 ?D m = enc_attr_header SendVersion2 ?D 0" for m
    by (simp add: enc_attr_header_def)
  show ?thesis
    using assms
    by (simp add: SendAttribute_compress_def SendAttribute_is_upgradeable_mk
        SendAttribute_is_compressible_mk h [of _ 0] Let_def SendAttributeHeader_persist_first
        length_enc_attr d get_payload_size_def SendAttribute_get_size_def split: option.split)
      (simp add: enc_attr_def mk_attr_def e [of "length _"] mk_data_header [of "length _" 0])
qed

lemma compress_space_check_sctx [wire]:
  assumes "j \<le> length ws"
  shows "compress_space_check b (sctx opts r i sv (Some ws) j dv) =
    (if j + length (sa_buffer b) \<le> length ws then Inr ()
     else Inl (FailedToShrinkPayload (length ws) (j + length (sa_buffer b)) 0))"
  using assms by (auto simp: compress_space_check_def)

end
