(* ===== verification/Command_Wire.thy ===== *)
theory Command_Wire
  imports Wire
begin

text \<open>
  The wire format of commands: an abstract command \<open>acmd\<close> is its type, the attributes in front
  of the data attribute, and the data. \<open>enc_command\<close> is its encoding and \<open>mk_command\<close> the clean
  in-memory command. The loops over the attributes of a payload are evaluated here once, for
  parsing, verification, upgrade and flush.
\<close>

section \<open>Abstract commands\<close>

record acmd =
  ac_type :: BtrfsSendCommandType
  ac_attrs :: "attr list"
  ac_data :: "bytes option"

definition all_attrs :: "acmd \<Rightarrow> attr list" where
  "all_attrs a = ac_attrs a @ (case ac_data a of None \<Rightarrow> [] | Some d \<Rightarrow> [(BTRFS_SEND_A_DATA, d)])"

definition enc_payload :: "SendVersion \<Rightarrow> acmd \<Rightarrow> bytes" where
  "enc_payload v a = enc_attrs v (all_attrs a)"

definition enc_header :: "u32 \<Rightarrow> BtrfsSendCommandType \<Rightarrow> u32 \<Rightarrow> bytes" where
  "enc_header n t crc = le32 n @ le16 (command_type_to_u16 t) @ le32 crc"

definition enc_with_crc :: "SendVersion \<Rightarrow> acmd \<Rightarrow> u32 \<Rightarrow> bytes" where
  "enc_with_crc v a crc =
     enc_header (word_of_nat (length (enc_payload v a))) (ac_type a) crc @ enc_payload v a"

definition acmd_crc :: "externs \<Rightarrow> SendVersion \<Rightarrow> acmd \<Rightarrow> u32" where
  "acmd_crc x v a = compute_crc32c x (enc_with_crc v a 0)"

definition enc_command :: "externs \<Rightarrow> SendVersion \<Rightarrow> acmd \<Rightarrow> bytes" where
  "enc_command x v a = enc_with_crc v a (acmd_crc x v a)"

text \<open>The last path and file offset win, as in the parser.\<close>

definition acmd_path :: "acmd \<Rightarrow> bytes option" where
  "acmd_path a = map_of (rev (ac_attrs a)) BTRFS_SEND_A_PATH"

definition acmd_offset :: "acmd \<Rightarrow> nat option" where
  "acmd_offset a =
     map_option (\<lambda>p. unat (from_le p :: u64)) (map_of (rev (ac_attrs a)) BTRFS_SEND_A_FILE_OFFSET)"

definition attr_wf :: "SendVersion \<Rightarrow> attr \<Rightarrow> bool" where
  "attr_wf v a \<longleftrightarrow> attr_fits v a \<and>
     (fst a = BTRFS_SEND_A_PATH \<longrightarrow> utf8_valid (snd a)) \<and>
     (fst a = BTRFS_SEND_A_FILE_OFFSET \<longrightarrow> length (snd a) = 8)"

definition acmd_wf :: "SendVersion \<Rightarrow> acmd \<Rightarrow> bool" where
  "acmd_wf v a \<longleftrightarrow>
     (\<forall>b \<in> set (all_attrs a). attr_wf v b) \<and>
     (\<forall>b \<in> set (ac_attrs a). fst b \<noteq> BTRFS_SEND_A_DATA) \<and>
     length (enc_payload v a) + 10 < 2 ^ 32"

definition mk_header :: "SendVersion \<Rightarrow> u32 \<Rightarrow> BtrfsSendCommandType \<Rightarrow> u32 \<Rightarrow> SendCommandHeader" where
  "mk_header v n t crc =
     \<lparr>sch_size = Some n, sch_command_type = t, sch_crc32c = Some crc, sch_version = v\<rparr>"

definition mk_command :: "externs \<Rightarrow> SendVersion \<Rightarrow> acmd \<Rightarrow> SendCommand" where
  "mk_command x v a =
     \<lparr>sc_header = mk_header v (word_of_nat (length (enc_payload v a))) (ac_type a) (acmd_crc x v a),
      sc_buffer = enc_command x v a,
      sc_data_attribute = map_option (\<lambda>d. mk_attr v (BTRFS_SEND_A_DATA, d)) (ac_data a),
      sc_data_attribute_initial_size =
        map_option (\<lambda>d. length (enc_attr v (BTRFS_SEND_A_DATA, d))) (ac_data a),
      sc_data_attribute_dirty = False, sc_path = acmd_path a, sc_start_offset = acmd_offset a,
      sc_uncompressed_size = length (enc_command x v a), sc_version = v\<rparr>"

lemma command_header_size_10 [simp]: "command_header_size = 10"
  by (simp add: command_header_size_def)

lemma length_enc_header [simp]: "length (enc_header n t crc) = 10"
  by (simp add: enc_header_def)

lemma length_enc_with_crc [simp]: "length (enc_with_crc v a crc) = 10 + length (enc_payload v a)"
  by (simp add: enc_with_crc_def)

lemma length_enc_command [simp]: "length (enc_command x v a) = 10 + length (enc_payload v a)"
  by (simp add: enc_command_def)

lemma mk_header_simps [simp]:
  "sch_size (mk_header v n t crc) = Some n"
  "sch_command_type (mk_header v n t crc) = t"
  "sch_crc32c (mk_header v n t crc) = Some crc"
  "sch_version (mk_header v n t crc) = v"
  by (simp_all add: mk_header_def)

lemma header_accessors_mk [simp]:
  "get_command_payload_size (mk_header v n t crc) = Inr (unat n)"
  "get_crc32c (mk_header v n t crc) = Inr crc"
  by (simp_all add: get_command_payload_size_def get_crc32c_def)

section \<open>Command headers\<close>

lemma SendCommandHeader_new_sctx [wire]:
  "SendCommandHeader_new (sctx opts (Some (enc_header n t crc @ rest)) 0 v w j dv) =
     Inr (mk_header v n t crc, sctx opts (Some (enc_header n t crc @ rest)) 10 v w j dv)"
proof -
  let ?bs = "le32 n @ le16 (command_type_to_u16 t) @ le32 crc @ rest"
  have "read32 (sctx opts (Some ?bs) 0 v w j dv) = Inr (n, sctx opts (Some ?bs) 4 v w j dv)"
    using read32_next [of "[]" 0 opts n] by simp
  moreover have "read16 (sctx opts (Some ?bs) 4 v w j dv) =
      Inr (command_type_to_u16 t, sctx opts (Some ?bs) 6 v w j dv)"
    using read16_next [of "le32 n" 4] by simp
  moreover have "read32 (sctx opts (Some ?bs) 6 v w j dv) = Inr (crc, sctx opts (Some ?bs) 10 v w j dv)"
    using read32_next [of "le32 n @ le16 (command_type_to_u16 t)" 6] by simp
  ultimately show ?thesis
    by (simp add: SendCommandHeader_new_def enc_header_def mk_header_def)
qed

lemma SendCommandHeader_persist_sctx:
  assumes "sch_size h = Some n" and "sch_version h = v" and "10 \<le> length ws"
    and "skip \<or> sch_crc32c h \<noteq> None"
  shows "SendCommandHeader_persist h (sctx opts r i sv (Some ws) 0 v) skip =
     Inr (sctx opts r i sv
       (Some (enc_header n (sch_command_type h) (if skip then 0 else the (sch_crc32c h)) @ drop 10 ws))
       10 v)"
proof -
  define crc where "crc = (if skip then 0 else the (sch_crc32c h))"
  let ?t = "le16 (command_type_to_u16 (sch_command_type h))"
  have crc: "(if skip then Inr 0 else of_option (Elem NoCrc) (sch_crc32c h)) = Inr crc"
    using assms(4) by (auto simp: crc_def)
  have w1: "write32 (sctx opts r i sv (Some ws) 0 v) n =
      Inr (sctx opts r i sv (Some (le32 n @ drop 4 ws)) 4 v)"
    using assms(3) by (simp add: write32_def)
  have w2: "write16 (sctx opts r i sv (Some (le32 n @ drop 4 ws)) 4 v) (command_type_to_u16 (sch_command_type h)) =
      Inr (sctx opts r i sv (Some ((le32 n @ ?t) @ drop 6 ws)) 6 v)"
    using assms(3) by (simp add: write16_def)
  have w3: "write32 (sctx opts r i sv (Some ((le32 n @ ?t) @ drop 6 ws)) 6 v) crc =
      Inr (sctx opts r i sv (Some ((le32 n @ ?t) @ le32 crc @ drop 4 (drop 6 ws))) (6 + 4) v)"
    using assms(3) write_all_next [of "le32 n @ ?t" 6 "le32 crc" "drop 6 ws"]
    by (simp add: write32_def)
  show ?thesis
    using assms(1,2)
    by (simp add: SendCommandHeader_persist_def crc w1 w2 w3 del: append_assoc)
      (simp add: enc_header_def crc_def)
qed

lemma SendCommandHeader_persist_mk [wire]:
  "10 \<le> length ws \<Longrightarrow>
   SendCommandHeader_persist (mk_header v n t crc) (sctx opts r i sv (Some ws) 0 v) skip =
     Inr (sctx opts r i sv (Some (enc_header n t (if skip then 0 else crc) @ drop 10 ws)) 10 v)"
  by (simp add: SendCommandHeader_persist_sctx)

section \<open>Attribute loops\<close>

text \<open>Only the last attribute of a payload may be the data attribute, and every path and
  offset is readable.\<close>

definition attrs_wf :: "SendVersion \<Rightarrow> attr list \<Rightarrow> bool" where
  "attrs_wf v as \<longleftrightarrow>
     (\<forall>a \<in> set as. attr_wf v a) \<and> (\<forall>a \<in> set (butlast as). fst a \<noteq> BTRFS_SEND_A_DATA)"

lemma attrs_wf_Cons [simp]:
  "attrs_wf v (a # as) \<longleftrightarrow> attr_wf v a \<and> (as = [] \<or> fst a \<noteq> BTRFS_SEND_A_DATA) \<and> attrs_wf v as"
  by (auto simp: attrs_wf_def)

lemma attrs_wf_Nil [simp]: "attrs_wf v []"
  by (simp add: attrs_wf_def)

lemma acmd_wf_attrs: "acmd_wf v a \<Longrightarrow> attrs_wf v (all_attrs a)"
  by (auto simp: acmd_wf_def attrs_wf_def all_attrs_def butlast_append split: option.splits
      dest: in_set_butlastD)

definition cache_attr :: "SendVersion \<Rightarrow> attr \<Rightarrow> ParsedAttributes \<Rightarrow> ParsedAttributes" where
  "cache_attr v a p =
     (if fst a = BTRFS_SEND_A_PATH then p\<lparr>p_path := Some (snd a)\<rparr>
      else if fst a = BTRFS_SEND_A_FILE_OFFSET
      then p\<lparr>p_start_offset := Some (unat (from_le (snd a) :: u64))\<rparr>
      else if fst a = BTRFS_SEND_A_DATA
      then p\<lparr>p_data_attribute := Some (mk_attr v a), p_initial_size := Some (length (enc_attr v a))\<rparr>
      else p)"

lemma cache_attribute_mk [wire]:
  "attr_wf v a \<Longrightarrow> cache_attribute (mk_attr v a) p = Inr (cache_attr v a p)"
  by (auto simp: cache_attribute_def cache_attr_def attr_wf_def wire from_utf8_def)

lemma cache_attr_data:
  "p_data_attribute (cache_attr v a p) = None \<longleftrightarrow> p_data_attribute p = None \<and> fst a \<noteq> BTRFS_SEND_A_DATA"
  by (auto simp: cache_attr_def)

lemma attr_wf_fits: "attr_wf v a \<Longrightarrow> attr_fits v a"
  by (simp add: attr_wf_def)

lemma SendAttribute_new_Cons:
  assumes "attrs_wf v (a # as)" and "length pre = i"
  shows "SendAttribute_new (sctx opts (Some (pre @ enc_attrs v (a # as))) i v w j dv) =
     Inr (mk_attr v a,
          sctx opts (Some ((pre @ enc_attr v a) @ enc_attrs v as)) (length (pre @ enc_attr v a)) v w j dv)"
  using assms SendAttribute_new_enc [of pre i v a "enc_attrs v as" opts w j dv]
  by (auto simp: attr_wf_fits sizeless_def)

lemma enc_attr_ne [simp]: "enc_attr v a \<noteq> []"
  by (simp add: enc_attr_def enc_attr_header_def flip: length_0_conv)

lemma parse_attributes_enc:
  assumes "attrs_wf v as" and "as = [] \<or> p_data_attribute p = None"
  shows "parse_attributes (sctx opts (Some (pre @ enc_attrs v as)) (length pre) v w j dv)
      (length pre + length (enc_attrs v as)) (length pre) p = Inr (fold (cache_attr v) as p)"
  using assms
proof (induction as arbitrary: pre p)
  case Nil
  then show ?case by (simp add: parse_attributes.simps)
next
  case (Cons a as)
  from Cons.prems have "as = [] \<or> p_data_attribute (cache_attr v a p) = None"
    by (auto simp: cache_attr_data)
  with Cons.IH [of "cache_attr v a p" "pre @ enc_attr v a"] Cons.prems
  show ?case
    by (subst parse_attributes.simps)
      (simp add: SendAttribute_new_Cons [OF Cons.prems(1), simplified] wire add.assoc)
qed

lemma verify_attributes_enc:
  assumes "attrs_wf v as" and "length rest = length (enc_attrs v as)"
  shows "verify_attributes (sctx opts (Some (pre @ enc_attrs v as)) (length pre) v
        (Some (pre @ rest)) (length pre) v) (10 + (length pre + length (enc_attrs v as))) p =
     Inr (fold (cache_attr v) as p,
       sctx opts (Some (pre @ enc_attrs v as)) (length pre + length (enc_attrs v as)) v
        (Some (pre @ enc_attrs v as)) (length pre + length (enc_attrs v as)) v)"
  using assms
proof (induction as arbitrary: pre p rest)
  case Nil
  then show ?case by (simp add: verify_attributes.simps)
next
  case (Cons a as)
  let ?rest = "drop (length (enc_attr v a)) rest"
  have "SendAttribute_persist (mk_attr v a) (sctx opts r i sv (Some (pre @ rest)) (length pre) v) =
      Inr (sctx opts r i sv (Some ((pre @ enc_attr v a) @ ?rest)) (length (pre @ enc_attr v a)) v)"
    for r i sv
    using Cons.prems(2) by (simp add: SendAttribute_persist_next)
  with Cons.IH [of ?rest "pre @ enc_attr v a" "cache_attr v a p"] Cons.prems show ?case
    by (subst verify_attributes.simps)
      (simp add: SendAttribute_new_Cons [OF Cons.prems(1), simplified] wire attr_wf_fits add.assoc)
qed

text \<open>Replacing the file offset.\<close>

definition set_offset :: "nat \<Rightarrow> attr list \<Rightarrow> attr list" where
  "set_offset off as =
     map (\<lambda>a. if fst a = BTRFS_SEND_A_FILE_OFFSET then (fst a, le64 (word_of_nat off)) else a) as"

lemma set_offset_simps [simp]:
  "set_offset off [] = []"
  "set_offset off (a # as) =
     (if fst a = BTRFS_SEND_A_FILE_OFFSET then (fst a, le64 (word_of_nat off)) else a) # set_offset off as"
  by (simp_all add: set_offset_def)

lemma length_enc_set_offset:
  "\<forall>a \<in> set as. attr_wf v a \<Longrightarrow> length (enc_attrs v (set_offset off as)) = length (enc_attrs v as)"
  by (induction as) (auto simp: length_enc_attr attr_wf_def)

lemma flush_attributes_enc:
  assumes "attrs_wf v as" and "\<forall>a \<in> set as. fst a \<noteq> BTRFS_SEND_A_DATA"
    and "length rest = length (enc_attrs v as)" and "length pre = length pre'"
  shows "flush_attributes (sctx opts (Some (pre @ enc_attrs v as)) (length pre) v
        (Some (pre' @ rest)) (length pre) v) (10 + (length pre + length (enc_attrs v as))) off =
     Inr (sctx opts (Some (pre @ enc_attrs v as)) (length pre + length (enc_attrs v as)) v
        (Some (pre' @ enc_attrs v (set_offset off as))) (length pre + length (enc_attrs v as)) v)"
  using assms
proof (induction as arbitrary: pre pre' rest)
  case Nil
  then show ?case by (simp add: flush_attributes.simps)
next
  case (Cons a as)
  let ?b = "if fst a = BTRFS_SEND_A_FILE_OFFSET then (fst a, le64 (word_of_nat off)) else a"
  let ?rest = "drop (length (enc_attr v a)) rest"
  have len: "length (enc_attr v ?b) = length (enc_attr v a)"
    using Cons.prems(1) by (auto simp: length_enc_attr attr_wf_def)
  have "SendAttribute_persist (mk_attr v ?b) (sctx opts r i sv (Some (pre' @ rest)) (length pre) v) =
      Inr (sctx opts r i sv (Some ((pre' @ enc_attr v ?b) @ ?rest)) (length (pre @ enc_attr v a)) v)"
    for r i sv
    using Cons.prems(3,4) len by (simp add: SendAttribute_persist_next)
  with Cons.IH [of ?rest "pre @ enc_attr v a" "pre' @ enc_attr v ?b"] Cons.prems len show ?case
    by (subst flush_attributes.simps)
      (simp add: SendAttribute_new_Cons [OF Cons.prems(1), simplified] wire attr_wf_fits add.assoc sizeless_def
        split: if_splits)
qed

lemma upgrade_attributes_enc:
  assumes "attrs_wf SendVersion1 as" and "get_destination_version c = Inr SendVersion2"
    and "length (enc_attrs SendVersion2 as) \<le> length rest"
  shows "upgrade_attributes c (sctx opts (Some (pre @ enc_attrs SendVersion1 as)) (length pre) SendVersion1
        (Some (pre' @ rest)) (length pre') SendVersion2)
        (10 + (length pre + length (enc_attrs SendVersion1 as))) data =
     Inr (fold (\<lambda>a d. if fst a = BTRFS_SEND_A_DATA
                     then (Some (mk_attr SendVersion2 a), Some (length (enc_attr SendVersion2 a))) else d) as data,
       sctx opts (Some (pre @ enc_attrs SendVersion1 as)) (length pre + length (enc_attrs SendVersion1 as))
        SendVersion1
        (Some (pre' @ enc_attrs SendVersion2 as @ drop (length (enc_attrs SendVersion2 as)) rest))
        (length pre' + length (enc_attrs SendVersion2 as)) SendVersion2)"
  using assms
proof (induction as arbitrary: pre pre' rest data)
  case Nil
  then show ?case by (simp add: upgrade_attributes.simps)
next
  case (Cons a as)
  let ?rest = "drop (length (enc_attr SendVersion2 a)) rest"
  define b where "b = (if fst a = BTRFS_SEND_A_DATA then mk_attr SendVersion2 a
    else (mk_attr SendVersion1 a)\<lparr>sa_version := SendVersion2\<rparr>)"
  have buf: "sa_buffer b = enc_attr SendVersion2 a" "sa_version b = SendVersion2"
    by (auto simp: b_def enc_attr_version [of a SendVersion1 SendVersion2])
  have data: "is_send_a_data b \<longleftrightarrow> fst a = BTRFS_SEND_A_DATA"
    by (auto simp: b_def is_send_a_data_def is_attribute_send_a_data_def)
  have comp: "SendAttribute_is_compressible b \<longleftrightarrow> fst a = BTRFS_SEND_A_DATA"
    by (auto simp: b_def SendAttribute_is_compressible_def is_attribute_compressible_def
        COMPRESSIBLE_ATTRIBUTE_TYPES_def)
  have upD: "SendAttribute_upgrade (mk_attr SendVersion1 a) (sctx o' r i SendVersion1 w j SendVersion2) = Inr b"
    if "fst a = BTRFS_SEND_A_DATA" for o' r i w j
    using that SendAttribute_upgrade_mk [of "sctx o' r i SendVersion1 w j SendVersion2" "snd a"]
    by (cases a) (simp add: b_def)
  have upN: "SendAttribute_fake_an_upgrade (mk_attr SendVersion1 a)
      (sctx o' r i SendVersion1 w j SendVersion2) = Inr b"
    if "fst a \<noteq> BTRFS_SEND_A_DATA" for o' r i w j
    using that by (simp add: b_def wire)
  have bD: "mk_attr SendVersion2 a = b" if "fst a = BTRFS_SEND_A_DATA"
    using that by (simp add: b_def)
  have per: "SendAttribute_persist b (sctx opts r i sv (Some (pre' @ rest)) (length pre') SendVersion2) =
      Inr (sctx opts r i sv (Some ((pre' @ enc_attr SendVersion2 a) @ ?rest))
             (length (pre' @ enc_attr SendVersion2 a)) SendVersion2)" for r i sv
    using Cons.prems(3) buf by (simp add: SendAttribute_persist_next)
  have new: "SendAttribute_new (sctx opts (Some (pre @ enc_attr SendVersion1 a @ enc_attrs SendVersion1 as))
        (length pre) SendVersion1 w j dv) =
      Inr (mk_attr SendVersion1 a, sctx opts (Some (pre @ enc_attr SendVersion1 a @ enc_attrs SendVersion1 as))
        (length (pre @ enc_attr SendVersion1 a)) SendVersion1 w j dv)" for w j dv
    using SendAttribute_new_Cons [OF Cons.prems(1), of pre "length pre" opts w j dv] by simp
  let ?data = "if fst a = BTRFS_SEND_A_DATA
    then (Some (mk_attr SendVersion2 a), Some (length (enc_attr SendVersion2 a))) else data"
  let ?n = "10 + (length pre + length (enc_attrs SendVersion1 (a # as)))"
  have step: "upgrade_attributes c (sctx opts (Some (pre @ enc_attrs SendVersion1 (a # as))) (length pre)
        SendVersion1 (Some (pre' @ rest)) (length pre') SendVersion2) ?n data =
      upgrade_attributes c (sctx opts (Some ((pre @ enc_attr SendVersion1 a) @ enc_attrs SendVersion1 as))
        (length (pre @ enc_attr SendVersion1 a)) SendVersion1
        (Some ((pre' @ enc_attr SendVersion2 a) @ ?rest)) (length (pre' @ enc_attr SendVersion2 a))
        SendVersion2) ?n ?data"
    using data comp Cons.prems(2)
    by (subst upgrade_attributes.simps, cases "fst a = BTRFS_SEND_A_DATA")
      (simp_all add: new SendAttribute_is_upgradeable_mk upD upN bD per SendAttribute_get_size_def buf)
  have fit: "length (enc_attrs SendVersion2 as) \<le> length ?rest"
    using Cons.prems(3) by simp
  show ?case
    unfolding step
    using Cons.IH [OF _ Cons.prems(2) fit, of "pre @ enc_attr SendVersion1 a"
        "pre' @ enc_attr SendVersion2 a" ?data] Cons.prems(1)
    by (simp add: add_ac)
qed

end
