(* ===== verification/Command_Codec.thy ===== *)
theory Command_Codec
  imports Command_Wire
begin

text \<open>
  Parsing and checking commands: reading \<open>enc_command\<close> gives \<open>mk_command\<close>, a payload that does
  not match its checksum is rejected, and the serialisation check of \<open>verify\<close> accepts clean
  commands and commands whose data attribute is ahead of their buffer.
\<close>

section \<open>What the parser caches\<close>

lemma fold_cache_attrs:
  "\<forall>b \<in> set as. fst b \<noteq> BTRFS_SEND_A_DATA \<Longrightarrow>
   fold (cache_attr v) as parsed_none =
     \<lparr>p_data_attribute = None, p_initial_size = None, p_path = map_of (rev as) BTRFS_SEND_A_PATH,
      p_start_offset =
        map_option (\<lambda>p. unat (from_le p :: u64)) (map_of (rev as) BTRFS_SEND_A_FILE_OFFSET)\<rparr>"
  by (induction as rule: rev_induct) (auto simp: cache_attr_def parsed_none_def)

lemma fold_cache_all_attrs:
  assumes "\<forall>b \<in> set (ac_attrs a). fst b \<noteq> BTRFS_SEND_A_DATA"
  shows "fold (cache_attr v) (all_attrs a) parsed_none =
     \<lparr>p_data_attribute = map_option (\<lambda>d. mk_attr v (BTRFS_SEND_A_DATA, d)) (ac_data a),
      p_initial_size = map_option (\<lambda>d. length (enc_attr v (BTRFS_SEND_A_DATA, d))) (ac_data a),
      p_path = acmd_path a, p_start_offset = acmd_offset a\<rparr>"
  using fold_cache_attrs [OF assms, of v]
  by (auto simp: all_attrs_def acmd_path_def acmd_offset_def cache_attr_def split: option.splits)

lemma acmd_wf_no_data: "acmd_wf v a \<Longrightarrow> \<forall>b \<in> set (ac_attrs a). fst b \<noteq> BTRFS_SEND_A_DATA"
  by (simp add: acmd_wf_def)

lemma unat_payload [simp]:
  "acmd_wf v a \<Longrightarrow> unat (word_of_nat (length (enc_payload v a)) :: u32) = length (enc_payload v a)"
  by (simp add: acmd_wf_def unat_word_of_nat)

lemma enc_with_crc_parts:
  "drop 10 (enc_with_crc v a crc) = enc_payload v a"
  "enc_header n t crc' @ drop 10 (enc_with_crc v a crc) = enc_header n t crc' @ enc_payload v a"
  by (simp_all add: enc_with_crc_def)

lemma drop_header [simp]: "drop 10 (enc_header n t crc @ bs) = bs"
  by simp

lemma mk_command_simps [simp]:
  "sc_header (mk_command x v a) =
     mk_header v (word_of_nat (length (enc_payload v a))) (ac_type a) (acmd_crc x v a)"
  "sc_buffer (mk_command x v a) = enc_command x v a"
  "sc_data_attribute (mk_command x v a) = map_option (\<lambda>d. mk_attr v (BTRFS_SEND_A_DATA, d)) (ac_data a)"
  "sc_data_attribute_initial_size (mk_command x v a) =
     map_option (\<lambda>d. length (enc_attr v (BTRFS_SEND_A_DATA, d))) (ac_data a)"
  "sc_data_attribute_dirty (mk_command x v a) = False"
  "sc_path (mk_command x v a) = acmd_path a"
  "sc_start_offset (mk_command x v a) = acmd_offset a"
  "sc_uncompressed_size (mk_command x v a) = 10 + length (enc_payload v a)"
  "sc_version (mk_command x v a) = v"
  by (simp_all add: mk_command_def)

section \<open>Clean commands\<close>

lemma verify_payload:
  assumes "acmd_wf v a"
  shows "verify_attributes (sctx opts (Some (enc_payload v a)) 0 v
        (Some (zeros (length (enc_payload v a)))) 0 v) (10 + length (enc_payload v a)) parsed_none =
     Inr (\<lparr>p_data_attribute = map_option (\<lambda>d. mk_attr v (BTRFS_SEND_A_DATA, d)) (ac_data a),
          p_initial_size = map_option (\<lambda>d. length (enc_attr v (BTRFS_SEND_A_DATA, d))) (ac_data a),
          p_path = acmd_path a, p_start_offset = acmd_offset a\<rparr>,
       sctx opts (Some (enc_payload v a)) (length (enc_payload v a)) v
        (Some (enc_payload v a)) (length (enc_payload v a)) v)"
  using verify_attributes_enc [OF acmd_wf_attrs [OF assms], of "zeros (length (enc_payload v a))" opts "[]"]
    fold_cache_all_attrs [OF acmd_wf_no_data [OF assms]]
  by (simp add: enc_payload_def)

lemma SendCommand_eq_refl_clean: "\<not> sc_data_attribute_dirty s \<Longrightarrow> SendCommand_eq s s = Inr True"
  by (simp add: SendCommand_eq_def)

lemma SendCommand_verify_clean:
  assumes "acmd_wf v a"
  shows "SendCommand_verify x (mk_command x v a) c = Inr ()"
proof (cases "serde_checks (ssuc_options c)")
  case False
  then show ?thesis by (simp add: SendCommand_verify_def)
next
  case True
  let ?n = "word_of_nat (length (enc_payload v a)) :: u32"
  let ?crc = "acmd_crc x v a"
  have buf: "enc_command x v a = enc_header ?n (ac_type a) ?crc @ enc_payload v a"
    by (simp add: enc_command_def enc_with_crc_def)
  have crc: "compute_crc32c x (enc_header ?n (ac_type a) 0 @ enc_payload v a) = ?crc"
    by (simp add: acmd_crc_def enc_with_crc_def)
  have eq: "SendCommand_eq (mk_command x v a)
      \<lparr>sc_header = mk_header v ?n (ac_type a) ?crc,
       sc_buffer = enc_header ?n (ac_type a) ?crc @ enc_payload v a,
       sc_data_attribute = da, sc_data_attribute_initial_size = di,
       sc_data_attribute_dirty = False, sc_path = acmd_path a, sc_start_offset = acmd_offset a,
       sc_uncompressed_size = us, sc_version = v\<rparr> = Inr True" for da di us
    by (simp add: SendCommand_eq_def buf)
  show ?thesis
    using True assms
    by (simp add: SendCommand_verify_def verify_source_buffer_def buf wire Let_def verify_payload
        splice_def crc eq)
qed

text \<open>Parsing the payload that follows a header.\<close>

lemma parse_payload:
  assumes "acmd_wf v a"
  shows "parse_attributes (sctx opts (Some (enc_payload v a)) 0 v None 0 v)
      (length (enc_payload v a)) 0 parsed_none =
     Inr \<lparr>p_data_attribute = map_option (\<lambda>d. mk_attr v (BTRFS_SEND_A_DATA, d)) (ac_data a),
          p_initial_size = map_option (\<lambda>d. length (enc_attr v (BTRFS_SEND_A_DATA, d))) (ac_data a),
          p_path = acmd_path a, p_start_offset = acmd_offset a\<rparr>"
  using parse_attributes_enc [OF acmd_wf_attrs [OF assms], of parsed_none opts "[]"]
    fold_cache_all_attrs [OF acmd_wf_no_data [OF assms]]
  by (simp add: enc_payload_def parsed_none_def)

lemma enc_command_parts:
  "enc_header (word_of_nat (length (enc_payload v a))) (ac_type a) crc @ enc_payload v a =
     enc_with_crc v a crc"
  by (simp add: enc_with_crc_def)

lemma SendCommand_new_from_header_enc:
  assumes "acmd_wf v a" and "get_source_version c = Inr v"
    and "read_exact c (length (enc_payload v a)) = Inr (enc_payload v a, c1)"
  shows "SendCommand_new_from_header x c
      (mk_header v (word_of_nat (length (enc_payload v a))) (ac_type a) (acmd_crc x v a)) =
    Inr (mk_command x v a, c1)"
proof -
  have mk: "\<lparr>sc_header = mk_header v (word_of_nat (length (enc_payload v a))) (ac_type a) (acmd_crc x v a),
      sc_buffer = enc_with_crc v a (acmd_crc x v a),
      sc_data_attribute = map_option (\<lambda>d. mk_attr v (BTRFS_SEND_A_DATA, d)) (ac_data a),
      sc_data_attribute_initial_size =
        map_option (\<lambda>d. length (enc_attr v (BTRFS_SEND_A_DATA, d))) (ac_data a),
      sc_data_attribute_dirty = False, sc_path = acmd_path a, sc_start_offset = acmd_offset a,
      sc_uncompressed_size = 10 + length (enc_payload v a), sc_version = v\<rparr> = mk_command x v a"
    by (simp add: mk_command_def enc_command_def enc_with_crc_def)
  have crc: "compute_crc32c x (enc_with_crc v a 0) = acmd_crc x v a"
    by (simp add: acmd_crc_def)
  show ?thesis
    using assms SendCommand_verify_clean [OF assms(1), of x c1]
    by (simp add: SendCommand_new_from_header_def Let_def parse_payload wire enc_command_parts
        enc_with_crc_parts(1) crc mk)
qed

lemma SendCommand_new_from_header_bad_crc:
  assumes "acmd_wf v a" and "get_source_version c = Inr v"
    and "read_exact c (length (enc_payload v a)) = Inr (enc_payload v a, c1)"
    and "\<not> avoid_crcing_input (ssuc_options c1)" and "crc \<noteq> acmd_crc x v a"
  shows "SendCommand_new_from_header x c
      (mk_header v (word_of_nat (length (enc_payload v a))) (ac_type a) crc) =
    Inl (Bail (Cmd CrcMismatch))"
proof -
  have crc: "compute_crc32c x (enc_with_crc v a 0) = acmd_crc x v a"
    by (simp add: acmd_crc_def)
  show ?thesis
    using assms
    by (simp add: SendCommand_new_from_header_def Let_def parse_payload wire enc_command_parts crc)
qed

section \<open>What a source will deliver\<close>

text \<open>\<open>upcoming c bs\<close>: the source of \<open>c\<close> delivers \<open>bs\<close> and then ends, in however many short
  reads. For a buffer cache it means that the cache holds the input as one buffer.\<close>

definition loaded_cache :: "bytes \<Rightarrow> nat \<Rightarrow> ReadOnceBufferCache" where
  "loaded_cache B m =
     \<lparr>robci_buffers = [(0, \<lparr>rb_buffer = B, rb_key = 0, rb_start_offset = 0\<rparr>)],
      robcm_bytes_remaining = [(0, m)], robcm_next_key_to_fetch = 1, robcm_state = Running,
      robc_buffer_size = length B + 1, robc_cache_start_address = 0, robc_maximum_buffers_to_cache = 1\<rparr>"

definition loaded_bytes :: "ReadOnceBufferCache \<Rightarrow> bytes" where
  "loaded_bytes cache = concat (map (rb_buffer \<circ> snd) (robci_buffers cache))"

definition loaded_count :: "ReadOnceBufferCache \<Rightarrow> nat" where
  "loaded_count cache = sum_list (map snd (robcm_bytes_remaining cache))"

definition chunk_bytes :: "chunk \<Rightarrow> bytes" where
  "chunk_bytes k = (case k of Chunk bs \<Rightarrow> bs | ReadFails \<Rightarrow> [])"

definition reader_bytes :: "reader \<Rightarrow> bytes" where
  "reader_bytes r = concat (map chunk_bytes r)"

definition steady :: "reader \<Rightarrow> bool" where
  "steady r \<longleftrightarrow> (\<forall>k \<in> set r. chunk_bytes k \<noteq> [])"

definition upcoming :: "ctx \<Rightarrow> bytes \<Rightarrow> bool" where
  "upcoming c bs =
     (case ssus_source (ssuc_source c) of
        SssBufReader r \<Rightarrow> steady r \<and> reader_bytes r = bs
      | SssReader r \<Rightarrow> steady r \<and> reader_bytes r = bs
      | SssSliceReader sl \<Rightarrow>
          ssus_offset (ssuc_source c) \<le> length sl \<and> drop (ssus_offset (ssuc_source c)) sl = bs
      | SssReadOnceBufferCache cache \<Rightarrow>
          cache = loaded_cache (loaded_bytes cache) (loaded_count cache) \<and> length bs < loaded_count cache \<and>
          ssus_offset (ssuc_source c) \<le> length (loaded_bytes cache) \<and>
          drop (ssus_offset (ssuc_source c)) (loaded_bytes cache) = bs
      | SssNoSource \<Rightarrow> False)"

text \<open>What reading leaves alone.\<close>

definition same_but_source :: "ctx \<Rightarrow> ctx \<Rightarrow> bool" where
  "same_but_source c c' \<longleftrightarrow>
     ssuc_options c' = ssuc_options c \<and> ssuc_destination c' = ssuc_destination c \<and>
     ssuc_associated_with_parent c' = ssuc_associated_with_parent c \<and>
     ssus_version (ssuc_source c') = ssus_version (ssuc_source c) \<and>
     Source_is_external (ssuc_source c') = Source_is_external (ssuc_source c)"

lemma same_but_source_trans [trans]:
  "same_but_source c c1 \<Longrightarrow> same_but_source c1 c2 \<Longrightarrow> same_but_source c c2"
  by (simp add: same_but_source_def)

lemma same_but_source_versions:
  assumes "same_but_source c c'"
  shows "get_source_version c' = get_source_version c"
    "get_destination_version c' = get_destination_version c"
  using assms
  by (simp_all add: same_but_source_def get_source_version_def get_destination_version_def
      Source_get_version_def)

lemma reader_bytes_Cons [simp]:
  "reader_bytes [] = []" "reader_bytes (k # r) = chunk_bytes k @ reader_bytes r"
  by (simp_all add: reader_bytes_def)

lemma steady_Cons [simp]: "steady []" "steady (k # r) \<longleftrightarrow> chunk_bytes k \<noteq> [] \<and> steady r"
  by (simp_all add: steady_def)

lemma read_loop_0 [simp]: "read_loop r 0 = Inr ([], r)"
  by (simp add: read_loop.simps)

lemma read_loop_steady:
  assumes "steady r"
  shows "\<exists>r'. read_loop r n = Inr (take n (reader_bytes r), r') \<and> steady r' \<and>
    reader_bytes r' = drop n (reader_bytes r)"
  using assms
proof (induction r arbitrary: n)
  case Nil
  then show ?case by (simp add: read_loop.simps)
next
  case (Cons k r)
  obtain bs where k: "k = Chunk bs" "bs \<noteq> []"
    using Cons.prems by (cases k) (auto simp: chunk_bytes_def)
  show ?case
  proof (cases "n < length bs")
    case True
    with Cons.prems k show ?thesis
      by (cases "n = 0") (auto simp: read_loop.simps [of "Chunk bs # r" n] chunk_bytes_def)
  next
    case False
    from Cons.IH Cons.prems k obtain r' where
      "read_loop r (n - length bs) = Inr (take (n - length bs) (reader_bytes r), r')" "steady r'"
      "reader_bytes r' = drop (n - length bs) (reader_bytes r)"
      by (auto simp: chunk_bytes_def)
    moreover have "n \<noteq> 0" using False k(2) by (cases bs) auto
    ultimately show ?thesis
      using False k by (simp add: read_loop.simps [of "Chunk bs # r" n] chunk_bytes_def)
  qed
qed

lemma loaded_simps [simp]:
  "loaded_bytes (loaded_cache B m) = B" "loaded_count (loaded_cache B m) = m"
  by (simp_all add: loaded_bytes_def loaded_count_def loaded_cache_def)

lemma read_exact_loaded:
  assumes "off + n \<le> length B" and "n < m"
  shows "ReadOnceBufferCache_read_exact (loaded_cache B m) n off =
    (Inr (take n (drop off B)), loaded_cache B (m - n))"
proof (cases "n = 0")
  case True
  then show ?thesis by (simp add: ReadOnceBufferCache_read_exact.simps)
next
  case False
  have "read_exact_turn (loaded_cache B m) off n = (Inr (take n (drop off B)), loaded_cache B (m - n))"
    using assms False
    by (simp add: read_exact_turn_def read_buffer_from_cache_def reader_waits_def ReadBuffer_read_def
        loaded_cache_def of_option_def update_bytes_read_def usub_def Let_def min_absorb1 min_absorb2)
  with assms False show ?thesis
    by (simp add: ReadOnceBufferCache_read_exact.simps [of _ n] ReadOnceBufferCache_read_exact.simps [of _ 0]
        min_absorb2)
qed

lemma read_exact_upcoming:
  assumes "upcoming c (bs @ rest)" and "length bs = n"
  obtains c' where "read_exact c n = Inr (bs, c')" "upcoming c' rest" "same_but_source c c'"
proof -
  let ?s = "ssuc_source c"
  have loop: "\<exists>r'. read_loop r n = Inr (bs, r') \<and> steady r' \<and> reader_bytes r' = rest"
    if "steady r" "reader_bytes r = bs @ rest" for r
    using read_loop_steady [OF that(1), of n] that(2) assms(2) by simp
  have "\<exists>c'. read_exact c n = Inr (bs, c') \<and> upcoming c' rest \<and> same_but_source c c'"
  proof (cases "ssus_source ?s")
    case (SssBufReader r)
    with assms loop [of r] show ?thesis
      by (auto simp: read_exact_def Context_read_def Source_read_def upcoming_def same_but_source_def
          Source_is_external_def)
  next
    case (SssReader r)
    with assms loop [of r] show ?thesis
      by (auto simp: read_exact_def Context_read_def Source_read_def upcoming_def same_but_source_def
          Source_is_external_def)
  next
    case (SssSliceReader sl)
    with assms(1) have d: "drop (ssus_offset ?s) sl = bs @ rest" and le: "ssus_offset ?s \<le> length sl"
      by (auto simp: upcoming_def)
    have "length sl - ssus_offset ?s = n + length rest"
      using arg_cong [OF d, of length] assms(2) by (simp only: length_drop length_append)
    with le have "ssus_offset ?s + n \<le> length sl"
      by linarith
    moreover have "drop (ssus_offset ?s + n) sl = rest"
      using arg_cong [OF d, of "drop n"] assms(2) by (simp add: add.commute)
    ultimately show ?thesis
      using assms(2) d SssSliceReader
      by (simp add: read_exact_def Context_read_def Source_read_def upcoming_def same_but_source_def
          Source_is_external_def)
  next
    case (SssReadOnceBufferCache cache)
    let ?B = "loaded_bytes cache" and ?m = "loaded_count cache"
    have cache: "cache = loaded_cache ?B ?m" and m: "n + length rest < ?m"
      and d: "drop (ssus_offset ?s) ?B = bs @ rest" and le: "ssus_offset ?s \<le> length ?B"
      using assms SssReadOnceBufferCache by (auto simp: upcoming_def)
    have n: "ssus_offset ?s + n \<le> length ?B"
      using arg_cong [OF d, of length] assms(2) le by (simp only: length_drop length_append)
    have rest: "drop (ssus_offset ?s + n) ?B = rest"
      using arg_cong [OF d, of "drop n"] assms(2) by (simp add: add.commute)
    have "ReadOnceBufferCache_read_exact cache n (ssus_offset ?s) = (Inr bs, loaded_cache ?B (?m - n))"
      using read_exact_loaded [OF n, of ?m] m d assms(2) cache by simp
    then show ?thesis
      using assms(2) m n rest SssReadOnceBufferCache
      by (simp add: read_exact_def Context_read_def Source_read_def upcoming_def same_but_source_def
          Source_is_external_def)
  qed (use assms(1) in \<open>auto simp: upcoming_def\<close>)
  with that show thesis by blast
qed

lemma read32_upcoming:
  assumes "upcoming c (le32 w @ rest)"
  obtains c' where "read32 c = Inr (w, c')" "upcoming c' rest" "same_but_source c c'"
proof -
  from assms obtain c' where "read_exact c 4 = Inr (le32 w, c')" "upcoming c' rest" "same_but_source c c'"
    by (rule read_exact_upcoming) simp
  with that [of c'] show thesis by (simp add: read32_def)
qed

lemma read16_upcoming:
  assumes "upcoming c (le16 w @ rest)"
  obtains c' where "read16 c = Inr (w, c')" "upcoming c' rest" "same_but_source c c'"
proof -
  from assms obtain c' where "read_exact c 2 = Inr (le16 w, c')" "upcoming c' rest" "same_but_source c c'"
    by (rule read_exact_upcoming) simp
  with that [of c'] show thesis by (simp add: read16_def)
qed

lemma SendCommandHeader_new_upcoming:
  assumes "upcoming c (enc_header n t crc @ rest)" and "get_source_version c = Inr v"
  obtains c' where "SendCommandHeader_new c = Inr (mk_header v n t crc, c')" "upcoming c' rest"
    "same_but_source c c'"
proof -
  from assms(1) have "upcoming c (le32 n @ le16 (command_type_to_u16 t) @ le32 crc @ rest)"
    by (simp add: enc_header_def)
  then obtain c1 where c1: "read32 c = Inr (n, c1)"
    "upcoming c1 (le16 (command_type_to_u16 t) @ le32 crc @ rest)" "same_but_source c c1"
    by (rule read32_upcoming)
  from c1(2) obtain c2 where c2: "read16 c1 = Inr (command_type_to_u16 t, c2)"
    "upcoming c2 (le32 crc @ rest)" "same_but_source c1 c2"
    by (rule read16_upcoming)
  from c2(2) obtain c3 where c3: "read32 c2 = Inr (crc, c3)" "upcoming c3 rest" "same_but_source c2 c3"
    by (rule read32_upcoming)
  have "same_but_source c c3"
    using c1(3) c2(3) c3(3) same_but_source_trans by blast
  moreover have "SendCommandHeader_new c = Inr (mk_header v n t crc, c3)"
    using c1(1) c2(1) c3(1) assms(2) same_but_source_versions(1) [OF calculation]
    by (simp add: SendCommandHeader_new_def mk_header_def)
  ultimately show thesis using that c3(2) by blast
qed

text \<open>Reading a command from any source that delivers its encoding.\<close>

lemma SendCommand_new_upcoming:
  assumes "upcoming c (enc_command x v a @ rest)" and "get_source_version c = Inr v"
    and "acmd_wf v a"
  obtains c' where "SendCommand_new x c = Inr (mk_command x v a, c')" "upcoming c' rest"
    "same_but_source c c'"
proof -
  from assms(1) have "upcoming c (enc_header (word_of_nat (length (enc_payload v a))) (ac_type a)
      (acmd_crc x v a) @ enc_payload v a @ rest)"
    by (simp add: enc_command_def enc_with_crc_def)
  then obtain c1 where c1: "SendCommandHeader_new c = Inr (mk_header v
      (word_of_nat (length (enc_payload v a))) (ac_type a) (acmd_crc x v a), c1)"
    "upcoming c1 (enc_payload v a @ rest)" "same_but_source c c1"
    using assms(2) by (rule SendCommandHeader_new_upcoming)
  from c1(2) obtain c2 where c2: "read_exact c1 (length (enc_payload v a)) = Inr (enc_payload v a, c2)"
    "upcoming c2 rest" "same_but_source c1 c2"
    by (rule read_exact_upcoming) simp
  have "SendCommand_new x c = Inr (mk_command x v a, c2)"
    using c1(1) SendCommand_new_from_header_enc [OF assms(3) _ c2(1)]
      same_but_source_versions(1) [OF c1(3)] assms(2)
    by (simp add: SendCommand_new_def)
  then show thesis
    using that c2(2) same_but_source_trans [OF c1(3) c2(3)] by blast
qed

end
