(* ===== verification/Sendstream_Codec.thy ===== *)
theory Sendstream_Codec
  imports Sendstream_Parse Command_Codec
begin

text \<open>
  The commands of the send stream parser as abstract commands of the upgrade tool, and the evaluation
  of the parser on their version 1 encodings. The encoding is the one that the upgrade tool reads and
  writes, so that both parsers are shown to agree on it.
\<close>

section \<open>The abstract command of a parsed command\<close>

fun enc_time :: "SystemTime \<Rightarrow> bytes" where
  "enc_time (SystemTime s n) = le64 (word_of_nat s) @ le32 (word_of_nat n)"

primrec uuid_bytes :: "Uuid \<Rightarrow> bytes" where "uuid_bytes (Uuid u) = to_le 16 u"
primrec ctransid_bytes :: "Ctransid \<Rightarrow> bytes" where "ctransid_bytes (Ctransid c) = le64 c"
primrec uid_bytes :: "Uid \<Rightarrow> bytes" where "uid_bytes (Uid u) = le64 (ucast u)"
primrec gid_bytes :: "Gid \<Rightarrow> bytes" where "gid_bytes (Gid g) = le64 (ucast g)"
primrec mode_bytes :: "Mode \<Rightarrow> bytes" where "mode_bytes (Mode m) = le64 (ucast m)"
primrec clone_len_bytes :: "CloneLen \<Rightarrow> bytes" where "clone_len_bytes (CloneLen n) = le64 n"
primrec rdev_bytes :: "Rdev \<Rightarrow> bytes" where "rdev_bytes (Rdev d) = le64 d"
primrec ino_bytes :: "Ino \<Rightarrow> bytes" where "ino_bytes (Ino i) = le64 i"
primrec offset_bytes :: "FileOffset \<Rightarrow> bytes" where "offset_bytes (FileOffset n) = le64 n"
primrec target_bytes :: "LinkTarget \<Rightarrow> bytes" where "target_bytes (LinkTarget p) = p"
primrec temporary_bytes :: "TemporaryPath \<Rightarrow> bytes" where "temporary_bytes (TemporaryPath p) = p"
primrec xattr_name_bytes :: "XattrName \<Rightarrow> bytes" where "xattr_name_bytes (XattrName n) = n"
primrec xattr_data_bytes :: "XattrData \<Rightarrow> bytes" where "xattr_data_bytes (XattrData d) = d"
primrec data_bytes :: "Data \<Rightarrow> bytes" where "data_bytes (Data d) = d"
primrec atime_of :: "Atime \<Rightarrow> SystemTime" where "atime_of (Atime t) = t"
primrec mtime_of :: "Mtime \<Rightarrow> SystemTime" where "mtime_of (Mtime t) = t"
primrec ctime_of :: "Ctime \<Rightarrow> SystemTime" where "ctime_of (Ctime t) = t"

definition mkspecial_attrs :: "Mkspecial \<Rightarrow> attr list" where
  "mkspecial_attrs m =
     [(BTRFS_SEND_A_PATH, temporary_bytes (mkspecial_path m)), (BTRFS_SEND_A_INO, ino_bytes (mkspecial_ino m)),
      (BTRFS_SEND_A_RDEV, rdev_bytes (mkspecial_rdev m)), (BTRFS_SEND_A_MODE, mode_bytes (mkspecial_mode m))]"

definition meta :: "BtrfsSendCommandType \<Rightarrow> attr list \<Rightarrow> acmd" where
  "meta t as = \<lparr>ac_type = t, ac_attrs = as, ac_data = None\<rparr>"

fun to_acmd :: "Command \<Rightarrow> acmd" where
  "to_acmd (Command_Chmod c) = meta BTRFS_SEND_C_CHMOD
     [(BTRFS_SEND_A_PATH, chmod_path c), (BTRFS_SEND_A_MODE, mode_bytes (chmod_mode c))]"
| "to_acmd (Command_Chown c) = meta BTRFS_SEND_C_CHOWN
     [(BTRFS_SEND_A_PATH, chown_path c), (BTRFS_SEND_A_UID, uid_bytes (chown_uid c)),
      (BTRFS_SEND_A_GID, gid_bytes (chown_gid c))]"
| "to_acmd (Command_Clone c) = meta BTRFS_SEND_C_CLONE
     [(BTRFS_SEND_A_FILE_OFFSET, offset_bytes (clone_dst_offset c)), (BTRFS_SEND_A_CLONE_LEN, clone_len_bytes (clone_len c)),
      (BTRFS_SEND_A_PATH, clone_dst_path c), (BTRFS_SEND_A_CLONE_UUID, uuid_bytes (clone_uuid c)),
      (BTRFS_SEND_A_CLONE_CTRANSID, ctransid_bytes (clone_ctransid c)), (BTRFS_SEND_A_CLONE_PATH, clone_src_path c),
      (BTRFS_SEND_A_CLONE_OFFSET, offset_bytes (clone_src_offset c))]"
| "to_acmd Command_End = meta BTRFS_SEND_C_END []"
| "to_acmd (Command_Link c) = meta BTRFS_SEND_C_LINK
     [(BTRFS_SEND_A_PATH, link_link_name c), (BTRFS_SEND_A_PATH_LINK, target_bytes (link_target c))]"
| "to_acmd (Command_Mkdir c) = meta BTRFS_SEND_C_MKDIR
     [(BTRFS_SEND_A_PATH, temporary_bytes (mkdir_path c)), (BTRFS_SEND_A_INO, ino_bytes (mkdir_ino c))]"
| "to_acmd (Command_Mkfifo (Mkfifo m)) = meta BTRFS_SEND_C_MKFIFO (mkspecial_attrs m)"
| "to_acmd (Command_Mkfile c) = meta BTRFS_SEND_C_MKFILE
     [(BTRFS_SEND_A_PATH, temporary_bytes (mkfile_path c)), (BTRFS_SEND_A_INO, ino_bytes (mkfile_ino c))]"
| "to_acmd (Command_Mknod (Mknod m)) = meta BTRFS_SEND_C_MKNOD (mkspecial_attrs m)"
| "to_acmd (Command_Mksock (Mksock m)) = meta BTRFS_SEND_C_MKSOCK (mkspecial_attrs m)"
| "to_acmd (Command_RemoveXattr c) = meta BTRFS_SEND_C_REMOVE_XATTR
     [(BTRFS_SEND_A_PATH, remove_xattr_path c), (BTRFS_SEND_A_XATTR_NAME, xattr_name_bytes (remove_xattr_name c))]"
| "to_acmd (Command_Rename c) = meta BTRFS_SEND_C_RENAME
     [(BTRFS_SEND_A_PATH, rename_from c), (BTRFS_SEND_A_PATH_TO, rename_to c)]"
| "to_acmd (Command_Rmdir c) = meta BTRFS_SEND_C_RMDIR [(BTRFS_SEND_A_PATH, rmdir_path c)]"
| "to_acmd (Command_SetXattr c) = meta BTRFS_SEND_C_SET_XATTR
     [(BTRFS_SEND_A_PATH, set_xattr_path c), (BTRFS_SEND_A_XATTR_NAME, xattr_name_bytes (set_xattr_name c)),
      (BTRFS_SEND_A_XATTR_DATA, xattr_data_bytes (set_xattr_data c))]"
| "to_acmd (Command_Snapshot c) = meta BTRFS_SEND_C_SNAPSHOT
     [(BTRFS_SEND_A_PATH, snapshot_path c), (BTRFS_SEND_A_UUID, uuid_bytes (snapshot_uuid c)),
      (BTRFS_SEND_A_CTRANSID, ctransid_bytes (snapshot_ctransid c)),
      (BTRFS_SEND_A_CLONE_UUID, uuid_bytes (snapshot_clone_uuid c)),
      (BTRFS_SEND_A_CLONE_CTRANSID, ctransid_bytes (snapshot_clone_ctransid c))]"
| "to_acmd (Command_Subvol c) = meta BTRFS_SEND_C_SUBVOL
     [(BTRFS_SEND_A_PATH, subvol_path c), (BTRFS_SEND_A_UUID, uuid_bytes (subvol_uuid c)),
      (BTRFS_SEND_A_CTRANSID, ctransid_bytes (subvol_ctransid c))]"
| "to_acmd (Command_Symlink c) = meta BTRFS_SEND_C_SYMLINK
     [(BTRFS_SEND_A_PATH, symlink_link_name c), (BTRFS_SEND_A_INO, ino_bytes (symlink_ino c)),
      (BTRFS_SEND_A_PATH_LINK, target_bytes (symlink_target c))]"
| "to_acmd (Command_Truncate c) = meta BTRFS_SEND_C_TRUNCATE
     [(BTRFS_SEND_A_PATH, truncate_path c), (BTRFS_SEND_A_SIZE, le64 (truncate_size c))]"
| "to_acmd (Command_Unlink c) = meta BTRFS_SEND_C_UNLINK [(BTRFS_SEND_A_PATH, unlink_path c)]"
| "to_acmd (Command_UpdateExtent c) = meta BTRFS_SEND_C_UPDATE_EXTENT
     [(BTRFS_SEND_A_PATH, update_extent_path c), (BTRFS_SEND_A_FILE_OFFSET, offset_bytes (update_extent_offset c)),
      (BTRFS_SEND_A_SIZE, le64 (update_extent_len c))]"
| "to_acmd (Command_Utimes c) = meta BTRFS_SEND_C_UTIMES
     [(BTRFS_SEND_A_PATH, utimes_path c), (BTRFS_SEND_A_ATIME, enc_time (atime_of (utimes_atime c))),
      (BTRFS_SEND_A_MTIME, enc_time (mtime_of (utimes_mtime c))), (BTRFS_SEND_A_CTIME, enc_time (ctime_of (utimes_ctime c)))]"
| "to_acmd (Command_Write c) =
     \<lparr>ac_type = BTRFS_SEND_C_WRITE,
      ac_attrs = [(BTRFS_SEND_A_PATH, write_path c), (BTRFS_SEND_A_FILE_OFFSET, offset_bytes (write_offset_field c))],
      ac_data = Some (data_bytes (write_data_field c))\<rparr>"

text \<open>What fits the format: payloads have 16-bit lengths and times are normalised and in range.\<close>

fun time_fits :: "SystemTime \<Rightarrow> bool" where
  "time_fits (SystemTime s n) \<longleftrightarrow> s < 2 ^ 63 \<and> n < 10 ^ 9"

definition times_of :: "Command \<Rightarrow> SystemTime list" where
  "times_of c =
     (case c of Command_Utimes u \<Rightarrow> [atime_of (utimes_atime u), mtime_of (utimes_mtime u), ctime_of (utimes_ctime u)] | _ \<Rightarrow> [])"

definition command_fits :: "Command \<Rightarrow> bool" where
  "command_fits c \<longleftrightarrow>
     (\<forall>a \<in> set (all_attrs (to_acmd c)). length (snd a) < 2 ^ 16) \<and> (\<forall>t \<in> set (times_of c). time_fits t)"

abbreviation enc_sendstream :: "externs \<Rightarrow> Command \<Rightarrow> bytes" where
  "enc_sendstream x c \<equiv> enc_command x SendVersion1 (to_acmd c)"

section \<open>Attributes\<close>

lemma tlv_enc:
  assumes N: "nom_documented N" and t: "attribute_type_to_u16 t = Attr_as_u16 attr"
    and len: "tlv_length T = 0 \<or> tlv_length T = length p" and p: "length p < 2 ^ 16"
  shows "parse_tlv_with_attr N T attr (enc_attr SendVersion1 (t, p) @ rest) =
    (case tlv_parse T p of Some v \<Rightarrow> IOk rest v | None \<Rightarrow> IPanic)"
proof -
  have "enc_attr SendVersion1 (t, p) @ rest = Attr_tag attr @ le16 (word_of_nat (length p)) @ p @ rest"
    by (simp add: enc_attr_def enc_attr_header_def sizeless_def Attr_tag_def t)
  then show ?thesis
    using len p by (auto simp: parse_tlv_with_attr_def nom_accepts [OF N] unat_word_of_nat)
qed

lemma default_tlv_enc:
  assumes "nom_documented N" and "attribute_type_to_u16 t = Attr_as_u16 (tlv_attr T)"
    and "tlv_length T = 0 \<or> tlv_length T = length p" and "length p < 2 ^ 16"
  shows "parse_tlv N T (enc_attr SendVersion1 (t, p) @ rest) = (case tlv_parse T p of Some v \<Rightarrow> IOk rest v | None \<Rightarrow> IPanic)"
  unfolding parse_tlv_def using assms by (rule tlv_enc)

lemmas tlv_enc_last = tlv_enc [where rest = "[]", simplified] default_tlv_enc [where rest = "[]", simplified]

lemma value_lengths [simp]:
  "length (uuid_bytes u) = 16" "length (ctransid_bytes ct) = 8" "length (uid_bytes ui) = 8"
  "length (gid_bytes g) = 8" "length (mode_bytes m) = 8" "length (clone_len_bytes cl) = 8"
  "length (rdev_bytes rd) = 8" "length (ino_bytes i) = 8" "length (offset_bytes fo) = 8" "length (enc_time t) = 12"
  by (cases u; cases ct; cases ui; cases g; cases m; cases cl; cases rd; cases i; cases fo; cases t; simp)+

lemma from_le_128 [simp]: "(from_le (to_le 16 w) :: u128) = w"
  by (rule from_le_to_le) simp

lemma ucast_up_down: "ucast (ucast (w :: u32) :: u64) = w"
  by (rule bit_word_eqI) (simp add: bit_simps)

lemma parse_time_enc: "time_fits t \<Longrightarrow> parse_time (enc_time t) = Some t"
proof (cases t)
  case (SystemTime s n)
  assume "time_fits t"
  with SystemTime have "s < 2 ^ 63" "n < 10 ^ 9" by simp_all
  moreover have "unat (word_of_nat s :: u64) = s" "unat (word_of_nat n :: u32) = n"
    using \<open>s < 2 ^ 63\<close> \<open>n < 10 ^ 9\<close> by (simp_all add: unat_word_of_nat)
  ultimately show ?thesis
    by (simp add: SystemTime parse_time_def time_add_def Let_def)
qed

lemma tlv_values [simp]:
  "tlv_parse Path_tlv p = Some p"
  "tlv_parse TemporaryPath_tlv (temporary_bytes tp) = Some tp"
  "tlv_parse Uuid_tlv (uuid_bytes u) = Some u"
  "tlv_parse Ctransid_tlv (ctransid_bytes ct) = Some ct"
  "tlv_parse Uid_tlv (uid_bytes ui) = Some ui"
  "tlv_parse Gid_tlv (gid_bytes g) = Some g"
  "tlv_parse Mode_tlv (mode_bytes m) = Some m"
  "tlv_parse Ino_tlv (ino_bytes i) = Some i"
  "tlv_parse XattrName_tlv (xattr_name_bytes xn) = Some xn"
  "tlv_parse XattrData_tlv (xattr_data_bytes xd) = Some xd"
  "tlv_parse FileOffset_tlv (offset_bytes fo) = Some fo"
  "tlv_parse Data_tlv (data_bytes d) = Some d"
  "tlv_parse LinkTarget_tlv (target_bytes lt) = Some lt"
  "tlv_parse Rdev_tlv (rdev_bytes rd) = Some rd"
  "tlv_parse CloneLen_tlv (clone_len_bytes cl) = Some cl"
  "tlv_parse u64_tlv (le64 w) = Some w"
  by (cases tp; cases u; cases ct; cases ui; cases g; cases m; cases i; cases xn; cases xd; cases fo; cases d;
      cases lt; cases rd; cases cl; simp add: tlv_defs ucast_up_down)+

lemma tlv_times [simp]:
  "time_fits (atime_of a) \<Longrightarrow> tlv_parse Atime_tlv (enc_time (atime_of a)) = Some a"
  "time_fits (mtime_of m) \<Longrightarrow> tlv_parse Mtime_tlv (enc_time (mtime_of m)) = Some m"
  "time_fits (ctime_of c) \<Longrightarrow> tlv_parse Ctime_tlv (enc_time (ctime_of c)) = Some c"
  by (cases a; cases m; cases c; simp add: tlv_defs parse_time_enc)+

lemma tlv_shapes [simp]:
  "tlv_length Path_tlv = 0" "tlv_length TemporaryPath_tlv = 0" "tlv_length Uuid_tlv = 16" "tlv_length Ctransid_tlv = 8"
  "tlv_length Uid_tlv = 8" "tlv_length Gid_tlv = 8" "tlv_length Mode_tlv = 8" "tlv_length Ino_tlv = 8"
  "tlv_length XattrName_tlv = 0" "tlv_length XattrData_tlv = 0" "tlv_length FileOffset_tlv = 8" "tlv_length Data_tlv = 0"
  "tlv_length LinkTarget_tlv = 0" "tlv_length Rdev_tlv = 8" "tlv_length CloneLen_tlv = 8" "tlv_length u64_tlv = 8"
  "tlv_length Atime_tlv = 12" "tlv_length Mtime_tlv = 12" "tlv_length Ctime_tlv = 12"
  "tlv_attr Path_tlv = Attr_Path" "tlv_attr TemporaryPath_tlv = Attr_Path" "tlv_attr Uuid_tlv = Attr_Uuid"
  "tlv_attr Ctransid_tlv = Attr_Ctransid" "tlv_attr Uid_tlv = Attr_Uid" "tlv_attr Gid_tlv = Attr_Gid"
  "tlv_attr Mode_tlv = Attr_Mode" "tlv_attr Ino_tlv = Attr_Ino" "tlv_attr XattrName_tlv = Attr_XattrName"
  "tlv_attr XattrData_tlv = Attr_XattrData" "tlv_attr FileOffset_tlv = Attr_FileOffset" "tlv_attr Data_tlv = Attr_Data"
  "tlv_attr LinkTarget_tlv = Attr_Link" "tlv_attr Rdev_tlv = Attr_Rdev" "tlv_attr CloneLen_tlv = Attr_CloneLen"
  "tlv_attr u64_tlv = Attr_Size" "tlv_attr Atime_tlv = Attr_Atime" "tlv_attr Mtime_tlv = Attr_Mtime"
  "tlv_attr Ctime_tlv = Attr_Ctime"
  by (simp_all add: tlv_defs)

section \<open>Commands\<close>

fun command_type :: "Command \<Rightarrow> CommandType" where
  "command_type (Command_Chmod _) = Type_Chmod"
| "command_type (Command_Chown _) = Type_Chown"
| "command_type (Command_Clone _) = Type_Clone"
| "command_type Command_End = Type_End"
| "command_type (Command_Link _) = Type_Link"
| "command_type (Command_Mkdir _) = Type_Mkdir"
| "command_type (Command_Mkfifo _) = Type_Mkfifo"
| "command_type (Command_Mkfile _) = Type_Mkfile"
| "command_type (Command_Mknod _) = Type_Mknod"
| "command_type (Command_Mksock _) = Type_Mksock"
| "command_type (Command_RemoveXattr _) = Type_RemoveXattr"
| "command_type (Command_Rename _) = Type_Rename"
| "command_type (Command_Rmdir _) = Type_Rmdir"
| "command_type (Command_SetXattr _) = Type_SetXattr"
| "command_type (Command_Snapshot _) = Type_Snapshot"
| "command_type (Command_Subvol _) = Type_Subvol"
| "command_type (Command_Symlink _) = Type_Symlink"
| "command_type (Command_Truncate _) = Type_Truncate"
| "command_type (Command_Unlink _) = Type_Unlink"
| "command_type (Command_UpdateExtent _) = Type_UpdateExtent"
| "command_type (Command_Utimes _) = Type_Utimes"
| "command_type (Command_Write _) = Type_Write"

lemma command_type_code: "CommandType_from_u16 (command_type_to_u16 (ac_type (to_acmd c))) = command_type c"
  by (cases c rule: to_acmd.cases) (simp_all add: meta_def CommandType_from_u16_def CommandType_variants_def)

lemmas command_parsers = Subvol_parse_def Chmod_parse_def Chown_parse_def Clone_parse_def Link_parse_def
  Symlink_parse_def Mkdir_parse_def Mkfile_parse_def Mkspecial_parse_def Mknod_parse_def Mkfifo_parse_def
  Mksock_parse_def RemoveXattr_parse_def Rename_parse_def Rmdir_parse_def SetXattr_parse_def Truncate_parse_def
  Snapshot_parse_def Unlink_parse_def UpdateExtent_parse_def Utimes_parse_def Write_parse_def

lemma parse_subtypes_enc:
  assumes "nom_documented N" and "command_fits c"
  shows "parse_subtypes N (command_type c) (enc_payload SendVersion1 (to_acmd c)) = IOk [] c"
  using assms(2)
  by (cases c rule: to_acmd.cases)
    (simp_all add: command_parsers enc_payload_def all_attrs_def meta_def mkspecial_attrs_def command_fits_def
      times_of_def expect_into_def tlv_enc [OF assms(1)] default_tlv_enc [OF assms(1)]
      tlv_enc_last(1) [OF assms(1)] tlv_enc_last(2) [OF assms(1)])

lemma length_enc_attrs_bound:
  "\<forall>a \<in> set as. length (snd a) < 2 ^ 16 \<Longrightarrow> length (enc_attrs v as) \<le> length as * (2 ^ 16 + 3)"
  by (induction as) (auto simp: length_enc_attr)

lemma payload_bound:
  assumes "command_fits c"
  shows "length (enc_payload SendVersion1 (to_acmd c)) + 10 < 2 ^ 32"
proof -
  have "length (all_attrs (to_acmd c)) \<le> 7"
    by (cases c rule: to_acmd.cases) (simp_all add: all_attrs_def meta_def mkspecial_attrs_def)
  then have "length (all_attrs (to_acmd c)) * (2 ^ 16 + 3) \<le> 7 * (2 ^ 16 + 3)" by (rule mult_le_mono1)
  with length_enc_attrs_bound [of "all_attrs (to_acmd c)" SendVersion1] assms show ?thesis
    by (simp add: enc_payload_def command_fits_def)
qed

text \<open>A complete command is parsed, and nothing behind it is touched.\<close>

lemma Command_parse_payload:
  assumes N: "nom_documented N" and "length P < 2 ^ 32"
  shows "Command_parse N (enc_header (word_of_nat (length P)) t crc @ P @ rest) =
    ibind (parse_subtypes N (CommandType_from_u16 (command_type_to_u16 t)) P)
      (\<lambda>cmd_remaining cmd. if cmd_remaining = [] then IOk rest cmd else IPanic)"
  using assms(2)
  by (simp add: Command_parse_def CommandHeader_parse_def CommandType_parse_def enc_header_def nom_accepts [OF N]
      unat_word_of_nat)

lemma Command_parse_enc:
  assumes N: "nom_documented N" and c: "command_fits c"
  shows "Command_parse N (enc_with_crc SendVersion1 (to_acmd c) crc @ rest) = IOk rest c"
  using payload_bound [OF c]
  by (simp add: enc_with_crc_def Command_parse_payload [OF N] command_type_code parse_subtypes_enc [OF N c])

lemma Command_parse_enc_command:
  assumes "nom_documented N" and "command_fits c"
  shows "Command_parse N (enc_sendstream x c @ rest) = IOk rest c"
  using Command_parse_enc [OF assms] by (simp add: enc_command_def)

text \<open>The beginning of a command asks for more data.\<close>

lemma take_short_append: "length a \<le> n \<Longrightarrow> take n (a @ b) = a @ take (n - length a) b"
  by simp

lemma Command_parse_prefix:
  assumes N: "nom_documented N" and c: "command_fits c" and u: "enc_sendstream x c = u @ w" and w: "w \<noteq> []"
  shows "Command_parse N u = IErr NomIncomplete"
proof -
  let ?P = "enc_payload SendVersion1 (to_acmd c)" and ?t = "le16 (command_type_to_u16 (ac_type (to_acmd c)))"
  obtain crc where enc: "enc_sendstream x c = le32 (word_of_nat (length ?P)) @ ?t @ le32 crc @ ?P"
    by (simp add: enc_command_def enc_with_crc_def enc_header_def)
  define k where "k = length u"
  have uk: "u = take k (le32 (word_of_nat (length ?P)) @ ?t @ le32 crc @ ?P)" using u enc by (simp add: k_def)
  have k: "k < 10 + length ?P" using w arg_cong [OF u, of length] by (simp add: k_def)
  have n: "unat (word_of_nat (length ?P) :: u32) = length ?P" using payload_bound [OF c] by (simp add: unat_word_of_nat)
  note defs = Command_parse_def CommandHeader_parse_def CommandType_parse_def
  consider "k < 4" | "4 \<le> k" "k < 6" | "6 \<le> k" "k < 10" | "10 \<le> k" by linarith
  then show ?thesis
  proof cases
    case 1
    then show ?thesis by (simp add: defs nom_le_short [OF N] flip: k_def)
  next
    case 2
    then have "u = le32 (word_of_nat (length ?P)) @ take (k - 4) ?t" by (simp add: uk take_short_append)
    with 2 show ?thesis by (simp add: defs nom_accepts [OF N] nom_le_short [OF N])
  next
    case 3
    then have "u = le32 (word_of_nat (length ?P)) @ ?t @ take (k - 6) (le32 crc)" by (simp add: uk take_short_append)
    with 3 show ?thesis by (simp add: defs nom_accepts [OF N] nom_le_short [OF N])
  next
    case 4
    then have "u = le32 (word_of_nat (length ?P)) @ ?t @ le32 crc @ take (k - 10) ?P" by (simp add: uk take_short_append)
    with 4 k n show ?thesis by (simp add: defs nom_accepts [OF N] nom_take_short [OF N])
  qed
qed

end
