(* ===== verification/Sendstream_Streams.thy ===== *)
theory Sendstream_Streams
  imports Sendstream_Codec
begin

text \<open>
  The parser of \<open>wire/mod.rs\<close> on whole inputs: a sequence of complete send streams, and what may
  follow it: nothing, the beginning of a header, or a stream that has been cut off. However the bytes
  arrive, the callback gets the complete commands in order, and the ending decides the result.
\<close>

section \<open>Splitting a sequence\<close>

lemma append_covers: "a @ b = c @ d \<Longrightarrow> length c \<le> length a \<Longrightarrow> \<exists>u. a = c @ u \<and> d = u @ b"
  by (auto simp: append_eq_append_conv2)

lemma append_cuts: "a @ b = c @ d \<Longrightarrow> length a < length c \<Longrightarrow> \<exists>u. u \<noteq> [] \<and> c = a @ u \<and> b = u @ d"
  by (auto simp: append_eq_append_conv2)

section \<open>Inputs\<close>

type_synonym sendstream = "u32 \<times> Command list"

definition stream_start :: "u32 \<Rightarrow> bytes" where
  "stream_start v = MAGIC_HEADER @ le32 v"

definition enc_body :: "externs \<Rightarrow> Command list \<Rightarrow> bytes" where
  "enc_body x cmds = concat (map (enc_sendstream x) cmds)"

definition enc_streams :: "externs \<Rightarrow> sendstream list \<Rightarrow> bytes" where
  "enc_streams x streams = concat (map (\<lambda>(v, body). stream_start v @ enc_body x (body @ [Command_End])) streams)"

definition body_fits :: "Command list \<Rightarrow> bool" where
  "body_fits body \<longleftrightarrow> (\<forall>c \<in> set body. command_fits c \<and> c \<noteq> Command_End)"

definition streams_fit :: "sendstream list \<Rightarrow> bool" where
  "streams_fit streams \<longleftrightarrow> (\<forall>(v, body) \<in> set streams. body_fits body)"

declare to_acmd.simps [simp del]

text \<open>How an input ends.\<close>

datatype ending = Complete | Cut_header bytes | Cut_commands u32 "Command list" bytes

fun enc_ending :: "externs \<Rightarrow> ending \<Rightarrow> bytes" where
  "enc_ending x Complete = []"
| "enc_ending x (Cut_header h) = h"
| "enc_ending x (Cut_commands v body part) = stream_start v @ enc_body x body @ part"

definition cut_of :: "bytes \<Rightarrow> bytes \<Rightarrow> bool" where
  "cut_of part whole \<longleftrightarrow> (\<exists>w. w \<noteq> [] \<and> whole = part @ w)"

definition cut_command :: "externs \<Rightarrow> bytes \<Rightarrow> bool" where
  "cut_command x part \<longleftrightarrow> (\<exists>c. command_fits c \<and> cut_of part (enc_sendstream x c))"

fun ending_ok :: "externs \<Rightarrow> ending \<Rightarrow> bool" where
  "ending_ok x Complete \<longleftrightarrow> True"
| "ending_ok x (Cut_header h) \<longleftrightarrow> h \<noteq> [] \<and> (\<exists>v. cut_of h (stream_start v))"
| "ending_ok x (Cut_commands v body part) \<longleftrightarrow> body_fits body \<and> cut_command x part"

fun ending_commands :: "ending \<Rightarrow> Command list" where
  "ending_commands (Cut_commands v body part) = body"
| "ending_commands _ = []"

definition all_commands :: "sendstream list \<Rightarrow> ending \<Rightarrow> Command list" where
  "all_commands streams e = concat (map (\<lambda>(v, body). body @ [Command_End]) streams) @ ending_commands e"

text \<open>What the callback is given: the commands up to the one it stops at, if any.\<close>

fun deliver :: "('s \<Rightarrow> Command \<Rightarrow> ParserControl \<times> 's) \<Rightarrow> 's \<Rightarrow> Command list \<Rightarrow> nat \<Rightarrow> bool \<times> nat \<times> 's" where
  "deliver f s [] n = (False, n, s)"
| "deliver f s (c # cs) n =
     (case f s c of (Enough, s') \<Rightarrow> (True, n + 1, s') | (KeepGoing, s') \<Rightarrow> deliver f s' cs (n + 1))"

text \<open>The result that the ending calls for.\<close>

fun verdict :: "ending \<Rightarrow> bool \<times> nat \<times> 's \<Rightarrow> (parse_outcome \<times> 's) option \<Rightarrow> bool" where
  "verdict e (True, n, s) r \<longleftrightarrow> r = Some (Returned n, s)"
| "verdict Complete (False, n, s) r \<longleftrightarrow> r = Some (Returned n, s)"
| "verdict (Cut_header h) (False, n, s) r \<longleftrightarrow> r = None"
| "verdict (Cut_commands v body part) (False, n, s) r \<longleftrightarrow>
     r = Some (Raised (TrailingData part), s) \<or> part = [] \<and> r = Some (Raised Incomplete, s)"

lemma deliver_append:
  "deliver f s (cs @ ds) n =
     (case deliver f s cs n of (True, n', s') \<Rightarrow> (True, n', s') | (False, n', s') \<Rightarrow> deliver f s' ds n')"
  by (induction cs arbitrary: s n) (auto split: prod.splits ParserControl.splits)

lemma enc_body_simps [simp]:
  "enc_body x [] = []" "enc_body x (c # cs) = enc_sendstream x c @ enc_body x cs"
  "enc_body x (cs @ ds) = enc_body x cs @ enc_body x ds"
  by (simp_all add: enc_body_def)

lemma enc_streams_simps [simp]:
  "enc_streams x [] = []"
  "enc_streams x ((v, body) # ss) = stream_start v @ enc_body x body @ enc_sendstream x Command_End @ enc_streams x ss"
  by (simp_all add: enc_streams_def)

lemma enc_sendstream_ne [simp]: "enc_sendstream x c \<noteq> []"
  using length_enc_command [of x SendVersion1 "to_acmd c"] by (metis add_is_0 list.size(3) zero_neq_numeral)

lemma body_fits_simps [simp]:
  "body_fits []" "body_fits (c # cs) \<longleftrightarrow> command_fits c \<and> c \<noteq> Command_End \<and> body_fits cs"
  "body_fits (cs @ ds) \<longleftrightarrow> body_fits cs \<and> body_fits ds"
  by (auto simp: body_fits_def)

lemma end_fits [simp]: "command_fits Command_End"
  by (simp add: command_fits_def all_attrs_def meta_def times_of_def to_acmd.simps)

section \<open>The commands in the buffer\<close>

lemma parse_commands_full:
  assumes N: "nom_documented N" and "body_fits body"
  shows "parse_commands N f k (enc_body x body @ enc_sendstream x Command_End @ rest) n s =
    (case deliver f s (body @ [Command_End]) n of
       (True, n', s') \<Rightarrow> Some (Loop_return n' s') | (False, n', s') \<Rightarrow> Some (Loop_end rest n' s'))"
  using assms(2)
proof (induction body arbitrary: n s)
  case Nil
  then show ?case
    by (subst parse_commands.simps)
      (auto simp: Command_parse_enc_command [OF N] split: prod.splits ParserControl.splits)
next
  case (Cons c body)
  then show ?case
    by (subst parse_commands.simps)
      (auto simp: Command_parse_enc_command [OF N] split: prod.splits ParserControl.splits)
qed

lemma parse_commands_cut:
  assumes N: "nom_documented N" and "body_fits body" and part: "cut_command x part"
  shows "parse_commands N f k (enc_body x body @ part) n s =
    (case deliver f s body n of
       (True, n', s') \<Rightarrow> Some (Loop_return n' s')
     | (False, n', s') \<Rightarrow> Some (if k = 0 then Loop_error (TrailingData part) s' else Loop_more part n' s'))"
  using assms(2)
proof (induction body arbitrary: n s)
  case Nil
  have "Command_parse N part = IErr NomIncomplete"
    using part Command_parse_prefix [OF N] by (auto simp: cut_command_def cut_of_def)
  then show ?case by (subst parse_commands.simps) simp
next
  case (Cons c body)
  then show ?case
    by (subst parse_commands.simps)
      (auto simp: Command_parse_enc_command [OF N] split: prod.splits ParserControl.splits)
qed

text \<open>A buffer that holds the beginning of a sequence of commands: all of it, or some commands and a
  cut one.\<close>

lemma buffer_cases:
  assumes "u @ w = enc_body x cmds @ tail" and "\<forall>c \<in> set cmds. command_fits c"
  obtains (all) rest where "u = enc_body x cmds @ rest" "rest @ w = tail"
    | (cut) pre c post part where "cmds = pre @ c # post" "u = enc_body x pre @ part" "cut_of part (enc_sendstream x c)"
        "part @ w = enc_body x (c # post) @ tail"
proof -
  have "(\<exists>rest. u = enc_body x cmds @ rest \<and> rest @ w = tail) \<or>
    (\<exists>pre c post part. cmds = pre @ c # post \<and> u = enc_body x pre @ part \<and> cut_of part (enc_sendstream x c) \<and>
       part @ w = enc_body x (c # post) @ tail)"
    using assms
  proof (induction cmds arbitrary: u)
    case Nil
    then show ?case by simp
  next
    case (Cons c cmds)
    let ?e = "enc_sendstream x c"
    show ?case
    proof (cases "length ?e \<le> length u")
      case True
      with append_covers [of u w ?e "enc_body x cmds @ tail"] Cons.prems(1)
      obtain u' where u': "u = ?e @ u'" "u' @ w = enc_body x cmds @ tail" by auto
      from Cons.IH [OF u'(2)] Cons.prems(2)
      have "(\<exists>rest. u' = enc_body x cmds @ rest \<and> rest @ w = tail) \<or>
        (\<exists>pre c' post part. cmds = pre @ c' # post \<and> u' = enc_body x pre @ part \<and> cut_of part (enc_sendstream x c') \<and>
           part @ w = enc_body x (c' # post) @ tail)" by simp
      then show ?thesis
      proof (elim disjE exE conjE)
        fix pre c' post part
        assume "cmds = pre @ c' # post" "u' = enc_body x pre @ part" "cut_of part (enc_sendstream x c')"
          "part @ w = enc_body x (c' # post) @ tail"
        with u'(1) show ?thesis by (intro disjI2 exI [of _ "c # pre"] exI [of _ c'] exI [of _ post] exI [of _ part]) simp
      qed (use u'(1) in auto)
    next
      case False
      with append_cuts [of u w ?e "enc_body x cmds @ tail"] Cons.prems(1)
      obtain v where v: "?e = u @ v" "v \<noteq> []" by auto
      then have "cut_of u ?e" by (auto simp: cut_of_def)
      with Cons.prems(1) show ?thesis
        by (intro disjI2 exI [of _ "[]"] exI [of _ c] exI [of _ cmds] exI [of _ u]) simp
    qed
  qed
  with all cut show thesis by blast
qed

lemma cut_of_prefix: "cut_of (p @ q) w \<Longrightarrow> cut_of p w"
  by (auto simp: cut_of_def)

lemma cut_command_prefix: "cut_command x (p @ q) \<Longrightarrow> cut_command x p"
  by (auto simp: cut_command_def dest: cut_of_prefix)

section \<open>Headers\<close>

lemma stream_start_ne [simp]: "stream_start v \<noteq> []"
  by (simp add: stream_start_def MAGIC_HEADER_def)

lemma parse_header_enc: "nom_documented N \<Longrightarrow> parse_header N (stream_start v @ rest) = IOk rest v"
  by (simp add: parse_header_def stream_start_def nom_accepts)

lemma parse_header_cut:
  assumes N: "nom_documented N" and "cut_of u (stream_start v)"
  shows "parse_header N u = IErr NomIncomplete"
proof -
  obtain w where w: "MAGIC_HEADER @ le32 v = u @ w" "w \<noteq> []"
    using assms(2) by (auto simp: cut_of_def stream_start_def)
  show ?thesis
  proof (cases "length u < length MAGIC_HEADER")
    case True
    with append_cuts [of u w MAGIC_HEADER "le32 v"] w(1) obtain t where "MAGIC_HEADER = u @ t" "t \<noteq> []" by auto
    then show ?thesis by (simp add: parse_header_def nom_tag_short [OF N])
  next
    case False
    with append_covers [of u w MAGIC_HEADER "le32 v"] w(1) obtain t where t: "u = MAGIC_HEADER @ t" "le32 v = t @ w" by auto
    have "length t + length w = 4" using arg_cong [OF t(2), of length] by simp
    then have "length t < 4" using w(2) by (cases w) simp_all
    with t show ?thesis by (simp add: parse_header_def nom_accepts [OF N] nom_le_short [OF N])
  qed
qed

text \<open>At the end of the input the loop spins on the beginning of a header.\<close>

lemma parse_loop_spins:
  fixes f :: "'s \<Rightarrow> Command \<Rightarrow> ParserControl \<times> 's"
  assumes N: "nom_documented N" and "cut_of h (stream_start v)" and "h \<noteq> []"
  shows "parse_loop N f [] h None n s = None"
proof (rule ccontr)
  assume "parse_loop N f [] h None n s \<noteq> None"
  then obtain y where ret: "parse_loop N f [] h None n s = Some y" by blast
  have "\<not> (N = N \<and> [] = ([] :: reader) \<and> h = h \<and> None = (None :: u32 option))"
  proof (rule parse_loop.raw_induct
      [where P = "\<lambda>N' f' r u header n s y. \<not> (N' = N \<and> r = [] \<and> u = h \<and> header = None)", OF _ ret])
    fix loop N' and f' :: "'s \<Rightarrow> Command \<Rightarrow> ParserControl \<times> 's" and r u header n s y
    assume IH: "\<And>N' f' r u header n s y. loop N' f' r u header n s = Some y \<Longrightarrow>
        \<not> (N' = N \<and> r = [] \<and> u = h \<and> header = None)"
      and eq: "(case read_buf r of
        None \<Rightarrow> Some (Raised IO, s)
      | Some (bs, r') \<Rightarrow>
          let unparsed = u @ bs in
          if bs \<noteq> [] \<or> unparsed \<noteq> [] then
            if header \<noteq> None then
              Option.bind (parse_commands N' f' (length bs) unparsed n s) (\<lambda>res.
              case res of
                Loop_return command_count s \<Rightarrow> Some (Returned command_count, s)
              | Loop_end remainder command_count s \<Rightarrow> loop N' f' r' remainder None command_count s
              | Loop_more unparsed command_count s \<Rightarrow> loop N' f' r' unparsed header command_count s
              | Loop_error e s \<Rightarrow> Some (Raised e, s)
              | Loop_panic s \<Rightarrow> Some (Panicked, s))
            else
              (case parse_header N' unparsed of
                 IOk remainder version \<Rightarrow> loop N' f' r' remainder (Some version) n s
               | IErr NomIncomplete \<Rightarrow> loop N' f' r' unparsed header n s
               | IErr _ \<Rightarrow> Some (Raised Unparsable, s)
               | IPanic \<Rightarrow> Some (Panicked, s))
          else if header \<noteq> None then Some (Raised Incomplete, s)
          else Some (Returned n, s)) = Some y"
    show "\<not> (N' = N \<and> r = [] \<and> u = h \<and> header = None)"
    proof
      assume "N' = N \<and> r = [] \<and> u = h \<and> header = None"
      moreover from this eq have "loop N f' [] h None n s = Some y"
        using parse_header_cut [OF assms(1,2)] assms(3) by simp
      ultimately show False using IH by blast
    qed
  qed
  then show False by simp
qed

section \<open>Whole inputs\<close>

text \<open>Inside a stream that is cut off.\<close>

lemma parse_loop_cut:
  assumes N: "nom_documented N" and "steady r" and "body_fits body" and "cut_command x part"
    and "u @ reader_bytes r = enc_body x body @ part"
  shows "verdict (Cut_commands v0 body0 part) (deliver f s body n) (parse_loop N f r u (Some v) n s)"
  using assms(2-5)
proof (induction r arbitrary: u body n s)
  case Nil
  then have u: "u = enc_body x body @ part" by simp
  obtain st n' s' where d: "deliver f s body n = (st, n', s')" by (metis prod_cases3)
  show ?case
  proof (cases "u = []")
    case True
    with u have "body = []" "part = []" by (cases body; simp)+
    with True d show ?thesis by (subst parse_loop.simps) auto
  next
    case False
    with u d parse_commands_cut [OF N Nil.prems(2,3), of f 0 n s] show ?thesis
      by (subst parse_loop.simps) (cases st; simp)
  qed
next
  case (Cons k r)
  then obtain bs where k: "k = Chunk bs" "bs \<noteq> []" by (cases k) (auto simp: chunk_bytes_def)
  then have bytes: "(u @ bs) @ reader_bytes r = enc_body x body @ part" using Cons.prems(4) by (simp add: chunk_bytes_def)
  have fits: "\<forall>c \<in> set body. command_fits c" using Cons.prems(2) by (simp add: body_fits_def)
  obtain pre post part' where split: "body = pre @ post" "u @ bs = enc_body x pre @ part'" "cut_command x part'"
    "part' @ reader_bytes r = enc_body x post @ part"
    using bytes fits
  proof (cases rule: buffer_cases)
    case (all rest)
    with Cons.prems(3) that [of body "[]" rest] show thesis using cut_command_prefix by auto
  next
    case (cut pre c post part')
    with fits have "cut_command x part'" by (auto simp: cut_command_def)
    with cut that [of pre "c # post" part'] show thesis by simp
  qed
  obtain st n' s' where d: "deliver f s pre n = (st, n', s')" by (metis prod_cases3)
  have "steady r" using Cons.prems(1) by simp
  have IH: "verdict (Cut_commands v0 body0 part) (deliver f s' post n') (parse_loop N f r part' (Some v) n' s')"
    using Cons.IH [OF \<open>steady r\<close> _ Cons.prems(3) split(4)] Cons.prems(2) split(1) by simp
  have "parse_commands N f (length bs) (u @ bs) n s =
      (if st then Some (Loop_return n' s') else Some (Loop_more part' n' s'))"
    using parse_commands_cut [OF N _ split(3), of pre f "length bs" n s] Cons.prems(2) k(2) split(1,2) d by simp
  with IH k d show ?case
    by (subst parse_loop.simps) (cases st; simp add: split(1) deliver_append)
qed

text \<open>Between streams, and inside a complete one. Each turn takes a chunk from the reader or, at its
  end, a header or all commands of a stream from the buffer.\<close>

lemma all_commands_simps [simp]:
  "all_commands [] e = ending_commands e"
  "all_commands ((v, body) # ss) e = body @ Command_End # all_commands ss e"
  by (simp_all add: all_commands_def)

lemma streams_fit_simps [simp]:
  "streams_fit []" "streams_fit ((v, body) # ss) \<longleftrightarrow> body_fits body \<and> streams_fit ss"
  by (auto simp: streams_fit_def)

text \<open>A turn at the end of the reader, or with its next chunk.\<close>

lemma steady_cases:
  assumes "steady r"
  obtains (eof) "r = []" "read_buf r = Some ([], [])"
    | (chunk) bs r' where "r = Chunk bs # r'" "bs \<noteq> []" "steady r'" "read_buf r = Some (bs, r')"
proof (cases r)
  case (Cons k r')
  with assms chunk show thesis by (cases k) (auto simp: chunk_bytes_def)
qed (use eof in simp)

lemma header_turn:
  assumes N: "nom_documented N" and r: "steady r" and bytes: "u @ reader_bytes r = stream_start v @ T"
    and again: "\<And>r' u'. length r' < length r \<Longrightarrow> steady r' \<Longrightarrow> u' @ reader_bytes r' = stream_start v @ T \<Longrightarrow>
      V (parse_loop N f r' u' None n s)"
    and inside: "\<And>r' u'. length r' \<le> length r \<Longrightarrow> steady r' \<Longrightarrow> u' @ reader_bytes r' = T \<Longrightarrow>
      V (parse_loop N f r' u' (Some v) n s)"
  shows "V (parse_loop N f r u None n s)"
  using r
proof (cases rule: steady_cases)
  case eof
  with bytes have "parse_loop N f r u None n s = parse_loop N f [] T (Some v) n s"
    by (subst parse_loop.simps) (simp add: parse_header_enc [OF N])
  with inside [of "[]" T] show ?thesis by simp
next
  case (chunk bs r')
  have ub: "(u @ bs) @ reader_bytes r' = stream_start v @ T" using bytes chunk(1) by (simp add: chunk_bytes_def)
  show ?thesis
  proof (cases "length (stream_start v) \<le> length (u @ bs)")
    case True
    from append_covers [OF ub True] obtain w where w: "u @ bs = stream_start v @ w" "w @ reader_bytes r' = T" by auto
    then have "parse_loop N f r u None n s = parse_loop N f r' w (Some v) n s"
      using chunk by (subst parse_loop.simps) (simp add: parse_header_enc [OF N])
    with inside [of r' w] chunk(1,3) w(2) show ?thesis by simp
  next
    case False
    with append_cuts [OF ub] have "cut_of (u @ bs) (stream_start v)" by (auto simp: cut_of_def)
    then have "parse_loop N f r u None n s = parse_loop N f r' (u @ bs) None n s"
      using chunk by (subst parse_loop.simps) (simp add: parse_header_cut [OF N])
    with again [of r' "u @ bs"] chunk(1,3) ub show ?thesis by simp
  qed
qed

lemma parse_loop_cut_header:
  assumes N: "nom_documented N" and "cut_of h (stream_start v)" and "h \<noteq> []" and "steady r" and "u @ reader_bytes r = h"
  shows "parse_loop N f r u None n s = None"
  using assms(4,5)
proof (induction r arbitrary: u)
  case Nil
  with parse_loop_spins [OF N assms(2,3)] show ?case by simp
next
  case (Cons k r)
  from Cons.prems(1) show ?case
  proof (cases rule: steady_cases)
    case (chunk bs r')
    with Cons.prems(2) have ub: "(u @ bs) @ reader_bytes r = h" by (simp add: chunk_bytes_def)
    then have "parse_header N (u @ bs) = IErr NomIncomplete"
      using parse_header_cut [OF N] assms(2) cut_of_prefix by blast
    with chunk Cons.IH [OF _ ub] show ?thesis by (subst parse_loop.simps) simp
  qed simp
qed

lemma commands_turn:
  assumes N: "nom_documented N" and r: "steady r" and body: "body_fits body"
    and bytes: "u @ reader_bytes r = enc_body x body @ enc_sendstream x Command_End @ T"
    and stopped: "\<And>n' s'. deliver f s (body @ [Command_End]) n = (True, n', s') \<Longrightarrow> V (Some (Returned n', s'))"
    and ended: "\<And>r' u' n' s'. deliver f s (body @ [Command_End]) n = (False, n', s') \<Longrightarrow> length r' \<le> length r \<Longrightarrow>
      steady r' \<Longrightarrow> u' @ reader_bytes r' = T \<Longrightarrow> V (parse_loop N f r' u' None n' s')"
    and again: "\<And>r' u' pre post n' s'. body = pre @ post \<Longrightarrow> deliver f s pre n = (False, n', s') \<Longrightarrow>
      length r' < length r \<Longrightarrow> steady r' \<Longrightarrow> u' @ reader_bytes r' = enc_body x post @ enc_sendstream x Command_End @ T \<Longrightarrow>
      V (parse_loop N f r' u' (Some v) n' s')"
  shows "V (parse_loop N f r u (Some v) n s)"
proof -
  have whole: "V (parse_loop N f r u (Some v) n s)"
    if "read_buf r = Some (bs, r')" "u @ bs = enc_body x body @ enc_sendstream x Command_End @ w" "w @ reader_bytes r' = T"
      "length r' \<le> length r" "steady r'" for bs r' w
  proof -
    obtain st n' s' where d: "deliver f s (body @ [Command_End]) n = (st, n', s')" by (metis prod_cases3)
    have "parse_commands N f (length bs) (u @ bs) n s =
        Some (if st then Loop_return n' s' else Loop_end w n' s')"
      using parse_commands_full [OF N body, of f "length bs" x w n s] d that(2) by (cases st) simp_all
    moreover have "bs = [] \<longrightarrow> u \<noteq> []" using that(2) by auto
    ultimately have "parse_loop N f r u (Some v) n s =
        (if st then Some (Returned n', s') else parse_loop N f r' w None n' s')"
      using that(1) by (subst parse_loop.simps) simp
    with d stopped ended that(3-5) show ?thesis by (cases st) simp_all
  qed
  show ?thesis
    using r
  proof (cases rule: steady_cases)
    case eof
    with bytes whole [of "[]" "[]" T] show ?thesis by simp
  next
    case (chunk bs r')
    let ?all = "body @ [Command_End]"
    have ub: "(u @ bs) @ reader_bytes r' = enc_body x ?all @ T" using bytes chunk(1) by (simp add: chunk_bytes_def)
    have fits: "\<forall>c \<in> set ?all. command_fits c" using body by (auto simp: body_fits_def)
    from ub fits show ?thesis
    proof (cases rule: buffer_cases)
      case (all w)
      with whole [of bs r' w] chunk show ?thesis by simp
    next
      case (cut pre c post part)
      then obtain post' where post': "c # post = post' @ [Command_End]" "body = pre @ post'"
        by (metis append_butlast_last_id butlast_append butlast_snoc last_appendR last_snoc list.discI)
      have cc: "cut_command x part" using cut(1,3) fits by (auto simp: cut_command_def)
      obtain st n' s' where d: "deliver f s pre n = (st, n', s')" by (metis prod_cases3)
      have "parse_commands N f (length bs) (u @ bs) n s =
          Some (if st then Loop_return n' s' else Loop_more part n' s')"
        using parse_commands_cut [OF N _ cc, of pre f "length bs" n s] body post'(2) d cut(2) chunk(2) by simp
      then have eq: "parse_loop N f r u (Some v) n s =
          (if st then Some (Returned n', s') else parse_loop N f r' part (Some v) n' s')"
        using chunk by (subst parse_loop.simps) simp
      show ?thesis
      proof (cases st)
        case True
        with d post'(2) have "deliver f s ?all n = (True, n', s')" by (simp add: deliver_append)
        with stopped eq True show ?thesis by simp
      next
        case False
        have "part @ reader_bytes r' = enc_body x post' @ enc_sendstream x Command_End @ T"
          using cut(4) unfolding post'(1) by simp
        with again [of pre post' n' s' r' part] d eq False post'(2) chunk(1,3) show ?thesis by simp
      qed
    qed
  qed
qed

lemma parse_loop_streams:
  assumes N: "nom_documented N" and e: "ending_ok x e"
  shows "\<lbrakk>length r + 2 * length ss < m; steady r; streams_fit ss; u @ reader_bytes r = enc_streams x ss @ enc_ending x e\<rbrakk> \<Longrightarrow>
      verdict e (deliver f s (all_commands ss e) n) (parse_loop N f r u None n s)"
    and "\<lbrakk>length r + 2 * length ss + 1 < m; steady r; streams_fit ss; body_fits body;
       u @ reader_bytes r = enc_body x body @ enc_sendstream x Command_End @ enc_streams x ss @ enc_ending x e\<rbrakk> \<Longrightarrow>
      verdict e (deliver f s (body @ Command_End # all_commands ss e) n) (parse_loop N f r u (Some v) n s)"
proof (induction m arbitrary: r ss u n s body v)
  case (Suc m)
  {
    case 1
    show ?case
    proof (cases ss)
      case (Cons p ss')
      obtain v body where p: "p = (v, body)" by (cases p)
      show ?thesis
        by (rule header_turn [OF N 1(2), of u v "enc_body x body @ enc_sendstream x Command_End @ enc_streams x ss' @ enc_ending x e"])
          (use 1 Cons p Suc.IH(1) [where ss = ss] Suc.IH(2) [where ss = ss' and v = v] in simp_all)
    next
      case Nil
      show ?thesis
      proof (cases e)
        case Complete
        with 1 Nil have "r = []" "u = []" by (cases r; simp)+
        with Complete Nil show ?thesis by (subst parse_loop.simps) simp
      next
        case (Cut_header h)
        then obtain v where "cut_of h (stream_start v)" "h \<noteq> []" using e by auto
        with 1 Nil Cut_header parse_loop_cut_header [OF N, of h v r u f n s] show ?thesis by simp
      next
        case (Cut_commands v body part)
        then have ok: "body_fits body" "cut_command x part" using e by simp_all
        show ?thesis
        proof (rule header_turn [OF N 1(2), of u v "enc_body x body @ part"])
          fix r' u' assume "steady r'" "u' @ reader_bytes r' = enc_body x body @ part"
          with parse_loop_cut [OF N _ ok, of r' u'] show "verdict e (deliver f s (all_commands ss e) n) (parse_loop N f r' u' (Some v) n s)"
            by (simp add: Nil Cut_commands)
        qed (use 1 Nil Cut_commands Suc.IH(1) [where ss = "[]"] in simp_all)
      qed
    qed
  }
  {
    case 2
    let ?D = "deliver f s (body @ Command_End # all_commands ss e) n"
    have D: "?D = (case deliver f s (body @ [Command_End]) n of
        (True, n', s') \<Rightarrow> (True, n', s') | (False, n', s') \<Rightarrow> deliver f s' (all_commands ss e) n')"
      using deliver_append [of f s "body @ [Command_End]" "all_commands ss e" n] by simp
    show ?case
    proof (rule commands_turn [OF N 2(2,4,5)])
      fix r' u' pre post n' s'
      assume "body = pre @ post" "deliver f s pre n = (False, n', s')" "length r' < length r" "steady r'"
        "u' @ reader_bytes r' = enc_body x post @ enc_sendstream x Command_End @ enc_streams x ss @ enc_ending x e"
      then show "verdict e ?D (parse_loop N f r' u' (Some v) n' s')"
        using Suc.IH(2) [where ss = ss and body = post and v = v] 2 by (simp add: deliver_append)
    qed (use D 2 Suc.IH(1) [where ss = ss] in simp_all)
  }
qed simp_all

lemma parse_delivers:
  assumes "nom_documented N" and "steady r" and "streams_fit ss" and "reader_bytes r = enc_streams x ss"
  shows "parse N f r s = (case deliver f s (all_commands ss Complete) 0 of (_, n, s') \<Rightarrow> Some (Returned n, s'))"
proof -
  obtain st n s' where d: "deliver f s (all_commands ss Complete) 0 = (st, n, s')" by (metis prod_cases3)
  have "verdict Complete (deliver f s (all_commands ss Complete) 0) (parse_loop N f r [] None 0 s)"
    by (rule parse_loop_streams(1) [OF assms(1), of x Complete r ss "length r + 2 * length ss + 1"]) (use assms in simp_all)
  with d show ?thesis by (cases st) (simp_all add: parse_def)
qed

end
