(* ===== verification/Sendstream_Writer.thy ===== *)
theory Sendstream_Writer
  imports Sendstream_Streams
begin

text \<open>
  \<open>antlir2/antlir2_packager/src/sendstream/userspace/{tlv,writer,command}.rs\<close>: the bytes of the commands that the
  packager writes when it makes a send stream without the kernel, and that these are the encodings that
  the send stream parser and the upgrade tool read. A path is its bytes; a time is its distance from the
  epoch, so that \<open>duration_since\<close> does not fail.
\<close>

section \<open>Attributes\<close>

datatype Tlv_out =
    OutUuid Uuid
  | OutCtransid u64
  | OutIno u64
  | OutSize u64
  | OutMode u64
  | OutUid u64
  | OutGid u64
  | OutRdev u64
  | OutXattrName bytes
  | OutXattrData bytes
  | OutPath bytes
  | OutPathTo bytes
  | OutPathLink bytes
  | OutFileOffset u64
  | OutData bytes
  | OutCloneUuid Uuid
  | OutCloneCtransid u64
  | OutAtime SystemTime
  | OutMtime SystemTime
  | OutCtime SystemTime

fun Tlv_ty :: "Tlv_out \<Rightarrow> u16" where
  "Tlv_ty (OutUuid _) = 1"
| "Tlv_ty (OutCtransid _) = 2"
| "Tlv_ty (OutIno _) = 3"
| "Tlv_ty (OutSize _) = 4"
| "Tlv_ty (OutMode _) = 5"
| "Tlv_ty (OutUid _) = 6"
| "Tlv_ty (OutGid _) = 7"
| "Tlv_ty (OutRdev _) = 8"
| "Tlv_ty (OutXattrName _) = 13"
| "Tlv_ty (OutXattrData _) = 14"
| "Tlv_ty (OutPath _) = 15"
| "Tlv_ty (OutPathTo _) = 16"
| "Tlv_ty (OutPathLink _) = 17"
| "Tlv_ty (OutFileOffset _) = 18"
| "Tlv_ty (OutData _) = 19"
| "Tlv_ty (OutCloneUuid _) = 20"
| "Tlv_ty (OutCloneCtransid _) = 21"
| "Tlv_ty (OutCtime _) = 9"
| "Tlv_ty (OutMtime _) = 10"
| "Tlv_ty (OutAtime _) = 11"

text \<open>The lengths of texts and data are cut to 16 bits.\<close>

fun Tlv_len :: "Tlv_out \<Rightarrow> u16" where
  "Tlv_len (OutUuid _) = 16"
| "Tlv_len (OutCloneUuid _) = 16"
| "Tlv_len (OutXattrName v) = word_of_nat (length v)"
| "Tlv_len (OutXattrData v) = word_of_nat (length v)"
| "Tlv_len (OutPath p) = word_of_nat (length p)"
| "Tlv_len (OutPathTo p) = word_of_nat (length p)"
| "Tlv_len (OutPathLink p) = word_of_nat (length p)"
| "Tlv_len (OutData v) = word_of_nat (length v)"
| "Tlv_len (OutAtime _) = 12"
| "Tlv_len (OutMtime _) = 12"
| "Tlv_len (OutCtime _) = 12"
| "Tlv_len _ = 8"

definition timespec :: "SystemTime \<Rightarrow> bytes" where
  "timespec t = (case t of SystemTime s n \<Rightarrow> le64 (word_of_nat s) @ le32 (word_of_nat n))"

fun Tlv_data :: "Tlv_out \<Rightarrow> bytes" where
  "Tlv_data (OutUuid u) = (case u of Uuid v \<Rightarrow> to_le 16 v)"
| "Tlv_data (OutCloneUuid u) = (case u of Uuid v \<Rightarrow> to_le 16 v)"
| "Tlv_data (OutCtransid v) = le64 v"
| "Tlv_data (OutIno v) = le64 v"
| "Tlv_data (OutSize v) = le64 v"
| "Tlv_data (OutMode v) = le64 v"
| "Tlv_data (OutUid v) = le64 v"
| "Tlv_data (OutGid v) = le64 v"
| "Tlv_data (OutRdev v) = le64 v"
| "Tlv_data (OutFileOffset v) = le64 v"
| "Tlv_data (OutCloneCtransid v) = le64 v"
| "Tlv_data (OutXattrName v) = v"
| "Tlv_data (OutXattrData v) = v"
| "Tlv_data (OutPath p) = p"
| "Tlv_data (OutPathTo p) = p"
| "Tlv_data (OutPathLink p) = p"
| "Tlv_data (OutData v) = v"
| "Tlv_data (OutAtime t) = timespec t"
| "Tlv_data (OutMtime t) = timespec t"
| "Tlv_data (OutCtime t) = timespec t"

section \<open>The builder\<close>

definition HEADER_LEN :: u32 where
  "HEADER_LEN = 10"

record CommandBuilder =
  cb_buf :: bytes

definition CommandBuilder_new :: "u16 \<Rightarrow> CommandBuilder" where
  "CommandBuilder_new cmd = \<lparr>cb_buf = le32 0 @ le16 cmd @ le32 0\<rparr>"

definition CommandBuilder_finish :: "externs \<Rightarrow> CommandBuilder \<Rightarrow> bytes" where
  "CommandBuilder_finish x b =
     (let buf = cb_buf b;
          len = word_of_nat (length buf) - HEADER_LEN;
          buf = splice buf 0 (le32 len);
          crc = NOT (crc32c_hw_update x (NOT 0) buf)
      in splice buf 6 (le32 crc))"

definition CommandBuilder_tlv :: "Tlv_out \<Rightarrow> CommandBuilder \<Rightarrow> CommandBuilder" where
  "CommandBuilder_tlv tlv b = b\<lparr>cb_buf := cb_buf b @ le16 (Tlv_ty tlv) @ le16 (Tlv_len tlv) @ Tlv_data tlv\<rparr>"

section \<open>Commands\<close>

text \<open>The calls of the functions of \<open>command.rs\<close>, one constructor for each, and the bytes that they return.\<close>

datatype packed =
    Pack_end
  | Pack_subvol bytes Uuid u64
  | Pack_snapshot bytes Uuid u64 Uuid u64
  | Pack_chown bytes u64 u64
  | Pack_chmod bytes u64
  | Pack_mkfile bytes u64
  | Pack_mkdir bytes u64
  | Pack_symlink bytes bytes u64
  | Pack_write bytes u64 bytes
  | Pack_hardlink bytes bytes
  | Pack_unlink bytes
  | Pack_rmdir bytes
  | Pack_mknod bytes u64 u64
  | Pack_mkfifo bytes u64
  | Pack_mksock bytes u64
  | Pack_set_xattr bytes bytes bytes
  | Pack_utimes bytes SystemTime SystemTime SystemTime
  | Pack_rm_xattr bytes bytes
  | Pack_truncate bytes u64
  | Pack_rename bytes bytes

definition build_command :: "externs \<Rightarrow> u16 \<Rightarrow> Tlv_out list \<Rightarrow> bytes" where
  "build_command x cmd tlvs = CommandBuilder_finish x (fold CommandBuilder_tlv tlvs (CommandBuilder_new cmd))"

fun pack :: "externs \<Rightarrow> packed \<Rightarrow> bytes" where
  "pack x Pack_end = build_command x 21 []"
| "pack x (Pack_subvol path uuid ctransid) = build_command x 1 [OutPath path, OutUuid uuid, OutCtransid ctransid]"
| "pack x (Pack_snapshot path uuid ctransid uuid2 ctransid2) =
     build_command x 2 [OutPath path, OutUuid uuid, OutCtransid ctransid, OutCloneUuid uuid2,
       OutCloneCtransid ctransid2]"
| "pack x (Pack_chown path uid gid) = build_command x 19 [OutPath path, OutUid uid, OutGid gid]"
| "pack x (Pack_chmod path mode) = build_command x 18 [OutPath path, OutMode mode]"
| "pack x (Pack_mkfile path ino) = build_command x 3 [OutPath path, OutIno ino]"
| "pack x (Pack_mkdir path ino) = build_command x 4 [OutPath path, OutIno ino]"
| "pack x (Pack_symlink original link ino) = build_command x 8 [OutPath link, OutIno ino, OutPathLink original]"
| "pack x (Pack_write path offset data) = build_command x 15 [OutPath path, OutFileOffset offset, OutData data]"
| "pack x (Pack_hardlink original link) = build_command x 10 [OutPath link, OutPathLink original]"
| "pack x (Pack_unlink path) = build_command x 11 [OutPath path]"
| "pack x (Pack_rmdir path) = build_command x 12 [OutPath path]"
| "pack x (Pack_mknod path mode rdev) = build_command x 5 [OutPath path, OutMode mode, OutRdev rdev]"
| "pack x (Pack_mkfifo path ino) = build_command x 6 [OutPath path, OutIno ino]"
| "pack x (Pack_mksock path ino) = build_command x 7 [OutPath path, OutIno ino]"
| "pack x (Pack_set_xattr path name data) = build_command x 13 [OutPath path, OutXattrName name, OutXattrData data]"
| "pack x (Pack_utimes path atime mtime ctime) =
     build_command x 20 [OutPath path, OutAtime atime, OutMtime mtime, OutCtime ctime]"
| "pack x (Pack_rm_xattr path name) = build_command x 14 [OutPath path, OutXattrName name]"
| "pack x (Pack_truncate path size') = build_command x 17 [OutPath path, OutSize size']"
| "pack x (Pack_rename from to) = build_command x 9 [OutPath from, OutPathTo to]"

section \<open>The encoded commands\<close>

text \<open>The command of the send stream parser that a call stands for. Owners and modes are 32-bit numbers there. The
  three calls for special files leave out attributes that the parser wants.\<close>

fun packed_command :: "packed \<Rightarrow> Command option" where
  "packed_command Pack_end = Some Command_End"
| "packed_command (Pack_subvol path uuid ctransid) =
     Some (Command_Subvol \<lparr>subvol_path = path, subvol_uuid = uuid, subvol_ctransid = Ctransid ctransid\<rparr>)"
| "packed_command (Pack_snapshot path uuid ctransid uuid2 ctransid2) =
     Some (Command_Snapshot \<lparr>snapshot_path = path, snapshot_uuid = uuid, snapshot_ctransid = Ctransid ctransid,
       snapshot_clone_uuid = uuid2, snapshot_clone_ctransid = Ctransid ctransid2\<rparr>)"
| "packed_command (Pack_chown path uid gid) =
     Some (Command_Chown \<lparr>chown_path = path, chown_uid = Uid (ucast uid), chown_gid = Gid (ucast gid)\<rparr>)"
| "packed_command (Pack_chmod path mode) = Some (Command_Chmod \<lparr>chmod_path = path, chmod_mode = Mode (ucast mode)\<rparr>)"
| "packed_command (Pack_mkfile path ino) = Some (Command_Mkfile \<lparr>mkfile_path = TemporaryPath path, mkfile_ino = Ino ino\<rparr>)"
| "packed_command (Pack_mkdir path ino) = Some (Command_Mkdir \<lparr>mkdir_path = TemporaryPath path, mkdir_ino = Ino ino\<rparr>)"
| "packed_command (Pack_symlink original link ino) =
     Some (Command_Symlink \<lparr>symlink_link_name = link, symlink_ino = Ino ino, symlink_target = LinkTarget original\<rparr>)"
| "packed_command (Pack_write path offset data) =
     Some (Command_Write \<lparr>write_path = path, write_offset_field = FileOffset offset, write_data_field = Data data\<rparr>)"
| "packed_command (Pack_hardlink original link) =
     Some (Command_Link \<lparr>link_link_name = link, link_target = LinkTarget original\<rparr>)"
| "packed_command (Pack_unlink path) = Some (Command_Unlink \<lparr>unlink_path = path\<rparr>)"
| "packed_command (Pack_rmdir path) = Some (Command_Rmdir \<lparr>rmdir_path = path\<rparr>)"
| "packed_command (Pack_mknod path mode rdev) = None"
| "packed_command (Pack_mkfifo path ino) = None"
| "packed_command (Pack_mksock path ino) = None"
| "packed_command (Pack_set_xattr path name data) =
     Some (Command_SetXattr \<lparr>set_xattr_path = path, set_xattr_name = XattrName name, set_xattr_data = XattrData data\<rparr>)"
| "packed_command (Pack_utimes path atime mtime ctime) =
     Some (Command_Utimes \<lparr>utimes_path = path, utimes_atime = Atime atime, utimes_mtime = Mtime mtime, utimes_ctime = Ctime ctime\<rparr>)"
| "packed_command (Pack_rm_xattr path name) =
     Some (Command_RemoveXattr \<lparr>remove_xattr_path = path, remove_xattr_name = XattrName name\<rparr>)"
| "packed_command (Pack_truncate path size') = Some (Command_Truncate \<lparr>truncate_path = path, truncate_size = size'\<rparr>)"
| "packed_command (Pack_rename from to) = Some (Command_Rename \<lparr>rename_from = from, rename_to = to\<rparr>)"

text \<open>The numbers of a call that the command has at a smaller width.\<close>

fun packed_fits :: "packed \<Rightarrow> bool" where
  "packed_fits (Pack_chown path uid gid) \<longleftrightarrow> unat uid < 2 ^ 32 \<and> unat gid < 2 ^ 32"
| "packed_fits (Pack_chmod path mode) \<longleftrightarrow> unat mode < 2 ^ 32"
| "packed_fits _ \<longleftrightarrow> True"

lemma build_command_acmd:
  assumes "t = command_type_to_u16 (ac_type a)"
    and "concat (map (\<lambda>tlv. le16 (Tlv_ty tlv) @ le16 (Tlv_len tlv) @ Tlv_data tlv) tlvs) = enc_payload SendVersion1 a"
  shows "build_command x t tlvs = enc_command x SendVersion1 a"
proof -
  let ?P = "enc_payload SendVersion1 a"
  let ?n = "word_of_nat (length ?P) :: u32"
  have "cb_buf (fold CommandBuilder_tlv tlvs b) =
      cb_buf b @ concat (map (\<lambda>tlv. le16 (Tlv_ty tlv) @ le16 (Tlv_len tlv) @ Tlv_data tlv) tlvs)" for b
    by (induction tlvs arbitrary: b) (simp_all add: CommandBuilder_tlv_def)
  then have buf: "cb_buf (fold CommandBuilder_tlv tlvs (CommandBuilder_new t)) = le32 0 @ le16 t @ le32 0 @ ?P"
    by (simp add: CommandBuilder_new_def assms(2))
  have len: "word_of_nat (length (le32 0 @ le16 t @ le32 0 @ ?P)) - HEADER_LEN = ?n"
    by (simp add: HEADER_LEN_def)
  have "splice (le32 0 @ le16 t @ le32 0 @ ?P) 0 (le32 ?n) = le32 ?n @ le16 t @ le32 0 @ ?P"
    using splice_append [of "[]" 0 "le32 ?n" "le32 0" "le16 t @ le32 0 @ ?P"] by simp
  moreover have "splice (le32 ?n @ le16 t @ le32 0 @ ?P) 6 (le32 c) = le32 ?n @ le16 t @ le32 c @ ?P" for c
    using splice_append [of "le32 ?n @ le16 t" 6 "le32 c" "le32 0" ?P] by simp
  ultimately show ?thesis
    unfolding build_command_def CommandBuilder_finish_def Let_def buf len
    by (simp add: enc_command_def enc_with_crc_def acmd_crc_def compute_crc32c_def enc_header_def assms(1))
qed

lemma ucast_down_up: "unat (w :: u64) < 2 ^ 32 \<Longrightarrow> ucast (ucast w :: u32) = w"
  by (rule word_unat_eq_iff [THEN iffD2]) (simp add: unsigned_ucast_eq unsigned_take_bit_eq take_bit_nat_eq_self)

lemma value_data:
  "uuid_bytes u = (case u of Uuid v \<Rightarrow> to_le 16 v)" "enc_time t = timespec t" "length (case u of Uuid v \<Rightarrow> to_le 16 v) = 16"
  "length (timespec t) = 12"
  by (cases u; cases t; simp add: timespec_def)+

lemma pack_command:
  assumes "packed_command p = Some c" and "packed_fits p"
  shows "pack x p = enc_sendstream x c"
  using assms
  by (cases p) (auto intro!: build_command_acmd simp: to_acmd.simps meta_def enc_payload_def all_attrs_def enc_attr_def
      enc_attr_header_def sizeless_def value_data ucast_down_up)

end
