(* ===== verification/Sendstream_Packager.thy ===== *)
theory Sendstream_Packager
  imports Sendstream_Writer
begin

text \<open>
  \<open>antlir2/antlir2_packager/src/sendstream/userspace/mod.rs\<close>: the packager that walks a layer and writes it as a
  version 1 send stream, in full or as the difference to a parent.

  A layer is the list of its entries in the order of the walk. What the operating system says of an entry is in its record:
  its metadata, its extended attributes in the order in which the hash map of the source gives them, and, if the path can be opened as a
  file, what the reads return until the end of the file. The random names that \<open>Uuid::new_v4\<close> gives are a parameter, and so is the hash
  of blake3. Failing system calls are modelled where the state of the layer decides: opening a path and reading a link. The
  output is the bytes that are written into the pipe of the upgrade tool.
\<close>

section \<open>Layers\<close>

datatype entry_type = EntDir | EntSymlink bytes | EntFile | EntBlock | EntChar | EntFifo | EntSocket

record entry =
  en_relpath :: bytes
  en_ino :: u64
  en_type :: entry_type
  en_mode :: u32
  en_uid :: u32
  en_gid :: u32
  en_rdev :: u64
  en_len :: u64
  en_xattrs :: "(bytes \<times> bytes) list"
  en_atime :: SystemTime
  en_mtime :: SystemTime
  en_ctime :: SystemTime
  en_open :: "bytes list option"

definition is_symlink_type :: "entry_type \<Rightarrow> bool" where
  "is_symlink_type t = (case t of EntSymlink _ \<Rightarrow> True | _ \<Rightarrow> False)"

definition en_read_link :: "entry \<Rightarrow> bytes option" where
  "en_read_link e = (case en_type e of EntSymlink target \<Rightarrow> Some target | _ \<Rightarrow> None)"

text \<open>\<open>symlink_metadata\<close> of a path in the parent.\<close>

datatype parent_stat = StatOk entry | StatNotFound | StatError

record parent_layer =
  pl_stat :: "bytes \<Rightarrow> parent_stat"
  pl_contents_first :: "entry list"

record subvol_info =
  si_uuid :: Uuid
  si_received_uuid :: "Uuid option"
  si_ctransid :: u64

datatype package_error = PackIO | PackFileType

definition pbind :: "package_error + 'a \<Rightarrow> ('a \<Rightarrow> package_error + 'b) \<Rightarrow> package_error + 'b" where
  "pbind r f = (case r of Inl e \<Rightarrow> Inl e | Inr x \<Rightarrow> f x)"

definition io :: "'a option \<Rightarrow> package_error + 'a" where
  "io r = (case r of Some x \<Rightarrow> Inr x | None \<Rightarrow> Inl PackIO)"

section \<open>An entry in full\<close>

text \<open>\<open>Mode::from_bits_truncate\<close> keeps the twelve permission bits.\<close>

definition mode_bits_truncate :: "u32 \<Rightarrow> u32" where
  "mode_bits_truncate m = m AND 0xFFF"

fun write_contents :: "bytes \<Rightarrow> u64 \<Rightarrow> bytes list \<Rightarrow> packed list" where
  "write_contents relpath offset [] = []"
| "write_contents relpath offset (buf # reads) =
     (if buf = [] then []
      else Pack_write relpath offset buf # write_contents relpath (offset + word_of_nat (length buf)) reads)"

definition create_entry :: "bytes \<Rightarrow> entry \<Rightarrow> package_error + packed list" where
  "create_entry tmp e =
     (if en_type e = EntDir then Inr [Pack_mkdir (en_relpath e) (en_ino e)]
      else if is_symlink_type (en_type e)
      then pbind (io (en_read_link e)) (\<lambda>target.
           Inr [Pack_symlink target tmp (en_ino e), Pack_rename tmp (en_relpath e)])
      else if en_type e = EntFile
      then if en_type e = EntBlock \<or> en_type e = EntChar then Inr [Pack_mknod (en_relpath e) (ucast (en_mode e)) (en_rdev e)]
           else if en_type e = EntFifo then Inr [Pack_mkfifo (en_relpath e) (en_ino e)]
           else if en_type e = EntSocket then Inr [Pack_mksock (en_relpath e) (en_ino e)]
           else pbind (io (en_open e)) (\<lambda>reads.
                Inr (Pack_mkfile (en_relpath e) (en_ino e) # write_contents (en_relpath e) 0 reads))
      else Inl PackFileType)"

definition entry_metadata :: "entry \<Rightarrow> packed list" where
  "entry_metadata e =
     [Pack_chown (en_relpath e) (ucast (en_uid e)) (ucast (en_gid e))] @
     (if is_symlink_type (en_type e) then []
      else [Pack_chmod (en_relpath e) (ucast (mode_bits_truncate (en_mode e)))]) @
     map (\<lambda>(name, val). Pack_set_xattr (en_relpath e) name val) (en_xattrs e) @
     [Pack_utimes (en_relpath e) (en_atime e) (en_mtime e) (en_ctime e)]"

definition package_full :: "bytes \<Rightarrow> entry \<Rightarrow> package_error + packed list" where
  "package_full tmp e =
     pbind (if en_relpath e \<noteq> [] then create_entry tmp e else Inr []) (\<lambda>create. Inr (create @ entry_metadata e))"

section \<open>An entry that the parent has\<close>

definition removed_xattrs :: "entry \<Rightarrow> entry \<Rightarrow> packed list" where
  "removed_xattrs e parent =
     map (\<lambda>(name, val). Pack_rm_xattr (en_relpath e) name)
       (filter (\<lambda>(name, val). name \<notin> fst ` set (en_xattrs e)) (en_xattrs parent))"

definition package_known_dir :: "entry \<Rightarrow> entry \<Rightarrow> packed list" where
  "package_known_dir e parent =
     (if en_uid e \<noteq> en_uid parent \<or> en_gid e \<noteq> en_gid parent
      then [Pack_chown (en_relpath e) (ucast (en_uid e)) (ucast (en_gid e))] else []) @
     (if en_mode e \<noteq> en_mode parent then [Pack_chmod (en_relpath e) (ucast (en_mode e))] else []) @
     map (\<lambda>(name, val). Pack_set_xattr (en_relpath e) name val)
       (filter (\<lambda>(name, val). case map_of (en_xattrs parent) name of Some parent_val \<Rightarrow> val \<noteq> parent_val | None \<Rightarrow> False)
         (en_xattrs e)) @
     removed_xattrs e parent"

definition contents_changed :: "(bytes \<Rightarrow> bytes) \<Rightarrow> entry \<Rightarrow> entry \<Rightarrow> package_error + bool" where
  "contents_changed blake3 e parent =
     (if en_len parent \<noteq> en_len e then Inr True
      else pbind (io (en_open parent)) (\<lambda>parent_reads.
           pbind (io (en_open e)) (\<lambda>reads.
           Inr (blake3 (concat parent_reads) \<noteq> blake3 (concat reads)))))"

definition package_known_contents :: "(bytes \<Rightarrow> bytes) \<Rightarrow> entry \<Rightarrow> entry \<Rightarrow> package_error + packed list" where
  "package_known_contents blake3 e parent =
     (if en_type e = EntFile
      then pbind (contents_changed blake3 e parent) (\<lambda>changed.
           if changed
           then pbind (io (en_open e)) (\<lambda>reads.
                Inr (Pack_truncate (en_relpath e) (en_len e) # write_contents (en_relpath e) 0 reads))
           else Inr [])
      else Inr [])"

definition package_known_link :: "entry \<Rightarrow> entry \<Rightarrow> package_error + packed list" where
  "package_known_link e parent =
     (if is_symlink_type (en_type e)
      then pbind (io (en_read_link parent)) (\<lambda>original_target.
           pbind (io (en_read_link e)) (\<lambda>new_target.
           if new_target \<noteq> original_target
           then Inr [Pack_unlink (en_relpath e), Pack_symlink new_target (en_relpath e) (en_ino e),
                  Pack_chown (en_relpath e) (ucast (en_uid e)) (ucast (en_gid e))]
           else Inr []))
      else Inr [])"

definition package_known_metadata :: "entry \<Rightarrow> entry \<Rightarrow> packed list" where
  "package_known_metadata e parent =
     (if en_uid parent \<noteq> en_uid e \<or> en_gid parent \<noteq> en_gid e
      then [Pack_chown (en_relpath e) (ucast (en_uid e)) (ucast (en_gid e))] else []) @
     (if \<not> is_symlink_type (en_type e) \<and> en_mode parent \<noteq> en_mode e
      then [Pack_chmod (en_relpath e) (ucast (mode_bits_truncate (en_mode e)))] else []) @
     map (\<lambda>(name, val). Pack_set_xattr (en_relpath e) name val)
       (filter (\<lambda>(name, val). map_of (en_xattrs parent) name \<noteq> Some val) (en_xattrs e)) @
     removed_xattrs e parent"

definition package_known :: "(bytes \<Rightarrow> bytes) \<Rightarrow> entry \<Rightarrow> entry \<Rightarrow> package_error + packed list" where
  "package_known blake3 e parent =
     (if en_type e = EntDir then Inr (package_known_dir e parent)
      else pbind (package_known_contents blake3 e parent) (\<lambda>contents.
           pbind (package_known_link e parent) (\<lambda>link.
           Inr (contents @ link @ package_known_metadata e parent))))"

section \<open>The walk\<close>

text \<open>A further name of an inode that has been sent.\<close>

definition package_hardlink :: "parent_layer option \<Rightarrow> bytes \<Rightarrow> bytes \<Rightarrow> entry \<Rightarrow> package_error + packed list" where
  "package_hardlink parent tmp original e =
     (let link = [Pack_hardlink original tmp, Pack_rename tmp (en_relpath e)]
      in case parent of
           None \<Rightarrow> Inr link
         | Some pl \<Rightarrow>
             (case pl_stat pl (en_relpath e) of
                StatOk pe \<Rightarrow> if en_ino pe = en_ino e then Inr [] else Inr link
              | StatNotFound \<Rightarrow> Inr link
              | StatError \<Rightarrow> Inl PackIO))"

definition package_first :: "(bytes \<Rightarrow> bytes) \<Rightarrow> parent_layer option \<Rightarrow> bytes \<Rightarrow> entry \<Rightarrow> package_error + packed list" where
  "package_first blake3 parent tmp e =
     (case parent of
        None \<Rightarrow> package_full tmp e
      | Some pl \<Rightarrow>
          (case pl_stat pl (en_relpath e) of
             StatOk pe \<Rightarrow> package_known blake3 e pe
           | StatNotFound \<Rightarrow> package_full tmp e
           | StatError \<Rightarrow> Inl PackIO))"

text \<open>\<open>inodes\<close> has the first path of every inode that has been seen, and \<open>i\<close> is the number of the entry, which selects a fresh name.\<close>

fun package_walk ::
  "(bytes \<Rightarrow> bytes) \<Rightarrow> (nat \<Rightarrow> bytes) \<Rightarrow> parent_layer option \<Rightarrow> (u64 \<rightharpoonup> bytes) \<Rightarrow> nat \<Rightarrow> entry list \<Rightarrow> package_error + packed list"
where
  "package_walk blake3 new_v4 parent inodes i [] = Inr []"
| "package_walk blake3 new_v4 parent inodes i (e # es) =
     (case inodes (en_ino e) of
        Some original \<Rightarrow>
          pbind (package_hardlink parent (new_v4 i) original e) (\<lambda>calls.
          pbind (package_walk blake3 new_v4 parent inodes (Suc i) es) (\<lambda>rest. Inr (calls @ rest)))
      | None \<Rightarrow>
          pbind (package_first blake3 parent (new_v4 i) e) (\<lambda>calls.
          pbind (package_walk blake3 new_v4 parent (inodes(en_ino e \<mapsto> en_relpath e)) (Suc i) es) (\<lambda>rest. Inr (calls @ rest))))"

definition package_removals :: "parent_layer option \<Rightarrow> entry list \<Rightarrow> packed list" where
  "package_removals parent layer =
     (case parent of
        None \<Rightarrow> []
      | Some pl \<Rightarrow>
          map (\<lambda>e. if en_type e = EntDir then Pack_rmdir (en_relpath e) else Pack_unlink (en_relpath e))
            (filter (\<lambda>e. en_relpath e \<notin> en_relpath ` set layer) (pl_contents_first pl)))"

definition package_start :: "bytes \<Rightarrow> subvol_info \<Rightarrow> subvol_info option \<Rightarrow> packed" where
  "package_start volume_name info parent_info =
     (case parent_info of
        Some pi \<Rightarrow>
          Pack_snapshot volume_name (si_uuid info) (si_ctransid info)
            (case si_received_uuid pi of Some u \<Rightarrow> u | None \<Rightarrow> si_uuid pi) (si_ctransid pi)
      | None \<Rightarrow>
          Pack_subvol volume_name (case si_received_uuid info of Some u \<Rightarrow> u | None \<Rightarrow> si_uuid info) (si_ctransid info))"

definition package_calls ::
  "(bytes \<Rightarrow> bytes) \<Rightarrow> (nat \<Rightarrow> bytes) \<Rightarrow> bytes \<Rightarrow> subvol_info \<Rightarrow> (subvol_info \<times> parent_layer) option \<Rightarrow> entry list \<Rightarrow> package_error + packed list"
where
  "package_calls blake3 new_v4 volume_name info parent layer =
     pbind (package_walk blake3 new_v4 (map_option snd parent) Map.empty 0 layer) (\<lambda>calls.
     Inr (package_start volume_name info (map_option fst parent) # calls @ package_removals (map_option snd parent) layer @ [Pack_end]))"

definition package_build ::
  "externs \<Rightarrow> (bytes \<Rightarrow> bytes) \<Rightarrow> (nat \<Rightarrow> bytes) \<Rightarrow> bytes \<Rightarrow> subvol_info \<Rightarrow> (subvol_info \<times> parent_layer) option \<Rightarrow> entry list \<Rightarrow>
   package_error + bytes"
where
  "package_build x blake3 new_v4 volume_name info parent layer =
     pbind (package_calls blake3 new_v4 volume_name info parent layer) (\<lambda>calls.
     Inr ([0x62, 0x74, 0x72, 0x66, 0x73, 0x2D, 0x73, 0x74, 0x72, 0x65, 0x61, 0x6D, 0] @ le32 1 @ concat (map (pack x) calls)))"

end
