(* ===== verification/Sendstream_Receive.thy ===== *)
theory Sendstream_Receive
  imports Sendstream_Packager
begin

text \<open>
  What receiving a send stream makes of it: a file system of names and inodes on which every command has the effect of the system call
  that its name stands for. With it the packager is specified: the stream of a layer, received into an empty
  subvolume, gives the layer back.
\<close>

section \<open>File systems\<close>

datatype contents = InDir | InFile bytes | InLink bytes

text \<open>The times are \<open>None\<close> when they are those of the last operation on the receiving side and not of the layer.\<close>

record inode =
  in_contents :: contents
  in_mode :: u32
  in_uid :: u32
  in_gid :: u32
  in_xattrs :: "bytes \<rightharpoonup> bytes"
  in_times :: "(SystemTime \<times> SystemTime) option"

record filesystem =
  fs_names :: "bytes \<rightharpoonup> nat"
  fs_inode :: "nat \<Rightarrow> inode"
  fs_next :: nat

definition new_inode :: "contents \<Rightarrow> u32 \<Rightarrow> inode" where
  "new_inode c m = \<lparr>in_contents = c, in_mode = m, in_uid = 0, in_gid = 0, in_xattrs = Map.empty, in_times = None\<rparr>"

text \<open>The directory of a path: the bytes before the last slash.\<close>

definition dirname :: "bytes \<Rightarrow> bytes" where
  "dirname p = rev (drop 1 (dropWhile (\<lambda>b. b \<noteq> 0x2F) (rev p)))"

definition is_dir_at :: "filesystem \<Rightarrow> bytes \<Rightarrow> bool" where
  "is_dir_at fs p = (case fs_names fs p of Some n \<Rightarrow> in_contents (fs_inode fs n) = InDir | None \<Rightarrow> False)"

definition update_inode :: "filesystem \<Rightarrow> nat \<Rightarrow> (inode \<Rightarrow> inode) \<Rightarrow> filesystem" where
  "update_inode fs n f = fs\<lparr>fs_inode := (fs_inode fs)(n := f (fs_inode fs n))\<rparr>"

definition touch :: "filesystem \<Rightarrow> bytes \<Rightarrow> filesystem" where
  "touch fs p = (case fs_names fs p of Some n \<Rightarrow> update_inode fs n (in_times_update (\<lambda>_. None)) | None \<Rightarrow> fs)"

definition at_path :: "filesystem \<Rightarrow> bytes \<Rightarrow> (inode \<Rightarrow> inode option) \<Rightarrow> filesystem option" where
  "at_path fs p f =
     (case fs_names fs p of
        None \<Rightarrow> None
      | Some n \<Rightarrow> (case f (fs_inode fs n) of None \<Rightarrow> None | Some i \<Rightarrow> Some (update_inode fs n (\<lambda>_. i))))"

text \<open>A new name in an existing directory.\<close>

definition enter :: "filesystem \<Rightarrow> bytes \<Rightarrow> nat \<Rightarrow> filesystem option" where
  "enter fs p n =
     (if fs_names fs p = None \<and> is_dir_at fs (dirname p)
      then Some ((touch fs (dirname p))\<lparr>fs_names := (fs_names fs)(p \<mapsto> n)\<rparr>) else None)"

definition create :: "filesystem \<Rightarrow> bytes \<Rightarrow> inode \<Rightarrow> filesystem option" where
  "create fs p i =
     map_option (\<lambda>fs'. fs'\<lparr>fs_inode := (fs_inode fs')(fs_next fs := i), fs_next := Suc (fs_next fs)\<rparr>) (enter fs p (fs_next fs))"

definition remove_name :: "filesystem \<Rightarrow> bytes \<Rightarrow> filesystem" where
  "remove_name fs p = (touch fs (dirname p))\<lparr>fs_names := (fs_names fs)(p := None)\<rparr>"

definition write_at :: "nat \<Rightarrow> bytes \<Rightarrow> bytes \<Rightarrow> bytes" where
  "write_at off d c = take off (c @ replicate (off - length c) 0) @ d @ drop (off + length d) c"

definition truncate_to :: "nat \<Rightarrow> bytes \<Rightarrow> bytes" where
  "truncate_to n c = take n (c @ replicate (n - length c) 0)"

section \<open>Commands\<close>

definition on_file :: "(bytes \<Rightarrow> bytes) \<Rightarrow> inode \<Rightarrow> inode option" where
  "on_file f i = (case in_contents i of InFile c \<Rightarrow> Some (i\<lparr>in_contents := InFile (f c), in_times := None\<rparr>) | _ \<Rightarrow> None)"

text \<open>A rename moves a name that is not a directory to a new one. Commands that the packager does not write are not given a meaning.\<close>

fun receive_command :: "filesystem \<Rightarrow> Command \<Rightarrow> filesystem option" where
  "receive_command fs (Command_Mkfile c) =
     (case mkfile_path c of TemporaryPath p \<Rightarrow> create fs p (new_inode (InFile []) 0x180))"
| "receive_command fs (Command_Mkdir c) = (case mkdir_path c of TemporaryPath p \<Rightarrow> create fs p (new_inode InDir 0x1C0))"
| "receive_command fs (Command_Symlink c) =
     (case symlink_target c of LinkTarget t \<Rightarrow> create fs (symlink_link_name c) (new_inode (InLink t) 0x1FF))"
| "receive_command fs (Command_Link c) =
     (case link_target c of LinkTarget t \<Rightarrow>
        (case fs_names fs t of None \<Rightarrow> None | Some n \<Rightarrow> if is_dir_at fs t then None else enter fs (link_link_name c) n))"
| "receive_command fs (Command_Rename c) =
     (case fs_names fs (rename_from c) of
        None \<Rightarrow> None
      | Some n \<Rightarrow> if is_dir_at fs (rename_from c) then None else enter (remove_name fs (rename_from c)) (rename_to c) n)"
| "receive_command fs (Command_Unlink c) =
     (if fs_names fs (unlink_path c) = None \<or> is_dir_at fs (unlink_path c) then None else Some (remove_name fs (unlink_path c)))"
| "receive_command fs (Command_Rmdir c) =
     (if is_dir_at fs (rmdir_path c) \<and> (\<forall>p. p \<noteq> [] \<and> dirname p = rmdir_path c \<longrightarrow> fs_names fs p = None)
      then Some (remove_name fs (rmdir_path c)) else None)"
| "receive_command fs (Command_Write c) =
     (case (write_offset_field c, write_data_field c) of (FileOffset off, Data d) \<Rightarrow>
        at_path fs (write_path c) (on_file (write_at (unat off) d)))"
| "receive_command fs (Command_Truncate c) = at_path fs (truncate_path c) (on_file (truncate_to (unat (truncate_size c))))"
| "receive_command fs (Command_Chmod c) =
     (case chmod_mode c of Mode m \<Rightarrow> at_path fs (chmod_path c) (\<lambda>i. Some (i\<lparr>in_mode := m\<rparr>)))"
| "receive_command fs (Command_Chown c) =
     (case (chown_uid c, chown_gid c) of (Uid u, Gid g) \<Rightarrow> at_path fs (chown_path c) (\<lambda>i. Some (i\<lparr>in_uid := u, in_gid := g\<rparr>)))"
| "receive_command fs (Command_SetXattr c) =
     (case (set_xattr_name c, set_xattr_data c) of (XattrName n, XattrData d) \<Rightarrow>
        at_path fs (set_xattr_path c) (\<lambda>i. Some (i\<lparr>in_xattrs := (in_xattrs i)(n \<mapsto> d)\<rparr>)))"
| "receive_command fs (Command_RemoveXattr c) =
     (case remove_xattr_name c of XattrName n \<Rightarrow>
        at_path fs (remove_xattr_path c) (\<lambda>i. if in_xattrs i n = None then None else Some (i\<lparr>in_xattrs := (in_xattrs i)(n := None)\<rparr>)))"
| "receive_command fs (Command_Utimes c) =
     (case (utimes_atime c, utimes_mtime c) of (Atime a, Mtime m) \<Rightarrow>
        at_path fs (utimes_path c) (\<lambda>i. Some (i\<lparr>in_times := Some (a, m)\<rparr>)))"
| "receive_command fs _ = None"

fun receive :: "filesystem \<Rightarrow> Command list \<Rightarrow> filesystem option" where
  "receive fs [] = Some fs"
| "receive fs (c # cs) = Option.bind (receive_command fs c) (\<lambda>fs. receive fs cs)"

text \<open>A subvolume after its first command: only the root directory.\<close>

definition empty_subvol :: filesystem where
  "empty_subvol = \<lparr>fs_names = [[] \<mapsto> 0], fs_inode = (\<lambda>_. new_inode InDir 0x1ED), fs_next = 1\<rparr>"

section \<open>Runs of calls\<close>

definition receive_call :: "filesystem \<Rightarrow> packed \<Rightarrow> filesystem option" where
  "receive_call fs p = Option.bind (packed_command p) (receive_command fs)"

fun receive_calls :: "filesystem \<Rightarrow> packed list \<Rightarrow> filesystem option" where
  "receive_calls fs [] = Some fs"
| "receive_calls fs (p # ps) = Option.bind (receive_call fs p) (\<lambda>fs. receive_calls fs ps)"

lemma receive_calls_append [simp]:
  "receive_calls fs (ps @ qs) = Option.bind (receive_calls fs ps) (\<lambda>fs. receive_calls fs qs)"
  by (induction ps arbitrary: fs) (simp_all add: bind_assoc)

lemma receive_calls_commands:
  assumes "receive_calls fs ps = Some fs'"
  shows "\<exists>cs. map packed_command ps = map Some cs \<and> receive fs cs = Some fs'"
  using assms
proof (induction ps arbitrary: fs)
  case (Cons p ps)
  then obtain c fs1 cs where "packed_command p = Some c" "receive_command fs c = Some fs1"
    "map packed_command ps = map Some cs" "receive fs1 cs = Some fs'"
    by (fastforce simp: receive_call_def bind_eq_Some_conv)
  then show ?case
    by (intro exI [of _ "c # cs"]) simp
qed simp


section \<open>Single inodes\<close>

lemma update_inode_simps [simp]:
  "fs_names (update_inode fs n f) = fs_names fs" "fs_next (update_inode fs n f) = fs_next fs"
  "update_inode (update_inode fs n f) n g = update_inode fs n (\<lambda>i. g (f i))"
  "fs_inode (update_inode fs n f) m = (if m = n then f (fs_inode fs n) else fs_inode fs m)"
  by (simp_all add: update_inode_def)

lemma touch_simps [simp]:
  "fs_names (touch fs p) = fs_names fs" "fs_next (touch fs p) = fs_next fs"
  "in_contents (fs_inode (touch fs p) n) = in_contents (fs_inode fs n)"
  by (simp_all add: touch_def update_inode_def split: option.split)

lemma at_path_Some: "fs_names fs p = Some n \<Longrightarrow> f (fs_inode fs n) = Some i \<Longrightarrow> at_path fs p f = Some (update_inode fs n (\<lambda>_. i))"
  by (simp add: at_path_def)

lemma xattr_calls:
  assumes "fs_names fs p = Some n"
  shows "receive_calls fs (map (\<lambda>(name, val). Pack_set_xattr p name val) xs) =
    Some (update_inode fs n (\<lambda>i. i\<lparr>in_xattrs := in_xattrs i ++ map_of (rev xs)\<rparr>))"
  using assms
proof (induction xs arbitrary: fs)
  case Nil
  then show ?case
    by (simp add: update_inode_def)
next
  case (Cons x xs)
  obtain name val where x: "x = (name, val)"
    by (cases x)
  have "receive_call fs (Pack_set_xattr p name val) = Some (update_inode fs n (\<lambda>i. i\<lparr>in_xattrs := (in_xattrs i)(name \<mapsto> val)\<rparr>))"
    using Cons.prems by (simp add: receive_call_def at_path_def update_inode_def)
  then show ?case
    using Cons by (simp add: x map_add_def fun_eq_iff split: option.split)
qed

lemma map_of_rev: "distinct (map fst xs) \<Longrightarrow> map_of (rev xs) = map_of xs"
  by (simp add: map_of_inject_set rev_map [symmetric])

lemma chown_call:
  "fs_names fs p = Some n \<Longrightarrow> receive_call fs (Pack_chown p (ucast (u :: u32)) (ucast (g :: u32))) =
     Some (update_inode fs n (\<lambda>i. i\<lparr>in_uid := u, in_gid := g\<rparr>))"
  by (simp add: receive_call_def at_path_def update_inode_def ucast_up_down)

lemma chmod_call:
  "fs_names fs p = Some n \<Longrightarrow> receive_call fs (Pack_chmod p (ucast (m :: u32))) = Some (update_inode fs n (\<lambda>i. i\<lparr>in_mode := m\<rparr>))"
  by (simp add: receive_call_def at_path_def update_inode_def ucast_up_down)

lemma utimes_call:
  "fs_names fs p = Some n \<Longrightarrow> receive_call fs (Pack_utimes p a m c) = Some (update_inode fs n (\<lambda>i. i\<lparr>in_times := Some (a, m)\<rparr>))"
  by (simp add: receive_call_def at_path_def update_inode_def)

lemma metadata_calls:
  assumes "fs_names fs (en_relpath e) = Some n" and "distinct (map fst (en_xattrs e))"
  shows "receive_calls fs (entry_metadata e) = Some (update_inode fs n (\<lambda>i.
    i\<lparr>in_mode := (if is_symlink_type (en_type e) then in_mode i else mode_bits_truncate (en_mode e)), in_uid := en_uid e,
      in_gid := en_gid e, in_xattrs := in_xattrs i ++ map_of (en_xattrs e), in_times := Some (en_atime e, en_mtime e)\<rparr>))"
  using assms
  by (auto simp: entry_metadata_def chown_call chmod_call utimes_call xattr_calls map_of_rev fun_eq_iff
      intro!: arg_cong [where f = "update_inode fs n"])

text \<open>Writing a file from an offset on, over the bytes that it has there.\<close>

lemma overwrite_calls:
  assumes "fs_names fs p = Some n" and "fs_inode fs n = i\<lparr>in_contents := InFile (c @ t), in_times := None\<rparr>"
    and "\<forall>r \<in> set reads. r \<noteq> []" and "length c + length (concat reads) < 2 ^ 64"
  shows "receive_calls fs (write_contents p (word_of_nat (length c)) reads) =
    Some (update_inode fs n (\<lambda>_. i\<lparr>in_contents := InFile (c @ concat reads @ drop (length (concat reads)) t), in_times := None\<rparr>))"
  using assms
proof (induction reads arbitrary: fs c t)
  case Nil
  then have "(fs_inode fs)(n := i\<lparr>in_contents := InFile (c @ t), in_times := None\<rparr>) = fs_inode fs"
    by (simp add: fun_upd_idem)
  then show ?case
    by (simp add: update_inode_def)
next
  case (Cons r reads)
  let ?t = "drop (length r) t"
  have "unat (word_of_nat (length c) :: u64) = length c"
    using Cons.prems(4) by (simp add: unat_word_of_nat)
  then have "receive_call fs (Pack_write p (word_of_nat (length c)) r) =
      Some (update_inode fs n (\<lambda>_. i\<lparr>in_contents := InFile ((c @ r) @ ?t), in_times := None\<rparr>))" (is "_ = Some ?fs")
    using Cons.prems(1,2) by (simp add: receive_call_def at_path_def on_file_def write_at_def)
  moreover have "receive_calls ?fs (write_contents p (word_of_nat (length (c @ r))) reads) =
      Some (update_inode ?fs n (\<lambda>_. i\<lparr>in_contents := InFile ((c @ r) @ concat reads @ drop (length (concat reads)) ?t), in_times := None\<rparr>))"
    by (rule Cons.IH) (use Cons.prems in auto)
  ultimately show ?case
    using Cons.prems(3) by (simp add: add.commute)
qed

lemma contents_calls:
  assumes "fs_names fs p = Some n" and "fs_inode fs n = i\<lparr>in_contents := InFile [], in_times := None\<rparr>"
    and "\<forall>r \<in> set reads. r \<noteq> []" and "length (concat reads) < 2 ^ 64"
  shows "receive_calls fs (write_contents p 0 reads) =
    Some (update_inode fs n (\<lambda>_. i\<lparr>in_contents := InFile (concat reads), in_times := None\<rparr>))"
  using overwrite_calls [where i = i and c = "[]" and t = "[]"] assms by simp

lemma truncated_calls:
  assumes "fs_names fs p = Some n" and "in_contents (fs_inode fs n) = InFile c" and "\<forall>r \<in> set reads. r \<noteq> []"
    and "unat len = length (concat reads)"
  shows "receive_calls fs (Pack_truncate p len # write_contents p 0 reads) =
    Some (update_inode fs n (\<lambda>i. i\<lparr>in_contents := InFile (concat reads), in_times := None\<rparr>))"
proof -
  let ?i = "fs_inode fs n" and ?t = "truncate_to (unat len) c"
  let ?fs = "update_inode fs n (\<lambda>i. i\<lparr>in_contents := InFile ?t, in_times := None\<rparr>)"
  have "receive_call fs (Pack_truncate p len) = Some ?fs"
    using assms(1,2) by (simp add: receive_call_def at_path_def on_file_def update_inode_def)
  moreover have "length (concat reads) < 2 ^ 64"
    using unsigned_less [of len, where 'a = nat] assms(4) by simp
  moreover have "length ?t = length (concat reads)"
    using assms(4) by (simp add: truncate_to_def)
  ultimately show ?thesis
    using overwrite_calls [where fs = ?fs and i = ?i and c = "[]" and t = ?t] assms(1,3) by (simp add: update_inode_def)
qed

end
