(* ===== verification/Sendstream_Rebuild.thy ===== *)
theory Sendstream_Rebuild
  imports Sendstream_Receive
begin

text \<open>
  Receiving what the packager writes for a whole layer: after every entry of the walk, the names and inodes of the receiving side are those
  of the entries so far.
\<close>

section \<open>Layers that can be packaged\<close>

definition entry_inode :: "entry \<Rightarrow> inode" where
  "entry_inode e =
     \<lparr>in_contents = (case en_type e of EntSymlink t \<Rightarrow> InLink t | EntFile \<Rightarrow> InFile (concat (the (en_open e))) | _ \<Rightarrow> InDir),
      in_mode = (if is_symlink_type (en_type e) then 0x1FF else mode_bits_truncate (en_mode e)),
      in_uid = en_uid e, in_gid = en_gid e, in_xattrs = map_of (en_xattrs e), in_times = Some (en_atime e, en_mtime e)\<rparr>"

definition readable :: "entry \<Rightarrow> bool" where
  "readable e \<longleftrightarrow>
     distinct (map fst (en_xattrs e)) \<and>
     (en_type e = EntDir \<or> is_symlink_type (en_type e) \<or>
      en_type e = EntFile \<and> (case en_open e of Some reads \<Rightarrow> (\<forall>r \<in> set reads. r \<noteq> []) \<and> length (concat reads) < 2 ^ 64 | None \<Rightarrow> False))"

text \<open>Directories come before what is in them, and entries with the same inode are names of one file.\<close>

fun walk_order :: "entry list \<Rightarrow> entry list \<Rightarrow> bool" where
  "walk_order before [] \<longleftrightarrow> True"
| "walk_order before (e # es) \<longleftrightarrow>
     (\<exists>d \<in> set before. en_type d = EntDir \<and> en_relpath d = dirname (en_relpath e)) \<and>
     (\<forall>b \<in> set before. en_relpath b \<noteq> en_relpath e \<and>
        (en_ino b = en_ino e \<longrightarrow> en_type b \<noteq> EntDir \<and> entry_inode b = entry_inode e)) \<and>
     walk_order (before @ [e]) es"

definition layer_wf :: "entry list \<Rightarrow> bool" where
  "layer_wf layer \<longleftrightarrow>
     (\<forall>e \<in> set layer. readable e) \<and>
     (case layer of root # es \<Rightarrow> en_relpath root = [] \<and> en_type root = EntDir \<and> walk_order [root] es | [] \<Rightarrow> False)"

definition fresh_names :: "(nat \<Rightarrow> bytes) \<Rightarrow> entry list \<Rightarrow> bool" where
  "fresh_names new_v4 layer \<longleftrightarrow> (\<forall>i. dirname (new_v4 i) = [] \<and> new_v4 i \<notin> en_relpath ` set layer)"

section \<open>New names\<close>

definition untimed :: "inode \<Rightarrow> inode" where
  "untimed i = i\<lparr>in_times := None\<rparr>"

lemma untimed_simps [simp]: "untimed (untimed i) = untimed i" "in_contents (untimed i) = in_contents i" "in_times (untimed i) = None"
  by (simp_all add: untimed_def)

lemma touch_inode: "fs_names fs p = Some d \<Longrightarrow> touch fs p = update_inode fs d untimed"
  by (simp add: touch_def update_inode_def untimed_def)

lemma enter_result:
  assumes "fs_names fs p = None" and "fs_names fs (dirname p) = Some d" and "in_contents (fs_inode fs d) = InDir"
  shows "enter fs p n = Some ((update_inode fs d untimed)\<lparr>fs_names := (fs_names fs)(p \<mapsto> n)\<rparr>)"
  using assms by (simp add: enter_def is_dir_at_def touch_inode)

lemma create_result:
  assumes "fs_names fs p = None" and "fs_names fs (dirname p) = Some d" and "in_contents (fs_inode fs d) = InDir"
  shows "create fs p i = Some (fs\<lparr>fs_names := (fs_names fs)(p \<mapsto> fs_next fs),
    fs_inode := (fs_inode fs)(d := untimed (fs_inode fs d), fs_next fs := i), fs_next := Suc (fs_next fs)\<rparr>)"
  using enter_result [OF assms] by (simp add: create_def update_inode_def)

text \<open>A name made under a temporary name in the root directory and moved.\<close>

lemma rename_result:
  assumes "fs_names fs tmp = Some n" and "in_contents (fs_inode fs n) \<noteq> InDir" and "fs_names fs (dirname tmp) = Some r"
    and "fs_names fs p = None" and "fs_names fs (dirname p) = Some d" and "in_contents (fs_inode fs d) = InDir" and "dirname p \<noteq> tmp"
  shows "receive_call fs (Pack_rename tmp p) = Some ((update_inode (update_inode fs r untimed) d untimed)
    \<lparr>fs_names := (fs_names fs)(tmp := None, p \<mapsto> n)\<rparr>)"
proof -
  let ?fs = "remove_name fs tmp"
  have fs: "?fs = (update_inode fs r untimed)\<lparr>fs_names := (fs_names fs)(tmp := None)\<rparr>"
    using assms(3) by (simp add: remove_name_def touch_inode)
  have "enter ?fs p n = Some ((update_inode ?fs d untimed)\<lparr>fs_names := (fs_names ?fs)(p \<mapsto> n)\<rparr>)"
    by (rule enter_result) (use assms in \<open>auto simp: fs\<close>)
  then show ?thesis
    using assms(1,2) by (simp add: receive_call_def is_dir_at_def fs update_inode_def)
qed

section \<open>The entries so far\<close>

definition represents :: "inode \<Rightarrow> entry \<Rightarrow> bool" where
  "represents i e \<longleftrightarrow> i = entry_inode e \<or> in_contents (entry_inode e) = InDir \<and> i = untimed (entry_inode e)"

text \<open>\<open>fs'\<close> has the inodes of \<open>fs\<close>, with directories possibly touched.\<close>

definition settled :: "filesystem \<Rightarrow> filesystem \<Rightarrow> bool" where
  "settled fs fs' \<longleftrightarrow> (\<forall>m < fs_next fs. fs_inode fs' m = fs_inode fs m \<or>
     in_contents (fs_inode fs m) = InDir \<and> fs_inode fs' m = untimed (fs_inode fs m))"

lemma dir_represents: "represents i e \<Longrightarrow> en_type e = EntDir \<Longrightarrow> in_contents i = InDir"
  by (auto simp: represents_def entry_inode_def)

lemma readable_contents: "readable e \<Longrightarrow> en_type e \<noteq> EntDir \<Longrightarrow> in_contents (entry_inode e) \<noteq> InDir"
  by (auto simp: readable_def entry_inode_def is_symlink_type_def split: entry_type.splits)

lemma settled_represents:
  "settled fs fs' \<Longrightarrow> n < fs_next fs \<Longrightarrow> represents (fs_inode fs n) e \<Longrightarrow> represents (fs_inode fs' n) e"
  by (auto simp: settled_def represents_def)

lemma settled_untimed: "settled fs fs' \<Longrightarrow> n < fs_next fs \<Longrightarrow> in_times (fs_inode fs n) = None \<Longrightarrow> in_times (fs_inode fs' n) = None"
  by (auto simp: settled_def)

definition rebuilt :: "entry list \<Rightarrow> (u64 \<rightharpoonup> bytes) \<Rightarrow> filesystem \<Rightarrow> bool" where
  "rebuilt es inodes fs \<longleftrightarrow>
     (\<forall>p. fs_names fs p \<noteq> None \<longleftrightarrow> p \<in> en_relpath ` set es) \<and>
     (\<forall>e \<in> set es. \<exists>n < fs_next fs. fs_names fs (en_relpath e) = Some n \<and> represents (fs_inode fs n) e) \<and>
     (\<forall>e \<in> set es. \<forall>e' \<in> set es. fs_names fs (en_relpath e) = fs_names fs (en_relpath e') \<longleftrightarrow> en_ino e = en_ino e') \<and>
     (\<forall>e \<in> set es. inodes (en_ino e) \<noteq> None) \<and>
     (\<forall>i q. inodes i = Some q \<longrightarrow> (\<exists>e \<in> set es. en_relpath e = q \<and> en_ino e = i)) \<and>
     (\<forall>e \<in> set es. en_relpath e \<noteq> [] \<longrightarrow>
        (\<exists>d. fs_names fs (dirname (en_relpath e)) = Some d \<and> in_times (fs_inode fs d) = None))"

lemma first_calls:
  assumes "readable e" and "en_relpath e \<noteq> []" and "fs_names fs (en_relpath e) = None" and "fs_names fs tmp = None"
    and "fs_names fs (dirname (en_relpath e)) = Some d" and "in_contents (fs_inode fs d) = InDir" and "d < fs_next fs"
    and "dirname tmp = []" and "fs_names fs [] = Some r" and "in_contents (fs_inode fs r) = InDir" and "r < fs_next fs"
    and "tmp \<noteq> en_relpath e"
  shows "\<exists>calls fs'. package_full tmp e = Inr calls \<and> receive_calls fs calls = Some fs' \<and>
    fs_names fs' = (fs_names fs)(en_relpath e \<mapsto> fs_next fs) \<and> fs_next fs' = Suc (fs_next fs) \<and>
    fs_inode fs' (fs_next fs) = entry_inode e \<and> settled fs fs' \<and> in_times (fs_inode fs' d) = None"
proof -
  let ?p = "en_relpath e" and ?n = "fs_next fs"
  have xattrs: "distinct (map fst (en_xattrs e))"
    using assms(1) by (simp add: readable_def)
  have finish: "\<exists>fs'. receive_calls fs1 (entry_metadata e) = Some fs' \<and> fs_names fs' = (fs_names fs)(?p \<mapsto> ?n) \<and>
      fs_next fs' = Suc ?n \<and> fs_inode fs' ?n = entry_inode e \<and> settled fs fs' \<and> in_times (fs_inode fs' d) = None"
    if "fs_names fs1 = (fs_names fs)(?p \<mapsto> ?n)" "fs_next fs1 = Suc ?n" "settled fs fs1" "in_times (fs_inode fs1 d) = None"
      "fs_inode fs1 ?n = new_inode (in_contents (entry_inode e)) m" "is_symlink_type (en_type e) \<Longrightarrow> m = 0x1FF" for fs1 m
    using metadata_calls [of fs1 e ?n] that xattrs assms(7)
    by (auto simp: settled_def entry_inode_def new_inode_def)
  consider "en_type e = EntDir" | t where "en_type e = EntSymlink t" | reads where "en_type e = EntFile" "en_open e = Some reads"
    "\<forall>r \<in> set reads. r \<noteq> []" "length (concat reads) < 2 ^ 64"
    using assms(1) by (auto simp: readable_def is_symlink_type_def split: entry_type.splits option.splits)
  then show ?thesis
  proof cases
    case 1
    let ?fs1 = "fs\<lparr>fs_names := (fs_names fs)(?p \<mapsto> ?n), fs_inode := (fs_inode fs)(d := untimed (fs_inode fs d), ?n := new_inode InDir 0x1C0),
      fs_next := Suc ?n\<rparr>"
    have "receive_call fs (Pack_mkdir ?p (en_ino e)) = Some ?fs1"
      using create_result [OF assms(3,5,6)] by (simp add: receive_call_def)
    moreover have "package_full tmp e = Inr (Pack_mkdir ?p (en_ino e) # entry_metadata e)"
      using 1 assms(2) by (simp add: package_full_def create_entry_def pbind_def)
    ultimately show ?thesis
      using finish [of ?fs1 "0x1C0"] 1 assms(6,7) by (auto simp: settled_def entry_inode_def is_symlink_type_def)
  next
    case 2
    let ?fs0 = "fs\<lparr>fs_names := (fs_names fs)(tmp \<mapsto> ?n), fs_inode := (fs_inode fs)(r := untimed (fs_inode fs r), ?n := new_inode (InLink t) 0x1FF),
      fs_next := Suc ?n\<rparr>"
    let ?fs1 = "(update_inode (update_inode ?fs0 r untimed) d untimed)\<lparr>fs_names := (fs_names ?fs0)(tmp := None, ?p \<mapsto> ?n)\<rparr>"
    have "receive_call fs (Pack_symlink t tmp (en_ino e)) = Some ?fs0"
      using create_result [OF assms(4), of r] assms(8-10) by (simp add: receive_call_def)
    moreover have "receive_call ?fs0 (Pack_rename tmp ?p) = Some ?fs1"
      by (rule rename_result) (use assms in \<open>auto simp: new_inode_def\<close>)
    moreover have "package_full tmp e = Inr (Pack_symlink t tmp (en_ino e) # Pack_rename tmp ?p # entry_metadata e)"
      using 2 assms(2) by (simp add: package_full_def create_entry_def pbind_def is_symlink_type_def io_def en_read_link_def)
    moreover have "(fs_names fs)(tmp := None, ?p \<mapsto> ?n) = (fs_names fs)(?p \<mapsto> ?n)"
      using assms(4,12) by (auto simp: fun_eq_iff)
    ultimately show ?thesis
      using finish [of ?fs1 "0x1FF"] 2 assms(6,7,10,11) by (auto simp: settled_def entry_inode_def)
  next
    case 3
    let ?fs0 = "fs\<lparr>fs_names := (fs_names fs)(?p \<mapsto> ?n), fs_inode := (fs_inode fs)(d := untimed (fs_inode fs d), ?n := new_inode (InFile []) 0x180),
      fs_next := Suc ?n\<rparr>"
    let ?fs1 = "update_inode ?fs0 ?n (\<lambda>_. new_inode (InFile (concat reads)) 0x180)"
    have "receive_call fs (Pack_mkfile ?p (en_ino e)) = Some ?fs0"
      using create_result [OF assms(3,5,6)] by (simp add: receive_call_def)
    moreover have "receive_calls ?fs0 (write_contents ?p 0 reads) =
        Some (update_inode ?fs0 ?n (\<lambda>_. (new_inode (InFile []) 0x180)\<lparr>in_contents := InFile (concat reads), in_times := None\<rparr>))"
      by (rule contents_calls) (use 3 in \<open>auto simp: new_inode_def\<close>)
    moreover have "package_full tmp e = Inr ((Pack_mkfile ?p (en_ino e) # write_contents ?p 0 reads) @ entry_metadata e)"
      using 3 assms(2) by (simp add: package_full_def create_entry_def pbind_def is_symlink_type_def io_def)
    ultimately show ?thesis
      using finish [of ?fs1 "0x180"] 3 assms(6,7) by (auto simp: settled_def entry_inode_def is_symlink_type_def new_inode_def)
  qed
qed

lemma rebuiltD:
  assumes "rebuilt es inodes fs"
  shows "fs_names fs p \<noteq> None \<longleftrightarrow> p \<in> en_relpath ` set es"
    and "fs_names fs p = Some n \<Longrightarrow> n < fs_next fs"
    and "e \<in> set es \<Longrightarrow> \<exists>n < fs_next fs. fs_names fs (en_relpath e) = Some n \<and> represents (fs_inode fs n) e"
    and "e \<in> set es \<Longrightarrow> e' \<in> set es \<Longrightarrow> fs_names fs (en_relpath e) = fs_names fs (en_relpath e') \<longleftrightarrow> en_ino e = en_ino e'"
    and "e \<in> set es \<Longrightarrow> inodes (en_ino e) \<noteq> None"
    and "inodes i = Some q \<Longrightarrow> \<exists>e \<in> set es. en_relpath e = q \<and> en_ino e = i"
    and "e \<in> set es \<Longrightarrow> en_relpath e \<noteq> [] \<Longrightarrow>
      \<exists>d. fs_names fs (dirname (en_relpath e)) = Some d \<and> in_times (fs_inode fs d) = None"
proof -
  show names: "fs_names fs p \<noteq> None \<longleftrightarrow> p \<in> en_relpath ` set es" for p
    using assms by (simp add: rebuilt_def)
  show "fs_names fs p = Some n \<Longrightarrow> n < fs_next fs"
    using assms names [of p] by (fastforce simp: rebuilt_def)
qed (use assms in \<open>simp_all add: rebuilt_def\<close>)

text \<open>One more name: of a new inode, or of one of the inodes so far.\<close>

lemma rebuilt_snoc:
  assumes es: "rebuilt es inodes fs" and new: "en_relpath e \<notin> en_relpath ` set es"
    and fs': "fs_names fs' = (fs_names fs)(en_relpath e \<mapsto> n)" "fs_next fs \<le> fs_next fs'" "n < fs_next fs'" "settled fs fs'"
      "represents (fs_inode fs' n) e"
    and ino: "\<forall>b \<in> set es. fs_names fs (en_relpath b) = Some n \<longleftrightarrow> en_ino b = en_ino e"
    and inodes': "inodes' (en_ino e) \<noteq> None" "\<forall>i. inodes i \<noteq> None \<longrightarrow> inodes' i = inodes i"
      "\<forall>i q. inodes' i = Some q \<longrightarrow> inodes i = Some q \<or> q = en_relpath e \<and> i = en_ino e"
    and dir: "fs_names fs (dirname (en_relpath e)) = Some d" "in_times (fs_inode fs' d) = None"
  shows "rebuilt (es @ [e]) inodes' fs'"
proof -
  note D = rebuiltD [OF es]
  have old: "fs_names fs' (en_relpath b) = fs_names fs (en_relpath b)" if "b \<in> set es" for b
    using that new fs'(1) by (metis fun_upd_other image_eqI)
  have kept: "p \<noteq> en_relpath e" if "fs_names fs p = Some k" for p k
    using D(1) [of p] that new by (metis option.distinct(1))
  have dirs: "\<exists>k. fs_names fs' (dirname (en_relpath b)) = Some k \<and> in_times (fs_inode fs' k) = None"
    if b: "b \<in> set es" "en_relpath b \<noteq> []" for b
  proof -
    obtain k where k: "fs_names fs (dirname (en_relpath b)) = Some k" "in_times (fs_inode fs k) = None"
      using D(7) [OF b] by blast
    then have "in_times (fs_inode fs' k) = None"
      using settled_untimed [OF fs'(4)] D(2) by blast
    with k kept fs'(1) show ?thesis
      by simp
  qed
  have reps: "\<exists>k < fs_next fs'. fs_names fs' (en_relpath b) = Some k \<and> represents (fs_inode fs' k) b" if b: "b \<in> set es" for b
  proof -
    obtain k where "k < fs_next fs" "fs_names fs (en_relpath b) = Some k" "represents (fs_inode fs k) b"
      using D(3) [OF b] by blast
    then show ?thesis
      using old [OF b] settled_represents [OF fs'(4)] fs'(2) by (intro exI [of _ k]) simp
  qed
  have dir_e: "\<exists>k. fs_names fs' (dirname (en_relpath e)) = Some k \<and> in_times (fs_inode fs' k) = None"
    using kept [OF dir(1)] dir fs'(1) by simp
  have inos: "fs_names fs' (en_relpath b) = fs_names fs' (en_relpath b') \<longleftrightarrow> en_ino b = en_ino b'"
    if b: "b \<in> set (es @ [e])" and b': "b' \<in> set (es @ [e])" for b b'
  proof -
    have e: "fs_names fs' (en_relpath e) = Some n" and last: "\<And>b. b \<in> set es \<Longrightarrow> fs_names fs' (en_relpath b) = Some n \<longleftrightarrow> en_ino b = en_ino e"
      using fs'(1) ino old by simp_all
    consider "b \<in> set es" "b' \<in> set es" | "b \<in> set es" "b' = e" | "b = e" "b' \<in> set es" | "b = e" "b' = e"
      using b b' by auto
    then show ?thesis
    proof cases
      case 1
      then show ?thesis
        using D(4) old by simp
    next
      case 3
      then show ?thesis
        using last [of b'] e by (metis (no_types))
    qed (use e last in simp_all)
  qed
  show ?thesis
    unfolding rebuilt_def
  proof (intro conjI)
    show "\<forall>p. fs_names fs' p \<noteq> None \<longleftrightarrow> p \<in> en_relpath ` set (es @ [e])"
      using D(1) fs'(1) by auto
    show "\<forall>b \<in> set (es @ [e]). inodes' (en_ino b) \<noteq> None"
      using D(5) inodes' by auto
    show "\<forall>i q. inodes' i = Some q \<longrightarrow> (\<exists>b \<in> set (es @ [e]). en_relpath b = q \<and> en_ino b = i)"
      using D(6) inodes'(3) by (metis UnCI list.set_intros(1) set_append)
  qed (use dirs dir_e reps inos fs'(1,3,5) in auto)
qed

lemma hardlink_calls:
  assumes "fs_names fs original = Some n" and "in_contents (fs_inode fs n) \<noteq> InDir" and "fs_names fs (en_relpath e) = None"
    and "fs_names fs tmp = None" and "fs_names fs (dirname (en_relpath e)) = Some d" and "in_contents (fs_inode fs d) = InDir"
    and "dirname tmp = []" and "fs_names fs [] = Some r" and "in_contents (fs_inode fs r) = InDir" and "tmp \<noteq> en_relpath e"
  shows "\<exists>fs'. receive_calls fs [Pack_hardlink original tmp, Pack_rename tmp (en_relpath e)] = Some fs' \<and>
    fs_names fs' = (fs_names fs)(en_relpath e \<mapsto> n) \<and> fs_next fs' = fs_next fs \<and> settled fs fs' \<and>
    fs_inode fs' n = fs_inode fs n \<and> in_times (fs_inode fs' d) = None"
proof -
  let ?fs1 = "(update_inode fs r untimed)\<lparr>fs_names := (fs_names fs)(tmp \<mapsto> n)\<rparr>"
  let ?fs2 = "(update_inode (update_inode ?fs1 r untimed) d untimed)\<lparr>fs_names := (fs_names ?fs1)(tmp := None, en_relpath e \<mapsto> n)\<rparr>"
  have "receive_call fs (Pack_hardlink original tmp) = Some ?fs1"
    using enter_result [OF assms(4), of r n] assms(1,2,7-9) by (simp add: receive_call_def is_dir_at_def)
  moreover have "receive_call ?fs1 (Pack_rename tmp (en_relpath e)) = Some ?fs2"
    by (rule rename_result) (use assms in \<open>auto simp: untimed_def\<close>)
  moreover have "(fs_names fs)(tmp := None, en_relpath e \<mapsto> n) = (fs_names fs)(en_relpath e \<mapsto> n)"
    using assms(4,10) by (auto simp: fun_eq_iff)
  ultimately show ?thesis
    using assms(2,6,9) by (auto simp: settled_def)
qed

section \<open>The walk\<close>

lemma walk_calls:
  assumes "rebuilt es inodes fs" and "walk_order es rest" and "root \<in> set es" "en_relpath root = []" "en_type root = EntDir"
    and "\<forall>e \<in> set (es @ rest). readable e" and "\<forall>i. dirname (new_v4 i) = [] \<and> new_v4 i \<notin> en_relpath ` set (es @ rest)"
  shows "\<exists>calls fs' inodes'. package_walk blake3 new_v4 None inodes i rest = Inr calls \<and> receive_calls fs calls = Some fs' \<and>
    rebuilt (es @ rest) inodes' fs'"
  using assms
proof (induction rest arbitrary: es inodes fs i)
  case Nil
  then show ?case
    by auto
next
  case (Cons e rest)
  note D = rebuiltD [OF Cons.prems(1)]
  let ?tmp = "new_v4 i" and ?p = "en_relpath e"
  obtain dir where dir: "dir \<in> set es" "en_type dir = EntDir" "en_relpath dir = dirname ?p"
    using Cons.prems(2) by auto
  obtain d where d: "fs_names fs (dirname ?p) = Some d" "d < fs_next fs" "in_contents (fs_inode fs d) = InDir"
    using D(3) [OF dir(1)] dir dir_represents by auto
  obtain r where r: "fs_names fs [] = Some r" "r < fs_next fs" "in_contents (fs_inode fs r) = InDir"
    using D(3) [OF Cons.prems(3)] Cons.prems(4,5) dir_represents by auto
  have new: "?p \<notin> en_relpath ` set es" and same: "\<forall>b \<in> set es. en_ino b = en_ino e \<longrightarrow> en_type b \<noteq> EntDir \<and> entry_inode b = entry_inode e"
    using Cons.prems(2) by auto
  have p: "fs_names fs ?p = None" "fs_names fs ?tmp = None" "?p \<noteq> []" "?tmp \<noteq> ?p"
    using D(1) [of ?p] D(1) [of ?tmp] new Cons.prems(3,4,7) by force+
  have IH: "\<exists>calls fs' inodes''. package_walk blake3 new_v4 None inodes' (Suc i) rest = Inr calls \<and> receive_calls fs1 calls = Some fs' \<and>
      rebuilt (es @ e # rest) inodes'' fs'" if "rebuilt (es @ [e]) inodes' fs1" for inodes' fs1
    using Cons.IH [OF that] Cons.prems(2-7) by simp
  show ?case
  proof (cases "inodes (en_ino e)")
    case None
    obtain calls fs1 where first: "package_full ?tmp e = Inr calls" "receive_calls fs calls = Some fs1"
      "fs_names fs1 = (fs_names fs)(?p \<mapsto> fs_next fs)" "fs_next fs1 = Suc (fs_next fs)"
      "fs_inode fs1 (fs_next fs) = entry_inode e" "settled fs fs1" "in_times (fs_inode fs1 d) = None"
      using first_calls [OF _ p(3,1,2) d(1,3,2) _ r(1,3,2) p(4)] Cons.prems(6,7) by auto
    have "rebuilt (es @ [e]) (inodes(en_ino e \<mapsto> ?p)) fs1"
    proof (rule rebuilt_snoc [OF Cons.prems(1) new first(3) _ _ first(6) _ _ _ _ _ d(1) first(7)])
      show "\<forall>b \<in> set es. fs_names fs (en_relpath b) = Some (fs_next fs) \<longleftrightarrow> en_ino b = en_ino e"
        using D(2,5) None by fastforce
    qed (use first None in \<open>auto simp: represents_def\<close>)
    with IH first(1,2) None show ?thesis
      by (fastforce simp: package_first_def pbind_def)
  next
    case (Some original)
    obtain b where b: "b \<in> set es" "en_relpath b = original" "en_ino b = en_ino e"
      using D(6) [OF Some] by blast
    obtain n where n: "fs_names fs original = Some n" "n < fs_next fs" "represents (fs_inode fs n) b"
      using D(3) [OF b(1)] b(2) by auto
    have e_inode: "entry_inode b = entry_inode e"
      using same b by auto
    have "in_contents (entry_inode b) \<noteq> InDir"
      using same b Cons.prems(6) by (intro readable_contents) auto
    with n(3) have inode: "fs_inode fs n = entry_inode e" "in_contents (fs_inode fs n) \<noteq> InDir"
      by (auto simp: represents_def e_inode)
    obtain fs1 where link: "receive_calls fs [Pack_hardlink original ?tmp, Pack_rename ?tmp ?p] = Some fs1"
      "fs_names fs1 = (fs_names fs)(?p \<mapsto> n)" "fs_next fs1 = fs_next fs" "settled fs fs1" "fs_inode fs1 n = fs_inode fs n"
      "in_times (fs_inode fs1 d) = None"
      using hardlink_calls [OF n(1) inode(2) p(1,2) d(1,3) _ r(1,3) p(4)] Cons.prems(7) by auto
    have "rebuilt (es @ [e]) inodes fs1"
    proof (rule rebuilt_snoc [OF Cons.prems(1) new link(2) _ _ link(4) _ _ _ _ _ d(1) link(6)])
      show "\<forall>c \<in> set es. fs_names fs (en_relpath c) = Some n \<longleftrightarrow> en_ino c = en_ino e"
        using D(4) [OF _ b(1)] b n(1) by auto
    qed (use link n(2) inode(1) Some in \<open>auto simp: represents_def\<close>)
    from IH [OF this] obtain calls fs' inodes'' where rest:
      "package_walk blake3 new_v4 None inodes (Suc i) rest = Inr calls" "receive_calls fs1 calls = Some fs'" "rebuilt (es @ e # rest) inodes'' fs'"
      by blast
    have "package_walk blake3 new_v4 None inodes i (e # rest) = Inr ([Pack_hardlink original ?tmp, Pack_rename ?tmp ?p] @ calls)"
      using Some rest(1) by (simp add: package_hardlink_def pbind_def)
    moreover have "receive_calls fs ([Pack_hardlink original ?tmp, Pack_rename ?tmp ?p] @ calls) = Some fs'"
      unfolding receive_calls_append link(1) by (simp add: rest(2))
    ultimately show ?thesis
      using rest(3) by blast
  qed
qed

section \<open>Whole layers\<close>

lemma root_calls:
  assumes "en_relpath root = []" and "distinct (map fst (en_xattrs root))" and "en_type root = EntDir"
  shows "package_full tmp root = Inr (entry_metadata root)"
    and "\<exists>fs. receive_calls empty_subvol (entry_metadata root) = Some fs \<and> rebuilt [root] [en_ino root \<mapsto> []] fs"
proof -
  show "package_full tmp root = Inr (entry_metadata root)"
    using assms(1) by (simp add: package_full_def pbind_def)
  have "receive_calls empty_subvol (entry_metadata root) = Some (update_inode empty_subvol 0 (\<lambda>_. entry_inode root))"
    using metadata_calls [of empty_subvol root 0] assms
    by (simp add: empty_subvol_def update_inode_def entry_inode_def new_inode_def is_symlink_type_def)
  moreover have "rebuilt [root] [en_ino root \<mapsto> []] (update_inode empty_subvol 0 (\<lambda>_. entry_inode root))"
    using assms(1) by (simp add: rebuilt_def empty_subvol_def represents_def)
  ultimately show "\<exists>fs. receive_calls empty_subvol (entry_metadata root) = Some fs \<and> rebuilt [root] [en_ino root \<mapsto> []] fs"
    by blast
qed

lemma layer_calls:
  assumes "layer_wf layer" and "fresh_names new_v4 layer"
  shows "\<exists>calls fs inodes. package_walk blake3 new_v4 None Map.empty 0 layer = Inr calls \<and>
    receive_calls empty_subvol calls = Some fs \<and> rebuilt layer inodes fs"
proof -
  obtain root es where layer: "layer = root # es" "en_relpath root = []" "en_type root = EntDir" "walk_order [root] es"
    and readable: "\<forall>e \<in> set layer. readable e"
    using assms(1) by (auto simp: layer_wf_def split: list.splits)
  then have xattrs: "distinct (map fst (en_xattrs root))"
    by (simp add: readable_def)
  note root = root_calls [OF layer(2) xattrs layer(3)]
  obtain fs0 where fs0: "receive_calls empty_subvol (entry_metadata root) = Some fs0" "rebuilt [root] [en_ino root \<mapsto> []] fs0"
    using root(2) by blast
  obtain calls fs inodes where "package_walk blake3 new_v4 None [en_ino root \<mapsto> []] 1 es = Inr calls"
    "receive_calls fs0 calls = Some fs" "rebuilt layer inodes fs"
    using walk_calls [OF fs0(2) layer(4), of root new_v4 blake3 1] layer readable assms(2) by (auto simp: fresh_names_def)
  with fs0(1) root(1) layer(1,2) show ?thesis
    by (intro exI [of _ "entry_metadata root @ calls"] exI [of _ fs] exI [of _ inodes]) (simp add: package_first_def pbind_def)
qed

end
