(* ===== verification/Write_Command.thy ===== *)
theory Write_Command
  imports Command_Codec
begin

text \<open>
  Write commands while they are batched. A write keeps the buffer it was parsed with and, ahead
  of it, a start offset and a data attribute. \<open>wcmd k D a off d dirty\<close> is such a command: it was
  made from \<open>a\<close>, its buffer holds the checksum \<open>k\<close> and, behind the attributes of \<open>a\<close>, the bytes
  \<open>D\<close>, and it now stands for \<open>rebase off d a\<close>, the write of \<open>d\<close> at \<open>off\<close>. Append, truncate and
  range copies are computed on it, and flushing gives the clean command of what it stands for.
\<close>

section \<open>Writes and what they stand for\<close>

definition rebase :: "nat \<Rightarrow> bytes \<Rightarrow> acmd \<Rightarrow> acmd" where
  "rebase off d a = a\<lparr>ac_attrs := set_offset off (ac_attrs a), ac_data := Some d\<rparr>"

text \<open>A well-formed write: its attributes occur once each, among them the file offset, it has
  data, and it stays within the 32-bit payload size when a batch of \<open>mx\<close> bytes is put in it.\<close>

definition write_wf :: "nat \<Rightarrow> acmd \<Rightarrow> bool" where
  "write_wf mx a \<longleftrightarrow>
     ac_type a = BTRFS_SEND_C_WRITE \<and> acmd_wf SendVersion2 a \<and> distinct (map fst (ac_attrs a)) \<and>
     acmd_offset a \<noteq> None \<and> ac_data a \<noteq> None \<and>
     length (enc_attrs SendVersion2 (ac_attrs a)) + mx + 12 < 2 ^ 32"

definition wcmd :: "u32 \<Rightarrow> bytes \<Rightarrow> acmd \<Rightarrow> nat \<Rightarrow> bytes \<Rightarrow> bool \<Rightarrow> SendCommand" where
  "wcmd k D a off d dirty =
     (let pre = enc_attrs SendVersion2 (ac_attrs a); n = word_of_nat (length pre + length D)
      in \<lparr>sc_header = mk_header SendVersion2 n (ac_type a) k,
          sc_buffer = enc_header n (ac_type a) k @ pre @ D,
          sc_data_attribute = Some (data_attr d), sc_data_attribute_initial_size = Some (length D),
          sc_data_attribute_dirty = dirty, sc_path = acmd_path a, sc_start_offset = Some off,
          sc_uncompressed_size = 12 + length pre + length d, sc_version = SendVersion2\<rparr>)"

text \<open>The stale part of the buffer stays within the 32-bit payload size.\<close>

definition stale_fits :: "bytes \<Rightarrow> acmd \<Rightarrow> bool" where
  "stale_fits D a \<longleftrightarrow> length (enc_attrs SendVersion2 (ac_attrs a)) + length D + 10 < 2 ^ 32"

lemma map_of_rev_set_offset:
  "map_of (rev (set_offset off as)) t =
     (if t = BTRFS_SEND_A_FILE_OFFSET
      then map_option (\<lambda>_. le64 (word_of_nat off)) (map_of (rev as) t) else map_of (rev as) t)"
  by (induction as rule: rev_induct) (auto simp: set_offset_def)

lemma set_offset_set_offset [simp]: "set_offset off (set_offset off' as) = set_offset off as"
  by (auto simp: set_offset_def)

lemma fst_set_offset [simp]: "map fst (set_offset off as) = map fst as"
  by (simp add: set_offset_def)

lemma set_offset_fst: "b \<in> set (set_offset off as) \<Longrightarrow> fst b \<in> fst ` set as"
  by (force simp: set_offset_def)

lemma rebase_simps [simp]:
  "ac_type (rebase off d a) = ac_type a"
  "ac_attrs (rebase off d a) = set_offset off (ac_attrs a)"
  "ac_data (rebase off d a) = Some d"
  "rebase off d (rebase off' d' a) = rebase off d a"
  by (simp_all add: rebase_def)

lemma acmd_path_rebase [simp]: "acmd_path (rebase off d a) = acmd_path a"
  by (simp add: acmd_path_def map_of_rev_set_offset)

lemma acmd_offset_rebase [simp]:
  "acmd_offset a \<noteq> None \<Longrightarrow> off < 2 ^ 64 \<Longrightarrow> acmd_offset (rebase off d a) = Some off"
  by (auto simp: acmd_offset_def map_of_rev_set_offset unat_word_of_nat)

lemma acmd_offset_bound: "acmd_offset a = Some off \<Longrightarrow> off < 2 ^ 64"
  using unsigned_less [where 'b = 64 and 'a = nat] by (auto simp: acmd_offset_def)

lemma attr_wf_set_offset:
  "\<forall>b \<in> set as. attr_wf v b \<Longrightarrow> \<forall>b \<in> set (set_offset off as). attr_wf v b"
  by (auto simp: set_offset_def attr_wf_def attr_fits_def)

lemma set_offset_same:
  assumes "\<forall>b \<in> set as. attr_wf v b" and "distinct (map fst as)"
    and "map_of (rev as) BTRFS_SEND_A_FILE_OFFSET = Some p"
  shows "set_offset (unat (from_le p :: u64)) as = as"
proof -
  have p: "b = (BTRFS_SEND_A_FILE_OFFSET, p)" if "b \<in> set as" "fst b = BTRFS_SEND_A_FILE_OFFSET" for b
    using that assms(2,3) by (auto simp: distinct_map inj_on_def dest!: map_of_SomeD)
  have "length p = 8"
    using assms(1) map_of_SomeD [OF assms(3)] by (force simp: attr_wf_def)
  then have "le64 (from_le p) = p"
    using to_le_from_le [of p, where 'a = 64] by simp
  then show ?thesis
    using p by (auto simp: set_offset_def intro!: map_idI split: if_splits)
qed

lemma rebase_same:
  assumes "write_wf mx a" and "acmd_offset a = Some off" and "ac_data a = Some d"
  shows "rebase off d a = a"
  using assms set_offset_same [of "ac_attrs a" SendVersion2]
  by (auto simp: rebase_def write_wf_def acmd_wf_def all_attrs_def acmd_offset_def)

lemma all_attrs_data: "ac_data a = Some d \<Longrightarrow> all_attrs a = ac_attrs a @ [(BTRFS_SEND_A_DATA, d)]"
  by (simp add: all_attrs_def)

lemma enc_payload_rebase:
  "enc_payload v (rebase off d a) =
     enc_attrs v (set_offset off (ac_attrs a)) @ enc_attr v (BTRFS_SEND_A_DATA, d)"
  by (simp add: enc_payload_def all_attrs_def)

lemma enc_payload_data:
  "ac_data a = Some d \<Longrightarrow>
   enc_payload v a = enc_attrs v (ac_attrs a) @ enc_attr v (BTRFS_SEND_A_DATA, d)"
  by (simp add: enc_payload_def all_attrs_def)

lemma write_wf_attrs:
  assumes "write_wf mx a"
  shows "\<forall>b \<in> set (ac_attrs a). attr_wf SendVersion2 b" "attrs_wf SendVersion2 (ac_attrs a)"
    "\<forall>b \<in> set (ac_attrs a). fst b \<noteq> BTRFS_SEND_A_DATA"
  using assms
  by (auto simp: write_wf_def acmd_wf_def all_attrs_def attrs_wf_def dest: in_set_butlastD)

lemma length_enc_attrs_rebase [simp]:
  "write_wf mx a \<Longrightarrow> length (enc_attrs SendVersion2 (set_offset off (ac_attrs a))) =
     length (enc_attrs SendVersion2 (ac_attrs a))"
  by (simp add: length_enc_set_offset write_wf_attrs(1))

lemma attr_wf_data [simp]: "attr_wf SendVersion2 (BTRFS_SEND_A_DATA, d)"
  by (simp add: attr_wf_def attr_fits_def)

lemma write_wf_rebase:
  assumes "write_wf mx a" and "off < 2 ^ 64"
    and "length (enc_attrs SendVersion2 (ac_attrs a)) + length d + 12 < 2 ^ 32"
  shows "write_wf mx (rebase off d a)"
  using assms write_wf_attrs [OF assms(1)] attr_wf_set_offset [of "ac_attrs a" SendVersion2 off]
  by (auto simp: write_wf_def acmd_wf_def all_attrs_def enc_payload_rebase length_enc_attr
      length_enc_set_offset dest!: set_offset_fst)

lemma wcmd_clean:
  assumes "write_wf mx a" and "acmd_offset a = Some off" and "ac_data a = Some d"
  shows "wcmd (acmd_crc x SendVersion2 a) (enc_attr SendVersion2 (BTRFS_SEND_A_DATA, d)) a off d False =
      mk_command x SendVersion2 a"
    and "stale_fits (enc_attr SendVersion2 (BTRFS_SEND_A_DATA, d)) a"
  using assms
  by (simp_all add: wcmd_def mk_command_def enc_payload_data length_enc_attr Let_def enc_command_def
      enc_with_crc_def stale_fits_def write_wf_def acmd_wf_def)

lemma wcmd_simps [simp]:
  "sc_data_attribute (wcmd k D a off d b) = Some (data_attr d)"
  "sc_data_attribute_initial_size (wcmd k D a off d b) = Some (length D)"
  "sc_data_attribute_dirty (wcmd k D a off d b) = b"
  "sc_path (wcmd k D a off d b) = acmd_path a"
  "sc_start_offset (wcmd k D a off d b) = Some off"
  "sc_uncompressed_size (wcmd k D a off d b) = 12 + length (enc_attrs SendVersion2 (ac_attrs a)) + length d"
  "sc_version (wcmd k D a off d b) = SendVersion2"
  by (simp_all add: wcmd_def Let_def)

lemma wcmd_header [simp]:
  "sc_header (wcmd k D a off d b) = mk_header SendVersion2
     (word_of_nat (length (enc_attrs SendVersion2 (ac_attrs a)) + length D)) (ac_type a) k"
  by (simp add: wcmd_def Let_def del: of_nat_add)

lemma wcmd_buffer [simp]:
  "sc_buffer (wcmd k D a off d b) = enc_header
     (word_of_nat (length (enc_attrs SendVersion2 (ac_attrs a)) + length D)) (ac_type a) k @
     enc_attrs SendVersion2 (ac_attrs a) @ D"
  by (simp add: wcmd_def Let_def del: of_nat_add)

lemma wcmd_update_offset: "(wcmd k D a off d b)\<lparr>sc_start_offset := Some off'\<rparr> = wcmd k D a off' d b"
  by (simp add: wcmd_def Let_def)

lemma wcmd_update:
  "us = 12 + length (enc_attrs SendVersion2 (ac_attrs a)) + length e \<Longrightarrow>
   (wcmd k D a off d b)\<lparr>sc_data_attribute := Some (data_attr e), sc_uncompressed_size := us,
      sc_data_attribute_dirty := b'\<rparr> = wcmd k D a off e b'"
  by (simp add: wcmd_def Let_def)

lemma stale_size:
  "stale_fits D a \<Longrightarrow>
   unat (word_of_nat (length (enc_attrs SendVersion2 (ac_attrs a)) + length D) :: u32) =
     length (enc_attrs SendVersion2 (ac_attrs a)) + length D"
  by (simp add: stale_fits_def unat_word_of_nat32 del: of_nat_add)

section \<open>Checking a dirty write\<close>

lemma write_wf_shape:
  assumes "write_wf mx a"
  obtains off0 d0 where "acmd_offset a = Some off0" "ac_data a = Some d0"
    "enc_payload SendVersion2 a =
       enc_attrs SendVersion2 (ac_attrs a) @ enc_attr SendVersion2 (BTRFS_SEND_A_DATA, d0)"
  using assms by (auto simp: write_wf_def enc_payload_data)

text \<open>Writing the attributes in front of the data with the current offset.\<close>

lemma flush_attributes_write:
  assumes "write_wf mx a"
  shows "flush_attributes (sctx opts (Some (enc_attrs SendVersion2 (ac_attrs a))) 0 SendVersion2
        (Some (zeros (length (enc_attrs SendVersion2 (ac_attrs a))))) 0 SendVersion2)
        (10 + length (enc_attrs SendVersion2 (ac_attrs a))) off =
     Inr (sctx opts (Some (enc_attrs SendVersion2 (ac_attrs a)))
        (length (enc_attrs SendVersion2 (ac_attrs a))) SendVersion2
        (Some (enc_attrs SendVersion2 (set_offset off (ac_attrs a))))
        (length (enc_attrs SendVersion2 (ac_attrs a))) SendVersion2)"
  using flush_attributes_enc [OF write_wf_attrs(2,3) [OF assms], of _ "[]" "[]"] by simp

lemma verify_source_buffer_dirty:
  assumes "write_wf mx a"
  shows "verify_source_buffer (wcmd k D a off d True) c =
    Inr (enc_header (word_of_nat (length (enc_attrs SendVersion2 (ac_attrs a)) + length D)) (ac_type a) k @
         enc_payload SendVersion2 (rebase off d a))"
  using assms
  by (simp add: verify_source_buffer_def Let_def flush_attributes_write splice_def wire
      enc_payload_rebase del: of_nat_add)

lemma acmd_wf_attrs_rebase:
  assumes "write_wf mx a"
  shows "attrs_wf SendVersion2 (all_attrs (rebase off d a))"
    "\<forall>b \<in> set (ac_attrs (rebase off d a)). fst b \<noteq> BTRFS_SEND_A_DATA"
proof -
  show nodata: "\<forall>b \<in> set (ac_attrs (rebase off d a)). fst b \<noteq> BTRFS_SEND_A_DATA"
    using write_wf_attrs(3) [OF assms] by (auto dest!: set_offset_fst)
  then show "attrs_wf SendVersion2 (all_attrs (rebase off d a))"
    using attr_wf_set_offset [OF write_wf_attrs(1) [OF assms], of off]
    by (auto simp: attrs_wf_def all_attrs_data)
qed

lemma SendCommand_verify_dirty:
  assumes "write_wf mx a" and "off < 2 ^ 64" and "stale_fits D a"
  shows "SendCommand_verify x (wcmd k D a off d True) c = Inr ()"
proof (cases "serde_checks (ssuc_options c)")
  case False
  then show ?thesis by (simp add: SendCommand_verify_def)
next
  case True
  let ?b = "rebase off d a"
  let ?n = "word_of_nat (length (enc_attrs SendVersion2 (ac_attrs a)) + length D) :: u32"
  let ?h = "mk_header SendVersion2 ?n (ac_type a) k"
  let ?e = "enc_header ?n (ac_type a) k"
  have off: "acmd_offset ?b = Some off"
    using assms by (simp add: write_wf_def)
  have ver: "verify_attributes (sctx opts (Some (enc_payload SendVersion2 ?b)) 0 SendVersion2
        (Some (zeros (length (enc_payload SendVersion2 ?b)))) 0 SendVersion2)
        (10 + length (enc_payload SendVersion2 ?b)) parsed_none =
     Inr (\<lparr>p_data_attribute = Some (data_attr d),
           p_initial_size = Some (length (enc_attr SendVersion2 (BTRFS_SEND_A_DATA, d))),
           p_path = acmd_path a, p_start_offset = Some off\<rparr>,
       sctx opts (Some (enc_payload SendVersion2 ?b)) (length (enc_payload SendVersion2 ?b)) SendVersion2
        (Some (enc_payload SendVersion2 ?b)) (length (enc_payload SendVersion2 ?b)) SendVersion2)" for opts
    using verify_attributes_enc [OF acmd_wf_attrs_rebase(1) [OF assms(1), of off d], of
        "zeros (length (enc_payload SendVersion2 ?b))" opts "[]"]
      fold_cache_all_attrs [OF acmd_wf_attrs_rebase(2) [OF assms(1), of off d], of SendVersion2] off
    by (simp add: enc_payload_def)
  have eq: "SendCommand_eq (wcmd k D a off d True)
      \<lparr>sc_header = ?h, sc_buffer = ?e @ enc_payload SendVersion2 ?b,
       sc_data_attribute = Some (data_attr d),
       sc_data_attribute_initial_size = Some (length (enc_attr SendVersion2 (BTRFS_SEND_A_DATA, d))),
       sc_data_attribute_dirty = False, sc_path = acmd_path a, sc_start_offset = Some off,
       sc_uncompressed_size = us, sc_version = SendVersion2\<rparr> = Inr True" for us
    using assms(1)
    by (simp add: SendCommand_eq_def enc_payload_rebase opt_attribute_eq_def del: of_nat_add)
  show ?thesis
    using True
    by (simp add: SendCommand_verify_def verify_source_buffer_dirty [OF assms(1)] wire Let_def
        stale_size [OF assms(3)] ver splice_def eq del: of_nat_add)
qed

section \<open>Append and truncate\<close>

lemma SendCommand_can_append_wcmd:
  assumes "ac_type a = BTRFS_SEND_C_WRITE" and "ac_type a' = BTRFS_SEND_C_WRITE"
    and "off + length d < 2 ^ 64"
  shows "SendCommand_can_append (wcmd k D a off d b) (wcmd k' D' a' off' d' b') =
    Inr (acmd_path a = acmd_path a' \<and> off + length d = off')"
  using assms
  by (auto simp: SendCommand_can_append_def are_commands_appendable_def
      SendCommandHeader_is_appendable_def APPENDABLE_COMMAND_TYPES_def uadd_def)

lemma SendCommand_append_wcmd:
  assumes "write_wf mx a" and "ac_type a' = BTRFS_SEND_C_WRITE"
    and "off + length d < 2 ^ 64" and "acmd_path a = acmd_path a'"
    and "mx = maximum_batched_extent_size (ssuc_options c)" and "stale_fits D a"
  shows "SendCommand_append x (wcmd k D a off d b) c (wcmd k' D' a' (off + length d) d' b') =
    Inr (min (length d') (mx - length d), wcmd k D a off (d @ take (mx - length d) d') True)"
proof -
  have "ac_type a = BTRFS_SEND_C_WRITE" using assms(1) by (simp add: write_wf_def)
  then have can: "SendCommand_can_append (wcmd k D a off d b) (wcmd k' D' a' (off + length d) d' b') = Inr True"
    using assms by (simp add: SendCommand_can_append_wcmd)
  have ver: "SendCommand_verify x (wcmd k D a off e True) c = Inr ()" for e
    using assms(1,3,6) by (simp add: SendCommand_verify_dirty)
  show ?thesis
    using assms(5) ver by (simp add: SendCommand_append_def can wire Let_def wcmd_update)
qed

lemma truncate_wcmd:
  assumes "write_wf mx a" and "n \<le> length d" and "off + n < 2 ^ 64" and "stale_fits D a"
  shows "truncate_data_payload_at_start x (wcmd k D a off d b) c n =
    Inr (wcmd k D a (off + n) (drop n d) True)"
  using assms SendCommand_verify_dirty [OF assms(1,3,4)]
  by (simp add: truncate_data_payload_at_start_def wire uadd_ok Let_def wcmd_update wcmd_update_offset)

section \<open>Flush\<close>

lemma flush_pre_data_wcmd:
  assumes "write_wf mx a" and "get_destination_version c = Inr SendVersion2"
    and "b \<or> allow_clean" and "length h = 10" and "stale_fits D a"
  shows "flush_pre_data_to_buffer (wcmd k D a off d b) c
      (h @ zeros (length (enc_attrs SendVersion2 (ac_attrs a))) @ rest) allow_clean =
    Inr (h @ enc_attrs SendVersion2 (set_offset off (ac_attrs a)) @ rest)"
  using assms flush_attributes_write [OF assms(1)]
  by (auto simp: flush_pre_data_to_buffer_def splice_def ensure_def stale_size wire simp del: of_nat_add)

lemma flush_header_to_buffer_none:
  assumes "get_destination_version c = Inr v" and "length h = 10"
  shows "flush_header_to_buffer x c (h @ payload)
      \<lparr>sch_size = Some n, sch_command_type = t, sch_crc32c = crc, sch_version = v\<rparr> =
    (if crc = None \<or> crc = Some 0
     then Inr (enc_header n t (compute_crc32c x (enc_header n t 0 @ payload)) @ payload,
               mk_header v n t (compute_crc32c x (enc_header n t 0 @ payload)))
     else Inl (Bail (Elem CrcAlreadySet)))"
  using assms
  by (auto simp: flush_header_to_buffer_def SendCommandHeader_persist_sctx set_crc32c_def mk_header_def
      ensure_def split: option.splits)

lemma usub32_total:
  "n + 10 < 2 ^ 32 \<Longrightarrow> usub32 (word_of_nat (10 + n)) (word_of_nat 10) = Inr (word_of_nat n)"
  using unat_word_of_nat32 [of "10 + n"] by (auto simp: usub32_def word_le_nat_alt)

text \<open>Flushing a dirty write gives the clean command of what it stands for.\<close>

lemma SendCommand_flush_wcmd:
  assumes "write_wf mx a" and "get_destination_version c = Inr SendVersion2" and "off < 2 ^ 64"
    and "length (enc_attrs SendVersion2 (ac_attrs a)) + length d + 12 < 2 ^ 32" and "stale_fits D a"
  shows "SendCommand_flush x (wcmd k D a off d True) c =
    Inr (mk_command x SendVersion2 (rebase off d a))"
proof -
  let ?pre = "enc_attrs SendVersion2 (ac_attrs a)"
  let ?D = "enc_attr SendVersion2 (BTRFS_SEND_A_DATA, d)"
  let ?b = "rebase off d a"
  let ?n = "word_of_nat (length (enc_payload SendVersion2 ?b)) :: u32"
  let ?crc = "acmd_crc x SendVersion2 ?b"
  have len: "length (enc_payload SendVersion2 ?b) = length ?pre + length ?D"
    using assms(1) by (simp add: enc_payload_rebase)
  have size: "usub32 (word_of_nat (10 + length ?pre + length ?D)) (word_of_nat 10) = Inr ?n"
    using usub32_total [of "length ?pre + length ?D"] assms(4)
    by (simp only: len) (simp add: add_ac length_enc_attr)
  have z: "zeros (10 + length ?pre + length ?D) = zeros 10 @ zeros (length ?pre) @ zeros (length ?D)"
    by (simp only: replicate_add append_assoc)
  have fp: "flush_pre_data_to_buffer (wcmd k D a off d True) c (zeros (10 + length ?pre + length ?D)) False =
      Inr (zeros 10 @ enc_attrs SendVersion2 (set_offset off (ac_attrs a)) @ zeros (length ?D))"
    unfolding z using flush_pre_data_wcmd [OF assms(1,2) _ _ assms(5)] by simp
  have hdr: "flush_header_to_buffer x c (zeros 10 @ enc_payload SendVersion2 ?b)
      \<lparr>sch_size = Some ?n, sch_command_type = ac_type a, sch_crc32c = Some 0, sch_version = SendVersion2\<rparr> =
      Inr (enc_command x SendVersion2 ?b, mk_header SendVersion2 ?n (ac_type a) ?crc)"
    using flush_header_to_buffer_none [OF assms(2), of "zeros 10"]
    by (simp add: enc_command_def enc_with_crc_def acmd_crc_def)
  have mk: "(wcmd k D a off d True)\<lparr>sc_header := mk_header SendVersion2 ?n (ac_type a) ?crc,
      sc_buffer := enc_command x SendVersion2 ?b, sc_data_attribute_initial_size := Some (length ?D),
      sc_data_attribute_dirty := False\<rparr> = mk_command x SendVersion2 ?b"
    using assms by (simp add: wcmd_def mk_command_def len write_wf_def length_enc_attr Let_def)
  have h: "(mk_header SendVersion2 n t crc)\<lparr>sch_crc32c := Some 0, sch_size := Some m\<rparr> =
      \<lparr>sch_size = Some m, sch_command_type = t, sch_crc32c = Some 0, sch_version = SendVersion2\<rparr>" for n t crc m
    by (simp add: mk_header_def)
  show ?thesis
    using assms
    by (simp add: SendCommand_flush_def SendCommandHeader_copy_def Let_def set_size_def wire splice_def
        stale_size [OF assms(5)] size fp h hdr mk enc_payload_rebase [symmetric] del: of_nat_add of_nat_numeral)
qed

section \<open>Range copies\<close>

text \<open>Copying a range of a clean write gives a dirty write of that range; the data region of its
  buffer is left blank until it is flushed.\<close>

lemma SendCommand_copy_range_mk:
  assumes "write_wf mx a" and "acmd_offset a = Some off" and "ac_data a = Some d"
    and "acmd_path a \<noteq> None" and "off + length d < 2 ^ 64" and "i + n \<le> length d"
    and "get_destination_version c = Inr SendVersion2"
  shows "SendCommand_copy_range x (mk_command x SendVersion2 a) c i (i + n) =
    Inr (wcmd 0 (zeros (2 + n)) a (off + i) (take n (drop i d)) True)"
proof -
  let ?pre = "enc_attrs SendVersion2 (ac_attrs a)"
  let ?D = "enc_attr SendVersion2 (BTRFS_SEND_A_DATA, d)" and ?d = "take n (drop i d)"
  let ?w = "word_of_nat (2 + (length ?pre + n)) :: u32"
  note clean = wcmd_clean [OF assms(1-3)]
  obtain path where path: "acmd_path a = Some path" using assms(4) by auto
  have len: "length (enc_attr SendVersion2 (BTRFS_SEND_A_DATA, e)) = 2 + length e" for e
    by (simp add: length_enc_attr)
  have fits: "stale_fits (zeros (2 + n)) a"
    using clean(2) assms(6) by (simp add: stale_fits_def len)
  have same: "set_offset off (ac_attrs a) = ac_attrs a"
    using rebase_same [OF assms(1-3)] by (metis rebase_simps(2))
  have ty: "ac_type a = BTRFS_SEND_C_WRITE" using assms(1) by (simp add: write_wf_def)
  have size: "get_command_payload_size (sc_header (wcmd k ?D a off d False)) = Inr (length ?pre + (2 + length d))"
    for k
    using stale_size [OF clean(2)] by (simp add: len del: of_nat_add)
  have copy: "SendCommandHeader_copy (sc_header (wcmd k ?D a off d False)) (Some w) =
      Inr (mk_header SendVersion2 w (ac_type a) 0)" for k w
    by (simp add: SendCommandHeader_copy_def mk_header_def del: of_nat_add)
  have hdr: "SendCommandHeader_persist (mk_header SendVersion2 ?w (ac_type a) 0)
      (sctx opts None 0 SendVersion2 (Some (zeros 10)) 0 SendVersion2) True =
      Inr (sctx opts None 0 SendVersion2 (Some (enc_header ?w (ac_type a) 0)) 10 SendVersion2)" for opts
    by (simp add: wire del: of_nat_add)
  have z: "zeros (2 + (length ?pre + n)) = zeros (length ?pre) @ zeros (2 + n)"
    by (simp add: replicate_add [symmetric] ac_simps)
  have flush: "flush_pre_data_to_buffer (wcmd k ?D a off d False) c
      (enc_header ?w (ac_type a) 0 @ zeros (2 + (length ?pre + n))) True =
      Inr (enc_header ?w (ac_type a) 0 @ ?pre @ zeros (2 + n))" for k
    unfolding z using flush_pre_data_wcmd [OF assms(1,7) _ _ clean(2), of False True] same by simp
  have result: "\<lparr>sc_header = mk_header SendVersion2 ?w (ac_type a) 0,
      sc_buffer = enc_header ?w (ac_type a) 0 @ ?pre @ zeros (2 + n),
      sc_data_attribute = Some (data_attr ?d), sc_data_attribute_initial_size = Some (2 + n),
      sc_data_attribute_dirty = True, sc_path = Some path, sc_start_offset = Some (off + i),
      sc_uncompressed_size = 12 + (length ?pre + n), sc_version = SendVersion2\<rparr> =
      wcmd 0 (zeros (2 + n)) a (off + i) ?d True"
    using assms(6) by (simp add: wcmd_def Let_def path ac_simps del: of_nat_add)
  have ver: "SendCommand_verify x (wcmd 0 (zeros (2 + n)) a (off + i) ?d True) c = Inr ()"
    using assms by (intro SendCommand_verify_dirty [OF assms(1) _ fits]) simp
  have app: "SendCommand_is_appendable (wcmd k ?D a off d False)" for k
    by (simp add: SendCommand_is_appendable_def SendCommandHeader_is_appendable_def
        APPENDABLE_COMMAND_TYPES_def ty)
  have arith: "usub (10 + (length ?pre + (2 + length d)) + n) (length d) = Inr (12 + (length ?pre + n))"
    "usub (12 + (length ?pre + n)) 10 = Inr (2 + (length ?pre + n))" "usub (i + n) i = Inr n"
    by simp_all
  have data: "length (enc_attr SendVersion2 (BTRFS_SEND_A_DATA, ?d)) = 2 + n"
    "SendAttribute_copy_range (data_attr d) c i (i + n) = Inr (data_attr ?d)"
    using assms(6) SendAttribute_copy_range_mk [of i "i + n" d] by (simp_all add: len)
  show ?thesis
    unfolding clean(1) [symmetric] SendCommand_copy_range_def
    using assms(5,6)
    by (simp add: app size copy arith hdr flush result ver data path uadd_ok splice_def Let_def
        del: of_nat_add wcmd_header wcmd_buffer header_accessors_mk add_2_eq_Suc add_2_eq_Suc')
qed

end
