(* ===== verification/Send_Stream.thy ===== *)
theory Send_Stream
  imports Command
begin

text \<open>
  \<open>upgrade/send_stream.rs\<close>: reading the stream header, fixing the versions, and the
  single-threaded loop that upgrades, batches, compresses and writes the commands.
\<close>

section \<open>The input left to read\<close>

text \<open>The measure of the main loop: what a context can still read, at most.\<close>

definition chunk_length :: "chunk \<Rightarrow> nat" where
  "chunk_length k = (case k of Chunk bs \<Rightarrow> length bs | ReadFails \<Rightarrow> 0)"

definition source_remaining :: "SendStreamUpgradeSource \<Rightarrow> nat" where
  "source_remaining s =
     (case ssus_source s of
        SssBufReader r \<Rightarrow> sum_list (map chunk_length r)
      | SssReader r \<Rightarrow> sum_list (map chunk_length r)
      | SssSliceReader sl \<Rightarrow> length sl - ssus_offset s
      | SssReadOnceBufferCache cache \<Rightarrow> sum_list (map snd (robcm_bytes_remaining cache))
      | SssNoSource \<Rightarrow> 0)"

abbreviation context_remaining :: "ctx \<Rightarrow> nat" where
  "context_remaining c \<equiv> source_remaining (ssuc_source c)"

lemma reader_read_remaining:
  "reader_read r n = Inr (bs, r') \<Longrightarrow>
   sum_list (map chunk_length r') + length bs = sum_list (map chunk_length r)"
  by (induction r n rule: reader_read.induct) (auto simp: chunk_length_def split: if_splits)

lemma read_loop_remaining:
  "read_loop r n = Inr (bs, r') \<Longrightarrow>
   sum_list (map chunk_length r') + length bs = sum_list (map chunk_length r)"
proof (induction r n arbitrary: bs r' rule: read_loop.induct)
  case (1 r n)
  show ?case
  proof (cases "n = 0")
    case True
    with "1.prems" show ?thesis by (simp add: read_loop.simps)
  next
    case False
    with "1.prems" obtain b1 r1 where b1: "reader_read r n = Inr (b1, r1)"
      by (auto simp: read_loop.simps [of r n] result_simps)
    show ?thesis
    proof (cases "b1 = []")
      case True
      with "1.prems" b1 False show ?thesis
        by (auto simp: read_loop.simps [of r n] dest: reader_read_remaining)
    next
      case ne: False
      with "1.prems" b1 False obtain rest r2 where "read_loop r1 (n - length b1) = Inr (rest, r2)"
        and "bs = b1 @ rest" "r' = r2"
        by (auto simp: read_loop.simps [of r n] result_simps)
      with "1.IH" [OF False b1 refl ne] reader_read_remaining [OF b1] show ?thesis by simp
    qed
  qed
qed

lemma sum_list_update:
  "map_of xs k = Some cur \<Longrightarrow>
   sum_list (map snd (AList.update k v xs)) + cur = sum_list (map snd xs) + (v :: nat)"
  by (induction xs) (auto split: if_splits)

lemma sum_list_delete:
  "map_of xs k = Some cur \<Longrightarrow> sum_list (map snd (AList.delete k xs)) + cur \<le> sum_list (map snd xs :: nat list)"
proof (induction xs)
  case Nil
  then show ?case by simp
next
  case (Cons kv xs)
  have le: "sum_list (map snd (AList.delete k xs)) \<le> sum_list (map snd xs)"
    by (induction xs) (auto simp: AList.delete_eq split: prod.splits)
  show ?case using Cons le by (cases kv) (auto simp: AList.delete_eq split: if_splits)
qed

lemma update_bytes_read_remaining:
  assumes "update_bytes_read c key n = (Inr u, c')"
  shows "sum_list (map snd (robcm_bytes_remaining c')) + n \<le> sum_list (map snd (robcm_bytes_remaining c))"
proof -
  from assms obtain cur where cur: "map_of (robcm_bytes_remaining c) key = Some cur" and "n \<le> cur"
    by (auto simp: update_bytes_read_def split: if_splits option.splits)
  with assms sum_list_update [OF cur, of "cur - n"] sum_list_delete [OF cur] show ?thesis
    by (auto simp: update_bytes_read_def Let_def split: if_splits)
qed

lemma read_exact_turn_remaining:
  assumes "read_exact_turn c address want = (Inr bs, c')"
  shows "sum_list (map snd (robcm_bytes_remaining c')) + length bs
         \<le> sum_list (map snd (robcm_bytes_remaining c))"
  using assms
  by (auto simp: read_exact_turn_def Let_def split: if_splits sum.splits prod.splits
      dest: update_bytes_read_remaining)

lemma cache_read_exact_remaining:
  "ReadOnceBufferCache_read_exact c n address = (Inr bs, c') \<Longrightarrow>
   sum_list (map snd (robcm_bytes_remaining c')) + length bs
   \<le> sum_list (map snd (robcm_bytes_remaining c))"
proof (induction c n address arbitrary: bs c' rule: ReadOnceBufferCache_read_exact.induct)
  case (1 c n address)
  show ?case
  proof (cases "n = 0")
    case True
    with "1.prems" show ?thesis by (simp add: ReadOnceBufferCache_read_exact.simps)
  next
    case False
    with "1.prems" obtain b1 c1 rest where b1: "read_exact_turn c address n = (Inr b1, c1)"
      and rest: "ReadOnceBufferCache_read_exact c1 (n - length b1) (address + length b1) = (Inr rest, c')"
      and bs: "bs = b1 @ rest"
      by (auto simp: ReadOnceBufferCache_read_exact.simps [of c n address]
          split: prod.splits sum.splits)
    from "1.IH" [OF False b1 [symmetric] refl rest] read_exact_turn_remaining [OF b1] bs
    show ?thesis by simp
  qed
qed

lemma read_exact_remaining:
  assumes "read_exact c n = Inr (bs, c')"
  shows "context_remaining c' + n \<le> context_remaining c"
  using assms
  by (auto simp: read_exact_def Context_read_def Source_read_def source_remaining_def result_simps
      split: SendStreamSource.splits prod.splits sum.splits
      dest: read_loop_remaining cache_read_exact_remaining)

lemma SendCommand_new_remaining:
  assumes "SendCommand_new x c = Inr (s, c')"
  shows "context_remaining c' < context_remaining c"
  using assms
  by (auto simp: SendCommand_new_def SendCommandHeader_new_def SendCommand_new_from_header_def
      read32_def read16_def Let_def result_simps dest!: read_exact_remaining split: if_splits)

lemma SendCommand_persist_source: "SendCommand_persist x s c = Inr c' \<Longrightarrow> ssuc_source c' = ssuc_source c"
  by (auto simp: SendCommand_persist_def persist_pad_def Let_def result_simps
      split: if_splits dest!: write_all_frame(1))

section \<open>The single-threaded loop\<close>

text \<open>Writing out a batch: compressed if that is possible and shrinks it, otherwise flushed
  if it is dirty.\<close>

definition flush_and_persist :: "externs \<Rightarrow> SendCommand \<Rightarrow> ctx \<Rightarrow> ctx result" where
  "flush_and_persist x previous_command c =
     rbind (if sc_data_attribute_dirty previous_command then SendCommand_flush x previous_command c
            else Inr previous_command) (\<lambda>previous_command.
     SendCommand_persist x previous_command c)"

definition persist_previous :: "externs \<Rightarrow> SendCommand \<Rightarrow> ctx \<Rightarrow> ctx result" where
  "persist_previous x previous_command c =
     (if SendCommand_is_compressible previous_command \<and> compression_level (ssuc_options c) \<noteq> 0 then
        case SendCommand_compress x previous_command c of
          Inr compressed_command \<Rightarrow> SendCommand_persist x compressed_command c
        | Inl (FailedToShrinkPayload _ _ _) \<Rightarrow> flush_and_persist x previous_command c
        | Inl e \<Rightarrow> Inl e
      else flush_and_persist x previous_command c)"

text \<open>The match on the previous command: append what fits, and write the batch out if it is
  full or something of the current command is left.\<close>

definition merge_previous ::
  "externs \<Rightarrow> SendCommand option \<Rightarrow> SendCommand \<Rightarrow> ctx \<Rightarrow>
   (SendCommand option \<times> SendCommand \<times> ctx) result" where
  "merge_previous x previous_command_option command c =
     (case previous_command_option of
        None \<Rightarrow> Inr (None, command, c)
      | Some previous_command \<Rightarrow>
          rbind (SendCommand_can_append previous_command command) (\<lambda>can_append.
          rbind (if can_append then
                   rbind (SendCommand_append x previous_command c command)
                     (\<lambda>(logical_bytes_appended, previous_command).
                   rbind (truncate_data_payload_at_start x command c logical_bytes_appended) (\<lambda>command.
                   Inr (previous_command, command)))
                 else Inr (previous_command, command)) (\<lambda>(previous_command, command).
          if SendCommand_is_full previous_command c \<or> \<not> SendCommand_is_empty command then
            rbind (persist_previous x previous_command c) (\<lambda>c1. Inr (None, command, c1))
          else Inr (Some previous_command, command, c))))"

definition upgrade_command :: "externs \<Rightarrow> SendCommand \<Rightarrow> ctx \<Rightarrow> SendCommand result" where
  "upgrade_command x command c =
     rbind (SendCommand_is_upgradeable command c) (\<lambda>upgradeable.
     if upgradeable then SendCommand_upgrade x command c else SendCommand_fake_an_upgrade command c)"

lemma persist_previous_source:
  assumes "persist_previous x s c = Inr c'"
  shows "ssuc_source c' = ssuc_source c"
  using assms
  by (auto simp: persist_previous_def flush_and_persist_def result_simps
      split: if_splits sum.splits error.splits dest!: SendCommand_persist_source)

lemma merge_previous_source:
  assumes "merge_previous x p s c = Inr (p', s', c')"
  shows "ssuc_source c' = ssuc_source c"
  using assms
  by (auto simp: merge_previous_def result_simps split: option.splits if_splits
      dest!: persist_previous_source)

function upgrade_commands_single_threaded ::
  "externs \<Rightarrow> SendCommand option \<Rightarrow> ctx \<Rightarrow> ctx result" where
  "upgrade_commands_single_threaded x previous_command_option c =
     rbind (SendCommand_new x c) (\<lambda>(command, c1).
     rbind (upgrade_command x command c1) (\<lambda>command.
     rbind (merge_previous x previous_command_option command c1)
       (\<lambda>(previous_command_option, command, c2).
     if SendCommand_is_end command then SendCommand_persist x command c2
     else if \<not> SendCommand_is_appendable command then
       rbind (SendCommand_persist x command c2) (\<lambda>c3.
       ensure (previous_command_option = None) (Cmd UnexpectedPreviousCommand)
         (upgrade_commands_single_threaded x None c3))
     else if \<not> SendCommand_is_empty command then
       upgrade_commands_single_threaded x (Some command) c2
     else upgrade_commands_single_threaded x previous_command_option c2)))"
  by pat_completeness auto
termination
  by (relation "measure (\<lambda>(x, p, c). context_remaining c)")
    (auto dest!: SendCommand_new_remaining merge_previous_source SendCommand_persist_source)

declare upgrade_commands_single_threaded.simps [simp del]

section \<open>Send streams\<close>

definition SendStream_set_versions :: "ctx \<Rightarrow> ctx result" where
  "SendStream_set_versions c =
     rbind (SendHeader_new c) (\<lambda>(header, c1).
     SendHeader_persist_header (set_versions c1 (sh_version header) SendVersion2))"

text \<open>\<open>SendStream::new\<close> and \<open>SendStream::upgrade\<close> in single-threaded mode.\<close>

definition SendStream_upgrade_single_threaded ::
  "externs \<Rightarrow> SendStreamUpgradeOptions \<Rightarrow> reader result \<Rightarrow> (bytes \<times> nat option) result \<Rightarrow> ctx result"
where
  "SendStream_upgrade_single_threaded x options opened_input opened_output =
     rbind (Context_new options opened_input opened_output) (\<lambda>c.
     rbind (SendStream_set_versions c) (\<lambda>c1.
     upgrade_commands_single_threaded x None c1))"

end
