(* ===== verification/Command_Ops.thy ===== *)
theory Command_Ops
  imports Write_Command Send_Stream
begin

text \<open>
  Upgrade, compression and padding on abstract commands: upgrading re-encodes a command in
  version 2, compressing turns a write into an encoded write, and a pad command brings the data
  of the next write to a block boundary.
\<close>

section \<open>Upgrade\<close>

text \<open>What the tool is given: in a version 1 stream only writes carry data.\<close>

definition input_wf :: "SendVersion \<Rightarrow> acmd \<Rightarrow> bool" where
  "input_wf sv a \<longleftrightarrow>
     acmd_wf sv a \<and> (sv = SendVersion1 \<longrightarrow> ac_type a \<noteq> BTRFS_SEND_C_WRITE \<longrightarrow> ac_data a = None)"

lemma length_enc_attrs_le:
  "length (enc_attrs SendVersion2 as) \<le> length (enc_attrs v as)"
  by (induction as) (auto simp: length_enc_attr sizeless_def intro: add_mono)

lemma length_enc_payload_le: "length (enc_payload SendVersion2 a) \<le> length (enc_payload v a)"
  by (simp add: enc_payload_def length_enc_attrs_le)

lemma attr_wf_upgrade: "attr_wf v b \<Longrightarrow> attr_wf SendVersion2 b"
  by (auto simp: attr_wf_def attr_fits_def sizeless_def)

lemma acmd_wf_upgrade:
  assumes "acmd_wf v a"
  shows "acmd_wf SendVersion2 a"
proof -
  have "\<forall>b \<in> set (all_attrs a). attr_wf SendVersion2 b"
    using assms by (auto simp: acmd_wf_def intro: attr_wf_upgrade)
  with assms length_enc_payload_le [of a v] show ?thesis
    by (simp add: acmd_wf_def)
qed

lemma is_command_upgradeable_mk:
  assumes "get_destination_version c = Inr SendVersion2"
  shows "is_command_upgradeable (mk_header v n t crc) c =
    Inr (v = SendVersion1 \<and> t = BTRFS_SEND_C_WRITE)"
  using assms by (cases v) (auto simp: is_command_upgradeable_def UPGRADEABLE_COMMAND_TYPES_def)

lemma fold_upgrade_data:
  assumes "\<forall>b \<in> set (ac_attrs a). fst b \<noteq> BTRFS_SEND_A_DATA"
  shows "fold (\<lambda>a d. if fst a = BTRFS_SEND_A_DATA
        then (Some (mk_attr SendVersion2 a), Some (length (enc_attr SendVersion2 a))) else d)
      (all_attrs a) (None, None) =
    (map_option (\<lambda>d. data_attr d) (ac_data a),
     map_option (\<lambda>d. length (enc_attr SendVersion2 (BTRFS_SEND_A_DATA, d))) (ac_data a))"
proof -
  have "fold (\<lambda>a d. if fst a = BTRFS_SEND_A_DATA
        then (Some (mk_attr SendVersion2 a), Some (length (enc_attr SendVersion2 a))) else d) as p = p"
    if "\<forall>b \<in> set as. fst b \<noteq> BTRFS_SEND_A_DATA" for as p
    using that by (induction as) auto
  with assms show ?thesis
    by (auto simp: all_attrs_def split: option.splits)
qed

lemma SendCommand_upgrade_mk:
  assumes "acmd_wf SendVersion1 a" and "ac_type a = BTRFS_SEND_C_WRITE"
    and "get_destination_version c = Inr SendVersion2"
  shows "SendCommand_upgrade x (mk_command x SendVersion1 a) c = Inr (mk_command x SendVersion2 a)"
proof -
  let ?p1 = "enc_payload SendVersion1 a" and ?p2 = "enc_payload SendVersion2 a"
  let ?n = "word_of_nat (length ?p2) :: u32"
  have wf2: "acmd_wf SendVersion2 a" using acmd_wf_upgrade [OF assms(1)] .
  have le: "length ?p2 \<le> length ?p1" by (rule length_enc_payload_le)
  have loop: "upgrade_attributes c (sctx opts (Some ?p1) 0 SendVersion1 (Some (zeros (length ?p1))) 0
        SendVersion2) (10 + length ?p1) (None, None) =
     Inr ((map_option (\<lambda>d. data_attr d) (ac_data a),
           map_option (\<lambda>d. length (enc_attr SendVersion2 (BTRFS_SEND_A_DATA, d))) (ac_data a)),
       sctx opts (Some ?p1) (length ?p1) SendVersion1 (Some (?p2 @ zeros (length ?p1 - length ?p2)))
        (length ?p2) SendVersion2)" for opts
    using upgrade_attributes_enc [OF acmd_wf_attrs [OF assms(1)] assms(3), of "zeros (length ?p1)"
        opts "[]" "[]" "(None, None)"] fold_upgrade_data [OF acmd_wf_no_data [OF assms(1)]] le
    by (simp add: enc_payload_def)
  have size: "usub32 (word_of_nat (length ?p2 + 10)) (word_of_nat 10) = Inr ?n"
    using usub32_total [of "length ?p2"] wf2 by (simp add: acmd_wf_def add.commute)
  have crc: "compute_crc32c x (enc_with_crc SendVersion2 a 0) = acmd_crc x SendVersion2 a"
    by (simp add: acmd_crc_def)
  have buf: "drop 10 (enc_command x SendVersion1 a) = ?p1"
    by (simp add: enc_command_def enc_with_crc_def)
  let ?h = "\<lambda>crc. \<lparr>sch_size = Some ?n, sch_command_type = ac_type a, sch_crc32c = crc,
      sch_version = SendVersion2\<rparr>"
  have per: "SendCommandHeader_persist (?h crc) (sctx opts r i sv (Some z) 0 SendVersion2) skip =
      Inr (sctx opts r i sv (Some (enc_with_crc SendVersion2 a (if skip then 0 else the crc))) 10 SendVersion2)"
    if "10 \<le> length z" "drop 10 z = ?p2" "skip \<or> crc \<noteq> None" for crc opts r i sv z skip
    using that by (simp add: SendCommandHeader_persist_sctx enc_with_crc_def)
  have up: "SendCommandHeader_upgrade (mk_header SendVersion1 m (ac_type a) k) c =
      Inr \<lparr>sch_size = None, sch_command_type = ac_type a, sch_crc32c = None, sch_version = SendVersion2\<rparr>"
    for m k
    using assms
    by (simp add: SendCommandHeader_upgrade_def is_command_upgradeable_mk)
  have upgradeable: "is_command_upgradeable (mk_header SendVersion1 m (ac_type a) k) c = Inr True" for m k
    using assms by (simp add: is_command_upgradeable_mk)
  have mk: "(mk_command x SendVersion1 a)\<lparr>sc_header := ?h (Some (acmd_crc x SendVersion2 a)),
      sc_buffer := enc_with_crc SendVersion2 a (acmd_crc x SendVersion2 a),
      sc_data_attribute := map_option (\<lambda>d. data_attr d) (ac_data a),
      sc_data_attribute_initial_size :=
        map_option (\<lambda>d. length (enc_attr SendVersion2 (BTRFS_SEND_A_DATA, d))) (ac_data a),
      sc_data_attribute_dirty := False, sc_uncompressed_size := length ?p2 + 10,
      sc_version := SendVersion2\<rparr> = mk_command x SendVersion2 a"
    by (simp add: mk_command_def mk_header_def enc_command_def)
  show ?thesis
    using assms(1,3) SendCommand_verify_clean [OF wf2]
    by (simp add: SendCommand_upgrade_def SendCommand_is_upgradeable_def upgradeable up buf Let_def
        loop size set_size_def set_crc32c_def splice_def per crc enc_with_crc_parts(1) mk del: of_nat_add of_nat_numeral)
qed

lemma SendCommand_fake_an_upgrade_mk:
  assumes "v = SendVersion2 \<or> ac_type a \<noteq> BTRFS_SEND_C_WRITE \<and> ac_data a = None"
    and "acmd_wf v a" and "get_destination_version c = Inr SendVersion2"
  shows "SendCommand_fake_an_upgrade (mk_command x v a) c = Inr (mk_command x SendVersion2 a)"
proof -
  have "enc_payload v a = enc_payload SendVersion2 a"
    using assms(1) enc_attrs_version [OF acmd_wf_no_data [OF assms(2)]]
    by (auto simp: enc_payload_def all_attrs_def)
  then have eq: "(mk_command x v a)\<lparr>sc_header := (mk_header v (word_of_nat (length (enc_payload v a)))
      (ac_type a) (acmd_crc x v a))\<lparr>sch_version := SendVersion2\<rparr>, sc_version := SendVersion2\<rparr> =
    mk_command x SendVersion2 a"
    using assms(1)
    by (auto simp: mk_command_def mk_header_def acmd_crc_def enc_command_def enc_with_crc_def)
  show ?thesis
    using assms(1,3) eq
    by (auto simp: SendCommand_fake_an_upgrade_def SendCommand_is_upgradeable_def
        SendCommandHeader_fake_an_upgrade_def is_command_upgradeable_mk)
qed

text \<open>Either way, the result is the command encoded in version 2.\<close>

lemma upgrade_command_mk:
  assumes "input_wf sv a" and "get_destination_version c = Inr SendVersion2"
  shows "upgrade_command x (mk_command x sv a) c = Inr (mk_command x SendVersion2 a)"
proof (cases "sv = SendVersion1 \<and> ac_type a = BTRFS_SEND_C_WRITE")
  case True
  with assms show ?thesis
    by (simp add: upgrade_command_def SendCommand_is_upgradeable_def is_command_upgradeable_mk
        SendCommand_upgrade_mk input_wf_def)
next
  case False
  then have "sv = SendVersion2 \<or> ac_type a \<noteq> BTRFS_SEND_C_WRITE \<and> ac_data a = None"
    using assms(1) by (cases sv) (auto simp: input_wf_def)
  with False assms show ?thesis
    by (auto simp: upgrade_command_def SendCommand_is_upgradeable_def is_command_upgradeable_mk
        SendCommand_fake_an_upgrade_mk input_wf_def)
qed

section \<open>Compression\<close>

definition encoding_attrs :: "nat \<Rightarrow> attr list" where
  "encoding_attrs n =
     [(BTRFS_SEND_A_UNENCODED_FILE_LEN, le64 (word_of_nat n)),
      (BTRFS_SEND_A_UNENCODED_LEN, le64 (word_of_nat n)),
      (BTRFS_SEND_A_UNENCODED_OFFSET, le64 0),
      (BTRFS_SEND_A_COMPRESSION, le32 BTRFS_ENCODED_IO_COMPRESSION_ZSTD)]"

text \<open>The encoded write that carries the compressed payload \<open>z\<close> of \<open>n\<close> bytes.\<close>

definition encoded_write :: "nat \<Rightarrow> bytes \<Rightarrow> acmd \<Rightarrow> acmd" where
  "encoded_write n z a =
     \<lparr>ac_type = BTRFS_SEND_C_ENCODED_WRITE, ac_attrs = ac_attrs a @ encoding_attrs n, ac_data = Some z\<rparr>"

lemma length_encoding_attrs: "length (enc_attrs SendVersion2 (encoding_attrs n)) = 44"
  by (simp add: encoding_attrs_def length_enc_attr sizeless_def)

lemma compress_put_u64_sctx:
  assumes "length pre = j" and "\<not> sizeless SendVersion2 t"
  shows "compress_put_u64 (sctx opts r i SendVersion2 (Some (pre @ rest)) j SendVersion2) t n =
    (if 12 \<le> length rest
     then Inr (sctx opts r i SendVersion2
            (Some ((pre @ enc_attr SendVersion2 (t, le64 n)) @ drop 12 rest)) (j + 12) SendVersion2)
     else Inl (FailedToShrinkPayload (j + length rest) (j + 12) 0))"
  using assms by (simp add: compress_put_u64_def wire length_enc_attr)

lemma compress_put_u32_sctx:
  assumes "length pre = j" and "\<not> sizeless SendVersion2 t"
  shows "compress_put_u32 (sctx opts r i SendVersion2 (Some (pre @ rest)) j SendVersion2) t n =
    (if 8 \<le> length rest
     then Inr (sctx opts r i SendVersion2
            (Some ((pre @ enc_attr SendVersion2 (t, le32 n)) @ drop 8 rest)) (j + 8) SendVersion2)
     else Inl (FailedToShrinkPayload (j + length rest) (j + 8) 0))"
  using assms by (simp add: compress_put_u32_def wire length_enc_attr)

text \<open>The attributes that describe the encoding either all fit, or the attempt ends with the
  error that the payload did not shrink.\<close>

definition compress_metadata :: "nat \<Rightarrow> ctx \<Rightarrow> ctx result" where
  "compress_metadata n c =
     rbind (compress_put_u64 c BTRFS_SEND_A_UNENCODED_FILE_LEN (word_of_nat n)) (\<lambda>c.
     rbind (compress_put_u64 c BTRFS_SEND_A_UNENCODED_LEN (word_of_nat n)) (\<lambda>c.
     rbind (compress_put_u64 c BTRFS_SEND_A_UNENCODED_OFFSET 0) (\<lambda>c.
     compress_put_u32 c BTRFS_SEND_A_COMPRESSION BTRFS_ENCODED_IO_COMPRESSION_ZSTD)))"

lemma compress_metadata_sctx:
  assumes "44 \<le> length ws"
  shows "compress_metadata n (sctx opts r i SendVersion2 (Some ws) 0 SendVersion2) =
    Inr (sctx opts r i SendVersion2 (Some (enc_attrs SendVersion2 (encoding_attrs n) @ drop 44 ws)) 44 SendVersion2)"
  using assms compress_put_u64_sctx [of "[]" 0 _ opts r i ws, simplified]
  by (simp add: compress_metadata_def compress_put_u64_sctx compress_put_u32_sctx sizeless_def
      length_enc_attr encoding_attrs_def del: append_assoc) auto

lemma compress_metadata_small:
  assumes "length ws < 44"
  shows "\<exists>m k. compress_metadata n (sctx opts r i SendVersion2 (Some ws) 0 SendVersion2) =
    Inl (FailedToShrinkPayload (length ws) m k)"
proof -
  note put = compress_put_u64_sctx [of "[]" 0 _ opts r i ws, simplified] compress_put_u64_sctx
    compress_put_u32_sctx
  consider "length ws < 12" | "12 \<le> length ws" "length ws < 24" | "24 \<le> length ws" "length ws < 36"
    | "36 \<le> length ws" by linarith
  then show ?thesis
    using assms by cases (simp_all add: compress_metadata_def put sizeless_def length_enc_attr
        Nat.le_diff_conv2 del: append_assoc)
qed

lemma compress_data_region_steps:
  "compress_data_region x da c =
     rbind (compress_metadata (sa_uncompressed_payload_size da) c) (\<lambda>sub_context.
     let extra_bytes_written = get_write_offset sub_context - get_write_offset c
     in rbind (SendAttribute_compress x da sub_context extra_bytes_written) (\<lambda>compressed_attribute.
     rbind (SendAttribute_persist compressed_attribute sub_context) (\<lambda>sub_context.
     Inr (compressed_attribute, sub_context, get_write_offset sub_context - get_write_offset c))))"
  by (simp add: compress_data_region_def compress_metadata_def rbind_assoc Let_def)

text \<open>The data attribute of a compressed write remembers its uncompressed sizes.\<close>

definition compressed_attr :: "bytes \<Rightarrow> bytes \<Rightarrow> SendAttribute" where
  "compressed_attr d z =
     (data_attr z)\<lparr>sa_uncompressed_size := length d + 2, sa_uncompressed_payload_size := length d\<rparr>"

lemma compressed_attr_simps [simp]:
  "sa_buffer (compressed_attr d z) = enc_attr SendVersion2 (BTRFS_SEND_A_DATA, z)"
  "sa_version (compressed_attr d z) = SendVersion2"
  "SendAttribute_get_size (compressed_attr d z) = length (enc_attr SendVersion2 (BTRFS_SEND_A_DATA, z))"
  by (simp_all add: compressed_attr_def SendAttribute_get_size_def)

text \<open>What zstd makes of a payload under the given options.\<close>

definition zstd :: "externs \<Rightarrow> SendStreamUpgradeOptions \<Rightarrow> bytes \<Rightarrow> bytes option" where
  "zstd x opts d = zstd_encode x (compression_level opts) BTRFS_ZSTD_WINDOW_LOG d"

lemma compress_data_region_small:
  assumes "length d < 42" and "length ws = length d + 2"
  shows "\<exists>i j k. compress_data_region x (data_attr d) (sctx opts r 0 SendVersion2 (Some ws) 0 SendVersion2) =
    Inl (FailedToShrinkPayload i j k)"
  using assms compress_metadata_small [of ws "length d" opts r 0]
  by (auto simp: compress_data_region_steps)

lemma compress_data_region_eq:
  assumes "42 \<le> length d" and "length ws = length d + 2" and "compression_level opts \<noteq> 0"
  shows "compress_data_region x (data_attr d) (sctx opts r 0 SendVersion2 (Some ws) 0 SendVersion2) =
    (case zstd x opts d of
       None \<Rightarrow> Inl (Bail (Elem CompressorFailed))
     | Some z \<Rightarrow>
         if length z + 44 \<le> length d
         then Inr (compressed_attr d z,
           sctx opts r 0 SendVersion2
             (Some (enc_attrs SendVersion2 (encoding_attrs (length d)) @
                    enc_attr SendVersion2 (BTRFS_SEND_A_DATA, z) @ drop (46 + length z) ws))
             (46 + length z) SendVersion2, 46 + length z)
         else Inl (FailedToShrinkPayload (length d) (length z) 44))"
proof -
  have per: "SendAttribute_persist (compressed_attr d z) (sctx opts r 0 SendVersion2
        (Some (enc_attrs SendVersion2 (encoding_attrs (length d)) @ drop 44 ws)) 44 SendVersion2) =
      Inr (sctx opts r 0 SendVersion2
        (Some (enc_attrs SendVersion2 (encoding_attrs (length d)) @
                    enc_attr SendVersion2 (BTRFS_SEND_A_DATA, z) @ drop (46 + length z) ws))
        (46 + length z) SendVersion2)" if "length z + 44 \<le> length d" for z
    using that assms SendAttribute_persist_next [of "enc_attrs SendVersion2 (encoding_attrs (length d))" 44
        "compressed_attr d z" SendVersion2 "drop 44 ws"]
    by (simp add: length_encoding_attrs length_enc_attr add_ac)
  show ?thesis
    using assms per
    by (auto simp: compress_data_region_steps compress_metadata_sctx Let_def SendAttribute_compress_mk
        zstd_def compressed_attr_def [symmetric] split: option.split)
qed

subsection \<open>The whole command\<close>

lemma SendCommand_verify_cong:
  assumes "sc_header s = sc_header s'" "sc_buffer s = sc_buffer s'" "sc_path s = sc_path s'"
    "sc_start_offset s = sc_start_offset s'" "sc_version s = sc_version s'"
    "\<not> sc_data_attribute_dirty s" "\<not> sc_data_attribute_dirty s'"
  shows "SendCommand_verify x s c = SendCommand_verify x s' c"
  using assms
  by (simp add: SendCommand_verify_def verify_source_buffer_def SendCommand_eq_def Let_def
      cong: if_cong)

definition compressed_command :: "externs \<Rightarrow> acmd \<Rightarrow> nat \<Rightarrow> bytes \<Rightarrow> bytes \<Rightarrow> SendCommand" where
  "compressed_command x a off d z =
     (mk_command x SendVersion2 (encoded_write (length d) z (rebase off d a)))
       \<lparr>sc_data_attribute := Some (compressed_attr d z),
        sc_uncompressed_size := 12 + length (enc_attrs SendVersion2 (ac_attrs a)) + length d\<rparr>"

lemma encoded_write_simps [simp]:
  "ac_type (encoded_write n z a) = BTRFS_SEND_C_ENCODED_WRITE"
  "ac_data (encoded_write n z a) = Some z"
  "acmd_path (encoded_write n z a) = acmd_path a"
  "acmd_offset (encoded_write n z a) = acmd_offset a"
  by (simp_all add: encoded_write_def encoding_attrs_def acmd_path_def acmd_offset_def map_add_def)

lemma enc_payload_encoded_write:
  "enc_payload SendVersion2 (encoded_write n z (rebase off d a)) =
     enc_attrs SendVersion2 (set_offset off (ac_attrs a)) @
     enc_attrs SendVersion2 (encoding_attrs n) @ enc_attr SendVersion2 (BTRFS_SEND_A_DATA, z)"
  by (simp add: enc_payload_def all_attrs_def encoded_write_def)

lemma encoded_write_wf:
  assumes "write_wf mx a" and "length z + 44 \<le> length d"
    and "length (enc_attrs SendVersion2 (ac_attrs a)) + length d + 12 < 2 ^ 32"
  shows "acmd_wf SendVersion2 (encoded_write (length d) z (rebase off d a))"
proof -
  have "\<forall>b \<in> set (encoding_attrs n). attr_wf SendVersion2 b \<and> fst b \<noteq> BTRFS_SEND_A_DATA" for n
    by (simp add: encoding_attrs_def attr_wf_def attr_fits_def)
  moreover have "length (enc_payload SendVersion2 (encoded_write (length d) z (rebase off d a))) + 10 < 2 ^ 32"
    using assms by (simp add: enc_payload_encoded_write length_encoding_attrs length_enc_attr)
  ultimately show ?thesis
    using acmd_wf_attrs_rebase [OF assms(1), of off d] attr_wf_set_offset [OF write_wf_attrs(1) [OF assms(1)], of off]
    by (auto simp: acmd_wf_def all_attrs_def encoded_write_def)
qed

lemma compress_pre_data_wcmd:
  assumes "write_wf mx a" and "get_destination_version c = Inr SendVersion2"
    and "\<not> dirty \<longrightarrow> acmd_offset a = Some off \<and> ac_data a = Some d"
    and "stale_fits D0 a"
  shows "compress_pre_data (wcmd crc D0 a off d dirty) c (10 + length (enc_attrs SendVersion2 (ac_attrs a)))
      (zeros (10 + length (enc_attrs SendVersion2 (ac_attrs a)) + n)) =
    Inr (zeros 10 @ enc_attrs SendVersion2 (set_offset off (ac_attrs a)) @ zeros n)"
proof -
  let ?pre = "enc_attrs SendVersion2 (ac_attrs a)"
  have z: "zeros (10 + length ?pre + n) = zeros 10 @ zeros (length ?pre) @ zeros n"
    by (simp only: replicate_add append_assoc)
  have r: "read_exact (sctx opts (Some ?pre) 0 v None 0 v') (length ?pre) =
      Inr (?pre, sctx opts (Some ?pre) (length ?pre) v None 0 v')" for opts v v'
    using read_exact_next [of "[]" 0 ?pre _ opts "[]"] by simp
  show ?thesis
  proof (cases dirty)
    case True
    with flush_pre_data_wcmd [OF assms(1,2) _ _ assms(4)] assms(2) show ?thesis
      by (simp add: compress_pre_data_def z)
  next
    case False
    with assms(3) rebase_same [OF assms(1)] have same: "set_offset off (ac_attrs a) = ac_attrs a"
      by (metis rebase_simps(2))
    with False assms(2) show ?thesis
      by (simp add: compress_pre_data_def z r splice_def wire)
  qed
qed

text \<open>Everything around the region that holds the encoding and the compressed data.\<close>

definition encoded_region :: "bytes \<Rightarrow> bytes \<Rightarrow> bytes" where
  "encoded_region d z =
     enc_attrs SendVersion2 (encoding_attrs (length d)) @ enc_attr SendVersion2 (BTRFS_SEND_A_DATA, z)"

lemma length_encoded_region: "length (encoded_region d z) = 46 + length z"
  by (simp add: encoded_region_def length_encoding_attrs length_enc_attr)

lemma SendCommand_compress_region:
  assumes "write_wf mx a" and "get_destination_version c = Inr SendVersion2"
    and "\<not> dirty \<longrightarrow> acmd_offset a = Some off \<and> ac_data a = Some d"
    and "off < 2 ^ 64"
    and "length (enc_attrs SendVersion2 (ac_attrs a)) + length d + 12 < 2 ^ 32"
    and D: "D = enc_attr SendVersion2 (BTRFS_SEND_A_DATA, d)" and stale: "stale_fits D0 a"
  obtains r where
    "\<And>e. compress_data_region x (data_attr d) (sctx (ssuc_options c) r 0 SendVersion2
        (Some (zeros (length D))) 0 SendVersion2) = Inl e \<Longrightarrow>
      SendCommand_compress x (wcmd crc D0 a off d dirty) c = Inl e"
    "\<And>z. compress_data_region x (data_attr d) (sctx (ssuc_options c) r 0 SendVersion2
        (Some (zeros (length D))) 0 SendVersion2) =
        Inr (compressed_attr d z, sctx (ssuc_options c) r 0 SendVersion2
          (Some (encoded_region d z @ zeros (length D - length (encoded_region d z))))
          (length (encoded_region d z)) SendVersion2, length (encoded_region d z)) \<Longrightarrow>
      length z + 44 \<le> length d \<Longrightarrow>
      SendCommand_compress x (wcmd crc D0 a off d dirty) c = Inr (compressed_command x a off d z)"
proof -
  let ?pre = "enc_attrs SendVersion2 (ac_attrs a)" and ?opts = "ssuc_options c"
  let ?pre' = "enc_attrs SendVersion2 (set_offset off (ac_attrs a))"
  have len: "length D = length d + 2" by (simp add: D length_enc_attr)
  have pre': "length ?pre' = length ?pre" using assms(1) by simp
  have type: "ac_type a = BTRFS_SEND_C_WRITE" using assms(1) by (simp add: write_wf_def)
  let ?ch = "\<lambda>n. \<lparr>sch_size = n, sch_command_type = BTRFS_SEND_C_ENCODED_WRITE, sch_crc32c = None,
      sch_version = SendVersion2\<rparr>"
  have hd: "SendCommandHeader_compress (mk_header SendVersion2 n BTRFS_SEND_C_WRITE k) c = Inr (?ch None)"
    "is_command_compressible (mk_header SendVersion2 n BTRFS_SEND_C_WRITE k)" for n k
    using assms(2)
    by (simp_all add: SendCommandHeader_compress_def is_command_compressible_def
        get_compressed_command_type_def COMPRESSIBLE_COMMAND_TYPES_def)
  have size: "usub32 (word_of_nat (10 + length ?pre + n)) (word_of_nat 10) = Inr (word_of_nat (length ?pre + n))"
    if "n \<le> length D" for n
    using usub32_total [of "length ?pre + n"] assms(5) that by (simp add: add_ac len)
  have wle: "(word_of_nat (length ?pre + n) :: u32) \<le> word_of_nat (length ?pre + length D)"
    if "n \<le> length D" for n
    using that assms(5) unat_word_of_nat32 [of "length ?pre + n"]
      unat_word_of_nat32 [of "length ?pre + length D"]
    by (simp add: word_le_nat_alt len del: of_nat_add)
  have pd: "compress_pre_data (wcmd crc D0 a off d dirty) c (10 + length ?pre)
      (zeros (10 + length ?pre + length D)) = Inr (zeros 10 @ ?pre' @ zeros (length D))"
    by (rule compress_pre_data_wcmd [OF assms(1-3) stale])
  let ?b = "\<lambda>z. encoded_write (length d) z (rebase off d a)"
  have pay: "enc_payload SendVersion2 (?b z) = ?pre' @ encoded_region d z" for z
    by (simp add: enc_payload_encoded_write encoded_region_def)
  define H where "H z = sc_header (mk_command x SendVersion2 (?b z))" for z
  have hdr: "flush_header_to_buffer x c (zeros 10 @ ?pre' @ encoded_region d z)
      (?ch (Some (word_of_nat (length ?pre + length (encoded_region d z))))) =
      Inr (enc_command x SendVersion2 (?b z), H z)" for z
    using flush_header_to_buffer_none [OF assms(2), of "zeros 10"] pre'
    by (simp add: H_def enc_command_def enc_with_crc_def acmd_crc_def pay)
  have mk: "(wcmd crc D0 a off d dirty)\<lparr>sc_header := H z,
      sc_buffer := enc_command x SendVersion2 (?b z), sc_data_attribute := Some (compressed_attr d z),
      sc_data_attribute_initial_size := Some (length (enc_attr SendVersion2 (BTRFS_SEND_A_DATA, z))),
      sc_data_attribute_dirty := False, sc_version := SendVersion2\<rparr> = compressed_command x a off d z" for z
    using assms by (simp add: H_def wcmd_def mk_command_def compressed_command_def write_wf_def Let_def)
  have ver: "SendCommand_verify x (compressed_command x a off d z) c = Inr ()"
    if "length z + 44 \<le> length d" for z
    using SendCommand_verify_clean [OF encoded_write_wf [OF assms(1) that assms(5)]]
      SendCommand_verify_cong [of "compressed_command x a off d z" "mk_command x SendVersion2 (?b z)"]
    by (simp add: compressed_command_def)
  note defs = SendCommand_compress_def SendCommand_is_compressible_def SendAttribute_is_compressible_mk
    Let_def stale_size [OF stale] type hd pd pre' D [symmetric]
  show thesis
  proof (rule that [of "Some D0"])
    fix e
    assume "compress_data_region x (data_attr d) (sctx ?opts (Some D0) 0 SendVersion2
        (Some (zeros (length D))) 0 SendVersion2) = Inl e"
    then show "SendCommand_compress x (wcmd crc D0 a off d dirty) c = Inl e"
      using assms(2) size [of "length D"] by (simp add: defs del: of_nat_add of_nat_numeral)
  next
    fix z
    assume region: "compress_data_region x (data_attr d) (sctx (ssuc_options c) (Some D0) 0 SendVersion2
        (Some (zeros (length D))) 0 SendVersion2) =
        Inr (compressed_attr d z, sctx (ssuc_options c) (Some D0) 0 SendVersion2
          (Some (encoded_region d z @ zeros (length D - length (encoded_region d z))))
          (length (encoded_region d z)) SendVersion2, length (encoded_region d z))"
      and z: "length z + 44 \<le> length d"
    have le: "length (encoded_region d z) \<le> length D"
      using z by (simp add: length_encoded_region len)
    show "SendCommand_compress x (wcmd crc D0 a off d dirty) c = Inr (compressed_command x a off d z)"
      using assms(2) size [of "length D"] size [OF le] wle [OF le] le
      by (simp add: defs set_size_def splice_def region hdr mk ver [OF z] del: of_nat_add of_nat_numeral)
  qed
qed

text \<open>The payload that replaces \<open>d\<close>: none if the attempt does not save the 44 bytes of the
  attributes that describe the encoding.\<close>

definition compressed_payload :: "externs \<Rightarrow> SendStreamUpgradeOptions \<Rightarrow> bytes \<Rightarrow> bytes option result" where
  "compressed_payload x opts d =
     (if length d < 42 then Inr None
      else rbind (of_option (Elem CompressorFailed) (zstd x opts d)) (\<lambda>z.
        Inr (if length z + 44 \<le> length d then Some z else None)))"

lemma SendCommand_compress_wcmd:
  assumes "write_wf mx a" and "get_destination_version c = Inr SendVersion2"
    and "\<not> dirty \<longrightarrow> acmd_offset a = Some off \<and> ac_data a = Some d"
    and "off < 2 ^ 64" and "compression_level (ssuc_options c) \<noteq> 0"
    and "length (enc_attrs SendVersion2 (ac_attrs a)) + length d + 12 < 2 ^ 32" and "stale_fits D0 a"
  shows "case compressed_payload x (ssuc_options c) d of
      Inl e \<Rightarrow> SendCommand_compress x (wcmd crc D0 a off d dirty) c = Inl e
    | Inr None \<Rightarrow> \<exists>i j k. SendCommand_compress x (wcmd crc D0 a off d dirty) c = Inl (FailedToShrinkPayload i j k)
    | Inr (Some z) \<Rightarrow> SendCommand_compress x (wcmd crc D0 a off d dirty) c = Inr (compressed_command x a off d z)"
proof -
  let ?opts = "ssuc_options c"
  let ?D = "enc_attr SendVersion2 (BTRFS_SEND_A_DATA, d)"
  have len: "length (zeros (length ?D)) = length d + 2" by (simp add: length_enc_attr)
  let ?R = "\<lambda>r. compress_data_region x (data_attr d) (sctx ?opts r 0 SendVersion2
        (Some (zeros (length ?D))) 0 SendVersion2)"
  obtain r where
    err: "\<And>e. ?R r = Inl e \<Longrightarrow> SendCommand_compress x (wcmd crc D0 a off d dirty) c = Inl e" and
    ok: "\<And>z. ?R r =
        Inr (compressed_attr d z, sctx ?opts r 0 SendVersion2
          (Some (encoded_region d z @ zeros (length ?D - length (encoded_region d z))))
          (length (encoded_region d z)) SendVersion2, length (encoded_region d z)) \<Longrightarrow>
      length z + 44 \<le> length d \<Longrightarrow>
      SendCommand_compress x (wcmd crc D0 a off d dirty) c = Inr (compressed_command x a off d z)"
    by (rule SendCommand_compress_region [OF assms(1,2,3,4,6) refl assms(7), of x crc]) blast
  show ?thesis
  proof (cases "length d < 42")
    case True
    obtain i j k where "?R r = Inl (FailedToShrinkPayload i j k)"
      using compress_data_region_small [OF True len] by blast
    with err True show ?thesis by (auto simp: compressed_payload_def)
  next
    case False
    note eq = compress_data_region_eq [OF _ len assms(5), of x r]
    show ?thesis
    proof (cases "zstd x ?opts d")
      case None
      with False eq err show ?thesis by (simp add: compressed_payload_def)
    next
      case (Some z)
      with False eq have R: "?R r = (if length z + 44 \<le> length d
         then Inr (compressed_attr d z, sctx ?opts r 0 SendVersion2
            (Some (encoded_region d z @ drop (46 + length z) (zeros (length ?D)))) (46 + length z) SendVersion2,
            46 + length z)
         else Inl (FailedToShrinkPayload (length d) (length z) 44))"
        by (simp add: encoded_region_def)
      show ?thesis
      proof (cases "length z + 44 \<le> length d")
        case True
        then have "SendCommand_compress x (wcmd crc D0 a off d dirty) c = Inr (compressed_command x a off d z)"
          using R by (intro ok) (simp_all add: length_encoded_region)
        with True False Some show ?thesis by (simp add: compressed_payload_def)
      next
        case no: False
        with R err have "SendCommand_compress x (wcmd crc D0 a off d dirty) c =
            Inl (FailedToShrinkPayload (length d) (length z) 44)"
          by simp
        with no False Some show ?thesis by (simp add: compressed_payload_def)
      qed
    qed
  qed
qed

end
