(* ===== verification/Output.thy ===== *)
theory Output
  imports Command_Ops
begin

text \<open>
  Writing commands out: what a context has handed to its writer, the pad commands, and
  \<open>SendCommand_persist\<close> as the emission of encoded commands.
\<close>

section \<open>The output stream\<close>

text \<open>The bytes handed to the writer: those in the file and those still in the buffer.\<close>

definition written :: "ctx \<Rightarrow> bytes" where
  "written c =
     (case ssud_destination (ssuc_destination c) of
        SsdBufWriter w \<Rightarrow> bw_file w @ bw_buffer w | SsdSliceWriter s \<Rightarrow> s | SsdNoDestination \<Rightarrow> [])"

text \<open>A top-level context that writes a version 2 stream to a device with room.\<close>

definition sink :: "ctx \<Rightarrow> bool" where
  "sink c \<longleftrightarrow>
     (case ssud_destination (ssuc_destination c) of SsdBufWriter w \<Rightarrow> bw_space w = None | _ \<Rightarrow> False) \<and>
     \<not> ssuc_associated_with_parent c \<and> get_destination_version c = Inr SendVersion2"

definition emits :: "ctx \<Rightarrow> bytes \<Rightarrow> ctx \<Rightarrow> bool" where
  "emits c bs c' \<longleftrightarrow>
     sink c' \<and> written c' = written c @ bs \<and> get_write_offset c' = get_write_offset c + length bs \<and>
     ssuc_source c' = ssuc_source c \<and> ssuc_options c' = ssuc_options c"

lemma emits_trans: "emits c bs c1 \<Longrightarrow> emits c1 bs' c2 \<Longrightarrow> emits c (bs @ bs') c2"
  by (auto simp: emits_def)

lemma emits_refl: "sink c \<Longrightarrow> emits c [] c"
  by (simp add: emits_def)

lemma sink_version: "sink c \<Longrightarrow> get_destination_version c = Inr SendVersion2"
  by (simp add: sink_def)

lemma BufWriter_write_all_unlimited:
  assumes "bw_space w = None"
  shows "\<exists>w'. BufWriter_write_all w bs = Inr w' \<and> bw_space w' = None \<and>
    bw_file w' @ bw_buffer w' = bw_file w @ bw_buffer w @ bs"
proof (cases "bw_capacity w < length (bw_buffer w) + length bs")
  case True
  with assms show ?thesis
    by (auto simp: BufWriter_write_all_def BufWriter_flush_def file_write_all_def)
next
  case False
  then have "bw_buffer w = []" if "bw_capacity w \<le> length bs"
    using that by (cases "bw_buffer w") auto
  with False assms show ?thesis
    by (auto simp: BufWriter_write_all_def file_write_all_def)
qed

lemma BufWriter_order:
  "BufWriter_flush w = Inr w' \<Longrightarrow> bw_file w' = bw_file w @ bw_buffer w \<and> bw_buffer w' = []"
  "BufWriter_write_all w bs = Inr w' \<Longrightarrow> bw_file w' @ bw_buffer w' = bw_file w @ bw_buffer w @ bs"
proof -
  have fw: "bw_file v = bw_file u @ cs \<and> bw_buffer v = bw_buffer u \<and> bw_capacity v = bw_capacity u"
    if "file_write_all u cs = Inr v" for u v cs
    using that by (auto simp: file_write_all_def split: option.splits if_splits)
  have fl: "bw_file v = bw_file u @ bw_buffer u \<and> bw_buffer v = [] \<and> bw_capacity v = bw_capacity u"
    if "BufWriter_flush u = Inr v" for u v
    using that by (auto simp: BufWriter_flush_def result_simps dest: fw)
  then show "BufWriter_flush w = Inr w' \<Longrightarrow> bw_file w' = bw_file w @ bw_buffer w \<and> bw_buffer w' = []"
    by blast
  assume run: "BufWriter_write_all w bs = Inr w'"
  show "bw_file w' @ bw_buffer w' = bw_file w @ bw_buffer w @ bs"
  proof (cases "bw_capacity w < length (bw_buffer w) + length bs")
    case True
    with run show ?thesis
      by (auto simp: BufWriter_write_all_def result_simps dest!: fl fw split: if_splits)
  next
    case False
    then have "bw_buffer w = []" if "bw_capacity w \<le> length bs"
      using that by (cases "bw_buffer w") auto
    with False run show ?thesis
      by (auto simp: BufWriter_write_all_def dest!: fw split: if_splits)
  qed
qed

lemma write_all_sink:
  assumes "sink c" and "length bs \<le> n"
  obtains c' where "write_all c bs n = Inr c'" "emits c bs c'"
proof -
  obtain w where w: "ssud_destination (ssuc_destination c) = SsdBufWriter w" "bw_space w = None"
    using assms(1) by (auto simp: sink_def split: SendStreamDestination.splits)
  then obtain w' where w': "BufWriter_write_all w bs = Inr w'" "bw_space w' = None"
    "bw_file w' @ bw_buffer w' = bw_file w @ bw_buffer w @ bs"
    using BufWriter_write_all_unlimited by blast
  with w assms show thesis
    by (intro that) (auto simp: write_all_def Destination_write_all_def emits_def sink_def written_def
        get_write_offset_def get_destination_version_def Destination_get_version_def ensure_def)
qed

section \<open>Pad commands\<close>

definition pad_size :: "nat \<Rightarrow> acmd \<Rightarrow> nat" where
  "pad_size off a = pad_command_size off (10 + length (enc_attrs SendVersion2 (ac_attrs a))) 2 38"

definition pad_command :: "nat \<Rightarrow> acmd" where
  "pad_command n =
     \<lparr>ac_type = BTRFS_SEND_C_UPDATE_EXTENT,
      ac_attrs = [(BTRFS_SEND_A_PATH, replicate (n - 38) 0x61), (BTRFS_SEND_A_FILE_OFFSET, le64 0),
                  (BTRFS_SEND_A_SIZE, le64 0)],
      ac_data = None\<rparr>"

lemma pad_size_bounds: "38 \<le> pad_size off a" "pad_size off a < 4134"
proof -
  have "(off + (10 + length (enc_attrs SendVersion2 (ac_attrs a))) + 2) mod 4096 < 4096" by simp
  then show "38 \<le> pad_size off a" "pad_size off a < 4134"
    by (auto simp: pad_size_def pad_command_size_def BLOCK_SIZE_def Let_def)
qed

text \<open>After the pad, the data of the write starts on a block boundary.\<close>

lemma pad_size_aligned:
  "(off + pad_size off a + (10 + length (enc_attrs SendVersion2 (ac_attrs a))) + 2) mod BLOCK_SIZE = 0"
proof -
  define n where "n = off + (10 + length (enc_attrs SendVersion2 (ac_attrs a))) + 2"
  obtain q r where "n = 4096 * q + r" "r < 4096" "n mod 4096 = r"
    using mult_div_mod_eq [of 4096 n] mod_less_divisor [of 4096 n] by (metis zero_less_numeral)
  then have "n + (4096 - n mod 4096) = 4096 * (q + 1)" "n + (4096 - n mod 4096 + 4096) = 4096 * (q + 2)"
    by simp_all
  then have "(n + (4096 - n mod 4096)) mod 4096 = 0" "(n + (4096 - n mod 4096 + 4096)) mod 4096 = 0"
    by (simp_all only: mod_mult_self1_is_0)
  then have "(n + pad_size off a) mod 4096 = 0"
    by (simp only: pad_size_def pad_command_size_def Let_def BLOCK_SIZE_def n_def [symmetric] split: if_split) simp
  moreover have "off + pad_size off a + (10 + length (enc_attrs SendVersion2 (ac_attrs a))) + 2 = n + pad_size off a"
    by (simp only: n_def add_ac)
  ultimately show ?thesis
    by (simp only: BLOCK_SIZE_def)
qed

lemma enc_pad_payload:
  "enc_payload SendVersion2 (pad_command n) =
     enc_attr SendVersion2 (BTRFS_SEND_A_PATH, replicate (n - 38) 0x61) @
     enc_attr SendVersion2 (BTRFS_SEND_A_FILE_OFFSET, le64 0) @
     enc_attr SendVersion2 (BTRFS_SEND_A_SIZE, le64 0)"
  by (simp add: enc_payload_def all_attrs_def pad_command_def)

lemma length_enc_pad: "38 \<le> n \<Longrightarrow> length (enc_payload SendVersion2 (pad_command n)) = n - 10"
  by (simp add: enc_pad_payload length_enc_attr sizeless_def)

lemma generate_pad_command_mk:
  assumes "write_wf mx a" and "get_destination_version c = Inr SendVersion2"
  defines "n \<equiv> pad_size (get_write_offset c) a"
  obtains p where "generate_pad_command x (mk_command x SendVersion2 a) c = Inr p"
    "sc_buffer p = enc_command x SendVersion2 (pad_command n)" "sc_uncompressed_size p = n"
proof -
  let ?A = "enc_attr SendVersion2 (BTRFS_SEND_A_PATH, replicate (n - 38) 0x61)"
  let ?B = "enc_attr SendVersion2 (BTRFS_SEND_A_FILE_OFFSET, le64 0)"
  let ?C = "enc_attr SendVersion2 (BTRFS_SEND_A_SIZE, le64 0)"
  let ?w = "word_of_nat (n - 10) :: u32"
  let ?e = "enc_header ?w BTRFS_SEND_C_UPDATE_EXTENT"
  let ?h = "\<lambda>crc. \<lparr>sch_size = Some ?w, sch_command_type = BTRFS_SEND_C_UPDATE_EXTENT, sch_crc32c = crc,
      sch_version = SendVersion2\<rparr>"
  let ?s = "\<lambda>ws j. sctx (ssuc_options c) None 0 SendVersion2 (Some ws) j SendVersion2"
  have n: "38 \<le> n" by (simp add: n_def pad_size_bounds)
  have lens: "length ?A = n - 34" "length ?B = 12" "length ?C = 12"
    using n by (simp_all add: length_enc_attr sizeless_def)
  have p1: "SendCommandHeader_persist (?h None) (?s (zeros n) 0) True = Inr (?s (?e 0 @ zeros (n - 10)) 10)"
    using n by (simp add: SendCommandHeader_persist_sctx)
  have p2: "SendAttribute_persist (mk_attr SendVersion2 (BTRFS_SEND_A_PATH, replicate (n - 38) 0x61))
      (?s (?e 0 @ zeros (n - 10)) 10) = Inr (?s (?e 0 @ ?A @ zeros 24) (n - 24))"
    using n lens SendAttribute_persist_next [of "?e 0" 10] by simp
  have p3: "SendAttribute_persist (mk_attr SendVersion2 (BTRFS_SEND_A_FILE_OFFSET, le64 0))
      (?s (?e 0 @ ?A @ zeros 24) (n - 24)) = Inr (?s (?e 0 @ ?A @ ?B @ zeros 12) (n - 12))"
    using n lens SendAttribute_persist_next [of "?e 0 @ ?A" "n - 24"] by simp
  have p4: "SendAttribute_persist (mk_attr SendVersion2 (BTRFS_SEND_A_SIZE, le64 0))
      (?s (?e 0 @ ?A @ ?B @ zeros 12) (n - 12)) = Inr (?s (?e 0 @ ?A @ ?B @ ?C) n)"
    using n lens SendAttribute_persist_next [of "?e 0 @ ?A @ ?B" "n - 12"] by simp
  have crc: "compute_crc32c x (?e 0 @ ?A @ ?B @ ?C) = acmd_crc x SendVersion2 (pad_command n)"
    using n by (simp add: acmd_crc_def enc_with_crc_def length_enc_pad enc_pad_payload [symmetric])
      (simp add: pad_command_def)
  obtain d0 where d0: "ac_data a = Some d0" "enc_payload SendVersion2 a =
       enc_attrs SendVersion2 (ac_attrs a) @ enc_attr SendVersion2 (BTRFS_SEND_A_DATA, d0)"
    using write_wf_shape [OF assms(1)] by metis
  have size: "pad_command_size (get_write_offset c) (10 + length (enc_attrs SendVersion2 (ac_attrs a))) 2 38 = n"
    by (simp add: n_def pad_size_def)
  have p5: "SendCommandHeader_persist (?h (Some k)) (?s (?e 0 @ bs) 0) False = Inr (?s (?e k @ bs) 10)" for k bs
    by (simp add: SendCommandHeader_persist_sctx)
  have buf: "?e (acmd_crc x SendVersion2 (pad_command n)) @ ?A @ ?B @ ?C =
      enc_command x SendVersion2 (pad_command n)"
    using n by (simp add: enc_command_def enc_with_crc_def length_enc_pad enc_pad_payload [symmetric])
      (simp add: pad_command_def)
  show thesis
    using that assms(2) n
    by (simp add: generate_pad_command_def d0 wire sizeless_def length_enc_attr Let_def
      generate_pad_command_header_def set_crc32c_def crc buf size p1 p2 p3 p4 p5
      del: of_nat_diff)
qed

section \<open>Persisting commands\<close>

text \<open>The encoding of a list of commands.\<close>

definition enc_commands :: "externs \<Rightarrow> SendVersion \<Rightarrow> acmd list \<Rightarrow> bytes" where
  "enc_commands x v as = concat (map (enc_command x v) as)"

lemma enc_commands_simps [simp]:
  "enc_commands x v [] = []"
  "enc_commands x v (a # as) = enc_command x v a @ enc_commands x v as"
  "enc_commands x v (as @ bs) = enc_commands x v as @ enc_commands x v bs"
  by (simp_all add: enc_commands_def)

text \<open>A write whose data and file offset are block aligned gets a pad command in front, if the
  option asks for it.\<close>

definition with_pad :: "SendStreamUpgradeOptions \<Rightarrow> nat \<Rightarrow> acmd \<Rightarrow> acmd list" where
  "with_pad opts off a =
     (if pad_with_dummy_commands opts \<and> ac_type a = BTRFS_SEND_C_WRITE \<and>
         (case acmd_offset a of None \<Rightarrow> False | Some start \<Rightarrow> start mod BLOCK_SIZE = 0) \<and>
         (case ac_data a of None \<Rightarrow> False | Some d \<Rightarrow> length d mod BLOCK_SIZE = 0)
      then [pad_command (pad_size off a), a] else [a])"

lemma SendCommand_persist_unpadded:
  assumes "sink c" and "SendCommand_verify x s c = Inr ()" and "sc_version s = SendVersion2"
    and "\<not> sc_data_attribute_dirty s" and "length (sc_buffer s) \<le> sc_uncompressed_size s"
    and "\<not> pad_with_dummy_commands (ssuc_options c) \<or> sch_command_type (sc_header s) \<noteq> BTRFS_SEND_C_WRITE"
  obtains c' where "SendCommand_persist x s c = Inr c'" "emits c (sc_buffer s) c'"
proof -
  obtain c' where "write_all c (sc_buffer s) (sc_uncompressed_size s) = Inr c'" "emits c (sc_buffer s) c'"
    using assms(1,5) by (rule write_all_sink)
  with assms that show thesis
    by (auto simp: SendCommand_persist_def sink_version is_paddable_def PADDABLE_COMMAND_TYPES_def)
qed

lemma persist_pad_mk:
  assumes "sink c" and "write_wf mx a" and "pad_with_dummy_commands (ssuc_options c)"
  obtains c' ps where "persist_pad x (mk_command x SendVersion2 a) c = Inr c'"
    "with_pad (ssuc_options c) (get_write_offset c) a = ps @ [a]"
    "emits c (enc_commands x SendVersion2 ps) c'"
proof -
  obtain off d where a: "acmd_offset a = Some off" "ac_data a = Some d" "enc_payload SendVersion2 a =
       enc_attrs SendVersion2 (ac_attrs a) @ enc_attr SendVersion2 (BTRFS_SEND_A_DATA, d)"
    using assms(2) by (rule write_wf_shape)
  have type: "ac_type a = BTRFS_SEND_C_WRITE" using assms(2) by (simp add: write_wf_def)
  let ?n = "pad_size (get_write_offset c) a"
  show thesis
  proof (cases "off mod BLOCK_SIZE = 0 \<and> length d mod BLOCK_SIZE = 0")
    case False
    with a assms(1) show thesis
      by (intro that [of c "[]"]) (auto simp: persist_pad_def with_pad_def emits_refl)
  next
    case True
    obtain p where p: "generate_pad_command x (mk_command x SendVersion2 a) c = Inr p"
      "sc_buffer p = enc_command x SendVersion2 (pad_command ?n)" "sc_uncompressed_size p = ?n"
      using assms(2) sink_version [OF assms(1)] by (rule generate_pad_command_mk)
    have len: "length (sc_buffer p) = ?n"
      using pad_size_bounds(1) [of "get_write_offset c" a] by (simp add: p(2) length_enc_pad)
    obtain c' where c': "write_all c (sc_buffer p) (sc_uncompressed_size p) = Inr c'" "emits c (sc_buffer p) c'"
      using assms(1) len p(3) by (metis write_all_sink order_refl)
    have "get_write_offset c' = get_write_offset c + ?n"
      using c'(2) len by (simp add: emits_def)
    then have "persist_pad x (mk_command x SendVersion2 a) c = Inr c'"
      using True a p c'(1) pad_size_aligned [of "get_write_offset c" a]
      by (simp add: persist_pad_def length_enc_attr add_ac)
    then show thesis
      using True a type assms(3) c'(2) p(2)
      by (intro that [of c' "[pad_command ?n]"]) (simp_all add: with_pad_def)
  qed
qed

lemma SendCommand_persist_mk:
  assumes "sink c" and "acmd_wf SendVersion2 a" and "ac_type a = BTRFS_SEND_C_WRITE \<longrightarrow> write_wf mx a"
  obtains c' where "SendCommand_persist x (mk_command x SendVersion2 a) c = Inr c'"
    "emits c (enc_commands x SendVersion2 (with_pad (ssuc_options c) (get_write_offset c) a)) c'"
proof (cases "pad_with_dummy_commands (ssuc_options c) \<and> ac_type a = BTRFS_SEND_C_WRITE")
  case False
  then have "with_pad (ssuc_options c) (get_write_offset c) a = [a]" by (auto simp: with_pad_def)
  moreover obtain c' where "SendCommand_persist x (mk_command x SendVersion2 a) c = Inr c'"
    "emits c (sc_buffer (mk_command x SendVersion2 a)) c'"
    using assms(1) SendCommand_verify_clean [OF assms(2)] False
    by (metis SendCommand_persist_unpadded length_enc_command mk_command_simps(1,2,5,8,9) mk_header_simps(2) order_refl)
  ultimately show thesis by (intro that) simp_all
next
  case True
  obtain c1 ps where c1: "persist_pad x (mk_command x SendVersion2 a) c = Inr c1"
    "with_pad (ssuc_options c) (get_write_offset c) a = ps @ [a]"
    "emits c (enc_commands x SendVersion2 ps) c1"
    using assms True by (metis persist_pad_mk)
  then have "sink c1" by (simp add: emits_def)
  moreover have "length (enc_command x SendVersion2 a) \<le> 10 + length (enc_payload SendVersion2 a)" by simp
  ultimately obtain c' where c': "write_all c1 (enc_command x SendVersion2 a)
      (10 + length (enc_payload SendVersion2 a)) = Inr c'" "emits c1 (enc_command x SendVersion2 a) c'"
    by (rule write_all_sink)
  have "SendCommand_persist x (mk_command x SendVersion2 a) c = Inr c'"
    using True c1(1) c'(1) SendCommand_verify_clean [OF assms(2)] sink_version [OF assms(1)]
    by (simp add: SendCommand_persist_def is_paddable_def PADDABLE_COMMAND_TYPES_def)
  then show thesis
    using emits_trans [OF c1(3) c'(2)] c1(2) by (intro that) simp_all
qed

end
