(* ===== verification/Upgrade_Spec.thy ===== *)
theory Upgrade_Spec
  imports Output
begin

text \<open>
  What the upgrade promises, on abstract commands, and that the single-threaded loop implements
  it: adjacent writes of one file are merged up to the batch limit, each batch is compressed when
  that saves space, everything else is copied in order, all encoded in version 2.
\<close>

section \<open>The specification\<close>

definition write_offset :: "acmd \<Rightarrow> nat" where
  "write_offset a = (case acmd_offset a of None \<Rightarrow> 0 | Some off \<Rightarrow> off)"

definition write_data :: "acmd \<Rightarrow> bytes" where
  "write_data a = (case ac_data a of None \<Rightarrow> [] | Some d \<Rightarrow> d)"

definition adjacent :: "acmd \<Rightarrow> acmd \<Rightarrow> bool" where
  "adjacent a b \<longleftrightarrow>
     acmd_path a = acmd_path b \<and> write_offset a + length (write_data a) = write_offset b"

text \<open>Moving as much of \<open>b\<close> as fits below the limit to the end of \<open>a\<close>.\<close>

definition merge_writes :: "nat \<Rightarrow> acmd \<Rightarrow> acmd \<Rightarrow> acmd \<times> acmd" where
  "merge_writes mx a b =
     (let room = mx - length (write_data a);
          n = min (length (write_data b)) room
      in if adjacent a b
         then (rebase (write_offset a) (write_data a @ take room (write_data b)) a,
               rebase (write_offset b + n) (drop n (write_data b)) b)
         else (a, b))"

text \<open>Writing a batch out at output offset \<open>off\<close>.\<close>

definition emit_write :: "externs \<Rightarrow> SendStreamUpgradeOptions \<Rightarrow> nat \<Rightarrow> acmd \<Rightarrow> acmd list result" where
  "emit_write x opts off a =
     (if compression_level opts = 0 then Inr (with_pad opts off a)
      else rbind (compressed_payload x opts (write_data a)) (\<lambda>z.
        Inr (case z of None \<Rightarrow> with_pad opts off a
             | Some z \<Rightarrow> [encoded_write (length (write_data a)) z a])))"

abbreviation nonempty :: "acmd \<Rightarrow> acmd option" where
  "nonempty a \<equiv> (if write_data a = [] then None else Some a)"

text \<open>One command: what is written out, and the batch that is kept.\<close>

definition spec_step ::
  "externs \<Rightarrow> SendStreamUpgradeOptions \<Rightarrow> nat \<Rightarrow> acmd option \<Rightarrow> acmd \<Rightarrow> (acmd list \<times> acmd option) result"
where
  "spec_step x opts off prev a =
     (if ac_type a = BTRFS_SEND_C_WRITE then
        case prev of
          None \<Rightarrow> Inr ([], nonempty a)
        | Some p \<Rightarrow>
            let (p', a') = merge_writes (maximum_batched_extent_size opts) p a
            in if maximum_batched_extent_size opts \<le> length (write_data p') \<or> write_data a' \<noteq> []
               then rbind (emit_write x opts off p') (\<lambda>out. Inr (out, nonempty a'))
               else Inr ([], Some p')
      else
        rbind (case prev of None \<Rightarrow> Inr [] | Some p \<Rightarrow> emit_write x opts off p) (\<lambda>out.
        Inr (out @ [a], None)))"

text \<open>The stream, up to its end command; without one the input ends too early.\<close>

fun upgrade_spec ::
  "externs \<Rightarrow> SendStreamUpgradeOptions \<Rightarrow> nat \<Rightarrow> acmd option \<Rightarrow> acmd list \<Rightarrow> acmd list result" where
  "upgrade_spec x opts off prev [] = Inl (Bail (Io ShortRead))"
| "upgrade_spec x opts off prev (a # as) =
     rbind (spec_step x opts off prev a) (\<lambda>(out, prev').
     if ac_type a = BTRFS_SEND_C_END then Inr out
     else rbind (upgrade_spec x opts (off + length (enc_commands x SendVersion2 out)) prev' as) (\<lambda>rest.
       Inr (out @ rest)))"

section \<open>Batches in memory\<close>

text \<open>\<open>batch mx x s p\<close>: the command \<open>s\<close>, clean or dirty, stands for the write \<open>p\<close>.\<close>

definition batch :: "nat \<Rightarrow> externs \<Rightarrow> SendCommand \<Rightarrow> acmd \<Rightarrow> bool" where
  "batch mx x s p \<longleftrightarrow>
     (\<exists>k D a off d dirty. s = wcmd k D a off d dirty \<and> p = rebase off d a \<and> write_wf mx a \<and>
        off + length d < 2 ^ 64 \<and> length (enc_attrs SendVersion2 (ac_attrs a)) + length d + 12 < 2 ^ 32 \<and>
        stale_fits D a \<and>
        (\<not> dirty \<longrightarrow> acmd_offset a = Some off \<and> ac_data a = Some d \<and>
           k = acmd_crc x SendVersion2 a \<and> D = enc_attr SendVersion2 (BTRFS_SEND_A_DATA, d)))"

lemma batchE:
  assumes "batch mx x s p"
  obtains k D a off d dirty where "s = wcmd k D a off d dirty" "p = rebase off d a" "write_wf mx a"
    "off + length d < 2 ^ 64" "length (enc_attrs SendVersion2 (ac_attrs a)) + length d + 12 < 2 ^ 32"
    "\<not> dirty \<longrightarrow> acmd_offset a = Some off \<and> ac_data a = Some d" "stale_fits D a"
  using assms unfolding batch_def by blast

lemma batch_clean:
  assumes "batch mx x s p" and "\<not> sc_data_attribute_dirty s"
  shows "s = mk_command x SendVersion2 p"
  using assms by (auto simp: batch_def wcmd_clean(1) rebase_same)

text \<open>The input: a version 2 write ends below \<open>2 ^ 64\<close>, and commands other than writes have no
  empty data attribute.\<close>

definition stream_wf :: "SendVersion \<Rightarrow> nat \<Rightarrow> acmd \<Rightarrow> bool" where
  "stream_wf sv mx a \<longleftrightarrow>
     input_wf sv a \<and>
     (if ac_type a = BTRFS_SEND_C_WRITE
      then write_wf mx a \<and> write_offset a + length (write_data a) < 2 ^ 64
      else ac_data a \<noteq> Some [])"

lemma write_data_rebase [simp]: "write_data (rebase off d a) = d"
  by (simp add: write_data_def)

lemma write_offset_rebase [simp]:
  "write_wf mx a \<Longrightarrow> off < 2 ^ 64 \<Longrightarrow> write_offset (rebase off d a) = off"
  by (simp add: write_offset_def write_wf_def)

lemma batch_cleanI:
  assumes "write_wf mx a" and "acmd_offset a = Some off" and "ac_data a = Some d"
    and "off + length d < 2 ^ 64"
  shows "batch mx x (mk_command x SendVersion2 a) a"
proof -
  have "length (enc_attrs SendVersion2 (ac_attrs a)) + length d + 12 < 2 ^ 32"
    using assms(1,3) by (simp add: write_wf_def acmd_wf_def enc_payload_data length_enc_attr)
  with assms wcmd_clean(1) [OF assms(1-3), of x] wcmd_clean(2) [OF assms(1-3)] rebase_same [OF assms(1-3)]
  show ?thesis unfolding batch_def by metis
qed

lemma batch_of_write:
  assumes "stream_wf sv mx a" and "ac_type a = BTRFS_SEND_C_WRITE"
  shows "batch mx x (mk_command x SendVersion2 a) a"
proof -
  have wf: "write_wf mx a" and lt: "write_offset a + length (write_data a) < 2 ^ 64"
    using assms by (simp_all add: stream_wf_def)
  obtain off d where "acmd_offset a = Some off" "ac_data a = Some d"
    using wf by (rule write_wf_shape)
  with wf lt show ?thesis
    by (intro batch_cleanI) (auto simp: write_offset_def write_data_def)
qed

lemma batch_dirtyI:
  assumes "write_wf mx a" and "off + length d < 2 ^ 64"
    and "length (enc_attrs SendVersion2 (ac_attrs a)) + length d + 12 < 2 ^ 32" and "stale_fits D a"
  shows "batch mx x (wcmd k D a off d True) (rebase off d a)"
  unfolding batch_def using assms by blast

lemma batch_wf:
  assumes "batch mx x s p"
  shows "write_wf mx p" "acmd_wf SendVersion2 p" "ac_type p = BTRFS_SEND_C_WRITE"
proof -
  show "write_wf mx p" using assms by (elim batchE) (auto intro!: write_wf_rebase)
  then show "acmd_wf SendVersion2 p" "ac_type p = BTRFS_SEND_C_WRITE"
    by (simp_all add: write_wf_def)
qed

lemma batch_simps:
  assumes "batch mx x s p"
  shows "SendCommand_is_full s c \<longleftrightarrow> maximum_batched_extent_size (ssuc_options c) \<le> length (write_data p)"
    "SendCommand_is_empty s \<longleftrightarrow> write_data p = []"
    "SendCommand_is_appendable s" "\<not> SendCommand_is_end s" "SendCommand_is_compressible s"
  using assms
  by (auto simp: batch_def SendCommand_is_full_def SendCommand_is_empty_def SendCommand_is_appendable_def
      SendCommandHeader_is_appendable_def APPENDABLE_COMMAND_TYPES_def SendCommand_is_end_def
      is_command_end_def SendCommand_is_compressible_def is_command_compressible_def
      COMPRESSIBLE_COMMAND_TYPES_def write_wf_def)

lemma batch_can_append:
  assumes "batch mx x s p" and "batch mx x t b"
  shows "SendCommand_can_append s t = Inr (adjacent p b)"
proof -
  obtain k D a off d dirty where s: "s = wcmd k D a off d dirty" "p = rebase off d a" "write_wf mx a"
    "off + length d < 2 ^ 64" "length (enc_attrs SendVersion2 (ac_attrs a)) + length d + 12 < 2 ^ 32"
    "\<not> dirty \<longrightarrow> acmd_offset a = Some off \<and> ac_data a = Some d" "stale_fits D a"
    using assms(1) by (rule batchE)
  obtain k' D' a' off' d' dirty' where t: "t = wcmd k' D' a' off' d' dirty'" "b = rebase off' d' a'" "write_wf mx a'"
    "off' + length d' < 2 ^ 64" "length (enc_attrs SendVersion2 (ac_attrs a')) + length d' + 12 < 2 ^ 32"
    "\<not> dirty' \<longrightarrow> acmd_offset a' = Some off' \<and> ac_data a' = Some d'" "stale_fits D' a'"
    using assms(2) by (rule batchE)
  have types: "ac_type a = BTRFS_SEND_C_WRITE" "ac_type a' = BTRFS_SEND_C_WRITE"
    using s(3) t(3) by (simp_all add: write_wf_def)
  have "write_offset p = off" "write_offset b = off'"
    using s t by (simp_all add: write_offset_rebase [of mx])
  with SendCommand_can_append_wcmd [OF types s(4)] show ?thesis
    by (simp add: s(1,2) t(1,2) adjacent_def)
qed

text \<open>Merging in memory is merging on abstract writes.\<close>

lemma batch_merge:
  assumes "batch mx x s p" and "batch mx x t b" and "mx = maximum_batched_extent_size (ssuc_options c)"
  obtains s' t' where
    "rbind (SendCommand_can_append s t) (\<lambda>can_append.
       if can_append then
         rbind (SendCommand_append x s c t) (\<lambda>(n, s).
         rbind (truncate_data_payload_at_start x t c n) (\<lambda>t. Inr (s, t)))
       else Inr (s, t)) = Inr (s', t')"
    "batch mx x s' (fst (merge_writes mx p b))" "batch mx x t' (snd (merge_writes mx p b))"
proof -
  obtain k D a off d dirty where s: "s = wcmd k D a off d dirty" "p = rebase off d a" "write_wf mx a"
    "off + length d < 2 ^ 64" "length (enc_attrs SendVersion2 (ac_attrs a)) + length d + 12 < 2 ^ 32"
    "\<not> dirty \<longrightarrow> acmd_offset a = Some off \<and> ac_data a = Some d" "stale_fits D a"
    using assms(1) by (rule batchE)
  obtain k' D' a' off' d' dirty' where t: "t = wcmd k' D' a' off' d' dirty'" "b = rebase off' d' a'" "write_wf mx a'"
    "off' + length d' < 2 ^ 64" "length (enc_attrs SendVersion2 (ac_attrs a')) + length d' + 12 < 2 ^ 32"
    "\<not> dirty' \<longrightarrow> acmd_offset a' = Some off' \<and> ac_data a' = Some d'" "stale_fits D' a'"
    using assms(2) by (rule batchE)
  have types: "ac_type a = BTRFS_SEND_C_WRITE" "ac_type a' = BTRFS_SEND_C_WRITE"
    using s(3) t(3) by (simp_all add: write_wf_def)
  have off: "write_offset p = off" "write_offset b = off'"
    using s t by (simp_all add: write_offset_rebase [of mx])
  note can = batch_can_append [OF assms(1,2)]
  show thesis
  proof (cases "adjacent p b")
    case False
    with can assms(1,2) show thesis by (intro that [of s t]) (simp_all add: merge_writes_def Let_def)
  next
    case True
    then have adj: "acmd_path a = acmd_path a'" "off' = off + length d"
      using off by (auto simp: adjacent_def s(2) t(2))
    let ?n = "min (length d') (mx - length d)"
    let ?d = "d @ take (mx - length d) d'"
    have app: "SendCommand_append x s c t = Inr (?n, wcmd k D a off ?d True)"
      using SendCommand_append_wcmd [OF s(3) types(2) s(4) adj(1) assms(3) s(7)] by (simp add: s t adj(2))
    have trunc: "truncate_data_payload_at_start x t c ?n = Inr (wcmd k' D' a' (off' + ?n) (drop ?n d') True)"
      unfolding t(1) using t(4,7) by (intro truncate_wcmd [OF t(3)]) auto
    have bound: "length (enc_attrs SendVersion2 (ac_attrs a)) + length ?d + 12 < 2 ^ 32"
      using s(3,5) by (auto simp: write_wf_def min_def)
    have "fst (merge_writes mx p b) = rebase off ?d a"
      "snd (merge_writes mx p b) = rebase (off' + ?n) (drop ?n d') a'"
      using True by (simp_all add: merge_writes_def Let_def off [unfolded s(2) t(2)] s(2) t(2))
    moreover have "batch mx x (wcmd k D a off ?d True) (rebase off ?d a)"
      using s(3,4,7) t(4) adj(2) bound by (intro batch_dirtyI) auto
    moreover have "batch mx x (wcmd k' D' a' (off' + ?n) (drop ?n d') True) (rebase (off' + ?n) (drop ?n d') a')"
      using t(3,4,5,7) by (intro batch_dirtyI) auto
    ultimately show thesis
      using can app trunc True by (intro that) simp_all
  qed
qed

section \<open>Writing a batch out\<close>

lemma flush_and_persist_batch:
  assumes "batch mx x s p" and "sink c"
  obtains c' where "flush_and_persist x s c = Inr c'"
    "emits c (enc_commands x SendVersion2 (with_pad (ssuc_options c) (get_write_offset c) p)) c'"
proof -
  obtain k D a off d dirty where s: "s = wcmd k D a off d dirty" "p = rebase off d a" "write_wf mx a"
    "off + length d < 2 ^ 64" "length (enc_attrs SendVersion2 (ac_attrs a)) + length d + 12 < 2 ^ 32"
    "\<not> dirty \<longrightarrow> acmd_offset a = Some off \<and> ac_data a = Some d" "stale_fits D a"
    using assms(1) by (rule batchE)
  have "(if dirty then SendCommand_flush x s c else Inr s) = Inr (mk_command x SendVersion2 p)"
  proof (cases dirty)
    case True
    with s SendCommand_flush_wcmd [OF s(3) sink_version [OF assms(2)] _ s(5,7)] show ?thesis by simp
  next
    case False
    with batch_clean [OF assms(1)] s(1) show ?thesis by simp
  qed
  then have "flush_and_persist x s c = SendCommand_persist x (mk_command x SendVersion2 p) c"
    by (auto simp: flush_and_persist_def s(1) split: if_splits)
  with that batch_wf(1,2) [OF assms(1)] SendCommand_persist_mk [OF assms(2), of p mx] show thesis
    by metis
qed

lemma persist_compressed:
  assumes "sink c" and "write_wf mx a" and "length z + 44 \<le> length d"
    and "length (enc_attrs SendVersion2 (ac_attrs a)) + length d + 12 < 2 ^ 32"
  obtains c' where "SendCommand_persist x (compressed_command x a off d z) c = Inr c'"
    "emits c (enc_commands x SendVersion2 [encoded_write (length d) z (rebase off d a)]) c'"
proof -
  let ?s = "compressed_command x a off d z" and ?e = "encoded_write (length d) z (rebase off d a)"
  have ver: "SendCommand_verify x ?s c = Inr ()"
    using SendCommand_verify_clean [OF encoded_write_wf [OF assms(2,3,4)]]
      SendCommand_verify_cong [of ?s "mk_command x SendVersion2 ?e"]
    by (simp add: compressed_command_def)
  have len: "length (sc_buffer ?s) \<le> sc_uncompressed_size ?s"
    using assms(2,3)
    by (simp add: compressed_command_def enc_payload_encoded_write length_encoding_attrs length_enc_attr)
  obtain c' where "SendCommand_persist x ?s c = Inr c'" "emits c (sc_buffer ?s) c'"
    by (rule SendCommand_persist_unpadded [OF assms(1) ver _ _ len]) (simp_all add: compressed_command_def)
  then show thesis by (intro that) (simp_all add: compressed_command_def)
qed

text \<open>A batch is written out as the specification says.\<close>

lemma persist_previous_batch:
  assumes "batch mx x s p" and "sink c"
  shows "case emit_write x (ssuc_options c) (get_write_offset c) p of
      Inl e \<Rightarrow> persist_previous x s c = Inl e
    | Inr out \<Rightarrow> \<exists>c'. persist_previous x s c = Inr c' \<and> emits c (enc_commands x SendVersion2 out) c'"
proof -
  let ?opts = "ssuc_options c"
  note comp = batch_simps(5) [OF assms(1)]
  obtain cf where plain: "flush_and_persist x s c = Inr cf"
    "emits c (enc_commands x SendVersion2 (with_pad ?opts (get_write_offset c) p)) cf"
    using assms by (rule flush_and_persist_batch)
  show ?thesis
  proof (cases "compression_level ?opts = 0")
    case True
    with plain show ?thesis by (simp add: emit_write_def persist_previous_def)
  next
    case False
    obtain k D a off d dirty where s: "s = wcmd k D a off d dirty" "p = rebase off d a" "write_wf mx a"
      "off + length d < 2 ^ 64" "length (enc_attrs SendVersion2 (ac_attrs a)) + length d + 12 < 2 ^ 32"
      "\<not> dirty \<longrightarrow> acmd_offset a = Some off \<and> ac_data a = Some d" "stale_fits D a"
      using assms(1) by (rule batchE)
    note cmp = SendCommand_compress_wcmd [OF s(3) sink_version [OF assms(2)] s(6) _ False s(5,7), of x k, folded s(1)]
    show ?thesis
    proof (cases "compressed_payload x ?opts d")
      case (Inl e)
      then have "e = Bail (Elem CompressorFailed)"
        by (auto simp: compressed_payload_def of_option_def split: if_splits option.splits)
      with Inl cmp s(4) False comp show ?thesis
        by (simp add: emit_write_def s(2) persist_previous_def)
    next
      case (Inr r)
      show ?thesis
      proof (cases r)
        case None
        with Inr cmp s(4) obtain i j k where "SendCommand_compress x s c = Inl (FailedToShrinkPayload i j k)"
          by auto
        with Inr None plain False comp show ?thesis
          by (auto simp: emit_write_def persist_previous_def s(2))
      next
        case (Some z)
        have cz: "SendCommand_compress x s c = Inr (compressed_command x a off d z)" and z: "length z + 44 \<le> length d"
          using Inr Some cmp s(4)
          by (auto simp: compressed_payload_def of_option_def split: if_splits option.splits)
        obtain c' where c': "SendCommand_persist x (compressed_command x a off d z) c = Inr c'"
          "emits c (enc_commands x SendVersion2 [encoded_write (length d) z p]) c'"
          unfolding s(2) using assms(2) s(3) z s(5) by (rule persist_compressed)
        with cz Inr Some False comp show ?thesis
          by (simp add: emit_write_def persist_previous_def s(2) compressed_command_def)
      qed
    qed
  qed
qed

section \<open>The main loop\<close>

lemma same_but_source_sink:
  assumes "same_but_source c c'"
  shows "sink c' = sink c" "written c' = written c" "get_write_offset c' = get_write_offset c"
    "ssuc_options c' = ssuc_options c"
  using assms
  by (simp_all add: same_but_source_def sink_def written_def get_write_offset_def get_destination_version_def)

lemma emits_source:
  assumes "emits c bs c'"
  shows "upcoming c' = upcoming c" "get_source_version c' = get_source_version c"
    "Source_is_external (ssuc_source c') = Source_is_external (ssuc_source c)"
proof -
  have src: "ssuc_source c' = ssuc_source c" using assms by (simp add: emits_def)
  show "upcoming c' = upcoming c" by (rule ext) (unfold upcoming_def src, rule refl)
  show "get_source_version c' = get_source_version c"
    "Source_is_external (ssuc_source c') = Source_is_external (ssuc_source c)"
    by (simp_all add: get_source_version_def src)
qed

lemma merge_previous_batch:
  assumes "batch mx x s p" and "batch mx x t b" and "sink c"
    and mx: "mx = maximum_batched_extent_size (ssuc_options c)"
    and mw: "merge_writes mx p b = (p', b')"
  shows "if mx \<le> length (write_data p') \<or> write_data b' \<noteq> []
    then case emit_write x (ssuc_options c) (get_write_offset c) p' of
        Inl e \<Rightarrow> merge_previous x (Some s) t c = Inl e
      | Inr out \<Rightarrow> \<exists>t' c'. merge_previous x (Some s) t c = Inr (None, t', c') \<and> batch mx x t' b' \<and>
          emits c (enc_commands x SendVersion2 out) c'
    else \<exists>s' t'. merge_previous x (Some s) t c = Inr (Some s', t', c) \<and> batch mx x s' p' \<and> batch mx x t' b'"
proof -
  obtain s' t' where m: "rbind (SendCommand_can_append s t) (\<lambda>can_append.
       if can_append then
         rbind (SendCommand_append x s c t) (\<lambda>(n, s).
         rbind (truncate_data_payload_at_start x t c n) (\<lambda>t. Inr (s, t)))
       else Inr (s, t)) = Inr (s', t')" and s': "batch mx x s' p'" and t': "batch mx x t' b'"
    using batch_merge [OF assms(1,2) mx] mw by (metis fst_conv snd_conv)
  have eq: "merge_previous x (Some s) t c =
      (if mx \<le> length (write_data p') \<or> write_data b' \<noteq> []
       then rbind (persist_previous x s' c) (\<lambda>c1. Inr (None, t', c1)) else Inr (Some s', t', c))"
    using m batch_simps(1,2) [OF s'] batch_simps(1,2) [OF t'] mx
    by (simp add: merge_previous_def rbind_assoc [symmetric])
  show ?thesis
    using eq s' t' persist_previous_batch [OF s' assms(3)]
    by (auto split: sum.splits)
qed

text \<open>Commands other than writes push the batch out.\<close>

lemma merge_previous_other:
  assumes "batch mx x s p" and "ac_type a \<noteq> BTRFS_SEND_C_WRITE" and "ac_data a \<noteq> Some []"
  shows "merge_previous x (Some s) (mk_command x SendVersion2 a) c =
    rbind (persist_previous x s c) (\<lambda>c1. Inr (None, mk_command x SendVersion2 a, c1))"
proof -
  have "SendCommand_can_append s (mk_command x SendVersion2 a) = Inr False"
    using assms(1,2)
    by (auto simp: SendCommand_can_append_def are_commands_appendable_def batch_def write_wf_def
        split: option.splits)
  moreover have "\<not> SendCommand_is_empty (mk_command x SendVersion2 a)"
    using assms(3) by (auto simp: SendCommand_is_empty_def split: option.splits)
  ultimately show ?thesis by (simp add: merge_previous_def)
qed

lemma mk_command_predicates:
  "SendCommand_is_appendable (mk_command x v a) \<longleftrightarrow> ac_type a = BTRFS_SEND_C_WRITE"
  "SendCommand_is_end (mk_command x v a) \<longleftrightarrow> ac_type a = BTRFS_SEND_C_END"
  by (simp_all add: SendCommand_is_appendable_def SendCommandHeader_is_appendable_def
      APPENDABLE_COMMAND_TYPES_def SendCommand_is_end_def is_command_end_def)

lemma SendCommand_new_at_end:
  assumes "upcoming c []" and "Source_is_external (ssuc_source c)"
  shows "SendCommand_new x c = Inl (Bail (Io ShortRead))"
proof -
  have "r = []" if "steady r" "reader_bytes r = []" for r
    using that by (cases r) auto
  with assms have "ssus_source (ssuc_source c) = SssBufReader [] \<or> ssus_source (ssuc_source c) = SssReader []"
    by (auto simp: upcoming_def Source_is_external_def split: SendStreamSource.splits)
  then show ?thesis
    by (auto simp: SendCommand_new_def SendCommandHeader_new_def read32_def read_exact_def Context_read_def
        Source_read_def read_loop.simps [of "[]"])
qed

text \<open>Reading and upgrading the next command.\<close>

lemma next_command:
  assumes "upcoming c (enc_command x sv a @ rest)" and "get_source_version c = Inr sv"
    and "stream_wf sv mx a" and "sink c"
  obtains c1 where
    "upgrade_commands_single_threaded x prev c =
       rbind (merge_previous x prev (mk_command x SendVersion2 a) c1) (\<lambda>(previous_command_option, command, c2).
       if SendCommand_is_end command then SendCommand_persist x command c2
       else if \<not> SendCommand_is_appendable command then
         rbind (SendCommand_persist x command c2) (\<lambda>c3.
         ensure (previous_command_option = None) (Cmd UnexpectedPreviousCommand)
           (upgrade_commands_single_threaded x None c3))
       else if \<not> SendCommand_is_empty command then
         upgrade_commands_single_threaded x (Some command) c2
       else upgrade_commands_single_threaded x previous_command_option c2)"
    "upcoming c1 rest" "same_but_source c c1" "sink c1"
proof -
  have wf: "acmd_wf sv a" "input_wf sv a" using assms(3) by (simp_all add: stream_wf_def input_wf_def)
  obtain c1 where c1: "SendCommand_new x c = Inr (mk_command x sv a, c1)" "upcoming c1 rest"
    "same_but_source c c1"
    using assms(1,2) wf(1) by (rule SendCommand_new_upcoming)
  have sink: "sink c1" using same_but_source_sink(1) [OF c1(3)] assms(4) by simp
  have "upgrade_command x (mk_command x sv a) c1 = Inr (mk_command x SendVersion2 a)"
    using wf(2) sink_version [OF sink] by (rule upgrade_command_mk)
  with c1 sink show thesis
    by (intro that [of c1]) (simp_all add: upgrade_commands_single_threaded.simps [of x prev c])
qed

text \<open>\<open>outcome\<close>: a run ends with the error of the specification, or having written its output.\<close>

definition outcome :: "externs \<Rightarrow> acmd list result \<Rightarrow> ctx \<Rightarrow> ctx result \<Rightarrow> bool" where
  "outcome x spec c run =
     (case spec of
        Inl e \<Rightarrow> run = Inl e
      | Inr out \<Rightarrow> \<exists>c'. run = Inr c' \<and> sink c' \<and> written c' = written c @ enc_commands x SendVersion2 out)"

lemma outcome_same: "same_but_source c c1 \<Longrightarrow> outcome x spec c1 run = outcome x spec c run"
  by (auto simp: outcome_def same_but_source_sink split: sum.splits)

lemma outcome_prefix:
  assumes "emits c (enc_commands x SendVersion2 out) c1" and "outcome x spec c1 run"
  shows "outcome x (rbind spec (\<lambda>rest. Inr (out @ rest))) c run"
  using assms by (cases spec) (auto simp: outcome_def emits_def)

text \<open>One turn of the loop does what one step of the specification says.\<close>

definition turn_ok ::
  "nat \<Rightarrow> externs \<Rightarrow> acmd \<Rightarrow> (acmd list \<times> acmd option) result \<Rightarrow> ctx \<Rightarrow> ctx result \<Rightarrow> bool" where
  "turn_ok mx x a spec c run =
     (case spec of
        Inl e \<Rightarrow> run = Inl e
      | Inr (out, prev') \<Rightarrow>
          \<exists>c2 sprev'. emits c (enc_commands x SendVersion2 out) c2 \<and> rel_option (batch mx x) sprev' prev' \<and>
            run = (if ac_type a = BTRFS_SEND_C_END then Inr c2
                   else upgrade_commands_single_threaded x sprev' c2))"

lemma turn_okI:
  assumes "emits c (enc_commands x SendVersion2 out) c2" and "rel_option (batch mx x) sprev' prev'"
    and "run = (if ac_type a = BTRFS_SEND_C_END then Inr c2
                else upgrade_commands_single_threaded x sprev' c2)"
  shows "turn_ok mx x a (Inr (out, prev')) c run"
  using assms by (auto simp: turn_ok_def)

definition rest_of_turn ::
  "externs \<Rightarrow> SendCommand option \<times> SendCommand \<times> ctx \<Rightarrow> ctx result" where
  "rest_of_turn x = (\<lambda>(previous_command_option, command, c2).
     if SendCommand_is_end command then SendCommand_persist x command c2
     else if \<not> SendCommand_is_appendable command then
       rbind (SendCommand_persist x command c2) (\<lambda>c3.
       ensure (previous_command_option = None) (Cmd UnexpectedPreviousCommand)
         (upgrade_commands_single_threaded x None c3))
     else if \<not> SendCommand_is_empty command then
       upgrade_commands_single_threaded x (Some command) c2
     else upgrade_commands_single_threaded x previous_command_option c2)"

lemma rest_of_turn_batch:
  assumes "batch mx x t b"
  shows "rest_of_turn x (po, t, c) =
    upgrade_commands_single_threaded x (if write_data b = [] then po else Some t) c"
  using batch_simps [OF assms] by (auto simp: rest_of_turn_def)

lemma write_turn:
  assumes "sink c" and "mx = maximum_batched_extent_size (ssuc_options c)"
    and "stream_wf sv mx a" and w: "ac_type a = BTRFS_SEND_C_WRITE" and "rel_option (batch mx x) sprev prev"
  shows "turn_ok mx x a (spec_step x (ssuc_options c) (get_write_offset c) prev a) c
    (rbind (merge_previous x sprev (mk_command x SendVersion2 a) c) (rest_of_turn x))"
proof (cases prev)
  case None
  note b = batch_of_write [OF assms(3) w, of x]
  have "sprev = None" using None assms(5) by simp
  then have run: "rbind (merge_previous x sprev (mk_command x SendVersion2 a) c) (rest_of_turn x) =
      upgrade_commands_single_threaded x
        (if write_data a = [] then None else Some (mk_command x SendVersion2 a)) c"
    by (simp add: merge_previous_def rest_of_turn_batch [OF b])
  have "spec_step x (ssuc_options c) (get_write_offset c) prev a = Inr ([], nonempty a)"
    using None w by (simp add: spec_step_def)
  then show ?thesis
    unfolding run using b w emits_refl [OF assms(1)]
    by (auto intro!: turn_okI [of c x "[]" c])
next
  case (Some p)
  note b = batch_of_write [OF assms(3) w, of x]
  from Some assms(5) obtain s where s: "sprev = Some s" "batch mx x s p"
    by (auto simp: option_rel_Some2)
  obtain p' b' where mw: "merge_writes mx p a = (p', b')" by (cases "merge_writes mx p a")
  note m = merge_previous_batch [OF s(2) b assms(1,2) mw]
  show ?thesis
  proof (cases "mx \<le> length (write_data p') \<or> write_data b' \<noteq> []")
    case False
    with m obtain s' t' where "merge_previous x sprev (mk_command x SendVersion2 a) c = Inr (Some s', t', c)"
      "batch mx x s' p'" "batch mx x t' b'" by (auto simp: s)
    moreover have "spec_step x (ssuc_options c) (get_write_offset c) prev a = Inr ([], Some p')"
      using False mw w Some assms(2) by (simp add: spec_step_def)
    ultimately show ?thesis
      using False w emits_refl [OF assms(1)]
      by (auto simp: rest_of_turn_batch intro!: turn_okI [of c x "[]" c _ "Some s'"])
  next
    case True
    show ?thesis
    proof (cases "emit_write x (ssuc_options c) (get_write_offset c) p'")
      case (Inl e)
      with True m mw w Some assms(2) show ?thesis
        by (simp add: turn_ok_def spec_step_def s)
    next
      case (Inr out)
      with True m obtain t' c' where "merge_previous x sprev (mk_command x SendVersion2 a) c = Inr (None, t', c')"
        "batch mx x t' b'" "emits c (enc_commands x SendVersion2 out) c'" by (auto simp: s)
      moreover have "spec_step x (ssuc_options c) (get_write_offset c) prev a = Inr (out, nonempty b')"
        using Inr True mw w Some assms(2) by (simp add: spec_step_def)
      ultimately show ?thesis
        using w by (auto simp: rest_of_turn_batch intro!: turn_okI [of c x out c'])
    qed
  qed
qed

lemma other_turn:
  assumes "sink c" and "stream_wf sv mx a" and o: "ac_type a \<noteq> BTRFS_SEND_C_WRITE"
    and "rel_option (batch mx x) sprev prev"
  shows "turn_ok mx x a (spec_step x (ssuc_options c) (get_write_offset c) prev a) c
    (rbind (merge_previous x sprev (mk_command x SendVersion2 a) c) (rest_of_turn x))"
proof -
  have nd: "ac_data a \<noteq> Some []" and awf: "acmd_wf SendVersion2 a"
    using assms(2) o by (auto simp: stream_wf_def input_wf_def intro: acmd_wf_upgrade)
  let ?out = "case prev of None \<Rightarrow> Inr [] | Some p \<Rightarrow> emit_write x (ssuc_options c) (get_write_offset c) p"
  have m: "case ?out of Inl e \<Rightarrow> merge_previous x sprev (mk_command x SendVersion2 a) c = Inl e
    | Inr out \<Rightarrow> \<exists>c2. merge_previous x sprev (mk_command x SendVersion2 a) c =
          Inr (None, mk_command x SendVersion2 a, c2) \<and> emits c (enc_commands x SendVersion2 out) c2"
  proof (cases prev)
    case None
    with assms(4) emits_refl [OF assms(1)] show ?thesis by (auto simp: merge_previous_def)
  next
    case (Some p)
    with assms(4) obtain s where s: "sprev = Some s" "batch mx x s p"
      by (auto simp: option_rel_Some2)
    show ?thesis
      using persist_previous_batch [OF s(2) assms(1)] merge_previous_other [OF s(2) o nd, of c]
      by (auto simp: Some s split: sum.splits)
  qed
  show ?thesis
  proof (cases ?out)
    case (Inl e)
    with m o show ?thesis by (simp add: turn_ok_def spec_step_def)
  next
    case (Inr out)
    with m obtain c2 where c2: "merge_previous x sprev (mk_command x SendVersion2 a) c =
          Inr (None, mk_command x SendVersion2 a, c2)" "emits c (enc_commands x SendVersion2 out) c2"
      by auto
    have "sink c2" using c2(2) by (simp add: emits_def)
    moreover have "with_pad o' n a = [a]" for o' n using o by (simp add: with_pad_def)
    ultimately obtain c3 where c3: "SendCommand_persist x (mk_command x SendVersion2 a) c2 = Inr c3"
      "emits c2 (enc_commands x SendVersion2 [a]) c3"
      using SendCommand_persist_mk [OF _ awf, of c2 mx x] o by metis
    have "emits c (enc_commands x SendVersion2 (out @ [a])) c3"
      using emits_trans [OF c2(2) c3(2)] by simp
    with Inr o c2(1) c3(1) show ?thesis
      by (auto simp: turn_ok_def spec_step_def rest_of_turn_def mk_command_predicates)
  qed
qed

lemma upgrade_loop_refines:
  assumes "upcoming c (enc_commands x sv cmds @ tail)" and "get_source_version c = Inr sv" and "sink c"
    and "Source_is_external (ssuc_source c)"
    and "mx = maximum_batched_extent_size (ssuc_options c)"
    and "\<forall>a \<in> set cmds. stream_wf sv mx a" and "rel_option (batch mx x) sprev prev"
    and "tail = [] \<or> BTRFS_SEND_C_END \<in> ac_type ` set cmds"
  shows "outcome x (upgrade_spec x (ssuc_options c) (get_write_offset c) prev cmds) c
    (upgrade_commands_single_threaded x sprev c)"
  using assms
proof (induction cmds arbitrary: c sprev prev)
  case Nil
  then have "SendCommand_new x c = Inl (Bail (Io ShortRead))"
    by (intro SendCommand_new_at_end) auto
  then show ?case
    by (simp add: outcome_def upgrade_commands_single_threaded.simps [of x sprev c])
next
  case (Cons a cmds)
  let ?opts = "ssuc_options c"
  from Cons.prems(1) have up: "upcoming c (enc_command x sv a @ enc_commands x sv cmds @ tail)" by simp
  have wf: "stream_wf sv mx a" using Cons.prems(6) by simp
  obtain c1 where run: "upgrade_commands_single_threaded x sprev c =
       rbind (merge_previous x sprev (mk_command x SendVersion2 a) c1) (rest_of_turn x)"
    and c1: "upcoming c1 (enc_commands x sv cmds @ tail)" "same_but_source c c1" "sink c1"
    unfolding rest_of_turn_def using up Cons.prems(2) wf Cons.prems(3) by (rule next_command)
  note same = same_but_source_sink [OF c1(2)] same_but_source_versions(1) [OF c1(2)]
  have ext: "Source_is_external (ssuc_source c1)"
    using c1(2) Cons.prems(4) by (simp add: same_but_source_def)
  have turn: "turn_ok mx x a (spec_step x ?opts (get_write_offset c) prev a) c1
      (upgrade_commands_single_threaded x sprev c)"
    unfolding run using write_turn [OF c1(3) _ wf _ Cons.prems(7)] other_turn [OF c1(3) wf _ Cons.prems(7)]
      same Cons.prems(5) by (cases "ac_type a = BTRFS_SEND_C_WRITE") simp_all
  show ?case
  proof (cases "spec_step x ?opts (get_write_offset c) prev a")
    case (Inl e)
    with turn show ?thesis by (simp add: turn_ok_def outcome_def)
  next
    case (Inr r)
    obtain out prev' where r: "r = (out, prev')" by (cases r)
    with Inr turn obtain c2 sprev' where c2: "emits c1 (enc_commands x SendVersion2 out) c2"
      "rel_option (batch mx x) sprev' prev'" "upgrade_commands_single_threaded x sprev c =
        (if ac_type a = BTRFS_SEND_C_END then Inr c2 else upgrade_commands_single_threaded x sprev' c2)"
      by (auto simp: turn_ok_def)
    show ?thesis
    proof (cases "ac_type a = BTRFS_SEND_C_END")
      case True
      with Inr r c2(1,3) same show ?thesis by (simp add: outcome_def emits_def)
    next
      case False
      have opts: "ssuc_options c2 = ?opts" "sink c2"
        "get_write_offset c2 = get_write_offset c + length (enc_commands x SendVersion2 out)"
        using c2(1) same by (simp_all add: emits_def)
      have "outcome x (upgrade_spec x ?opts (get_write_offset c2) prev' cmds) c2
          (upgrade_commands_single_threaded x sprev c)"
        using Cons.IH [of c2 sprev' prev'] c2(2,3) False c1(1) ext same Cons.prems opts
          emits_source [OF c2(1)] by auto
      with outcome_prefix [OF c2(1)] outcome_same [OF c1(2)] False Inr r opts(3) show ?thesis
        by simp
    qed
  qed
qed

end
