(* ===== verification/Upgrade_Effects.thy ===== *)
theory Upgrade_Effects
  imports Upgrade_Spec
begin

text \<open>
  What a stream does to the receiving file system, as the sequence of its byte writes and of its
  other commands, and that the specification of the upgrade keeps this sequence. The zstd decoder
  is third-party: it enters as a parameter \<open>dec\<close> with the hypothesis that it inverts the encoder.
\<close>

section \<open>Effects\<close>

datatype effect = PutByte "bytes option" nat byte | Exec acmd

fun puts :: "bytes option \<Rightarrow> nat \<Rightarrow> bytes \<Rightarrow> effect list" where
  "puts path off [] = []"
| "puts path off (b # d) = PutByte path off b # puts path (off + 1) d"

text \<open>Updates of extents carry no data: they only account for space.\<close>

definition effects :: "(bytes \<Rightarrow> bytes option) \<Rightarrow> acmd \<Rightarrow> effect list" where
  "effects dec a =
     (if ac_type a = BTRFS_SEND_C_WRITE then puts (acmd_path a) (write_offset a) (write_data a)
      else if ac_type a = BTRFS_SEND_C_ENCODED_WRITE then
        (case dec (write_data a) of
           Some d \<Rightarrow> puts (acmd_path a) (write_offset a) d
         | None \<Rightarrow> [Exec a])
      else if ac_type a = BTRFS_SEND_C_UPDATE_EXTENT then []
      else [Exec a])"

definition stream_effects :: "(bytes \<Rightarrow> bytes option) \<Rightarrow> acmd list \<Rightarrow> effect list" where
  "stream_effects dec as = concat (map (effects dec) as)"

definition pending_effects :: "(bytes \<Rightarrow> bytes option) \<Rightarrow> acmd option \<Rightarrow> effect list" where
  "pending_effects dec p = (case p of None \<Rightarrow> [] | Some a \<Rightarrow> effects dec a)"

text \<open>The part of a stream that is read.\<close>

fun until_end :: "acmd list \<Rightarrow> acmd list" where
  "until_end [] = []"
| "until_end (a # as) = a # (if ac_type a = BTRFS_SEND_C_END then [] else until_end as)"

lemma puts_append: "puts path off (d @ e) = puts path off d @ puts path (off + length d) e"
  by (induction path off d rule: puts.induct) simp_all

lemma stream_effects_simps [simp]:
  "stream_effects dec [] = []"
  "stream_effects dec (a # as) = effects dec a @ stream_effects dec as"
  "stream_effects dec (as @ bs) = stream_effects dec as @ stream_effects dec bs"
  by (simp_all add: stream_effects_def)

section \<open>Steps of the specification\<close>

definition write_ok :: "nat \<Rightarrow> acmd \<Rightarrow> bool" where
  "write_ok mx a \<longleftrightarrow> write_wf mx a \<and> write_offset a + length (write_data a) < 2 ^ 64"

lemma stream_wf_write_ok: "stream_wf sv mx a \<Longrightarrow> ac_type a = BTRFS_SEND_C_WRITE \<Longrightarrow> write_ok mx a"
  by (simp add: stream_wf_def write_ok_def)

lemma write_wf_length:
  assumes "write_wf mx a"
  shows "length (enc_attrs SendVersion2 (ac_attrs a)) + length (write_data a) + 12 < 2 ^ 32"
proof -
  obtain d where "ac_data a = Some d" "enc_payload SendVersion2 a =
       enc_attrs SendVersion2 (ac_attrs a) @ enc_attr SendVersion2 (BTRFS_SEND_A_DATA, d)"
    using assms by (rule write_wf_shape)
  with assms show ?thesis by (auto simp: write_wf_def acmd_wf_def length_enc_attr write_data_def)
qed

lemma write_ok_rebase:
  assumes "write_ok mx a" and "off + length d < 2 ^ 64"
    and "length (enc_attrs SendVersion2 (ac_attrs a)) + length d + 12 < 2 ^ 32"
  shows "write_ok mx (rebase off d a)"
  using assms write_wf_rebase [of mx a off d] write_offset_rebase [of mx a off d] by (auto simp: write_ok_def)

lemma effects_rebase:
  assumes "write_ok mx a" and "off < 2 ^ 64"
  shows "effects dec (rebase off d a) = puts (acmd_path a) off d"
  using assms write_offset_rebase [of mx a off d] by (auto simp: write_ok_def effects_def write_wf_def)

lemma merge_writes_correct:
  assumes "write_ok mx p" and "write_ok mx a" and "merge_writes mx p a = (p', a')"
  shows "write_ok mx p'" "write_ok mx a'" "effects dec p' @ effects dec a' = effects dec p @ effects dec a"
    "length (write_data p') \<le> max mx (length (write_data p))"
    "length (write_data p') + length (write_data a') = length (write_data p) + length (write_data a)"
proof -
  let ?room = "mx - length (write_data p)" and ?d = "write_data p" and ?e = "write_data a"
  let ?n = "min (length ?e) ?room"
  have p: "effects dec p = puts (acmd_path p) (write_offset p) ?d"
    and a: "effects dec a = puts (acmd_path a) (write_offset a) ?e"
    using assms(1,2) by (simp_all add: effects_def write_ok_def write_wf_def)
  have "write_ok mx p' \<and> write_ok mx a' \<and> effects dec p' @ effects dec a' = effects dec p @ effects dec a \<and>
    length (write_data p') \<le> max mx (length ?d) \<and>
    length (write_data p') + length (write_data a') = length ?d + length ?e"
  proof (cases "adjacent p a")
    case False
    with assms show ?thesis by (auto simp: merge_writes_def Let_def)
  next
    case True
    then have adj: "acmd_path p = acmd_path a" "write_offset a = write_offset p + length ?d"
      by (simp_all add: adjacent_def)
    have m: "p' = rebase (write_offset p) (?d @ take ?room ?e) p"
      "a' = rebase (write_offset a + ?n) (drop ?n ?e) a"
      using assms(3) True by (simp_all add: merge_writes_def Let_def)
    have take: "take ?room ?e = take ?n ?e" by (simp add: min_def)
    have split: "puts q o' (take k f) @ puts q (o' + min (length f) k) (drop k f) = puts q o' f" for q o' k f
      using puts_append [of q o' "take k f" "drop k f"] by simp
    have wp: "write_ok mx p'"
      unfolding m using assms(1,2) adj(2) write_wf_length [of mx p]
      by (intro write_ok_rebase) (auto simp: write_ok_def write_wf_def min_def)
    moreover have wa: "write_ok mx a'"
      unfolding m using assms(2) write_wf_length [of mx a]
      by (intro write_ok_rebase) (auto simp: write_ok_def)
    moreover have "effects dec p' @ effects dec a' = effects dec p @ effects dec a"
    proof -
      have "effects dec p' = puts (acmd_path p) (write_offset p) (?d @ take ?n ?e)"
        "effects dec a' = puts (acmd_path a) (write_offset a + ?n) (drop ?n ?e)"
        unfolding m take using assms(1,2)
        by (auto intro!: effects_rebase simp: write_ok_def)
      then show ?thesis
        using split [of "acmd_path a" "write_offset a" ?n ?e]
        by (simp add: p a puts_append adj)
    qed
    moreover have "length (write_data p') \<le> max mx (length ?d)"
      "length (write_data p') + length (write_data a') = length ?d + length ?e"
      unfolding m by auto
    ultimately show ?thesis by blast
  qed
  then show "write_ok mx p'" "write_ok mx a'" "effects dec p' @ effects dec a' = effects dec p @ effects dec a"
    "length (write_data p') \<le> max mx (length (write_data p))"
    "length (write_data p') + length (write_data a') = length (write_data p) + length (write_data a)"
    by blast+
qed

lemma batch_write_ok:
  assumes "batch mx x s p"
  shows "write_ok mx p"
proof -
  obtain a off d where "p = rebase off d a" "write_wf mx a" "off + length d < 2 ^ 64"
    using assms by (auto simp: batch_def)
  with batch_wf(1) [OF assms] write_offset_rebase [of mx a off d] show ?thesis
    by (simp add: write_ok_def)
qed

lemma merge_writes_adjacent:
  assumes "write_ok mx p" and "write_ok mx a" and "adjacent p a" and "merge_writes mx p a = (p', a')"
  shows "write_data p' @ write_data a' = write_data p @ write_data a" "write_offset p' = write_offset p"
    "write_offset a' = write_offset p' + length (write_data p')"
proof -
  have m: "p' = rebase (write_offset p) (write_data p @ take (mx - length (write_data p)) (write_data a)) p"
    "a' = rebase (write_offset a + min (length (write_data a)) (mx - length (write_data p)))
       (drop (min (length (write_data a)) (mx - length (write_data p))) (write_data a)) a"
    using assms(3,4) by (simp_all add: merge_writes_def Let_def)
  show p: "write_offset p' = write_offset p"
    unfolding m using assms(1) by (auto simp: write_ok_def write_offset_rebase [of mx])
  show "write_data p' @ write_data a' = write_data p @ write_data a"
    unfolding m by (simp add: min_def)
  have "write_offset a' = write_offset a + min (length (write_data a)) (mx - length (write_data p))"
    unfolding m using assms(2) by (auto simp: write_ok_def write_offset_rebase [of mx])
  with assms(3) show "write_offset a' = write_offset p' + length (write_data p')"
    unfolding p by (simp add: m(1) adjacent_def)
qed

text \<open>The decoder inverts the encoder under the options of the run.\<close>

definition zstd_inverts ::
  "externs \<Rightarrow> SendStreamUpgradeOptions \<Rightarrow> (bytes \<Rightarrow> bytes option) \<Rightarrow> bool" where
  "zstd_inverts x opts dec \<longleftrightarrow> (\<forall>d z. zstd x opts d = Some z \<longrightarrow> dec z = Some d)"

lemma effects_pad [simp]: "effects dec (pad_command n) = []"
  by (simp add: effects_def pad_command_def)

lemma effects_with_pad: "stream_effects dec (with_pad opts off a) = effects dec a"
  by (simp add: with_pad_def)

lemma emit_write_effects:
  assumes "zstd_inverts x opts dec" and "write_ok mx a" and "emit_write x opts off a = Inr out"
  shows "stream_effects dec out = effects dec a"
proof -
  have enc: "effects dec (encoded_write n z a) = effects dec a" if "dec z = Some (write_data a)" for n z
    using that assms(2) by (simp add: effects_def write_ok_def write_wf_def write_offset_def write_data_def)
  have "dec z = Some (write_data a)" if "compressed_payload x opts (write_data a) = Inr (Some z)" for z
    using that assms(1)
    by (auto simp: compressed_payload_def zstd_inverts_def of_option_def split: if_splits option.splits)
  with assms(3) enc show ?thesis
    by (auto simp: emit_write_def effects_with_pad result_simps split: if_splits option.splits)
qed

definition pending_ok :: "nat \<Rightarrow> acmd option \<Rightarrow> bool" where
  "pending_ok mx p = (case p of None \<Rightarrow> True | Some a \<Rightarrow> write_ok mx a)"

lemma effects_nonempty: "write_ok mx a \<Longrightarrow> pending_effects dec (nonempty a) = effects dec a"
  by (auto simp: pending_effects_def effects_def write_ok_def write_wf_def)

lemma spec_step_effects:
  assumes "zstd_inverts x opts dec" and "mx = maximum_batched_extent_size opts"
    and "stream_wf sv mx a" and "pending_ok mx prev" and "spec_step x opts off prev a = Inr (out, prev')"
  shows "pending_ok mx prev'"
    "stream_effects dec out @ pending_effects dec prev' = pending_effects dec prev @ effects dec a"
proof -
  have "pending_ok mx prev' \<and>
    stream_effects dec out @ pending_effects dec prev' = pending_effects dec prev @ effects dec a"
  proof (cases "ac_type a = BTRFS_SEND_C_WRITE")
    case False
    with assms(4,5) show ?thesis
      by (auto simp: spec_step_def pending_ok_def pending_effects_def result_simps split: option.splits
          dest: emit_write_effects [OF assms(1)])
  next
    case True
    note a = stream_wf_write_ok [OF assms(3) True]
    show ?thesis
    proof (cases prev)
      case None
      with True assms(5) a effects_nonempty [OF a] show ?thesis
        by (auto simp: spec_step_def pending_ok_def pending_effects_def)
    next
      case (Some p)
      then have p: "write_ok mx p" using assms(4) by (simp add: pending_ok_def)
      obtain p' a' where mw: "merge_writes mx p a = (p', a')" by (cases "merge_writes mx p a")
      note m = merge_writes_correct [OF p a mw]
      show ?thesis
      proof (cases "mx \<le> length (write_data p') \<or> write_data a' \<noteq> []")
        case True
        with Some \<open>ac_type a = BTRFS_SEND_C_WRITE\<close> assms(2,5) mw have
          "emit_write x opts off p' = Inr out" "prev' = nonempty a'"
          by (auto simp: spec_step_def result_simps)
        with emit_write_effects [OF assms(1) m(1)] effects_nonempty [OF m(2)] m(2,3) Some show ?thesis
          by (auto simp: pending_ok_def pending_effects_def)
      next
        case False
        with Some \<open>ac_type a = BTRFS_SEND_C_WRITE\<close> assms(2,5) mw have
          "out = []" "prev' = Some p'" "effects dec a' = []"
          using m(2) by (auto simp: spec_step_def effects_def write_ok_def write_wf_def)
        with m(1) m(3) [of dec] Some show ?thesis by (auto simp: pending_ok_def pending_effects_def)
      qed
    qed
  qed
  then show "pending_ok mx prev'"
    "stream_effects dec out @ pending_effects dec prev' = pending_effects dec prev @ effects dec a" by blast+
qed

lemma spec_step_flushes:
  "spec_step x opts off prev a = Inr (out, prev') \<Longrightarrow> ac_type a = BTRFS_SEND_C_END \<Longrightarrow> prev' = None"
  by (auto simp: spec_step_def result_simps)

text \<open>Every byte is written at the same place, and everything else happens in the same order.\<close>

lemma upgrade_spec_effects:
  assumes "zstd_inverts x opts dec" and "mx = maximum_batched_extent_size opts"
    and "\<forall>a \<in> set cmds. stream_wf sv mx a" and "pending_ok mx prev"
    and "upgrade_spec x opts off prev cmds = Inr out"
  shows "stream_effects dec out = pending_effects dec prev @ stream_effects dec (until_end cmds)"
  using assms(3-)
proof (induction cmds arbitrary: off prev out)
  case Nil
  then show ?case by simp
next
  case (Cons a cmds)
  from Cons.prems(3) obtain o1 prev' where step: "spec_step x opts off prev a = Inr (o1, prev')"
    by (auto simp: result_simps)
  have wf: "stream_wf sv mx a" using Cons.prems(1) by simp
  note e = spec_step_effects [OF assms(1,2) wf Cons.prems(2) step]
  show ?case
  proof (cases "ac_type a = BTRFS_SEND_C_END")
    case True
    with Cons.prems(3) step e(2) spec_step_flushes [OF step True] show ?thesis
      by (simp add: pending_effects_def)
  next
    case False
    with Cons.prems(3) step obtain o2 where
      "upgrade_spec x opts (off + length (enc_commands x SendVersion2 o1)) prev' cmds = Inr o2" "out = o1 @ o2"
      by (auto simp: result_simps)
    with Cons.IH Cons.prems(1) e False show ?thesis by (simp flip: append_assoc)
  qed
qed

section \<open>The output is a well-formed stream\<close>

lemma pad_command_wf: "38 \<le> n \<Longrightarrow> n < 4134 \<Longrightarrow> acmd_wf SendVersion2 (pad_command n)"
proof -
  assume n: "38 \<le> n" "n < 4134"
  have "utf8_valid (replicate m 0x61)" for m
    by (induction m) simp_all
  with n length_enc_pad [OF n(1)] show ?thesis
    by (auto simp: acmd_wf_def pad_command_def all_attrs_def attr_wf_def attr_fits_def)
qed

lemma write_ok_wf: "write_ok mx a \<Longrightarrow> acmd_wf SendVersion2 a"
  by (simp add: write_ok_def write_wf_def)

lemma with_pad_wf: "acmd_wf SendVersion2 a \<Longrightarrow> \<forall>b \<in> set (with_pad opts off a). acmd_wf SendVersion2 b"
  using pad_command_wf [OF pad_size_bounds] by (auto simp: with_pad_def)

lemma emit_write_wf:
  assumes "write_ok mx a" and "emit_write x opts off a = Inr out"
  shows "\<forall>b \<in> set out. acmd_wf SendVersion2 b"
proof -
  have wf: "write_wf mx a" using assms(1) by (simp add: write_ok_def)
  obtain o' d where a: "acmd_offset a = Some o'" "ac_data a = Some d" using wf by (rule write_wf_shape)
  have "acmd_wf SendVersion2 (encoded_write (length (write_data a)) z a)"
    if "length z + 44 \<le> length (write_data a)" for z
    using encoded_write_wf [OF wf, of z "write_data a" o'] that write_wf_length [OF wf]
      rebase_same [OF wf a] by (simp add: write_data_def a)
  moreover have "length z + 44 \<le> length (write_data a)"
    if "compressed_payload x opts (write_data a) = Inr (Some z)" for z
    using that by (auto simp: compressed_payload_def of_option_def split: if_splits option.splits)
  ultimately show ?thesis
    using assms(2) with_pad_wf [OF write_ok_wf [OF assms(1)]]
    by (auto simp: emit_write_def result_simps split: if_splits option.splits)
qed

lemma spec_step_wf:
  assumes "mx = maximum_batched_extent_size opts"
    and "stream_wf sv mx a" and "pending_ok mx prev" and "spec_step x opts off prev a = Inr (out, prev')"
  shows "pending_ok mx prev'" "\<forall>b \<in> set out. acmd_wf SendVersion2 b"
proof -
  have "pending_ok mx prev' \<and> (\<forall>b \<in> set out. acmd_wf SendVersion2 b)"
  proof (cases "ac_type a = BTRFS_SEND_C_WRITE")
    case False
    have "acmd_wf SendVersion2 a"
      using assms(2) acmd_wf_upgrade by (auto simp: stream_wf_def input_wf_def)
    with False assms(3,4) show ?thesis
      by (auto simp: spec_step_def pending_ok_def result_simps split: option.splits)
        (use emit_write_wf in blast)
  next
    case True
    note a = stream_wf_write_ok [OF assms(2) True]
    show ?thesis
    proof (cases prev)
      case None
      with True assms(4) a show ?thesis by (auto simp: spec_step_def pending_ok_def)
    next
      case (Some p)
      then have p: "write_ok mx p" using assms(3) by (simp add: pending_ok_def)
      obtain p' a' where mw: "merge_writes mx p a = (p', a')" by (cases "merge_writes mx p a")
      with merge_writes_correct(1,2) [OF p a mw] assms(1,4) Some True show ?thesis
        by (auto simp: spec_step_def pending_ok_def result_simps split: if_splits; use emit_write_wf in blast)
    qed
  qed
  then show "pending_ok mx prev'" "\<forall>b \<in> set out. acmd_wf SendVersion2 b" by blast+
qed

lemma upgrade_spec_wf:
  assumes "mx = maximum_batched_extent_size opts"
    and "\<forall>a \<in> set cmds. stream_wf sv mx a" and "pending_ok mx prev"
    and "upgrade_spec x opts off prev cmds = Inr out"
  shows "\<forall>b \<in> set out. acmd_wf SendVersion2 b"
  using assms(2-)
proof (induction cmds arbitrary: off prev out)
  case Nil
  then show ?case by simp
next
  case (Cons a cmds)
  from Cons.prems(3) obtain o1 prev' where step: "spec_step x opts off prev a = Inr (o1, prev')"
    by (auto simp: result_simps)
  have wf: "stream_wf sv mx a" using Cons.prems(1) by simp
  note s = spec_step_wf [OF assms(1) wf Cons.prems(2) step]
  with Cons step show ?case
    by (auto simp: result_simps split: if_splits)
qed

section \<open>Batches stay below the limit\<close>

text \<open>\<open>m\<close> bounds the writes of the input and the batch limit.\<close>

definition bounded :: "nat \<Rightarrow> acmd \<Rightarrow> bool" where
  "bounded m a \<longleftrightarrow> ac_type a = BTRFS_SEND_C_WRITE \<longrightarrow> length (write_data a) \<le> m"

definition pending_bounded :: "nat \<Rightarrow> acmd option \<Rightarrow> bool" where
  "pending_bounded m p = (case p of None \<Rightarrow> True | Some a \<Rightarrow> length (write_data a) \<le> m)"

lemma merge_writes_bounded:
  assumes "merge_writes mx p a = (p', a')" and "mx \<le> m"
    and "length (write_data p) \<le> m" and "length (write_data a) \<le> m"
  shows "length (write_data p') \<le> m" "length (write_data a') \<le> m"
  using assms by (auto simp: merge_writes_def Let_def split: if_splits)

lemma emit_write_bounded:
  assumes "emit_write x opts off a = Inr out" and "length (write_data a) \<le> m"
  shows "\<forall>b \<in> set out. bounded m b"
  using assms
  by (auto simp: emit_write_def with_pad_def bounded_def pad_command_def result_simps
      split: if_splits option.splits)

lemma spec_step_bounded:
  assumes "spec_step x opts off prev a = Inr (out, prev')" and "maximum_batched_extent_size opts \<le> m"
    and "bounded m a" and "pending_bounded m prev"
  shows "pending_bounded m prev' \<and> (\<forall>b \<in> set out. bounded m b)"
proof (cases "ac_type a = BTRFS_SEND_C_WRITE \<and> prev \<noteq> None")
  case False
  with assms emit_write_bounded [of x opts off] show ?thesis
    by (auto simp: spec_step_def pending_bounded_def bounded_def result_simps split: option.splits if_splits)
next
  case True
  then obtain p where p: "prev = Some p" by auto
  obtain p' a' where mw: "merge_writes (maximum_batched_extent_size opts) p a = (p', a')"
    by (cases "merge_writes (maximum_batched_extent_size opts) p a")
  have "length (write_data p') \<le> m" "length (write_data a') \<le> m"
    using merge_writes_bounded [OF mw assms(2)] assms(3,4) p True
    by (simp_all add: pending_bounded_def bounded_def)
  with assms(1) True p mw emit_write_bounded [of x opts off p'] show ?thesis
    by (auto simp: spec_step_def pending_bounded_def result_simps split: if_splits)
qed

lemma upgrade_spec_bounded:
  assumes "maximum_batched_extent_size opts \<le> m" and "\<forall>a \<in> set cmds. bounded m a"
    and "pending_bounded m prev" and "upgrade_spec x opts off prev cmds = Inr out"
  shows "\<forall>b \<in> set out. bounded m b"
  using assms(2-)
proof (induction cmds arbitrary: off prev out)
  case Nil
  then show ?case by simp
next
  case (Cons a cmds)
  from Cons.prems(3) obtain o1 prev' where step: "spec_step x opts off prev a = Inr (o1, prev')"
    by (auto simp: result_simps)
  with spec_step_bounded [OF step assms(1)] Cons show ?case
    by (auto simp: result_simps split: if_splits)
qed

text \<open>If zstd never fails, every step of the specification succeeds; then the end command decides
  whether there is an output.\<close>

lemma spec_step_total:
  assumes "\<forall>d. zstd x opts d \<noteq> None"
  shows "\<exists>r. spec_step x opts off prev a = Inr r"
proof -
  have "\<exists>r. compressed_payload x opts d = Inr r" for d
    using spec [OF assms, of d] by (auto simp: compressed_payload_def)
  then have "\<exists>out. emit_write x opts o' p = Inr out" for o' p
    by (auto simp: emit_write_def result_simps)
  then show ?thesis
    by (auto simp: spec_step_def result_simps Let_def split: option.splits prod.splits)
qed

lemma upgrade_spec_no_end:
  assumes "BTRFS_SEND_C_END \<notin> ac_type ` set cmds" and "\<forall>d. zstd x opts d \<noteq> None"
  shows "upgrade_spec x opts off prev cmds = Inl (Bail (Io ShortRead))"
  using assms(1)
proof (induction cmds arbitrary: off prev)
  case Nil
  then show ?case by simp
next
  case (Cons a cmds)
  with spec_step_total [OF assms(2), of off prev a] show ?case by auto
qed

lemma upgrade_spec_end:
  assumes "BTRFS_SEND_C_END \<in> ac_type ` set cmds" and "\<forall>d. zstd x opts d \<noteq> None"
  shows "\<exists>out. upgrade_spec x opts off prev cmds = Inr out"
  using assms(1)
proof (induction cmds arbitrary: off prev)
  case Nil
  then show ?case by simp
next
  case (Cons a cmds)
  obtain out prev' where "spec_step x opts off prev a = Inr (out, prev')"
    using spec_step_total [OF assms(2), of off prev a] by auto
  with Cons.prems Cons.IH [of "off + length (enc_commands x SendVersion2 out)" prev'] show ?case
    by (auto simp: result_simps)
qed

end
