(* ===== verification/Stream_Upgrade.thy ===== *)
theory Stream_Upgrade
  imports Upgrade_Effects
begin

text \<open>
  The whole run of \<open>SendStream::upgrade\<close> in single-threaded mode, from the opened input file to
  the bytes handed to the output.
\<close>

section \<open>The stream header\<close>

definition enc_stream_header :: "SendVersion \<Rightarrow> bytes" where
  "enc_stream_header v = BTRFS_MAGIC @ le32 (version_to_value v)"

lemma value_to_version_to_value [simp]: "value_to_version (version_to_value v) = Inr v"
  by (cases v) (simp_all add: value_to_version_def version_to_value_def)

lemma value_to_version_eq_Inr: "value_to_version w = Inr v \<longleftrightarrow> w = version_to_value v"
  by (cases v) (auto simp: value_to_version_def version_to_value_def)

lemma utf8_magic: "utf8_valid BTRFS_MAGIC"
  by (simp add: BTRFS_MAGIC_def)

lemma length_magic: "length BTRFS_MAGIC = 13"
  by (simp add: BTRFS_MAGIC_def)

lemma SendHeader_new_upcoming:
  assumes "upcoming c (BTRFS_MAGIC @ le32 w @ rest)"
  obtains c' where "SendHeader_new c =
      rbind (value_to_version w) (\<lambda>v. Inr (\<lparr>sh_magic = BTRFS_MAGIC, sh_version = v\<rparr>, c'))"
    "upcoming c' rest" "same_but_source c c'"
proof -
  obtain c1 where c1: "read_exact c (length BTRFS_MAGIC) = Inr (BTRFS_MAGIC, c1)"
    "upcoming c1 (le32 w @ rest)" "same_but_source c c1"
    using assms by (rule read_exact_upcoming) simp
  obtain c2 where c2: "read32 c1 = Inr (w, c2)" "upcoming c2 rest" "same_but_source c1 c2"
    using c1(2) by (rule read32_upcoming)
  show thesis
    using c1 c2 utf8_magic
    by (intro that [of c2])
      (auto simp: SendHeader_new_def from_utf8_def intro: same_but_source_trans)
qed

lemma SendHeader_persist_sink:
  assumes "sink c"
  obtains c' where "SendHeader_persist_header c = Inr c'" "emits c (enc_stream_header SendVersion2) c'"
proof -
  obtain c1 where c1: "write_all c BTRFS_MAGIC (length BTRFS_MAGIC) = Inr c1" "emits c BTRFS_MAGIC c1"
    using assms order_refl by (rule write_all_sink)
  have s1: "sink c1" using c1(2) by (simp add: emits_def)
  have "length (le32 (version_to_value SendVersion2)) \<le> 4" by simp
  with s1 obtain c2 where c2: "write_all c1 (le32 (version_to_value SendVersion2)) 4 = Inr c2"
    "emits c1 (le32 (version_to_value SendVersion2)) c2"
    by (rule write_all_sink)
  show thesis
    using c1 c2 sink_version [OF s1] emits_trans [OF c1(2) c2(2)]
    by (intro that [of c2]) (simp_all add: SendHeader_persist_header_def write32_def enc_stream_header_def)
qed

section \<open>From input to output\<close>

lemma SendStream_set_versions_top:
  assumes "upcoming c (enc_stream_header sv @ rest)" and "\<not> ssuc_associated_with_parent c"
    and "ssud_destination (ssuc_destination c) = SsdBufWriter w" "bw_space w = None"
  obtains c' where "SendStream_set_versions c = Inr c'" "upcoming c' rest" "sink c'"
    "get_source_version c' = Inr sv" "written c' = written c @ enc_stream_header SendVersion2"
    "get_write_offset c' = get_write_offset c + 17" "ssuc_options c' = ssuc_options c"
    "Source_is_external (ssuc_source c') = Source_is_external (ssuc_source c)"
proof -
  from assms(1) have "upcoming c (BTRFS_MAGIC @ le32 (version_to_value sv) @ rest)"
    by (simp add: enc_stream_header_def)
  then obtain c1 where c1: "SendHeader_new c = Inr (\<lparr>sh_magic = BTRFS_MAGIC, sh_version = sv\<rparr>, c1)"
    "upcoming c1 rest" "same_but_source c c1"
    by (rule SendHeader_new_upcoming) auto
  let ?c = "set_versions c1 sv SendVersion2"
  have dst: "ssuc_destination c1 = ssuc_destination c" "ssuc_options c1 = ssuc_options c"
    "\<not> ssuc_associated_with_parent c1"
    "Source_is_external (ssuc_source c1) = Source_is_external (ssuc_source c)"
    using c1(3) assms(2) by (simp_all add: same_but_source_def)
  have sink: "sink ?c"
    using assms(3,4) dst
    by (simp add: sink_def set_versions_def get_destination_version_def Destination_get_version_def)
  obtain c2 where c2: "SendHeader_persist_header ?c = Inr c2" "emits ?c (enc_stream_header SendVersion2) c2"
    using sink by (rule SendHeader_persist_sink)
  have "upcoming ?c rest"
    using c1(2) by (simp add: upcoming_def set_versions_def split: SendStreamSource.splits)
  moreover have "written ?c = written c" "get_write_offset ?c = get_write_offset c"
    "get_source_version ?c = Inr sv" "ssuc_options ?c = ssuc_options c"
    "Source_is_external (ssuc_source ?c) = Source_is_external (ssuc_source c)"
    using dst by (simp_all add: set_versions_def written_def get_write_offset_def get_source_version_def
        Source_get_version_def Source_is_external_def)
  moreover have "length (enc_stream_header SendVersion2) = 17"
    by (simp add: enc_stream_header_def length_magic)
  ultimately show thesis
    using c1(1) c2 emits_source [OF c2(2)]
    by (intro that [of c2]) (auto simp: SendStream_set_versions_def emits_def)
qed

text \<open>The input of a run: a file or pipe, read in pieces of any size, that holds a stream.\<close>

definition holds_stream :: "externs \<Rightarrow> reader \<Rightarrow> SendVersion \<Rightarrow> acmd list \<Rightarrow> bytes \<Rightarrow> bool" where
  "holds_stream x r sv cmds tail \<longleftrightarrow>
     steady r \<and> reader_bytes r = enc_stream_header sv @ enc_commands x sv cmds @ tail \<and>
     (tail = [] \<or> BTRFS_SEND_C_END \<in> ac_type ` set cmds)"

lemma SendStream_upgrade_refines:
  assumes "holds_stream x r sv cmds tail"
    and "\<forall>a \<in> set cmds. stream_wf sv (maximum_batched_extent_size options) a"
  shows "case upgrade_spec x options 17 None cmds of
      Inl e \<Rightarrow> SendStream_upgrade_single_threaded x options (Inr r) (Inr ([], None)) = Inl e
    | Inr out \<Rightarrow> \<exists>c. SendStream_upgrade_single_threaded x options (Inr r) (Inr ([], None)) = Inr c \<and>
        written c = enc_stream_header SendVersion2 @ enc_commands x SendVersion2 out"
proof -
  obtain c where c: "Context_new options (Inr r) (Inr ([], None)) = Inr c" "ssuc_options c = options"
    "written c = []" "get_write_offset c = 0" "\<not> ssuc_associated_with_parent c"
    "Source_is_external (ssuc_source c)" and up: "upcoming c (reader_bytes r)"
    and dst: "ssud_destination (ssuc_destination c) = SsdBufWriter
      \<lparr>bw_capacity = write_buffer_size options, bw_buffer = [], bw_file = [], bw_space = None\<rparr>"
    using assms(1)
    by (simp add: holds_stream_def Context_new_def Source_new_from_file_def Destination_new_from_file_def
        upcoming_def written_def get_write_offset_def Source_is_external_def Let_def)
  from up assms(1) have "upcoming c (enc_stream_header sv @ enc_commands x sv cmds @ tail)"
    by (simp add: holds_stream_def)
  then obtain c1 where c1: "SendStream_set_versions c = Inr c1" "upcoming c1 (enc_commands x sv cmds @ tail)"
    "sink c1" "get_source_version c1 = Inr sv" "written c1 = written c @ enc_stream_header SendVersion2"
    "get_write_offset c1 = get_write_offset c + 17" "ssuc_options c1 = ssuc_options c"
    "Source_is_external (ssuc_source c1) = Source_is_external (ssuc_source c)"
    using c(5) dst by (rule SendStream_set_versions_top) simp
  have "outcome x (upgrade_spec x options 17 None cmds) c1 (upgrade_commands_single_threaded x None c1)"
    using upgrade_loop_refines [OF c1(2,4,3) _ refl, of None None] assms c c1(6,7,8)
    by (simp add: holds_stream_def)
  with c(1,3) c1(1,5) show ?thesis
    by (auto simp: outcome_def SendStream_upgrade_single_threaded_def split: sum.splits)
qed

section \<open>Output that stays in the buffer\<close>

text \<open>As long as it fits the write buffer, output does not touch the device.\<close>

lemma write_all_buffered:
  assumes "ssud_destination (ssuc_destination c) = SsdBufWriter w"
    and "length (bw_buffer w) + length bs < bw_capacity w" and "length bs \<le> n"
  obtains c' where "write_all c bs n = Inr c'"
    "ssud_destination (ssuc_destination c') = SsdBufWriter (w\<lparr>bw_buffer := bw_buffer w @ bs\<rparr>)"
    "ssuc_source c' = ssuc_source c" "get_destination_version c' = get_destination_version c"
proof -
  have "write_all c bs n = Inr (c\<lparr>ssuc_destination := (ssuc_destination c)
      \<lparr>ssud_destination := SsdBufWriter (w\<lparr>bw_buffer := bw_buffer w @ bs\<rparr>),
       ssud_offset := ssud_offset (ssuc_destination c) + length bs\<rparr>\<rparr>)"
    using assms by (simp add: write_all_def Destination_write_all_def BufWriter_write_all_def ensure_def)
  then show thesis
    by (rule that) (simp_all add: get_destination_version_def Destination_get_version_def)
qed

lemma SendStream_set_versions_buffered:
  assumes "upcoming c (enc_stream_header sv @ rest)"
    and "ssud_destination (ssuc_destination c) = SsdBufWriter w" "bw_buffer w = []" "17 < bw_capacity w"
  obtains c' where "SendStream_set_versions c = Inr c'" "upcoming c' rest"
    "ssud_destination (ssuc_destination c') = SsdBufWriter (w\<lparr>bw_buffer := enc_stream_header SendVersion2\<rparr>)"
    "get_source_version c' = Inr sv" "get_destination_version c' = Inr SendVersion2"
proof -
  from assms(1) have "upcoming c (BTRFS_MAGIC @ le32 (version_to_value sv) @ rest)"
    by (simp add: enc_stream_header_def)
  then obtain c1 where c1: "SendHeader_new c = Inr (\<lparr>sh_magic = BTRFS_MAGIC, sh_version = sv\<rparr>, c1)"
    "upcoming c1 rest" "same_but_source c c1"
    by (rule SendHeader_new_upcoming) auto
  let ?c = "set_versions c1 sv SendVersion2"
  have d1: "ssud_destination (ssuc_destination ?c) = SsdBufWriter w"
    "get_destination_version ?c = Inr SendVersion2" "get_source_version ?c = Inr sv"
    using c1(3) assms(2) by (simp_all add: same_but_source_def set_versions_def get_destination_version_def
        Destination_get_version_def get_source_version_def Source_get_version_def)
  obtain c2 where c2: "write_all ?c BTRFS_MAGIC (length BTRFS_MAGIC) = Inr c2"
    "ssud_destination (ssuc_destination c2) = SsdBufWriter (w\<lparr>bw_buffer := bw_buffer w @ BTRFS_MAGIC\<rparr>)"
    "ssuc_source c2 = ssuc_source ?c" "get_destination_version c2 = get_destination_version ?c"
    by (rule write_all_buffered [OF d1(1) _ order_refl, of BTRFS_MAGIC])
      (use assms(3,4) in \<open>simp_all add: length_magic\<close>)
  obtain c3 where c3: "write_all c2 (le32 (version_to_value SendVersion2)) 4 = Inr c3"
    "ssud_destination (ssuc_destination c3) = SsdBufWriter (w\<lparr>bw_buffer := bw_buffer w @ BTRFS_MAGIC,
       bw_buffer := (bw_buffer w @ BTRFS_MAGIC) @ le32 (version_to_value SendVersion2)\<rparr>)"
    "ssuc_source c3 = ssuc_source c2" "get_destination_version c3 = get_destination_version c2"
    by (rule write_all_buffered [OF c2(2), of "le32 (version_to_value SendVersion2)" 4])
      (use assms(3,4) in \<open>simp_all add: length_magic\<close>)
  have "SendStream_set_versions c = Inr c3"
    using c1(1) c2(1,4) c3(1) d1(2)
    by (simp add: SendStream_set_versions_def SendHeader_persist_header_def write32_def)
  moreover have "upcoming c3 rest" "get_source_version c3 = Inr sv"
    using c1(2) c2(3) c3(3) d1(3)
    by (simp_all add: upcoming_def set_versions_def get_source_version_def split: SendStreamSource.splits)
  ultimately show thesis
    using c2(4) c3(2,4) d1(2) assms(3) by (intro that [of c3]) (simp_all add: enc_stream_header_def)
qed

definition end_command :: acmd where
  "end_command = \<lparr>ac_type = BTRFS_SEND_C_END, ac_attrs = [], ac_data = None\<rparr>"

lemma end_command_wf: "acmd_wf v end_command" "enc_payload v end_command = []"
  "ac_type end_command = BTRFS_SEND_C_END"
  by (simp_all add: end_command_def acmd_wf_def all_attrs_def enc_payload_def)

lemma upgrade_end_buffered:
  assumes "upcoming c (enc_command x sv end_command)" and "get_source_version c = Inr sv"
    and "get_destination_version c = Inr SendVersion2"
    and "ssud_destination (ssuc_destination c) = SsdBufWriter w" "length (bw_buffer w) + 10 < bw_capacity w"
  obtains c' where "upgrade_commands_single_threaded x None c = Inr c'"
    "ssud_destination (ssuc_destination c') =
       SsdBufWriter (w\<lparr>bw_buffer := bw_buffer w @ enc_command x SendVersion2 end_command\<rparr>)"
proof -
  have up: "upcoming c (enc_command x sv end_command @ [])" using assms(1) by simp
  obtain c1 where c1: "SendCommand_new x c = Inr (mk_command x sv end_command, c1)" "same_but_source c c1"
    using up assms(2) end_command_wf(1) by (rule SendCommand_new_upcoming)
  have v1: "get_destination_version c1 = Inr SendVersion2"
    and d1: "ssud_destination (ssuc_destination c1) = SsdBufWriter w"
    using same_but_source_versions(2) [OF c1(2)] assms(3,4) c1(2) by (simp_all add: same_but_source_def)
  have uc: "upgrade_command x (mk_command x sv end_command) c1 = Inr (mk_command x SendVersion2 end_command)"
    using end_command_wf v1 by (intro upgrade_command_mk) (auto simp: input_wf_def end_command_def)
  obtain c2 where c2: "write_all c1 (enc_command x SendVersion2 end_command) 10 = Inr c2"
    "ssud_destination (ssuc_destination c2) =
       SsdBufWriter (w\<lparr>bw_buffer := bw_buffer w @ enc_command x SendVersion2 end_command\<rparr>)"
    by (rule write_all_buffered [OF d1, of "enc_command x SendVersion2 end_command" 10])
      (use assms(5) end_command_wf(2) in simp_all)
  have "SendCommand_persist x (mk_command x SendVersion2 end_command) c1 = Inr c2"
    using c2(1) v1 SendCommand_verify_clean [OF end_command_wf(1)]
    by (simp add: SendCommand_persist_def is_paddable_def PADDABLE_COMMAND_TYPES_def end_command_wf)
  with c1(1) uc have "upgrade_commands_single_threaded x None c = Inr c2"
    by (simp add: upgrade_commands_single_threaded.simps [of x None c] merge_previous_def
        mk_command_predicates end_command_wf)
  then show thesis using c2(2) by (rule that)
qed

lemma enc_command_ne [simp]: "enc_command x v a \<noteq> []"
  using length_enc_command [of x v a] by (metis add_is_0 list.size(3) zero_neq_numeral)

lemma enc_stream_header_ne [simp]: "enc_stream_header v \<noteq> []" "length (enc_stream_header v) = 17"
  by (simp_all add: enc_stream_header_def BTRFS_MAGIC_def)

end
