(* ===== verification/Element_Properties.thy ===== *)
theory Element_Properties
  imports Stream_Upgrade
begin

text \<open>
  The contracts of the stream elements: attributes, command headers, commands and the stream
  header, stated on the definitions of the code. The lemmas of \<open>Wire\<close>, \<open>Command_Codec\<close>,
  \<open>Write_Command\<close>, \<open>Command_Ops\<close> and \<open>Output\<close> carry the proofs. The section on examples holds the
  concrete stream elements the witnesses use.
\<close>

section \<open>Examples\<close>

definition example_externs :: externs where
  "example_externs =
     \<lparr>crc32c_hw_update = \<lambda>crc bs. crc + word_of_nat (length bs),
      zstd_encode = \<lambda>level window d. Some (if d = replicate 100 7 then [1] else 0 # d)\<rparr>"

definition example_decoder :: "bytes \<Rightarrow> bytes option" where
  "example_decoder z = (if z = [1] then Some (replicate 100 7) else Some (tl z))"

definition example_options :: SendStreamUpgradeOptions where
  "example_options = SendStreamUpgradeOptions_default\<lparr>serde_checks := True, thread_count := 1\<rparr>"

definition example_write :: "nat \<Rightarrow> bytes \<Rightarrow> acmd" where
  "example_write off d =
     \<lparr>ac_type = BTRFS_SEND_C_WRITE,
      ac_attrs = [(BTRFS_SEND_A_PATH, [0x66]), (BTRFS_SEND_A_FILE_OFFSET, le64 (word_of_nat off))],
      ac_data = Some d\<rparr>"

lemma example_write_type [simp]: "ac_type (example_write off d) = BTRFS_SEND_C_WRITE"
  by (simp add: example_write_def)

lemma example_write_wf:
  assumes "off < 2 ^ 64" and "length d < 2 ^ 16" and "mx < 2 ^ 31"
  shows "write_wf mx (example_write off d)" "acmd_wf v (example_write off d)"
    "acmd_offset (example_write off d) = Some off" "write_data (example_write off d) = d"
    "write_offset (example_write off d) = off"
  using assms
  by (auto simp: example_write_def write_wf_def acmd_wf_def all_attrs_def attr_wf_def attr_fits_def
      enc_payload_def length_enc_attr sizeless_def acmd_offset_def write_data_def write_offset_def
      unat_word_of_nat)

lemma example_batch:
  assumes "off + length d < 2 ^ 64" and "length d < 2 ^ 16" and "mx < 2 ^ 31"
  shows "batch mx x (mk_command x SendVersion2 (example_write off d)) (example_write off d)"
proof (rule batch_of_write)
  show "stream_wf SendVersion2 mx (example_write off d)"
    using assms example_write_wf [of off d mx]
    by (simp add: stream_wf_def input_wf_def)
qed (simp add: example_write_def)

definition example_context :: ctx where
  "example_context =
     \<lparr>ssuc_options = example_options,
      ssuc_source = \<lparr>ssus_source = SssReader [], ssus_offset = 0, ssus_version = Some SendVersion1\<rparr>,
      ssuc_destination =
        \<lparr>ssud_destination = SsdBufWriter \<lparr>bw_capacity = 16, bw_buffer = [], bw_file = [], bw_space = None\<rparr>,
         ssud_offset = 0, ssud_version = Some SendVersion2\<rparr>,
      ssuc_associated_with_parent = False\<rparr>"

definition example_input :: "SendVersion \<Rightarrow> bytes \<Rightarrow> ctx" where
  "example_input v bs =
     example_context\<lparr>ssuc_source :=
       \<lparr>ssus_source = SssReader [Chunk (take 1 bs), Chunk (drop 1 bs)], ssus_offset = 0,
        ssus_version = Some v\<rparr>\<rparr>"

lemma example_context_simps [simp]:
  "sink example_context" "get_destination_version example_context = Inr SendVersion2"
  "get_destination_version (example_input v bs) = Inr SendVersion2"
  "get_source_version (example_input v bs) = Inr v" "ssuc_options (example_input v bs) = example_options"
  "ssuc_options example_context = example_options" "get_write_offset example_context = 0"
  by (simp_all add: example_context_def example_input_def sink_def get_destination_version_def
      Destination_get_version_def get_source_version_def Source_get_version_def get_write_offset_def)

lemma example_input_upcoming: "1 < length bs \<Longrightarrow> upcoming (example_input v bs) bs"
  by (auto simp: upcoming_def example_input_def steady_def reader_bytes_def chunk_bytes_def)

definition example_commands :: "acmd list" where
  "example_commands = [example_write 0 (replicate 60 7), example_write 60 (replicate 40 7), end_command]"

section \<open>Attributes\<close>

text \<open>Attribute round trip: an attribute whose payload fits its size field is read back from
  its encoding as it was, the read position moves just past it, and persisting it writes the
  same bytes. The version 2 data attribute has no size field and takes the rest of the slice.\<close>

theorem attribute_round_trip:
  assumes "attr_fits v a" and "sizeless v (fst a) \<longrightarrow> rest = []"
  shows "SendAttribute_new (sctx opts (Some (pre @ enc_attr v a @ rest)) (length pre) v w j dv) =
      Inr (mk_attr v a,
        sctx opts (Some (pre @ enc_attr v a @ rest)) (length pre + length (enc_attr v a)) v w j dv) \<and>
    SendAttribute_persist (mk_attr v a)
        (sctx opts r i sv (Some (zeros (length (enc_attr v a)))) 0 v) =
      Inr (sctx opts r i sv (Some (enc_attr v a)) (length (enc_attr v a)) v)"
  using assms SendAttribute_new_enc [of pre "length pre" v a rest opts w j dv]
  by (simp add: SendAttribute_persist_first)

theorem attribute_round_trip_witness:
  "SendAttribute_new (sctx example_options (Some ([9] @ enc_attr SendVersion2 (BTRFS_SEND_A_DATA, [1, 2]) @ []))
       (length [9 :: byte]) SendVersion2 None 0 SendVersion2) =
     Inr (mk_attr SendVersion2 (BTRFS_SEND_A_DATA, [1, 2]),
       sctx example_options (Some ([9] @ enc_attr SendVersion2 (BTRFS_SEND_A_DATA, [1, 2]) @ []))
         (length [9 :: byte] + length (enc_attr SendVersion2 (BTRFS_SEND_A_DATA, [1, 2]))) SendVersion2
         None 0 SendVersion2)"
  using attribute_round_trip [of SendVersion2 "(BTRFS_SEND_A_DATA, [1, 2])" "[]" example_options "[9]" None 0
      SendVersion2]
  by (simp add: attr_fits_def)

text \<open>A declared attribute size that exceeds the payload is not an error value but a panic:
  the slice index of the child context is out of range.\<close>

theorem attribute_overrun_panics:
  assumes "\<not> sizeless v t" and "length rest < n" and "n < 2 ^ 16"
  shows "SendAttribute_new (sctx opts (Some (pre @ enc_attr_header v t n @ rest)) (length pre) v w j dv) =
    Inl (Panic SliceIndexOutOfRange)"
proof -
  let ?bs = "pre @ enc_attr_header v t n @ rest"
  have h: "SendAttributeHeader_new (sctx opts (Some ?bs) (length pre) v w j dv) =
      Inr (mk_attr_header v t n, sctx opts (Some ?bs) (length pre + 4) v w j dv)"
    using SendAttributeHeader_new_enc [of pre "length pre" opts v t n rest w j dv] assms(1) by simp
  have t: "get_attribute_total_size (mk_attr_header v t n) m = Inr (4 + n)" for m
    using assms get_attribute_total_size_mk [of v t "replicate n 0"] by (simp add: attr_fits_def)
  have "length ?bs < length pre + 4 + n" using assms by simp
  then have r: "read_exact (sctx opts (Some ?bs) (length pre + 4) v w j dv) n = Inl (Panic SliceIndexOutOfRange)"
    by (rule read_exact_sctx_panics)
  show ?thesis
    using assms(1) by (simp add: SendAttribute_new_def h t r Let_def SendAttributeHeader_persist_first)
qed

theorem attribute_overrun_panics_witness:
  "SendAttribute_new (sctx example_options (Some ([] @ enc_attr_header SendVersion1 BTRFS_SEND_A_PATH 3 @ [0x66]))
     (length ([] :: bytes)) SendVersion1 None 0 SendVersion1) = Inl (Panic SliceIndexOutOfRange)"
  using attribute_overrun_panics [of SendVersion1 BTRFS_SEND_A_PATH "[0x66]" 3 example_options "[]" None 0
      SendVersion1]
  by simp

section \<open>Type codes\<close>

lemma type_code_lists:
  "map command_type_to_u16 all_command_types = map word_of_nat [0..<26]"
  "map attribute_type_to_u16 all_attribute_types = map word_of_nat [0..<32]"
  by (simp_all add: all_command_types_def all_attribute_types_def upt_rec)

lemma find_code:
  assumes "map f xs = map word_of_nat [0..<n]" and "n < 2 ^ 16"
  shows "find (\<lambda>t. f t = (w :: u16)) xs = None \<longleftrightarrow> n \<le> unat w"
proof -
  have "f ` set xs = word_of_nat ` {0..<n}"
    using arg_cong [OF assms(1), of set] by simp
  moreover have "w \<in> word_of_nat ` {0..<n} \<longleftrightarrow> unat w < n"
    using assms(2) unat_word_of_nat16 by (auto simp: image_iff intro: bexI [of _ "unat w"])
  ultimately have "w \<in> f ` set xs \<longleftrightarrow> unat w < n" by simp
  then show ?thesis
    by (auto simp: find_None_iff image_iff not_less [symmetric])
qed

lemma find_code_Some:
  "command_type_from_u16 w = Some t \<Longrightarrow> w = command_type_to_u16 t"
  "attribute_type_from_u16 w = Some u \<Longrightarrow> w = attribute_type_to_u16 u"
  by (auto simp: command_type_from_u16_def attribute_type_from_u16_def find_Some_iff)

text \<open>The command and attribute type codes are decoded to the one type they encode, and codes
  above the last type of the enum are rejected.\<close>

theorem type_codes:
  "(command_type_from_u16 w = Some t \<longleftrightarrow> w = command_type_to_u16 t) \<and>
   (command_type_from_u16 w = None \<longleftrightarrow> 25 < unat w) \<and>
   (attribute_type_from_u16 w = Some u \<longleftrightarrow> w = attribute_type_to_u16 u) \<and>
   (attribute_type_from_u16 w = None \<longleftrightarrow> 31 < unat w)"
proof -
  have "command_type_from_u16 w = None \<longleftrightarrow> 26 \<le> unat w" "attribute_type_from_u16 w = None \<longleftrightarrow> 32 \<le> unat w"
    using find_code [OF type_code_lists(1), of w] find_code [OF type_code_lists(2), of w]
    by (simp_all add: command_type_from_u16_def attribute_type_from_u16_def)
  then show ?thesis by (auto dest: find_code_Some)
qed

section \<open>Commands\<close>

text \<open>C9. Command round trip: from any source that delivers the encoding of a well-formed
  command, in reads of any size, the command is read back and exactly its bytes are consumed.\<close>

theorem command_round_trip:
  assumes "upcoming c (enc_command x v a @ rest)" and "get_source_version c = Inr v" and "acmd_wf v a"
  shows "\<exists>c'. SendCommand_new x c = Inr (mk_command x v a, c') \<and> upcoming c' rest \<and> same_but_source c c'"
  using SendCommand_new_upcoming [OF assms] by metis

theorem command_round_trip_witness:
  "\<exists>c'. SendCommand_new example_externs (example_input SendVersion1
        (enc_command example_externs SendVersion1 (example_write 3 [1, 2]) @ [5])) =
      Inr (mk_command example_externs SendVersion1 (example_write 3 [1, 2]), c') \<and> upcoming c' [5]"
  using command_round_trip [OF example_input_upcoming, of example_externs SendVersion1
      "example_write 3 [1, 2]" "[5]" SendVersion1] example_write_wf(2) [of 3 "[1, 2]" 0]
  by auto

text \<open>A command whose stored checksum is not the checksum of its bytes is rejected, unless the
  option to skip the check is set.\<close>

theorem command_bad_crc:
  assumes "upcoming c (enc_with_crc v a crc @ rest)" and "get_source_version c = Inr v" and "acmd_wf v a"
    and "\<not> avoid_crcing_input (ssuc_options c)" and "crc \<noteq> compute_crc32c x (enc_with_crc v a 0)"
  shows "SendCommand_new x c = Inl (Bail (Cmd CrcMismatch))"
proof -
  let ?n = "word_of_nat (length (enc_payload v a)) :: u32"
  from assms(1) have "upcoming c (enc_header ?n (ac_type a) crc @ enc_payload v a @ rest)"
    by (simp add: enc_with_crc_def)
  then obtain c1 where c1: "SendCommandHeader_new c = Inr (mk_header v ?n (ac_type a) crc, c1)"
    "upcoming c1 (enc_payload v a @ rest)" "same_but_source c c1"
    using assms(2) by (rule SendCommandHeader_new_upcoming)
  obtain c2 where c2: "read_exact c1 (length (enc_payload v a)) = Inr (enc_payload v a, c2)"
    "same_but_source c1 c2"
    using c1(2) by (rule read_exact_upcoming) simp
  have "ssuc_options c2 = ssuc_options c" "get_source_version c1 = Inr v"
    using c1(3) c2(2) assms(2) same_but_source_versions(1) [OF c1(3)] by (simp_all add: same_but_source_def)
  with SendCommand_new_from_header_bad_crc [OF assms(3) _ c2(1), of crc x] assms(4,5) show ?thesis
    by (simp add: SendCommand_new_def c1(1) acmd_crc_def)
qed

theorem command_bad_crc_witness:
  "SendCommand_new example_externs (example_input SendVersion1
      (enc_with_crc SendVersion1 end_command 7 @ [])) = Inl (Bail (Cmd CrcMismatch))"
proof (rule command_bad_crc)
  show "upcoming (example_input SendVersion1 (enc_with_crc SendVersion1 end_command 7 @ []))
      (enc_with_crc SendVersion1 end_command 7 @ [])"
    by (rule example_input_upcoming) simp
  show "(7 :: u32) \<noteq> compute_crc32c example_externs (enc_with_crc SendVersion1 end_command 0)"
    by (simp add: compute_crc32c_def example_externs_def end_command_wf)
qed (simp_all add: end_command_wf example_options_def SendStreamUpgradeOptions_default_def)

text \<open>Upgrading a command: the result is the same command encoded in version 2, whether the
  code re-encodes it or only relabels it, and it is never larger.\<close>

theorem command_upgrade_reencodes:
  assumes "input_wf sv a" and "get_destination_version c = Inr SendVersion2"
  shows "upgrade_command x (mk_command x sv a) c = Inr (mk_command x SendVersion2 a) \<and>
    length (sc_buffer (mk_command x SendVersion2 a)) \<le> length (sc_buffer (mk_command x sv a))"
  using upgrade_command_mk [OF assms] length_enc_payload_le [of a sv] by simp

theorem command_upgrade_reencodes_witness:
  "upgrade_command example_externs (mk_command example_externs SendVersion1 (example_write 0 [1])) example_context =
     Inr (mk_command example_externs SendVersion2 (example_write 0 [1]))"
  using command_upgrade_reencodes [of SendVersion1 "example_write 0 [1]" example_context example_externs]
    example_write_wf(2) [of 0 "[1]" 0]
  by (simp add: input_wf_def)

text \<open>The serialisation check accepts every write while it is batched, clean or dirty: it
  never turns a run that would succeed into an error.\<close>

theorem verify_accepts_batches:
  assumes "batch mx x s p"
  shows "SendCommand_verify x s c = Inr ()"
proof -
  obtain k D a off d dirty where s: "s = wcmd k D a off d dirty" "p = rebase off d a" "write_wf mx a"
    "off + length d < 2 ^ 64" "length (enc_attrs SendVersion2 (ac_attrs a)) + length d + 12 < 2 ^ 32"
    "\<not> dirty \<longrightarrow> acmd_offset a = Some off \<and> ac_data a = Some d" "stale_fits D a"
    using assms(1) by (rule batchE)
  show ?thesis
  proof (cases dirty)
    case True
    with s SendCommand_verify_dirty [OF s(3) _ s(7)] show ?thesis by simp
  next
    case False
    then have "s = mk_command x SendVersion2 p" using s(1) by (intro batch_clean [OF assms]) simp
    with batch_wf(2) [OF assms] show ?thesis by (simp add: SendCommand_verify_clean)
  qed
qed

theorem verify_accepts_batches_witness:
  "SendCommand_verify example_externs (mk_command example_externs SendVersion2 (example_write 4096 [1, 2, 3]))
     example_context = Inr ()"
  using verify_accepts_batches [OF example_batch [of 4096 "[1, 2, 3]" 10 example_externs]] by simp

text \<open>C10. Appending conserves data: what leaves the front of the second write arrives at the end
  of the first, in order, the second write starts where the first one ends, and the first write
  does not grow beyond the batch limit.\<close>

theorem append_conserves_data:
  assumes "batch mx x s p" and "batch mx x t b" and "mx = maximum_batched_extent_size (ssuc_options c)"
    and "SendCommand_can_append s t = Inr True"
  shows "\<exists>n s' t' p' b'. SendCommand_append x s c t = Inr (n, s') \<and>
    truncate_data_payload_at_start x t c n = Inr t' \<and> batch mx x s' p' \<and> batch mx x t' b' \<and>
    write_data p' @ write_data b' = write_data p @ write_data b \<and>
    write_offset p' = write_offset p \<and>
    write_offset b' = write_offset p' + length (write_data p') \<and>
    length (write_data p') \<le> max mx (length (write_data p))"
proof -
  have adj: "adjacent p b" using assms(4) batch_can_append [OF assms(1,2)] by simp
  obtain p' b' where mw: "merge_writes mx p b = (p', b')" by (cases "merge_writes mx p b")
  obtain s' t' where "rbind (SendCommand_can_append s t) (\<lambda>can_append.
       if can_append then
         rbind (SendCommand_append x s c t) (\<lambda>(n, s).
         rbind (truncate_data_payload_at_start x t c n) (\<lambda>t. Inr (s, t)))
       else Inr (s, t)) = Inr (s', t')" and b: "batch mx x s' p'" "batch mx x t' b'"
    using batch_merge [OF assms(1-3)] mw by (metis fst_conv snd_conv)
  then obtain n where "SendCommand_append x s c t = Inr (n, s')"
    "truncate_data_payload_at_start x t c n = Inr t'"
    using assms(4) by (auto simp: result_simps)
  with b merge_writes_adjacent [OF batch_write_ok [OF assms(1)] batch_write_ok [OF assms(2)] adj mw]
    merge_writes_correct(4) [OF batch_write_ok [OF assms(1)] batch_write_ok [OF assms(2)] mw]
  show ?thesis by blast
qed

theorem append_conserves_data_witness:
  "\<exists>n s' t' p' b'. SendCommand_append example_externs
      (mk_command example_externs SendVersion2 (example_write 0 [1, 2])) example_context
      (mk_command example_externs SendVersion2 (example_write 2 [3])) = Inr (n, s') \<and>
    truncate_data_payload_at_start example_externs
      (mk_command example_externs SendVersion2 (example_write 2 [3])) example_context n = Inr t' \<and>
    batch 131072 example_externs s' p' \<and> batch 131072 example_externs t' b' \<and>
    write_data p' @ write_data b' = write_data (example_write 0 [1, 2]) @ write_data (example_write 2 [3]) \<and>
    write_offset p' = write_offset (example_write 0 [1, 2]) \<and>
    write_offset b' = write_offset p' + length (write_data p') \<and>
    length (write_data p') \<le> max 131072 (length (write_data (example_write 0 [1, 2])))"
proof (rule append_conserves_data)
  show b: "batch 131072 example_externs (mk_command example_externs SendVersion2 (example_write 0 [1, 2]))
      (example_write 0 [1, 2])"
    "batch 131072 example_externs (mk_command example_externs SendVersion2 (example_write 2 [3]))
      (example_write 2 [3])"
    by (rule example_batch; simp)+
  show "131072 = maximum_batched_extent_size (ssuc_options example_context)"
    by (simp add: example_options_def SendStreamUpgradeOptions_default_def)
  have "adjacent (example_write 0 [1, 2]) (example_write 2 [3])"
    using example_write_wf(4,5) [of 0 "[1, 2]" 0] example_write_wf(5) [of 2 "[3]" 0]
    by (simp add: adjacent_def) (simp add: acmd_path_def example_write_def)
  with batch_can_append [OF b]
  show "SendCommand_can_append (mk_command example_externs SendVersion2 (example_write 0 [1, 2]))
      (mk_command example_externs SendVersion2 (example_write 2 [3])) = Inr True"
    by simp
qed

text \<open>Flushing: the buffer of a dirty write becomes the encoding of the batch it stands for, with
  the offset, the size and the checksum brought up to date.\<close>

theorem flush_reencodes:
  assumes "batch mx x s p" and "sc_data_attribute_dirty s" and "get_destination_version c = Inr SendVersion2"
  shows "SendCommand_flush x s c = Inr (mk_command x SendVersion2 p) \<and>
    SendCommand_verify x (mk_command x SendVersion2 p) c = Inr ()"
proof -
  obtain k D a off d dirty where s: "s = wcmd k D a off d dirty" "p = rebase off d a" "write_wf mx a"
    "off + length d < 2 ^ 64" "length (enc_attrs SendVersion2 (ac_attrs a)) + length d + 12 < 2 ^ 32"
    "\<not> dirty \<longrightarrow> acmd_offset a = Some off \<and> ac_data a = Some d" "stale_fits D a"
    using assms(1) by (rule batchE)
  have dirty using assms(2) s(1) by simp
  with s SendCommand_flush_wcmd [OF s(3) assms(3) _ s(5,7), of off x] batch_wf(2) [OF assms(1)]
  show ?thesis by (auto intro: SendCommand_verify_clean)
qed

lemma example_dirty:
  "batch 131072 x (wcmd 5 [9, 9] (example_write 0 [1, 2]) 0 [1, 2, 3] True) (rebase 0 [1, 2, 3] (example_write 0 [1, 2]))"
  using example_write_wf(1) [of 0 "[1, 2]" 131072]
  by (intro batch_dirtyI) (simp_all add: example_write_def length_enc_attr sizeless_def stale_fits_def)

theorem flush_reencodes_witness:
  "SendCommand_flush example_externs (wcmd 5 [9, 9] (example_write 0 [1, 2]) 0 [1, 2, 3] True)
     example_context =
   Inr (mk_command example_externs SendVersion2 (rebase 0 [1, 2, 3] (example_write 0 [1, 2])))"
  using flush_reencodes [OF example_dirty [of example_externs], of example_context] by simp

text \<open>Compression of a batch has three outcomes: the encoded write that carries what zstd
  made of the payload, if that saves at least the 44 bytes of the four attributes describing the
  encoding; the one error the callers recover from, if it does not; and any other error only if
  zstd itself fails.\<close>

theorem compress_outcomes:
  assumes "batch mx x s p" and "get_destination_version c = Inr SendVersion2"
    and "compression_level (ssuc_options c) \<noteq> 0"
  shows "case compressed_payload x (ssuc_options c) (write_data p) of
      Inl e \<Rightarrow> zstd x (ssuc_options c) (write_data p) = None \<and> SendCommand_compress x s c = Inl e
    | Inr None \<Rightarrow> \<exists>i j k. SendCommand_compress x s c = Inl (FailedToShrinkPayload i j k)
    | Inr (Some z) \<Rightarrow> zstd x (ssuc_options c) (write_data p) = Some z \<and>
        (\<exists>s'. SendCommand_compress x s c = Inr s' \<and>
          sc_buffer s' = enc_command x SendVersion2 (encoded_write (length (write_data p)) z p) \<and>
          length (sc_buffer s') \<le> length (enc_command x SendVersion2 p))"
proof -
  obtain k D a off d dirty where s: "s = wcmd k D a off d dirty" "p = rebase off d a" "write_wf mx a"
    "off + length d < 2 ^ 64" "length (enc_attrs SendVersion2 (ac_attrs a)) + length d + 12 < 2 ^ 32"
    "\<not> dirty \<longrightarrow> acmd_offset a = Some off \<and> ac_data a = Some d" "stale_fits D a"
    using assms(1) by (rule batchE)
  note cmp = SendCommand_compress_wcmd [OF s(3) assms(2) s(6) _ assms(3) s(5,7), of x k, folded s(1)]
  have len: "length (enc_payload SendVersion2 (encoded_write (length d) z p)) \<le> length (enc_payload SendVersion2 p)"
    if "length z + 44 \<le> length d" for z
    using that s(3)
    by (simp add: s(2) enc_payload_encoded_write enc_payload_rebase length_encoding_attrs length_enc_attr)
  show ?thesis
    using cmp s(4) len
    by (auto simp: s(2) compressed_payload_def compressed_command_def of_option_def
        split: if_splits option.splits)
qed

theorem compress_outcomes_witness:
  "\<exists>s'. SendCommand_compress example_externs
      (mk_command example_externs SendVersion2 (example_write 0 (replicate 100 7))) example_context = Inr s' \<and>
    sc_buffer s' = enc_command example_externs SendVersion2
      (encoded_write 100 [1] (example_write 0 (replicate 100 7)))"
  using compress_outcomes [OF example_batch [of 0 "replicate 100 7" 10 example_externs], of example_context]
    example_write_wf [of 0 "replicate 100 7" 10]
  by (auto simp: example_options_def SendStreamUpgradeOptions_default_def compressed_payload_def zstd_def
      example_externs_def split: if_splits)

section \<open>Output\<close>

text \<open>Padding: with the option set, a block-aligned write is preceded by a pad command of 38 to
  4133 bytes, itself a well-formed command, after which the data of the write starts on a block
  boundary of the output.\<close>

theorem persist_pads_to_block:
  assumes "sink c" and "write_wf mx a" and "pad_with_dummy_commands (ssuc_options c)"
    and "acmd_offset a = Some off" and "ac_data a = Some d"
    and "off mod BLOCK_SIZE = 0" and "length d mod BLOCK_SIZE = 0"
  shows "\<exists>c' pad front. SendCommand_persist x (mk_command x SendVersion2 a) c = Inr c' \<and>
    acmd_wf SendVersion2 pad \<and> ac_type pad = BTRFS_SEND_C_UPDATE_EXTENT \<and>
    38 \<le> length (enc_command x SendVersion2 pad) \<and> length (enc_command x SendVersion2 pad) < 4134 \<and>
    written c' = written c @ enc_command x SendVersion2 pad @ front @ d \<and>
    enc_command x SendVersion2 a = front @ d \<and>
    (get_write_offset c + length (enc_command x SendVersion2 pad) + length front) mod BLOCK_SIZE = 0"
proof -
  let ?n = "pad_size (get_write_offset c) a"
  let ?h = "enc_header (word_of_nat (length (enc_payload SendVersion2 a))) (ac_type a) (acmd_crc x SendVersion2 a)"
  let ?front = "?h @ enc_attrs SendVersion2 (ac_attrs a) @ le16 (attribute_type_to_u16 BTRFS_SEND_A_DATA)"
  have wf: "acmd_wf SendVersion2 a" "ac_type a = BTRFS_SEND_C_WRITE" using assms(2) by (simp_all add: write_wf_def)
  obtain c' where c': "SendCommand_persist x (mk_command x SendVersion2 a) c = Inr c'"
    "emits c (enc_commands x SendVersion2 (with_pad (ssuc_options c) (get_write_offset c) a)) c'"
    using SendCommand_persist_mk [OF assms(1) wf(1), of mx x] assms(2) by metis
  have wp: "with_pad (ssuc_options c) (get_write_offset c) a = [pad_command ?n, a]"
    using assms wf(2) by (simp add: with_pad_def)
  have n: "length (enc_command x SendVersion2 (pad_command ?n)) = ?n"
    using pad_size_bounds(1) [of "get_write_offset c" a] by (simp add: length_enc_pad)
  have front: "enc_command x SendVersion2 a = ?front @ d"
    using enc_payload_data [OF assms(5)]
    by (simp add: enc_command_def enc_with_crc_def enc_data_attr del: attribute_type_to_u16.simps)
  have "(get_write_offset c + ?n + length ?front) mod BLOCK_SIZE = 0"
    using pad_size_aligned [of "get_write_offset c" a] by (simp add: add_ac)
  moreover have "written c' = written c @ enc_command x SendVersion2 (pad_command ?n) @ ?front @ d"
    using c'(2) wp front by (simp add: emits_def)
  moreover have "ac_type (pad_command ?n) = BTRFS_SEND_C_UPDATE_EXTENT" by (simp add: pad_command_def)
  ultimately show ?thesis
    using c'(1) pad_command_wf [OF pad_size_bounds] pad_size_bounds [of "get_write_offset c" a] n front
    by metis
qed

theorem persist_pads_to_block_witness:
  "\<exists>c' pad front. SendCommand_persist example_externs
      (mk_command example_externs SendVersion2 (example_write 8192 []))
      (example_context\<lparr>ssuc_options := example_options\<lparr>pad_with_dummy_commands := True\<rparr>\<rparr>) = Inr c' \<and>
    acmd_wf SendVersion2 pad \<and> ac_type pad = BTRFS_SEND_C_UPDATE_EXTENT \<and>
    38 \<le> length (enc_command example_externs SendVersion2 pad) \<and>
    length (enc_command example_externs SendVersion2 pad) < 4134 \<and>
    written c' = written (example_context\<lparr>ssuc_options := example_options\<lparr>pad_with_dummy_commands := True\<rparr>\<rparr>) @
      enc_command example_externs SendVersion2 pad @ front @ [] \<and>
    enc_command example_externs SendVersion2 (example_write 8192 []) = front @ [] \<and>
    (get_write_offset (example_context\<lparr>ssuc_options := example_options\<lparr>pad_with_dummy_commands := True\<rparr>\<rparr>) +
      length (enc_command example_externs SendVersion2 pad) + length front) mod BLOCK_SIZE = 0"
proof (rule persist_pads_to_block)
  show "write_wf 10 (example_write 8192 [])" "acmd_offset (example_write 8192 []) = Some 8192"
    using example_write_wf [of 8192 "[]" 10] by simp_all
  show "sink (example_context\<lparr>ssuc_options := example_options\<lparr>pad_with_dummy_commands := True\<rparr>\<rparr>)"
    using example_context_simps(1) by (simp add: sink_def get_destination_version_def)
qed (simp_all add: example_write_def BLOCK_SIZE_def)

text \<open>A dirty command is never written: persisting it is an error, whatever the options.\<close>

theorem dirty_is_not_persisted:
  assumes "batch mx x s p" and "sc_data_attribute_dirty s" and "get_destination_version c = Inr SendVersion2"
  shows "SendCommand_persist x s c = Inl (Bail (Cmd DirtyCommand))"
proof -
  obtain k D a off d dirty where s: "s = wcmd k D a off d dirty" "p = rebase off d a" "write_wf mx a"
    "off + length d < 2 ^ 64" "length (enc_attrs SendVersion2 (ac_attrs a)) + length d + 12 < 2 ^ 32"
    "\<not> dirty \<longrightarrow> acmd_offset a = Some off \<and> ac_data a = Some d" "stale_fits D a"
    using assms(1) by (rule batchE)
  moreover from this(1) assms(2) have dirty by simp
  ultimately have "SendCommand_verify x s c = Inr ()" "sc_version s = SendVersion2"
    using SendCommand_verify_dirty [of mx a off D] by simp_all
  with assms(2,3) show ?thesis by (simp add: SendCommand_persist_def)
qed

theorem dirty_is_not_persisted_witness:
  "SendCommand_persist example_externs (wcmd 5 [9, 9] (example_write 0 [1, 2]) 0 [1, 2, 3] True)
     example_context = Inl (Bail (Cmd DirtyCommand))"
  using dirty_is_not_persisted [OF example_dirty [of example_externs], of example_context] by simp

text \<open>The output neither loses, duplicates nor reorders bytes, whatever the size of the write
  buffer and the space on the device: after a successful write the file followed by the buffer is
  what it was before with the new bytes at the end, and the write offset has moved by their number;
  after a successful flush all of it is in the file.\<close>

theorem writer_keeps_order:
  assumes "ssud_destination (ssuc_destination c) = SsdBufWriter w"
  shows "(write_all c bs n = Inr c' \<longrightarrow>
      written c' = written c @ bs \<and> get_write_offset c' = get_write_offset c + length bs) \<and>
    (Context_flush c = Inr c' \<longrightarrow> (\<exists>w'. ssud_destination (ssuc_destination c') = SsdBufWriter w' \<and>
      bw_file w' = written c \<and> bw_buffer w' = []))"
  using assms
  by (auto simp: write_all_def Destination_write_all_def Context_flush_def Destination_flush_def
      written_def get_write_offset_def result_simps dest: BufWriter_order split: if_splits)

theorem writer_keeps_order_witness:
  "\<exists>c c' w. ssud_destination (ssuc_destination c) = SsdBufWriter w \<and> bw_space w = Some 9 \<and>
    write_all c [1, 2, 3] 3 = Inr c' \<and> written c' = written c @ [1, 2, 3]"
proof -
  let ?w = "\<lparr>bw_capacity = 2, bw_buffer = [7], bw_file = [], bw_space = Some 9\<rparr>"
  let ?c = "example_context\<lparr>ssuc_destination :=
    \<lparr>ssud_destination = SsdBufWriter ?w, ssud_offset = 1, ssud_version = Some SendVersion2\<rparr>\<rparr>"
  let ?c' = "?c\<lparr>ssuc_destination := \<lparr>ssud_destination = SsdBufWriter
    \<lparr>bw_capacity = 2, bw_buffer = [], bw_file = [7, 1, 2, 3], bw_space = Some 5\<rparr>,
    ssud_offset = 4, ssud_version = Some SendVersion2\<rparr>\<rparr>"
  have run: "write_all ?c [1, 2, 3] 3 = Inr ?c'"
    by (simp add: write_all_def Destination_write_all_def BufWriter_write_all_def BufWriter_flush_def
        file_write_all_def)
  have "ssud_destination (ssuc_destination ?c) = SsdBufWriter ?w" by simp
  with run writer_keeps_order [of ?c ?w "[1, 2, 3]" 3 ?c'] show ?thesis
    by (metis BufWriter.select_convs(4))
qed

section \<open>The stream header\<close>

text \<open>Reading the stream header: the magic must be exact and the version one of the two known
  ones; every other header is rejected with the error of the first check that fails.\<close>

theorem stream_header_checked:
  assumes "upcoming c (magic @ le32 w @ rest)" and "length magic = 13"
  shows "if \<not> utf8_valid magic then SendHeader_new c = Inl (Bail (Io BadUtf8))
    else if magic \<noteq> BTRFS_MAGIC then SendHeader_new c = Inl (Bail (Io BadMagic))
    else if w \<notin> {1, 2} then SendHeader_new c = Inl (Bail (Io InvalidVersion))
    else \<exists>c'. SendHeader_new c = Inr (\<lparr>sh_magic = BTRFS_MAGIC,
        sh_version = (if w = 1 then SendVersion1 else SendVersion2)\<rparr>, c') \<and> upcoming c' rest"
proof -
  obtain c1 where c1: "read_exact c (length BTRFS_MAGIC) = Inr (magic, c1)" "upcoming c1 (le32 w @ rest)"
    using assms(1) by (rule read_exact_upcoming) (simp_all add: assms(2) length_magic)
  obtain c2 where c2: "read32 c1 = Inr (w, c2)" "upcoming c2 rest"
    using c1(2) by (rule read32_upcoming)
  show ?thesis
    using c1(1) c2
    by (auto simp: SendHeader_new_def from_utf8_def value_to_version_def version_to_value_def ensure_def)
qed

theorem stream_header_checked_witness:
  "\<exists>c'. SendHeader_new (example_input SendVersion1 (BTRFS_MAGIC @ le32 2 @ [9])) =
     Inr (\<lparr>sh_magic = BTRFS_MAGIC, sh_version = SendVersion2\<rparr>, c') \<and> upcoming c' [9]"
  using stream_header_checked [OF example_input_upcoming, of BTRFS_MAGIC 2 "[9]" SendVersion1] utf8_magic
  by (simp add: length_magic)

end
