(* ===== verification/Sendstream_Properties.thy ===== *)
theory Sendstream_Properties
  imports Sendstream_Streams Element_Properties
begin

text \<open>
  The properties of the send stream parser \<open>antlir2/sendstream_parser\<close>. The hypothesis
  \<open>nom_documented\<close> says that the functions of nom behave as their documentation says.
\<close>

section \<open>Single commands\<close>

definition example_chown :: Command where
  "example_chown = Command_Chown \<lparr>chown_path = [0x61], chown_uid = Uid 1000, chown_gid = Gid 7\<rparr>"

lemma example_chown_fits: "command_fits example_chown" "example_chown \<noteq> Command_End"
  by (simp_all add: example_chown_def command_fits_def all_attrs_def meta_def times_of_def to_acmd.simps)



lemma parse_subtypes_type:
  assumes "parse_subtypes N ty d = IOk i c"
  shows "command_type c = ty"
  using assms by (cases ty) (auto simp: expect_into_def split: iresult.splits)

lemma take_from_le: "n = LENGTH('a::len) div 8 \<Longrightarrow> n \<le> length i \<Longrightarrow> to_le n (from_le (take n i) :: 'a word) = take n i"
  using to_le_from_le [of "take n i", where 'a = 'a] by simp

text \<open>C17. What the parser accepts is a command of the type that the header announces, and it has taken
  exactly the header and the announced number of bytes from the input.\<close>

theorem parsed_commands_typed:
  assumes N: "nom_documented N" and parsed: "Command_parse N input = IOk rest c"
  shows "\<exists>len ty crc data. input = le32 len @ le16 ty @ le32 crc @ data @ rest \<and> length data = unat len \<and>
    CommandType_from_u16 ty = command_type c"
proof -
  from parsed obtain j hdr cmd_data where
    hdr: "CommandHeader_parse N input = IOk j hdr" and data: "nm_take N (ch_len hdr) j = IOk rest cmd_data"
    and ty: "command_type c = ch_ty hdr"
    by (auto simp: Command_parse_def ibind_eq_IOk_iff split: if_splits dest!: parse_subtypes_type)
  let ?len = "from_le (take 4 input) :: u32" and ?ty = "from_le (take 2 (drop 4 input)) :: u16"
    and ?crc = "from_le (take 4 (drop 6 input)) :: u32"
  have h: "10 \<le> length input" "j = drop 10 input" "hdr = \<lparr>ch_len = unat ?len, ch_ty = CommandType_from_u16 ?ty, ch_crc32 = ?crc\<rparr>"
    using hdr N by (auto simp: CommandHeader_parse_def CommandType_parse_def nom_documented_def split: if_splits)
  then have d: "unat ?len \<le> length j" "cmd_data = take (unat ?len) j" "rest = drop (unat ?len) j"
    using data N by (auto simp: nom_documented_def split: if_splits)
  have "le32 ?len = take 4 input" "le16 ?ty = take 2 (drop 4 input)" "le32 ?crc = take 4 (drop 6 input)"
    using h(1) by (intro take_from_le; simp)+
  moreover have "cmd_data @ rest = drop 10 input" using h(2) d(2,3) append_take_drop_id by metis
  ultimately have "input = le32 ?len @ le16 ?ty @ le32 ?crc @ cmd_data @ rest"
    using take_add [of 4 2 input] take_add [of 6 4 input] append_take_drop_id [of 10 input] by simp
  moreover have "length cmd_data = unat ?len" using d(1,2) by simp
  moreover have "CommandType_from_u16 ?ty = command_type c" using ty h(3) by simp
  ultimately show ?thesis by blast
qed

theorem parsed_commands_typed_witness:
  "\<exists>len ty crc data. enc_sendstream example_externs example_chown @ [9] = le32 len @ le16 ty @ le32 crc @ data @ [9] \<and>
     length data = unat len \<and> CommandType_from_u16 ty = Type_Chown"
  using parsed_commands_typed [OF example_nom_documented
      Command_parse_enc_command [OF example_nom_documented example_chown_fits(1), of example_externs "[9]"]]
  by (simp add: example_chown_def)

text \<open>The parser ignores the version of the stream: on a write in the version 2 encoding, which is
  what the upgrade tool writes for it when it does not compress, the parser panics, or, if the first two
  bytes of the data happen to be the number of the bytes after them, it returns a write without these
  two bytes.\<close>

theorem version_2_writes_misread:
  assumes N: "nom_documented N" and fits: "command_fits (Command_Write w)" and d: "write_data_field w = Data d"
  shows "Command_parse N (enc_command x SendVersion2 (to_acmd (Command_Write w)) @ rest) =
    (if 2 \<le> length d \<and> length d = unat (from_le (take 2 d) :: u16) + 2
     then IOk rest (Command_Write (w\<lparr>write_data_field := Data (drop 2 d)\<rparr>)) else IPanic)"
proof -
  let ?p = "enc_attr SendVersion1 (BTRFS_SEND_A_PATH, write_path w)"
    and ?o = "enc_attr SendVersion1 (BTRFS_SEND_A_FILE_OFFSET, offset_bytes (write_offset_field w))"
  have payload: "enc_payload SendVersion2 (to_acmd (Command_Write w)) = ?p @ ?o @ le16 19 @ d"
    by (simp add: enc_payload_def all_attrs_def to_acmd.simps d enc_attr_def enc_attr_header_def sizeless_def)
  have lens: "length (write_path w) < 2 ^ 16" "length d < 2 ^ 16"
    using fits by (simp_all add: command_fits_def all_attrs_def to_acmd.simps d)
  then have len: "length (?p @ ?o @ le16 19 @ d) < 2 ^ 32" by (simp add: length_enc_attr sizeless_def)
  have "parse_tlv N Data_tlv (le16 19 @ d) =
      (if 2 \<le> length d \<and> unat (from_le (take 2 d) :: u16) \<le> length d - 2
       then IOk (drop (unat (from_le (take 2 d) :: u16)) (drop 2 d)) (Data (take (unat (from_le (take 2 d) :: u16)) (drop 2 d)))
       else IErr NomIncomplete)"
    using N nom_tag [OF N, of "le16 19" d]
    by (auto simp: parse_tlv_def parse_tlv_with_attr_def Attr_tag_def Data_tlv_def nom_documented_def)
  with lens have wr: "Write_parse N (?p @ ?o @ le16 19 @ d) =
      (if 2 \<le> length d \<and> unat (from_le (take 2 d) :: u16) \<le> length d - 2
       then IOk (drop (unat (from_le (take 2 d) :: u16)) (drop 2 d))
         (w\<lparr>write_data_field := Data (take (unat (from_le (take 2 d) :: u16)) (drop 2 d))\<rparr>)
       else IErr NomIncomplete)"
    by (simp add: Write_parse_def default_tlv_enc [OF N])
  have ty: "CommandType_from_u16 (command_type_to_u16 BTRFS_SEND_C_WRITE) = Type_Write"
    using command_type_code [of "Command_Write w"] by (simp add: to_acmd.simps)
  show ?thesis
    using Command_parse_payload [OF N len, of BTRFS_SEND_C_WRITE "acmd_crc x SendVersion2 (to_acmd (Command_Write w))" rest] ty
    unfolding enc_command_def enc_with_crc_def payload by (auto simp: to_acmd.simps wr expect_into_def)
qed

definition example_zero_write :: Write where
  "example_zero_write = \<lparr>write_path = [0x61], write_offset_field = FileOffset 0, write_data_field = Data [0, 0, 0]\<rparr>"

theorem version_2_writes_misread_witness:
  "Command_parse example_nom (enc_command example_externs SendVersion2 (to_acmd (Command_Write example_zero_write)) @ []) = IPanic"
proof -
  have "command_fits (Command_Write example_zero_write)" "write_data_field example_zero_write = Data [0, 0, 0]"
    by (simp_all add: example_zero_write_def command_fits_def all_attrs_def times_of_def to_acmd.simps)
  from version_2_writes_misread [OF example_nom_documented this, of example_externs "[]"] show ?thesis by simp
qed

section \<open>Whole inputs\<close>

definition collect :: "Command list \<Rightarrow> Command \<Rightarrow> ParserControl \<times> Command list" where
  "collect seen c = (KeepGoing, seen @ [c])"

definition example_streams :: "sendstream list" where
  "example_streams = [(1, [example_chown]), (1, [])]"

lemma example_streams_fit: "streams_fit example_streams"
  using example_chown_fits by (simp add: example_streams_def)

text \<open>C14. The parser delivers the commands: on any number of complete streams whose commands fit the
  format, however the reads cut them, the callback is given the commands of all streams in order, up to
  the first one at which it says that it has enough, and the result is their number.\<close>

theorem sendstream_parse_complete:
  assumes "nom_documented N" and "steady r" and "streams_fit ss" and "reader_bytes r = enc_streams x ss"
  shows "parse N f r s = (case deliver f s (all_commands ss Complete) 0 of (_, n, s') \<Rightarrow> Some (Returned n, s'))"
  using assms by (rule parse_delivers)

theorem sendstream_parse_complete_witness:
  "parse example_nom collect [Chunk (enc_streams example_externs example_streams)] [] =
     Some (Returned 3, [example_chown, Command_End, Command_End])"
  using sendstream_parse_complete [OF example_nom_documented _ example_streams_fit,
      of "[Chunk (enc_streams example_externs example_streams)]" example_externs collect "[]"]
  by (simp add: example_streams_def chunk_bytes_def collect_def)

text \<open>C16. A stream that is cut off is an error: the callback has been given all complete commands, and
  the result is the error for trailing data with the bytes of the incomplete command, or, when there are
  none, possibly the error for an incomplete stream. It is never success.\<close>

theorem sendstream_parse_cut:
  assumes "nom_documented N" and "steady r" and "streams_fit ss" and "body_fits body" and "cut_command x part"
    and "reader_bytes r = enc_streams x ss @ stream_start v @ enc_body x body @ part"
    and "deliver f s (all_commands ss Complete @ body) 0 = (False, n, s')"
  shows "parse N f r s = Some (Raised (TrailingData part), s') \<or>
    part = [] \<and> parse N f r s = Some (Raised Incomplete, s')"
proof -
  let ?e = "Cut_commands v body part"
  have "verdict ?e (deliver f s (all_commands ss ?e) 0) (parse_loop N f r [] None 0 s)"
    by (rule parse_loop_streams(1) [OF assms(1), of x ?e r ss "length r + 2 * length ss + 1"]) (use assms in simp_all)
  moreover have "all_commands ss ?e = all_commands ss Complete @ body" by (simp add: all_commands_def)
  ultimately show ?thesis using assms(7) by (simp add: parse_def)
qed

theorem sendstream_parse_cut_witness:
  "parse example_nom collect [Chunk (stream_start 1), Chunk (enc_sendstream example_externs example_chown),
       Chunk (take 3 (enc_sendstream example_externs example_chown))] [] =
     Some (Raised (TrailingData (take 3 (enc_sendstream example_externs example_chown))), [example_chown])"
proof -
  let ?part = "take 3 (enc_sendstream example_externs example_chown)"
  have ne: "?part \<noteq> []" "drop 3 (enc_sendstream example_externs example_chown) \<noteq> []" by simp_all
  then have cut: "cut_command example_externs ?part"
    using example_chown_fits(1) append_take_drop_id unfolding cut_command_def cut_of_def by metis
  have del: "deliver collect [] (all_commands [] Complete @ [example_chown]) 0 = (False, 1, [example_chown])"
    by (simp add: collect_def)
  from sendstream_parse_cut [OF example_nom_documented _ _ _ cut _ del,
      of "[Chunk (stream_start 1), Chunk (enc_sendstream example_externs example_chown), Chunk ?part]" 1]
    ne example_chown_fits show ?thesis by (simp add: chunk_bytes_def)
qed

text \<open>C19. The parser does not return when the input ends inside a header: bytes after the last stream
  that are the beginning of another header make it read at the end of the input forever.\<close>

theorem sendstream_parse_spins:
  assumes "nom_documented N" and "steady r" and "streams_fit ss" and "h \<noteq> []" and "cut_of h (stream_start v)"
    and "reader_bytes r = enc_streams x ss @ h" and "deliver f s (all_commands ss Complete) 0 = (False, n, s')"
  shows "parse N f r s = None"
proof -
  have "verdict (Cut_header h) (deliver f s (all_commands ss (Cut_header h)) 0) (parse_loop N f r [] None 0 s)"
    by (rule parse_loop_streams(1) [OF assms(1), of x "Cut_header h" r ss "length r + 2 * length ss + 1"]) (use assms in auto)
  moreover have "all_commands ss (Cut_header h) = all_commands ss Complete" by (simp add: all_commands_def)
  ultimately show ?thesis using assms(7) by (simp add: parse_def)
qed

theorem sendstream_parse_spins_witness:
  "parse example_nom collect [Chunk (enc_streams example_externs example_streams), Chunk [0x62]] [] = None"
proof (rule sendstream_parse_spins [OF example_nom_documented _ example_streams_fit])
  show "cut_of [0x62] (stream_start 1)" by (auto simp: cut_of_def stream_start_def MAGIC_HEADER_def)
  show "deliver collect [] (all_commands example_streams Complete) 0 = (False, 3, [example_chown, Command_End, Command_End])"
    by (simp add: example_streams_def collect_def)
qed (simp_all add: chunk_bytes_def example_streams_def)

end
