(* ===== verification/Packager_Properties.thy ===== *)
theory Packager_Properties
  imports Sendstream_Rebuild Sendstream_Properties
begin

text \<open>
  The properties of the userspace send stream packager: its stream gives the layer back, the send stream parser reads it, and what
  the incremental mode sends for an entry that the parent has.
\<close>

section \<open>What fits the stream\<close>

definition short :: "bytes \<Rightarrow> bool" where
  "short p \<longleftrightarrow> length p < 2 ^ 16"

definition entry_fits :: "entry \<Rightarrow> bool" where
  "entry_fits e \<longleftrightarrow>
     short (en_relpath e) \<and> (\<forall>t. en_type e = EntSymlink t \<longrightarrow> short t) \<and> (\<forall>(n, v) \<in> set (en_xattrs e). short n \<and> short v) \<and>
     time_fits (en_atime e) \<and> time_fits (en_mtime e) \<and> time_fits (en_ctime e) \<and>
     (\<forall>reads. en_open e = Some reads \<longrightarrow> (\<forall>r \<in> set reads. short r))"

text \<open>A call that writes a command of the format, other than the last.\<close>

definition call_ok :: "packed \<Rightarrow> bool" where
  "call_ok p \<longleftrightarrow> packed_fits p \<and> (case packed_command p of Some c \<Rightarrow> command_fits c \<and> c \<noteq> Command_End | None \<Rightarrow> False)"

lemma unat_ucast_u32: "unat (ucast (w :: u32) :: u64) < 2 ^ 32"
proof -
  have "unat w < 2 ^ 32"
    using unsigned_less [of w, where 'a = nat] by simp
  moreover have "unat (ucast w :: u64) = take_bit 64 (unat w)"
    by (simp add: unsigned_ucast_eq)
  ultimately show ?thesis
    by (simp add: take_bit_nat_eq_self)
qed

lemma length_values [simp]:
  "length (uuid_bytes u) = 16" "length (ctransid_bytes c) = 8" "length (mode_bytes m) = 8" "length (uid_bytes i) = 8"
  "length (gid_bytes g) = 8" "length (ino_bytes n) = 8" "length (offset_bytes f) = 8" "length (enc_time t) = 12"
  by (cases u, cases c, cases m, cases i, cases g, cases n, cases f, cases t; simp)+

lemma call_okI:
  "short path \<Longrightarrow> call_ok (Pack_subvol path uuid ctransid)"
  "short path \<Longrightarrow> call_ok (Pack_chown path (ucast (u :: u32)) (ucast (g :: u32)))"
  "short path \<Longrightarrow> call_ok (Pack_chmod path (ucast (m :: u32)))"
  "short path \<Longrightarrow> call_ok (Pack_mkfile path ino)"
  "short path \<Longrightarrow> call_ok (Pack_mkdir path ino)"
  "short path \<Longrightarrow> short target \<Longrightarrow> call_ok (Pack_symlink target path ino)"
  "short path \<Longrightarrow> short target \<Longrightarrow> call_ok (Pack_hardlink target path)"
  "short path \<Longrightarrow> short path' \<Longrightarrow> call_ok (Pack_rename path path')"
  "short path \<Longrightarrow> short d \<Longrightarrow> call_ok (Pack_write path off d)"
  "short path \<Longrightarrow> short n \<Longrightarrow> short v \<Longrightarrow> call_ok (Pack_set_xattr path n v)"
  "short path \<Longrightarrow> time_fits a \<Longrightarrow> time_fits t \<Longrightarrow> time_fits c \<Longrightarrow> call_ok (Pack_utimes path a t c)"
  using unat_ucast_u32
  by (simp_all add: call_ok_def short_def command_fits_def all_attrs_def to_acmd.simps meta_def times_of_def)

lemma write_contents_ok: "short p \<Longrightarrow> \<forall>r \<in> set reads. short r \<Longrightarrow> \<forall>c \<in> set (write_contents p off reads). call_ok c"
  by (induction reads arbitrary: off) (auto intro: call_okI)

lemma package_full_ok:
  assumes "package_full tmp e = Inr calls" and "entry_fits e" and "short tmp"
  shows "\<forall>c \<in> set calls. call_ok c"
proof -
  note fits = assms(2) [unfolded entry_fits_def]
  have "\<forall>c \<in> set (entry_metadata e). call_ok c"
    using fits by (auto simp: entry_metadata_def intro!: call_okI)
  moreover have "\<forall>c \<in> set create. call_ok c" if "create_entry tmp e = Inr create" for create
    using that fits assms(3) write_contents_ok
    by (auto simp: create_entry_def pbind_def io_def en_read_link_def intro!: call_okI split: if_splits option.splits entry_type.splits)
  ultimately show ?thesis
    using assms(1) by (auto simp: package_full_def pbind_def split: if_splits sum.splits)
qed

lemma package_walk_ok:
  assumes "package_walk blake3 new_v4 None inodes i es = Inr calls" and "\<forall>e \<in> set es. entry_fits e" and "\<forall>i. short (new_v4 i)"
    and "\<forall>q \<in> ran inodes. short q"
  shows "\<forall>c \<in> set calls. call_ok c"
  using assms
proof (induction es arbitrary: inodes i calls)
  case (Cons e es)
  have e: "entry_fits e" "short (en_relpath e)"
    using Cons.prems(2) by (simp_all add: entry_fits_def)
  show ?case
  proof (cases "inodes (en_ino e)")
    case None
    then have "\<forall>q \<in> ran (inodes(en_ino e \<mapsto> en_relpath e)). short q"
      using Cons.prems(4) e(2) by simp
    with Cons None e package_full_ok show ?thesis
      by (fastforce simp: package_first_def pbind_def split: sum.splits)
  next
    case (Some original)
    then have "short original"
      using Cons.prems(4) by (auto simp: ran_def)
    with Cons Some e show ?thesis
      by (fastforce simp: package_hardlink_def pbind_def intro!: call_okI split: sum.splits)
  qed
qed simp

lemma packs_body:
  assumes "map packed_command calls = map Some cs" and "\<forall>c \<in> set calls. call_ok c"
  shows "concat (map (pack x) calls) = enc_body x cs \<and> body_fits cs"
  using assms
proof (induction calls arbitrary: cs)
  case (Cons p calls)
  then obtain c cs' where cs: "cs = c # cs'" "packed_command p = Some c" "map packed_command calls = map Some cs'"
    by auto
  with Cons pack_command [OF cs(2)] show ?case
    by (simp add: call_ok_def)
qed simp

section \<open>Full streams\<close>

text \<open>The receiving side has the layer: its names are the paths of the layer; every inode has the type, contents, permissions, owner,
  extended attributes and times of its entries, where a directory may have lost its times; two names are links to one inode exactly if
  they are in the layer; and directories with entries have lost their times.\<close>

definition has_layer :: "filesystem \<Rightarrow> entry list \<Rightarrow> bool" where
  "has_layer fs layer \<longleftrightarrow>
     (\<forall>p. fs_names fs p \<noteq> None \<longleftrightarrow> p \<in> en_relpath ` set layer) \<and>
     (\<forall>e \<in> set layer. \<exists>n. fs_names fs (en_relpath e) = Some n \<and>
        (fs_inode fs n = entry_inode e \<or> en_type e = EntDir \<and> fs_inode fs n = untimed (entry_inode e))) \<and>
     (\<forall>e \<in> set layer. \<forall>e' \<in> set layer. fs_names fs (en_relpath e) = fs_names fs (en_relpath e') \<longleftrightarrow> en_ino e = en_ino e')"

definition child_times_lost :: "filesystem \<Rightarrow> entry list \<Rightarrow> bool" where
  "child_times_lost fs layer \<longleftrightarrow>
     (\<forall>e \<in> set layer. en_relpath e \<noteq> [] \<longrightarrow>
        (\<exists>d. fs_names fs (dirname (en_relpath e)) = Some d \<and> in_times (fs_inode fs d) = None))"

lemma rebuilt_has_layer:
  assumes "rebuilt layer inodes fs" and "\<forall>e \<in> set layer. readable e"
  shows "has_layer fs layer" and "child_times_lost fs layer"
proof -
  note D = rebuiltD [OF assms(1)]
  have "\<exists>n. fs_names fs (en_relpath e) = Some n \<and>
      (fs_inode fs n = entry_inode e \<or> en_type e = EntDir \<and> fs_inode fs n = untimed (entry_inode e))" if e: "e \<in> set layer" for e
    using D(3) [OF e] readable_contents assms(2) e unfolding represents_def by blast
  then show "has_layer fs layer"
    using D(1,4) unfolding has_layer_def by blast
  show "child_times_lost fs layer"
    using D(7) unfolding child_times_lost_def by blast
qed

definition subvol_command :: "bytes \<Rightarrow> subvol_info \<Rightarrow> Command" where
  "subvol_command name info =
     Command_Subvol \<lparr>subvol_path = name, subvol_uuid = (case si_received_uuid info of Some u \<Rightarrow> u | None \<Rightarrow> si_uuid info),
       subvol_ctransid = Ctransid (si_ctransid info)\<rparr>"

lemma start_call: "packed_command (package_start name info None) = Some (subvol_command name info)"
  "short name \<Longrightarrow> call_ok (package_start name info None)"
  by (simp_all add: package_start_def subvol_command_def call_okI)

text \<open>C28. The packager gives the layer back: packaging a layer whose files can be read, in the order of the walk and with temporary
  names that the layer does not have, succeeds; its calls start the subvolume, end the stream, and in between write commands that,
  received into an empty subvolume, rebuild the layer, hard links included. The times of a directory that has entries are lost, since
  the entries are created after the times have been set.\<close>

theorem packager_rebuilds_layer:
  assumes "layer_wf layer" and "fresh_names new_v4 layer"
  shows "\<exists>calls cs fs. package_calls blake3 new_v4 name info None layer = Inr calls \<and>
    map packed_command calls = map Some (subvol_command name info # cs @ [Command_End]) \<and>
    receive empty_subvol cs = Some fs \<and> has_layer fs layer \<and> child_times_lost fs layer"
proof -
  obtain calls fs inodes where walk: "package_walk blake3 new_v4 None Map.empty 0 layer = Inr calls"
    "receive_calls empty_subvol calls = Some fs" "rebuilt layer inodes fs"
    using layer_calls [OF assms] by blast
  obtain cs where "map packed_command calls = map Some cs" "receive empty_subvol cs = Some fs"
    using receive_calls_commands [OF walk(2)] by blast
  moreover have "\<forall>e \<in> set layer. readable e"
    using assms(1) by (simp add: layer_wf_def)
  ultimately show ?thesis
    using walk(1) rebuilt_has_layer [OF walk(3)] start_call(1)
    by (intro exI [of _ "package_start name info None # calls @ [Pack_end]"] exI [of _ cs] exI [of _ fs])
      (simp add: package_calls_def package_removals_def pbind_def)
qed

definition example_time :: SystemTime where
  "example_time = SystemTime 1000 5"

definition example_entry :: "bytes \<Rightarrow> u64 \<Rightarrow> entry_type \<Rightarrow> bytes list option \<Rightarrow> entry" where
  "example_entry p ino t reads =
     \<lparr>en_relpath = p, en_ino = ino, en_type = t, en_mode = 0x81ED, en_uid = 1, en_gid = 2, en_rdev = 0,
      en_len = (case reads of Some rs \<Rightarrow> word_of_nat (length (concat rs)) | None \<Rightarrow> 0), en_xattrs = [([0x78], [1, 2])],
      en_atime = example_time, en_mtime = example_time, en_ctime = example_time, en_open = reads\<rparr>"

text \<open>A directory \<open>a\<close> with a file \<open>a/f\<close>, a symbolic link \<open>l\<close>, and a second name \<open>z\<close> of the file.\<close>

definition example_layer :: "entry list" where
  "example_layer =
     [example_entry [] 256 EntDir None, example_entry [0x61] 257 EntDir None,
      example_entry [0x61, 0x2F, 0x66] 258 EntFile (Some [[1, 2], [3]]), example_entry [0x6C] 259 (EntSymlink [0x61]) None,
      example_entry [0x7A] 258 EntFile (Some [[1, 2], [3]])]"

definition example_name :: "nat \<Rightarrow> bytes" where
  "example_name i = [0x75]"

definition example_info :: subvol_info where
  "example_info = \<lparr>si_uuid = Uuid 7, si_received_uuid = None, si_ctransid = 3\<rparr>"

lemmas example_layer_defs = example_layer_def example_entry_def example_name_def example_time_def

lemma example_layer_wf: "layer_wf example_layer" "fresh_names example_name example_layer"
  by (simp_all add: example_layer_defs layer_wf_def readable_def is_symlink_type_def dirname_def entry_inode_def fresh_names_def)

lemma example_layer_fits: "\<forall>e \<in> set example_layer. entry_fits e" "\<forall>i. short (example_name i)"
  by (simp_all add: example_layer_defs entry_fits_def short_def)

theorem packager_rebuilds_layer_witness:
  "\<exists>calls cs fs. package_calls id example_name [0x76] example_info None example_layer = Inr calls \<and>
     map packed_command calls = map Some (subvol_command [0x76] example_info # cs @ [Command_End]) \<and>
     receive empty_subvol cs = Some fs \<and> has_layer fs example_layer \<and> child_times_lost fs example_layer"
  by (rule packager_rebuilds_layer [OF example_layer_wf])

lemma deliver_collect: "deliver collect s cs n = (False, n + length cs, s @ cs)"
  by (induction cs arbitrary: s n) (simp_all add: collect_def)

lemma layer_stream:
  assumes "layer_wf layer" and "fresh_names new_v4 layer" and "\<forall>e \<in> set layer. entry_fits e" and "\<forall>i. short (new_v4 i)" and "short name"
  obtains cs fs where "package_build x blake3 new_v4 name info None layer = Inr (enc_streams x [(1, subvol_command name info # cs)])"
    and "body_fits (subvol_command name info # cs)" and "receive empty_subvol cs = Some fs" and "has_layer fs layer"
proof -
  obtain calls fs inodes where walk: "package_walk blake3 new_v4 None Map.empty 0 layer = Inr calls"
    "receive_calls empty_subvol calls = Some fs" "rebuilt layer inodes fs"
    using layer_calls [OF assms(1,2)] by blast
  obtain cs where cs: "map packed_command calls = map Some cs" "receive empty_subvol cs = Some fs"
    using receive_calls_commands [OF walk(2)] by blast
  let ?start = "package_start name info None" and ?cs = "subvol_command name info # cs"
  have "\<forall>c \<in> set (?start # calls). call_ok c"
    using package_walk_ok [OF walk(1) assms(3,4)] start_call(2) [OF assms(5)] by simp
  with packs_body [of "?start # calls" ?cs x] cs(1) start_call(1) [of name info]
  have body: "concat (map (pack x) (?start # calls)) = enc_body x ?cs" "body_fits ?cs"
    by simp_all
  moreover have "pack x Pack_end = enc_sendstream x Command_End"
    by (rule pack_command) simp_all
  ultimately have "package_build x blake3 new_v4 name info None layer = Inr (enc_streams x [(1, ?cs)])"
    using walk(1) by (simp add: package_build_def package_calls_def package_removals_def pbind_def stream_start_def MAGIC_HEADER_def)
  moreover have "\<forall>e \<in> set layer. readable e"
    using assms(1) by (simp add: layer_wf_def)
  ultimately show thesis
    using that body(2) cs(2) rebuilt_has_layer(1) [OF walk(3)] by blast
qed

text \<open>C29. The packager, the parser and the receiving side together: when the names, attributes and reads of the layer fit the
  16-bit lengths of the format, the packager writes bytes from which the send stream parser, however it reads them, delivers the commands that,
  received into an empty subvolume, rebuild the layer.\<close>

theorem packaged_stream_parsed:
  assumes "nom_documented N" and "layer_wf layer" and "fresh_names new_v4 layer" and "\<forall>e \<in> set layer. entry_fits e"
    and "\<forall>i. short (new_v4 i)" and "short name"
  shows "\<exists>bytes cs fs. package_build x blake3 new_v4 name info None layer = Inr bytes \<and>
    (\<forall>r. steady r \<and> reader_bytes r = bytes \<longrightarrow>
       parse N collect r [] = Some (Returned (length cs + 2), subvol_command name info # cs @ [Command_End])) \<and>
    receive empty_subvol cs = Some fs \<and> has_layer fs layer"
proof -
  obtain cs fs where build: "package_build x blake3 new_v4 name info None layer = Inr (enc_streams x [(1, subvol_command name info # cs)])"
    and fits: "body_fits (subvol_command name info # cs)" and fs: "receive empty_subvol cs = Some fs" "has_layer fs layer"
    by (rule layer_stream [OF assms(2-6)])
  have "parse N collect r [] = Some (Returned (length cs + 2), subvol_command name info # cs @ [Command_End])"
    if "steady r" "reader_bytes r = enc_streams x [(1, subvol_command name info # cs)]" for r
    using parse_delivers [OF assms(1) that(1) _ that(2), of collect "[]"] fits by (simp add: deliver_collect collect_def)
  with build fs show ?thesis
    by blast
qed

theorem packaged_stream_parsed_witness:
  "\<exists>bytes cs fs. package_build example_externs id example_name [0x76] example_info None example_layer = Inr bytes \<and>
    (\<forall>r. steady r \<and> reader_bytes r = bytes \<longrightarrow>
       parse example_nom collect r [] = Some (Returned (length cs + 2), subvol_command [0x76] example_info # cs @ [Command_End])) \<and>
    receive empty_subvol cs = Some fs \<and> has_layer fs example_layer"
  by (rule packaged_stream_parsed [OF example_nom_documented example_layer_wf example_layer_fits]) (simp add: short_def)

section \<open>Incremental streams\<close>

lemma removal_calls:
  assumes "fs_names fs p = Some n" and "distinct names" and "set names \<subseteq> dom (in_xattrs (fs_inode fs n))"
  shows "receive_calls fs (map (Pack_rm_xattr p) names) =
    Some (update_inode fs n (\<lambda>i. i\<lparr>in_xattrs := in_xattrs i |` (- set names)\<rparr>))"
  using assms
proof (induction names arbitrary: fs)
  case Nil
  then show ?case
    by (simp add: update_inode_def)
next
  case (Cons name names)
  let ?fs = "update_inode fs n (\<lambda>i. i\<lparr>in_xattrs := (in_xattrs i)(name := None)\<rparr>)"
  have "receive_call fs (Pack_rm_xattr p name) = Some ?fs"
    using Cons.prems by (auto simp: receive_call_def at_path_def update_inode_def)
  moreover have "receive_calls ?fs (map (Pack_rm_xattr p) names) =
      Some (update_inode ?fs n (\<lambda>i. i\<lparr>in_xattrs := in_xattrs i |` (- set names)\<rparr>))"
    by (rule Cons.IH) (use Cons.prems in auto)
  moreover have "m(name := None) |` (- set names) = m |` (- insert name (set names))" for m :: "bytes \<rightharpoonup> bytes"
    by (simp add: restrict_map_def fun_eq_iff)
  ultimately show ?case
    by (simp del: restrict_fun_upd)
qed

text \<open>The calls for the extended attributes of an entry that the parent has: those in \<open>changed\<close> are set and those that the entry
  no longer has are removed.\<close>

lemma removed_xattrs_names:
  "removed_xattrs e parent = map (Pack_rm_xattr (en_relpath e)) (filter (\<lambda>n. n \<notin> fst ` set (en_xattrs e)) (map fst (en_xattrs parent)))"
  by (simp add: removed_xattrs_def filter_map comp_def split_def)

lemma xattr_update_calls:
  assumes "fs_names fs (en_relpath e) = Some n" and "in_xattrs (fs_inode fs n) = map_of (en_xattrs parent)"
    and "distinct (map fst (en_xattrs e))" and "distinct (map fst (en_xattrs parent))" and "set changed \<subseteq> set (en_xattrs e)"
    and "distinct (map fst changed)"
  shows "receive_calls fs (map (\<lambda>(name, val). Pack_set_xattr (en_relpath e) name val) changed @ removed_xattrs e parent) =
    Some (update_inode fs n (\<lambda>i. i\<lparr>in_xattrs := (map_of (en_xattrs parent) ++ map_of changed) |` dom (map_of (en_xattrs e))\<rparr>))"
proof -
  let ?gone = "filter (\<lambda>n. n \<notin> fst ` set (en_xattrs e)) (map fst (en_xattrs parent))"
  let ?fs = "update_inode fs n (\<lambda>i. i\<lparr>in_xattrs := in_xattrs i ++ map_of (rev changed)\<rparr>)"
  have "receive_calls ?fs (map (Pack_rm_xattr (en_relpath e)) ?gone) =
      Some (update_inode ?fs n (\<lambda>i. i\<lparr>in_xattrs := in_xattrs i |` (- set ?gone)\<rparr>))"
    by (rule removal_calls) (use assms(1,2,4) in \<open>auto simp: dom_map_of_conv_image_fst\<close>)
  moreover have "(map_of (en_xattrs parent) ++ map_of changed) |` (- set ?gone) =
      (map_of (en_xattrs parent) ++ map_of changed) |` dom (map_of (en_xattrs e))"
  proof
    fix k
    have "map_of changed k = None" if "k \<notin> fst ` set (en_xattrs e)"
      using that assms(5) by (auto simp: map_of_eq_None_iff)
    moreover have "map_of (en_xattrs parent) k = None" if "k \<notin> fst ` set (en_xattrs parent)"
      using that by (auto simp: map_of_eq_None_iff)
    ultimately show "((map_of (en_xattrs parent) ++ map_of changed) |` (- set ?gone)) k =
        ((map_of (en_xattrs parent) ++ map_of changed) |` dom (map_of (en_xattrs e))) k"
      by (auto simp: restrict_map_def dom_map_of_conv_image_fst map_add_def)
  qed
  ultimately show ?thesis
    using xattr_calls [OF assms(1), of changed] assms(2,6) map_of_rev [OF assms(6)]
    by (simp add: removed_xattrs_names update_inode_def)
qed


definition readable_file :: "entry \<Rightarrow> bool" where
  "readable_file e \<longleftrightarrow> readable e \<and> en_type e = EntFile \<and> unat (en_len e) = length (concat (the (en_open e)))"


lemma common_xattrs:
  assumes "distinct (map fst xs)"
  shows "(map_of ys ++ map_of (filter (\<lambda>(name, val). case map_of ys name of Some old \<Rightarrow> val \<noteq> old | None \<Rightarrow> False) xs)) |` dom (map_of xs) =
    map_of xs |` dom (map_of ys)" (is "(_ ++ ?c) |` _ = _")
proof
  fix k
  have set: "?c k = Some v \<longleftrightarrow> map_of xs k = Some v \<and> (\<exists>w. map_of ys k = Some w \<and> w \<noteq> v)" for v
    using assms by (auto simp: map_of_eq_Some_iff distinct_map_filter split: option.splits)
  show "((map_of ys ++ ?c) |` dom (map_of xs)) k = (map_of xs |` dom (map_of ys)) k"
  proof (cases "map_of xs k")
    case (Some v)
    with set [of v] set [of "the (?c k)"] show ?thesis
      by (cases "?c k"; cases "map_of ys k") (auto simp: map_add_def restrict_map_def domIff)
  qed (simp add: restrict_map_def domIff)
qed

definition same_metadata :: "inode \<Rightarrow> entry \<Rightarrow> bool" where
  "same_metadata i e \<longleftrightarrow>
     in_mode i = mode_bits_truncate (en_mode e) \<and> in_uid i = en_uid e \<and> in_gid i = en_gid e \<and> in_xattrs i = map_of (en_xattrs e)"

lemma update_inode_idle: "f (fs_inode fs n) = fs_inode fs n \<Longrightarrow> update_inode fs n f = fs"
  by (simp add: update_inode_def)




definition example_file :: "bytes \<Rightarrow> (bytes \<times> bytes) list \<Rightarrow> entry" where
  "example_file c xs = (example_entry [0x66] 258 EntFile (Some [c]))\<lparr>en_xattrs := xs\<rparr>"

definition example_parent_fs :: "entry \<Rightarrow> filesystem" where
  "example_parent_fs e = empty_subvol\<lparr>fs_names := [[] \<mapsto> 0, en_relpath e \<mapsto> 1], fs_inode := (fs_inode empty_subvol)(1 := entry_inode e), fs_next := 2\<rparr>"

lemmas example_file_defs = example_file_def example_entry_def readable_file_def readable_def is_symlink_type_def


text \<open>C31. A directory that the parent has: the incremental mode sends the owner and the permissions, changed values of extended attributes and
  their removals, but no extended attribute that the parent does not have: the receiving side has the attributes of the
  directory restricted to those names that it has in the parent.\<close>

theorem incremental_directory_updated:
  assumes "en_type e = EntDir" and "distinct (map fst (en_xattrs e))" and "distinct (map fst (en_xattrs parent))"
    and "fs_names fs (en_relpath e) = Some n" and "same_metadata (fs_inode fs n) parent"
  shows "\<exists>calls i. package_known blake3 e parent = Inr calls \<and> receive_calls fs calls = Some (update_inode fs n (\<lambda>_. i)) \<and>
    in_uid i = en_uid e \<and> in_gid i = en_gid e \<and> mode_bits_truncate (in_mode i) = mode_bits_truncate (en_mode e) \<and>
    in_xattrs i = map_of (en_xattrs e) |` dom (map_of (en_xattrs parent))"
proof -
  let ?p = "en_relpath e" and ?i = "fs_inode fs n"
  let ?changed = "filter (\<lambda>(name, val). case map_of (en_xattrs parent) name of Some parent_val \<Rightarrow> val \<noteq> parent_val | None \<Rightarrow> False) (en_xattrs e)"
  let ?chown = "if en_uid e \<noteq> en_uid parent \<or> en_gid e \<noteq> en_gid parent then [Pack_chown ?p (ucast (en_uid e)) (ucast (en_gid e))] else []"
  let ?chmod = "if en_mode e \<noteq> en_mode parent then [Pack_chmod ?p (ucast (en_mode e))] else []"
  let ?fs1 = "update_inode fs n (\<lambda>i. i\<lparr>in_uid := en_uid e, in_gid := en_gid e\<rparr>)"
  let ?m = "if en_mode e \<noteq> en_mode parent then en_mode e else in_mode ?i"
  let ?fs2 = "update_inode ?fs1 n (\<lambda>i. i\<lparr>in_mode := ?m\<rparr>)"
  let ?xs = "(map_of (en_xattrs parent) ++ map_of ?changed) |` dom (map_of (en_xattrs e))"
  have "receive_calls fs ?chown = Some ?fs1"
    using assms(4,5) by (auto simp: chown_call update_inode_def same_metadata_def fun_upd_idem)
  moreover have "?fs2 = ?fs1" if "en_mode e = en_mode parent"
    using that by (intro update_inode_idle) (cases ?i, simp)
  then have "receive_calls ?fs1 ?chmod = Some ?fs2"
    using assms(4) by (simp add: chmod_call)
  moreover have "receive_calls ?fs2 (map (\<lambda>(name, val). Pack_set_xattr ?p name val) ?changed @ removed_xattrs e parent) =
      Some (update_inode ?fs2 n (\<lambda>i. i\<lparr>in_xattrs := ?xs\<rparr>))"
    by (rule xattr_update_calls) (use assms in \<open>auto simp: same_metadata_def distinct_map_filter\<close>)
  ultimately have "receive_calls fs (?chown @ ?chmod @ map (\<lambda>(name, val). Pack_set_xattr ?p name val) ?changed @ removed_xattrs e parent) =
      Some (update_inode ?fs2 n (\<lambda>i. i\<lparr>in_xattrs := ?xs\<rparr>))"
    unfolding receive_calls_append [of fs] receive_calls_append [of ?fs1] by simp
  then have "receive_calls fs (package_known_dir e parent) =
      Some (update_inode fs n (\<lambda>_. ?i\<lparr>in_uid := en_uid e, in_gid := en_gid e, in_mode := ?m, in_xattrs := ?xs\<rparr>))"
    unfolding package_known_dir_def by (simp add: update_inode_def)
  moreover have "?xs = map_of (en_xattrs e) |` dom (map_of (en_xattrs parent))"
    by (rule common_xattrs [OF assms(2)])
  moreover have "mode_bits_truncate ?m = mode_bits_truncate (en_mode e)"
    using assms(5) by (simp add: same_metadata_def mode_bits_truncate_def)
  ultimately show ?thesis
    using assms(1) by (intro exI conjI) (auto simp: package_known_def)
qed

theorem incremental_directory_updated_witness:
  "\<exists>calls i. package_known id ((example_file [] [([5], [6]), ([7], [9])])\<lparr>en_type := EntDir\<rparr>) (example_file [] [([7], [8])]) = Inr calls \<and>
    receive_calls (example_parent_fs (example_file [] [([7], [8])])) calls =
      Some (update_inode (example_parent_fs (example_file [] [([7], [8])])) 1 (\<lambda>_. i)) \<and>
    in_uid i = 1 \<and> in_gid i = 2 \<and> mode_bits_truncate (in_mode i) = 0x1ED \<and> in_xattrs i = [[7] \<mapsto> [9]]"
proof -
  let ?e = "(example_file [] [([5], [6]), ([7], [9])])\<lparr>en_type := EntDir\<rparr>" and ?parent = "example_file [] [([7], [8])]"
  have "map_of (en_xattrs ?e) |` dom (map_of (en_xattrs ?parent)) = [[7] \<mapsto> [9]]"
    by (auto simp: example_file_def restrict_map_def fun_eq_iff)
  moreover have "mode_bits_truncate (en_mode ?e) = 0x1ED" "en_uid ?e = 1" "en_gid ?e = 2"
    by (simp_all add: example_file_defs mode_bits_truncate_def)
  ultimately show ?thesis
    using incremental_directory_updated [of ?e ?parent "example_parent_fs ?parent" 1 id]
    by (simp add: example_parent_fs_def same_metadata_def entry_inode_def example_file_defs)
qed

section \<open>Layers that do not change, and layers that cannot be packaged\<close>

lemma package_known_self:
  assumes "readable e"
  shows "package_known blake3 e e = Inr []"
proof -
  have xattrs: "distinct (map fst (en_xattrs e))"
    using assms by (simp add: readable_def)
  then have same: "map_of (en_xattrs e) name = Some val" if "(name, val) \<in> set (en_xattrs e)" for name val
    using that by simp
  have "filter (\<lambda>(name, val). map_of (en_xattrs e) name \<noteq> Some val) (en_xattrs e) = []"
    "filter (\<lambda>(name, val). case map_of (en_xattrs e) name of Some v \<Rightarrow> val \<noteq> v | None \<Rightarrow> False) (en_xattrs e) = []"
    "removed_xattrs e e = []"
    using same by (auto simp: filter_empty_conv removed_xattrs_names)
  moreover have "contents_changed blake3 e e = Inr False" if "en_type e = EntFile"
    using assms that by (auto simp: contents_changed_def readable_def is_symlink_type_def pbind_def io_def split: option.splits)
  ultimately show ?thesis
    using assms by (auto simp: package_known_def package_known_dir_def package_known_contents_def package_known_link_def
        package_known_metadata_def pbind_def io_def en_read_link_def is_symlink_type_def split: entry_type.splits)
qed

lemma package_walk_unchanged:
  assumes "\<forall>e \<in> set es. readable e \<and> pl_stat pl (en_relpath e) = StatOk e"
  shows "package_walk blake3 new_v4 (Some pl) inodes i es = Inr []"
  using assms
  by (induction es arbitrary: inodes i)
    (auto simp: package_hardlink_def package_first_def package_known_self pbind_def split: option.split)

text \<open>Nothing is sent for a layer that is the same as its parent: the calls are the snapshot and the end of the stream.\<close>

theorem unchanged_layer_sends_nothing:
  assumes "\<forall>e \<in> set layer. readable e \<and> pl_stat pl (en_relpath e) = StatOk e" and "set (pl_contents_first pl) \<subseteq> set layer"
  shows "package_calls blake3 new_v4 name info (Some (parent_info, pl)) layer = Inr [package_start name info (Some parent_info), Pack_end]"
proof -
  have "package_removals (Some pl) layer = []"
    using assms(2) by (auto simp: package_removals_def filter_empty_conv)
  then show ?thesis
    by (simp add: package_calls_def package_walk_unchanged [OF assms(1)] pbind_def)
qed

definition example_parent :: parent_layer where
  "example_parent = \<lparr>pl_stat = (\<lambda>p. case List.find (\<lambda>e. en_relpath e = p) example_layer of Some e \<Rightarrow> StatOk e | None \<Rightarrow> StatNotFound),
     pl_contents_first = rev example_layer\<rparr>"

theorem unchanged_layer_sends_nothing_witness:
  "package_calls id example_name [0x76] example_info (Some (example_info, example_parent)) example_layer =
     Inr [Pack_snapshot [0x76] (Uuid 7) 3 (Uuid 7) 3, Pack_end]"
proof -
  have "\<forall>e \<in> set example_layer. readable e \<and> pl_stat example_parent (en_relpath e) = StatOk e"
    by (simp add: example_parent_def example_layer_defs readable_def is_symlink_type_def)
  from unchanged_layer_sends_nothing [OF this, of id example_name "[0x76]" example_info example_info] show ?thesis
    by (simp add: example_parent_def package_start_def example_info_def)
qed

definition special :: "entry_type \<Rightarrow> bool" where
  "special t \<longleftrightarrow> t \<in> {EntBlock, EntChar, EntFifo, EntSocket}"

lemma package_walk_special:
  assumes "e \<in> set es" and "special (en_type e)" and "\<forall>e' \<in> set es. en_relpath e' \<noteq> [] \<and> (en_ino e' = en_ino e \<longrightarrow> special (en_type e'))"
    and "inodes (en_ino e) = None"
  shows "\<exists>err. package_walk blake3 new_v4 None inodes i es = Inl err"
  using assms
proof (induction es arbitrary: inodes i)
  case (Cons a es)
  have fail: "package_full tmp a = Inl PackFileType" if "en_ino a = en_ino e" for tmp
    using that Cons.prems(3) by (auto simp: package_full_def create_entry_def special_def is_symlink_type_def pbind_def)
  show ?case
  proof (cases "en_ino a = en_ino e")
    case True
    with fail Cons.prems(4) show ?thesis
      by (simp add: package_first_def pbind_def)
  next
    case False
    then have es: "e \<in> set es" "\<forall>e' \<in> set es. en_relpath e' \<noteq> [] \<and> (en_ino e' = en_ino e \<longrightarrow> special (en_type e'))"
      using Cons.prems(1,3) by auto
    have "\<exists>err. package_walk blake3 new_v4 None inodes' (Suc i) es = Inl err" if "inodes' (en_ino e) = None" for inodes'
      using es(1) Cons.prems(2) es(2) that by (rule Cons.IH)
    from this [of inodes] this [of "inodes(en_ino a \<mapsto> en_relpath a)"] obtain err err' where
      "package_walk blake3 new_v4 None inodes (Suc i) es = Inl err"
      "package_walk blake3 new_v4 None (inodes(en_ino a \<mapsto> en_relpath a)) (Suc i) es = Inl err'"
      using Cons.prems(4) False by auto
    then show ?thesis
      by (simp add: pbind_def split: option.split sum.split)
  qed
qed simp

text \<open>A layer with a device node, a fifo or a socket cannot be packaged: the packager fails, since its branches for these files
  are inside the test for a regular file.\<close>

theorem special_files_fail:
  assumes "special (en_type e)" and "e \<in> set es" and "en_relpath root = []" and "en_ino root \<noteq> en_ino e"
    and "\<forall>e' \<in> set es. en_relpath e' \<noteq> [] \<and> (en_ino e' = en_ino e \<longrightarrow> special (en_type e'))"
  shows "\<exists>err. package_calls blake3 new_v4 name info None (root # es) = Inl err"
proof -
  obtain err where "package_walk blake3 new_v4 None [en_ino root \<mapsto> []] 1 es = Inl err"
    using package_walk_special [OF assms(2,1,5), of "[en_ino root \<mapsto> []]" blake3 new_v4 1] assms(4) by auto
  then show ?thesis
    using assms(3) by (simp add: package_calls_def package_first_def package_full_def pbind_def)
qed

theorem special_files_fail_witness:
  "\<exists>err. package_calls id example_name [0x76] example_info None
     [example_entry [] 256 EntDir None, example_entry [0x66] 257 EntFifo None] = Inl err"
  using special_files_fail [of "example_entry [0x66] 257 EntFifo None" "[example_entry [0x66] 257 EntFifo None]"
      "example_entry [] 256 EntDir None" id example_name "[0x76]" example_info]
  by (simp add: special_def example_entry_def)

end
