(* ===== verification/Queues.thy ===== *)
theory Queues
  imports Blocking "HOL-Library.Multiset"
begin

text \<open>
  The element queues between the stages of the multi-threaded upgrade:
  \<open>mp/sync/unordered_element_queue.rs\<close>, a FIFO, and \<open>mp/sync/ordered_element_queue.rs\<close>, which
  hands elements out by their ids whatever the order of their arrival. Both provide the
  interface \<open>blocking_queue\<close>. The ids are \<open>u64\<close>, whose overflow is a panic.
\<close>

section \<open>The interface\<close>

text \<open>
  The runs of a queue: the elements that producers have put in and that consumers have been
  given so far, in the order of the operations. Refused, failed and waiting operations are part
  of a run and leave both lists alone.
\<close>

inductive queue_run ::
  "('q \<Rightarrow> 'a \<Rightarrow> unit result \<times> 'q) \<Rightarrow> ('q \<Rightarrow> 'a option result \<times> 'q) \<Rightarrow>
   ('q \<Rightarrow> bool \<Rightarrow> unit result \<times> 'q) \<Rightarrow> 'q \<Rightarrow> 'a list \<Rightarrow> 'a list \<Rightarrow> 'q \<Rightarrow> bool"
  for enqueue dequeue halt q0
where
  start: "queue_run enqueue dequeue halt q0 [] [] q0"
| enqueue: "queue_run enqueue dequeue halt q0 ins outs q \<Longrightarrow> enqueue q x = (Inr (), q') \<Longrightarrow>
    queue_run enqueue dequeue halt q0 (ins @ [x]) outs q'"
| dequeue: "queue_run enqueue dequeue halt q0 ins outs q \<Longrightarrow> dequeue q = (Inr (Some x), q') \<Longrightarrow>
    queue_run enqueue dequeue halt q0 ins (outs @ [x]) q'"
| dequeue_none: "queue_run enqueue dequeue halt q0 ins outs q \<Longrightarrow> dequeue q = (Inr None, q') \<Longrightarrow>
    queue_run enqueue dequeue halt q0 ins outs q'"
| wait: "queue_run enqueue dequeue halt q0 ins outs q \<Longrightarrow> dequeue q = (Inl Blocked, q') \<Longrightarrow>
    queue_run enqueue dequeue halt q0 ins outs q'"
| halt: "queue_run enqueue dequeue halt q0 ins outs q \<Longrightarrow>
    queue_run enqueue dequeue halt q0 ins outs (snd (halt q u))"

text \<open>
  \<open>BlockingQueue\<close>: what both queues promise. A queue that is not running takes no element and
  hands none out; one that is done ends its consumers with \<open>None\<close>; an aborted one fails them;
  a running one conserves its elements.
\<close>

locale blocking_queue = blocking_sync_primitive halt state_of
  for halt :: "'q \<Rightarrow> bool \<Rightarrow> unit result \<times> 'q" and state_of :: "'q \<Rightarrow> PrimitiveState" +
  fixes enqueue :: "'q \<Rightarrow> 'a \<Rightarrow> unit result \<times> 'q"
    and dequeue :: "'q \<Rightarrow> 'a option result \<times> 'q"
    and contents :: "'q \<Rightarrow> 'a multiset"
    and inv :: "'q \<Rightarrow> bool"
  assumes enqueue_aborted: "state_of q = Aborted \<Longrightarrow> enqueue q x = (Inl (Bail (Mp QueueAborted)), q)"
    and enqueue_done: "state_of q = Done \<Longrightarrow> enqueue q x = (Inl (Bail (Mp QueueDone)), q)"
    and enqueue_inv: "inv q \<Longrightarrow> inv (snd (enqueue q x))"
    and enqueue_contents: "enqueue q x = (Inr (), q') \<Longrightarrow> contents q' = add_mset x (contents q)"
    and dequeue_aborted: "state_of q = Aborted \<Longrightarrow> dequeue q = (Inl (Bail (Mp QueueAborted)), q)"
    and dequeue_done: "state_of q = Done \<Longrightarrow> dequeue q = (Inr None, q)"
    and dequeue_inv: "inv q \<Longrightarrow> inv (snd (dequeue q))"
    and dequeue_contents:
      "inv q \<Longrightarrow> dequeue q = (Inr (Some x), q') \<Longrightarrow> contents q = add_mset x (contents q')"
    and dequeue_none: "dequeue q = (Inr None, q') \<Longrightarrow> q' = q \<and> state_of q = Done"
    and dequeue_blocked: "dequeue q = (Inl Blocked, q') \<Longrightarrow> q' = q \<and> state_of q = Running"
    and halt_inv: "inv q \<Longrightarrow> inv (snd (halt q u))"
    and halt_contents: "contents (snd (halt q u)) = contents q"
begin

text \<open>Halting never leaves a consumer waiting: after any \<open>halt\<close> every \<open>dequeue\<close> returns, with
  \<open>None\<close> or with an error, and no element is taken or handed out any more.\<close>

lemma halted_never_blocks: "fst (dequeue (snd (halt q u))) \<noteq> Inl Blocked"
  using dequeue_blocked [of "snd (halt q u)"] halt_stops [of q u] by (metis prod.collapse)

lemma halted_hands_out_nothing: "fst (dequeue (snd (halt q u))) \<noteq> Inr (Some x)"
  using halt_stops [of q u] dequeue_aborted [of "snd (halt q u)"] dequeue_done [of "snd (halt q u)"]
  by (cases "state_of (snd (halt q u))") auto

lemma halted_takes_nothing: "fst (enqueue (snd (halt q u)) x) \<noteq> Inr ()"
  using halt_stops [of q u] enqueue_aborted [of "snd (halt q u)" x] enqueue_done [of "snd (halt q u)" x]
  by (cases "state_of (snd (halt q u))") auto

text \<open>No element is lost, duplicated or made up in any run.\<close>

lemma run_conserves:
  assumes "queue_run enqueue dequeue halt q0 ins outs q" and "inv q0"
  shows "inv q \<and> contents q0 + mset ins = mset outs + contents q"
  using assms
proof induction
  case (enqueue ins outs q x q')
  then show ?case using enqueue_inv [of q x] enqueue_contents [of q x q'] by simp
next
  case (dequeue ins outs q x q')
  then show ?case using dequeue_inv [of q] dequeue_contents [of q x q'] by simp
next
  case (dequeue_none ins outs q q')
  then show ?case using blocking_queue.dequeue_none [OF blocking_queue_axioms] by blast
next
  case (wait ins outs q q')
  then show ?case using dequeue_blocked by blast
next
  case (halt ins outs q u)
  then show ?case using halt_inv halt_contents by simp
qed simp

end

section \<open>The unordered queue\<close>

record 'a UnorderedElementQueue =
  uoeqi_queue :: "'a list"
  uoeqi_state :: PrimitiveState
  uoeq_name :: string

definition UnorderedElementQueue_new :: "string \<Rightarrow> 'a UnorderedElementQueue" where
  "UnorderedElementQueue_new name = \<lparr>uoeqi_queue = [], uoeqi_state = Running, uoeq_name = name\<rparr>"

definition UnorderedElementQueue_enqueue ::
  "'a UnorderedElementQueue \<Rightarrow> 'a \<Rightarrow> unit result \<times> 'a UnorderedElementQueue" where
  "UnorderedElementQueue_enqueue q item =
     (case uoeqi_state q of
        Running \<Rightarrow> (Inr (), q\<lparr>uoeqi_queue := uoeqi_queue q @ [item]\<rparr>)
      | Aborted \<Rightarrow> (Inl (Bail (Mp QueueAborted)), q)
      | Done \<Rightarrow> (Inl (Bail (Mp QueueDone)), q))"

definition UnorderedElementQueue_dequeue ::
  "'a UnorderedElementQueue \<Rightarrow> 'a option result \<times> 'a UnorderedElementQueue" where
  "UnorderedElementQueue_dequeue q =
     (if uoeqi_queue q = [] \<and> uoeqi_state q = Running then (Inl Blocked, q)
      else case uoeqi_state q of
        Running \<Rightarrow>
          (case uoeqi_queue q of
             item # rest \<Rightarrow> (Inr (Some item), q\<lparr>uoeqi_queue := rest\<rparr>)
           | [] \<Rightarrow> (Inl (Bail (Mp NoElement)), q))
      | Aborted \<Rightarrow> (Inl (Bail (Mp QueueAborted)), q)
      | Done \<Rightarrow> (Inr None, q))"

definition UnorderedElementQueue_halt ::
  "'a UnorderedElementQueue \<Rightarrow> bool \<Rightarrow> unit result \<times> 'a UnorderedElementQueue" where
  "UnorderedElementQueue_halt q unplanned =
     (case halt_state (uoeqi_state q) unplanned of
        Inl e \<Rightarrow> (Inl e, q)
      | Inr s \<Rightarrow> (Inr (), q\<lparr>uoeqi_state := s\<rparr>))"

section \<open>The ordered queue\<close>

text \<open>The trait \<open>OrderedElement\<close> as the record of its methods.\<close>

record 'a OrderedElement =
  get_first_id :: "'a \<Rightarrow> nat"
  get_last_id :: "'a \<Rightarrow> nat"
  is_last_id_shared :: "'a \<Rightarrow> bool"

record 'a OrderedElementQueue =
  oeqi_map :: "(nat \<times> 'a) list"
  oeqi_first_id :: nat
  oeqi_state :: PrimitiveState
  oeq_name :: string

definition OrderedElementQueue_new :: "string \<Rightarrow> 'a OrderedElementQueue" where
  "OrderedElementQueue_new name =
     \<lparr>oeqi_map = [], oeqi_first_id = 0, oeqi_state = Running, oeq_name = name\<rparr>"

definition OrderedElementQueue_enqueue ::
  "'a OrderedElement \<Rightarrow> 'a OrderedElementQueue \<Rightarrow> 'a \<Rightarrow> unit result \<times> 'a OrderedElementQueue" where
  "OrderedElementQueue_enqueue e q item =
     (case oeqi_state q of
        Running \<Rightarrow>
          let key = get_first_id e item;
              q1 = q\<lparr>oeqi_map := AList.update key item (oeqi_map q)\<rparr>
          in (case map_of (oeqi_map q) key of
                Some old_item \<Rightarrow> (Inl (Bail (Mp DuplicateElement)), q1)
              | None \<Rightarrow> (Inr (), q1))
      | Aborted \<Rightarrow> (Inl (Bail (Mp QueueAborted)), q)
      | Done \<Rightarrow> (Inl (Bail (Mp QueueDone)), q))"

definition OrderedElementQueue_dequeue ::
  "'a OrderedElement \<Rightarrow> 'a OrderedElementQueue \<Rightarrow> 'a option result \<times> 'a OrderedElementQueue" where
  "OrderedElementQueue_dequeue e q =
     (if map_of (oeqi_map q) (oeqi_first_id q) = None \<and> oeqi_state q = Running then (Inl Blocked, q)
      else case oeqi_state q of
        Running \<Rightarrow>
          let current_key = oeqi_first_id q
          in (case map_of (oeqi_map q) current_key of
                None \<Rightarrow> (Inl (Bail (Mp NoElement)), q)
              | Some item \<Rightarrow>
                  let q1 = q\<lparr>oeqi_map := AList.delete current_key (oeqi_map q)\<rparr>
                  in (case uadd (get_last_id e item) (if is_last_id_shared e item then 0 else 1) of
                        Inl p \<Rightarrow> (Inl p, q1)
                      | Inr first_id \<Rightarrow>
                          let q2 = q1\<lparr>oeqi_first_id := first_id\<rparr>
                          in if get_first_id e item = current_key then (Inr (Some item), q2)
                             else (Inl (Bail (Mp WrongElement)), q2)))
      | Aborted \<Rightarrow> (Inl (Bail (Mp QueueAborted)), q)
      | Done \<Rightarrow> (Inr None, q))"

definition OrderedElementQueue_halt ::
  "'a OrderedElementQueue \<Rightarrow> bool \<Rightarrow> unit result \<times> 'a OrderedElementQueue" where
  "OrderedElementQueue_halt q unplanned =
     (case halt_state (oeqi_state q) unplanned of
        Inl e \<Rightarrow> (Inl e, q)
      | Inr s \<Rightarrow> (Inr (), q\<lparr>oeqi_state := s\<rparr>))"

section \<open>Both queues provide the interface\<close>

interpretation uoeq: blocking_queue UnorderedElementQueue_halt uoeqi_state UnorderedElementQueue_enqueue
    UnorderedElementQueue_dequeue "\<lambda>q. mset (uoeqi_queue q)" "\<lambda>_. True"
  by unfold_locales
    (auto simp: UnorderedElementQueue_halt_def UnorderedElementQueue_enqueue_def
      UnorderedElementQueue_dequeue_def split: PrimitiveState.splits list.splits if_splits sum.splits)

text \<open>Every entry of the ordered queue is filed under its first id.\<close>

definition oeq_inv :: "'a OrderedElement \<Rightarrow> 'a OrderedElementQueue \<Rightarrow> bool" where
  "oeq_inv e q \<longleftrightarrow> distinct (map fst (oeqi_map q)) \<and>
     (\<forall>k x. map_of (oeqi_map q) k = Some x \<longrightarrow> get_first_id e x = k)"

lemma mset_delete_key:
  assumes "distinct (map fst al)" and "map_of al k = Some v"
  shows "mset (map snd al) = add_mset v (mset (map snd (AList.delete k al)))"
  using assms
proof (induction al)
  case (Cons p al)
  show ?case
  proof (cases "fst p = k")
    case True
    with Cons.prems(1) have "AList.delete k al = al" by (intro delete_id) auto
    with True Cons.prems(2) show ?thesis by simp
  next
    case False
    with Cons show ?thesis by simp
  qed
qed simp

definition successor_id :: "'a OrderedElement \<Rightarrow> 'a \<Rightarrow> nat" where
  "successor_id e x = get_last_id e x + (if is_last_id_shared e x then 0 else 1)"

lemma oeq_enqueue_iff:
  "OrderedElementQueue_enqueue e q x = (Inr (), q') \<longleftrightarrow>
     oeqi_state q = Running \<and> map_of (oeqi_map q) (get_first_id e x) = None \<and>
     q' = q\<lparr>oeqi_map := oeqi_map q @ [(get_first_id e x, x)]\<rparr>"
  by (auto simp: OrderedElementQueue_enqueue_def Let_def update_fresh
      split: PrimitiveState.splits option.splits)

lemma oeq_dequeue_iff:
  "OrderedElementQueue_dequeue e q = (Inr (Some x), q') \<longleftrightarrow>
     oeqi_state q = Running \<and> map_of (oeqi_map q) (oeqi_first_id q) = Some x \<and>
     successor_id e x < 2 ^ 64 \<and> get_first_id e x = oeqi_first_id q \<and>
     q' = q\<lparr>oeqi_map := AList.delete (oeqi_first_id q) (oeqi_map q), oeqi_first_id := successor_id e x\<rparr>"
  by (auto simp: OrderedElementQueue_dequeue_def Let_def successor_id_def uadd_def
      split: PrimitiveState.splits option.splits if_splits)

lemma oeq_dequeue_None_iff:
  "OrderedElementQueue_dequeue e q = (Inr None, q') \<longleftrightarrow> oeqi_state q = Done \<and> q' = q"
  "OrderedElementQueue_dequeue e q = (Inl Blocked, q') \<longleftrightarrow>
     oeqi_state q = Running \<and> map_of (oeqi_map q) (oeqi_first_id q) = None \<and> q' = q"
  by (auto simp: OrderedElementQueue_dequeue_def Let_def uadd_def
      split: PrimitiveState.splits option.splits if_splits sum.splits)

lemma oeq_inv_enqueue: "oeq_inv e q \<Longrightarrow> oeq_inv e (snd (OrderedElementQueue_enqueue e q x))"
  by (auto simp: OrderedElementQueue_enqueue_def oeq_inv_def Let_def distinct_update update_conv'
      simp del: map_of_eq_Some_iff split: PrimitiveState.splits option.splits)

lemma oeq_inv_dequeue: "oeq_inv e q \<Longrightarrow> oeq_inv e (snd (OrderedElementQueue_dequeue e q))"
  by (auto simp: OrderedElementQueue_dequeue_def oeq_inv_def Let_def distinct_delete delete_conv'
      simp del: map_of_eq_Some_iff split: PrimitiveState.splits option.splits sum.splits)

interpretation oeq: blocking_queue OrderedElementQueue_halt oeqi_state "OrderedElementQueue_enqueue e"
    "OrderedElementQueue_dequeue e" "\<lambda>q. mset (map snd (oeqi_map q))" "oeq_inv e" for e
proof unfold_locales
  show "oeq_inv e (snd (OrderedElementQueue_enqueue e q x))" if "oeq_inv e q" for q x
    using that by (rule oeq_inv_enqueue)
  show "oeq_inv e (snd (OrderedElementQueue_dequeue e q))" if "oeq_inv e q" for q
    using that by (rule oeq_inv_dequeue)
  show "mset (map snd (oeqi_map q)) = add_mset x (mset (map snd (oeqi_map q')))"
    if "oeq_inv e q" "OrderedElementQueue_dequeue e q = (Inr (Some x), q')" for q x q'
    using that mset_delete_key [of "oeqi_map q" "oeqi_first_id q" x]
    by (simp add: oeq_dequeue_iff oeq_inv_def)
  show "OrderedElementQueue_dequeue e q = (Inr None, q)" if "oeqi_state q = Done" for q
    using that by (simp add: oeq_dequeue_None_iff)
qed (auto simp: oeq_enqueue_iff oeq_dequeue_None_iff, auto simp: OrderedElementQueue_halt_def
    oeq_inv_def OrderedElementQueue_enqueue_def OrderedElementQueue_dequeue_def split: sum.splits)

section \<open>Delivery in order\<close>

text \<open>\<open>chained e n xs m\<close>: the ids of \<open>xs\<close> run from \<open>n\<close> up to but not including \<open>m\<close> without a gap.\<close>

fun chained :: "'a OrderedElement \<Rightarrow> nat \<Rightarrow> 'a list \<Rightarrow> nat \<Rightarrow> bool" where
  "chained e n [] m \<longleftrightarrow> n = m"
| "chained e n (x # xs) m \<longleftrightarrow> get_first_id e x = n \<and> chained e (successor_id e x) xs m"

lemma chained_append: "chained e n (xs @ ys) m \<longleftrightarrow> (\<exists>k. chained e n xs k \<and> chained e k ys m)"
  by (induction xs arbitrary: n) auto

text \<open>The ids of an element span a range; a shared last id is not the only one of its element.\<close>

definition well_ranged :: "'a OrderedElement \<Rightarrow> 'a \<Rightarrow> bool" where
  "well_ranged e x \<longleftrightarrow> get_first_id e x \<le> get_last_id e x \<and>
     (is_last_id_shared e x \<longrightarrow> get_first_id e x < get_last_id e x)"

lemma chained_mono:
  assumes "chained e n xs m" and "\<forall>x \<in> set xs. well_ranged e x"
  shows "n \<le> m" "\<forall>x \<in> set xs. n \<le> get_first_id e x \<and> get_first_id e x < m"
proof -
  have "n \<le> m \<and> (\<forall>x \<in> set xs. n \<le> get_first_id e x \<and> get_first_id e x < m)"
    using assms
    by (induction xs arbitrary: n) (force simp: well_ranged_def successor_id_def split: if_splits)+
  then show "n \<le> m" "\<forall>x \<in> set xs. n \<le> get_first_id e x \<and> get_first_id e x < m" by auto
qed

lemma chained_unique:
  assumes "chained e n xs m" and "\<forall>x \<in> set xs. well_ranged e x"
    and "x \<in> set xs" and "y \<in> set xs" and "get_first_id e x = get_first_id e y"
  shows "x = y"
  using assms
proof (induction xs arbitrary: n)
  case (Cons z xs)
  have *: "n < get_first_id e w" if "w \<in> set xs" for w
    using chained_mono(2) [of e "successor_id e z" xs m] that Cons.prems(1,2)
    by (force simp: well_ranged_def successor_id_def split: if_splits)
  have z: "get_first_id e z = n" using Cons.prems(1) by simp
  show ?case
  proof (cases "x \<in> set xs \<and> y \<in> set xs")
    case True
    with Cons show ?thesis by auto
  next
    case False
    with Cons.prems(3-5) * [of x] * [of y] z show ?thesis by (metis less_irrefl set_ConsD)
  qed
qed simp

abbreviation oeq_run ::
  "'a OrderedElement \<Rightarrow> 'a OrderedElementQueue \<Rightarrow> 'a list \<Rightarrow> 'a list \<Rightarrow> 'a OrderedElementQueue \<Rightarrow> bool" where
  "oeq_run e \<equiv> queue_run (OrderedElementQueue_enqueue e) (OrderedElementQueue_dequeue e) OrderedElementQueue_halt"

lemma oeq_inv_new: "oeq_inv e (OrderedElementQueue_new name)"
  by (simp add: oeq_inv_def OrderedElementQueue_new_def)

lemma oeq_run_chained:
  assumes "oeq_run e (OrderedElementQueue_new name) ins outs q"
  shows "chained e 0 outs (oeqi_first_id q)"
  using assms
proof (induction)
  case start
  then show ?case by (simp add: OrderedElementQueue_new_def)
next
  case (halt ins outs q u)
  then show ?case by (simp add: OrderedElementQueue_halt_def split: sum.splits)
qed (auto simp: oeq_enqueue_iff oeq_dequeue_iff oeq_dequeue_None_iff chained_append)

text \<open>What consumers have been given is a prefix of the chain that the producers fill in any
  order.\<close>

lemma chained_prefix:
  assumes "chained e n all m" and "\<forall>x \<in> set all. well_ranged e x"
    and "chained e n outs k" and "set outs \<subseteq> set all"
  shows "outs = take (length outs) all \<and> chained e k (drop (length outs) all) m"
  using assms
proof (induction outs arbitrary: n all)
  case (Cons x outs)
  then obtain y rest where all: "all = y # rest" by (cases all) auto
  with Cons.prems have "get_first_id e x = get_first_id e y" by simp
  then have xy: "x = y" using chained_unique [OF Cons.prems(1,2)] Cons.prems(4) all by auto
  have "set outs \<subseteq> set rest"
  proof
    fix z assume z: "z \<in> set outs"
    have "\<forall>w \<in> set outs. well_ranged e w" using Cons.prems(2,4) by auto
    then have "successor_id e x \<le> get_first_id e z"
      using chained_mono(2) [of e "successor_id e x" outs k] Cons.prems(3) z by simp
    moreover have "get_first_id e x < successor_id e x"
      using Cons.prems(2) all xy by (force simp: well_ranged_def successor_id_def)
    ultimately have "z \<noteq> y" using xy by auto
    with z Cons.prems(4) all show "z \<in> set rest" by auto
  qed
  with Cons.IH [of "successor_id e x" rest] Cons.prems all xy show ?case by simp
qed simp

lemma oeq_run_state:
  assumes "chained e 0 all m" "\<forall>x \<in> set all. well_ranged e x"
    and run: "oeq_run e (OrderedElementQueue_new name) ins outs q" and ins: "set ins \<subseteq> set all"
  shows "oeq_inv e q" "set ins = set outs \<union> snd ` set (oeqi_map q)"
    "outs = take (length outs) all" "chained e (oeqi_first_id q) (drop (length outs) all) m"
    "chained e 0 outs (oeqi_first_id q)"
proof -
  show "oeq_inv e q" using oeq.run_conserves [OF run oeq_inv_new] by simp
  have cons: "mset ins = mset outs + mset (map snd (oeqi_map q))"
    using oeq.run_conserves [OF run oeq_inv_new] by (simp add: OrderedElementQueue_new_def)
  show sets: "set ins = set outs \<union> snd ` set (oeqi_map q)"
    using arg_cong [OF cons, of set_mset] by simp
  show ch: "chained e 0 outs (oeqi_first_id q)" using run by (rule oeq_run_chained)
  show "outs = take (length outs) all" "chained e (oeqi_first_id q) (drop (length outs) all) m"
    using chained_prefix [OF assms(1,2) ch] sets ins by auto
qed

lemma oeq_run_front:
  assumes all: "chained e 0 all m" "\<forall>x \<in> set all. well_ranged e x"
    and run: "oeq_run e (OrderedElementQueue_new name) ins outs q" and ins: "set ins \<subseteq> set all"
  shows "map_of (oeqi_map q) (oeqi_first_id q) =
    (if length outs < length all \<and> all ! length outs \<in> set ins then Some (all ! length outs) else None)"
proof -
  let ?n = "length outs"
  note state = oeq_run_state [OF all run ins]
  have front: "get_first_id e (all ! ?n) = oeqi_first_id q" if "?n < length all"
    using state(4) Cons_nth_drop_Suc [OF that, symmetric] by simp
  have "?n < length all \<and> x = all ! ?n \<and> x \<in> set ins"
    if some: "map_of (oeqi_map q) (oeqi_first_id q) = Some x" for x
  proof -
    have x: "x \<in> set ins" "get_first_id e x = oeqi_first_id q"
      using some state(1,2)
      by (auto simp: oeq_inv_def simp del: map_of_eq_Some_iff dest!: map_of_SomeD) force
    have "oeqi_first_id q < m" using x ins chained_mono(2) [OF all(1,2)] by (metis subsetD)
    with state(4) have "?n < length all" by (cases "?n < length all") auto
    with front x ins chained_unique [OF all(1,2)] show ?thesis by auto
  qed
  moreover have "map_of (oeqi_map q) (oeqi_first_id q) \<noteq> None"
    if n: "?n < length all" "all ! ?n \<in> set ins"
  proof -
    have "all ! ?n \<notin> set outs"
      using chained_mono(2) [OF state(5)] state(3) all(2) front [OF n(1)] by (metis in_set_takeD less_irrefl)
    with n state(2) obtain k where "(k, all ! ?n) \<in> set (oeqi_map q)" by auto
    with state(1) front [OF n(1)] show ?thesis by (force simp: oeq_inv_def)
  qed
  ultimately show ?thesis by (cases "map_of (oeqi_map q) (oeqi_first_id q)") auto
qed

lemma oeq_run_dequeue:
  assumes all: "chained e 0 all m" "\<forall>x \<in> set all. well_ranged e x" "m < 2 ^ 64"
    and run: "oeq_run e (OrderedElementQueue_new name) ins outs q" and ins: "set ins \<subseteq> set all"
    and running: "oeqi_state q = Running"
  shows "fst (OrderedElementQueue_dequeue e q) =
    (if length outs < length all \<and> all ! length outs \<in> set ins
     then Inr (Some (all ! length outs)) else Inl Blocked)"
proof (cases "length outs < length all \<and> all ! length outs \<in> set ins")
  case True
  let ?x = "all ! length outs"
  note state = oeq_run_state [OF all(1,2) run ins]
  have "drop (length outs) all = ?x # drop (Suc (length outs)) all"
    using True by (simp add: Cons_nth_drop_Suc)
  with state(4) all(2) have "successor_id e ?x \<le> m" "get_first_id e ?x = oeqi_first_id q"
    using chained_mono(1) [of e "successor_id e ?x" "drop (Suc (length outs)) all" m]
    by (auto dest: in_set_dropD)
  with all(3) running True oeq_run_front [OF all(1,2) run ins]
  have "OrderedElementQueue_dequeue e q = (Inr (Some ?x),
      q\<lparr>oeqi_map := AList.delete (oeqi_first_id q) (oeqi_map q), oeqi_first_id := successor_id e ?x\<rparr>)"
    by (simp add: oeq_dequeue_iff)
  with True show ?thesis by simp
next
  case False
  with running oeq_run_front [OF all(1,2) run ins] show ?thesis
    by (simp add: OrderedElementQueue_dequeue_def)
qed

text \<open>The unordered queue is a FIFO.\<close>

abbreviation uoeq_run ::
  "'a UnorderedElementQueue \<Rightarrow> 'a list \<Rightarrow> 'a list \<Rightarrow> 'a UnorderedElementQueue \<Rightarrow> bool" where
  "uoeq_run \<equiv> queue_run UnorderedElementQueue_enqueue UnorderedElementQueue_dequeue UnorderedElementQueue_halt"

lemma uoeq_dequeue_iff:
  "UnorderedElementQueue_dequeue q = (Inr (Some x), q') \<longleftrightarrow>
     uoeqi_state q = Running \<and> (\<exists>rest. uoeqi_queue q = x # rest \<and> q' = q\<lparr>uoeqi_queue := rest\<rparr>)"
  "UnorderedElementQueue_dequeue q = (Inr None, q') \<longleftrightarrow> uoeqi_state q = Done \<and> q' = q"
  "UnorderedElementQueue_dequeue q = (Inl Blocked, q') \<longleftrightarrow>
     uoeqi_state q = Running \<and> uoeqi_queue q = [] \<and> q' = q"
  by (auto simp: UnorderedElementQueue_dequeue_def split: PrimitiveState.splits list.splits if_splits)

lemma uoeq_enqueue_iff:
  "UnorderedElementQueue_enqueue q x = (Inr (), q') \<longleftrightarrow>
     uoeqi_state q = Running \<and> q' = q\<lparr>uoeqi_queue := uoeqi_queue q @ [x]\<rparr>"
  by (auto simp: UnorderedElementQueue_enqueue_def split: PrimitiveState.splits)

lemma uoeq_run_fifo:
  assumes "uoeq_run (UnorderedElementQueue_new name) ins outs q"
  shows "ins = outs @ uoeqi_queue q"
  using assms
proof induction
  case start
  then show ?case by (simp add: UnorderedElementQueue_new_def)
next
  case (halt ins outs q u)
  then show ?case by (simp add: UnorderedElementQueue_halt_def split: sum.splits)
qed (auto simp: uoeq_enqueue_iff uoeq_dequeue_iff)

end
