(* ===== verification/Batch.thy ===== *)
theory Batch
  imports Command Queues
begin

text \<open>
  The elements of the queues of the multi-threaded upgrade: \<open>mp/send_elements/command_info.rs\<close>,
  a command that is still to be read, and \<open>mp/send_elements/command_batch_info.rs\<close>, a run of
  adjacent writes that are to become one command.

  A batch refers to its commands through \<open>Arc\<close> pointers. A command is referred to from two batches
  exactly when \<open>try_append\<close> has split it; \<open>scp_shared\<close> records this, and \<open>Arc::try_unwrap\<close> is taken
  to fail on such a pointer, as it does while the other half exists.
\<close>

section \<open>Commands to be read\<close>

record CommandInfo =
  ci_id :: nat
  ci_send_command_header :: SendCommandHeader
  ci_buffer_start_address :: nat

definition CommandInfo_new :: "nat \<Rightarrow> SendCommandHeader \<Rightarrow> nat \<Rightarrow> CommandInfo" where
  "CommandInfo_new id' send_command_header start_address =
     \<lparr>ci_id = id', ci_send_command_header = send_command_header,
      ci_buffer_start_address = start_address\<rparr>"

definition CommandInfo_split :: "CommandInfo \<Rightarrow> nat \<times> SendCommandHeader \<times> nat" where
  "CommandInfo_split ci = (ci_id ci, ci_send_command_header ci, ci_buffer_start_address ci)"

section \<open>Batches\<close>

record SendCommandPointer =
  scp_command :: SendCommand
  scp_data_payload_start_offset :: nat
  scp_data_payload_end_offset :: nat
  scp_shared :: bool

record CommandBatchInfo =
  cbi_first_id :: nat
  cbi_last_id :: nat
  cbi_last_id_shared :: bool
  cbi_command_queue :: "SendCommandPointer list"
  cbi_data_payload_size :: nat

definition whole_pointer :: "SendCommand \<Rightarrow> SendCommandPointer" where
  "whole_pointer command =
     \<lparr>scp_command = command, scp_data_payload_start_offset = 0,
      scp_data_payload_end_offset = get_cached_data_payload_size command, scp_shared = False\<rparr>"

definition CommandBatchInfo_new :: "nat \<Rightarrow> SendCommand \<Rightarrow> CommandBatchInfo" where
  "CommandBatchInfo_new id' send_command =
     \<lparr>cbi_first_id = id', cbi_last_id = id', cbi_last_id_shared = False,
      cbi_command_queue = [whole_pointer send_command],
      cbi_data_payload_size = get_cached_data_payload_size send_command\<rparr>"

text \<open>The test whether a pointer covers its whole command.\<close>

definition covers_command :: "SendCommandPointer \<Rightarrow> bool" where
  "covers_command p \<longleftrightarrow> scp_data_payload_start_offset p = 0 \<and>
     scp_data_payload_end_offset p = get_cached_data_payload_size (scp_command p)"

text \<open>\<open>queue[length - 1]\<close> and \<open>queue[0]\<close>.\<close>

definition last_pointer :: "SendCommandPointer list \<Rightarrow> SendCommandPointer result" where
  "last_pointer queue = (if queue = [] then Inl (Panic ArithmeticOverflow) else Inr (last queue))"

definition first_pointer :: "SendCommandPointer list \<Rightarrow> SendCommandPointer result" where
  "first_pointer queue = (if queue = [] then Inl (Panic IndexOutOfRange) else Inr (hd queue))"

definition CommandBatchInfo_can_append ::
  "CommandBatchInfo \<Rightarrow> ctx \<Rightarrow> CommandBatchInfo \<Rightarrow> bool result" where
  "CommandBatchInfo_can_append s c other =
     (let limit = maximum_batched_extent_size (ssuc_options c)
      in rbind (last_pointer (cbi_command_queue s)) (\<lambda>last_p.
      ensure (covers_command last_p \<or> length (cbi_command_queue s) = 1) (Mp FragmentInBatch)
        (rbind (last_pointer (cbi_command_queue other)) (\<lambda>other_p.
         ensure (covers_command other_p \<and> length (cbi_command_queue other) = 1) (Mp BadBatch)
           (ensure (cbi_data_payload_size s \<le> limit) (Mp BatchTooBig)
             (if cbi_data_payload_size s = limit then Inr False
              else rbind (SendCommand_can_append (scp_command last_p) (scp_command other_p)) (\<lambda>appendable.
                if appendable
                then rbind (uadd (cbi_last_id s) 1) (\<lambda>next_id. Inr (next_id = cbi_first_id other))
                else Inr False)))))))"

text \<open>\<open>try_append\<close> gives the batch to dispatch, if any, and the one to keep.\<close>

definition CommandBatchInfo_try_append ::
  "CommandBatchInfo \<Rightarrow> ctx \<Rightarrow> CommandBatchInfo \<Rightarrow> (CommandBatchInfo option \<times> CommandBatchInfo) result" where
  "CommandBatchInfo_try_append s c other =
     (let limit = maximum_batched_extent_size (ssuc_options c)
      in rbind (CommandBatchInfo_can_append s c other) (\<lambda>can_append.
      if \<not> can_append then Inr (Some s, other)
      else rbind (first_pointer (cbi_command_queue other)) (\<lambda>other_pointer.
      if cbi_data_payload_size s + cbi_data_payload_size other \<le> limit then
        rbind (uadd (cbi_last_id s) 1) (\<lambda>last_id.
        Inr (None, s\<lparr>cbi_command_queue := cbi_command_queue s @ [other_pointer],
                     cbi_data_payload_size := cbi_data_payload_size s + cbi_data_payload_size other,
                     cbi_last_id := last_id\<rparr>))
      else
        rbind (usub limit (cbi_data_payload_size s)) (\<lambda>bytes_to_append.
        rbind (uadd (cbi_last_id s) 1) (\<lambda>last_id.
        rbind (usub (cbi_data_payload_size other) bytes_to_append) (\<lambda>other_size.
        let front = \<lparr>scp_command = scp_command other_pointer, scp_data_payload_start_offset = 0,
                     scp_data_payload_end_offset = bytes_to_append, scp_shared = True\<rparr>;
            s1 = s\<lparr>cbi_command_queue := cbi_command_queue s @ [front],
                   cbi_data_payload_size := cbi_data_payload_size s + bytes_to_append,
                   cbi_last_id := last_id, cbi_last_id_shared := True\<rparr>;
            rest = other_pointer\<lparr>scp_data_payload_start_offset := bytes_to_append, scp_shared := True\<rparr>;
            other1 = other\<lparr>cbi_command_queue := drop 1 (cbi_command_queue other) @ [rest],
                           cbi_data_payload_size := other_size\<rparr>
        in ensure (cbi_last_id other1 = cbi_first_id other1) (Mp MalformedBatch)
             (Inr (Some s1, other1))))))))"

definition remove_first ::
  "externs \<Rightarrow> CommandBatchInfo \<Rightarrow> ctx \<Rightarrow> (SendCommand \<times> CommandBatchInfo) result" where
  "remove_first x s c =
     rbind (first_pointer (cbi_command_queue s)) (\<lambda>command_pointer.
     let s1 = s\<lparr>cbi_command_queue := drop 1 (cbi_command_queue s)\<rparr>
     in if covers_command command_pointer then
          ensure (\<not> scp_shared command_pointer) (Mp BadStrongCount)
            (Inr (scp_command command_pointer, s1))
        else rbind (SendCommand_copy_range x (scp_command command_pointer) c
                      (scp_data_payload_start_offset command_pointer)
                      (scp_data_payload_end_offset command_pointer)) (\<lambda>command.
             Inr (command, s1)))"

definition CommandBatchInfo_is_end :: "CommandBatchInfo \<Rightarrow> bool result" where
  "CommandBatchInfo_is_end s =
     rbind (first_pointer (cbi_command_queue s)) (\<lambda>p. Inr (SendCommand_is_end (scp_command p)))"

definition CommandBatchInfo_is_appendable :: "CommandBatchInfo \<Rightarrow> bool result" where
  "CommandBatchInfo_is_appendable s =
     rbind (first_pointer (cbi_command_queue s)) (\<lambda>p. Inr (SendCommand_is_appendable (scp_command p)))"

definition repopulate :: "CommandBatchInfo \<Rightarrow> SendCommand \<Rightarrow> CommandBatchInfo result" where
  "repopulate s command =
     ensure (cbi_command_queue s = []) (Mp NonEmptyBatch)
       (Inr (s\<lparr>cbi_command_queue := cbi_command_queue s @ [whole_pointer command]\<rparr>))"

definition CommandBatchInfo_ordered :: "CommandBatchInfo OrderedElement" where
  "CommandBatchInfo_ordered =
     \<lparr>get_first_id = cbi_first_id, get_last_id = cbi_last_id, is_last_id_shared = cbi_last_id_shared\<rparr>"

end
