(* ===== verification/Workers.thy ===== *)
theory Workers
  imports Batch Send_Stream
begin

text \<open>
  The worker threads of \<open>mp/threads\<close>: what each of them does with an element between taking it from
  its input queue and handing the result to its output queue. Nothing in between touches shared
  state, apart from the reads through the buffer cache.
\<close>

section \<open>Reading and constructing\<close>

text \<open>\<open>ReadWorker\<close>, up to the enqueue: the command information, whether it is the last one, and
  the payload that is skipped afterwards.\<close>

definition ReadWorker_next :: "ctx \<Rightarrow> nat \<Rightarrow> (CommandInfo \<times> bool \<times> nat \<times> ctx) result" where
  "ReadWorker_next c command_id =
     rbind (SendCommandHeader_new c) (\<lambda>(header, c1).
     rbind (get_command_payload_size header) (\<lambda>payload_size.
     let is_end = is_command_end header; start_address = get_read_offset c1
     in Inr (CommandInfo_new command_id header start_address, is_end, payload_size, c1)))"

text \<open>The rest of the turn of \<open>ReadWorker\<close>: skip to the next command.\<close>

definition ReadWorker_skip :: "ctx \<Rightarrow> nat \<Rightarrow> nat \<Rightarrow> (nat \<times> ctx) result" where
  "ReadWorker_skip c payload_size command_id =
     rbind (adjust_read_offset c payload_size) (\<lambda>c1.
     rbind (uadd command_id 1) (\<lambda>next_id. Inr (next_id, c1)))"

definition CommandConstructionWorker_build ::
  "externs \<Rightarrow> ctx \<Rightarrow> CommandInfo \<Rightarrow> (CommandBatchInfo \<times> ctx) result" where
  "CommandConstructionWorker_build x c command_info =
     (case CommandInfo_split command_info of (id', header, offset) \<Rightarrow>
        rbind (set_read_offset c offset) (\<lambda>c1.
        rbind (SendCommand_new_from_header x c1 header) (\<lambda>(command, c2).
        rbind (upgrade_command x command c2) (\<lambda>command.
        Inr (CommandBatchInfo_new id' command, c2)))))"

section \<open>Batching\<close>

text \<open>\<open>BatcherWorker\<close>: the match on the previous batch gives the batch to dispatch, if any, and
  either a batch to keep waiting with or the remainder to go on with.\<close>

datatype batcher_outcome =
    Keep_waiting CommandBatchInfo
  | Go_on "CommandBatchInfo option" CommandBatchInfo

definition BatcherWorker_append ::
  "ctx \<Rightarrow> CommandBatchInfo option \<Rightarrow> CommandBatchInfo \<Rightarrow> batcher_outcome result" where
  "BatcherWorker_append c previous_batch_info_option current_batch_info =
     (case previous_batch_info_option of
        None \<Rightarrow> Inr (Go_on None current_batch_info)
      | Some previous_batch_info \<Rightarrow>
          rbind (CommandBatchInfo_try_append previous_batch_info c current_batch_info)
            (\<lambda>(to_dispatch, remainder).
          Inr (case to_dispatch of None \<Rightarrow> Keep_waiting remainder
               | Some batch_info \<Rightarrow> Go_on (Some batch_info) remainder)))"

text \<open>The rest of the turn: the batch for the persistence queue, if any, the batch to wait with, and
  whether this was the last command.\<close>

definition BatcherWorker_rest ::
  "CommandBatchInfo \<Rightarrow> (CommandBatchInfo option \<times> CommandBatchInfo option \<times> bool) result" where
  "BatcherWorker_rest current_batch_info =
     rbind (CommandBatchInfo_is_end current_batch_info) (\<lambda>is_end.
     rbind (CommandBatchInfo_is_appendable current_batch_info) (\<lambda>appendable.
     Inr (if \<not> appendable then (Some current_batch_info, None, is_end)
          else (None, Some current_batch_info, is_end))))"

text \<open>The loop of \<open>BatcherWorker\<close> on the batches that its input queue hands out, in order: the batches it
  sends off, each with the queue it goes to, the batch it is left with, and whether it has seen the end
  command.\<close>

primrec list_of_option :: "'a option \<Rightarrow> 'a list" where
  "list_of_option None = []"
| "list_of_option (Some x) = [x]"

datatype dispatch = To_compression CommandBatchInfo | To_persistence CommandBatchInfo

definition BatcherWorker_turn ::
  "ctx \<Rightarrow> CommandBatchInfo option \<Rightarrow> CommandBatchInfo \<Rightarrow> (dispatch list \<times> CommandBatchInfo option \<times> bool) result"
where
  "BatcherWorker_turn c previous_batch_info_option current_batch_info =
     rbind (BatcherWorker_append c previous_batch_info_option current_batch_info) (\<lambda>outcome.
     case outcome of
       Keep_waiting remainder \<Rightarrow> Inr ([], Some remainder, False)
     | Go_on to_dispatch remainder \<Rightarrow>
         rbind (BatcherWorker_rest remainder) (\<lambda>(to_persist, previous, is_end).
         Inr (map To_compression (list_of_option to_dispatch) @ map To_persistence (list_of_option to_persist),
              previous, is_end)))"

fun BatcherWorker_run ::
  "ctx \<Rightarrow> CommandBatchInfo option \<Rightarrow> CommandBatchInfo list \<Rightarrow> (dispatch list \<times> CommandBatchInfo option \<times> bool) result"
where
  "BatcherWorker_run c prev [] = Inr ([], prev, False)"
| "BatcherWorker_run c prev (current # rest) =
     rbind (BatcherWorker_turn c prev current) (\<lambda>(out, prev, is_end).
     if is_end then Inr (out, prev, True)
     else rbind (BatcherWorker_run c prev rest) (\<lambda>(outs, prev, is_end). Inr (out @ outs, prev, is_end)))"

section \<open>Compressing\<close>

text \<open>The inner loop of \<open>CompressionWorker\<close>, which appends the commands of a batch to the first one.\<close>

function CompressionWorker_gather ::
  "externs \<Rightarrow> ctx \<Rightarrow> SendCommand \<Rightarrow> nat \<Rightarrow> CommandBatchInfo \<Rightarrow> (SendCommand \<times> nat \<times> CommandBatchInfo) result"
where
  "CompressionWorker_gather x c command data_payload_size_seen batch_info =
     (if cbi_command_queue batch_info \<noteq> [] then
        rbind (remove_first x batch_info c) (\<lambda>(next_command, batch_info1).
        rbind (SendCommand_append x command c next_command) (\<lambda>(bytes_appended, command1).
        ensure (bytes_appended = get_cached_data_payload_size next_command) (Mp IncompleteAppend)
          (CompressionWorker_gather x c command1 (data_payload_size_seen + bytes_appended) batch_info1)))
      else Inr (command, data_payload_size_seen, batch_info))"
  by pat_completeness auto
termination
  by (relation "measure (\<lambda>(x, c, command, n, b). length (cbi_command_queue b))")
    (auto simp: remove_first_def result_simps Let_def split: if_splits)

declare CompressionWorker_gather.simps [simp del]

definition CompressionWorker_compress :: "externs \<Rightarrow> ctx \<Rightarrow> SendCommand \<Rightarrow> SendCommand result" where
  "CompressionWorker_compress x c command =
     (if SendCommand_is_compressible command \<and> compression_level (ssuc_options c) \<noteq> 0 then
        case SendCommand_compress x command c of
          Inr compressed_command \<Rightarrow> Inr compressed_command
        | Inl (FailedToShrinkPayload _ _ _) \<Rightarrow> Inr command
        | Inl e \<Rightarrow> Inl e
      else Inr command)"

definition CompressionWorker_process ::
  "externs \<Rightarrow> ctx \<Rightarrow> CommandBatchInfo \<Rightarrow> CommandBatchInfo result" where
  "CompressionWorker_process x c batch_info =
     rbind (remove_first x batch_info c) (\<lambda>(command, batch_info).
     rbind (CompressionWorker_gather x c command (get_cached_data_payload_size command) batch_info)
       (\<lambda>(command, data_payload_size_seen, batch_info).
     ensure (data_payload_size_seen = cbi_data_payload_size batch_info) (Mp BatchSizeMismatch)
       (rbind (CompressionWorker_compress x c command) (\<lambda>command.
        rbind (if sc_data_attribute_dirty command then SendCommand_flush x command c else Inr command)
          (\<lambda>command.
        repopulate batch_info command)))))"

section \<open>Writing\<close>

definition WriteWorker_process ::
  "externs \<Rightarrow> ctx \<Rightarrow> CommandBatchInfo \<Rightarrow> (bool \<times> ctx) result" where
  "WriteWorker_process x c batch_info =
     rbind (remove_first x batch_info c) (\<lambda>(command, _).
     rbind (SendCommand_persist x command c) (\<lambda>c1.
     Inr (SendCommand_is_end command, c1)))"

end
