(* ===== verification/Batch_Spec.thy ===== *)
theory Batch_Spec
  imports Workers Upgrade_Spec
begin

text \<open>
  What a batch of command pointers stands for: the writes its pointers select, which are adjacent
  and together the one write that the compression worker makes of them. \<open>try_append\<close> moves
  abstract writes exactly as the merge of the single-threaded specification does.
\<close>

section \<open>Pointers\<close>

definition pointer_for :: "nat \<Rightarrow> externs \<Rightarrow> SendCommandPointer \<Rightarrow> acmd \<Rightarrow> bool" where
  "pointer_for mx x p w \<longleftrightarrow>
     (\<exists>a off d n. scp_command p = mk_command x SendVersion2 a \<and> write_wf mx a \<and>
        acmd_offset a = Some off \<and> ac_data a = Some d \<and> acmd_path a \<noteq> None \<and> off + length d < 2 ^ 64 \<and>
        scp_data_payload_end_offset p = scp_data_payload_start_offset p + n \<and>
        scp_data_payload_start_offset p + n \<le> length d \<and>
        w = rebase (off + scp_data_payload_start_offset p)
              (take n (drop (scp_data_payload_start_offset p) d)) a \<and>
        (scp_shared p \<longrightarrow> n < length d))"

lemma cached_size_mk:
  "ac_data a = Some d \<Longrightarrow> get_cached_data_payload_size (mk_command x v a) = length d"
  by (simp add: get_cached_data_payload_size_def)

lemma remove_first_pointer:
  assumes "pointer_for mx x p w" and "cbi_command_queue b = p # ps"
    and "get_destination_version c = Inr SendVersion2"
  obtains s where "remove_first x b c = Inr (s, b\<lparr>cbi_command_queue := ps\<rparr>)" "batch mx x s w"
proof -
  obtain a off d n where p: "scp_command p = mk_command x SendVersion2 a" "write_wf mx a"
    "acmd_offset a = Some off" "ac_data a = Some d" "acmd_path a \<noteq> None" "off + length d < 2 ^ 64"
    "scp_data_payload_end_offset p = scp_data_payload_start_offset p + n"
    "scp_data_payload_start_offset p + n \<le> length d"
    "w = rebase (off + scp_data_payload_start_offset p)
          (take n (drop (scp_data_payload_start_offset p) d)) a" "scp_shared p \<longrightarrow> n < length d"
    using assms(1) by (auto simp: pointer_for_def)
  have covers: "covers_command p \<longleftrightarrow> scp_data_payload_start_offset p = 0 \<and> n = length d"
    using p by (auto simp: covers_command_def cached_size_mk)
  show thesis
  proof (cases "covers_command p")
    case True
    with covers p have "w = a" "\<not> scp_shared p"
      using rebase_same [OF p(2-4)] by auto
    moreover have "batch mx x (mk_command x SendVersion2 a) a"
      using p(2,3,4,6) by (rule batch_cleanI)
    ultimately show thesis
      using True assms(2) p(1) by (intro that) (simp_all add: remove_first_def first_pointer_def)
  next
    case False
    have "batch mx x (wcmd 0 (zeros (2 + n)) a (off + scp_data_payload_start_offset p)
        (take n (drop (scp_data_payload_start_offset p) d)) True) w"
      unfolding p(9) using p(2,6,8) wcmd_clean(2) [OF p(2-4)]
      by (intro batch_dirtyI) (auto simp: stale_fits_def length_enc_attr)
    moreover have "remove_first x b c = Inr (wcmd 0 (zeros (2 + n)) a (off + scp_data_payload_start_offset p)
        (take n (drop (scp_data_payload_start_offset p) d)) True, b\<lparr>cbi_command_queue := ps\<rparr>)"
      using False SendCommand_copy_range_mk [OF p(2-6,8) assms(3), of x]
      by (simp add: remove_first_def first_pointer_def assms(2) p(1,7))
    ultimately show thesis by (intro that)
  qed
qed

section \<open>Batches of adjacent writes\<close>

fun linked :: "acmd list \<Rightarrow> bool" where
  "linked (v # w # ws) \<longleftrightarrow> adjacent v w \<and> linked (w # ws)"
| "linked _ \<longleftrightarrow> True"

text \<open>Putting \<open>d\<close> behind the data of a write.\<close>

definition extend_write :: "acmd \<Rightarrow> bytes \<Rightarrow> acmd" where
  "extend_write p d = rebase (write_offset p) (write_data p @ d) p"

abbreviation payload :: "acmd list \<Rightarrow> bytes" where
  "payload ws \<equiv> concat (map write_data ws)"

abbreviation join :: "acmd list \<Rightarrow> acmd" where
  "join ws \<equiv> extend_write (hd ws) (payload (tl ws))"

lemma batch_append:
  assumes "batch mx x s p" and "batch mx x t b" and "mx = maximum_batched_extent_size (ssuc_options c)"
    and "adjacent p b" and "length (write_data p) + length (write_data b) \<le> mx"
  obtains s' where "SendCommand_append x s c t = Inr (length (write_data b), s')"
    "batch mx x s' (extend_write p (write_data b))"
proof -
  obtain k D a off d dirty where s: "s = wcmd k D a off d dirty" "p = rebase off d a" "write_wf mx a"
    "off + length d < 2 ^ 64" "length (enc_attrs SendVersion2 (ac_attrs a)) + length d + 12 < 2 ^ 32"
    "\<not> dirty \<longrightarrow> acmd_offset a = Some off \<and> ac_data a = Some d" "stale_fits D a"
    using assms(1) by (rule batchE)
  obtain k' D' a' off' d' dirty' where t: "t = wcmd k' D' a' off' d' dirty'" "b = rebase off' d' a'"
    "write_wf mx a'" "off' + length d' < 2 ^ 64"
    "length (enc_attrs SendVersion2 (ac_attrs a')) + length d' + 12 < 2 ^ 32"
    "\<not> dirty' \<longrightarrow> acmd_offset a' = Some off' \<and> ac_data a' = Some d'" "stale_fits D' a'"
    using assms(2) by (rule batchE)
  have off: "write_offset p = off" "write_offset b = off'"
    using s t by (simp_all add: write_offset_rebase [of mx])
  have adj: "acmd_path a = acmd_path a'" "off' = off + length d"
    using assms(4) off by (auto simp: adjacent_def s(2) t(2))
  have "ac_type a' = BTRFS_SEND_C_WRITE" using t(3) by (simp add: write_wf_def)
  then have "SendCommand_append x s c t = Inr (length d', wcmd k D a off (d @ d') True)"
    using SendCommand_append_wcmd [OF s(3) _ s(4) adj(1) assms(3) s(7)] assms(5)
    by (simp add: s(1,2) t(1,2) adj(2) min_absorb1)
  moreover have "batch mx x (wcmd k D a off (d @ d') True) (extend_write p (write_data b))"
  proof -
    have "extend_write p (write_data b) = rebase off (d @ d') a"
      by (simp add: extend_write_def off(1)) (simp add: s(2) t(2))
    moreover have "length (enc_attrs SendVersion2 (ac_attrs a)) + length (d @ d') + 12 < 2 ^ 32"
      using s(3) assms(5) by (simp add: s(2) t(2) write_wf_def)
    ultimately show ?thesis using s(3,7) t(4) adj(2) batch_dirtyI [of mx a off "d @ d'" D x k] by simp
  qed
  ultimately show thesis by (intro that) (simp_all add: t(2))
qed

lemma extend_write_simps [simp]:
  "write_data (extend_write p d) = write_data p @ d" "acmd_path (extend_write p d) = acmd_path p"
  by (simp_all add: extend_write_def)

lemma extend_offset:
  assumes "batch mx x s p"
  shows "write_offset (extend_write p d) = write_offset p" "extend_write (extend_write p d) e = extend_write p (d @ e)"
    "extend_write p [] = p"
proof -
  obtain k D a off d0 dirty where s: "s = wcmd k D a off d0 dirty" "p = rebase off d0 a" "write_wf mx a"
    "off + length d0 < 2 ^ 64"
    using assms by (rule batchE)
  then have off: "off < 2 ^ 64" "write_offset p = off" by (simp_all add: write_offset_rebase [of mx])
  then show 1: "write_offset (extend_write p d) = write_offset p" for d
    using s(3) by (simp add: extend_write_def) (simp add: s(2) write_offset_rebase [of mx])
  show "extend_write (extend_write p d) e = extend_write p (d @ e)" "extend_write p [] = p"
    using 1 off by (simp_all add: extend_write_def) (simp_all add: s(2))
qed

lemma adjacent_extend:
  assumes "batch mx x s p" and "adjacent p w"
  shows "adjacent (extend_write p (write_data w)) v \<longleftrightarrow> adjacent w v"
  using assms by (auto simp: adjacent_def extend_offset(1) [OF assms(1)])

text \<open>The inner loop of the compression worker puts the batch together.\<close>

lemma CompressionWorker_gather_ok:
  assumes "list_all2 (pointer_for mx x) (cbi_command_queue b) ws" and "batch mx x s p"
    and "linked (p # ws)" and "length (write_data p) + length (payload ws) \<le> mx"
    and "mx = maximum_batched_extent_size (ssuc_options c)" and "get_destination_version c = Inr SendVersion2"
  shows "\<exists>s'. CompressionWorker_gather x c s n b =
      Inr (s', n + length (payload ws), b\<lparr>cbi_command_queue := []\<rparr>) \<and> batch mx x s' (extend_write p (payload ws))"
  using assms(2,1,3,4)
proof (induction ws arbitrary: b s p n)
  case Nil
  then show ?case
    by (auto simp: CompressionWorker_gather.simps [of x c s n b] extend_offset(3) [of mx x s p])
next
  case (Cons w ws)
  then obtain q ps where q: "cbi_command_queue b = q # ps" "pointer_for mx x q w" "list_all2 (pointer_for mx x) ps ws"
    by (auto simp: list_all2_Cons2)
  obtain t where t: "remove_first x b c = Inr (t, b\<lparr>cbi_command_queue := ps\<rparr>)" "batch mx x t w"
    using q(2,1) assms(6) by (rule remove_first_pointer)
  have adj: "adjacent p w" using Cons.prems(3) by simp
  obtain s' where s': "SendCommand_append x s c t = Inr (length (write_data w), s')"
    "batch mx x s' (extend_write p (write_data w))"
    using Cons.prems(1) t(2) assms(5) adj by (rule batch_append) (use Cons.prems(4) in simp)
  have size: "get_cached_data_payload_size t = length (write_data w)"
    using t(2) by (auto simp: batch_def get_cached_data_payload_size_def)
  have "linked (extend_write p (write_data w) # ws)"
    using Cons.prems(3) adjacent_extend [OF Cons.prems(1) adj] by (cases ws) auto
  then obtain s'' where "CompressionWorker_gather x c s' (n + length (write_data w)) (b\<lparr>cbi_command_queue := ps\<rparr>) =
      Inr (s'', n + length (write_data w) + length (payload ws), b\<lparr>cbi_command_queue := []\<rparr>)"
    "batch mx x s'' (extend_write (extend_write p (write_data w)) (payload ws))"
    using Cons.IH [of s' "extend_write p (write_data w)" "b\<lparr>cbi_command_queue := ps\<rparr>"] q(3) s'(2) Cons.prems(4)
    by auto
  with q(1) t(1) s'(1) size show ?case
    by (simp add: CompressionWorker_gather.simps [of x c s n b] extend_offset(2) [OF Cons.prems(1)] add.assoc)
qed

lemma pointer_for_batch:
  assumes "pointer_for mx x p w"
  obtains s where "batch mx x s w"
proof -
  obtain a off d n i where p: "write_wf mx a" "off + length d < 2 ^ 64" "i + n \<le> length d" "ac_data a = Some d"
    "w = rebase (off + i) (take n (drop i d)) a"
    using assms by (auto simp: pointer_for_def)
  have "length (enc_attrs SendVersion2 (ac_attrs a)) + length d + 12 < 2 ^ 32"
    using p(1,4) by (simp add: write_wf_def acmd_wf_def enc_payload_data length_enc_attr)
  with p have "batch mx x (wcmd 0 [] a (off + i) (take n (drop i d)) True) w"
    unfolding p(5) by (intro batch_dirtyI) (auto simp: stale_fits_def)
  then show thesis by (rule that)
qed

definition batch_for :: "nat \<Rightarrow> externs \<Rightarrow> CommandBatchInfo \<Rightarrow> acmd list \<Rightarrow> bool" where
  "batch_for mx x b ws \<longleftrightarrow> list_all2 (pointer_for mx x) (cbi_command_queue b) ws \<and> ws \<noteq> [] \<and> linked ws \<and>
     cbi_data_payload_size b = length (payload ws) \<and> length (payload ws) \<le> mx"

lemma linked_snoc: "ws \<noteq> [] \<Longrightarrow> linked (ws @ [w]) \<longleftrightarrow> linked ws \<and> adjacent (last ws) w"
  by (induction ws rule: linked.induct) auto

lemma batch_for_hd:
  assumes "batch_for mx x b ws"
  obtains s where "batch mx x s (hd ws)"
proof -
  obtain p where "pointer_for mx x p (hd ws)"
    using assms by (cases ws) (auto simp: batch_for_def list_all2_Cons2)
  with that show thesis by (metis pointer_for_batch)
qed

lemma linked_end:
  assumes "ws \<noteq> []" and "linked ws"
  shows "acmd_path (last ws) = acmd_path (hd ws)"
    "write_offset (hd ws) + length (payload ws) = write_offset (last ws) + length (write_data (last ws))"
proof -
  have "acmd_path (last ws) = acmd_path (hd ws) \<and>
      write_offset (hd ws) + length (payload ws) = write_offset (last ws) + length (write_data (last ws))"
    using assms by (induction ws rule: linked.induct) (auto simp: adjacent_def)
  then show "acmd_path (last ws) = acmd_path (hd ws)"
    "write_offset (hd ws) + length (payload ws) = write_offset (last ws) + length (write_data (last ws))"
    by auto
qed

lemma join_adjacent:
  assumes "batch mx x s (hd ws)" and "ws \<noteq> []" and "linked ws"
  shows "adjacent (join ws) v \<longleftrightarrow> adjacent (last ws) v"
proof -
  show ?thesis
    using assms(1,2) linked_end [OF assms(2,3)] by (cases ws) (auto simp: adjacent_def extend_offset(1) [of mx x s])
qed

lemma join_snoc:
  assumes "batch mx x s (hd ws)" and "ws \<noteq> []"
  shows "join (ws @ [w]) = extend_write (join ws) (write_data w)"
  using assms(2) by (simp add: extend_offset(2) [OF assms(1)])

text \<open>The compression worker turns a batch into the command for the write it stands for.\<close>

lemma CompressionWorker_process_ok:
  assumes "batch_for mx x b ws" and "mx = maximum_batched_extent_size (ssuc_options c)"
    and "get_destination_version c = Inr SendVersion2"
  obtains s where "batch mx x s (join ws)"
    "CompressionWorker_process x c b =
       rbind (CompressionWorker_compress x c s) (\<lambda>command.
       rbind (if sc_data_attribute_dirty command then SendCommand_flush x command c else Inr command)
         (\<lambda>command. Inr (b\<lparr>cbi_command_queue := [whole_pointer command]\<rparr>)))"
proof -
  obtain w ws' p ps where ws: "ws = w # ws'" "cbi_command_queue b = p # ps" "pointer_for mx x p w"
    "list_all2 (pointer_for mx x) ps ws'"
    using assms(1) by (cases ws) (auto simp: batch_for_def list_all2_Cons2)
  obtain s where s: "remove_first x b c = Inr (s, b\<lparr>cbi_command_queue := ps\<rparr>)" "batch mx x s w"
    using ws(3,2) assms(3) by (rule remove_first_pointer)
  have size: "get_cached_data_payload_size s = length (write_data w)"
    using s(2) by (auto simp: batch_def get_cached_data_payload_size_def)
  obtain s' where "CompressionWorker_gather x c s (length (write_data w)) (b\<lparr>cbi_command_queue := ps\<rparr>) =
      Inr (s', length (payload ws), b\<lparr>cbi_command_queue := []\<rparr>)" "batch mx x s' (extend_write w (payload ws'))"
    using CompressionWorker_gather_ok [of mx x "b\<lparr>cbi_command_queue := ps\<rparr>" ws' s w c "length (write_data w)"]
      ws s(2) assms by (auto simp: batch_for_def)
  with s(1) size assms(1) ws(1) show thesis
    by (intro that [of s']) (simp_all add: CompressionWorker_process_def repopulate_def batch_for_def)
qed

section \<open>Appending to a pending batch\<close>

text \<open>The commands of the input that may be batched: writes that fit a batch.\<close>

definition batchable :: "nat \<Rightarrow> acmd \<Rightarrow> bool" where
  "batchable mx a \<longleftrightarrow> write_wf mx a \<and> write_offset a + length (write_data a) < 2 ^ 64 \<and>
     acmd_path a \<noteq> None \<and> write_data a \<noteq> [] \<and> length (write_data a) \<le> mx"

text \<open>A batch the batcher waits with ends with the end of a command.\<close>

definition pending_for :: "nat \<Rightarrow> externs \<Rightarrow> CommandBatchInfo \<Rightarrow> acmd list \<Rightarrow> bool" where
  "pending_for mx x b ws \<longleftrightarrow> batch_for mx x b ws \<and> \<not> cbi_last_id_shared b \<and>
     (\<forall>p \<in> set (tl (cbi_command_queue b)). covers_command p) \<and>
     (\<forall>p \<in> set (cbi_command_queue b).
        scp_data_payload_end_offset p = get_cached_data_payload_size (scp_command p))"

lemma batchableE:
  assumes "batchable mx a"
  obtains off d where "acmd_offset a = Some off" "ac_data a = Some d" "write_offset a = off" "write_data a = d"
    "off + length d < 2 ^ 64" "d \<noteq> []" "length d \<le> mx" "write_wf mx a" "acmd_path a \<noteq> None"
  using assms by (auto simp: batchable_def write_offset_def write_data_def elim!: write_wf_shape)

lemma whole_pointer_for:
  assumes "batchable mx a"
  shows "pointer_for mx x (whole_pointer (mk_command x SendVersion2 a)) a"
proof -
  obtain off d where a: "acmd_offset a = Some off" "ac_data a = Some d" "write_wf mx a" "acmd_path a \<noteq> None"
    "off + length d < 2 ^ 64"
    using assms by (rule batchableE)
  with rebase_same [OF a(3,1,2)] show ?thesis
    unfolding pointer_for_def
    by (intro exI [of _ a] exI [of _ off] exI [of _ d] exI [of _ "length d"])
      (simp add: whole_pointer_def cached_size_mk)
qed

lemma pending_single:
  assumes "batchable mx a"
  shows "pending_for mx x (CommandBatchInfo_new i (mk_command x SendVersion2 a)) [a]"
proof -
  obtain d where "ac_data a = Some d" "write_data a = d" "length d \<le> mx" using assms by (rule batchableE)
  with whole_pointer_for [OF assms, of x] show ?thesis
    by (simp add: pending_for_def batch_for_def CommandBatchInfo_new_def cached_size_mk)
      (simp add: whole_pointer_def)
qed

lemma clean_can_append:
  assumes "pointer_for mx x q w" and "batchable mx a"
    and "scp_data_payload_end_offset q = get_cached_data_payload_size (scp_command q)"
  shows "SendCommand_can_append (scp_command q) (mk_command x SendVersion2 a) = Inr (adjacent w a)"
proof -
  obtain a0 off d n where q: "scp_command q = mk_command x SendVersion2 a0" "write_wf mx a0"
    "acmd_offset a0 = Some off" "ac_data a0 = Some d" "off + length d < 2 ^ 64"
    "scp_data_payload_end_offset q = scp_data_payload_start_offset q + n"
    "w = rebase (off + scp_data_payload_start_offset q) (take n (drop (scp_data_payload_start_offset q) d)) a0"
    using assms(1) by (auto simp: pointer_for_def)
  have n: "scp_data_payload_start_offset q + n = length d"
    using assms(3) q by (simp add: cached_size_mk)
  obtain off' d' where a: "acmd_offset a = Some off'" "ac_data a = Some d'" "write_wf mx a" "off' + length d' < 2 ^ 64"
    using assms(2) by (rule batchableE)
  have "write_offset w = off + scp_data_payload_start_offset q"
    unfolding q(7) using q(2,5) n by (simp add: write_offset_rebase [of mx])
  moreover have "length (write_data w) = n" using n by (simp add: q(7))
  moreover have "write_offset a0 = off" "length (write_data a0) = length d" "acmd_path w = acmd_path a0"
    using q by (simp_all add: write_offset_def write_data_def)
  ultimately have "adjacent a0 a \<longleftrightarrow> adjacent w a"
    using n by (auto simp: adjacent_def)
  with batch_can_append [OF batch_cleanI [OF q(2-5)] batch_cleanI [OF a(3,1,2,4)], of x] show ?thesis
    by (simp add: q(1))
qed

lemma covers_whole [simp]: "covers_command (whole_pointer s)"
  by (simp add: covers_command_def whole_pointer_def)

lemma batch_new_simps [simp]:
  "cbi_command_queue (CommandBatchInfo_new i s) = [whole_pointer s]"
  "cbi_data_payload_size (CommandBatchInfo_new i s) = get_cached_data_payload_size s"
  "cbi_first_id (CommandBatchInfo_new i s) = i" "cbi_last_id (CommandBatchInfo_new i s) = i"
  "cbi_last_id_shared (CommandBatchInfo_new i s) = False" "scp_command (whole_pointer s) = s"
  by (simp_all add: CommandBatchInfo_new_def whole_pointer_def)

lemma pending_last:
  assumes "pending_for mx x b ws"
  obtains q where "last_pointer (cbi_command_queue b) = Inr q" "pointer_for mx x q (last ws)"
    "scp_data_payload_end_offset q = get_cached_data_payload_size (scp_command q)"
    "covers_command q \<or> length (cbi_command_queue b) = 1"
proof -
  let ?ps = "cbi_command_queue b"
  have all: "list_all2 (pointer_for mx x) ?ps ws" "ws \<noteq> []"
    using assms by (simp_all add: pending_for_def batch_for_def)
  then have ne: "?ps \<noteq> []" by auto
  have "pointer_for mx x (last ?ps) (last ws)"
    using list_all2_nthD [OF all(1), of "length ?ps - 1"] all ne
    by (simp add: last_conv_nth list_all2_lengthD [OF all(1)])
  moreover have "last ?ps \<in> set (tl ?ps) \<or> length ?ps = 1"
    using ne by (cases ?ps) (auto split: if_splits)
  ultimately show thesis
    using assms ne by (intro that [of "last ?ps"]) (auto simp: pending_for_def last_pointer_def)
qed

lemma can_append_pending:
  assumes "pending_for mx x s ws" and "mx = maximum_batched_extent_size (ssuc_options c)"
    and "cbi_last_id s + 1 < 2 ^ 64"
  shows "batchable mx a \<Longrightarrow> CommandBatchInfo_can_append s c
      (CommandBatchInfo_new (cbi_last_id s + 1) (mk_command x SendVersion2 a)) =
      Inr (length (payload ws) < mx \<and> adjacent (last ws) a)"
    and "ac_type a \<noteq> BTRFS_SEND_C_WRITE \<Longrightarrow> CommandBatchInfo_can_append s c
      (CommandBatchInfo_new (cbi_last_id s + 1) (mk_command x SendVersion2 a)) = Inr False"
proof -
  obtain q where q: "last_pointer (cbi_command_queue s) = Inr q" "pointer_for mx x q (last ws)"
    "scp_data_payload_end_offset q = get_cached_data_payload_size (scp_command q)"
    "covers_command q \<or> length (cbi_command_queue s) = 1"
    using assms(1) by (rule pending_last)
  have size: "cbi_data_payload_size s = length (payload ws)" "length (payload ws) \<le> mx"
    using assms(1) by (simp_all add: pending_for_def batch_for_def)
  note defs = CommandBatchInfo_can_append_def last_pointer_def [of "[whole_pointer _]"] Let_def
  show "CommandBatchInfo_can_append s c
      (CommandBatchInfo_new (cbi_last_id s + 1) (mk_command x SendVersion2 a)) =
      Inr (length (payload ws) < mx \<and> adjacent (last ws) a)" if "batchable mx a"
    using q size assms(2,3) clean_can_append [OF q(2) that q(3)] by (auto simp: defs uadd_ok)
  show "CommandBatchInfo_can_append s c
      (CommandBatchInfo_new (cbi_last_id s + 1) (mk_command x SendVersion2 a)) = Inr False"
    if "ac_type a \<noteq> BTRFS_SEND_C_WRITE"
  proof -
    have "SendCommand_can_append (scp_command q) (mk_command x SendVersion2 a) = Inr False"
      using that q(2)
      by (auto simp: SendCommand_can_append_def are_commands_appendable_def pointer_for_def write_wf_def
          SendCommandHeader_is_appendable_def APPENDABLE_COMMAND_TYPES_def split: option.splits)
    with q size assms(2) show ?thesis by (auto simp: defs)
  qed
qed

text \<open>The split-off front and rest of a command that does not fit as a whole.\<close>

lemma split_pointers:
  assumes "batchable mx a" and "n < length (write_data a)" and "p = whole_pointer (mk_command x SendVersion2 a)"
  shows "pointer_for mx x \<lparr>scp_command = scp_command p, scp_data_payload_start_offset = 0,
      scp_data_payload_end_offset = n, scp_shared = True\<rparr> (rebase (write_offset a) (take n (write_data a)) a)"
    and "0 < n \<Longrightarrow> pointer_for mx x (p\<lparr>scp_data_payload_start_offset := n, scp_shared := True\<rparr>)
      (rebase (write_offset a + n) (drop n (write_data a)) a)"
proof -
  obtain off d where a: "acmd_offset a = Some off" "ac_data a = Some d" "write_offset a = off" "write_data a = d"
    "write_wf mx a" "acmd_path a \<noteq> None" "off + length d < 2 ^ 64"
    using assms(1) by (rule batchableE)
  show "pointer_for mx x \<lparr>scp_command = scp_command p, scp_data_payload_start_offset = 0,
      scp_data_payload_end_offset = n, scp_shared = True\<rparr> (rebase (write_offset a) (take n (write_data a)) a)"
    unfolding pointer_for_def using a assms(2)
    by (intro exI [of _ a] exI [of _ off] exI [of _ d] exI [of _ n]) (simp add: assms(3))
  show "pointer_for mx x (p\<lparr>scp_data_payload_start_offset := n, scp_shared := True\<rparr>)
      (rebase (write_offset a + n) (drop n (write_data a)) a)" if "0 < n"
    unfolding pointer_for_def using a assms(2) that
    by (intro exI [of _ a] exI [of _ off] exI [of _ d] exI [of _ "length d - n"])
      (simp add: assms(3) whole_pointer_def cached_size_mk)
qed

definition stands_for :: "nat \<Rightarrow> externs \<Rightarrow> CommandBatchInfo \<Rightarrow> acmd \<Rightarrow> bool" where
  "stands_for mx x b w \<longleftrightarrow> (\<exists>ws. batch_for mx x b ws \<and> w = join ws)"

definition pending :: "nat \<Rightarrow> externs \<Rightarrow> CommandBatchInfo \<Rightarrow> acmd \<Rightarrow> bool" where
  "pending mx x b w \<longleftrightarrow> (\<exists>ws. pending_for mx x b ws \<and> w = join ws)"

lemma pending_stands_for: "pending mx x b w \<Longrightarrow> stands_for mx x b w"
  by (auto simp: pending_def stands_for_def pending_for_def)

lemma pending_new: "batchable mx a \<Longrightarrow> pending mx x (CommandBatchInfo_new i (mk_command x SendVersion2 a)) a"
proof -
  assume a: "batchable mx a"
  obtain s where "batch mx x s a" using pointer_for_batch [OF whole_pointer_for [OF a]] .
  with pending_single [OF a, of x i] show ?thesis
    by (auto simp: pending_def extend_offset(3) intro!: exI [of _ "[a]"])
qed

lemma stands_for_batch:
  assumes "stands_for mx x b w"
  obtains s where "batch mx x s w" "length (write_data w) = cbi_data_payload_size b" "length (write_data w) \<le> mx"
proof -
  obtain ws where ws: "batch_for mx x b ws" "w = join ws" using assms by (auto simp: stands_for_def)
  then have ne: "ws \<noteq> []" and link: "linked ws" and size: "cbi_data_payload_size b = length (payload ws)"
    "length (payload ws) \<le> mx" by (simp_all add: batch_for_def)
  have data: "write_data w = payload ws" using ws(2) ne by (cases ws) simp_all
  obtain s where "batch mx x s (hd ws)" using ws(1) by (rule batch_for_hd)
  then obtain k D a off d dirty where h: "hd ws = rebase off d a" "write_wf mx a" "off + length d < 2 ^ 64"
    by (rule batchE)
  obtain q where "pointer_for mx x q (last ws)"
    using ws(1) ne list_all2_nthD2 [of "pointer_for mx x" "cbi_command_queue b" ws "length ws - 1"]
    by (auto simp: batch_for_def last_conv_nth)
  then obtain s' where "batch mx x s' (last ws)" by (rule pointer_for_batch)
  then obtain k' D' a' off' d' dirty' where l: "last ws = rebase off' d' a'" "write_wf mx a'" "off' + length d' < 2 ^ 64"
    by (rule batchE)
  have off: "write_offset (hd ws) = off" "write_offset (last ws) + length (write_data (last ws)) < 2 ^ 64"
    using h l by (simp_all add: write_offset_rebase [of mx])
  have "w = rebase off (payload ws) a"
    using data ws(2) by (simp add: extend_write_def off(1)) (simp add: h(1))
  moreover have "batch mx x (wcmd 0 [] a off (payload ws) True) (rebase off (payload ws) a)"
    using h(2) size(2) off linked_end(2) [OF ne link]
    by (intro batch_dirtyI) (simp_all add: write_wf_def stale_fits_def)
  ultimately show thesis using data size by (intro that) simp_all
qed

lemma pendingE:
  assumes "pending mx x s p"
  obtains ws where "pending_for mx x s ws" "batch_for mx x s ws" "write_data p = payload ws"
    "cbi_data_payload_size s = length (write_data p)" "length (write_data p) \<le> mx"
    "\<forall>v. adjacent (last ws) v = adjacent p v" "\<forall>v. join (ws @ [v]) = extend_write p (write_data v)"
proof -
  obtain ws where ws: "pending_for mx x s ws" "p = join ws" using assms by (auto simp: pending_def)
  then have bf: "batch_for mx x s ws" "ws \<noteq> []" "linked ws" by (simp_all add: pending_for_def batch_for_def)
  have data: "write_data p = payload ws" using ws(2) bf(2) by (cases ws) simp_all
  obtain t where t: "batch mx x t (hd ws)" using bf(1) by (rule batch_for_hd)
  show thesis
    using ws bf(1) data join_adjacent [OF t bf(2,3)] join_snoc [OF t bf(2)]
    by (intro that [of ws]) (simp_all add: batch_for_def)
qed

lemma batch_for_snoc:
  assumes "batch_for mx x b ws" and "pointer_for mx x q w" and "adjacent (last ws) w"
    and "length (payload ws) + length (write_data w) \<le> mx"
    and "cbi_command_queue b' = cbi_command_queue b @ [q]"
    and "cbi_data_payload_size b' = cbi_data_payload_size b + length (write_data w)"
  shows "batch_for mx x b' (ws @ [w])"
  using assms by (auto simp: batch_for_def linked_snoc intro!: list_all2_appendI)

text \<open>\<open>try_append\<close> does to pending batches what \<open>merge_writes\<close> does to writes, apart from the
  moment at which a full batch is dispatched.\<close>

definition batch_ids :: "CommandBatchInfo \<Rightarrow> nat \<times> nat \<times> bool" where
  "batch_ids b = (cbi_first_id b, cbi_last_id b, cbi_last_id_shared b)"

abbreviation next_batch :: "externs \<Rightarrow> CommandBatchInfo \<Rightarrow> acmd \<Rightarrow> CommandBatchInfo" where
  "next_batch x s a \<equiv> CommandBatchInfo_new (cbi_last_id s + 1) (mk_command x SendVersion2 a)"

lemma can_append_next:
  assumes "pending mx x s p" and "mx = maximum_batched_extent_size (ssuc_options c)"
    and "cbi_last_id s + 1 < 2 ^ 64" and "batchable mx a"
  shows "CommandBatchInfo_can_append s c (next_batch x s a) = Inr (length (write_data p) < mx \<and> adjacent p a)"
    "cbi_data_payload_size (next_batch x s a) = length (write_data a)"
proof -
  obtain ws where ws: "pending_for mx x s ws" "write_data p = payload ws" "\<forall>v. adjacent (last ws) v = adjacent p v"
    using assms(1) by (rule pendingE)
  show "CommandBatchInfo_can_append s c (next_batch x s a) = Inr (length (write_data p) < mx \<and> adjacent p a)"
    using can_append_pending(1) [OF ws(1) assms(2-4)] ws(2,3) by simp
  show "cbi_data_payload_size (next_batch x s a) = length (write_data a)"
    using assms(4) by (auto simp: cached_size_mk elim!: batchableE)
qed

lemma try_append_refused:
  assumes "pending mx x s p" and "mx = maximum_batched_extent_size (ssuc_options c)"
    and "cbi_last_id s + 1 < 2 ^ 64"
    and "if ac_type a = BTRFS_SEND_C_WRITE then batchable mx a \<and> (length (write_data p) = mx \<or> \<not> adjacent p a)
      else True"
  shows "CommandBatchInfo_try_append s c (next_batch x s a) = Inr (Some s, next_batch x s a)"
proof -
  have "CommandBatchInfo_can_append s c (next_batch x s a) = Inr False"
  proof (cases "ac_type a = BTRFS_SEND_C_WRITE")
    case True
    with assms(4) can_append_next(1) [OF assms(1-3), of a] show ?thesis by auto
  next
    case False
    obtain ws where "pending_for mx x s ws" using assms(1) by (rule pendingE)
    from can_append_pending(2) [OF this assms(2,3) False] show ?thesis .
  qed
  then show ?thesis by (simp add: CommandBatchInfo_try_append_def)
qed

lemma try_append_fits:
  assumes pend: "pending mx x s p" and mx: "mx = maximum_batched_extent_size (ssuc_options c)"
    and lt: "cbi_last_id s + 1 < 2 ^ 64" and a: "batchable mx a" and adj: "adjacent p a"
    and fits: "length (write_data p) + length (write_data a) \<le> mx"
  obtains s' where "CommandBatchInfo_try_append s c (next_batch x s a) = Inr (None, s')"
    "pending mx x s' (extend_write p (write_data a))" "batch_ids s' = (cbi_first_id s, cbi_last_id s + 1, False)"
proof -
  obtain ws where ws: "pending_for mx x s ws" "batch_for mx x s ws" "write_data p = payload ws"
    "cbi_data_payload_size s = length (write_data p)" "\<forall>v. adjacent (last ws) v = adjacent p v"
    "\<forall>v. join (ws @ [v]) = extend_write p (write_data v)"
    using pend by (rule pendingE)
  note can = can_append_next [OF pend mx lt a]
  let ?s = "s\<lparr>cbi_command_queue := cbi_command_queue s @ [whole_pointer (mk_command x SendVersion2 a)],
      cbi_data_payload_size := cbi_data_payload_size s + length (write_data a), cbi_last_id := cbi_last_id s + 1\<rparr>"
  have "length (write_data p) < mx"
    using a fits by (cases "write_data a") (simp_all add: batchable_def)
  then have "CommandBatchInfo_try_append s c (next_batch x s a) = Inr (None, ?s)"
    using can adj fits ws(4) lt mx
    by (simp add: CommandBatchInfo_try_append_def Let_def first_pointer_def uadd_ok)
  moreover have "batch_for mx x ?s (ws @ [a])"
    using fits ws adj by (intro batch_for_snoc [OF ws(2) whole_pointer_for [OF a]]) simp_all
  then have "pending_for mx x ?s (ws @ [a])"
    using ws(1) by (auto simp: pending_for_def tl_append split: list.splits) (simp_all add: whole_pointer_def)
  moreover have "batch_ids ?s = (cbi_first_id s, cbi_last_id s + 1, False)"
    using ws(1) by (simp add: batch_ids_def pending_for_def)
  ultimately show thesis using spec [OF ws(6), of a, symmetric] by (intro that [of ?s]) (auto simp: pending_def)
qed

lemma try_append_splits:
  assumes pend: "pending mx x s p" and mx: "mx = maximum_batched_extent_size (ssuc_options c)"
    and lt: "cbi_last_id s + 1 < 2 ^ 64" and a: "batchable mx a" and adj: "adjacent p a"
    and n: "n = mx - length (write_data p)" "0 < n" "n < length (write_data a)"
  obtains s' o' where "CommandBatchInfo_try_append s c (next_batch x s a) = Inr (Some s', o')"
    "stands_for mx x s' (extend_write p (take n (write_data a)))"
    "pending mx x o' (rebase (write_offset a + n) (drop n (write_data a)) a)"
    "batch_ids s' = (cbi_first_id s, cbi_last_id s + 1, True)"
    "batch_ids o' = (cbi_last_id s + 1, cbi_last_id s + 1, False)"
proof -
  obtain ws where ws: "batch_for mx x s ws" "write_data p = payload ws"
    "cbi_data_payload_size s = length (write_data p)" "\<forall>v. adjacent (last ws) v = adjacent p v"
    "\<forall>v. join (ws @ [v]) = extend_write p (write_data v)" "length (write_data p) \<le> mx"
    using pend by (rule pendingE)
  note can = can_append_next [OF pend mx lt a]
  let ?q = "whole_pointer (mk_command x SendVersion2 a)"
  let ?front = "\<lparr>scp_command = scp_command ?q, scp_data_payload_start_offset = 0,
      scp_data_payload_end_offset = n, scp_shared = True\<rparr>"
  let ?w = "rebase (write_offset a) (take n (write_data a)) a"
  let ?a = "rebase (write_offset a + n) (drop n (write_data a)) a"
  let ?s = "s\<lparr>cbi_command_queue := cbi_command_queue s @ [?front],
      cbi_data_payload_size := cbi_data_payload_size s + n,
      cbi_last_id := cbi_last_id s + 1, cbi_last_id_shared := True\<rparr>"
  let ?o = "(next_batch x s a)\<lparr>cbi_command_queue := [?q\<lparr>scp_data_payload_start_offset := n, scp_shared := True\<rparr>],
      cbi_data_payload_size := length (write_data a) - n\<rparr>"
  have "write_offset ?w = write_offset a"
    using a by (auto simp: write_offset_rebase [of mx] elim!: batchableE)
  then have "batch_for mx x ?s (ws @ [?w])"
    using ws adj n by (intro batch_for_snoc [OF ws(1) split_pointers(1) [OF a n(3) refl]])
      (simp_all add: adjacent_def)
  moreover have "pending_for mx x ?o [?a]"
    using split_pointers(2) [OF a n(3) refl n(2)] n a
    by (auto simp: pending_for_def batch_for_def batchable_def) (simp add: whole_pointer_def)
  moreover have "CommandBatchInfo_try_append s c (next_batch x s a) = Inr (Some ?s, ?o)"
    using can adj ws(3) lt mx n
    by (simp add: CommandBatchInfo_try_append_def Let_def first_pointer_def uadd_ok usub_ok)
  moreover have "join [?a] = ?a"
    using pointer_for_batch [OF split_pointers(2) [OF a n(3) refl n(2)]]
    by (metis extend_offset(3) concat.simps(1) list.sel(1,3) list.simps(8))
  ultimately show thesis
    using spec [OF ws(5), of ?w] by (intro that [of ?s ?o]) (auto simp: pending_def stands_for_def batch_ids_def intro: exI [of _ "[?a]"])
qed

end
