(* ===== verification/Batch_Plan.thy ===== *)
theory Batch_Plan
  imports Batch_Spec
begin

text \<open>
  What the batcher thread dispatches, as a plan: the writes and other commands of the output before
  compression, each with the range of command ids it accounts for. The ids of a plan are chained, so
  the ordered persistence queue can put it back in order, and its commands are those that the
  single-threaded upgrade writes.
\<close>

section \<open>Plans\<close>

type_synonym item = "(nat \<times> nat \<times> bool) \<times> acmd"

fun mp_plan :: "nat \<Rightarrow> (nat \<times> acmd) option \<Rightarrow> nat \<Rightarrow> acmd list \<Rightarrow> item list" where
  "mp_plan mx prev i [] = []"
| "mp_plan mx prev i (a # as) =
     (if ac_type a = BTRFS_SEND_C_WRITE then
        case prev of
          None \<Rightarrow> mp_plan mx (Some (i, a)) (i + 1) as
        | Some (j, p) \<Rightarrow>
            if length (write_data p) = mx \<or> \<not> adjacent p a
            then ((j, i - 1, False), p) # mp_plan mx (Some (i, a)) (i + 1) as
            else let (p', a') = merge_writes mx p a
                 in if write_data a' = [] then mp_plan mx (Some (j, p')) (i + 1) as
                    else ((j, i, True), p') # mp_plan mx (Some (i, a')) (i + 1) as
      else (case prev of None \<Rightarrow> [] | Some (j, p) \<Rightarrow> [((j, i - 1, False), p)]) @
        ((i, i, False), a) #
        (if ac_type a = BTRFS_SEND_C_END then [] else mp_plan mx None (i + 1) as))"

text \<open>The same for the single-threaded upgrade, which sends a batch off as soon as it is full.\<close>

fun plan :: "nat \<Rightarrow> acmd option \<Rightarrow> acmd list \<Rightarrow> acmd list" where
  "plan mx prev [] = []"
| "plan mx prev (a # as) =
     (if ac_type a = BTRFS_SEND_C_WRITE then
        case prev of
          None \<Rightarrow> plan mx (nonempty a) as
        | Some p \<Rightarrow>
            let (p', a') = merge_writes mx p a
            in if mx \<le> length (write_data p') \<or> write_data a' \<noteq> [] then p' # plan mx (nonempty a') as
               else plan mx (Some p') as
      else (case prev of None \<Rightarrow> [] | Some p \<Rightarrow> [p]) @
        a # (if ac_type a = BTRFS_SEND_C_END then [] else plan mx None as))"

definition emit :: "externs \<Rightarrow> SendStreamUpgradeOptions \<Rightarrow> nat \<Rightarrow> acmd \<Rightarrow> acmd list result" where
  "emit x opts off a = (if ac_type a = BTRFS_SEND_C_WRITE then emit_write x opts off a else Inr [a])"

fun emit_all :: "externs \<Rightarrow> SendStreamUpgradeOptions \<Rightarrow> nat \<Rightarrow> acmd list \<Rightarrow> acmd list result" where
  "emit_all x opts off [] = Inr []"
| "emit_all x opts off (a # as) =
     rbind (emit x opts off a) (\<lambda>out.
     rbind (emit_all x opts (off + length (enc_commands x SendVersion2 out)) as) (\<lambda>rest.
     Inr (out @ rest)))"

lemma merge_writes_type:
  "merge_writes mx p a = (p', a') \<Longrightarrow> ac_type p' = ac_type p \<and> ac_type a' = ac_type a"
  by (auto simp: merge_writes_def Let_def split: if_splits)

lemma rbind_right_unit [simp]: "rbind r Inr = r"
  by (cases r) simp_all

lemma emit_all_append:
  "emit_all x opts off (as @ bs) =
     rbind (emit_all x opts off as) (\<lambda>out.
     rbind (emit_all x opts (off + length (enc_commands x SendVersion2 out)) bs) (\<lambda>rest. Inr (out @ rest)))"
  by (induction as arbitrary: off) (simp_all add: rbind_assoc add.assoc)

text \<open>The specification of the single-threaded upgrade is to plan and then to emit.\<close>

lemma upgrade_spec_plan:
  assumes "BTRFS_SEND_C_END \<in> ac_type ` set cmds"
    and "\<forall>p. prev = Some p \<longrightarrow> ac_type p = BTRFS_SEND_C_WRITE"
  shows "upgrade_spec x opts off prev cmds =
    emit_all x opts off (plan (maximum_batched_extent_size opts) prev cmds)"
  using assms
proof (induction cmds arbitrary: off prev)
  case (Cons a cmds)
  show ?case
  proof (cases "ac_type a = BTRFS_SEND_C_WRITE")
    case True
    with Cons show ?thesis
      by (auto simp: spec_step_def emit_def rbind_assoc split: option.splits prod.splits dest: merge_writes_type)
  next
    case False
    with Cons show ?thesis
      by (auto simp: spec_step_def emit_def rbind_assoc add.assoc split: option.splits)
  qed
qed simp

section \<open>The plans agree\<close>

lemma batchable_rebase:
  assumes "batchable mx a" and "off + length d < 2 ^ 64" and "d \<noteq> []" and "length d \<le> mx"
  shows "batchable mx (rebase off d a)"
proof -
  have "write_wf mx (rebase off d a)"
    using assms by (intro write_wf_rebase) (auto simp: batchable_def write_wf_def)
  moreover have "write_offset (rebase off d a) = off"
    using assms by (auto simp: batchable_def write_offset_rebase [of mx])
  ultimately show ?thesis using assms by (simp add: batchable_def)
qed

lemma batchable_same: "batchable mx a \<Longrightarrow> rebase (write_offset a) (write_data a) a = a"
  by (auto simp: rebase_same elim!: batchableE)

lemma batchable_type: "batchable mx a \<Longrightarrow> ac_type a = BTRFS_SEND_C_WRITE"
  by (simp add: batchable_def write_wf_def)

lemma merge_batchable:
  assumes "batchable mx p" and "batchable mx a" and "merge_writes mx p a = (p', a')"
  shows "batchable mx p'" "write_data a' \<noteq> [] \<Longrightarrow> batchable mx a'"
    "length (write_data p) = mx \<Longrightarrow> p' = p \<and> a' = a"
proof -
  have "batchable mx p' \<and> (write_data a' \<noteq> [] \<longrightarrow> batchable mx a') \<and>
      (length (write_data p) = mx \<longrightarrow> p' = p \<and> a' = a)"
  proof (cases "adjacent p a")
    case False
    with assms show ?thesis by (auto simp: merge_writes_def Let_def)
  next
    case True
    let ?n = "mx - length (write_data p)"
    let ?m = "min (length (write_data a)) ?n"
    have p': "p' = rebase (write_offset p) (write_data p @ take ?n (write_data a)) p"
      and a': "a' = rebase (write_offset a + ?m) (drop ?m (write_data a)) a"
      using True assms(3) by (auto simp: merge_writes_def Let_def)
    have "batchable mx p'"
      unfolding p' using assms(1,2) True by (intro batchable_rebase) (auto simp: batchable_def adjacent_def)
    moreover have "batchable mx a'" if "write_data a' \<noteq> []"
      unfolding a' using assms(2) that by (intro batchable_rebase) (auto simp: batchable_def a')
    ultimately show ?thesis
      using p' a' batchable_same [OF assms(1)] batchable_same [OF assms(2)] by auto
  qed
  then show "batchable mx p'" "write_data a' \<noteq> [] \<Longrightarrow> batchable mx a'"
    "length (write_data p) = mx \<Longrightarrow> p' = p \<and> a' = a" by auto
qed

text \<open>The input of the multi-threaded mode: every write can be batched.\<close>

abbreviation writes_batchable :: "nat \<Rightarrow> acmd list \<Rightarrow> bool" where
  "writes_batchable mx cmds \<equiv> \<forall>a \<in> set cmds. ac_type a = BTRFS_SEND_C_WRITE \<longrightarrow> batchable mx a"

lemma plan_full:
  assumes "batchable mx p" and "length (write_data p) = mx" and "writes_batchable mx cmds"
    and "BTRFS_SEND_C_END \<in> ac_type ` set cmds"
  shows "plan mx (Some p) cmds = p # plan mx None cmds"
proof (cases cmds)
  case Nil
  with assms(4) show ?thesis by simp
next
  case (Cons a as)
  obtain p' a' where mw: "merge_writes mx p a = (p', a')" by (cases "merge_writes mx p a")
  have "batchable mx a" if "ac_type a = BTRFS_SEND_C_WRITE" using assms(3) Cons that by simp
  with merge_batchable(3) [OF assms(1) _ mw] assms(2) Cons mw show ?thesis
    by (cases "ac_type a = BTRFS_SEND_C_WRITE") auto
qed

lemma mp_plan_commands:
  assumes "writes_batchable mx cmds" and "BTRFS_SEND_C_END \<in> ac_type ` set cmds"
    and "\<forall>j p. prev = Some (j, p) \<longrightarrow> batchable mx p"
  shows "map snd (mp_plan mx prev i cmds) = plan mx (map_option snd prev) cmds"
  using assms
proof (induction cmds arbitrary: i prev)
  case (Cons a cmds)
  show ?case
  proof (cases "ac_type a = BTRFS_SEND_C_WRITE")
    case False
    with Cons show ?thesis by (auto split: option.splits)
  next
    case True
    then have a: "batchable mx a" "write_data a \<noteq> []" and rest: "writes_batchable mx cmds"
      "BTRFS_SEND_C_END \<in> ac_type ` set cmds"
      using Cons.prems by (auto simp: batchable_def)
    show ?thesis
    proof (cases prev)
      case None
      with True a rest Cons.IH [of "Some (i, a)"] show ?thesis by simp
    next
      case (Some jp)
      obtain j p where jp: "jp = (j, p)" by (cases jp)
      with Some Cons.prems have p: "batchable mx p" by simp
      obtain p' a' where mw: "merge_writes mx p a = (p', a')" by (cases "merge_writes mx p a")
      note m = merge_batchable [OF p a(1) mw]
      have len: "length (write_data p') \<le> mx" using m(1) by (simp add: batchable_def)
      have no: "\<not> adjacent p a \<Longrightarrow> p' = p \<and> a' = a" using mw by (simp add: merge_writes_def Let_def)
      consider (stop) "length (write_data p) = mx \<or> \<not> adjacent p a"
        | (fits) "length (write_data p) \<noteq> mx" "adjacent p a" "write_data a' = []"
        | (splits) "length (write_data p) \<noteq> mx" "adjacent p a" "write_data a' \<noteq> []" by blast
      then show ?thesis
      proof cases
        case stop
        with m(3) no have "p' = p" "a' = a" by auto
        with stop True Some jp mw a(2) Cons.IH [OF rest, of "Some (i, a)"] a(1) show ?thesis by simp
      next
        case fits
        with True Some jp mw m(1) plan_full [OF m(1) _ rest] len Cons.IH [OF rest, of "Some (j, p')"]
        show ?thesis by (cases "length (write_data p') = mx") auto
      next
        case splits
        with True Some jp mw m(2) Cons.IH [OF rest, of "Some (i, a')"] show ?thesis by simp
      qed
    qed
  qed
qed simp

section \<open>The ids of a plan\<close>

definition ids_ordered :: "(nat \<times> nat \<times> bool) OrderedElement" where
  "ids_ordered = \<lparr>get_first_id = fst, get_last_id = fst \<circ> snd, is_last_id_shared = snd \<circ> snd\<rparr>"

lemma ids_ordered_simps [simp]:
  "get_first_id ids_ordered (f, l, sh) = f" "successor_id ids_ordered (f, l, sh) = l + (if sh then 0 else 1)"
  "well_ranged ids_ordered (f, l, sh) \<longleftrightarrow> f \<le> l \<and> (sh \<longrightarrow> f < l)"
  by (simp_all add: ids_ordered_def successor_id_def well_ranged_def)

lemma ids_of_batches:
  "well_ranged CommandBatchInfo_ordered b = well_ranged ids_ordered (batch_ids b)"
  "chained CommandBatchInfo_ordered n bs m = chained ids_ordered n (map batch_ids bs) m"
proof -
  have *: "get_first_id CommandBatchInfo_ordered b = fst (batch_ids b)"
    "successor_id CommandBatchInfo_ordered b = successor_id ids_ordered (batch_ids b)" for b
    by (simp_all add: CommandBatchInfo_ordered_def batch_ids_def successor_id_def ids_ordered_def)
  show "well_ranged CommandBatchInfo_ordered b = well_ranged ids_ordered (batch_ids b)"
    by (simp add: CommandBatchInfo_ordered_def batch_ids_def well_ranged_def ids_ordered_def)
  show "chained CommandBatchInfo_ordered n bs m = chained ids_ordered n (map batch_ids bs) m"
    by (induction bs arbitrary: n) (simp_all add: *, simp add: ids_ordered_def)
qed

text \<open>The number of commands up to and including the end command.\<close>

definition commands_to_end :: "acmd list \<Rightarrow> nat" where
  "commands_to_end cmds = length (takeWhile (\<lambda>a. ac_type a \<noteq> BTRFS_SEND_C_END) cmds) + 1"

lemma mp_plan_chained:
  assumes "BTRFS_SEND_C_END \<in> ac_type ` set cmds" and "\<forall>j p. prev = Some (j, p) \<longrightarrow> j < i"
  shows "chained ids_ordered (case prev of None \<Rightarrow> i | Some (j, p) \<Rightarrow> j) (map fst (mp_plan mx prev i cmds))
      (i + commands_to_end cmds) \<and>
    (\<forall>item \<in> set (mp_plan mx prev i cmds). well_ranged ids_ordered (fst item))"
  using assms
proof (induction cmds arbitrary: i prev)
  case (Cons a cmds)
  have count: "i + commands_to_end (a # cmds) =
      (if ac_type a = BTRFS_SEND_C_END then i + 1 else (i + 1) + commands_to_end cmds)"
    by (simp add: commands_to_end_def)
  show ?case
  proof (cases "ac_type a = BTRFS_SEND_C_WRITE")
    case True
    then have rest: "BTRFS_SEND_C_END \<in> ac_type ` set cmds" using Cons.prems(1) by auto
    note IH = Cons.IH [OF rest]
    show ?thesis
    proof (cases prev)
      case None
      with True IH [of "Some (i, a)" "i + 1"] show ?thesis unfolding count by simp
    next
      case (Some jp)
      obtain j p where jp: "jp = (j, p)" by (cases jp)
      with Some Cons.prems(2) have j: "j < i" "j \<le> i - 1" by simp_all
      obtain p' a' where mw: "merge_writes mx p a = (p', a')" by (cases "merge_writes mx p a")
      show ?thesis
        using True Some jp j mw IH [of "Some (i, a)" "i + 1"] IH [of "Some (j, p')" "i + 1"]
          IH [of "Some (i, a')" "i + 1"]
        unfolding count by (simp split del: if_split) (simp split: if_split)
    qed
  next
    case False
    then show ?thesis
      using Cons.prems Cons.IH [of None "i + 1"] unfolding count
      by (cases prev) (auto split: prod.splits)
  qed
qed simp

section \<open>The batcher dispatches the plan\<close>

text \<open>The batches that the command construction threads make of the commands.\<close>

primrec batch_infos :: "externs \<Rightarrow> nat \<Rightarrow> acmd list \<Rightarrow> CommandBatchInfo list" where
  "batch_infos x i [] = []"
| "batch_infos x i (a # as) = CommandBatchInfo_new i (mk_command x SendVersion2 a) # batch_infos x (i + 1) as"

definition dispatch_for :: "nat \<Rightarrow> externs \<Rightarrow> dispatch \<Rightarrow> item \<Rightarrow> bool" where
  "dispatch_for mx x d item =
     (case d of
        To_compression b \<Rightarrow> ac_type (snd item) = BTRFS_SEND_C_WRITE \<and> batch_ids b = fst item \<and>
          stands_for mx x b (snd item)
      | To_persistence b \<Rightarrow> ac_type (snd item) \<noteq> BTRFS_SEND_C_WRITE \<and> batch_ids b = fst item \<and>
          b = CommandBatchInfo_new (fst (fst item)) (mk_command x SendVersion2 (snd item)))"

lemma BatcherWorker_rest_new:
  "BatcherWorker_rest (CommandBatchInfo_new i (mk_command x v a)) =
     Inr (if ac_type a = BTRFS_SEND_C_WRITE then (None, Some (CommandBatchInfo_new i (mk_command x v a)), False)
          else (Some (CommandBatchInfo_new i (mk_command x v a)), None, ac_type a = BTRFS_SEND_C_END))"
  by (simp add: BatcherWorker_rest_def CommandBatchInfo_is_end_def CommandBatchInfo_is_appendable_def
      first_pointer_def mk_command_predicates)

lemma BatcherWorker_rest_pending:
  assumes "pending mx x b w"
  shows "BatcherWorker_rest b = Inr (None, Some b, False)"
proof -
  obtain ws where "batch_for mx x b ws" using assms by (rule pendingE)
  then obtain q qs v where q: "cbi_command_queue b = q # qs" "pointer_for mx x q v"
    by (cases ws) (auto simp: batch_for_def list_all2_Cons2)
  then obtain a where "scp_command q = mk_command x SendVersion2 a" "ac_type a = BTRFS_SEND_C_WRITE"
    by (auto simp: pointer_for_def write_wf_def)
  with q(1) show ?thesis
    by (simp add: BatcherWorker_rest_def CommandBatchInfo_is_end_def CommandBatchInfo_is_appendable_def
        first_pointer_def mk_command_predicates)
qed

lemma stands_for_type:
  assumes "stands_for mx x b w"
  shows "ac_type w = BTRFS_SEND_C_WRITE" "length (write_data w) \<le> mx"
  using assms by (auto elim!: stands_for_batch dest: batch_wf(3))

lemma batch_ids_new [simp]: "batch_ids (CommandBatchInfo_new i s) = (i, i, False)"
  by (simp add: batch_ids_def)

definition waiting_with :: "nat \<Rightarrow> externs \<Rightarrow> nat \<Rightarrow> CommandBatchInfo option \<Rightarrow> (nat \<times> acmd) option \<Rightarrow> bool" where
  "waiting_with mx x i prevb prev \<longleftrightarrow>
     rel_option (\<lambda>b (j, p). pending mx x b p \<and> batch_ids b = (j, i - 1, False) \<and> j < i) prevb prev"

text \<open>One turn of the batcher is one step of the plan.\<close>

definition plan_turn :: "nat \<Rightarrow> (nat \<times> acmd) option \<Rightarrow> nat \<Rightarrow> acmd \<Rightarrow> item list \<times> (nat \<times> acmd) option" where
  "plan_turn mx prev i a =
     (if ac_type a = BTRFS_SEND_C_WRITE then
        case prev of
          None \<Rightarrow> ([], Some (i, a))
        | Some (j, p) \<Rightarrow>
            if length (write_data p) = mx \<or> \<not> adjacent p a then ([((j, i - 1, False), p)], Some (i, a))
            else let (p', a') = merge_writes mx p a
                 in if write_data a' = [] then ([], Some (j, p')) else ([((j, i, True), p')], Some (i, a'))
      else ((case prev of None \<Rightarrow> [] | Some (j, p) \<Rightarrow> [((j, i - 1, False), p)]) @ [((i, i, False), a)], None))"

lemma mp_plan_turn:
  "mp_plan mx prev i (a # as) =
     (case plan_turn mx prev i a of (out, prev') \<Rightarrow>
        out @ (if ac_type a = BTRFS_SEND_C_END then [] else mp_plan mx prev' (i + 1) as))"
  by (auto simp: plan_turn_def Let_def split: option.splits prod.splits)

lemma BatcherWorker_turn_write:
  assumes "pending mx x b p" and "batch_ids b = (j, i - 1, False)" and "j < i" and "batchable mx a"
    and mx: "mx = maximum_batched_extent_size (ssuc_options c)" and "i < 2 ^ 64"
  shows "\<exists>D prevb'. BatcherWorker_turn c (Some b) (CommandBatchInfo_new i (mk_command x SendVersion2 a)) =
      Inr (D, prevb', False) \<and>
    list_all2 (dispatch_for mx x) D (fst (plan_turn mx (Some (j, p)) i a)) \<and>
    waiting_with mx x (i + 1) prevb' (snd (plan_turn mx (Some (j, p)) i a))"
proof -
  have last: "cbi_last_id b + 1 = i" "cbi_first_id b = j" and lt: "cbi_last_id b + 1 < 2 ^ 64"
    using assms(2,3,6) by (auto simp: batch_ids_def)
  note type = stands_for_type [OF pending_stands_for [OF assms(1)]] batchable_type [OF assms(4)]
  let ?n = "mx - length (write_data p)"
  consider (stop) "length (write_data p) = mx \<or> \<not> adjacent p a"
    | (fits) "length (write_data p) \<noteq> mx" "adjacent p a" "length (write_data p) + length (write_data a) \<le> mx"
    | (splits) "length (write_data p) \<noteq> mx" "adjacent p a" "0 < ?n" "?n < length (write_data a)"
    using type(2) by linarith
  then show ?thesis
  proof cases
    case stop
    then have "CommandBatchInfo_try_append b c (next_batch x b a) = Inr (Some b, next_batch x b a)"
      using type assms(4) by (intro try_append_refused [OF assms(1) mx lt]) simp
    with stop type assms(1,2) last(1) pending_new [OF assms(4), of x i] pending_stands_for [OF assms(1)] show ?thesis
      by (simp add: BatcherWorker_turn_def BatcherWorker_append_def BatcherWorker_rest_new plan_turn_def
          dispatch_for_def waiting_with_def)
  next
    case fits
    obtain s' where "CommandBatchInfo_try_append b c (next_batch x b a) = Inr (None, s')"
      "pending mx x s' (extend_write p (write_data a))" "batch_ids s' = (cbi_first_id b, cbi_last_id b + 1, False)"
      using try_append_fits [OF assms(1) mx lt assms(4) fits(2,3)] .
    moreover have "merge_writes mx p a = (extend_write p (write_data a), rebase (write_offset a + length (write_data a)) [] a)"
      using fits by (simp add: merge_writes_def Let_def extend_write_def min_absorb1)
    ultimately show ?thesis using fits(1,2) type last assms(3)
      by (simp add: BatcherWorker_turn_def BatcherWorker_append_def plan_turn_def waiting_with_def)
  next
    case splits
    obtain s' o' where s': "CommandBatchInfo_try_append b c (next_batch x b a) = Inr (Some s', o')"
      "stands_for mx x s' (extend_write p (take ?n (write_data a)))"
      "pending mx x o' (rebase (write_offset a + ?n) (drop ?n (write_data a)) a)"
      "batch_ids s' = (cbi_first_id b, cbi_last_id b + 1, True)"
      "batch_ids o' = (cbi_last_id b + 1, cbi_last_id b + 1, False)"
      using try_append_splits [OF assms(1) mx lt assms(4) splits(2) refl splits(3,4)] .
    moreover have "merge_writes mx p a = (extend_write p (take ?n (write_data a)),
        rebase (write_offset a + ?n) (drop ?n (write_data a)) a)"
      using splits by (simp add: merge_writes_def Let_def extend_write_def min_absorb2)
    ultimately show ?thesis
      using splits(1,2,4) type last stands_for_type [OF s'(2)] BatcherWorker_rest_pending [OF s'(3)]
      by (simp add: BatcherWorker_turn_def BatcherWorker_append_def plan_turn_def waiting_with_def dispatch_for_def)
  qed
qed

lemma BatcherWorker_turn_plan:
  assumes "waiting_with mx x i prevb prev" and "ac_type a = BTRFS_SEND_C_WRITE \<longrightarrow> batchable mx a"
    and mx: "mx = maximum_batched_extent_size (ssuc_options c)" and "i < 2 ^ 64"
  obtains D prevb' where
    "BatcherWorker_turn c prevb (CommandBatchInfo_new i (mk_command x SendVersion2 a)) =
      Inr (D, prevb', ac_type a = BTRFS_SEND_C_END)"
    "list_all2 (dispatch_for mx x) D (fst (plan_turn mx prev i a))"
    "waiting_with mx x (i + 1) prevb' (snd (plan_turn mx prev i a))"
proof (cases prev)
  case None
  with assms(1) have "prevb = None" by (simp add: waiting_with_def)
  with that [of "if ac_type a = BTRFS_SEND_C_WRITE then [] else [To_persistence (CommandBatchInfo_new i (mk_command x SendVersion2 a))]"
      "if ac_type a = BTRFS_SEND_C_WRITE then Some (CommandBatchInfo_new i (mk_command x SendVersion2 a)) else None"]
    None assms(2) pending_new [of mx a x i] show thesis
    by (simp add: BatcherWorker_turn_def BatcherWorker_append_def BatcherWorker_rest_new plan_turn_def
        waiting_with_def dispatch_for_def split: if_splits)
next
  case (Some jp)
  obtain j p where jp: "jp = (j, p)" by (cases jp)
  with Some assms(1) obtain b where b: "prevb = Some b" "pending mx x b p" "batch_ids b = (j, i - 1, False)" "j < i"
    by (auto simp: waiting_with_def option_rel_Some2)
  show thesis
  proof (cases "ac_type a = BTRFS_SEND_C_WRITE")
    case True
    with BatcherWorker_turn_write [OF b(2-4) _ mx assms(4)] assms(2) that Some jp b(1) show thesis by auto
  next
    case False
    have last: "cbi_last_id b + 1 = i" using b(3,4) by (auto simp: batch_ids_def)
    then have "CommandBatchInfo_try_append b c (next_batch x b a) = Inr (Some b, next_batch x b a)"
      using False assms(4) by (intro try_append_refused [OF b(2) mx]) simp_all
    with that [of "[To_compression b, To_persistence (CommandBatchInfo_new i (mk_command x SendVersion2 a))]" None]
      False Some jp b last pending_stands_for [OF b(2)] stands_for_type(1) [OF pending_stands_for [OF b(2)]]
    show thesis
      by (simp add: BatcherWorker_turn_def BatcherWorker_append_def BatcherWorker_rest_new plan_turn_def
          waiting_with_def dispatch_for_def)
  qed
qed

lemma BatcherWorker_run_plan:
  assumes "writes_batchable mx cmds"
    and mx: "mx = maximum_batched_extent_size (ssuc_options c)" and "i + length cmds \<le> 2 ^ 64"
    and "waiting_with mx x i prevb prev"
  shows "\<exists>D prevb'. BatcherWorker_run c prevb (batch_infos x i cmds) = Inr (D, prevb', BTRFS_SEND_C_END \<in> ac_type ` set cmds) \<and>
    list_all2 (dispatch_for mx x) D (mp_plan mx prev i cmds)"
  using assms
proof (induction cmds arbitrary: i prevb prev)
  case (Cons a cmds)
  have i: "i < 2 ^ 64" using Cons.prems(3) by simp
  obtain D prevb' where D: "BatcherWorker_turn c prevb (CommandBatchInfo_new i (mk_command x SendVersion2 a)) =
      Inr (D, prevb', ac_type a = BTRFS_SEND_C_END)"
    "list_all2 (dispatch_for mx x) D (fst (plan_turn mx prev i a))"
    "waiting_with mx x (i + 1) prevb' (snd (plan_turn mx prev i a))"
    using BatcherWorker_turn_plan [OF Cons.prems(4) _ mx i] Cons.prems(1) by (metis list.set_intros(1))
  show ?case
  proof (cases "ac_type a = BTRFS_SEND_C_END")
    case True
    with D show ?thesis by (auto simp: mp_plan_turn simp del: mp_plan.simps split: prod.splits)
  next
    case False
    then obtain D' prevb'' where "BatcherWorker_run c prevb' (batch_infos x (i + 1) cmds) = Inr (D', prevb'', BTRFS_SEND_C_END \<in> ac_type ` set cmds)"
      "list_all2 (dispatch_for mx x) D' (mp_plan mx (snd (plan_turn mx prev i a)) (i + 1) cmds)"
      using Cons.IH [of "i + 1" prevb' "snd (plan_turn mx prev i a)"] Cons.prems D(3) by auto
    with False D(1,2) show ?thesis
      by (auto simp: mp_plan_turn simp del: mp_plan.simps split: prod.splits intro!: list_all2_appendI)
  qed
qed simp

end
