(* ===== verification/Batch_Output.thy ===== *)
theory Batch_Output
  imports Batch_Plan
begin

text \<open>
  The two ends of a dispatched batch: what the compression worker makes of it, and what the write
  worker then writes. Together they emit what the specification says for the write it stands for.
\<close>

text \<open>A batch for the persistence queue that is written as \<open>w\<close>.\<close>

definition writes_as :: "externs \<Rightarrow> SendStreamUpgradeOptions \<Rightarrow> CommandBatchInfo \<Rightarrow> acmd \<Rightarrow> bool" where
  "writes_as x opts b w \<longleftrightarrow>
     (\<forall>c. sink c \<longrightarrow> ssuc_options c = opts \<longrightarrow>
        (\<exists>out c'. emit x opts (get_write_offset c) w = Inr out \<and>
          WriteWorker_process x c b = Inr (ac_type w = BTRFS_SEND_C_END, c') \<and>
          emits c (enc_commands x SendVersion2 out) c'))"

lemma WriteWorker_whole:
  assumes "cbi_command_queue b = [whole_pointer s]"
  shows "WriteWorker_process x c b = rbind (SendCommand_persist x s c) (\<lambda>c1. Inr (SendCommand_is_end s, c1))"
  using assms covers_whole [of s]
  by (simp add: WriteWorker_process_def remove_first_def first_pointer_def) (simp add: whole_pointer_def)

lemma writes_asI:
  assumes "cbi_command_queue b = [whole_pointer s]" and "SendCommand_is_end s = (ac_type w = BTRFS_SEND_C_END)"
    and "\<And>c. sink c \<Longrightarrow> ssuc_options c = opts \<Longrightarrow>
      \<exists>out c'. emit x opts (get_write_offset c) w = Inr out \<and> SendCommand_persist x s c = Inr c' \<and>
        emits c (enc_commands x SendVersion2 out) c'"
  shows "writes_as x opts b w"
  unfolding writes_as_def WriteWorker_whole [OF assms(1)] assms(2) [symmetric]
proof (intro allI impI)
  fix c assume "sink c" "ssuc_options c = opts"
  with assms(3) [of c] obtain out c' where "emit x opts (get_write_offset c) w = Inr out"
    "SendCommand_persist x s c = Inr c'" "emits c (enc_commands x SendVersion2 out) c'" by blast
  then show "\<exists>out c'. emit x opts (get_write_offset c) w = Inr out \<and>
      rbind (SendCommand_persist x s c) (\<lambda>c1. Inr (SendCommand_is_end s, c1)) = Inr (SendCommand_is_end s, c') \<and>
      emits c (enc_commands x SendVersion2 out) c'" by simp
qed

text \<open>A command that is written as it is, with its padding.\<close>

lemma plain_writes_as:
  assumes "acmd_wf SendVersion2 a" and "ac_type a = BTRFS_SEND_C_WRITE \<longrightarrow> write_wf mx a"
    and "cbi_command_queue b = [whole_pointer (mk_command x SendVersion2 a)]"
    and "\<And>off. emit x opts off a = Inr (with_pad opts off a)"
  shows "writes_as x opts b a"
  using assms(3)
proof (rule writes_asI)
  show "SendCommand_is_end (mk_command x SendVersion2 a) = (ac_type a = BTRFS_SEND_C_END)"
    by (simp add: mk_command_predicates)
  fix c assume c: "sink c" "ssuc_options c = opts"
  obtain c' where "SendCommand_persist x (mk_command x SendVersion2 a) c = Inr c'"
    "emits c (enc_commands x SendVersion2 (with_pad (ssuc_options c) (get_write_offset c) a)) c'"
    using c(1) assms(1,2) by (rule SendCommand_persist_mk)
  with c(2) assms(4) show "\<exists>out c'. emit x opts (get_write_offset c) a = Inr out \<and>
      SendCommand_persist x (mk_command x SendVersion2 a) c = Inr c' \<and> emits c (enc_commands x SendVersion2 out) c'"
    by blast
qed

lemma metadata_writes_as:
  assumes "acmd_wf SendVersion2 a" and "ac_type a \<noteq> BTRFS_SEND_C_WRITE"
  shows "writes_as x opts (CommandBatchInfo_new i (mk_command x SendVersion2 a)) a"
  using assms by (intro plain_writes_as) (simp_all add: emit_def with_pad_def)

text \<open>The compression worker fails only when the compressor does.\<close>

definition compressor_works :: "externs \<Rightarrow> SendStreamUpgradeOptions \<Rightarrow> acmd \<Rightarrow> bool" where
  "compressor_works x opts w \<longleftrightarrow>
     compression_level opts = 0 \<or> (\<exists>z. compressed_payload x opts (write_data w) = Inr z)"

lemma prepare_batch:
  assumes "batch mx x s p" and "get_destination_version c = Inr SendVersion2"
    and "compressor_works x (ssuc_options c) p"
  obtains s' where
    "rbind (CompressionWorker_compress x c s) (\<lambda>command.
       if sc_data_attribute_dirty command then SendCommand_flush x command c else Inr command) = Inr s'"
    "\<forall>b. cbi_command_queue b = [whole_pointer s'] \<longrightarrow> writes_as x (ssuc_options c) b p"
proof -
  let ?opts = "ssuc_options c"
  obtain k D a off d dirty where s: "s = wcmd k D a off d dirty" "p = rebase off d a" "write_wf mx a"
    "off + length d < 2 ^ 64" "length (enc_attrs SendVersion2 (ac_attrs a)) + length d + 12 < 2 ^ 32"
    "\<not> dirty \<longrightarrow> acmd_offset a = Some off \<and> ac_data a = Some d" "stale_fits D a"
    using assms(1) by (rule batchE)
  note wf = batch_wf [OF assms(1)]
  have flushed: "(if sc_data_attribute_dirty s then SendCommand_flush x s c else Inr s) = Inr (mk_command x SendVersion2 p)"
    using s SendCommand_flush_wcmd [OF s(3) assms(2) _ s(5,7), of off x k] batch_clean [OF assms(1)]
    by (cases dirty) simp_all
  have plain: "writes_as x ?opts b p"
    if "cbi_command_queue b = [whole_pointer (mk_command x SendVersion2 p)]"
      "compression_level ?opts = 0 \<or> compressed_payload x ?opts (write_data p) = Inr None" for b
    using wf that by (intro plain_writes_as) (auto simp: emit_def emit_write_def)
  note cmp = SendCommand_compress_wcmd [OF s(3) assms(2) s(6) _ _ s(5,7), of x k, folded s(1)]
  consider (off) "compression_level ?opts = 0"
    | (none) "compression_level ?opts \<noteq> 0" "compressed_payload x ?opts d = Inr None"
    | (some) z where "compression_level ?opts \<noteq> 0" "compressed_payload x ?opts d = Inr (Some z)"
    using assms(3) s(2) by (simp add: compressor_works_def) (metis option.exhaust)
  then show thesis
  proof cases
    case off
    with flushed plain show thesis
      by (intro that) (auto simp: CompressionWorker_compress_def)
  next
    case none
    then have *: "compressed_payload x ?opts (write_data p) = Inr None" by (simp add: s(2))
    from none cmp s(4) obtain i j l where "SendCommand_compress x s c = Inl (FailedToShrinkPayload i j l)" by auto
    with none * flushed plain batch_simps(5) [OF assms(1)] show thesis
      by (intro that) (auto simp: CompressionWorker_compress_def)
  next
    case some
    let ?s = "compressed_command x a off d z"
    have cz: "SendCommand_compress x s c = Inr ?s" "length z + 44 \<le> length d"
      using some cmp s(4) by (auto simp: compressed_payload_def of_option_def split: if_splits option.splits)
    have clean: "\<not> sc_data_attribute_dirty ?s" "\<not> SendCommand_is_end ?s"
      by (simp_all add: compressed_command_def SendCommand_is_end_def is_command_end_def)
    have "writes_as x ?opts b p" if b: "cbi_command_queue b = [whole_pointer ?s]" for b
      using b
    proof (rule writes_asI)
      show "SendCommand_is_end ?s = (ac_type p = BTRFS_SEND_C_END)" using clean(2) wf(3) by simp
      fix c' assume c': "sink c'" "ssuc_options c' = ?opts"
      have "emit x ?opts (get_write_offset c') p = Inr [encoded_write (length d) z p]"
        using some wf(3) by (simp add: emit_def emit_write_def s(2))
      with persist_compressed [OF c'(1) s(3) cz(2) s(5), of x off] s(2)
      show "\<exists>out c''. emit x ?opts (get_write_offset c') p = Inr out \<and> SendCommand_persist x ?s c' = Inr c'' \<and>
          emits c' (enc_commands x SendVersion2 out) c''" by metis
    qed
    with cz clean(1) some(1) batch_simps(5) [OF assms(1)] show thesis
      by (intro that) (auto simp: CompressionWorker_compress_def)
  qed
qed

lemma CompressionWorker_writes_as:
  assumes "stands_for mx x b w" and "mx = maximum_batched_extent_size (ssuc_options c)"
    and "get_destination_version c = Inr SendVersion2" and "compressor_works x (ssuc_options c) w"
  obtains b' where "CompressionWorker_process x c b = Inr b'" "batch_ids b' = batch_ids b"
    "writes_as x (ssuc_options c) b' w"
proof -
  obtain ws where ws: "batch_for mx x b ws" "w = join ws" using assms(1) by (auto simp: stands_for_def)
  obtain s where s: "batch mx x s (join ws)"
    "CompressionWorker_process x c b =
       rbind (CompressionWorker_compress x c s) (\<lambda>command.
       rbind (if sc_data_attribute_dirty command then SendCommand_flush x command c else Inr command)
         (\<lambda>command. Inr (b\<lparr>cbi_command_queue := [whole_pointer command]\<rparr>)))"
    using ws(1) assms(2,3) by (rule CompressionWorker_process_ok)
  obtain s' where s': "rbind (CompressionWorker_compress x c s) (\<lambda>command.
       if sc_data_attribute_dirty command then SendCommand_flush x command c else Inr command) = Inr s'"
    "\<forall>b. cbi_command_queue b = [whole_pointer s'] \<longrightarrow> writes_as x (ssuc_options c) b w"
    using s(1) assms(3,4) unfolding ws(2) by (rule prepare_batch)
  show thesis
    using s' by (intro that [of "b\<lparr>cbi_command_queue := [whole_pointer s']\<rparr>"])
      (simp_all add: s(2) rbind_assoc [symmetric] batch_ids_def)
qed

end
