(* ===== verification/Cache_Reads.thy ===== *)
theory Cache_Reads
  imports Command_Codec
begin

text \<open>
  The read-once buffer cache at work: the prefetcher of \<open>read_once_buffer_cache.rs\<close> and
  \<open>read_buffer.rs\<close> fills it from the input while any number of readers take bytes out of it. The
  critical sections of all threads interleave; whatever the order, a reader gets the bytes of the
  input at the address it asked for, and the cache stays within its limit.
\<close>

section \<open>The prefetcher\<close>

definition fill_read_buffer :: "ReadBuffer \<Rightarrow> ctx \<Rightarrow> (ReadBuffer \<times> ctx) result" where
  "fill_read_buffer rb c =
     rbind (Context_read c (length (rb_buffer rb))) (\<lambda>(bs, c1). Inr (rb\<lparr>rb_buffer := bs\<rparr>, c1))"

text \<open>The part of a turn of \<open>prefetcher_loop\<close> between its two critical sections: fill the buffer and
  validate its bounds.\<close>

definition prefetcher_fill :: "ReadOnceBufferCache \<Rightarrow> ReadBuffer \<Rightarrow> ctx \<Rightarrow> (ReadBuffer \<times> ctx) result" where
  "prefetcher_fill cache rb c =
     rbind (fill_read_buffer rb c) (\<lambda>(rb, c1).
     let first_cache_key = robc_cache_start_address cache div robc_buffer_size cache;
         start_address = rb_key rb * robc_buffer_size cache + rb_start_offset rb;
         start_offset = start_address mod robc_buffer_size cache;
         end_address = start_address + length (rb_buffer rb);
         end_offset = end_address mod robc_buffer_size cache;
         end_buffer_key = end_offset div robc_buffer_size cache
     in ensure (first_cache_key = end_buffer_key \<or> start_offset = 0 \<or> end_offset = 0 \<or>
          length (rb_buffer rb) = 0) (Mp MissizedBuffer) (Inr (rb, c1)))"

datatype prefetcher =
    Prefetch_next ctx
  | Prefetch_fill ReadBuffer ctx
  | Prefetch_done
  | Prefetch_failed error

text \<open>The critical sections of \<open>prefetcher_loop\<close>, of a reader and of \<open>halt\<close>.\<close>

inductive cache_step ::
  "ReadOnceBufferCache \<times> prefetcher \<Rightarrow> ReadOnceBufferCache \<times> prefetcher \<Rightarrow> bool"
where
  get: "get_buffer_to_fill cache = (Inr (Some rb), cache') \<Longrightarrow>
    cache_step (cache, Prefetch_next c) (cache', Prefetch_fill rb c)"
| get_none: "get_buffer_to_fill cache = (Inr None, cache') \<Longrightarrow>
    cache_step (cache, Prefetch_next c) (cache', Prefetch_done)"
| get_fails: "get_buffer_to_fill cache = (Inl e, cache') \<Longrightarrow> e \<noteq> Blocked \<Longrightarrow>
    cache_step (cache, Prefetch_next c) (cache', Prefetch_failed e)"
| fill_fails: "prefetcher_fill cache rb c = Inl e \<Longrightarrow>
    cache_step (cache, Prefetch_fill rb c) (cache, Prefetch_failed e)"
| put: "prefetcher_fill cache rb c = Inr (rb', c') \<Longrightarrow> put_buffer cache rb' = (Inr (), cache') \<Longrightarrow>
    cache_step (cache, Prefetch_fill rb c) (cache', Prefetch_next c')"
| put_fails: "prefetcher_fill cache rb c = Inr (rb', c') \<Longrightarrow> put_buffer cache rb' = (Inl e, cache') \<Longrightarrow>
    cache_step (cache, Prefetch_fill rb c) (cache', Prefetch_failed e)"
| reader: "read_exact_turn cache address want = (r, cache') \<Longrightarrow> cache_step (cache, p) (cache', p)"
| halt: "ReadOnceBufferCache_halt cache unplanned = (r, cache') \<Longrightarrow> cache_step (cache, p) (cache', p)"

section \<open>The invariant\<close>

text \<open>A buffer holds the bytes \<open>B\<close> of the input at its place.\<close>

definition buffer_ok :: "bytes \<Rightarrow> nat \<Rightarrow> ReadBuffer \<Rightarrow> bool" where
  "buffer_ok B sz rb \<longleftrightarrow> rb_start_offset rb + length (rb_buffer rb) \<le> sz \<and>
     rb_buffer rb = take (length (rb_buffer rb)) (drop (rb_key rb * sz + rb_start_offset rb) B)"

definition cache_ok :: "bytes \<Rightarrow> ReadOnceBufferCache \<Rightarrow> bool" where
  "cache_ok B cache \<longleftrightarrow> 0 < robc_buffer_size cache \<and>
     (\<forall>k rb. map_of (robci_buffers cache) k = Some rb \<longrightarrow> rb_key rb = k \<and> buffer_ok B (robc_buffer_size cache) rb)"

lemma buffer_read:
  assumes "buffer_ok B sz rb" and "ReadBuffer_read rb (address mod sz) want = Inr bs"
    and "rb_key rb = address div sz"
  shows "bs = take (length bs) (drop address B)"
proof -
  let ?o = "address mod sz" and ?s = "rb_start_offset rb" and ?l = "length (rb_buffer rb)"
  have bs: "?s \<le> ?o" "bs = take (min (?l - (?o - ?s)) want) (drop (?o - ?s) (rb_buffer rb))" "?o - ?s \<le> ?l"
    using assms(2) by (auto simp: ReadBuffer_read_def Let_def result_simps)
  have addr: "rb_key rb * sz + ?s + (?o - ?s) = address"
    using bs(1) assms(3) div_mult_mod_eq [of address sz] by simp
  have "rb_buffer rb = take ?l (drop (rb_key rb * sz + ?s) B)"
    using assms(1) by (simp add: buffer_ok_def)
  then have "drop (?o - ?s) (rb_buffer rb) = take (?l - (?o - ?s)) (drop (rb_key rb * sz + ?s + (?o - ?s)) B)"
    by (metis drop_take drop_drop add.commute)
  then have "bs = take (min (min (?l - (?o - ?s)) want) (?l - (?o - ?s))) (drop address B)"
    using bs(2) by (simp only: addr take_take)
  then obtain n where "bs = take n (drop address B)" by blast
  then show ?thesis by (cases "n \<le> length (drop address B)") simp_all
qed

text \<open>What a reader does to the cache: it lowers a count or drops a buffer.\<close>

definition lowered :: "ReadOnceBufferCache \<Rightarrow> ReadOnceBufferCache \<Rightarrow> bool" where
  "lowered c c' \<longleftrightarrow> c' = c \<or>
     (\<exists>k n. k \<in> fst ` set (robcm_bytes_remaining c) \<and>
        c' = c\<lparr>robcm_bytes_remaining := AList.update k n (robcm_bytes_remaining c)\<rparr>) \<or>
     (\<exists>k. c' = c\<lparr>robcm_bytes_remaining := AList.delete k (robcm_bytes_remaining c),
             robci_buffers := AList.delete k (robci_buffers c)\<rparr>)"

lemma update_bytes_read_lowered: "lowered c (snd (update_bytes_read c k n))"
proof (cases "map_of (robcm_bytes_remaining c) k")
  case (Some m)
  then have "k \<in> fst ` set (robcm_bytes_remaining c)" by (force dest: map_of_SomeD)
  with Some show ?thesis unfolding lowered_def update_bytes_read_def Let_def by auto
qed (simp add: lowered_def update_bytes_read_def)

lemma read_exact_turn_lowered:
  assumes "read_exact_turn c address want = (r, c')"
  shows "lowered c c'"
proof -
  have "c' = c \<or> (\<exists>k n. c' = snd (update_bytes_read c k n))"
    using assms
    by (auto simp: read_exact_turn_def Let_def split: if_splits sum.splits prod.splits) (metis snd_conv)+
  moreover have "lowered c c" by (simp add: lowered_def)
  ultimately show ?thesis using update_bytes_read_lowered by blast
qed

lemma lowered_effect:
  assumes "lowered c c'"
  shows "robc_buffer_size c' = robc_buffer_size c" "robc_cache_start_address c' = robc_cache_start_address c"
    "robc_maximum_buffers_to_cache c' = robc_maximum_buffers_to_cache c" "robcm_state c' = robcm_state c"
    "robcm_next_key_to_fetch c' = robcm_next_key_to_fetch c"
    "length (robcm_bytes_remaining c') \<le> length (robcm_bytes_remaining c)"
    "length (robci_buffers c') \<le> length (robci_buffers c)"
    "map fst (robci_buffers c) = map fst (robcm_bytes_remaining c) \<Longrightarrow>
      map fst (robci_buffers c') = map fst (robcm_bytes_remaining c')"
    "fst ` set (robci_buffers c') \<subseteq> fst ` set (robci_buffers c)"
    "cache_ok B c \<Longrightarrow> cache_ok B c'"
proof -
  have len: "length (AList.delete k al) \<le> length al" for k and al :: "(nat \<times> 'c) list"
    by (metis delete_keys length_map length_removeAll_less_eq)
  have upd: "map fst (AList.update k v al) = map fst al" "length (AList.update k v al) = length al"
    if "k \<in> fst ` set al" for k v and al :: "(nat \<times> 'c) list"
    using that update_keys [of k v al] by (metis list.set_map length_map)+
  show "robc_buffer_size c' = robc_buffer_size c" "robc_cache_start_address c' = robc_cache_start_address c"
    "robc_maximum_buffers_to_cache c' = robc_maximum_buffers_to_cache c" "robcm_state c' = robcm_state c"
    "robcm_next_key_to_fetch c' = robcm_next_key_to_fetch c"
    using assms by (auto simp: lowered_def)
  show "length (robcm_bytes_remaining c') \<le> length (robcm_bytes_remaining c)"
    using assms unfolding lowered_def by (elim disjE exE conjE) (simp_all add: len upd(2))
  show "length (robci_buffers c') \<le> length (robci_buffers c)"
    using assms len by (auto simp: lowered_def)
  show "map fst (robci_buffers c) = map fst (robcm_bytes_remaining c) \<Longrightarrow>
      map fst (robci_buffers c') = map fst (robcm_bytes_remaining c')"
    using assms unfolding lowered_def by (elim disjE exE conjE) (simp_all add: delete_keys upd(1))
  show "fst ` set (robci_buffers c') \<subseteq> fst ` set (robci_buffers c)"
    using assms unfolding lowered_def by (elim disjE exE conjE) (simp_all add: dom_delete_subset)
  show "cache_ok B c \<Longrightarrow> cache_ok B c'"
    using assms by (auto simp: lowered_def cache_ok_def delete_conv' simp del: map_of_eq_Some_iff split: if_splits)
qed

text \<open>The address at which the buffer with a given key starts.\<close>

definition fetch_offset :: "ReadOnceBufferCache \<Rightarrow> nat \<Rightarrow> nat" where
  "fetch_offset cache k =
     (if k = robc_cache_start_address cache div robc_buffer_size cache
      then robc_cache_start_address cache mod robc_buffer_size cache else 0)"

definition fetch_address :: "ReadOnceBufferCache \<Rightarrow> nat \<Rightarrow> nat" where
  "fetch_address cache k = k * robc_buffer_size cache + fetch_offset cache k"

definition in_step :: "ReadOnceBufferCache \<Rightarrow> nat \<Rightarrow> bool" where
  "in_step cache k \<longleftrightarrow> map fst (robci_buffers cache) = map fst (robcm_bytes_remaining cache) \<and>
     (\<forall>j \<in> fst ` set (robci_buffers cache). j < k) \<and>
     robc_cache_start_address cache div robc_buffer_size cache \<le> k"

fun prefetcher_ok :: "bytes \<Rightarrow> ReadOnceBufferCache \<Rightarrow> prefetcher \<Rightarrow> bool" where
  "prefetcher_ok B cache (Prefetch_next c) \<longleftrightarrow>
     in_step cache (robcm_next_key_to_fetch cache) \<and> Source_is_external (ssuc_source c) \<and>
     length (robci_buffers cache) \<le> robc_maximum_buffers_to_cache cache \<and>
     upcoming c (drop (fetch_address cache (robcm_next_key_to_fetch cache)) B)"
| "prefetcher_ok B cache (Prefetch_fill rb c) \<longleftrightarrow>
     in_step cache (rb_key rb) \<and> robcm_next_key_to_fetch cache = rb_key rb + 1 \<and> Source_is_external (ssuc_source c) \<and>
     rb = ReadBuffer_new (rb_key rb) (fetch_offset cache (rb_key rb))
            (robc_buffer_size cache - fetch_offset cache (rb_key rb)) \<and>
     length (robci_buffers cache) < robc_maximum_buffers_to_cache cache \<and>
     upcoming c (drop (fetch_address cache (rb_key rb)) B)"
| "prefetcher_ok B cache Prefetch_done \<longleftrightarrow>
     length (robci_buffers cache) \<le> robc_maximum_buffers_to_cache cache \<and> robcm_state cache \<noteq> Running"
| "prefetcher_ok B cache (Prefetch_failed e) \<longleftrightarrow>
     length (robci_buffers cache) \<le> robc_maximum_buffers_to_cache cache \<and> robcm_state cache \<noteq> Running"

definition cache_inv :: "bytes \<Rightarrow> ReadOnceBufferCache \<times> prefetcher \<Rightarrow> bool" where
  "cache_inv B s \<longleftrightarrow> cache_ok B (fst s) \<and> prefetcher_ok B (fst s) (snd s) \<and>
     robc_cache_start_address (fst s) < robc_buffer_size (fst s)"

lemma lowered_inv:
  assumes "lowered c c'" and "cache_inv B (c, p)"
  shows "cache_inv B (c', p)"
proof -
  note eff = lowered_effect [OF assms(1)]
  have "in_step c k \<Longrightarrow> in_step c' k" for k
    unfolding in_step_def using eff(1,2,8,9) by (metis subsetD)
  moreover have "fetch_offset c' k = fetch_offset c k" "fetch_address c' k = fetch_address c k" for k
    using eff by (simp_all add: fetch_offset_def fetch_address_def)
  ultimately show ?thesis
    using assms(2) eff by (cases p) (auto simp: cache_inv_def intro: order_trans)
qed

lemma halt_inv:
  assumes "ReadOnceBufferCache_halt c u = (r, c')" and "cache_inv B (c, p)"
  shows "cache_inv B (c', p)"
proof -
  have c': "c' = c\<lparr>robcm_state := robcm_state c'\<rparr>" "robcm_state c' \<noteq> Running"
    using assms(1) robc.halt_stops [of c u] by (auto simp: ReadOnceBufferCache_halt_def split: sum.splits)
  have "cache_inv B (c\<lparr>robcm_state := s\<rparr>, p)" if "s \<noteq> Running" for s
    using that assms(2)
    by (cases p) (auto simp: cache_inv_def cache_ok_def in_step_def fetch_offset_def fetch_address_def)
  with c' show ?thesis by metis
qed

lemma Context_read_upcoming:
  assumes "upcoming c bs" and "Source_is_external (ssuc_source c)"
  obtains c' where "Context_read c n = Inr (take n bs, c')" "upcoming c' (drop n bs)"
    "Source_is_external (ssuc_source c')"
proof -
  obtain r mk where r: "ssus_source (ssuc_source c) = mk r" "mk = SssBufReader \<or> mk = SssReader"
    "steady r" "reader_bytes r = bs"
    using assms by (auto simp: upcoming_def Source_is_external_def split: SendStreamSource.splits)
  obtain r' where "read_loop r n = Inr (take n bs, r')" "steady r'" "reader_bytes r' = drop n bs"
    using read_loop_steady [OF r(3), of n] r(4) by auto
  with r that show thesis
    by (auto simp: Context_read_def Source_read_def upcoming_def Source_is_external_def)
qed

lemma get_inv:
  assumes "get_buffer_to_fill c = (r, c')" and "cache_inv B (c, Prefetch_next ctx)"
  shows "r = Inr (Some rb) \<Longrightarrow> cache_inv B (c', Prefetch_fill rb ctx)"
    and "r = Inr None \<Longrightarrow> cache_inv B (c', Prefetch_done)"
    and "r = Inl e \<Longrightarrow> e \<noteq> Blocked \<Longrightarrow> cache_inv B (c', Prefetch_failed e)"
proof -
  have eq: "length (robci_buffers c) = length (robcm_bytes_remaining c)"
    using assms(2) by (auto simp: cache_inv_def in_step_def dest: map_eq_imp_length_eq)
  show "r = Inr None \<Longrightarrow> cache_inv B (c', Prefetch_done)"
    and "r = Inl e \<Longrightarrow> e \<noteq> Blocked \<Longrightarrow> cache_inv B (c', Prefetch_failed e)"
    using assms by (auto simp: get_buffer_to_fill_def cache_inv_def Let_def split: PrimitiveState.splits if_splits)
  assume r: "r = Inr (Some rb)"
  let ?k = "robcm_next_key_to_fetch c"
  have "c' = c\<lparr>robcm_next_key_to_fetch := ?k + 1\<rparr>" "\<not> prefetcher_waits c" "robcm_state c = Running"
    "rb = ReadBuffer_new ?k (fetch_offset c ?k) (robc_buffer_size c - fetch_offset c ?k)"
    using assms(1) r
    by (auto simp: get_buffer_to_fill_def Let_def fetch_offset_def split: PrimitiveState.splits if_splits)
  then show "cache_inv B (c', Prefetch_fill rb ctx)"
    using assms(2) eq
    by (auto simp: cache_inv_def cache_ok_def in_step_def fetch_offset_def fetch_address_def prefetcher_waits_def
        ReadBuffer_new_def)
qed

lemma prefetcher_fill_ok:
  assumes "cache_inv B (c, Prefetch_fill rb ctx)"
  obtains rb' ctx' where "prefetcher_fill c rb ctx = Inr (rb', ctx')" "rb_key rb' = rb_key rb"
    "buffer_ok B (robc_buffer_size c) rb'" "upcoming ctx' (drop (fetch_address c (rb_key rb + 1)) B)"
    "Source_is_external (ssuc_source ctx')"
proof -
  let ?k = "rb_key rb" and ?sz = "robc_buffer_size c"
  let ?n = "?sz - fetch_offset c ?k"
  have inv: "0 < ?sz" "robc_cache_start_address c < ?sz" "robc_cache_start_address c div ?sz \<le> ?k"
    "rb = ReadBuffer_new ?k (fetch_offset c ?k) ?n" "upcoming ctx (drop (fetch_address c ?k) B)"
    "Source_is_external (ssuc_source ctx)"
    using assms by (auto simp: cache_inv_def cache_ok_def in_step_def)
  have off: "fetch_offset c ?k < ?sz" using inv(1) by (simp add: fetch_offset_def)
  have len: "length (rb_buffer rb) = ?n" and start: "rb_start_offset rb = fetch_offset c ?k"
    using inv(4) by (metis ReadBuffer_new_def ReadBuffer.select_convs(1,3) length_replicate)+
  obtain ctx' where ctx': "Context_read ctx ?n = Inr (take ?n (drop (fetch_address c ?k) B), ctx')"
    "upcoming ctx' (drop ?n (drop (fetch_address c ?k) B))" "Source_is_external (ssuc_source ctx')"
    using inv(5,6) by (rule Context_read_upcoming)
  have next_addr: "?n + fetch_address c ?k = fetch_address c (?k + 1)"
    using off inv(3) by (simp add: fetch_address_def) (simp add: fetch_offset_def)
  let ?rb = "rb\<lparr>rb_buffer := take ?n (drop (fetch_address c ?k) B)\<rparr>"
  have "prefetcher_fill c rb ctx = Inr (?rb, ctx')"
    using ctx'(1) inv(2) by (simp add: prefetcher_fill_def fill_read_buffer_def len Let_def)
  moreover have "buffer_ok B ?sz ?rb"
    using off by (auto simp: buffer_ok_def start fetch_address_def min_def)
  ultimately show thesis using ctx'(2,3) by (intro that) (simp_all add: next_addr)
qed

lemma put_inv:
  assumes "cache_inv B (c, Prefetch_fill rb ctx)" and "prefetcher_fill c rb ctx = Inr (rb', ctx')"
    and "put_buffer c rb' = (r, c')"
  shows "r = Inr () \<Longrightarrow> cache_inv B (c', Prefetch_next ctx')"
    and "r = Inl e \<Longrightarrow> cache_inv B (c', Prefetch_failed e)"
proof -
  have rb': "rb_key rb' = rb_key rb" "buffer_ok B (robc_buffer_size c) rb'"
    "upcoming ctx' (drop (fetch_address c (rb_key rb + 1)) B)" "Source_is_external (ssuc_source ctx')"
    using prefetcher_fill_ok [OF assms(1)] assms(2) by auto
  have inv: "in_step c (rb_key rb)" "robcm_next_key_to_fetch c = rb_key rb + 1" "cache_ok B c"
    "length (robci_buffers c) < robc_maximum_buffers_to_cache c" "robc_cache_start_address c < robc_buffer_size c"
    using assms(1) by (simp_all add: cache_inv_def)
  have "rb_key rb \<notin> fst ` set (robci_buffers c)" using inv(1) by (auto simp: in_step_def)
  then have fresh: "map_of (robci_buffers c) (rb_key rb) = None" "map_of (robcm_bytes_remaining c) (rb_key rb) = None"
    using inv(1) unfolding in_step_def map_of_eq_None_iff by (metis list.set_map)+
  have wf: "in_step c (rb_key rb + 1)" "cache_ok B (c\<lparr>robci_buffers := robci_buffers c @ [(rb_key rb, rb')]\<rparr>)"
    using inv(1,3) rb'(1,2) fresh(1)
    by (auto simp: in_step_def cache_ok_def map_add_def simp del: map_of_eq_Some_iff split: option.splits)
  show "cache_inv B (c', Prefetch_next ctx')" if "r = Inr ()"
  proof (cases "rb_buffer rb' = []")
    case True
    with that assms(3) fresh rb'(1) have "c' = c\<lparr>robcm_state := Done\<rparr>"
      by (auto simp: put_buffer_def Let_def delete_fresh split: PrimitiveState.splits)
    with inv wf(1) rb' show ?thesis
      by (simp add: cache_inv_def cache_ok_def in_step_def fetch_address_def fetch_offset_def)
  next
    case False
    with that assms(3) fresh rb'(1) have "c' = c\<lparr>robci_buffers := robci_buffers c @ [(rb_key rb, rb')],
        robcm_bytes_remaining := robcm_bytes_remaining c @ [(rb_key rb, length (rb_buffer rb'))]\<rparr>"
      by (auto simp: put_buffer_def Let_def update_fresh split: PrimitiveState.splits)
    with inv wf rb' show ?thesis
      by (auto simp: cache_inv_def cache_ok_def in_step_def fetch_address_def fetch_offset_def)
  qed
  show "cache_inv B (c', Prefetch_failed e)" if "r = Inl e"
  proof -
    have "c' = c \<or> c' = c\<lparr>robci_buffers := robci_buffers c @ [(rb_key rb, rb')]\<rparr>" "robcm_state c \<noteq> Running"
      using that assms(3) fresh rb'(1)
      by (auto simp: put_buffer_def Let_def update_fresh split: PrimitiveState.splits if_splits)
    with inv wf(2) show ?thesis by (auto simp: cache_inv_def)
  qed
qed

theorem cache_step_inv: "cache_step s s' \<Longrightarrow> cache_inv B s \<Longrightarrow> cache_inv B s'"
proof (induction rule: cache_step.induct)
  case (fill_fails cache rb c e)
  then show ?case using prefetcher_fill_ok [of B cache rb c] by auto
qed (auto intro: get_inv put_inv halt_inv lowered_inv [OF read_exact_turn_lowered])

section \<open>Reads under interleaving\<close>

text \<open>\<open>read_exact\<close> of \<open>want\<close> bytes at \<open>address\<close>, turn by turn, with the steps of the other threads in
  between.\<close>

inductive shared_read ::
  "ReadOnceBufferCache \<times> prefetcher \<Rightarrow> nat \<Rightarrow> nat \<Rightarrow> bytes \<Rightarrow> ReadOnceBufferCache \<times> prefetcher \<Rightarrow> bool"
where
  finished: "shared_read s 0 address [] s"
| turn: "0 < want \<Longrightarrow> read_exact_turn cache address want = (Inr bs, cache') \<Longrightarrow>
    shared_read (cache', p) (want - length bs) (address + length bs) rest s \<Longrightarrow>
    shared_read (cache, p) want address (bs @ rest) s"
| other: "cache_step s s' \<Longrightarrow> shared_read s' want address bs s'' \<Longrightarrow> shared_read s want address bs s''"

lemma read_exact_turn_bytes:
  assumes "cache_ok B c" and "read_exact_turn c address want = (Inr bs, c')"
  shows "bs = take (length bs) (drop address B)"
proof -
  let ?sz = "robc_buffer_size c"
  have "read_buffer_from_cache c (address div ?sz) (address mod ?sz) want = Inr bs"
    using assms(2) by (auto simp: read_exact_turn_def Let_def split: if_splits sum.splits prod.splits)
  then obtain rb where "map_of (robci_buffers c) (address div ?sz) = Some rb"
    "ReadBuffer_read rb (address mod ?sz) want = Inr bs"
    by (auto simp: read_buffer_from_cache_def result_simps of_option_def simp del: map_of_eq_Some_iff
        split: if_splits option.splits)
  with assms(1) buffer_read [of B ?sz rb address want bs] show ?thesis by (auto simp: cache_ok_def)
qed

theorem shared_read_bytes:
  assumes "shared_read s want address bs s'" and "cache_inv B s"
  shows "cache_inv B s' \<and> length bs = want \<and> bs = take want (drop address B)"
  using assms
proof induction
  case (turn want cache address bs cache' p rest s)
  have "cache_inv B (cache', p)" using turn lowered_inv read_exact_turn_lowered by blast
  with turn.IH read_exact_turn_length [OF turn.hyps(2)]
  have rest: "cache_inv B s" "length rest = want - length bs" "rest = take (want - length bs) (drop (address + length bs) B)"
    "length bs \<le> want" by auto
  have "bs = take (length bs) (drop address B)"
    using turn.prems turn.hyps(2) by (intro read_exact_turn_bytes) (auto simp: cache_inv_def)
  then have "bs @ rest = take want (drop address B)"
    using rest(3,4) take_add [of "length bs" "want - length bs" "drop address B"] by (simp add: add.commute)
  moreover have "length (bs @ rest) = want" using rest(2,4) by simp
  ultimately show ?case using rest(1) by blast
qed (auto intro: cache_step_inv)

end
