(* ===== verification/Pipeline.thy ===== *)
theory Pipeline
  imports Batch_Output Cache_Reads
begin

text \<open>
  The multi-threaded upgrade as a whole: one reader, some command construction threads, one batcher,
  some compression threads and one writer, connected by the four queues of \<open>SyncContainer\<close>
  (\<open>mp/sync/sync_container.rs\<close>). The threads interleave in any order; a step of a thread is what it
  does from one queue operation to the next. A thread that has to wait, or has ended, has no step.

  The input is read through the buffer cache. Reads that interleave with those of other threads and
  with the prefetcher return the bytes of the input, as \<open>Cache_Reads\<close> shows, so a step reads from a
  cache that holds the whole input \<open>B\<close>.
\<close>

section \<open>The state\<close>

datatype batcher =
    Batcher_next "CommandBatchInfo option"
  | Batcher_try "CommandBatchInfo option" CommandBatchInfo
  | Batcher_go_on CommandBatchInfo
  | Batcher_done

datatype writer = Writing ctx | Written ctx

record mp_state =
  mp_reader :: "(nat \<times> nat) option"
  sc_command_construction_queue :: "CommandInfo UnorderedElementQueue"
  mp_constructors :: "CommandInfo option list"
  sc_batcher_queue :: "CommandBatchInfo OrderedElementQueue"
  mp_batcher :: batcher
  sc_compression_queue :: "CommandBatchInfo UnorderedElementQueue"
  mp_compressors :: "CommandBatchInfo option list"
  sc_persistence_queue :: "CommandBatchInfo OrderedElementQueue"
  mp_writer :: writer
  mp_failure :: "error option"

text \<open>The start: the queues of \<open>SyncContainer::new\<close>, the reader at the first command, every worker
  waiting.\<close>

definition mp_start :: "nat \<Rightarrow> nat \<Rightarrow> nat \<Rightarrow> ctx \<Rightarrow> mp_state" where
  "mp_start num_command_constructors num_compressors off c =
     \<lparr>mp_reader = Some (0, off),
      sc_command_construction_queue = UnorderedElementQueue_new ''Command construction queue'',
      mp_constructors = replicate num_command_constructors None,
      sc_batcher_queue = OrderedElementQueue_new ''Batcher queue'',
      mp_batcher = Batcher_next None,
      sc_compression_queue = UnorderedElementQueue_new ''Compression queue'',
      mp_compressors = replicate num_compressors None,
      sc_persistence_queue = OrderedElementQueue_new ''Persistence queue'',
      mp_writer = Writing c, mp_failure = None\<rparr>"

definition mp_context :: "ctx \<Rightarrow> bytes \<Rightarrow> nat \<Rightarrow> ctx" where
  "mp_context wc B off =
     wc\<lparr>ssuc_source := Source_new_from_buffer_cache (loaded_cache B (length B + 1)) off
          (ssus_version (ssuc_source wc))\<rparr>"

section \<open>The steps of the threads\<close>

text \<open>An operation on a shared queue: its value and the queue afterwards, or its error.\<close>

definition shared :: "'a result \<times> 'q \<Rightarrow> ('a \<times> 'q) result" where
  "shared r = rbind (fst r) (\<lambda>v. Inr (v, snd r))"

definition reader_step :: "ctx \<Rightarrow> bytes \<Rightarrow> mp_state \<Rightarrow> mp_state result" where
  "reader_step wc B s =
     (case mp_reader s of
        None \<Rightarrow> Inl Blocked
      | Some (command_id, offset) \<Rightarrow>
          rbind (ReadWorker_next (mp_context wc B offset) command_id)
            (\<lambda>(command_info, is_end, payload_size, c1).
          rbind (shared (UnorderedElementQueue_enqueue (sc_command_construction_queue s) command_info))
            (\<lambda>(_, queue).
          if is_end then Inr (s\<lparr>mp_reader := None, sc_command_construction_queue := queue\<rparr>)
          else rbind (ReadWorker_skip c1 payload_size command_id) (\<lambda>(next_id, c2).
            Inr (s\<lparr>mp_reader := Some (next_id, get_read_offset c2), sc_command_construction_queue := queue\<rparr>)))))"

definition constructor_step :: "externs \<Rightarrow> ctx \<Rightarrow> bytes \<Rightarrow> nat \<Rightarrow> mp_state \<Rightarrow> mp_state result" where
  "constructor_step x wc B i s =
     (if i < length (mp_constructors s) then
        case mp_constructors s ! i of
          None \<Rightarrow>
            rbind (shared (UnorderedElementQueue_dequeue (sc_command_construction_queue s))) (\<lambda>(item, queue).
            case item of
              None \<Rightarrow> Inl Blocked
            | Some command_info \<Rightarrow> Inr (s\<lparr>mp_constructors := (mp_constructors s)[i := Some command_info],
                sc_command_construction_queue := queue\<rparr>))
        | Some command_info \<Rightarrow>
            rbind (CommandConstructionWorker_build x (mp_context wc B 0) command_info) (\<lambda>(batch_info, _).
            rbind (shared (OrderedElementQueue_enqueue CommandBatchInfo_ordered (sc_batcher_queue s) batch_info))
              (\<lambda>(_, queue).
            Inr (s\<lparr>mp_constructors := (mp_constructors s)[i := None], sc_batcher_queue := queue\<rparr>)))
      else Inl Blocked)"

definition batcher_step :: "ctx \<Rightarrow> mp_state \<Rightarrow> mp_state result" where
  "batcher_step wc s =
     (case mp_batcher s of
        Batcher_next previous \<Rightarrow>
          rbind (shared (OrderedElementQueue_dequeue CommandBatchInfo_ordered (sc_batcher_queue s)))
            (\<lambda>(item, queue).
          case item of
            None \<Rightarrow> Inl (Bail (Mp NoBatch))
          | Some current \<Rightarrow> Inr (s\<lparr>mp_batcher := Batcher_try previous current, sc_batcher_queue := queue\<rparr>))
      | Batcher_try previous current \<Rightarrow>
          rbind (BatcherWorker_append wc previous current) (\<lambda>outcome.
          case outcome of
            Keep_waiting remainder \<Rightarrow> Inr (s\<lparr>mp_batcher := Batcher_next (Some remainder)\<rparr>)
          | Go_on None remainder \<Rightarrow> Inr (s\<lparr>mp_batcher := Batcher_go_on remainder\<rparr>)
          | Go_on (Some batch_info) remainder \<Rightarrow>
              rbind (shared (UnorderedElementQueue_enqueue (sc_compression_queue s) batch_info)) (\<lambda>(_, queue).
              Inr (s\<lparr>mp_batcher := Batcher_go_on remainder, sc_compression_queue := queue\<rparr>)))
      | Batcher_go_on current \<Rightarrow>
          rbind (BatcherWorker_rest current) (\<lambda>(to_persist, previous, is_end).
          let next_state = (if is_end then Batcher_done else Batcher_next previous)
          in case to_persist of
               None \<Rightarrow> Inr (s\<lparr>mp_batcher := next_state\<rparr>)
             | Some batch_info \<Rightarrow>
                 rbind (shared (OrderedElementQueue_enqueue CommandBatchInfo_ordered (sc_persistence_queue s)
                   batch_info)) (\<lambda>(_, queue).
                 Inr (s\<lparr>mp_batcher := next_state, sc_persistence_queue := queue\<rparr>)))
      | Batcher_done \<Rightarrow> Inl Blocked)"

definition compressor_step :: "externs \<Rightarrow> ctx \<Rightarrow> nat \<Rightarrow> mp_state \<Rightarrow> mp_state result" where
  "compressor_step x wc i s =
     (if i < length (mp_compressors s) then
        case mp_compressors s ! i of
          None \<Rightarrow>
            rbind (shared (UnorderedElementQueue_dequeue (sc_compression_queue s))) (\<lambda>(item, queue).
            case item of
              None \<Rightarrow> Inl Blocked
            | Some batch_info \<Rightarrow> Inr (s\<lparr>mp_compressors := (mp_compressors s)[i := Some batch_info],
                sc_compression_queue := queue\<rparr>))
        | Some batch_info \<Rightarrow>
            rbind (CompressionWorker_process x wc batch_info) (\<lambda>batch_info.
            rbind (shared (OrderedElementQueue_enqueue CommandBatchInfo_ordered (sc_persistence_queue s) batch_info))
              (\<lambda>(_, queue).
            Inr (s\<lparr>mp_compressors := (mp_compressors s)[i := None], sc_persistence_queue := queue\<rparr>)))
      else Inl Blocked)"

definition writer_step :: "externs \<Rightarrow> mp_state \<Rightarrow> mp_state result" where
  "writer_step x s =
     (case mp_writer s of
        Written c \<Rightarrow> Inl Blocked
      | Writing c \<Rightarrow>
          rbind (shared (OrderedElementQueue_dequeue CommandBatchInfo_ordered (sc_persistence_queue s)))
            (\<lambda>(item, queue).
          case item of
            None \<Rightarrow> Inl (Bail (Mp NoBatch))
          | Some batch_info \<Rightarrow>
              rbind (WriteWorker_process x c batch_info) (\<lambda>(is_end, c1).
              Inr (s\<lparr>mp_writer := (if is_end then Written c1 else Writing c1), sc_persistence_queue := queue\<rparr>))))"

datatype thread = Reader | Constructor nat | Batcher | Compressor nat | Writer

fun thread_step :: "externs \<Rightarrow> ctx \<Rightarrow> bytes \<Rightarrow> thread \<Rightarrow> mp_state \<Rightarrow> mp_state result" where
  "thread_step x wc B Reader s = reader_step wc B s"
| "thread_step x wc B (Constructor i) s = constructor_step x wc B i s"
| "thread_step x wc B Batcher s = batcher_step wc s"
| "thread_step x wc B (Compressor i) s = compressor_step x wc i s"
| "thread_step x wc B Writer s = writer_step x s"

text \<open>A run takes steps of the threads in any order; a failed step is recorded.\<close>

inductive mp_run :: "externs \<Rightarrow> ctx \<Rightarrow> bytes \<Rightarrow> mp_state \<Rightarrow> nat \<Rightarrow> mp_state \<Rightarrow> bool" for x wc B s0 where
  start: "mp_run x wc B s0 0 s0"
| step: "mp_run x wc B s0 k s \<Longrightarrow> thread_step x wc B t s = Inr s' \<Longrightarrow> mp_run x wc B s0 (k + 1) s'"
| failure: "mp_run x wc B s0 k s \<Longrightarrow> thread_step x wc B t s = Inl e \<Longrightarrow> e \<noteq> Blocked \<Longrightarrow>
    mp_run x wc B s0 (k + 1) (s\<lparr>mp_failure := Some e\<rparr>)"

end
