(* ===== verification/Pipeline_Input.thy ===== *)
theory Pipeline_Input
  imports Pipeline
begin

text \<open>
  The first two stages on an input that encodes the commands \<open>cmds\<close>: which command information
  the reader produces, and which batches the construction threads make of it.
\<close>

definition cached :: "ctx \<Rightarrow> bool" where
  "cached c = (case ssus_source (ssuc_source c) of SssReadOnceBufferCache _ \<Rightarrow> True | _ \<Rightarrow> False)"

lemma read_exact_cached: "read_exact c n = Inr (bs, c') \<Longrightarrow> cached c' = cached c"
  by (auto simp: read_exact_def Context_read_def Source_read_def cached_def result_simps
      split: SendStreamSource.splits prod.splits sum.splits)

lemma SendCommandHeader_new_frame:
  assumes "SendCommandHeader_new c = Inr (h, c')"
  shows "get_read_offset c' = get_read_offset c + 10" "cached c' = cached c"
proof -
  obtain bs1 bs2 bs3 c1 c2 where r: "read_exact c 4 = Inr (bs1, c1)" "read_exact c1 2 = Inr (bs2, c2)"
    "read_exact c2 4 = Inr (bs3, c')"
    using assms by (auto simp: SendCommandHeader_new_def read32_def read16_def result_simps)
  show "get_read_offset c' = get_read_offset c + 10"
    using r [THEN read_exact_frame(2)] by simp
  show "cached c' = cached c" using r [THEN read_exact_cached] by simp
qed

lemma mp_context_upcoming: "off \<le> length B \<Longrightarrow> upcoming (mp_context wc B off) (drop off B)"
  by (simp add: mp_context_def upcoming_def Source_new_from_buffer_cache_def)

lemma mp_context_simps [simp]:
  "get_read_offset (mp_context wc B off) = off" "cached (mp_context wc B off)"
  "get_source_version (mp_context wc B off) = get_source_version wc"
  "get_destination_version (mp_context wc B off) = get_destination_version wc"
  "ssuc_options (mp_context wc B off) = ssuc_options wc"
  by (simp_all add: mp_context_def get_read_offset_def cached_def Source_new_from_buffer_cache_def
      get_source_version_def get_destination_version_def Source_get_version_def)

lemma set_offset_context: "set_read_offset (mp_context wc B off) off' = Inr (mp_context wc B off')"
  by (simp add: set_read_offset_def mp_context_def Source_set_offset_def Source_new_from_buffer_cache_def)

abbreviation command_header :: "externs \<Rightarrow> SendVersion \<Rightarrow> acmd \<Rightarrow> SendCommandHeader" where
  "command_header x sv a \<equiv>
     mk_header sv (word_of_nat (length (enc_payload sv a))) (ac_type a) (acmd_crc x sv a)"

lemma payload_size_header:
  "acmd_wf sv a \<Longrightarrow> get_command_payload_size (command_header x sv a) = Inr (length (enc_payload sv a))"
  by (simp add: get_command_payload_size_def mk_header_def acmd_wf_def unat_word_of_nat)

lemma ReadWorker_at_command:
  assumes "drop off B = enc_command x sv a @ rest" and "off \<le> length B" and "acmd_wf sv a"
    and "get_source_version wc = Inr sv" and "i + 1 < 2 ^ 64"
  obtains c1 c2 where
    "ReadWorker_next (mp_context wc B off) i =
       Inr (CommandInfo_new i (command_header x sv a) (off + 10), ac_type a = BTRFS_SEND_C_END,
            length (enc_payload sv a), c1)"
    "ReadWorker_skip c1 (length (enc_payload sv a)) i = Inr (i + 1, c2)"
    "get_read_offset c2 = off + length (enc_command x sv a)"
proof -
  have "upcoming (mp_context wc B off) (enc_header (word_of_nat (length (enc_payload sv a))) (ac_type a)
      (acmd_crc x sv a) @ enc_payload sv a @ rest)"
    using mp_context_upcoming [OF assms(2), of wc] assms(1) by (simp add: enc_command_def enc_with_crc_def)
  then obtain c1 where c1: "SendCommandHeader_new (mp_context wc B off) = Inr (command_header x sv a, c1)"
    by (rule SendCommandHeader_new_upcoming) (simp add: assms(4))
  note frame = SendCommandHeader_new_frame [OF c1]
  let ?n = "length (enc_payload sv a)"
  let ?c2 = "c1\<lparr>ssuc_source := (ssuc_source c1)\<lparr>ssus_offset := ssus_offset (ssuc_source c1) + ?n\<rparr>\<rparr>"
  have "adjust_read_offset c1 ?n = Inr ?c2"
  proof -
    have "cached c1" using frame(2) by simp
    then show ?thesis
      by (auto simp: adjust_read_offset_def Source_adjust_offset_def cached_def split: SendStreamSource.splits)
  qed
  moreover have "get_read_offset ?c2 = off + length (enc_command x sv a)"
    using frame(1) by simp (simp add: get_read_offset_def)
  moreover have "ReadWorker_next (mp_context wc B off) i =
       Inr (CommandInfo_new i (command_header x sv a) (off + 10), ac_type a = BTRFS_SEND_C_END, ?n, c1)"
    using frame(1) payload_size_header [OF assms(3), of x]
    by (simp add: ReadWorker_next_def c1 Let_def is_command_end_def)
  ultimately show thesis
    using assms(5) by (intro that [of c1 ?c2]) (simp_all add: ReadWorker_skip_def uadd_ok)
qed

lemma CommandConstructionWorker_at_command:
  assumes "drop off B = enc_command x sv a @ rest" and "off \<le> length B" and "input_wf sv a"
    and "get_source_version wc = Inr sv" and "get_destination_version wc = Inr SendVersion2"
  obtains c2 where "CommandConstructionWorker_build x (mp_context wc B off0)
      (CommandInfo_new i (command_header x sv a) (off + 10)) =
    Inr (CommandBatchInfo_new i (mk_command x SendVersion2 a), c2)"
proof -
  have wf: "acmd_wf sv a" using assms(3) by (simp add: input_wf_def)
  have "off + 10 \<le> length B" "drop (off + 10) B = enc_payload sv a @ rest"
    using arg_cong [OF assms(1), of length] arg_cong [OF assms(1), of "drop 10"] assms(2)
    by (simp_all add: add.commute) (simp add: enc_command_def enc_with_crc_def)
  then have "upcoming (mp_context wc B (off + 10)) (enc_payload sv a @ rest)"
    using mp_context_upcoming by metis
  then obtain c1 where c1: "read_exact (mp_context wc B (off + 10)) (length (enc_payload sv a)) =
      Inr (enc_payload sv a, c1)" "same_but_source (mp_context wc B (off + 10)) c1"
    by (rule read_exact_upcoming) simp
  have "upgrade_command x (mk_command x sv a) c1 = Inr (mk_command x SendVersion2 a)"
    using assms(3,5) same_but_source_versions(2) [OF c1(2)] by (intro upgrade_command_mk) simp_all
  with SendCommand_new_from_header_enc [OF wf _ c1(1), of x] assms(4) show thesis
    by (intro that [of c1]) (simp add: CommandConstructionWorker_build_def CommandInfo_split_def
        CommandInfo_new_def set_offset_context)
qed

end
