(* ===== verification/Pipeline_Proof.thy ===== *)
theory Pipeline_Proof
  imports Pipeline_Input
begin

text \<open>
  The multi-threaded upgrade is correct under every interleaving: no thread fails, as long as the
  writer has not seen the end command some thread has a step, every step uses up work, and the
  batches reach the writer in the order of the plan. The proof rests on the scene, the facts about
  what each stage does to each element, and on the laws of the two kinds of queue.
\<close>

section \<open>The scene\<close>

definition final_batch :: "externs \<Rightarrow> ctx \<Rightarrow> dispatch \<Rightarrow> CommandBatchInfo" where
  "final_batch x wc d =
     (case d of
        To_compression b \<Rightarrow> (case CompressionWorker_process x wc b of Inr b' \<Rightarrow> b' | Inl _ \<Rightarrow> b)
      | To_persistence b \<Rightarrow> b)"

record scene =
  sc_addr :: "nat \<Rightarrow> nat"
  sc_infos :: "CommandInfo list"
  sc_batches :: "CommandBatchInfo list"
  sc_dispatched :: "dispatch list"
  sc_writes :: "acmd list"

abbreviation final_batches :: "externs \<Rightarrow> ctx \<Rightarrow> scene \<Rightarrow> CommandBatchInfo list" where
  "final_batches x wc sc \<equiv> map (final_batch x wc) (sc_dispatched sc)"

definition reads_ok :: "externs \<Rightarrow> ctx \<Rightarrow> bytes \<Rightarrow> scene \<Rightarrow> bool" where
  "reads_ok x wc B sc \<longleftrightarrow>
     length (sc_infos sc) = length (sc_batches sc) \<and>
     (\<forall>i < length (sc_batches sc).
        ci_id (sc_infos sc ! i) = i \<and> batch_ids (sc_batches sc ! i) = (i, i, False) \<and>
        (\<exists>c. CommandConstructionWorker_build x (mp_context wc B 0) (sc_infos sc ! i) = Inr (sc_batches sc ! i, c)) \<and>
        (\<exists>n c1 c2. ReadWorker_next (mp_context wc B (sc_addr sc i)) i =
             Inr (sc_infos sc ! i, i + 1 = length (sc_batches sc), n, c1) \<and>
           ReadWorker_skip c1 n i = Inr (i + 1, c2) \<and> get_read_offset c2 = sc_addr sc (i + 1)))"

definition batches_ok :: "ctx \<Rightarrow> scene \<Rightarrow> bool" where
  "batches_ok wc sc \<longleftrightarrow>
     0 < length (sc_batches sc) \<and> length (sc_batches sc) < 2 ^ 64 \<and>
     (\<exists>prev. BatcherWorker_run wc None (sc_batches sc) = Inr (sc_dispatched sc, prev, True)) \<and>
     (\<forall>m < length (sc_batches sc). \<exists>G prev. BatcherWorker_run wc None (take m (sc_batches sc)) = Inr (G, prev, False))"

definition writes_ok :: "externs \<Rightarrow> ctx \<Rightarrow> scene \<Rightarrow> bool" where
  "writes_ok x wc sc \<longleftrightarrow>
     (\<forall>b. To_compression b \<in> set (sc_dispatched sc) \<longrightarrow> (\<exists>b'. CompressionWorker_process x wc b = Inr b')) \<and>
     chained CommandBatchInfo_ordered 0 (final_batches x wc sc) (length (sc_batches sc)) \<and>
     (\<forall>b \<in> set (final_batches x wc sc). well_ranged CommandBatchInfo_ordered b) \<and>
     list_all2 (writes_as x (ssuc_options wc)) (final_batches x wc sc) (sc_writes sc) \<and>
     (\<forall>i < length (sc_writes sc). ac_type (sc_writes sc ! i) = BTRFS_SEND_C_END \<longleftrightarrow> i + 1 = length (sc_writes sc)) \<and>
     sc_writes sc \<noteq> []"

definition scene_ok :: "externs \<Rightarrow> ctx \<Rightarrow> bytes \<Rightarrow> scene \<Rightarrow> bool" where
  "scene_ok x wc B sc \<longleftrightarrow> reads_ok x wc B sc \<and> batches_ok wc sc \<and> writes_ok x wc sc"

section \<open>Queues within a scene\<close>

abbreviation batch_run ::
  "CommandBatchInfo list \<Rightarrow> CommandBatchInfo list \<Rightarrow> CommandBatchInfo OrderedElementQueue \<Rightarrow> bool" where
  "batch_run ins outs q \<equiv> (\<exists>name. oeq_run CommandBatchInfo_ordered (OrderedElementQueue_new name) ins outs q) \<and>
     oeqi_state q = Running"

lemma chained_distinct:
  assumes "chained e n xs m" and "\<forall>x \<in> set xs. well_ranged e x"
  shows "distinct xs"
  using assms
proof (induction xs arbitrary: n)
  case (Cons y xs)
  have "get_first_id e y < get_first_id e z" if "z \<in> set xs" for z
    using chained_mono(2) [of e "successor_id e y" xs m] that Cons.prems
    by (force simp: well_ranged_def successor_id_def split: if_splits)
  then have "y \<notin> set xs" by blast
  with Cons show ?case by auto
qed simp

lemma ordered_enqueue_ok:
  assumes all: "chained e 0 all m" "\<forall>x \<in> set all. well_ranged e x"
    and run: "oeq_run e (OrderedElementQueue_new name) ins outs q" and running: "oeqi_state q = Running"
    and sub: "add_mset b (mset ins) \<subseteq># mset all"
  shows "\<exists>q'. OrderedElementQueue_enqueue e q b = (Inr (), q') \<and> oeqi_state q' = Running \<and>
    oeq_run e (OrderedElementQueue_new name) (ins @ [b]) outs q' \<and> length (oeqi_map q') = length (oeqi_map q) + 1"
proof -
  have b: "b \<in> set all" "set ins \<subseteq> set all" "b \<notin> set ins"
  proof -
    show "b \<in> set all" "set ins \<subseteq> set all" using set_mset_mono [OF sub] by auto
    have "count (mset all) b \<le> 1" using chained_distinct [OF all] by (simp add: distinct_count_atmost_1)
    moreover have "Suc (count (mset ins) b) \<le> count (mset all) b"
      using mset_subset_eq_count [OF sub, of b] by simp
    ultimately have "count (mset ins) b = 0" by linarith
    then show "b \<notin> set ins" by (simp add: count_mset_0_iff)
  qed
  note state = oeq_run_state [OF all run b(2)]
  have "map_of (oeqi_map q) (get_first_id e b) = None"
  proof (rule ccontr)
    assume "map_of (oeqi_map q) (get_first_id e b) \<noteq> None"
    then obtain y where y: "map_of (oeqi_map q) (get_first_id e b) = Some y" by blast
    then have "y \<in> set ins" "get_first_id e y = get_first_id e b"
      using state(1,2) by (auto simp: oeq_inv_def simp del: map_of_eq_Some_iff dest!: map_of_SomeD) force
    with b chained_unique [OF all] show False by auto
  qed
  with running have "OrderedElementQueue_enqueue e q b = (Inr (), q\<lparr>oeqi_map := oeqi_map q @ [(get_first_id e b, b)]\<rparr>)"
    by (simp add: oeq_enqueue_iff)
  with running queue_run.enqueue [OF run this] show ?thesis by auto
qed

definition ready :: "'a OrderedElementQueue \<Rightarrow> bool" where
  "ready q \<longleftrightarrow> map_of (oeqi_map q) (oeqi_first_id q) \<noteq> None"

lemma ordered_dequeue_ok:
  assumes all: "chained e 0 all m" "\<forall>x \<in> set all. well_ranged e x" "m < 2 ^ 64"
    and run: "oeq_run e (OrderedElementQueue_new name) ins outs q" and running: "oeqi_state q = Running"
    and sub: "mset ins \<subseteq># mset all" and deq: "OrderedElementQueue_dequeue e q = (r, q')"
  shows "if ready q
    then length outs < length all \<and> all ! length outs \<in> set ins \<and> r = Inr (Some (all ! length outs)) \<and> oeqi_state q' = Running \<and>
      oeq_run e (OrderedElementQueue_new name) ins (outs @ [all ! length outs]) q' \<and>
      length (oeqi_map q) = length (oeqi_map q') + 1
    else r = Inl Blocked"
proof -
  have ins: "set ins \<subseteq> set all" using set_mset_mono [OF sub] by simp
  have r: "r = (if length outs < length all \<and> all ! length outs \<in> set ins
      then Inr (Some (all ! length outs)) else Inl Blocked)"
    using oeq_run_dequeue [OF all run ins running] deq by simp
  have ready: "ready q \<longleftrightarrow> length outs < length all \<and> all ! length outs \<in> set ins"
    using oeq_run_front [OF all(1,2) run ins] by (simp add: ready_def)
  show ?thesis
  proof (cases "length outs < length all \<and> all ! length outs \<in> set ins")
    case True
    with r deq have d: "OrderedElementQueue_dequeue e q = (Inr (Some (all ! length outs)), q')" by simp
    have "mset (map snd (oeqi_map q)) = add_mset (all ! length outs) (mset (map snd (oeqi_map q')))"
      using oeq.dequeue_contents [OF oeq_run_state(1) [OF all(1,2) run ins] d] .
    then have "length (oeqi_map q) = length (oeqi_map q') + 1"
      by (metis size_mset size_add_mset length_map Suc_eq_plus1)
    moreover have "oeqi_state q' = Running" using d by (auto simp: oeq_dequeue_iff)
    ultimately show ?thesis using True r ready queue_run.dequeue [OF run d] by simp
  next
    case False
    with r ready show ?thesis by simp
  qed
qed

section \<open>The invariant\<close>

definition held :: "'a option list \<Rightarrow> 'a list" where
  "held ts = concat (map list_of_option ts)"

lemma held_update:
  assumes "i < length ts"
  shows "ts ! i = None \<Longrightarrow> mset (held (ts[i := Some a])) = add_mset a (mset (held ts))"
    "ts ! i = Some a \<Longrightarrow> add_mset a (mset (held (ts[i := None]))) = mset (held ts)"
proof -
  have "(ts ! i = None \<longrightarrow> mset (held (ts[i := Some a])) = add_mset a (mset (held ts))) \<and>
      (ts ! i = Some a \<longrightarrow> add_mset a (mset (held (ts[i := None]))) = mset (held ts))"
    using assms
  proof (induction ts arbitrary: i)
    case (Cons t ts)
    then show ?case by (cases i) (auto simp: held_def)
  qed simp
  then show "ts ! i = None \<Longrightarrow> mset (held (ts[i := Some a])) = add_mset a (mset (held ts))"
    "ts ! i = Some a \<Longrightarrow> add_mset a (mset (held (ts[i := None]))) = mset (held ts)" by auto
qed

definition built :: "scene \<Rightarrow> CommandInfo \<Rightarrow> CommandBatchInfo" where
  "built sc info = sc_batches sc ! ci_id info"

definition commands_read :: "scene \<Rightarrow> mp_state \<Rightarrow> nat" where
  "commands_read sc s = (case mp_reader s of None \<Rightarrow> length (sc_batches sc) | Some (i, off) \<Rightarrow> i)"

definition front_inv :: "scene \<Rightarrow> CommandBatchInfo list \<Rightarrow> mp_state \<Rightarrow> bool" where
  "front_inv sc ins s \<longleftrightarrow>
     (case mp_reader s of None \<Rightarrow> True | Some (i, off) \<Rightarrow> i < length (sc_batches sc) \<and> off = sc_addr sc i) \<and>
     mp_constructors s \<noteq> [] \<and> uoeqi_state (sc_command_construction_queue s) = Running \<and>
     set (held (mp_constructors s)) \<union> set (uoeqi_queue (sc_command_construction_queue s)) \<subseteq> set (sc_infos sc) \<and>
     mset ins + (mset (map (built sc) (held (mp_constructors s))) +
       mset (map (built sc) (uoeqi_queue (sc_command_construction_queue s)))) =
       mset (take (commands_read sc s) (sc_batches sc))"

fun batcher_at :: "ctx \<Rightarrow> CommandBatchInfo list \<Rightarrow> nat \<Rightarrow> batcher \<Rightarrow> dispatch list \<Rightarrow> bool" where
  "batcher_at wc bs m (Batcher_next prev) G \<longleftrightarrow>
     m < length bs \<and> BatcherWorker_run wc None (take m bs) = Inr (G, prev, False)"
| "batcher_at wc bs m (Batcher_try prev cur) G \<longleftrightarrow>
     (\<exists>n < length bs. m = n + 1 \<and> BatcherWorker_run wc None (take n bs) = Inr (G, prev, False) \<and> cur = bs ! n)"
| "batcher_at wc bs m (Batcher_go_on rest) G \<longleftrightarrow>
     (\<exists>n < length bs. \<exists>G0 prev disp. m = n + 1 \<and> BatcherWorker_run wc None (take n bs) = Inr (G0, prev, False) \<and>
        BatcherWorker_append wc prev (bs ! n) = Inr (Go_on disp rest) \<and>
        G = G0 @ map To_compression (list_of_option disp))"
| "batcher_at wc bs m Batcher_done G \<longleftrightarrow>
     m = length bs \<and> (\<exists>prev. BatcherWorker_run wc None bs = Inr (G, prev, True))"

definition back_inv :: "externs \<Rightarrow> ctx \<Rightarrow> scene \<Rightarrow> dispatch list \<Rightarrow> CommandBatchInfo list \<Rightarrow> mp_state \<Rightarrow> bool" where
  "back_inv x wc sc G ins s \<longleftrightarrow>
     mp_compressors s \<noteq> [] \<and> uoeqi_state (sc_compression_queue s) = Running \<and>
     To_compression ` (set (held (mp_compressors s)) \<union> set (uoeqi_queue (sc_compression_queue s))) \<subseteq>
       set (sc_dispatched sc) \<and>
     mset ins + (mset (map (final_batch x wc \<circ> To_compression) (held (mp_compressors s))) +
       mset (map (final_batch x wc \<circ> To_compression) (uoeqi_queue (sc_compression_queue s)))) =
       mset (map (final_batch x wc) G)"

definition writer_inv :: "externs \<Rightarrow> ctx \<Rightarrow> scene \<Rightarrow> ctx \<Rightarrow> nat \<Rightarrow> writer \<Rightarrow> bool" where
  "writer_inv x wc sc c0 n w \<longleftrightarrow>
     (case w of Writing c \<Rightarrow> n < length (sc_writes sc) | Written c \<Rightarrow> n = length (sc_writes sc)) \<and>
     (\<exists>out. emit_all x (ssuc_options wc) (get_write_offset c0) (take n (sc_writes sc)) = Inr out \<and>
        emits c0 (enc_commands x SendVersion2 out) (case w of Writing c \<Rightarrow> c | Written c \<Rightarrow> c))"

definition mp_inv :: "externs \<Rightarrow> ctx \<Rightarrow> scene \<Rightarrow> ctx \<Rightarrow> mp_state \<Rightarrow> bool" where
  "mp_inv x wc sc c0 s \<longleftrightarrow>
     (\<exists>ins outs G ins' outs'. front_inv sc ins s \<and> batch_run ins outs (sc_batcher_queue s) \<and>
        batcher_at wc (sc_batches sc) (length outs) (mp_batcher s) G \<and> back_inv x wc sc G ins' s \<and>
        batch_run ins' outs' (sc_persistence_queue s) \<and> writer_inv x wc sc c0 (length outs') (mp_writer s)) \<and>
     mp_failure s = None"

text \<open>The work that is left, which every step lowers.\<close>

definition batcher_work :: "batcher \<Rightarrow> nat" where
  "batcher_work b = (case b of Batcher_try _ _ \<Rightarrow> 6 | Batcher_go_on _ \<Rightarrow> 2 | _ \<Rightarrow> 0)"

definition mp_work :: "scene \<Rightarrow> mp_state \<Rightarrow> nat" where
  "mp_work sc s =
     10 * (length (sc_batches sc) - commands_read sc s) + 9 * length (uoeqi_queue (sc_command_construction_queue s)) +
     8 * length (held (mp_constructors s)) + 7 * length (oeqi_map (sc_batcher_queue s)) +
     batcher_work (mp_batcher s) + 3 * length (uoeqi_queue (sc_compression_queue s)) +
     2 * length (held (mp_compressors s)) + length (oeqi_map (sc_persistence_queue s))"

lemma held_length:
  assumes "i < length ts"
  shows "ts ! i = None \<Longrightarrow> length (held (ts[i := Some a])) = length (held ts) + 1"
    "ts ! i = Some a \<Longrightarrow> length (held (ts[i := None])) + 1 = length (held ts)"
  using arg_cong [OF held_update(1) [OF assms, of a], of size] arg_cong [OF held_update(2) [OF assms, of a], of size]
  by simp_all

text \<open>A step that goes well, and that the thread can take when it \<open>must\<close>.\<close>

definition good_step :: "externs \<Rightarrow> ctx \<Rightarrow> scene \<Rightarrow> ctx \<Rightarrow> mp_state \<Rightarrow> bool \<Rightarrow> mp_state result \<Rightarrow> bool" where
  "good_step x wc sc c0 s must r =
     (case r of
        Inr s' \<Rightarrow> mp_inv x wc sc c0 s' \<and> mp_work sc s' < mp_work sc s
      | Inl e \<Rightarrow> e = Blocked \<and> \<not> must)"

lemma good_stepI: "mp_inv x wc sc c0 s' \<Longrightarrow> mp_work sc s' < mp_work sc s \<Longrightarrow> good_step x wc sc c0 s must (Inr s')"
  and good_step_Blocked [simp]: "good_step x wc sc c0 s must (Inl Blocked) \<longleftrightarrow> \<not> must"
  by (simp_all add: good_step_def)

lemma mp_invE:
  assumes "mp_inv x wc sc c0 s"
  obtains ins outs G ins' outs' where "front_inv sc ins s" "batch_run ins outs (sc_batcher_queue s)"
    "batcher_at wc (sc_batches sc) (length outs) (mp_batcher s) G" "back_inv x wc sc G ins' s"
    "batch_run ins' outs' (sc_persistence_queue s)" "writer_inv x wc sc c0 (length outs') (mp_writer s)"
    "mp_failure s = None"
  using assms unfolding mp_inv_def by blast

lemma mp_invI:
  assumes "front_inv sc ins s" "batch_run ins outs (sc_batcher_queue s)"
    "batcher_at wc (sc_batches sc) (length outs) (mp_batcher s) G" "back_inv x wc sc G ins' s"
    "batch_run ins' outs' (sc_persistence_queue s)" "writer_inv x wc sc c0 (length outs') (mp_writer s)"
    "mp_failure s = None"
  shows "mp_inv x wc sc c0 s"
  using assms unfolding mp_inv_def by blast

lemma reader_step_good:
  assumes "reads_ok x wc B sc" and "mp_inv x wc sc c0 s"
  shows "good_step x wc sc c0 s (mp_reader s \<noteq> None) (reader_step wc B s)"
proof (cases "mp_reader s")
  case None
  then show ?thesis by (simp add: reader_step_def)
next
  case (Some p)
  obtain i off where p: "p = (i, off)" by (cases p)
  obtain ins outs G ins' outs' where inv: "front_inv sc ins s" "batch_run ins outs (sc_batcher_queue s)"
    "batcher_at wc (sc_batches sc) (length outs) (mp_batcher s) G" "back_inv x wc sc G ins' s"
    "batch_run ins' outs' (sc_persistence_queue s)" "writer_inv x wc sc c0 (length outs') (mp_writer s)"
    "mp_failure s = None"
    using assms(2) by (rule mp_invE)
  let ?q = "sc_command_construction_queue s" and ?N = "length (sc_batches sc)"
  let ?q' = "?q\<lparr>uoeqi_queue := uoeqi_queue ?q @ [sc_infos sc ! i]\<rparr>"
  have i: "i < ?N" "off = sc_addr sc i" and run: "uoeqi_state ?q = Running"
    using inv(1) Some p by (simp_all add: front_inv_def)
  obtain n c1 c2 where read: "ReadWorker_next (mp_context wc B off) i = Inr (sc_infos sc ! i, i + 1 = ?N, n, c1)"
    "ReadWorker_skip c1 n i = Inr (i + 1, c2)" "get_read_offset c2 = sc_addr sc (i + 1)"
    and id: "ci_id (sc_infos sc ! i) = i" and mem: "sc_infos sc ! i \<in> set (sc_infos sc)"
    using assms(1) i by (auto simp: reads_ok_def)
  have enq: "UnorderedElementQueue_enqueue ?q (sc_infos sc ! i) = (Inr (), ?q')"
    using run by (simp add: uoeq_enqueue_iff)
  let ?s = "s\<lparr>mp_reader := (if i + 1 = ?N then None else Some (i + 1, sc_addr sc (i + 1))),
      sc_command_construction_queue := ?q'\<rparr>"
  have step: "reader_step wc B s = Inr ?s"
    using Some p read enq by (simp add: reader_step_def shared_def)
  have count: "commands_read sc ?s = i + 1" "commands_read sc s = i"
    using Some p by (simp_all add: commands_read_def)
  have "front_inv sc ins ?s"
    using inv(1) i count mem Some p take_Suc_conv_app_nth [OF i(1)]
    by (auto simp: front_inv_def built_def id)
  then have "mp_inv x wc sc c0 ?s"
    using inv by (intro mp_invI [of sc ins ?s outs wc G x ins' outs']) (simp_all add: back_inv_def)
  moreover have "mp_work sc ?s < mp_work sc s" using count i by (simp add: mp_work_def)
  ultimately show ?thesis unfolding step by (rule good_stepI)
qed

lemma consecutive_chained:
  assumes "\<forall>i < length bs. batch_ids (bs ! i) = (n + i, n + i, False)"
  shows "chained CommandBatchInfo_ordered n bs (n + length bs)"
proof -
  have "chained ids_ordered n (map batch_ids bs) (n + length bs)"
    using assms
  proof (induction bs arbitrary: n)
    case (Cons b bs)
    from Cons.prems have "batch_ids b = (n, n, False)" by force
    moreover have "\<forall>i < length bs. batch_ids (bs ! i) = (n + 1 + i, n + 1 + i, False)"
      using Cons.prems by force
    ultimately show ?case using Cons.IH [of "n + 1"] by simp
  qed simp
  then show ?thesis by (simp add: ids_of_batches)
qed

lemma batches_chained:
  assumes "reads_ok x wc B sc"
  shows "chained CommandBatchInfo_ordered 0 (sc_batches sc) (length (sc_batches sc))"
    "\<forall>b \<in> set (sc_batches sc). well_ranged CommandBatchInfo_ordered b"
proof -
  have ids: "\<forall>i < length (sc_batches sc). batch_ids (sc_batches sc ! i) = (i, i, False)"
    using assms by (simp add: reads_ok_def)
  then show "chained CommandBatchInfo_ordered 0 (sc_batches sc) (length (sc_batches sc))"
    using consecutive_chained [of "sc_batches sc" 0] by simp
  show "\<forall>b \<in> set (sc_batches sc). well_ranged CommandBatchInfo_ordered b"
    using ids by (auto simp: ids_of_batches in_set_conv_nth)
qed

lemma front_sub:
  assumes "front_inv sc ins s"
  shows "mset ins + mset (map (built sc) (held (mp_constructors s))) \<subseteq># mset (sc_batches sc)"
proof -
  have "mset ins + mset (map (built sc) (held (mp_constructors s))) \<subseteq># mset (take (commands_read sc s) (sc_batches sc))"
  proof -
    have "mset ins + mset (map (built sc) (held (mp_constructors s))) +
        mset (map (built sc) (uoeqi_queue (sc_command_construction_queue s))) =
        mset (take (commands_read sc s) (sc_batches sc))"
      using assms by (simp add: front_inv_def add.assoc)
    then show ?thesis by (metis mset_subset_eq_add_left)
  qed
  also have "mset (take (commands_read sc s) (sc_batches sc)) \<subseteq># mset (sc_batches sc)"
    by (metis append_take_drop_id mset_append mset_subset_eq_add_left)
  finally show ?thesis .
qed

lemma constructor_take_good:
  assumes "mp_inv x wc sc c0 s" and i: "i < length (mp_constructors s)" "mp_constructors s ! i = None"
  shows "good_step x wc sc c0 s (uoeqi_queue (sc_command_construction_queue s) \<noteq> []) (constructor_step x wc B i s)"
proof -
  obtain ins outs G ins' outs' where inv: "front_inv sc ins s" "batch_run ins outs (sc_batcher_queue s)"
    "batcher_at wc (sc_batches sc) (length outs) (mp_batcher s) G" "back_inv x wc sc G ins' s"
    "batch_run ins' outs' (sc_persistence_queue s)" "writer_inv x wc sc c0 (length outs') (mp_writer s)"
    "mp_failure s = None"
    using assms(1) by (rule mp_invE)
  let ?q = "sc_command_construction_queue s"
  have run: "uoeqi_state ?q = Running" using inv(1) by (simp add: front_inv_def)
  show ?thesis
  proof (cases "uoeqi_queue ?q")
    case Nil
    with run have "UnorderedElementQueue_dequeue ?q = (Inl Blocked, ?q)" by (simp add: uoeq_dequeue_iff)
    with i Nil show ?thesis by (simp add: constructor_step_def shared_def)
  next
    case (Cons info rest)
    let ?s = "s\<lparr>mp_constructors := (mp_constructors s)[i := Some info],
        sc_command_construction_queue := ?q\<lparr>uoeqi_queue := rest\<rparr>\<rparr>"
    have "UnorderedElementQueue_dequeue ?q = (Inr (Some info), ?q\<lparr>uoeqi_queue := rest\<rparr>)"
      using run Cons by (simp add: uoeq_dequeue_iff)
    with i have step: "constructor_step x wc B i s = Inr ?s" by (simp add: constructor_step_def shared_def)
    have held: "mset (held (mp_constructors ?s)) = add_mset info (mset (held (mp_constructors s)))"
      using held_update(1) [OF i] by simp
    have "front_inv sc ins ?s"
      using inv(1) Cons arg_cong [OF held, of set_mset] arg_cong [OF held, of "image_mset (built sc)"]
      by (simp add: front_inv_def commands_read_def)
    then have "mp_inv x wc sc c0 ?s"
      using inv by (intro mp_invI [of sc ins ?s outs wc G x ins' outs']) (simp_all add: back_inv_def)
    moreover have "mp_work sc ?s < mp_work sc s"
      using held_length(1) [OF i, of info] Cons by (simp add: mp_work_def commands_read_def)
    ultimately show ?thesis unfolding step by (rule good_stepI)
  qed
qed

lemma constructor_build_good:
  assumes reads: "reads_ok x wc B sc" and "mp_inv x wc sc c0 s"
    and i: "i < length (mp_constructors s)" "mp_constructors s ! i = Some info"
  shows "good_step x wc sc c0 s True (constructor_step x wc B i s)"
proof -
  obtain ins outs G ins' outs' where inv: "front_inv sc ins s" "batch_run ins outs (sc_batcher_queue s)"
    "batcher_at wc (sc_batches sc) (length outs) (mp_batcher s) G" "back_inv x wc sc G ins' s"
    "batch_run ins' outs' (sc_persistence_queue s)" "writer_inv x wc sc c0 (length outs') (mp_writer s)"
    "mp_failure s = None"
    using assms(2) by (rule mp_invE)
  have held: "mset (held (mp_constructors s)) = add_mset info (mset (held ((mp_constructors s)[i := None])))"
    using held_update(2) [OF i] by simp
  have "info \<in> set (sc_infos sc)"
    using inv(1) arg_cong [OF held, of set_mset] by (auto simp: front_inv_def)
  then obtain c where build: "CommandConstructionWorker_build x (mp_context wc B 0) info = Inr (built sc info, c)"
    using reads by (auto simp: reads_ok_def built_def in_set_conv_nth)
  obtain name where run: "oeq_run CommandBatchInfo_ordered (OrderedElementQueue_new name) ins outs (sc_batcher_queue s)"
    "oeqi_state (sc_batcher_queue s) = Running" using inv(2) by blast
  have "add_mset (built sc info) (mset ins) \<subseteq># mset (sc_batches sc)"
    using front_sub [OF inv(1)] arg_cong [OF held, of "image_mset (built sc)"]
    by (simp add: subset_mset.order_trans [rotated])
  from ordered_enqueue_ok [OF batches_chained [OF reads] run this] obtain q' where
    q': "OrderedElementQueue_enqueue CommandBatchInfo_ordered (sc_batcher_queue s) (built sc info) = (Inr (), q')"
    "oeqi_state q' = Running" "oeq_run CommandBatchInfo_ordered (OrderedElementQueue_new name) (ins @ [built sc info]) outs q'"
    "length (oeqi_map q') = length (oeqi_map (sc_batcher_queue s)) + 1" by auto
  let ?s = "s\<lparr>mp_constructors := (mp_constructors s)[i := None], sc_batcher_queue := q'\<rparr>"
  have step: "constructor_step x wc B i s = Inr ?s"
    using i build q'(1) by (simp add: constructor_step_def shared_def)
  have "front_inv sc (ins @ [built sc info]) ?s"
    using inv(1) arg_cong [OF held, of set_mset] arg_cong [OF held, of "image_mset (built sc)"]
    by (simp add: front_inv_def commands_read_def)
  then have "mp_inv x wc sc c0 ?s"
    using inv q' by (intro mp_invI [of sc "ins @ [built sc info]" ?s outs wc G x ins' outs'])
      (auto simp: back_inv_def)
  moreover have "mp_work sc ?s < mp_work sc s"
    using held_length(2) [OF i] q'(4) by (simp add: mp_work_def commands_read_def)
  ultimately show ?thesis unfolding step by (rule good_stepI)
qed

section \<open>The batcher\<close>

lemma BatcherWorker_run_append:
  "BatcherWorker_run c prev (bs @ bs') =
     rbind (BatcherWorker_run c prev bs) (\<lambda>(out, prev, is_end).
     if is_end then Inr (out, prev, True)
     else rbind (BatcherWorker_run c prev bs') (\<lambda>(outs, prev, is_end). Inr (out @ outs, prev, is_end)))"
proof (induction bs arbitrary: prev)
  case Nil
  then show ?case by (cases "BatcherWorker_run c prev bs'") auto
next
  case (Cons b bs)
  show ?case
  proof (cases "BatcherWorker_turn c prev b")
    case (Inr r)
    obtain out prev' e where r: "r = (out, prev', e)" by (cases r)
    show ?thesis
    proof (cases "e \<or> (\<exists>err. BatcherWorker_run c prev' bs = Inl err)")
      case True
      with Inr r Cons.IH [of prev'] show ?thesis by auto
    next
      case False
      then obtain out' prev'' e' where "BatcherWorker_run c prev' bs = Inr (out', prev'', e')"
        by (cases "BatcherWorker_run c prev' bs") auto
      with False Inr r Cons.IH [of prev'] show ?thesis
        by (cases "BatcherWorker_run c prev'' bs'") auto
    qed
  qed simp
qed

lemma batcher_prefix:
  assumes "batches_ok wc sc" and "BatcherWorker_run wc None (take n (sc_batches sc)) = Inr (G, prev, e)"
  obtains H where "sc_dispatched sc = G @ H"
proof -
  let ?bs = "sc_batches sc"
  obtain p where "BatcherWorker_run wc None (take n ?bs @ drop n ?bs) = Inr (sc_dispatched sc, p, True)"
    using assms(1) by (auto simp: batches_ok_def)
  with assms(2) have "\<exists>H. sc_dispatched sc = G @ H"
    by (auto simp: BatcherWorker_run_append result_simps simp del: append_take_drop_id split: if_splits) metis
  with that show thesis by blast
qed

text \<open>The turn on the batch with number \<open>n\<close>.\<close>

lemma batcher_turn:
  assumes ok: "batches_ok wc sc" and n: "n < length (sc_batches sc)"
    and run: "BatcherWorker_run wc None (take n (sc_batches sc)) = Inr (G, prev, False)"
  obtains out prev' where
    "BatcherWorker_turn wc prev (sc_batches sc ! n) = Inr (out, prev', n + 1 = length (sc_batches sc))"
    "BatcherWorker_run wc None (take (n + 1) (sc_batches sc)) = Inr (G @ out, prev', n + 1 = length (sc_batches sc))"
    "\<exists>H. sc_dispatched sc = G @ out @ H"
proof -
  let ?bs = "sc_batches sc"
  have "\<exists>G' prev'. BatcherWorker_run wc None (take (n + 1) ?bs) = Inr (G', prev', n + 1 = length ?bs)"
  proof (cases "n + 1 = length ?bs")
    case True
    with ok show ?thesis by (auto simp: batches_ok_def)
  next
    case False
    with ok n show ?thesis by (simp add: batches_ok_def)
  qed
  then obtain G' prev' where next_run: "BatcherWorker_run wc None (take (n + 1) ?bs) = Inr (G', prev', n + 1 = length ?bs)"
    by blast
  moreover have "take (n + 1) ?bs = take n ?bs @ [?bs ! n]" using take_Suc_conv_app_nth [OF n] by simp
  ultimately obtain out where out: "BatcherWorker_turn wc prev (?bs ! n) = Inr (out, prev', n + 1 = length ?bs)"
    "G' = G @ out"
    using run by (auto simp: BatcherWorker_run_append result_simps split: if_splits)
  obtain H where "sc_dispatched sc = G' @ H" using ok next_run by (rule batcher_prefix)
  with next_run out show thesis by (intro that [of out prev']) auto
qed

lemma batcher_next_good:
  assumes reads: "reads_ok x wc B sc" and ok: "batches_ok wc sc" and "mp_inv x wc sc c0 s"
    and b: "mp_batcher s = Batcher_next prev"
  shows "good_step x wc sc c0 s (ready (sc_batcher_queue s)) (batcher_step wc s)"
proof -
  obtain ins outs G ins' outs' where inv: "front_inv sc ins s" "batch_run ins outs (sc_batcher_queue s)"
    "batcher_at wc (sc_batches sc) (length outs) (mp_batcher s) G" "back_inv x wc sc G ins' s"
    "batch_run ins' outs' (sc_persistence_queue s)" "writer_inv x wc sc c0 (length outs') (mp_writer s)"
    "mp_failure s = None"
    using assms(3) by (rule mp_invE)
  obtain name where run: "oeq_run CommandBatchInfo_ordered (OrderedElementQueue_new name) ins outs (sc_batcher_queue s)"
    "oeqi_state (sc_batcher_queue s) = Running" using inv(2) by blast
  obtain r q' where deq: "OrderedElementQueue_dequeue CommandBatchInfo_ordered (sc_batcher_queue s) = (r, q')"
    by fastforce
  have sub: "mset ins \<subseteq># mset (sc_batches sc)"
    using front_sub [OF inv(1)] by (metis mset_subset_eq_add_left subset_mset.order_trans)
  have N: "length (sc_batches sc) < 2 ^ 64" using ok by (simp add: batches_ok_def)
  note d = ordered_dequeue_ok [OF batches_chained [OF reads] N run sub deq]
  let ?m = "length outs"
  show ?thesis
  proof (cases "ready (sc_batcher_queue s)")
    case False
    with d deq b show ?thesis by (simp add: batcher_step_def shared_def)
  next
    case True
    let ?s = "s\<lparr>mp_batcher := Batcher_try prev (sc_batches sc ! ?m), sc_batcher_queue := q'\<rparr>"
    have step: "batcher_step wc s = Inr ?s" using True d deq b by (simp add: batcher_step_def shared_def)
    have "batcher_at wc (sc_batches sc) (length (outs @ [sc_batches sc ! ?m])) (mp_batcher ?s) G"
      using inv(3) b by auto
    moreover have "front_inv sc ins ?s" "back_inv x wc sc G ins' ?s"
      using inv by (simp_all add: front_inv_def back_inv_def commands_read_def)
    ultimately have "mp_inv x wc sc c0 ?s"
      using inv True d by (intro mp_invI [of sc ins ?s "outs @ [sc_batches sc ! ?m]" wc G x ins' outs']) auto
    moreover have "mp_work sc ?s < mp_work sc s"
      using True d b by (simp add: mp_work_def commands_read_def batcher_work_def)
    ultimately show ?thesis unfolding step by (rule good_stepI)
  qed
qed

lemma batcher_try_good:
  assumes ok: "batches_ok wc sc" and "mp_inv x wc sc c0 s" and b: "mp_batcher s = Batcher_try prev cur"
  shows "good_step x wc sc c0 s True (batcher_step wc s)"
proof -
  obtain ins outs G ins' outs' where inv: "front_inv sc ins s" "batch_run ins outs (sc_batcher_queue s)"
    "batcher_at wc (sc_batches sc) (length outs) (mp_batcher s) G" "back_inv x wc sc G ins' s"
    "batch_run ins' outs' (sc_persistence_queue s)" "writer_inv x wc sc c0 (length outs') (mp_writer s)"
    "mp_failure s = None"
    using assms(2) by (rule mp_invE)
  let ?bs = "sc_batches sc" and ?q = "sc_compression_queue s"
  obtain n where n: "n < length ?bs" "length outs = n + 1" "cur = ?bs ! n"
    "BatcherWorker_run wc None (take n ?bs) = Inr (G, prev, False)" using inv(3) b by auto
  obtain out prev' where turn: "BatcherWorker_turn wc prev cur = Inr (out, prev', n + 1 = length ?bs)"
    "BatcherWorker_run wc None (take (n + 1) ?bs) = Inr (G @ out, prev', n + 1 = length ?bs)"
    "\<exists>H. sc_dispatched sc = G @ out @ H"
    using batcher_turn [OF ok n(1,4)] n(3) by metis
  obtain oc where oc: "BatcherWorker_append wc prev cur = Inr oc"
    using turn(1) by (auto simp: BatcherWorker_turn_def result_simps)
  have run: "uoeqi_state ?q = Running" using inv(4) by (simp add: back_inv_def)
  have keep: "front_inv sc ins (s\<lparr>mp_batcher := bt, sc_compression_queue := q\<rparr>)" for bt q
    using inv(1) by (simp add: front_inv_def commands_read_def)
  show ?thesis
  proof (cases oc)
    case (Keep_waiting r)
    with turn oc have "out = []" "prev' = Some r" "n + 1 \<noteq> length ?bs" by (auto simp: BatcherWorker_turn_def)
    with n turn have "batcher_at wc ?bs (length outs) (Batcher_next (Some r)) G" by simp
    then have "mp_inv x wc sc c0 (s\<lparr>mp_batcher := Batcher_next (Some r)\<rparr>)"
      using inv keep [of ?q "Batcher_next (Some r)"]
      by (intro mp_invI [of sc ins _ outs wc G x ins' outs']) (auto simp: back_inv_def)
    with b oc Keep_waiting show ?thesis
      by (simp add: batcher_step_def good_step_def mp_work_def batcher_work_def commands_read_def)
  next
    case (Go_on disp r)
    let ?G = "G @ map To_compression (list_of_option disp)"
    let ?s = "s\<lparr>mp_batcher := Batcher_go_on r,
        sc_compression_queue := ?q\<lparr>uoeqi_queue := uoeqi_queue ?q @ list_of_option disp\<rparr>\<rparr>"
    have step: "batcher_step wc s = Inr ?s"
      using b oc Go_on run
      by (cases disp) (simp_all add: batcher_step_def shared_def UnorderedElementQueue_enqueue_def)
    have "\<exists>H. sc_dispatched sc = ?G @ H"
      using turn oc Go_on by (auto simp: BatcherWorker_turn_def result_simps)
    then have "back_inv x wc sc ?G ins' ?s"
      using inv(4) by (auto simp: back_inv_def)
    moreover have "batcher_at wc ?bs (length outs) (mp_batcher ?s) ?G"
      using n oc Go_on by auto
    ultimately have "mp_inv x wc sc c0 ?s"
      using inv keep by (intro mp_invI [of sc ins ?s outs wc ?G x ins' outs']) auto
    moreover have "mp_work sc ?s < mp_work sc s"
      using b by (cases disp) (simp_all add: mp_work_def commands_read_def batcher_work_def)
    ultimately show ?thesis unfolding step by (rule good_stepI)
  qed
qed

lemma back_sub:
  assumes "back_inv x wc sc G ins s" and "sc_dispatched sc = G @ H"
  shows "mset ins \<subseteq># mset (final_batches x wc sc)"
    "b \<in> set H \<Longrightarrow> add_mset (final_batch x wc b) (mset ins) \<subseteq># mset (final_batches x wc sc)"
    "i < length (mp_compressors s) \<Longrightarrow> mp_compressors s ! i = Some d \<Longrightarrow>
       add_mset (final_batch x wc (To_compression d)) (mset ins) \<subseteq># mset (final_batches x wc sc)"
proof -
  let ?f = "final_batch x wc"
  have all: "mset (final_batches x wc sc) = mset (map ?f G) + mset (map ?f H)" using assms(2) by simp
  have le: "mset ins + mset (map (?f \<circ> To_compression) (held (mp_compressors s))) \<subseteq># mset (map ?f G)"
    using assms(1) by (metis back_inv_def add.assoc mset_subset_eq_add_left)
  then have ins: "mset ins \<subseteq># mset (map ?f G)"
    by (metis mset_subset_eq_add_left subset_mset.order_trans)
  then show "mset ins \<subseteq># mset (final_batches x wc sc)"
    unfolding all by (metis mset_subset_eq_add_left subset_mset.order_trans)
  show "add_mset (?f b) (mset ins) \<subseteq># mset (final_batches x wc sc)" if "b \<in> set H"
  proof -
    have "{#?f b#} \<subseteq># mset (map ?f H)" using that by simp
    with ins have "mset ins + {#?f b#} \<subseteq># mset (map ?f G) + mset (map ?f H)" by (rule subset_mset.add_mono)
    then show ?thesis unfolding all by simp
  qed
  show "add_mset (?f (To_compression d)) (mset ins) \<subseteq># mset (final_batches x wc sc)"
    if i: "i < length (mp_compressors s)" "mp_compressors s ! i = Some d"
  proof -
    have "mset (map (?f \<circ> To_compression) (held (mp_compressors s))) =
        add_mset (?f (To_compression d)) (mset (map (?f \<circ> To_compression) (held ((mp_compressors s)[i := None]))))"
      using arg_cong [OF held_update(2) [OF i], of "image_mset (?f \<circ> To_compression)"] by simp
    with le have "add_mset (?f (To_compression d)) (mset ins) +
        mset (map (?f \<circ> To_compression) (held ((mp_compressors s)[i := None]))) \<subseteq># mset (map ?f G)"
      by (simp only: union_mset_add_mset_left union_mset_add_mset_right)
    then have "add_mset (?f (To_compression d)) (mset ins) \<subseteq># mset (map ?f G)"
      by (rule subset_mset.order_trans [OF mset_subset_eq_add_left])
    then show ?thesis unfolding all by (metis mset_subset_eq_add_left subset_mset.order_trans)
  qed
qed

lemma batcher_go_on_good:
  assumes ok: "batches_ok wc sc" and wr: "writes_ok x wc sc" and "mp_inv x wc sc c0 s"
    and b: "mp_batcher s = Batcher_go_on cur"
  shows "good_step x wc sc c0 s True (batcher_step wc s)"
proof -
  obtain ins outs G ins' outs' where inv: "front_inv sc ins s" "batch_run ins outs (sc_batcher_queue s)"
    "batcher_at wc (sc_batches sc) (length outs) (mp_batcher s) G" "back_inv x wc sc G ins' s"
    "batch_run ins' outs' (sc_persistence_queue s)" "writer_inv x wc sc c0 (length outs') (mp_writer s)"
    "mp_failure s = None"
    using assms(3) by (rule mp_invE)
  let ?bs = "sc_batches sc" and ?q = "sc_persistence_queue s"
  obtain n G0 prev disp where n: "n < length ?bs" "length outs = n + 1"
    "BatcherWorker_run wc None (take n ?bs) = Inr (G0, prev, False)"
    "BatcherWorker_append wc prev (?bs ! n) = Inr (Go_on disp cur)"
    "G = G0 @ map To_compression (list_of_option disp)" using inv(3) b by auto
  obtain out prev' where turn: "BatcherWorker_turn wc prev (?bs ! n) = Inr (out, prev', n + 1 = length ?bs)"
    "BatcherWorker_run wc None (take (n + 1) ?bs) = Inr (G0 @ out, prev', n + 1 = length ?bs)"
    "\<exists>H. sc_dispatched sc = G0 @ out @ H"
    using ok n(1,3) by (rule batcher_turn)
  obtain tp where rest: "BatcherWorker_rest cur = Inr (tp, prev', n + 1 = length ?bs)"
    "out = map To_compression (list_of_option disp) @ map To_persistence (list_of_option tp)"
    using turn(1) n(4) by (auto simp: BatcherWorker_turn_def result_simps)
  let ?G = "G @ map To_persistence (list_of_option tp)"
  obtain H where H: "sc_dispatched sc = G @ map To_persistence (list_of_option tp) @ H"
    using turn(3) n(5) rest(2) by auto
  let ?b = "if n + 1 = length ?bs then Batcher_done else Batcher_next prev'"
  have at: "batcher_at wc ?bs (length outs) ?b ?G"
    using turn(2) n rest(2) by (auto simp: append.assoc)
  obtain name where run: "oeq_run CommandBatchInfo_ordered (OrderedElementQueue_new name) ins' outs' ?q"
    "oeqi_state ?q = Running" using inv(5) by blast
  have keep: "front_inv sc ins (s\<lparr>mp_batcher := ?b, sc_persistence_queue := q\<rparr>)" for q
    using inv(1) by (simp add: front_inv_def commands_read_def)
  show ?thesis
  proof (cases tp)
    case None
    let ?s = "s\<lparr>mp_batcher := ?b\<rparr>"
    have "mp_inv x wc sc c0 ?s"
      using inv at None keep [of ?q]
      by (intro mp_invI [of sc ins ?s outs wc ?G x ins' outs']) (auto simp: back_inv_def)
    moreover have "batcher_step wc s = Inr ?s" using b rest(1) None by (simp add: batcher_step_def Let_def)
    moreover have "mp_work sc ?s < mp_work sc s"
      using b by (simp add: mp_work_def commands_read_def batcher_work_def)
    ultimately show ?thesis by (simp add: good_stepI)
  next
    case (Some d)
    have "add_mset d (mset ins') \<subseteq># mset (final_batches x wc sc)"
      using back_sub(2) [OF inv(4) H, of "To_persistence d"] Some by (simp add: final_batch_def)
    then obtain q' where q': "OrderedElementQueue_enqueue CommandBatchInfo_ordered ?q d = (Inr (), q')"
      "oeqi_state q' = Running" "oeq_run CommandBatchInfo_ordered (OrderedElementQueue_new name) (ins' @ [d]) outs' q'"
      "length (oeqi_map q') = length (oeqi_map ?q) + 1"
      using ordered_enqueue_ok [OF _ _ run] wr by (metis writes_ok_def)
    let ?s = "s\<lparr>mp_batcher := ?b, sc_persistence_queue := q'\<rparr>"
    have "back_inv x wc sc ?G (ins' @ [d]) ?s"
      using inv(4) Some by (simp add: back_inv_def final_batch_def)
    then have "mp_inv x wc sc c0 ?s"
      using inv at keep [of q'] q' by (intro mp_invI [of sc ins ?s outs wc ?G x "ins' @ [d]" outs']) auto
    moreover have "batcher_step wc s = Inr ?s"
      using b rest(1) Some q'(1) by (simp add: batcher_step_def Let_def shared_def)
    moreover have "mp_work sc ?s < mp_work sc s"
      using b q'(4) by (simp add: mp_work_def commands_read_def batcher_work_def)
    ultimately show ?thesis by (simp add: good_stepI)
  qed
qed

section \<open>The compressors and the writer\<close>

lemma compressor_take_good:
  assumes "mp_inv x wc sc c0 s" and i: "i < length (mp_compressors s)" "mp_compressors s ! i = None"
  shows "good_step x wc sc c0 s (uoeqi_queue (sc_compression_queue s) \<noteq> []) (compressor_step x wc i s)"
proof -
  obtain ins outs G ins' outs' where inv: "front_inv sc ins s" "batch_run ins outs (sc_batcher_queue s)"
    "batcher_at wc (sc_batches sc) (length outs) (mp_batcher s) G" "back_inv x wc sc G ins' s"
    "batch_run ins' outs' (sc_persistence_queue s)" "writer_inv x wc sc c0 (length outs') (mp_writer s)"
    "mp_failure s = None"
    using assms(1) by (rule mp_invE)
  let ?q = "sc_compression_queue s"
  have run: "uoeqi_state ?q = Running" using inv(4) by (simp add: back_inv_def)
  show ?thesis
  proof (cases "uoeqi_queue ?q")
    case Nil
    with run have "UnorderedElementQueue_dequeue ?q = (Inl Blocked, ?q)" by (simp add: uoeq_dequeue_iff)
    with i Nil show ?thesis by (simp add: compressor_step_def shared_def)
  next
    case (Cons b rest)
    let ?s = "s\<lparr>mp_compressors := (mp_compressors s)[i := Some b], sc_compression_queue := ?q\<lparr>uoeqi_queue := rest\<rparr>\<rparr>"
    have "UnorderedElementQueue_dequeue ?q = (Inr (Some b), ?q\<lparr>uoeqi_queue := rest\<rparr>)"
      using run Cons by (simp add: uoeq_dequeue_iff)
    with i have step: "compressor_step x wc i s = Inr ?s" by (simp add: compressor_step_def shared_def)
    have held: "mset (held (mp_compressors ?s)) = add_mset b (mset (held (mp_compressors s)))"
      using held_update(1) [OF i] by simp
    have "back_inv x wc sc G ins' ?s"
      using inv(4) Cons arg_cong [OF held, of set_mset]
        arg_cong [OF held, of "image_mset (final_batch x wc \<circ> To_compression)"]
      by (simp add: back_inv_def)
    then have "mp_inv x wc sc c0 ?s"
      using inv by (intro mp_invI [of sc ins ?s outs wc G x ins' outs']) (simp_all add: front_inv_def commands_read_def)
    moreover have "mp_work sc ?s < mp_work sc s"
      using held_length(1) [OF i, of b] Cons by (simp add: mp_work_def commands_read_def)
    ultimately show ?thesis unfolding step by (rule good_stepI)
  qed
qed

lemma batcher_at_prefix:
  assumes "batches_ok wc sc" and "batcher_at wc (sc_batches sc) m b G"
  obtains H where "sc_dispatched sc = G @ H"
proof -
  have pre: "BatcherWorker_run wc None (take n (sc_batches sc)) = Inr (G', prev, e) \<Longrightarrow>
      \<exists>H. sc_dispatched sc = G' @ H" for n G' prev e
    using batcher_prefix [OF assms(1)] by metis
  have "\<exists>H. sc_dispatched sc = G @ H"
  proof (cases b)
    case (Batcher_go_on cur)
    with assms(2) obtain n G0 prev disp where n: "n < length (sc_batches sc)"
      "BatcherWorker_run wc None (take n (sc_batches sc)) = Inr (G0, prev, False)"
      "BatcherWorker_append wc prev (sc_batches sc ! n) = Inr (Go_on disp cur)"
      "G = G0 @ map To_compression (list_of_option disp)" by auto
    obtain out prev' where "BatcherWorker_turn wc prev (sc_batches sc ! n) = Inr (out, prev', n + 1 = length (sc_batches sc))"
      "\<exists>H. sc_dispatched sc = G0 @ out @ H"
      using assms(1) n(1,2) by (rule batcher_turn)
    with n(3,4) show ?thesis by (auto simp: BatcherWorker_turn_def result_simps)
  next
    case Batcher_done
    with assms show ?thesis by (auto simp: batches_ok_def)
  qed (use assms(2) pre in \<open>auto simp del: append_take_drop_id\<close>)
  with that show thesis by blast
qed

lemma compressor_finish_good:
  assumes ok: "batches_ok wc sc" and wr: "writes_ok x wc sc" and "mp_inv x wc sc c0 s"
    and i: "i < length (mp_compressors s)" "mp_compressors s ! i = Some b"
  shows "good_step x wc sc c0 s True (compressor_step x wc i s)"
proof -
  obtain ins outs G ins' outs' where inv: "front_inv sc ins s" "batch_run ins outs (sc_batcher_queue s)"
    "batcher_at wc (sc_batches sc) (length outs) (mp_batcher s) G" "back_inv x wc sc G ins' s"
    "batch_run ins' outs' (sc_persistence_queue s)" "writer_inv x wc sc c0 (length outs') (mp_writer s)"
    "mp_failure s = None"
    using assms(3) by (rule mp_invE)
  let ?q = "sc_persistence_queue s" and ?d = "final_batch x wc (To_compression b)"
  have held: "mset (held (mp_compressors s)) = add_mset b (mset (held ((mp_compressors s)[i := None])))"
    using held_update(2) [OF i] by simp
  have "To_compression b \<in> set (sc_dispatched sc)"
    using inv(4) arg_cong [OF held, of set_mset] by (auto simp: back_inv_def)
  with wr have proc: "CompressionWorker_process x wc b = Inr ?d"
    by (auto simp: writes_ok_def final_batch_def)
  obtain name where run: "oeq_run CommandBatchInfo_ordered (OrderedElementQueue_new name) ins' outs' ?q"
    "oeqi_state ?q = Running" using inv(5) by blast
  obtain H where "sc_dispatched sc = G @ H" using ok inv(3) by (rule batcher_at_prefix)
  from back_sub(3) [OF inv(4) this i] obtain q' where
    q': "OrderedElementQueue_enqueue CommandBatchInfo_ordered ?q ?d = (Inr (), q')"
    "oeqi_state q' = Running" "oeq_run CommandBatchInfo_ordered (OrderedElementQueue_new name) (ins' @ [?d]) outs' q'"
    "length (oeqi_map q') = length (oeqi_map ?q) + 1"
    using ordered_enqueue_ok [OF _ _ run] wr by (metis writes_ok_def)
  let ?s = "s\<lparr>mp_compressors := (mp_compressors s)[i := None], sc_persistence_queue := q'\<rparr>"
  have step: "compressor_step x wc i s = Inr ?s"
    using i proc q'(1) by (simp add: compressor_step_def shared_def)
  have "back_inv x wc sc G (ins' @ [?d]) ?s"
    using inv(4) arg_cong [OF held, of set_mset] arg_cong [OF held, of "image_mset (final_batch x wc \<circ> To_compression)"]
    by (simp add: back_inv_def)
  then have "mp_inv x wc sc c0 ?s"
    using inv q' by (intro mp_invI [of sc ins ?s outs wc G x "ins' @ [?d]" outs'])
      (auto simp: front_inv_def commands_read_def)
  moreover have "mp_work sc ?s < mp_work sc s"
    using held_length(2) [OF i] q'(4) by (simp add: mp_work_def commands_read_def)
  ultimately show ?thesis unfolding step by (rule good_stepI)
qed

lemma writer_step_good:
  assumes ok: "batches_ok wc sc" and wr: "writes_ok x wc sc" and "mp_inv x wc sc c0 s"
    and opts: "ssuc_options c0 = ssuc_options wc" and w: "mp_writer s = Writing c"
  shows "good_step x wc sc c0 s (ready (sc_persistence_queue s)) (writer_step x s)"
proof -
  obtain ins outs G ins' outs' where inv: "front_inv sc ins s" "batch_run ins outs (sc_batcher_queue s)"
    "batcher_at wc (sc_batches sc) (length outs) (mp_batcher s) G" "back_inv x wc sc G ins' s"
    "batch_run ins' outs' (sc_persistence_queue s)" "writer_inv x wc sc c0 (length outs') (mp_writer s)"
    "mp_failure s = None"
    using assms(3) by (rule mp_invE)
  let ?q = "sc_persistence_queue s" and ?n = "length outs'" and ?ws = "sc_writes sc"
  obtain name where run: "oeq_run CommandBatchInfo_ordered (OrderedElementQueue_new name) ins' outs' ?q"
    "oeqi_state ?q = Running" using inv(5) by blast
  obtain H where H: "sc_dispatched sc = G @ H" using ok inv(3) by (rule batcher_at_prefix)
  obtain r q' where deq: "OrderedElementQueue_dequeue CommandBatchInfo_ordered ?q = (r, q')" by fastforce
  have all: "chained CommandBatchInfo_ordered 0 (final_batches x wc sc) (length (sc_batches sc))"
    "\<forall>b \<in> set (final_batches x wc sc). well_ranged CommandBatchInfo_ordered b" "length (sc_batches sc) < 2 ^ 64"
    using ok wr by (simp_all add: batches_ok_def writes_ok_def)
  note d = ordered_dequeue_ok [OF all run back_sub(1) [OF inv(4) H] deq]
  show ?thesis
  proof (cases "ready ?q")
    case False
    with d deq w show ?thesis by (simp add: writer_step_def shared_def)
  next
    case True
    let ?b = "final_batches x wc sc ! ?n" and ?w = "?ws ! ?n"
    have n: "?n < length (final_batches x wc sc)" using True d by simp
    have as: "writes_as x (ssuc_options wc) ?b ?w" and nw: "?n < length ?ws"
      using wr n by (auto simp: writes_ok_def list_all2_conv_all_nth)
    obtain out where out: "emit_all x (ssuc_options wc) (get_write_offset c0) (take ?n ?ws) = Inr out"
      "emits c0 (enc_commands x SendVersion2 out) c"
      using inv(6) w by (auto simp: writer_inv_def)
    have "sink c" "ssuc_options c = ssuc_options wc"
      "get_write_offset c = get_write_offset c0 + length (enc_commands x SendVersion2 out)"
      using out(2) opts by (simp_all add: emits_def)
    with as obtain out' c' where w': "emit x (ssuc_options wc) (get_write_offset c) ?w = Inr out'"
      "WriteWorker_process x c ?b = Inr (ac_type ?w = BTRFS_SEND_C_END, c')"
      "emits c (enc_commands x SendVersion2 out') c'" unfolding writes_as_def by blast
    have last: "ac_type ?w = BTRFS_SEND_C_END \<longleftrightarrow> ?n + 1 = length ?ws"
      using wr nw by (simp add: writes_ok_def)
    let ?wr = "if ?n + 1 = length ?ws then Written c' else Writing c'"
    let ?s = "s\<lparr>mp_writer := ?wr, sc_persistence_queue := q'\<rparr>"
    have step: "writer_step x s = Inr ?s"
      using True d deq w w'(2) last by (simp add: writer_step_def shared_def)
    have "emit_all x (ssuc_options wc) (get_write_offset c0) (take (?n + 1) ?ws) = Inr (out @ out')"
      using out(1) w'(1) take_Suc_conv_app_nth [OF nw] \<open>get_write_offset c = _\<close>
      by (simp add: emit_all_append)
    moreover have "emits c0 (enc_commands x SendVersion2 (out @ out')) c'"
      using emits_trans [OF out(2) w'(3)] by simp
    ultimately have "writer_inv x wc sc c0 (length (outs' @ [?b])) ?wr"
      using nw by (auto simp: writer_inv_def)
    moreover have "front_inv sc ins ?s" "back_inv x wc sc G ins' ?s"
      using inv by (simp_all add: front_inv_def back_inv_def commands_read_def)
    ultimately have "mp_inv x wc sc c0 ?s"
      using inv True d by (intro mp_invI [of sc ins ?s outs wc G x ins' "outs' @ [?b]"]) auto
    moreover have "mp_work sc ?s < mp_work sc s" using True d by (simp add: mp_work_def commands_read_def)
    ultimately show ?thesis unfolding step by (rule good_stepI)
  qed
qed

section \<open>All interleavings\<close>

text \<open>When a thread has to have a step.\<close>

fun must_step :: "mp_state \<Rightarrow> thread \<Rightarrow> bool" where
  "must_step s Reader \<longleftrightarrow> mp_reader s \<noteq> None"
| "must_step s (Constructor i) \<longleftrightarrow> i < length (mp_constructors s) \<and>
     (mp_constructors s ! i \<noteq> None \<or> uoeqi_queue (sc_command_construction_queue s) \<noteq> [])"
| "must_step s Batcher \<longleftrightarrow>
     (case mp_batcher s of Batcher_next _ \<Rightarrow> ready (sc_batcher_queue s) | Batcher_done \<Rightarrow> False | _ \<Rightarrow> True)"
| "must_step s (Compressor i) \<longleftrightarrow> i < length (mp_compressors s) \<and>
     (mp_compressors s ! i \<noteq> None \<or> uoeqi_queue (sc_compression_queue s) \<noteq> [])"
| "must_step s Writer \<longleftrightarrow> (case mp_writer s of Writing _ \<Rightarrow> ready (sc_persistence_queue s) | Written _ \<Rightarrow> False)"

lemma thread_step_good:
  assumes sc: "scene_ok x wc B sc" and inv: "mp_inv x wc sc c0 s" and opts: "ssuc_options c0 = ssuc_options wc"
  shows "good_step x wc sc c0 s (must_step s t) (thread_step x wc B t s)"
proof -
  have ok: "reads_ok x wc B sc" "batches_ok wc sc" "writes_ok x wc sc" using sc by (simp_all add: scene_ok_def)
  show ?thesis
  proof (cases t)
    case Reader
    with reader_step_good [OF ok(1) inv] show ?thesis by simp
  next
    case (Constructor i)
    then show ?thesis
      using constructor_take_good [OF inv, of i] constructor_build_good [OF ok(1) inv, of i]
      by (cases "i < length (mp_constructors s)"; cases "mp_constructors s ! i")
        (auto simp: constructor_step_def good_step_def split: sum.splits)
  next
    case Batcher
    then show ?thesis
      using batcher_next_good [OF ok(1,2) inv] batcher_try_good [OF ok(2) inv] batcher_go_on_good [OF ok(2,3) inv]
      by (cases "mp_batcher s") (auto simp: batcher_step_def)
  next
    case (Compressor i)
    then show ?thesis
      using compressor_take_good [OF inv, of i] compressor_finish_good [OF ok(2,3) inv, of i]
      by (cases "i < length (mp_compressors s)"; cases "mp_compressors s ! i")
        (auto simp: compressor_step_def good_step_def split: sum.splits)
  next
    case Writer
    then show ?thesis
      using writer_step_good [OF ok(2,3) inv opts] by (cases "mp_writer s") (auto simp: writer_step_def)
  qed
qed

lemma mp_start_inv:
  assumes "scene_ok x wc B sc" and "0 < n" and "0 < m" and "sink c0"
  shows "mp_inv x wc sc c0 (mp_start n m (sc_addr sc 0) c0)"
    "mp_work sc (mp_start n m (sc_addr sc 0) c0) = 10 * length (sc_batches sc)"
proof -
  let ?s = "mp_start n m (sc_addr sc 0) c0"
  have held: "held (replicate k None) = []" for k by (simp add: held_def)
  have ok: "sc_batches sc \<noteq> []" "sc_writes sc \<noteq> []"
    using assms(1) by (auto simp: scene_ok_def batches_ok_def writes_ok_def)
  show "mp_inv x wc sc c0 ?s"
  proof (rule mp_invI [of sc "[]" ?s "[]" wc "[]" x "[]" "[]"])
    show "front_inv sc [] ?s" "back_inv x wc sc [] [] ?s"
      using assms(2,3) ok by (simp_all add: front_inv_def back_inv_def mp_start_def commands_read_def held
          UnorderedElementQueue_new_def)
    show "batch_run [] [] (sc_batcher_queue ?s)" "batch_run [] [] (sc_persistence_queue ?s)"
      by (auto simp: mp_start_def intro: queue_run.start) (simp_all add: OrderedElementQueue_new_def)
    show "batcher_at wc (sc_batches sc) (length []) (mp_batcher ?s) []" using ok by (simp add: mp_start_def)
    show "writer_inv x wc sc c0 (length []) (mp_writer ?s)"
      using ok emits_refl [OF assms(4)] by (simp add: writer_inv_def mp_start_def)
    show "mp_failure ?s = None" by (simp add: mp_start_def)
  qed
  show "mp_work sc ?s = 10 * length (sc_batches sc)"
    by (simp add: mp_work_def mp_start_def held commands_read_def batcher_work_def UnorderedElementQueue_new_def
        OrderedElementQueue_new_def)
qed

lemma mp_run_inv:
  assumes "mp_run x wc B (mp_start n m (sc_addr sc 0) c0) k s"
    and "scene_ok x wc B sc" and "0 < n" and "0 < m" and "sink c0" and "ssuc_options c0 = ssuc_options wc"
  shows "mp_inv x wc sc c0 s \<and> k + mp_work sc s \<le> 10 * length (sc_batches sc)"
  using assms(1)
proof induction
  case start
  then show ?case using mp_start_inv [OF assms(2-5)] by simp
next
  case (step k s t s')
  then show ?case using thread_step_good [OF assms(2) _ assms(6), of s t] by (auto simp: good_step_def)
next
  case (failure k s t e)
  then show ?case using thread_step_good [OF assms(2) _ assms(6), of s t] by (auto simp: good_step_def)
qed

lemma held_Nil: "held ts = [] \<longleftrightarrow> (\<forall>i < length ts. ts ! i = None)"
proof -
  have "held ts = [] \<longleftrightarrow> (\<forall>t \<in> set ts. t = None)"
  proof (induction ts)
    case (Cons t ts)
    then show ?case by (cases t) (simp_all add: held_def)
  qed (simp add: held_def)
  then show ?thesis by (metis in_set_conv_nth)
qed

text \<open>The pipeline does not get stuck before the writer has finished.\<close>

lemma mp_progress:
  assumes sc: "scene_ok x wc B sc" and "mp_inv x wc sc c0 s" and opts: "ssuc_options c0 = ssuc_options wc"
    and w: "mp_writer s = Writing c"
  shows "\<exists>t s'. thread_step x wc B t s = Inr s'"
proof (rule ccontr)
  assume "\<not> ?thesis"
  then have stuck: "\<not> must_step s t" for t
    using thread_step_good [OF assms(1-3), of t] by (cases "thread_step x wc B t s") (auto simp: good_step_def)
  obtain ins outs G ins' outs' where inv: "front_inv sc ins s" "batch_run ins outs (sc_batcher_queue s)"
    "batcher_at wc (sc_batches sc) (length outs) (mp_batcher s) G" "back_inv x wc sc G ins' s"
    "batch_run ins' outs' (sc_persistence_queue s)" "writer_inv x wc sc c0 (length outs') (mp_writer s)"
    using assms(2) by (rule mp_invE)
  have ok: "reads_ok x wc B sc" "batches_ok wc sc" "writes_ok x wc sc" using sc by (simp_all add: scene_ok_def)
  have "mp_constructors s \<noteq> []" "mp_compressors s \<noteq> []" using inv by (simp_all add: front_inv_def back_inv_def)
  then have idle: "uoeqi_queue (sc_command_construction_queue s) = []" "held (mp_constructors s) = []"
    "uoeqi_queue (sc_compression_queue s) = []" "held (mp_compressors s) = []"
    using stuck [of "Constructor i" for i] stuck [of "Compressor i" for i] by (auto simp: held_Nil)
  have "mset ins = mset (sc_batches sc)"
    using inv(1) idle stuck [of Reader] by (cases "mp_reader s") (simp_all add: front_inv_def commands_read_def)
  then have ins: "set ins = set (sc_batches sc)" by (rule mset_eq_setD)
  obtain name where "oeq_run CommandBatchInfo_ordered (OrderedElementQueue_new name) ins outs (sc_batcher_queue s)"
    using inv(2) by blast
  from oeq_run_front [OF batches_chained [OF ok(1)] this] ins stuck [of Batcher]
  have fin: "mp_batcher s = Batcher_done"
    using inv(3) by (cases "mp_batcher s") (auto simp: ready_def)
  with inv(3) ok(2) have "G = sc_dispatched sc" by (auto simp: batches_ok_def)
  then have "mset ins' = mset (final_batches x wc sc)" using inv(4) idle by (simp add: back_inv_def)
  then have ins': "set ins' = set (final_batches x wc sc)" by (rule mset_eq_setD)
  have n: "length outs' < length (final_batches x wc sc)"
    using inv(6) w ok(3) by (auto simp: writer_inv_def writes_ok_def dest: list_all2_lengthD)
  obtain name' where "oeq_run CommandBatchInfo_ordered (OrderedElementQueue_new name') ins' outs' (sc_persistence_queue s)"
    using inv(5) by blast
  from oeq_run_front [OF _ _ this] ins' n ok(3) have "ready (sc_persistence_queue s)"
    by (auto simp: ready_def writes_ok_def)
  with stuck [of Writer] w show False by simp
qed

end
