(* ===== verification/Pipeline_Scene.thy ===== *)
theory Pipeline_Scene
  imports Pipeline_Proof
begin

text \<open>
  A well-formed input makes a scene: the stream of the commands \<open>cmds\<close>, ending with the end command,
  in which every write can be batched. What the pipeline then writes is what the specification of
  the single-threaded upgrade says.
\<close>

definition mp_input :: "externs \<Rightarrow> ctx \<Rightarrow> bytes \<Rightarrow> nat \<Rightarrow> SendVersion \<Rightarrow> acmd list \<Rightarrow> bool" where
  "mp_input x wc B off sv cmds \<longleftrightarrow>
     get_source_version wc = Inr sv \<and> get_destination_version wc = Inr SendVersion2 \<and>
     off \<le> length B \<and> take (length (enc_commands x sv cmds)) (drop off B) = enc_commands x sv cmds \<and>
     (\<forall>a \<in> set cmds. stream_wf sv (maximum_batched_extent_size (ssuc_options wc)) a) \<and>
     writes_batchable (maximum_batched_extent_size (ssuc_options wc)) cmds \<and>
     cmds \<noteq> [] \<and> ac_type (last cmds) = BTRFS_SEND_C_END \<and>
     (\<forall>a \<in> set (butlast cmds). ac_type a \<noteq> BTRFS_SEND_C_END) \<and> length cmds < 2 ^ 64"

definition scene_of :: "externs \<Rightarrow> ctx \<Rightarrow> nat \<Rightarrow> SendVersion \<Rightarrow> acmd list \<Rightarrow> scene" where
  "scene_of x wc off sv cmds =
     (let mx = maximum_batched_extent_size (ssuc_options wc);
          addr = (\<lambda>i. off + length (enc_commands x sv (take i cmds)))
      in \<lparr>sc_addr = addr,
          sc_infos = map (\<lambda>i. CommandInfo_new i (command_header x sv (cmds ! i)) (addr i + 10)) [0 ..< length cmds],
          sc_batches = batch_infos x 0 cmds,
          sc_dispatched = (case BatcherWorker_run wc None (batch_infos x 0 cmds) of Inr (D, _) \<Rightarrow> D | Inl _ \<Rightarrow> []),
          sc_writes = plan mx None cmds\<rparr>)"

lemma batch_infos_simps [simp]:
  "length (batch_infos x i cmds) = length cmds"
  "take m (batch_infos x i cmds) = batch_infos x i (take m cmds)"
  by (induction cmds arbitrary: i m) (simp_all add: take_Cons' nat_diff_split)

lemma batch_infos_nth:
  "n < length cmds \<Longrightarrow> batch_infos x i cmds ! n = CommandBatchInfo_new (i + n) (mk_command x SendVersion2 (cmds ! n))"
  by (induction cmds arbitrary: i n) (auto simp: nth_Cons split: nat.splits)

lemma command_at:
  assumes "mp_input x wc B off sv cmds" and "i < length cmds"
  obtains rest where
    "drop (off + length (enc_commands x sv (take i cmds))) B = enc_command x sv (cmds ! i) @ rest"
    "off + length (enc_commands x sv (take i cmds)) \<le> length B"
proof -
  let ?P = "enc_commands x sv (take i cmds)" and ?E = "enc_command x sv (cmds ! i)"
  let ?S = "enc_commands x sv (drop (i + 1) cmds)"
  have "cmds = take i cmds @ cmds ! i # drop (i + 1) cmds" using assms(2) by (simp add: id_take_nth_drop)
  then have split: "enc_commands x sv cmds = ?P @ ?E @ ?S" by (metis enc_commands_simps(2,3))
  obtain T where "drop off B = enc_commands x sv cmds @ T" and le: "off \<le> length B"
    using assms(1) by (metis mp_input_def append_take_drop_id)
  then have B: "drop off B = ?P @ ?E @ ?S @ T" by (simp only: split append.assoc)
  have "drop (off + length ?P) B = drop (length ?P) (drop off B)" by (simp add: add.commute)
  also have "\<dots> = ?E @ ?S @ T" by (simp only: B) simp
  finally have "drop (off + length ?P) B = ?E @ ?S @ T" .
  moreover have "off + length ?P \<le> length B"
    using arg_cong [OF B, of length] le by (simp only: length_drop length_append)
  ultimately show thesis by (rule that)
qed

lemma scene_reads:
  assumes "mp_input x wc B off sv cmds"
  shows "reads_ok x wc B (scene_of x wc off sv cmds)"
proof -
  let ?sc = "scene_of x wc off sv cmds"
  have len: "length (sc_batches ?sc) = length cmds" "length (sc_infos ?sc) = length cmds"
    by (simp_all add: scene_of_def Let_def)
  have ver: "get_source_version wc = Inr sv" "get_destination_version wc = Inr SendVersion2"
    using assms by (simp_all add: mp_input_def)
  have "ci_id (sc_infos ?sc ! i) = i \<and> batch_ids (sc_batches ?sc ! i) = (i, i, False) \<and>
        (\<exists>c. CommandConstructionWorker_build x (mp_context wc B 0) (sc_infos ?sc ! i) = Inr (sc_batches ?sc ! i, c)) \<and>
        (\<exists>n c1 c2. ReadWorker_next (mp_context wc B (sc_addr ?sc i)) i = Inr (sc_infos ?sc ! i, i + 1 = length cmds, n, c1) \<and>
           ReadWorker_skip c1 n i = Inr (i + 1, c2) \<and> get_read_offset c2 = sc_addr ?sc (i + 1))"
    if i: "i < length cmds" for i
  proof -
    let ?off = "off + length (enc_commands x sv (take i cmds))" and ?a = "cmds ! i"
    obtain rest where at: "drop ?off B = enc_command x sv ?a @ rest" "?off \<le> length B"
      using assms i by (rule command_at)
    have wf: "input_wf sv ?a" "acmd_wf sv ?a"
      using assms i by (simp_all add: mp_input_def stream_wf_def input_wf_def)
    have lt: "i + 1 < 2 ^ 64" using assms i by (simp add: mp_input_def)
    have last: "ac_type ?a = BTRFS_SEND_C_END \<longleftrightarrow> i + 1 = length cmds"
    proof (cases "i + 1 = length cmds")
      case True
      then have "?a = last cmds" using assms by (simp add: mp_input_def last_conv_nth flip: True)
      with True assms show ?thesis by (simp add: mp_input_def)
    next
      case False
      with i have "?a \<in> set (butlast cmds)" using nth_butlast [of i cmds] nth_mem [of i "butlast cmds"] by simp
      with False assms show ?thesis by (auto simp: mp_input_def)
    qed
    have infos: "sc_infos ?sc ! i = CommandInfo_new i (command_header x sv ?a) (?off + 10)"
      "sc_batches ?sc ! i = CommandBatchInfo_new i (mk_command x SendVersion2 ?a)" "sc_addr ?sc i = ?off"
      "sc_addr ?sc (i + 1) = ?off + length (enc_command x sv ?a)"
      using i by (simp_all add: scene_of_def Let_def batch_infos_nth take_Suc_conv_app_nth)
    obtain c2 where "CommandConstructionWorker_build x (mp_context wc B 0) (sc_infos ?sc ! i) = Inr (sc_batches ?sc ! i, c2)"
      unfolding infos using at wf(1) ver by (rule CommandConstructionWorker_at_command)
    moreover obtain c1 c2 where
      "ReadWorker_next (mp_context wc B ?off) i = Inr (sc_infos ?sc ! i, ac_type ?a = BTRFS_SEND_C_END, length (enc_payload sv ?a), c1)"
      "ReadWorker_skip c1 (length (enc_payload sv ?a)) i = Inr (i + 1, c2)"
      "get_read_offset c2 = sc_addr ?sc (i + 1)"
      unfolding infos using at wf(2) ver(1) lt by (rule ReadWorker_at_command)
    ultimately show ?thesis unfolding last infos(3) by (simp add: infos(1,2)) (auto simp: CommandInfo_new_def)
  qed
  with len show ?thesis by (simp add: reads_ok_def)
qed

lemma mp_input_simps:
  assumes "mp_input x wc B off sv cmds" and "mx = maximum_batched_extent_size (ssuc_options wc)"
  shows "writes_batchable mx cmds" "BTRFS_SEND_C_END \<in> ac_type ` set cmds" "commands_to_end cmds = length cmds"
    "length cmds < 2 ^ 64" "get_destination_version wc = Inr SendVersion2"
    "\<forall>a \<in> set cmds. ac_type a \<noteq> BTRFS_SEND_C_WRITE \<longrightarrow> acmd_wf SendVersion2 a"
    "cmds = butlast cmds @ [last cmds]" "ac_type (last cmds) = BTRFS_SEND_C_END"
    "\<forall>a \<in> set (butlast cmds). ac_type a \<noteq> BTRFS_SEND_C_END"
proof -
  show "writes_batchable mx cmds" "length cmds < 2 ^ 64" "get_destination_version wc = Inr SendVersion2"
    and cmds: "cmds = butlast cmds @ [last cmds]" and last: "ac_type (last cmds) = BTRFS_SEND_C_END"
    and pre: "\<forall>a \<in> set (butlast cmds). ac_type a \<noteq> BTRFS_SEND_C_END"
    using assms by (simp_all add: mp_input_def)
  show "BTRFS_SEND_C_END \<in> ac_type ` set cmds" using cmds last by (metis image_eqI in_set_conv_decomp)
  have "takeWhile (\<lambda>a. ac_type a \<noteq> BTRFS_SEND_C_END) cmds = butlast cmds"
    using pre last by (subst cmds) (simp add: takeWhile_append2)
  moreover have "length (butlast cmds) + 1 = length cmds" using assms(1) by (cases cmds) (simp_all add: mp_input_def)
  ultimately show "commands_to_end cmds = length cmds" by (simp add: commands_to_end_def)
  show "\<forall>a \<in> set cmds. ac_type a \<noteq> BTRFS_SEND_C_WRITE \<longrightarrow> acmd_wf SendVersion2 a"
    using assms by (auto simp: mp_input_def stream_wf_def input_wf_def intro: acmd_wf_upgrade)
qed

lemma scene_batches:
  assumes "mp_input x wc B off sv cmds" and mx: "mx = maximum_batched_extent_size (ssuc_options wc)"
  shows "batches_ok wc (scene_of x wc off sv cmds)"
    "list_all2 (dispatch_for mx x) (sc_dispatched (scene_of x wc off sv cmds)) (mp_plan mx None 0 cmds)"
proof -
  let ?sc = "scene_of x wc off sv cmds"
  note input = mp_input_simps [OF assms]
  have start: "waiting_with mx x 0 None None" by (simp add: waiting_with_def)
  have run: "\<exists>D prevb. BatcherWorker_run wc None (batch_infos x 0 (take m cmds)) =
      Inr (D, prevb, BTRFS_SEND_C_END \<in> ac_type ` set (take m cmds)) \<and>
      list_all2 (dispatch_for mx x) D (mp_plan mx None 0 (take m cmds))" for m
    using input(1,4) by (intro BatcherWorker_run_plan [OF _ mx _ start]) (auto dest: in_set_takeD)
  obtain D prevb where D: "BatcherWorker_run wc None (batch_infos x 0 cmds) = Inr (D, prevb, True)"
    "list_all2 (dispatch_for mx x) D (mp_plan mx None 0 cmds)"
    using run [of "length cmds"] input(2) by auto
  have no_end: "BTRFS_SEND_C_END \<notin> ac_type ` set (take m cmds)" if "m < length cmds" for m
  proof -
    have "set (take m cmds) \<subseteq> set (butlast cmds)"
      using that set_take_subset_set_take [of m "length cmds - 1" cmds] by (simp add: butlast_conv_take)
    with input(9) show ?thesis by (metis imageE subsetD)
  qed
  have "0 < length cmds" using assms(1) by (simp add: mp_input_def)
  with D input(4) run no_end show "batches_ok wc ?sc"
    by (auto simp: batches_ok_def scene_of_def Let_def) (metis (full_types))
  show "list_all2 (dispatch_for mx x) (sc_dispatched ?sc) (mp_plan mx None 0 cmds)"
    using D by (simp add: scene_of_def Let_def)
qed

lemma plan_ends:
  assumes "\<forall>a \<in> set cmds. ac_type a \<noteq> BTRFS_SEND_C_END" and "ac_type e = BTRFS_SEND_C_END"
    and "\<forall>p. prev = Some p \<longrightarrow> ac_type p = BTRFS_SEND_C_WRITE"
  shows "\<exists>ps. plan mx prev (cmds @ [e]) = ps @ [e] \<and> (\<forall>p \<in> set ps. ac_type p \<noteq> BTRFS_SEND_C_END)"
  using assms
proof (induction cmds arbitrary: prev)
  case Nil
  then show ?case by (cases prev) auto
next
  case (Cons a cmds)
  note IH = Cons.IH [OF _ Cons.prems(2)]
  show ?case
  proof (cases "ac_type a = BTRFS_SEND_C_WRITE")
    case False
    obtain ps where "plan mx None (cmds @ [e]) = ps @ [e]" "\<forall>p \<in> set ps. ac_type p \<noteq> BTRFS_SEND_C_END"
      using IH [of None] Cons.prems(1) by auto
    with False Cons.prems show ?thesis
      by (intro exI [of _ "(case prev of None \<Rightarrow> [] | Some p \<Rightarrow> [p]) @ a # ps"]) (auto split: option.splits)
  next
    case True
    have next_plan: "\<exists>ps. plan mx q (cmds @ [e]) = ps @ [e] \<and> (\<forall>p \<in> set ps. ac_type p \<noteq> BTRFS_SEND_C_END)"
      if "\<forall>p. q = Some p \<longrightarrow> ac_type p = BTRFS_SEND_C_WRITE" for q
      using IH [of q] Cons.prems(1) that by simp
    show ?thesis
    proof (cases prev)
      case None
      with True next_plan [of "nonempty a"] show ?thesis by simp
    next
      case (Some p)
      obtain p' a' where mw: "merge_writes mx p a = (p', a')" by (cases "merge_writes mx p a")
      with Some True Cons.prems(3) have t: "ac_type p' = BTRFS_SEND_C_WRITE" "ac_type a' = BTRFS_SEND_C_WRITE"
        using merge_writes_type by auto
      have "\<forall>q. nonempty a' = Some q \<longrightarrow> ac_type q = BTRFS_SEND_C_WRITE" using t by simp
      then obtain ps where "plan mx (nonempty a') (cmds @ [e]) = ps @ [e]" "\<forall>p \<in> set ps. ac_type p \<noteq> BTRFS_SEND_C_END"
        using next_plan by blast
      moreover obtain qs where "plan mx (Some p') (cmds @ [e]) = qs @ [e]" "\<forall>p \<in> set qs. ac_type p \<noteq> BTRFS_SEND_C_END"
        using next_plan [of "Some p'"] t by auto
      moreover note Some True mw t
      ultimately show ?thesis
        by (cases "mx \<le> length (write_data p') \<or> write_data a' \<noteq> []") (auto intro: exI [of _ "p' # ps"])
    qed
  qed
qed

lemma plan_others:
  assumes "w \<in> set (plan mx prev cmds)" and "ac_type w \<noteq> BTRFS_SEND_C_WRITE"
    and "\<forall>p. prev = Some p \<longrightarrow> ac_type p = BTRFS_SEND_C_WRITE"
  shows "w \<in> set cmds"
  using assms
proof (induction cmds arbitrary: prev)
  case (Cons a cmds)
  show ?case
  proof (cases "ac_type a = BTRFS_SEND_C_WRITE")
    case False
    with Cons.prems Cons.IH [of None] show ?thesis by (auto split: option.splits if_splits)
  next
    case True
    show ?thesis
    proof (cases prev)
      case None
      with True Cons.prems Cons.IH [of "nonempty a"] show ?thesis by (auto split: if_splits)
    next
      case (Some p)
      obtain p' a' where mw: "merge_writes mx p a = (p', a')" by (cases "merge_writes mx p a")
      with Some True Cons.prems(3) have t: "ac_type p' = BTRFS_SEND_C_WRITE" "ac_type a' = BTRFS_SEND_C_WRITE"
        using merge_writes_type by auto
      with Some True mw Cons.prems Cons.IH [of "nonempty a'"] Cons.IH [of "Some p'"] show ?thesis
        by (auto split: if_splits)
    qed
  qed
qed simp

lemma emit_all_works:
  assumes "emit_all x opts off ws = Inr out" and "w \<in> set ws" and "ac_type w = BTRFS_SEND_C_WRITE"
  shows "compressor_works x opts w"
  using assms
proof (induction ws arbitrary: off out)
  case (Cons a ws)
  from Cons.prems(1) obtain o1 o2 where o: "emit x opts off a = Inr o1"
    "emit_all x opts (off + length (enc_commands x SendVersion2 o1)) ws = Inr o2"
    by (auto simp: result_simps)
  show ?case
  proof (cases "w = a")
    case True
    with o(1) Cons.prems(3) show ?thesis
      by (auto simp: emit_def emit_write_def compressor_works_def result_simps split: if_splits)
  next
    case False
    with Cons.IH [OF o(2)] Cons.prems(2,3) show ?thesis by simp
  qed
qed simp

lemma dispatch_final:
  assumes "dispatch_for mx x d item" and "mx = maximum_batched_extent_size (ssuc_options wc)"
    and "get_destination_version wc = Inr SendVersion2"
    and "ac_type (snd item) = BTRFS_SEND_C_WRITE \<longrightarrow> compressor_works x (ssuc_options wc) (snd item)"
    and "ac_type (snd item) \<noteq> BTRFS_SEND_C_WRITE \<longrightarrow> acmd_wf SendVersion2 (snd item)"
  shows "batch_ids (final_batch x wc d) = fst item \<and> writes_as x (ssuc_options wc) (final_batch x wc d) (snd item) \<and>
    (\<forall>b. d = To_compression b \<longrightarrow> (\<exists>b'. CompressionWorker_process x wc b = Inr b'))"
proof (cases d)
  case (To_compression b)
  with assms(1) have b: "stands_for mx x b (snd item)" "batch_ids b = fst item" "ac_type (snd item) = BTRFS_SEND_C_WRITE"
    by (simp_all add: dispatch_for_def)
  obtain b' where "CompressionWorker_process x wc b = Inr b'" "batch_ids b' = batch_ids b"
    "writes_as x (ssuc_options wc) b' (snd item)"
    using b(1) assms(2,3) by (rule CompressionWorker_writes_as) (use assms(4) b(3) in simp)
  with To_compression b(2) show ?thesis by (simp add: final_batch_def)
next
  case (To_persistence b)
  with assms(1) have b: "b = CommandBatchInfo_new (fst (fst item)) (mk_command x SendVersion2 (snd item))"
    "batch_ids b = fst item" "ac_type (snd item) \<noteq> BTRFS_SEND_C_WRITE"
    by (auto simp: dispatch_for_def)
  have "writes_as x (ssuc_options wc) b (snd item)"
    unfolding b(1) using assms(5) b(3) by (intro metadata_writes_as) auto
  with b(2) To_persistence show ?thesis by (simp add: final_batch_def)
qed

lemma scene_writes:
  assumes "mp_input x wc B off sv cmds" and mx: "mx = maximum_batched_extent_size (ssuc_options wc)"
    and "emit_all x (ssuc_options wc) off' (plan mx None cmds) = Inr out"
  shows "writes_ok x wc (scene_of x wc off sv cmds)"
proof -
  let ?sc = "scene_of x wc off sv cmds" and ?items = "mp_plan mx None 0 cmds"
  note input = mp_input_simps [OF assms(1,2)]
  have plan: "map snd ?items = plan mx None cmds" using mp_plan_commands [OF input(1,2)] by simp
  have all: "list_all2 (\<lambda>d item. batch_ids (final_batch x wc d) = fst item \<and>
      writes_as x (ssuc_options wc) (final_batch x wc d) (snd item) \<and>
      (\<forall>b. d = To_compression b \<longrightarrow> (\<exists>b'. CompressionWorker_process x wc b = Inr b'))) (sc_dispatched ?sc) ?items"
    using scene_batches(2) [OF assms(1,2)]
  proof (rule list.rel_mono_strong)
    fix d item assume d: "item \<in> set ?items" "dispatch_for mx x d item"
    then have "snd item \<in> set (plan mx None cmds)" using plan by (metis image_eqI list.set_map)
    with emit_all_works [OF assms(3)] plan_others [of _ mx None cmds] input(6)
    show "batch_ids (final_batch x wc d) = fst item \<and> writes_as x (ssuc_options wc) (final_batch x wc d) (snd item) \<and>
      (\<forall>b. d = To_compression b \<longrightarrow> (\<exists>b'. CompressionWorker_process x wc b = Inr b'))"
      by (intro dispatch_final [OF d(2) mx input(5)]) auto
  qed
  have ids: "map batch_ids (final_batches x wc ?sc) = map fst ?items"
    using all by (auto simp: list_all2_conv_all_nth intro!: nth_equalityI)
  have chain: "chained ids_ordered 0 (map fst ?items) (length cmds)" "\<forall>i \<in> set (map fst ?items). well_ranged ids_ordered i"
    using mp_plan_chained [OF input(2), of None 0 mx] input(3) by auto
  obtain ps where ps: "plan mx None cmds = ps @ [last cmds]" "\<forall>p \<in> set ps. ac_type p \<noteq> BTRFS_SEND_C_END"
    using plan_ends [OF input(9,8), of None mx] input(7) [symmetric] by auto
  have "sc_writes ?sc = plan mx None cmds" "length (sc_batches ?sc) = length cmds"
    by (simp_all add: scene_of_def Let_def mx)
  then show ?thesis
    unfolding writes_ok_def
  proof (intro conjI)
    show "\<forall>b. To_compression b \<in> set (sc_dispatched ?sc) \<longrightarrow> (\<exists>b'. CompressionWorker_process x wc b = Inr b')"
      using all by (auto simp: list_all2_conv_all_nth in_set_conv_nth)
    show "chained CommandBatchInfo_ordered 0 (final_batches x wc ?sc) (length (sc_batches ?sc))"
      using chain(1) by (simp only: ids_of_batches ids \<open>length (sc_batches ?sc) = length cmds\<close>)
    show "\<forall>b \<in> set (final_batches x wc ?sc). well_ranged CommandBatchInfo_ordered b"
      using chain(2) unfolding ids_of_batches ids [symmetric] by auto
    show "list_all2 (writes_as x (ssuc_options wc)) (final_batches x wc ?sc) (sc_writes ?sc)"
      using all \<open>sc_writes ?sc = _\<close> by (simp add: plan [symmetric] list_all2_map1 list_all2_map2 list_all2_mono)
    show "\<forall>i < length (sc_writes ?sc). (ac_type (sc_writes ?sc ! i) = BTRFS_SEND_C_END) = (i + 1 = length (sc_writes ?sc))"
      using \<open>sc_writes ?sc = _\<close> ps input(8) by (auto simp: nth_append)
    show "sc_writes ?sc \<noteq> []" using \<open>sc_writes ?sc = _\<close> ps by simp
  qed
qed

lemma mp_input_scene:
  assumes "mp_input x wc B off sv cmds"
    and "upgrade_spec x (ssuc_options wc) off' None cmds = Inr out"
  shows "scene_ok x wc B (scene_of x wc off sv cmds)"
    "emit_all x (ssuc_options wc) off' (sc_writes (scene_of x wc off sv cmds)) = Inr out"
proof -
  let ?mx = "maximum_batched_extent_size (ssuc_options wc)"
  have emit: "emit_all x (ssuc_options wc) off' (plan ?mx None cmds) = Inr out"
    using assms(2) upgrade_spec_plan [of cmds None x "ssuc_options wc" off'] mp_input_simps(2) [OF assms(1) refl] by simp
  then show "emit_all x (ssuc_options wc) off' (sc_writes (scene_of x wc off sv cmds)) = Inr out"
    by (simp add: scene_of_def Let_def)
  show "scene_ok x wc B (scene_of x wc off sv cmds)"
    using scene_reads [OF assms(1)] scene_batches(1) [OF assms(1) refl] scene_writes [OF assms(1) refl emit]
    by (simp add: scene_ok_def)
qed

end
