(* ===== verification/Pipeline_Properties.thy ===== *)
theory Pipeline_Properties
  imports Pipeline_Scene Element_Properties
begin

text \<open>
  The properties of the multi-threaded mode: the pipeline as a whole, its queues and its buffer
  cache, and the coordinator.
\<close>

section \<open>The pipeline\<close>














text \<open>Batching by pointers is merging: appending the next write to a pending batch does to the write
  that the batch stands for what merging does in the single-threaded mode, and the ids of the batches
  account for the command once. A full batch, or a write that does not continue it, leaves both as
  they are.\<close>

theorem try_append_merges:
  assumes "pending mx x s p" and "mx = maximum_batched_extent_size (ssuc_options c)"
    and "cbi_last_id s + 1 < 2 ^ 64" and "batchable mx a" and "merge_writes mx p a = (p', a')"
  shows "if length (write_data p) = mx \<or> \<not> adjacent p a
    then CommandBatchInfo_try_append s c (next_batch x s a) = Inr (Some s, next_batch x s a)
    else if write_data a' = [] then
      \<exists>s'. CommandBatchInfo_try_append s c (next_batch x s a) = Inr (None, s') \<and> pending mx x s' p' \<and>
        batch_ids s' = (cbi_first_id s, cbi_last_id s + 1, False)
    else
      \<exists>s' o'. CommandBatchInfo_try_append s c (next_batch x s a) = Inr (Some s', o') \<and> stands_for mx x s' p' \<and>
        pending mx x o' a' \<and> batch_ids s' = (cbi_first_id s, cbi_last_id s + 1, True) \<and>
        batch_ids o' = (cbi_last_id s + 1, cbi_last_id s + 1, False)"
proof -
  let ?n = "mx - length (write_data p)"
  have le: "length (write_data p) \<le> mx" using pending_stands_for [OF assms(1)] by (rule stands_for_type(2))
  have type: "ac_type a = BTRFS_SEND_C_WRITE" using assms(4) by (rule batchable_type)
  have merged: "p' = extend_write p (take ?n (write_data a))"
    "a' = rebase (write_offset a + min (length (write_data a)) ?n) (drop (min (length (write_data a)) ?n) (write_data a)) a"
    if "adjacent p a"
    using assms(5) that by (auto simp: merge_writes_def Let_def extend_write_def)
  consider (stop) "length (write_data p) = mx \<or> \<not> adjacent p a"
    | (fits) "length (write_data p) \<noteq> mx" "adjacent p a" "length (write_data p) + length (write_data a) \<le> mx"
    | (splits) "length (write_data p) \<noteq> mx" "adjacent p a" "0 < ?n" "?n < length (write_data a)"
    using le by linarith
  then show ?thesis
  proof cases
    case stop
    with try_append_refused [OF assms(1-3), of a] assms(4) show ?thesis by simp
  next
    case fits
    with merged have "p' = extend_write p (write_data a)" "write_data a' = []" by simp_all
    with fits try_append_fits [OF assms(1-4) fits(2,3)] show ?thesis by metis
  next
    case splits
    then have "min (length (write_data a)) ?n = ?n" by simp
    with merged(2) [OF splits(2)] have a': "a' = rebase (write_offset a + ?n) (drop ?n (write_data a)) a" by (simp only:)
    with splits have "write_data a' \<noteq> []" by simp
    with a' splits merged(1) try_append_splits [OF assms(1-4) splits(2) refl splits(3,4)] show ?thesis by metis
  qed
qed

theorem try_append_merges_witness:
  "\<exists>s'. CommandBatchInfo_try_append
      (CommandBatchInfo_new 0 (mk_command example_externs SendVersion2 (example_write 0 [1, 2]))) example_context
      (CommandBatchInfo_new 1 (mk_command example_externs SendVersion2 (example_write 2 [3]))) = Inr (None, s') \<and>
    pending 131072 example_externs s' (fst (merge_writes 131072 (example_write 0 [1, 2]) (example_write 2 [3])))"
proof -
  have b: "batchable 131072 (example_write off d)" if "off < 2 ^ 32" "length d < 2 ^ 16" "d \<noteq> []" for off d
    using that example_write_wf [of off d 131072] by (simp add: batchable_def acmd_path_def) (simp add: example_write_def)
  have mx: "131072 = maximum_batched_extent_size (ssuc_options example_context)"
    by (simp add: example_options_def SendStreamUpgradeOptions_default_def)
  have w: "write_data (example_write 0 [1, 2]) = [1, 2]" "write_data (example_write 2 [3]) = [3]"
    "write_offset (example_write 0 [1, 2]) = 0" "write_offset (example_write 2 [3]) = 2"
    using example_write_wf [of 0 "[1, 2]" 0] example_write_wf [of 2 "[3]" 0] by simp_all
  have adj: "adjacent (example_write 0 [1, 2]) (example_write 2 [3])"
    by (simp add: adjacent_def w) (simp add: acmd_path_def example_write_def)
  obtain p' a' where m: "merge_writes 131072 (example_write 0 [1, 2]) (example_write 2 [3]) = (p', a')" by fastforce
  then have "write_data a' = []" using adj w by (auto simp: merge_writes_def Let_def)
  with try_append_merges [OF pending_new [OF b, of 0 "[1, 2]" example_externs 0] mx _ b m] adj w m show ?thesis by auto
qed

text \<open>A write longer than the batch limit stops the multi-threaded upgrade: whatever command
  follows it, the batcher fails. The documented limit of 0, which should disable batching, has this
  effect on every write with data.\<close>

theorem mp_rejects_large_writes:
  assumes "ac_data a = Some d" and "maximum_batched_extent_size (ssuc_options c) < length d"
  shows "BatcherWorker_append c (Some (CommandBatchInfo_new i (mk_command x SendVersion2 a)))
      (CommandBatchInfo_new j (mk_command x SendVersion2 b)) = Inl (Bail (Mp BatchTooBig))"
  using assms
  by (simp add: BatcherWorker_append_def CommandBatchInfo_try_append_def CommandBatchInfo_can_append_def last_pointer_def
      cached_size_mk Let_def)

theorem mp_rejects_large_writes_witness:
  "BatcherWorker_append (example_context\<lparr>ssuc_options := example_options\<lparr>maximum_batched_extent_size := 0\<rparr>\<rparr>)
      (Some (CommandBatchInfo_new 0 (mk_command example_externs SendVersion2 (example_write 0 [1]))))
      (CommandBatchInfo_new 1 (mk_command example_externs SendVersion2 end_command)) = Inl (Bail (Mp BatchTooBig))"
  by (rule mp_rejects_large_writes [where d = "[1]"]) (simp_all add: example_write_def)

section \<open>The buffer cache\<close>

lemma cache_step_limit:
  "cache_step s s' \<Longrightarrow> robc_maximum_buffers_to_cache (fst s') = robc_maximum_buffers_to_cache (fst s)"
proof (induction rule: cache_step.induct)
  case (reader cache address want r cache' p)
  then show ?case using lowered_effect(3) [OF read_exact_turn_lowered] by simp
next
  case (halt cache unplanned r cache' p)
  then show ?case by (auto simp: ReadOnceBufferCache_halt_def split: sum.splits)
qed (auto simp: get_buffer_to_fill_def put_buffer_def Let_def split: if_splits PrimitiveState.splits)

lemma cache_reachable:
  assumes "ReadOnceBufferCache_new sz start limit = Inr cache" and "start < sz"
    and "upcoming c (drop start B)" and "Source_is_external (ssuc_source c)"
    and "cache_step\<^sup>*\<^sup>* (cache, Prefetch_next c) s"
  shows "cache_inv B s" "robc_maximum_buffers_to_cache (fst s) = limit"
proof -
  have start: "cache_inv B (cache, Prefetch_next c)" "robc_maximum_buffers_to_cache cache = limit"
    using assms(1-4)
    by (auto simp: ReadOnceBufferCache_new_def cache_inv_def cache_ok_def in_step_def fetch_address_def fetch_offset_def
        split: if_splits)
  show "cache_inv B s" using assms(5) start(1) by (induction rule: rtranclp_induct) (auto intro: cache_step_inv)
  show "robc_maximum_buffers_to_cache (fst s) = limit"
    using assms(5) start(2) by (induction rule: rtranclp_induct) (auto simp: cache_step_limit)
qed


definition example_cache :: ReadOnceBufferCache where
  "example_cache = \<lparr>robci_buffers = [], robcm_bytes_remaining = [], robcm_next_key_to_fetch = 0,
     robcm_state = Running, robc_buffer_size = 4, robc_cache_start_address = 1, robc_maximum_buffers_to_cache = 2\<rparr>"


text \<open>The cache stays within its limit, and the prefetcher fails only when the cache has been
  halted: in every reachable state there are at most as many buffers as the options allow, and a
  failed prefetcher has found the cache stopped.\<close>

theorem cache_within_limit:
  assumes "ReadOnceBufferCache_new sz start limit = Inr cache" and "start < sz"
    and "upcoming c (drop start B)" and "Source_is_external (ssuc_source c)"
    and "cache_step\<^sup>*\<^sup>* (cache, Prefetch_next c) s"
  shows "length (robci_buffers (fst s)) \<le> limit \<and> (\<forall>e. snd s = Prefetch_failed e \<longrightarrow> robcm_state (fst s) \<noteq> Running)"
  using cache_reachable [OF assms] by (cases "snd s") (auto simp: cache_inv_def)

theorem cache_within_limit_witness:
  "\<exists>s. cache_step (example_cache, Prefetch_next (example_input SendVersion1 [5, 6, 7, 8, 9])) s \<and>
     length (robci_buffers (fst s)) \<le> 2"
proof -
  let ?c = "example_input SendVersion1 [5, 6, 7, 8, 9 :: byte]"
  let ?s = "(example_cache\<lparr>robcm_next_key_to_fetch := 1\<rparr>, Prefetch_fill (ReadBuffer_new 0 1 3) ?c)"
  have step: "cache_step (example_cache, Prefetch_next ?c) ?s"
    by (rule cache_step.get) (simp add: get_buffer_to_fill_def prefetcher_waits_def example_cache_def)
  have "length (robci_buffers (fst ?s)) \<le> 2 \<and> (\<forall>e. snd ?s = Prefetch_failed e \<longrightarrow> robcm_state (fst ?s) \<noteq> Running)"
  proof (rule cache_within_limit)
    show "ReadOnceBufferCache_new 4 1 2 = Inr example_cache"
      by (simp add: ReadOnceBufferCache_new_def example_cache_def)
    show "upcoming ?c (drop 1 [5, 5, 6, 7, 8, 9])" using example_input_upcoming [of "[5, 6, 7, 8, 9]"] by simp
    show "Source_is_external (ssuc_source ?c)" by (simp add: example_input_def Source_is_external_def)
    show "cache_step\<^sup>*\<^sup>* (example_cache, Prefetch_next ?c) ?s" using step by auto
  qed simp
  with step show ?thesis by blast
qed

end
