(* ===== verification/Coordinator.thy ===== *)
theory Coordinator
  imports Queues Cache_Reads Batch
begin

text \<open>
  \<open>mp/threads/coordinator.rs\<close>, \<open>mp/threads/worker_thread.rs\<close>, \<open>mp/sync/sync_container.rs\<close> and the
  contexts of the worker threads (\<open>clone_for_mp_threads\<close>): how many threads there are, how the
  coordinator watches them, and how it shuts them down.

  What a thread handle reports is not up to the coordinator: it is a parameter, the status of every
  worker at every pass of the coordinator's loops.
\<close>

section \<open>The sync container\<close>

record SyncContainer =
  sc_buffer_cache :: ReadOnceBufferCache
  scq_command_construction :: "CommandInfo UnorderedElementQueue"
  scq_batcher :: "CommandBatchInfo OrderedElementQueue"
  scq_compression :: "CommandBatchInfo UnorderedElementQueue"
  scq_persistence :: "CommandBatchInfo OrderedElementQueue"

definition SyncContainer_new :: "SendStreamUpgradeOptions \<Rightarrow> SyncContainer result" where
  "SyncContainer_new options =
     (if read_buffer_size options = 0 then Inl (Panic DivisionByZero)
      else rbind (ReadOnceBufferCache_new (read_buffer_size options) SendHeader_get_size
               (extra_buffer_cache_backlog options div read_buffer_size options)) (\<lambda>cache.
        Inr \<lparr>sc_buffer_cache = cache,
             scq_command_construction = UnorderedElementQueue_new ''Command construction queue'',
             scq_batcher = OrderedElementQueue_new ''Batcher queue'',
             scq_compression = UnorderedElementQueue_new ''Compression queue'',
             scq_persistence = OrderedElementQueue_new ''Persistence queue''\<rparr>))"

definition halt_all :: "SyncContainer \<Rightarrow> bool \<Rightarrow> unit result \<times> SyncContainer" where
  "halt_all s unplanned =
     (case ReadOnceBufferCache_halt (sc_buffer_cache s) unplanned of (r1, cache) \<Rightarrow>
      let s1 = s\<lparr>sc_buffer_cache := cache\<rparr> in
      if r1 \<noteq> Inr () then (r1, s1) else
      case UnorderedElementQueue_halt (scq_command_construction s) unplanned of (r2, q2) \<Rightarrow>
      let s2 = s1\<lparr>scq_command_construction := q2\<rparr> in
      if r2 \<noteq> Inr () then (r2, s2) else
      case OrderedElementQueue_halt (scq_batcher s) unplanned of (r3, q3) \<Rightarrow>
      let s3 = s2\<lparr>scq_batcher := q3\<rparr> in
      if r3 \<noteq> Inr () then (r3, s3) else
      case UnorderedElementQueue_halt (scq_compression s) unplanned of (r4, q4) \<Rightarrow>
      let s4 = s3\<lparr>scq_compression := q4\<rparr> in
      if r4 \<noteq> Inr () then (r4, s4) else
      case OrderedElementQueue_halt (scq_persistence s) unplanned of (r5, q5) \<Rightarrow>
      (r5, s4\<lparr>scq_persistence := q5\<rparr>))"

section \<open>Worker contexts\<close>

definition clone_for_mp_threads ::
  "bool \<Rightarrow> bool \<Rightarrow> reader result \<Rightarrow> (bytes \<times> nat option) result \<Rightarrow> SendStreamUpgradeOptions \<Rightarrow>
   SendVersion \<Rightarrow> SendVersion \<Rightarrow> nat \<Rightarrow> nat \<Rightarrow> SyncContainer option \<Rightarrow> ctx result"
where
  "clone_for_mp_threads keep_source keep_destination opened_input opened_output options
     source_version destination_version source_offset destination_offset sync_container =
     rbind (if keep_source
            then Source_new_from_file opened_input (opt_input options) False source_offset (Some source_version)
            else rbind (of_option (Mp NoSyncContainer) sync_container) (\<lambda>container.
              Inr (Source_new_from_buffer_cache (sc_buffer_cache container) source_offset (Some source_version))))
       (\<lambda>source.
     rbind (if keep_destination
            then Destination_new_from_file opened_output (write_buffer_size options) destination_offset
                   (Some destination_version)
            else Inr (Destination_new_from_none (Some destination_version))) (\<lambda>destination.
     Inr \<lparr>ssuc_options = options, ssuc_source = source, ssuc_destination = destination,
          ssuc_associated_with_parent = False\<rparr>))"

section \<open>The number of threads\<close>

definition MAX_COMMAND_CONSTRUCTION_THREADS :: nat where
  "MAX_COMMAND_CONSTRUCTION_THREADS = 8"

definition COMMAND_CONSTRUCTION_THREAD_COUNT_RATIO :: nat where
  "COMMAND_CONSTRUCTION_THREAD_COUNT_RATIO = 1"

definition COMPRESSOR_THREAD_COUNT_RATIO :: nat where
  "COMPRESSOR_THREAD_COUNT_RATIO = 2"

definition THREAD_COUNT_RATIO_DENOMINATOR :: nat where
  "THREAD_COUNT_RATIO_DENOMINATOR =
     COMMAND_CONSTRUCTION_THREAD_COUNT_RATIO + COMPRESSOR_THREAD_COUNT_RATIO"

definition NON_MP_THREAD_TYPES :: nat where
  "NON_MP_THREAD_TYPES = 4"

definition NUM_THREAD_TYPES :: nat where
  "NUM_THREAD_TYPES = 6"

definition get_thread_counts :: "nat \<Rightarrow> nat \<Rightarrow> nat \<times> nat" where
  "get_thread_counts given_thread_count cpu_count =
     (let half_cpu_count = cpu_count div 2;
          max_thread_count = (if given_thread_count = 0 then half_cpu_count
                              else min given_thread_count half_cpu_count)
      in if max_thread_count \<le> NUM_THREAD_TYPES then (1, 1)
         else let variable_thread_count = max_thread_count - NON_MP_THREAD_TYPES;
                  command_construction_thread_count =
                    min (variable_thread_count * COMMAND_CONSTRUCTION_THREAD_COUNT_RATIO
                           div THREAD_COUNT_RATIO_DENOMINATOR)
                      MAX_COMMAND_CONSTRUCTION_THREADS;
                  compressor_thread_count = variable_thread_count - command_construction_thread_count
              in (command_construction_thread_count, compressor_thread_count))"

lemmas thread_constants = MAX_COMMAND_CONSTRUCTION_THREADS_def COMMAND_CONSTRUCTION_THREAD_COUNT_RATIO_def
  COMPRESSOR_THREAD_COUNT_RATIO_def THREAD_COUNT_RATIO_DENOMINATOR_def NON_MP_THREAD_TYPES_def NUM_THREAD_TYPES_def

section \<open>Watching the workers\<close>

text \<open>What the handle of a thread reports: it is running, it has returned, or it has panicked.\<close>

datatype thread_status = Thread_running | Thread_returned "unit result" | Thread_panicked

record WorkerThread =
  wt_name :: string
  wt_handle :: bool

definition WorkerThread_get_status :: "WorkerThread \<Rightarrow> thread_status \<Rightarrow> bool result \<times> WorkerThread" where
  "WorkerThread_get_status w status =
     (if \<not> wt_handle w then (Inl (Bail (Mp NoHandle)), w)
      else case status of
        Thread_running \<Rightarrow> (Inr True, w)
      | Thread_returned (Inr _) \<Rightarrow> (Inr False, w\<lparr>wt_handle := False\<rparr>)
      | Thread_returned (Inl e) \<Rightarrow> (Inl e, w\<lparr>wt_handle := False\<rparr>)
      | Thread_panicked \<Rightarrow> (Inl (Bail (Mp WorkerPanicked)), w\<lparr>wt_handle := False\<rparr>))"

text \<open>One pass over the active workers: the workers that stay, whether the run is over, and whether a
  worker has crashed. A worker that has ended is removed, and the index moves on all the same.\<close>

function check_pass ::
  "(string \<Rightarrow> thread_status) \<Rightarrow> WorkerThread list \<Rightarrow> nat \<Rightarrow> bool \<Rightarrow> bool \<Rightarrow> WorkerThread list \<times> bool \<times> bool"
where
  "check_pass status active_workers i all_done crashed =
     (if i < length active_workers then
        let worker = active_workers ! i;
            rest = take i active_workers @ drop (i + 1) active_workers
        in case fst (WorkerThread_get_status worker (status (wt_name worker))) of
             Inr True \<Rightarrow> check_pass status active_workers (i + 1) all_done crashed
           | Inr False \<Rightarrow>
               check_pass status rest (i + 1) (all_done \<or> i = length active_workers - 1) crashed
           | Inl error \<Rightarrow> check_pass status rest (i + 1) True True
      else (active_workers, all_done, crashed))"
  by pat_completeness auto
termination
  by (relation "measure (\<lambda>(status, ws, i, d, c). length ws - i)") auto

declare check_pass.simps [simp del]

text \<open>The two loops of \<open>Coordinator::run\<close>. \<open>status t\<close> is what the handles report at pass \<open>t\<close>; \<open>passes\<close>
  bounds the passes that are looked at, and \<open>None\<close> is a loop that has not ended within them.\<close>

fun watch_loop ::
  "(nat \<Rightarrow> string \<Rightarrow> thread_status) \<Rightarrow> nat \<Rightarrow> nat \<Rightarrow> WorkerThread list \<Rightarrow> (nat \<times> WorkerThread list \<times> bool) option"
where
  "watch_loop status t 0 active_workers = None"
| "watch_loop status t (Suc passes) active_workers =
     (case check_pass (status t) active_workers 0 False False of (rest, all_done, crashed) \<Rightarrow>
        if all_done then Some (t + 1, rest, crashed) else watch_loop status (t + 1) passes rest)"

fun teardown_loop ::
  "(nat \<Rightarrow> string \<Rightarrow> thread_status) \<Rightarrow> nat \<Rightarrow> nat \<Rightarrow> WorkerThread list \<Rightarrow> bool \<Rightarrow> bool option" where
  "teardown_loop status t passes [] crashed = Some crashed"
| "teardown_loop status t 0 (w # ws) crashed = None"
| "teardown_loop status t (Suc passes) (w # ws) crashed =
     (case check_pass (status t) (w # ws) 0 False crashed of (rest, _, crashed') \<Rightarrow>
        teardown_loop status (t + 1) passes rest crashed')"

text \<open>The rest of \<open>Coordinator::run\<close> after the threads have been started.\<close>

definition coordinate ::
  "(nat \<Rightarrow> string \<Rightarrow> thread_status) \<Rightarrow> nat \<Rightarrow> WorkerThread list \<Rightarrow> SyncContainer \<Rightarrow>
   (unit result \<times> SyncContainer) option"
where
  "coordinate status passes active_workers container =
     (case watch_loop status 0 passes active_workers of
        None \<Rightarrow> None
      | Some (t, rest, crashed) \<Rightarrow>
          (case halt_all container crashed of
             (Inl e, container') \<Rightarrow> Some (Inl e, container')
           | (Inr _, container') \<Rightarrow>
               (case teardown_loop status t passes rest crashed of
                  None \<Rightarrow> None
                | Some crashed' \<Rightarrow>
                    Some (if crashed' then Inl (Bail (Mp CoordinatorFailed)) else Inr (), container'))))"

text \<open>The decimal digits of a number, as \<open>format!\<close> prints it.\<close>

fun decimal :: "nat \<Rightarrow> string" where
  "decimal n = (if n < 10 then [char_of (48 + n)] else decimal (n div 10) @ [char_of (48 + n mod 10)])"

declare decimal.simps [simp del]

definition start_workers :: "nat \<Rightarrow> nat \<Rightarrow> WorkerThread list" where
  "start_workers num_command_constructors num_compressors =
     map (\<lambda>name. \<lparr>wt_name = name, wt_handle = True\<rparr>)
       ([''Prefetch worker'', ''Read worker'', ''Batcher worker''] @
        map (\<lambda>i. ''Command construction worker '' @ decimal i) [0 ..< num_command_constructors] @
        map (\<lambda>i. ''Compression worker '' @ decimal i) [0 ..< num_compressors] @
        [''Write worker''])"

section \<open>What the coordinator concludes\<close>

definition ended :: "thread_status \<Rightarrow> bool" where
  "ended st \<longleftrightarrow> st \<noteq> Thread_running"

definition failed :: "thread_status \<Rightarrow> bool" where
  "failed st = (case st of Thread_running \<Rightarrow> False | Thread_returned r \<Rightarrow> r \<noteq> Inr () | Thread_panicked \<Rightarrow> True)"

lemma get_status_cases:
  assumes "wt_handle w"
  shows "\<not> ended st \<Longrightarrow> fst (WorkerThread_get_status w st) = Inr True"
    "ended st \<Longrightarrow> \<not> failed st \<Longrightarrow> fst (WorkerThread_get_status w st) = Inr False"
    "failed st \<Longrightarrow> \<exists>e. fst (WorkerThread_get_status w st) = Inl e"
  using assms
  by (auto simp: ended_def failed_def WorkerThread_get_status_def split: thread_status.splits sum.splits)

lemma check_pass_step:
  assumes "i < length ws" and "wt_handle (ws ! i)"
  shows "check_pass status ws i d c =
    (if \<not> ended (status (wt_name (ws ! i))) then check_pass status ws (i + 1) d c
     else if failed (status (wt_name (ws ! i))) then check_pass status (take i ws @ drop (i + 1) ws) (i + 1) True True
     else check_pass status (take i ws @ drop (i + 1) ws) (i + 1) (d \<or> i = length ws - 1) c)"
  using assms get_status_cases [OF assms(2), of "status (wt_name (ws ! i))"]
  by (subst check_pass.simps) (auto simp: Let_def)

lemma check_pass_end: "length ws \<le> i \<Longrightarrow> check_pass status ws i d c = (ws, d, c)"
  by (subst check_pass.simps) simp

text \<open>The same pass along the list: after a worker that has ended, the next one is skipped.\<close>

fun pass_along ::
  "(string \<Rightarrow> thread_status) \<Rightarrow> WorkerThread list \<Rightarrow> bool \<Rightarrow> bool \<Rightarrow> WorkerThread list \<times> bool \<times> bool" where
  "pass_along status [] d c = ([], d, c)"
| "pass_along status (v # vs) d c =
     (let st = status (wt_name v) in
      if \<not> ended st then apfst (Cons v) (pass_along status vs d c)
      else let d' = (d \<or> failed st \<or> vs = []); c' = (c \<or> failed st) in
        case vs of [] \<Rightarrow> ([], d', c') | u # us \<Rightarrow> apfst (Cons u) (pass_along status us d' c'))"

lemma check_pass_along:
  assumes "\<forall>v \<in> set ws. wt_handle v"
  shows "check_pass status (pre @ ws) (length pre) d c = apfst ((@) pre) (pass_along status ws d c)"
  using assms
proof (induction status ws d c arbitrary: pre rule: pass_along.induct)
  case (1 status d c)
  then show ?case by (simp add: check_pass_end)
next
  case (2 status v vs d c)
  have h: "wt_handle ((pre @ v # vs) ! length pre)" using "2.prems" by simp
  note step = check_pass_step [of "length pre" "pre @ v # vs" status d c]
  show ?case
  proof (cases "ended (status (wt_name v))")
    case False
    have "check_pass status ((pre @ [v]) @ vs) (length (pre @ [v])) d c = apfst ((@) (pre @ [v])) (pass_along status vs d c)"
      using "2.IH"(1) [OF refl, of "pre @ [v]"] False "2.prems" by simp
    with False h step show ?thesis by (cases "pass_along status vs d c") simp
  next
    case True
    show ?thesis
    proof (cases vs)
      case Nil
      with True h step show ?thesis by (auto simp: check_pass_end Let_def)
    next
      case (Cons u us)
      let ?d = "d \<or> failed (status (wt_name v))" and ?c = "c \<or> failed (status (wt_name v))"
      have "check_pass status ((pre @ [u]) @ us) (length (pre @ [u])) ?d ?c = apfst ((@) (pre @ [u])) (pass_along status us ?d ?c)"
        using "2.IH"(2) [OF refl _ refl refl Cons, of "pre @ [u]"] True "2.prems" Cons by simp
      with True h step Cons show ?thesis
        by (cases "pass_along status us ?d ?c"; cases "failed (status (wt_name v))") (simp_all add: Let_def)
    qed
  qed
qed

text \<open>When every worker has ended, a pass removes every other one.\<close>

lemma pass_along_ended:
  assumes "\<forall>v \<in> set ws. ended (status (wt_name v))"
  shows "length (fst (pass_along status ws d c)) = length ws div 2" "set (fst (pass_along status ws d c)) \<subseteq> set ws"
    "(snd (snd (pass_along status ws d c)) \<or> (\<exists>v \<in> set (fst (pass_along status ws d c)). failed (status (wt_name v)))) =
      (c \<or> (\<exists>v \<in> set ws. failed (status (wt_name v))))"
proof -
  have "length (fst (pass_along status ws d c)) = length ws div 2 \<and> set (fst (pass_along status ws d c)) \<subseteq> set ws \<and>
      (snd (snd (pass_along status ws d c)) \<or> (\<exists>v \<in> set (fst (pass_along status ws d c)). failed (status (wt_name v)))) =
      (c \<or> (\<exists>v \<in> set ws. failed (status (wt_name v))))"
    using assms
  proof (induction status ws d c rule: pass_along.induct)
    case (2 status v vs d c)
    have v: "ended (status (wt_name v))" using "2.prems" by simp
    show ?case
    proof (cases vs)
      case Nil
      with v show ?thesis by (simp add: Let_def)
    next
      case (Cons u us)
      let ?r = "pass_along status us (d \<or> failed (status (wt_name v))) (c \<or> failed (status (wt_name v)))"
      have eq: "pass_along status (v # u # us) d c = apfst (Cons u) ?r" using v Cons by (simp add: Let_def)
      have "length (fst ?r) = length us div 2 \<and> set (fst ?r) \<subseteq> set us \<and>
          (snd (snd ?r) \<or> (\<exists>v \<in> set (fst ?r). failed (status (wt_name v)))) =
          ((c \<or> failed (status (wt_name v))) \<or> (\<exists>v \<in> set us. failed (status (wt_name v))))"
        using "2.IH"(2) [OF refl _ refl refl Cons] v Cons "2.prems" by simp
      then show ?thesis unfolding Cons eq by (auto simp: subset_iff)
    qed
  qed simp
  then show "length (fst (pass_along status ws d c)) = length ws div 2" "set (fst (pass_along status ws d c)) \<subseteq> set ws"
    "(snd (snd (pass_along status ws d c)) \<or> (\<exists>v \<in> set (fst (pass_along status ws d c)). failed (status (wt_name v)))) =
      (c \<or> (\<exists>v \<in> set ws. failed (status (wt_name v))))" by auto
qed

lemma pass_along_flags:
  "(c \<longrightarrow> d) \<Longrightarrow> snd (snd (pass_along status ws d c)) \<longrightarrow> fst (snd (pass_along status ws d c))"
proof (induction status ws d c rule: pass_along.induct)
  case (2 status v vs d c)
  then show ?case by (cases vs) (auto simp: Let_def)
qed simp

lemma check_pass_start:
  assumes "\<forall>v \<in> set ws. wt_handle v"
  shows "check_pass status ws 0 d c = pass_along status ws d c"
  using check_pass_along [OF assms, of status "[]" d c] by (cases "pass_along status ws d c") simp

text \<open>Once every worker has ended, the teardown ends and knows of every failure.\<close>

lemma teardown_ends:
  assumes "\<forall>k \<ge> t. status k = st" and "\<forall>v \<in> set ws. wt_handle v \<and> ended (st (wt_name v))" and "length ws \<le> passes"
  shows "teardown_loop status t passes ws c = Some (c \<or> (\<exists>v \<in> set ws. failed (st (wt_name v))))"
  using assms
proof (induction passes arbitrary: t ws c)
  case (Suc passes)
  show ?case
  proof (cases ws)
    case (Cons w vs)
    let ?p = "pass_along st ws False c"
    have h: "\<forall>v \<in> set ws. wt_handle v" "\<forall>v \<in> set ws. ended (st (wt_name v))" using Suc.prems(2) by auto
    note e = pass_along_ended [OF h(2), of False c]
    have "teardown_loop status (t + 1) passes (fst ?p) (snd (snd ?p)) =
        Some (snd (snd ?p) \<or> (\<exists>v \<in> set (fst ?p). failed (st (wt_name v))))"
      using Suc.prems e(1,2) Cons by (intro Suc.IH) auto
    moreover have "teardown_loop status t (Suc passes) ws c = teardown_loop status (t + 1) passes (fst ?p) (snd (snd ?p))"
      using check_pass_start [OF h(1)] Suc.prems(1) Cons by (simp add: case_prod_beta)
    ultimately show ?thesis using e(3) by simp
  qed simp
qed simp

lemma teardown_crashed: "teardown_loop status t passes ws True \<noteq> Some False"
proof -
  have mono: "c \<Longrightarrow> snd (snd (check_pass st vs i d c))" for st vs i d c
    by (induction st vs i d c rule: check_pass.induct) (subst check_pass.simps, auto simp: Let_def split: sum.splits bool.splits)
  show ?thesis
    by (induction status t passes ws "True" rule: teardown_loop.induct)
      (auto split: prod.splits, metis mono snd_conv)
qed

text \<open>A worker that a pass without a crash does not keep has returned without an error.\<close>

lemma returned_iff: "ended st \<and> \<not> failed st \<longleftrightarrow> st = Thread_returned (Inr ())"
  by (cases st) (auto simp: ended_def failed_def)

lemma pass_along_returned:
  assumes "pass_along status ws d c = (rest, d', False)"
  shows "\<not> c" "\<forall>v \<in> set ws. v \<in> set rest \<or> status (wt_name v) = Thread_returned (Inr ())" "set rest \<subseteq> set ws"
proof -
  have "\<not> c \<and> (\<forall>v \<in> set ws. v \<in> set rest \<or> status (wt_name v) = Thread_returned (Inr ())) \<and> set rest \<subseteq> set ws"
    using assms
  proof (induction status ws d c arbitrary: rest rule: pass_along.induct)
    case (2 status v vs d c)
    show ?case
    proof (cases "ended (status (wt_name v))")
      case False
      then obtain r where r: "pass_along status vs d c = (r, d', False)" "rest = v # r"
        using "2.prems" by (cases "pass_along status vs d c") (auto simp: Let_def)
      with "2.IH"(1) [OF refl _ r(1)] False show ?thesis by auto
    next
      case True
      show ?thesis
      proof (cases vs)
        case Nil
        with True "2.prems" returned_iff [of "status (wt_name v)"] show ?thesis by (simp add: Let_def)
      next
        case (Cons u us)
        let ?d = "d \<or> failed (status (wt_name v))" and ?c = "c \<or> failed (status (wt_name v))"
        obtain r where r: "pass_along status us ?d ?c = (r, d', False)" "rest = u # r"
          using True "2.prems"(1) Cons by (cases "pass_along status us ?d ?c") (auto simp: Let_def)
        with "2.IH"(2) [OF refl _ refl refl Cons, of r] True Cons
        have "\<not> ?c \<and> (\<forall>v \<in> set us. v \<in> set r \<or> status (wt_name v) = Thread_returned (Inr ())) \<and> set r \<subseteq> set us" by simp
        with r(2) Cons True returned_iff [of "status (wt_name v)"] show ?thesis by auto
      qed
    qed
  qed simp
  then show "\<not> c" "\<forall>v \<in> set ws. v \<in> set rest \<or> status (wt_name v) = Thread_returned (Inr ())" "set rest \<subseteq> set ws"
    by auto
qed

lemma watch_loop_returned:
  assumes "watch_loop status t passes ws = Some (t', rest, False)" and "\<forall>v \<in> set ws. wt_handle v"
  shows "set rest \<subseteq> set ws \<and> (\<forall>v \<in> set ws. v \<in> set rest \<or> (\<exists>k. status k (wt_name v) = Thread_returned (Inr ())))"
  using assms
proof (induction passes arbitrary: t ws)
  case (Suc passes)
  obtain r d c where p: "pass_along (status t) ws False False = (r, d, c)" by (metis prod_cases3)
  have "\<not> c" using pass_along_flags [of False False "status t" ws] p check_pass_start [OF Suc.prems(2)] Suc.prems(1)
    by (auto split: if_splits)
  with p have p': "pass_along (status t) ws False False = (r, d, False)" by simp
  note ret = pass_along_returned [OF p']
  have "\<forall>v \<in> set r. wt_handle v" using ret(3) Suc.prems(2) by blast
  then have "set rest \<subseteq> set r \<and> (\<forall>v \<in> set r. v \<in> set rest \<or> (\<exists>k. status k (wt_name v) = Thread_returned (Inr ())))"
    using Suc.prems(1) p' check_pass_start [OF Suc.prems(2)] Suc.IH [of "t + 1" r] by (cases d) simp_all
  with ret show ?case by blast
qed simp

lemma teardown_returned:
  assumes "teardown_loop status t passes ws c = Some False" and "\<forall>v \<in> set ws. wt_handle v"
  shows "\<forall>v \<in> set ws. \<exists>k. status k (wt_name v) = Thread_returned (Inr ())"
  using assms
proof (induction status t passes ws c rule: teardown_loop.induct)
  case (3 status t passes w ws c)
  obtain r d c' where p: "pass_along (status t) (w # ws) False c = (r, d, c')" by (metis prod_cases3)
  have loop: "teardown_loop status (t + 1) passes r c' = Some False"
    using "3.prems"(1) p check_pass_start [OF "3.prems"(2)] by simp
  then have "\<not> c'" using teardown_crashed by (cases c') auto
  with p have p': "pass_along (status t) (w # ws) False c = (r, d, False)" by simp
  note ret = pass_along_returned [OF p']
  have handles: "\<forall>v \<in> set r. wt_handle v" using ret(3) "3.prems"(2) by blast
  have "\<forall>v \<in> set r. \<exists>k. status k (wt_name v) = Thread_returned (Inr ())"
    by (rule "3.IH" [OF _ refl loop handles]) (use p check_pass_start [OF "3.prems"(2)] in simp)
  with ret show ?case by blast
qed simp_all

section \<open>Shutting down\<close>

definition halted_as :: "PrimitiveState \<Rightarrow> SyncContainer \<Rightarrow> bool" where
  "halted_as st s \<longleftrightarrow> robcm_state (sc_buffer_cache s) = st \<and> uoeqi_state (scq_command_construction s) = st \<and>
     oeqi_state (scq_batcher s) = st \<and> uoeqi_state (scq_compression s) = st \<and> oeqi_state (scq_persistence s) = st"

lemma halt_all_unplanned: "fst (halt_all s True) = Inr () \<and> halted_as Aborted (snd (halt_all s True))"
  by (simp add: halt_all_def halted_as_def ReadOnceBufferCache_halt_def UnorderedElementQueue_halt_def
      OrderedElementQueue_halt_def Let_def)

lemma halt_all_done:
  assumes "halt_all s False = (Inr (), s')"
  shows "halted_as Done s'"
  using assms
  by (auto simp: halt_all_def halted_as_def ReadOnceBufferCache_halt_def UnorderedElementQueue_halt_def
      OrderedElementQueue_halt_def halt_state_def ensure_def Let_def split: if_splits)

lemma halt_all_planned:
  assumes "robcm_state (sc_buffer_cache s) \<noteq> Aborted" "uoeqi_state (scq_command_construction s) \<noteq> Aborted"
    "oeqi_state (scq_batcher s) \<noteq> Aborted" "uoeqi_state (scq_compression s) \<noteq> Aborted"
    "oeqi_state (scq_persistence s) \<noteq> Aborted"
  shows "fst (halt_all s False) = Inr () \<and> halted_as Done (snd (halt_all s False))"
  using assms
  by (simp add: halt_all_def halted_as_def ReadOnceBufferCache_halt_def UnorderedElementQueue_halt_def
      OrderedElementQueue_halt_def Let_def)

end
