(* ===== verification/Sync_Properties.thy ===== *)
theory Sync_Properties
  imports Batch_Plan Coordinator
begin

text \<open>
  The properties of the synchronisation of the worker threads: the queues between them
  (\<open>mp/sync/ordered_element_queue.rs\<close>, \<open>mp/sync/unordered_element_queue.rs\<close>), the coordinator
  (\<open>mp/threads/coordinator.rs\<close>) and the shutdown (\<open>mp/sync/sync_container.rs\<close>).
\<close>

section \<open>The queues\<close>

text \<open>C12. The ordered queue restores the order: whatever the order in which producers deliver the
  elements of a chain of ids and however the operations interleave, what the consumers have been
  given is a prefix of the chain, and a consumer of a running queue gets exactly the next element of
  the chain as soon as it has been delivered, and waits until then.\<close>

theorem ordered_queue_in_order:
  assumes "chained e 0 all m" and "\<forall>x \<in> set all. well_ranged e x" and "m < 2 ^ 64"
    and "oeq_run e (OrderedElementQueue_new name) ins outs q" and "set ins \<subseteq> set all"
  shows "outs = take (length outs) all \<and>
    (oeqi_state q = Running \<longrightarrow> fst (OrderedElementQueue_dequeue e q) =
      (if length outs < length all \<and> all ! length outs \<in> set ins then Inr (Some (all ! length outs)) else Inl Blocked))"
  using oeq_run_state(3) [OF assms(1,2,4,5)] oeq_run_dequeue [OF assms] by blast

theorem ordered_queue_in_order_witness:
  "\<exists>q. oeq_run ids_ordered (OrderedElementQueue_new []) [(1, 2, False), (0, 1, True)] [] q \<and>
     fst (OrderedElementQueue_dequeue ids_ordered q) = Inr (Some (0, 1, True))"
proof -
  let ?q0 = "OrderedElementQueue_new [] :: (nat \<times> nat \<times> bool) OrderedElementQueue"
  let ?q1 = "?q0\<lparr>oeqi_map := [(1, 1, 2, False)]\<rparr>"
  let ?q2 = "?q0\<lparr>oeqi_map := [(1, 1, 2, False), (0, 0, 1, True)]\<rparr>"
  let ?all = "[(0, 1, True), (1, 2, False)] :: (nat \<times> nat \<times> bool) list"
  have "oeq_run ids_ordered ?q0 ([] @ [(1, 2, False)]) [] ?q1"
    by (rule queue_run.enqueue [OF queue_run.start]) (simp add: oeq_enqueue_iff OrderedElementQueue_new_def)
  then have run: "oeq_run ids_ordered ?q0 (([] @ [(1, 2, False)]) @ [(0, 1, True)]) [] ?q2"
    by (rule queue_run.enqueue) (simp add: oeq_enqueue_iff OrderedElementQueue_new_def)
  have "fst (OrderedElementQueue_dequeue ids_ordered ?q2) = Inr (Some (0, 1, True))"
    using ordered_queue_in_order [of ids_ordered ?all 3, OF _ _ _ run] by (simp add: OrderedElementQueue_new_def)
  with run show ?thesis by auto
qed

text \<open>The unordered queue is a FIFO: in every run, what producers have put in is what consumers
  have been given followed by what is still in the queue.\<close>

theorem unordered_queue_fifo:
  assumes "uoeq_run (UnorderedElementQueue_new name) ins outs q"
  shows "ins = outs @ uoeqi_queue q"
  using assms by (rule uoeq_run_fifo)

theorem unordered_queue_fifo_witness:
  "\<exists>q. uoeq_run (UnorderedElementQueue_new []) [1, 2 :: nat] [1] q \<and> [1, 2] = [1] @ uoeqi_queue q"
proof -
  let ?q = "UnorderedElementQueue_new [] :: nat UnorderedElementQueue"
  have "uoeq_run ?q ([] @ [1]) [] (?q\<lparr>uoeqi_queue := [1]\<rparr>)"
    by (rule queue_run.enqueue [OF queue_run.start]) (simp add: uoeq_enqueue_iff UnorderedElementQueue_new_def)
  then have "uoeq_run ?q (([] @ [1]) @ [2]) [] (?q\<lparr>uoeqi_queue := [1, 2]\<rparr>)"
    by (rule queue_run.enqueue) (simp add: uoeq_enqueue_iff UnorderedElementQueue_new_def)
  then have run: "uoeq_run ?q (([] @ [1]) @ [2]) ([] @ [1]) (?q\<lparr>uoeqi_queue := [2]\<rparr>)"
    by (rule queue_run.dequeue) (simp add: uoeq_dequeue_iff UnorderedElementQueue_new_def)
  from unordered_queue_fifo [OF run] run show ?thesis by auto
qed

text \<open>A halt frees every thread that waits at a queue: after it, planned or not, no queue blocks a
  consumer, hands an element out or takes one.\<close>

theorem halted_queues_stop:
  "fst (OrderedElementQueue_dequeue e (snd (OrderedElementQueue_halt q u))) \<noteq> Inl Blocked \<and>
   fst (OrderedElementQueue_dequeue e (snd (OrderedElementQueue_halt q u))) \<noteq> Inr (Some x) \<and>
   fst (OrderedElementQueue_enqueue e (snd (OrderedElementQueue_halt q u)) x) \<noteq> Inr () \<and>
   fst (UnorderedElementQueue_dequeue (snd (UnorderedElementQueue_halt q' u))) \<noteq> Inl Blocked \<and>
   fst (UnorderedElementQueue_dequeue (snd (UnorderedElementQueue_halt q' u))) \<noteq> Inr (Some y) \<and>
   fst (UnorderedElementQueue_enqueue (snd (UnorderedElementQueue_halt q' u)) y) \<noteq> Inr ()"
  by (intro conjI oeq.halted_never_blocks oeq.halted_hands_out_nothing oeq.halted_takes_nothing
      uoeq.halted_never_blocks uoeq.halted_hands_out_nothing uoeq.halted_takes_nothing)

text \<open>Two elements with the same first id cannot be in the ordered queue together: the second is
  refused as a duplicate. The documentation's example of a good set of items, in which an item 11-11
  shares its only id with an item 11-15, has such a pair.\<close>

theorem shared_first_ids_collide:
  assumes "oeqi_state q = Running" and "map_of (oeqi_map q) (get_first_id e x) = None"
    and "get_first_id e x = get_first_id e y"
  shows "fst (OrderedElementQueue_enqueue e (snd (OrderedElementQueue_enqueue e q x)) y) =
    Inl (Bail (Mp DuplicateElement))"
  using assms by (simp add: OrderedElementQueue_enqueue_def Let_def update_conv')

theorem shared_first_ids_collide_witness:
  "fst (OrderedElementQueue_enqueue ids_ordered
      (snd (OrderedElementQueue_enqueue ids_ordered (OrderedElementQueue_new []) (11, 11, True))) (11, 15, False)) =
    Inl (Bail (Mp DuplicateElement))"
  by (rule shared_first_ids_collide) (simp_all add: OrderedElementQueue_new_def)

section \<open>The coordinator\<close>

text \<open>The number of threads: there are between one and eight command constructors, at least as
  many compressors, and with the four single threads they fill the budget, which is half of the CPUs
  or the number that the options ask for if that is smaller, but at least six.\<close>

theorem thread_counts_bounds:
  "case get_thread_counts given cpus of (constructors, compressors) \<Rightarrow>
     1 \<le> constructors \<and> constructors \<le> MAX_COMMAND_CONSTRUCTION_THREADS \<and> constructors \<le> compressors \<and>
     constructors + compressors + NON_MP_THREAD_TYPES =
       max NUM_THREAD_TYPES (if given = 0 then cpus div 2 else min given (cpus div 2))"
proof -
  define m where "m = (if given = 0 then cpus div 2 else min given (cpus div 2))"
  show ?thesis
  proof (cases "m \<le> 6")
    case True
    then show ?thesis by (simp add: get_thread_counts_def thread_constants Let_def flip: m_def)
  next
    case False
    let ?c = "min ((m - 4) div 3) 8"
    have counts: "get_thread_counts given cpus = (?c, m - 4 - ?c)"
      using False by (simp add: get_thread_counts_def thread_constants Let_def flip: m_def)
    have "1 \<le> (m - 4) div 3" using False by (simp add: div_greater_zero_iff Suc_le_eq)
    moreover have "3 * ((m - 4) div 3) \<le> m - 4" by simp
    ultimately show ?thesis using False by (simp add: counts thread_constants flip: m_def)
  qed
qed

lemma start_workers_handles: "\<forall>w \<in> set (start_workers n m). wt_handle w"
  by (auto simp: start_workers_def)

lemma coordinator_returned:
  assumes "coordinate status passes (start_workers n m) container = Some (Inr (), container')"
  shows "(\<forall>w \<in> set (start_workers n m). \<exists>t. status t (wt_name w) = Thread_returned (Inr ())) \<and>
    halted_as Done container'"
proof -
  let ?ws = "start_workers n m"
  from assms obtain t rest crashed where w: "watch_loop status 0 passes ?ws = Some (t, rest, crashed)"
    and h: "halt_all container crashed = (Inr (), container')"
    and td: "teardown_loop status t passes rest crashed = Some False"
    by (auto simp: coordinate_def split: option.splits prod.splits sum.splits if_splits)
  then have nc: "\<not> crashed" using teardown_crashed by (cases crashed) auto
  with w watch_loop_returned [of status 0 passes ?ws t rest] start_workers_handles
  have r: "set rest \<subseteq> set ?ws"
    "\<forall>v \<in> set ?ws. v \<in> set rest \<or> (\<exists>k. status k (wt_name v) = Thread_returned (Inr ()))" by auto
  moreover have "\<forall>v \<in> set rest. \<exists>k. status k (wt_name v) = Thread_returned (Inr ())"
    using teardown_returned [OF td] r(1) start_workers_handles by blast
  moreover have "halted_as Done container'" using h nc halt_all_done by simp
  ultimately show ?thesis by blast
qed

text \<open>C13. The coordinator reports success only when every worker, the writer included, has returned
  without an error, and then every primitive has been shut down as done.\<close>

theorem coordinator_success:
  assumes "coordinate status passes (start_workers n m) container = Some (Inr (), container')"
  shows "(\<forall>w \<in> set (start_workers n m). \<exists>t. status t (wt_name w) = Thread_returned (Inr ())) \<and>
    halted_as Done container'"
  using assms by (rule coordinator_returned)

definition example_container :: SyncContainer where
  "example_container =
     \<lparr>sc_buffer_cache = \<lparr>robci_buffers = [], robcm_bytes_remaining = [], robcm_next_key_to_fetch = 0,
        robcm_state = Running, robc_buffer_size = 4, robc_cache_start_address = 1, robc_maximum_buffers_to_cache = 2\<rparr>,
      scq_command_construction = UnorderedElementQueue_new [], scq_batcher = OrderedElementQueue_new [],
      scq_compression = UnorderedElementQueue_new [], scq_persistence = OrderedElementQueue_new []\<rparr>"

lemma example_container_halts: "halt_all example_container False = (Inr (), snd (halt_all example_container False))"
  using halt_all_planned [of example_container]
  by (simp add: example_container_def UnorderedElementQueue_new_def OrderedElementQueue_new_def prod_eq_iff)

text \<open>A pass over the six workers of the smallest configuration, none of which has failed: three
  passes are needed until the last one is seen to have ended.\<close>

definition all_returned :: "nat \<Rightarrow> string \<Rightarrow> thread_status" where
  "all_returned k name = Thread_returned (Inr ())"

lemma example_coordination:
  "coordinate all_returned 6 (start_workers 1 1) example_container =
     Some (Inr (), snd (halt_all example_container False))"
proof -
  let ?w = "\<lambda>name. \<lparr>wt_name = name, wt_handle = True\<rparr>"
  let ?r = "map ?w [''Read worker'', ''Command construction worker 0'', ''Write worker'']"
  have ws: "start_workers 1 1 = map ?w [''Prefetch worker'', ''Read worker'', ''Batcher worker'',
      ''Command construction worker 0'', ''Compression worker 0'', ''Write worker'']"
    by (simp add: start_workers_def decimal.simps char_of_def bit_iff_odd)
  have "watch_loop all_returned 0 6 (start_workers 1 1) = Some (2, [?w ''Command construction worker 0''], False)"
    unfolding ws
    by (simp add: numeral_eq_Suc check_pass_start all_returned_def ended_def failed_def Let_def)
  moreover have "teardown_loop all_returned 2 6 [?w ''Command construction worker 0''] False = Some False"
    by (simp add: numeral_eq_Suc check_pass_start all_returned_def ended_def failed_def Let_def)
  moreover obtain c where "halt_all example_container False = (Inr (), c)" using example_container_halts by metis
  ultimately show ?thesis by (simp add: coordinate_def)
qed

theorem coordinator_success_witness:
  "coordinate all_returned 6 (start_workers 1 1) example_container =
     Some (Inr (), snd (halt_all example_container False)) \<and>
   halted_as Done (snd (halt_all example_container False))"
  using coordinator_success [OF example_coordination] example_coordination by blast

text \<open>The teardown ends: once every remaining worker has ended, as many passes as there are workers
  are enough for the coordinator to have joined them all, and it has then noticed every worker that failed.\<close>

theorem coordinator_teardown_ends:
  assumes "\<forall>k \<ge> t. status k = st" and "\<forall>w \<in> set ws. wt_handle w \<and> ended (st (wt_name w))"
  shows "teardown_loop status t (length ws) ws crashed = Some (crashed \<or> (\<exists>w \<in> set ws. failed (st (wt_name w))))"
  using teardown_ends [OF assms order_refl] .

theorem coordinator_teardown_ends_witness:
  "teardown_loop (\<lambda>k name. Thread_panicked) 3 (length (start_workers 2 2)) (start_workers 2 2) False = Some True"
proof -
  have "start_workers 2 2 \<noteq> []" by (simp add: start_workers_def)
  with coordinator_teardown_ends [of 3 "\<lambda>k name. Thread_panicked" "\<lambda>name. Thread_panicked" "start_workers 2 2" False]
  show ?thesis using start_workers_handles [of 2 2] by (simp add: ended_def failed_def ex_in_conv)
qed

text \<open>A prefetcher that is still filling a buffer when the upgrade is over makes it fail: after the
  planned shutdown its \<open>put_buffer\<close> is an error, and when that is how it returns the coordinator does
  not report success, although the writer has written everything.\<close>

theorem late_prefetch_fails:
  assumes "halt_all container False = (Inr (), container')"
    and "map_of (robci_buffers (sc_buffer_cache container')) (rb_key buffer) = None"
  shows "fst (put_buffer (sc_buffer_cache container') buffer) = Inl (Bail (Mp CacheDone)) \<and>
    (\<forall>status passes r.
      (\<forall>k. status k ''Prefetch worker'' \<in>
          {Thread_running, Thread_returned (fst (put_buffer (sc_buffer_cache container') buffer))}) \<longrightarrow>
      coordinate status passes (start_workers n m) container \<noteq> Some (Inr (), r))"
proof -
  have put: "fst (put_buffer (sc_buffer_cache container') buffer) = Inl (Bail (Mp CacheDone))"
    using halt_all_done [OF assms(1)] assms(2) by (simp add: put_buffer_def halted_as_def Let_def)
  have "\<lparr>wt_name = ''Prefetch worker'', wt_handle = True\<rparr> \<in> set (start_workers n m)"
    by (simp add: start_workers_def)
  then have seen: "\<exists>k. status k ''Prefetch worker'' = Thread_returned (Inr ())"
    if "coordinate status passes (start_workers n m) container = Some (Inr (), r)" for status passes r
    using coordinator_returned [OF that] by force
  have "coordinate status passes (start_workers n m) container \<noteq> Some (Inr (), r)"
    if "\<forall>k. status k ''Prefetch worker'' \<in> {Thread_running, Thread_returned (Inl (Bail (Mp CacheDone)))}"
    for status passes r
  proof
    assume "coordinate status passes (start_workers n m) container = Some (Inr (), r)"
    then obtain k where "status k ''Prefetch worker'' = Thread_returned (Inr ())" using seen by blast
    with spec [OF that, of k] show False by simp
  qed
  with put show ?thesis by simp
qed

theorem late_prefetch_fails_witness:
  "fst (put_buffer (sc_buffer_cache (snd (halt_all example_container False))) (ReadBuffer_new 0 1 3)) =
     Inl (Bail (Mp CacheDone))"
proof -
  have "map_of (robci_buffers (sc_buffer_cache (snd (halt_all example_container False)))) (rb_key (ReadBuffer_new 0 1 3)) = None"
    by (simp add: example_container_def halt_all_def ReadOnceBufferCache_halt_def UnorderedElementQueue_halt_def
        OrderedElementQueue_halt_def UnorderedElementQueue_new_def OrderedElementQueue_new_def Let_def)
  from late_prefetch_fails [OF example_container_halts this] show ?thesis by blast
qed

text \<open>A cache backlog below the size of one read buffer stops the multi-threaded upgrade before it
  begins: the cache has room for no buffer, so that the prefetcher waits for a reader and every reader
  waits for the prefetcher, and neither changes anything.\<close>

theorem backlog_below_buffer_blocks:
  assumes "SyncContainer_new options = Inr container"
    and "extra_buffer_cache_backlog options < read_buffer_size options"
  shows "get_buffer_to_fill (sc_buffer_cache container) = (Inl Blocked, sc_buffer_cache container) \<and>
    read_exact_turn (sc_buffer_cache container) address (Suc want) = (Inl Blocked, sc_buffer_cache container)"
  using assms
  by (auto simp: SyncContainer_new_def ReadOnceBufferCache_new_def get_buffer_to_fill_def prefetcher_waits_def
      read_exact_turn_def read_buffer_from_cache_def reader_waits_def Let_def rbind_def split: if_splits sum.splits)

theorem backlog_below_buffer_blocks_witness:
  "\<exists>container.
     SyncContainer_new (SendStreamUpgradeOptions_default\<lparr>read_buffer_size := 4096, extra_buffer_cache_backlog := 4095\<rparr>) =
       Inr container \<and>
     get_buffer_to_fill (sc_buffer_cache container) = (Inl Blocked, sc_buffer_cache container)"
proof -
  let ?o = "SendStreamUpgradeOptions_default\<lparr>read_buffer_size := 4096, extra_buffer_cache_backlog := 4095\<rparr>"
  obtain container where new: "SyncContainer_new ?o = Inr container"
    by (simp add: SyncContainer_new_def ReadOnceBufferCache_new_def SendHeader_get_size_def rbind_def)
  from backlog_below_buffer_blocks [OF new] new show ?thesis by auto
qed

end
