(* ===== verification/File_Mode.thy ===== *)
theory File_Mode
  imports Nom_Text
begin

text \<open>
  \<open>antlir2/antlir2_mode/src/lib.rs\<close>: file modes, their symbolic form and its parser. The functions of
  nom that the parser calls are the fields of a record, 
  with what nom documents of them; \<open>FileMode\<close> is the type \<open>Mode\<close> of the source.
\<close>

section \<open>The parts of nom\<close>

record ('e, 'r) nom_mode =
  nt_tag :: "string \<Rightarrow> string parser"
  nt_alt :: "string parser list \<Rightarrow> string parser"
  nt_oct_digit1 :: "string parser"
  nt_many_m_n :: "nat \<Rightarrow> nat \<Rightarrow> string parser \<Rightarrow> string list parser"
  nt_separated_list0 :: "string parser \<Rightarrow> 'e parser \<Rightarrow> 'e list parser"
  nt_all_consuming :: "'r parser \<Rightarrow> 'r parser"

definition nom_mode_documented :: "('e, 'r) nom_mode \<Rightarrow> bool" where
  "nom_mode_documented N \<longleftrightarrow>
     tag_spec (nt_tag N) \<and> alt_spec (nt_alt N) \<and> oct_digit1_spec (nt_oct_digit1 N) \<and> many_m_n_spec (nt_many_m_n N) \<and>
     separated_list0_spec (nt_separated_list0 N) \<and> all_consuming_spec (nt_all_consuming N)"

definition example_nom_mode :: "('e, 'r) nom_mode" where
  "example_nom_mode =
     \<lparr>nt_tag = example_tag, nt_alt = example_alt, nt_oct_digit1 = example_oct_digit1, nt_many_m_n = example_many_m_n,
      nt_separated_list0 = example_separated, nt_all_consuming = example_all_consuming\<rparr>"

lemma example_nom_mode_documented: "nom_mode_documented example_nom_mode"
  by (simp add: nom_mode_documented_def example_nom_mode_def example_specs)

section \<open>Modes and permissions\<close>

datatype Permissions = Permissions byte

primrec permission_bits :: "Permissions \<Rightarrow> byte" where
  "permission_bits (Permissions b) = b"

definition Permissions_read :: "Permissions \<Rightarrow> bool" where
  "Permissions_read p \<longleftrightarrow> permission_bits p AND 0b100 \<noteq> 0"

definition Permissions_write :: "Permissions \<Rightarrow> bool" where
  "Permissions_write p \<longleftrightarrow> permission_bits p AND 0b010 \<noteq> 0"

definition Permissions_execute :: "Permissions \<Rightarrow> bool" where
  "Permissions_execute p \<longleftrightarrow> permission_bits p AND 0b001 \<noteq> 0"

datatype FileMode = FileMode u32

primrec mode_bits :: "FileMode \<Rightarrow> u32" where
  "mode_bits (FileMode m) = m"

text \<open>The octal constants of the source are written in hexadecimal: \<open>0o7777\<close> is \<open>0xFFF\<close>, \<open>0o04000\<close> is
  \<open>0x800\<close>, \<open>0o02000\<close> is \<open>0x400\<close> and \<open>0o01000\<close> is \<open>0x200\<close>.\<close>

definition Mode_new :: "u32 \<Rightarrow> FileMode" where
  "Mode_new mode = FileMode (mode AND 0xFFF)"

definition setuid :: "FileMode \<Rightarrow> bool" where
  "setuid m \<longleftrightarrow> mode_bits m AND 0x800 \<noteq> 0"

definition setgid :: "FileMode \<Rightarrow> bool" where
  "setgid m \<longleftrightarrow> mode_bits m AND 0x400 \<noteq> 0"

definition sticky :: "FileMode \<Rightarrow> bool" where
  "sticky m \<longleftrightarrow> mode_bits m AND 0x200 \<noteq> 0"

definition Mode_user :: "FileMode \<Rightarrow> Permissions" where
  "Mode_user m = Permissions (ucast (drop_bit 6 (mode_bits m) AND 0b111))"

definition Mode_group :: "FileMode \<Rightarrow> Permissions" where
  "Mode_group m = Permissions (ucast (drop_bit 3 (mode_bits m) AND 0b111))"

definition Mode_other :: "FileMode \<Rightarrow> Permissions" where
  "Mode_other m = Permissions (ucast (mode_bits m AND 0b111))"

section \<open>Parsing\<close>

text \<open>\<open>u8::from_str_radix(d, 8)\<close> on octal digits.\<close>

definition from_octal :: "string \<Rightarrow> byte option" where
  "from_octal d =
     (let v = foldl (\<lambda>n c. 8 * n + (of_char c - 48)) (0 :: nat) d in if v < 256 then Some (word_of_nat v) else None)"

fun apply_symbols :: "string list \<Rightarrow> byte \<Rightarrow> bool \<Rightarrow> (bool \<times> Permissions) option" where
  "apply_symbols [] bits setid = Some (setid, Permissions bits)"
| "apply_symbols (symbol # symbols) bits setid =
     (if symbol = ''r'' then apply_symbols symbols (bits OR 0b100) setid
      else if symbol = ''w'' then apply_symbols symbols (bits OR 0b010) setid
      else if symbol = ''x'' then apply_symbols symbols (bits OR 0b001) setid
      else if symbol = ''s'' then apply_symbols symbols bits True
      else None)"

definition panic_unless :: "string \<Rightarrow> 'a option \<Rightarrow> (string, 'a) iresult" where
  "panic_unless input v = (case v of Some x \<Rightarrow> IOk input x | None \<Rightarrow> IPanic)"

definition permission_symbol :: "('e, 'r) nom_mode \<Rightarrow> string parser" where
  "permission_symbol N = nt_alt N [nt_tag N ''r'', nt_tag N ''w'', nt_tag N ''x'', nt_tag N ''s'']"

definition Permissions_parse :: "('e, 'r) nom_mode \<Rightarrow> (bool \<times> Permissions) parser" where
  "Permissions_parse N input =
     (case nt_oct_digit1 N input of
        IOk input d \<Rightarrow> panic_unless input (map_option (\<lambda>b. (False, Permissions b)) (from_octal d))
      | _ \<Rightarrow> ibind (nt_many_m_n N 0 3 (permission_symbol N) input) (\<lambda>input symbols.
               panic_unless input (apply_symbols symbols 0 False)))"

datatype Directive = Add char bool Permissions | Sticky

definition Directive_parse :: "('e, 'r) nom_mode \<Rightarrow> Directive parser" where
  "Directive_parse N input =
     ibind (nt_alt N [nt_tag N ''u'', nt_tag N ''g'', nt_tag N ''o'', nt_tag N ''t''] input) (\<lambda>input class'.
     if class' = ''t'' then IOk input Sticky
     else ibind (nt_tag N ''+'' input) (\<lambda>input _.
          ibind (Permissions_parse N input) (\<lambda>input (setid, perms).
          if class' = [] then IPanic else IOk input (Add (hd class') setid perms))))"

definition Directive_mask :: "Directive \<Rightarrow> u32 option" where
  "Directive_mask d =
     (case d of
        Add class' setid perms \<Rightarrow>
          let p = ucast (permission_bits perms) :: u32
          in if class' = CHR ''u'' then Some (if setid then push_bit 6 p OR 0x800 else push_bit 6 p)
             else if class' = CHR ''g'' then Some (if setid then push_bit 3 p OR 0x400 else push_bit 3 p)
             else if class' = CHR ''o'' then Some p
             else None
      | Sticky \<Rightarrow> Some 0x200)"

fun combine_masks :: "Directive list \<Rightarrow> u32 \<Rightarrow> FileMode option" where
  "combine_masks [] bits = Some (FileMode bits)"
| "combine_masks (d # ds) bits = Option.bind (Directive_mask d) (\<lambda>m. combine_masks ds (bits OR m))"

definition Mode_parse :: "(Directive, 'r) nom_mode \<Rightarrow> FileMode parser" where
  "Mode_parse N input =
     ibind (nt_separated_list0 N (nt_tag N '','') (Directive_parse N) input) (\<lambda>input directives.
     panic_unless input (combine_masks directives 0))"

definition Mode_from_str :: "(Directive, FileMode) nom_mode \<Rightarrow> string \<Rightarrow> text_error + FileMode" where
  "Mode_from_str N s = finish (nt_all_consuming N (Mode_parse N) s)"

section \<open>Printing\<close>

definition Permissions_to_string :: "Permissions \<Rightarrow> string" where
  "Permissions_to_string p =
     (if Permissions_read p then ''r'' else []) @ (if Permissions_write p then ''w'' else []) @
     (if Permissions_execute p then ''x'' else [])"

definition mode_parts :: "FileMode \<Rightarrow> string list" where
  "mode_parts m =
     (if permission_bits (Mode_user m) \<noteq> 0
      then [''u+'' @ Permissions_to_string (Mode_user m) @ (if setuid m then ''s'' else [])]
      else if setuid m then [''u+s''] else []) @
     (if permission_bits (Mode_group m) \<noteq> 0
      then [''g+'' @ Permissions_to_string (Mode_group m) @ (if setgid m then ''s'' else [])]
      else if setuid m then [''g+s''] else []) @
     (if permission_bits (Mode_other m) \<noteq> 0 then [''o+'' @ Permissions_to_string (Mode_other m)] else []) @
     (if sticky m then [''t''] else [])"

definition Mode_to_string :: "FileMode \<Rightarrow> string" where
  "Mode_to_string m = join_with '','' (mode_parts m)"

end
