(* ===== verification/File_Mode_Text.thy ===== *)
theory File_Mode_Text
  imports File_Mode
begin

text \<open>
  The symbolic form of a mode is read back: what \<open>from_str\<close> returns on what \<open>Display\<close> prints, for every
  mode. \<open>Display\<close> prints a list of directives; the parser of one directive reads a printed directive back
  unless it has four symbols, and the masks of the directives make up the mode again except for the
  set-group-ID bit where no group permission is printed.
\<close>

section \<open>Directives are parsed back\<close>

lemma nom_mode_laws:
  assumes "nom_mode_documented N"
  shows nom_tag_simp: "nt_tag N t i = (if take (length t) i = t then IOk (drop (length t) i) t else IErr NomError)"
    and nom_alt_simps: "nt_alt N [] i = IErr NomError"
      "nt_alt N (p # ps) i = (if p i = IErr NomError then nt_alt N ps i else p i)"
    and nom_oct_simp: "nt_oct_digit1 N i =
        (if takeWhile octal_digit i = [] then IErr NomError else IOk (dropWhile octal_digit i) (takeWhile octal_digit i))"
    and nom_many_simps: "nt_many_m_n N 0 0 q i = IOk i []"
      "q i = IOk j x \<Longrightarrow> length j < length i \<Longrightarrow>
        nt_many_m_n N 0 (Suc n) q i = ibind (nt_many_m_n N 0 n q j) (\<lambda>k xs. IOk k (x # xs))"
      "q i = IErr NomError \<Longrightarrow> nt_many_m_n N 0 (Suc n) q i = IOk i []"
    and nom_separated: "separated_list0_spec (nt_separated_list0 N)"
    and nom_all_consuming: "nt_all_consuming N s i = ibind (s i) (\<lambda>j x. if j = [] then IOk j x else IErr NomError)"
  using assms
  by (simp_all add: nom_mode_documented_def tag_spec_def alt_spec_def oct_digit1_spec_def many_m_n_spec_def all_consuming_spec_def)

lemmas nom_mode_simps = nom_tag_simp nom_alt_simps nom_oct_simp nom_many_simps

definition delimited :: "string \<Rightarrow> bool" where
  "delimited rest \<longleftrightarrow> rest = [] \<or> hd rest = CHR '',''"

definition permissions :: "byte list" where
  "permissions = [0, 1, 2, 3, 4, 5, 6, 7]"

definition symbols_of :: "bool \<Rightarrow> Permissions \<Rightarrow> string" where
  "symbols_of setid p = Permissions_to_string p @ (if setid then ''s'' else [])"

text \<open>The parser takes at most three symbols.\<close>

lemma permission_symbol_simp:
  assumes "nom_mode_documented N"
  shows "permission_symbol N i = (case i of [] \<Rightarrow> IErr NomError
    | c # cs \<Rightarrow> if c \<in> {CHR ''r'', CHR ''w'', CHR ''x'', CHR ''s''} then IOk cs [c] else IErr NomError)"
  by (cases i) (simp_all add: permission_symbol_def nom_mode_simps [OF assms])

lemma symbols_parse:
  assumes N: "nom_mode_documented N" and "p \<in> set permissions" and "delimited rest"
  shows "Permissions_parse N (symbols_of setid (Permissions p) @ rest) =
    (if p = 7 \<and> setid then IOk (''s'' @ rest) (False, Permissions 7) else IOk rest (setid, Permissions p))"
proof -
  have rest: "permission_symbol N rest = IErr NomError" "takeWhile octal_digit rest = []"
    using assms(3) by (auto simp: delimited_def permission_symbol_simp [OF N] octal_digit_def takeWhile_eq_Nil_iff
        split: list.split)
  show ?thesis
    using assms(2) rest
    by (auto simp: permissions_def symbols_of_def Permissions_to_string_def Permissions_read_def Permissions_write_def
        Permissions_execute_def Permissions_parse_def nom_mode_simps [OF N] permission_symbol_simp [OF N, of "_ # _"]
        numeral_3_eq_3 octal_digit_def panic_unless_def)
qed

section \<open>Directives and lists of directives\<close>

primrec shown :: "Directive \<Rightarrow> string" where
  "shown (Add c setid p) = [c] @ ''+'' @ symbols_of setid p"
| "shown Sticky = ''t''"

text \<open>The directives that \<open>Display\<close> prints, and those among them that take at most three symbols.\<close>

primrec printable :: "Directive \<Rightarrow> bool" where
  "printable (Add c setid p) \<longleftrightarrow>
     c \<in> {CHR ''u'', CHR ''g'', CHR ''o''} \<and> permission_bits p \<in> set permissions"
| "printable Sticky \<longleftrightarrow> True"

primrec four_symbols :: "Directive \<Rightarrow> bool" where
  "four_symbols (Add c setid p) \<longleftrightarrow> permission_bits p = 7 \<and> setid"
| "four_symbols Sticky \<longleftrightarrow> False"

primrec without_setid :: "Directive \<Rightarrow> Directive" where
  "without_setid (Add c setid p) = Add c False p"
| "without_setid Sticky = Sticky"

lemma Directive_parse_shown:
  assumes N: "nom_mode_documented N" and "printable d" and "delimited rest"
  shows "Directive_parse N (shown d @ rest) =
    (if four_symbols d then IOk (''s'' @ rest) (without_setid d) else IOk rest d)"
proof (cases d)
  case (Add c setid p)
  obtain b where p: "p = Permissions b"
    by (cases p)
  show ?thesis
    using assms Add p symbols_parse [OF N, of b rest setid]
    by (auto simp: Directive_parse_def nom_mode_simps [OF N])
next
  case Sticky
  then show ?thesis
    by (simp add: Directive_parse_def nom_mode_simps [OF N])
qed

lemma Directive_parse_nil: "nom_mode_documented N \<Longrightarrow> Directive_parse N [] = IErr NomError"
  by (simp add: Directive_parse_def nom_mode_simps)

locale documented_mode =
  fixes N :: "(Directive, FileMode) nom_mode"
  assumes documented: "nom_mode_documented N"

sublocale documented_mode \<subseteq> directives: separated_text "nt_separated_list0 N" "nt_tag N '',''" "Directive_parse N" "'',''"
    delimited shown "\<lambda>d. printable d \<and> \<not> four_symbols d"
  using documented
  by unfold_locales (auto simp: nom_separated nom_tag_simp delimited_def Directive_parse_shown)

interpretation example_mode: documented_mode example_nom_mode
  by unfold_locales (rule example_nom_mode_documented)

context documented_mode
begin

lemma directives_parse:
  assumes "\<forall>d \<in> set ds. printable d \<and> \<not> four_symbols d"
  shows "nt_separated_list0 N (nt_tag N '','') (Directive_parse N) (join_with '','' (map shown ds)) = IOk [] ds"
  using directives.items_read [OF assms, of "[]"] documented
  by (cases "ds = []")
    (simp_all add: separated_stop [OF nom_separated] Directive_parse_nil directives.ends_list_def nom_tag_simp delimited_def)

end

lemma printable_without_setid: "printable (without_setid d) \<longleftrightarrow> printable d"
  by (cases d) simp_all

lemma combine_masks_returns: "\<forall>d \<in> set ds. printable d \<Longrightarrow> \<exists>m. combine_masks ds bits = Some m"
proof (induction ds arbitrary: bits)
  case (Cons d ds)
  have "\<exists>m. Directive_mask d = Some m"
    using Cons.prems by (cases d) (auto simp: Directive_mask_def Let_def)
  then show ?case
    using Cons by auto
qed simp

lemma directives_stop:
  assumes N: "nom_mode_documented N" and "\<forall>d \<in> set ds. printable d" and "\<exists>d \<in> set ds. four_symbols d"
  shows "\<exists>rest ds'. rest \<noteq> [] \<and> (\<forall>d \<in> set ds'. printable d) \<and>
    nt_separated_list0 N (nt_tag N '','') (Directive_parse N) (join_with '','' (map shown ds)) = IOk rest ds'"
  using assms(2,3)
proof (induction ds)
  case (Cons d ds)
  let ?rest = "if ds = [] then [] else '','' @ join_with '','' (map shown ds)"
  have d: "Directive_parse N (shown d @ ?rest) =
      (if four_symbols d then IOk (''s'' @ ?rest) (without_setid d) else IOk ?rest d)"
    using Cons.prems by (intro Directive_parse_shown [OF N]) (auto simp: delimited_def)
  show ?case
  proof (cases "four_symbols d")
    case True
    then show ?thesis
      using d Cons.prems
      by (simp add: join_with_Cons separated_last [OF nom_separated [OF N]] nom_tag_simp [OF N] printable_without_setid)
  next
    case False
    then obtain e es where ds: "ds = e # es"
      using Cons.prems by (cases ds) auto
    have more: "Directive_parse N (join_with '','' (map shown ds)) \<noteq> IErr NomError"
      using ds Cons.prems by (auto simp: join_with_Cons Directive_parse_shown [OF N] delimited_def)
    obtain rest ds' where "rest \<noteq> []" "\<forall>d \<in> set ds'. printable d"
      "nt_separated_list0 N (nt_tag N '','') (Directive_parse N) (join_with '','' (map shown ds)) = IOk rest ds'"
      using Cons False by auto
    moreover have "nt_separated_list0 N (nt_tag N '','') (Directive_parse N) (join_with '','' (map shown (d # ds))) =
        ibind (nt_separated_list0 N (nt_tag N '','') (Directive_parse N) (join_with '','' (map shown ds)))
          (\<lambda>l xs. IOk l (d # xs))"
      using d False ds more
      by (subst separated_step [OF nom_separated [OF N], of _ _ ?rest d _ "join_with '','' (map shown ds)"])
        (auto simp: join_with_Cons nom_tag_simp [OF N])
    ultimately show ?thesis
      using Cons.prems by simp
  qed
qed simp

section \<open>The directives of a mode\<close>

definition mode_directives :: "FileMode \<Rightarrow> Directive list" where
  "mode_directives m =
     (let u = Mode_user m; g = Mode_group m
      in (if permission_bits u \<noteq> 0 \<or> setuid m then [Add CHR ''u'' (setuid m) u] else []) @
         (if permission_bits g \<noteq> 0 \<or> setuid m
          then [Add CHR ''g'' (if permission_bits g = 0 then setuid m else setgid m) g] else []) @
         (if permission_bits (Mode_other m) \<noteq> 0 then [Add CHR ''o'' False (Mode_other m)] else []) @
         (if sticky m then [Sticky] else []))"

lemma Permissions_to_string_zero: "permission_bits p = 0 \<Longrightarrow> Permissions_to_string p = []"
  by (cases p) (simp add: Permissions_to_string_def Permissions_read_def Permissions_write_def Permissions_execute_def)

lemma mode_parts_shown: "mode_parts m = map shown (mode_directives m)"
  by (simp add: mode_parts_def mode_directives_def Let_def symbols_of_def Permissions_to_string_zero)

lemma permissions_of_nat: "n < 8 \<Longrightarrow> (of_nat n :: byte) \<in> set permissions"
proof -
  assume "n < 8"
  then consider "n = 0" | "n = 1" | "n = 2" | "n = 3" | "n = 4" | "n = 5" | "n = 6" | "n = 7"
    by linarith
  then show ?thesis
    by cases (simp_all add: permissions_def)
qed

lemma octal_digit_permissions: "(ucast ((w :: u32) AND 7) :: byte) \<in> set permissions"
proof -
  have "w AND 7 \<le> 7"
    by (rule word_and_le1)
  then have "unat (w AND 7) < 8"
    by (simp add: word_le_nat_alt)
  then show ?thesis
    using permissions_of_nat [of "unat (w AND 7)"] by simp
qed

lemma mode_directives_printable: "d \<in> set (mode_directives m) \<Longrightarrow> printable d"
proof -
  have "permission_bits (Mode_user m) \<in> set permissions" "permission_bits (Mode_group m) \<in> set permissions"
    "permission_bits (Mode_other m) \<in> set permissions"
    by (simp_all add: Mode_user_def Mode_group_def Mode_other_def octal_digit_permissions)
  then show "d \<in> set (mode_directives m) \<Longrightarrow> printable d"
    by (auto simp: mode_directives_def Let_def split: if_splits)
qed

definition unprintable :: "FileMode \<Rightarrow> bool" where
  "unprintable m \<longleftrightarrow> permission_bits (Mode_user m) = 7 \<and> setuid m \<or> permission_bits (Mode_group m) = 7 \<and> setgid m"

lemma mode_directives_four: "(\<exists>d \<in> set (mode_directives m). four_symbols d) \<longleftrightarrow> unprintable m"
  by (auto simp: mode_directives_def Let_def unprintable_def)

definition printed_setgid :: "FileMode \<Rightarrow> bool" where
  "printed_setgid m \<longleftrightarrow> (if permission_bits (Mode_group m) = 0 then setuid m else setgid m)"

definition reread_mode :: "FileMode \<Rightarrow> FileMode" where
  "reread_mode m = FileMode (mode_bits m AND 0xBFF OR (if printed_setgid m then 0x400 else 0))"

lemma combine_mode_directives:
  "combine_masks (mode_directives m) 0 = Some (FileMode (
     push_bit 6 (ucast (permission_bits (Mode_user m))) OR (if setuid m then 0x800 else 0) OR
     push_bit 3 (ucast (permission_bits (Mode_group m))) OR (if printed_setgid m then 0x400 else 0) OR
     ucast (permission_bits (Mode_other m)) OR (if sticky m then 0x200 else 0)))"
  by (simp add: mode_directives_def Let_def Directive_mask_def printed_setgid_def ac_simps)

lemma octal_digit_at:
  "push_bit n (ucast (ucast (drop_bit n b AND 7 :: u32) :: byte)) = (b AND push_bit n 7 :: u32)"
proof (rule bit_word_eqI)
  fix i assume "i < LENGTH(32)"
  have e: "(7 :: u32) = mask 3"
    by (simp add: mask_eq_exp_minus_1)
  show "bit (push_bit n (ucast (ucast (drop_bit n b AND 7) :: byte)) :: u32) i = bit (b AND push_bit n 7) i"
    using \<open>i < LENGTH(32)\<close> unfolding e by (auto simp: bit_simps)
qed

lemma octal_digits_at:
  "push_bit 6 (ucast (permission_bits (Mode_user m))) = mode_bits m AND 0x1C0"
  "push_bit 3 (ucast (permission_bits (Mode_group m))) = mode_bits m AND 0x38"
  "ucast (permission_bits (Mode_other m)) = mode_bits m AND 7"
  using octal_digit_at [of 6 "mode_bits m"] octal_digit_at [of 3 "mode_bits m"] octal_digit_at [of 0 "mode_bits m"]
  by (simp_all only: Mode_user_def Mode_group_def Mode_other_def permission_bits.simps) simp_all

lemma flag_at: "(if b AND 2 ^ n \<noteq> (0 :: u32) then 2 ^ n else 0) = b AND 2 ^ n"
  by (auto simp: and_exp_eq_0_iff_not_bit bit_simps intro!: bit_word_eqI)

lemma flags_at:
  "(if setuid m then 0x800 else 0) = mode_bits m AND 0x800"
  "(if sticky m then 0x200 else 0) = mode_bits m AND 0x200"
proof -
  have "(2 :: u32) ^ 11 = 0x800" "(2 :: u32) ^ 9 = 0x200"
    by simp_all
  then show "(if setuid m then 0x800 else 0) = mode_bits m AND 0x800" "(if sticky m then 0x200 else 0) = mode_bits m AND 0x200"
    using flag_at [of "mode_bits m" 11] flag_at [of "mode_bits m" 9] by (simp_all only: setuid_def sticky_def)
qed

lemma reread_mode_directives: "combine_masks (mode_directives m) 0 = Some (reread_mode m)"
proof -
  have "(b :: u32) AND 0x1C0 OR b AND 0x800 OR b AND 0x38 OR g OR b AND 7 OR b AND 0x200 = b AND 0xBFF OR g" for b g
  proof -
    have "b AND 0xBFF = b AND (0x1C0 OR 0x800 OR 0x38 OR 7 OR 0x200)"
      by simp
    then show ?thesis
      by (simp only: bit.conj_disj_distrib ac_simps)
  qed
  then show ?thesis
    unfolding combine_mode_directives reread_mode_def octal_digits_at flags_at by simp
qed

lemma parse_shown_mode:
  assumes N: "nom_mode_documented N"
  shows "Mode_from_str N (Mode_to_string m) = (if unprintable m then Inl ParseError else Inr (reread_mode m))"
proof (cases "unprintable m")
  case True
  then obtain rest ds where "rest \<noteq> []" "\<forall>d \<in> set ds. printable d"
    "nt_separated_list0 N (nt_tag N '','') (Directive_parse N) (join_with '','' (mode_parts m)) = IOk rest ds"
    using directives_stop [OF N] mode_directives_printable mode_directives_four unfolding mode_parts_shown by metis
  then show ?thesis
    using True combine_masks_returns [of ds 0]
    by (auto simp: Mode_from_str_def nom_all_consuming [OF N] Mode_to_string_def Mode_parse_def panic_unless_def)
next
  case False
  then have "nt_separated_list0 N (nt_tag N '','') (Directive_parse N) (join_with '','' (mode_parts m)) =
      IOk [] (mode_directives m)"
    using mode_directives_printable mode_directives_four unfolding mode_parts_shown
    by (intro documented_mode.directives_parse [OF documented_mode.intro [OF N]]) blast
  then show ?thesis
    using False reread_mode_directives
    by (simp add: Mode_from_str_def nom_all_consuming [OF N] Mode_to_string_def Mode_parse_def panic_unless_def)
qed

lemma reread_mode_eq: "mode_bits m AND 0xFFF = mode_bits m \<Longrightarrow> reread_mode m = m \<longleftrightarrow> (printed_setgid m \<longleftrightarrow> setgid m)"
proof -
  assume m: "mode_bits m AND 0xFFF = mode_bits m"
  have g: "setgid m \<longleftrightarrow> bit (mode_bits m) 10"
    using and_exp_eq_0_iff_not_bit [of "mode_bits m" 10] by (simp add: setgid_def)
  have "mode_bits m = mode_bits m AND (0xBFF OR 0x400)"
    using m by simp
  then have "mode_bits m = mode_bits m AND 0xBFF OR mode_bits m AND 0x400"
    by (simp only: bit.conj_disj_distrib)
  moreover have "(if setgid m then 0x400 else 0) = mode_bits m AND 0x400"
    using flag_at [of "mode_bits m" 10] by (simp add: setgid_def split: if_splits)
  moreover have "bit (mode_bits (reread_mode m)) 10 \<longleftrightarrow> printed_setgid m"
    by (simp add: reread_mode_def bit_simps)
  ultimately show ?thesis
    using g by (cases m) (auto simp: reread_mode_def)
qed

text \<open>C26. For a mode of the twelve permission bits, parsing what \<open>Display\<close> prints gives the mode back in exactly
  these cases: neither user nor group has all three permissions together with its set-ID bit (four symbols are
  not parsed), and where the group has no permission the set-user-ID and the set-group-ID bit agree (\<open>Display\<close>
  asks for the wrong one).\<close>

theorem mode_display_round_trip:
  assumes "nom_mode_documented N" and "m = Mode_new bits"
  shows "Mode_from_str N (Mode_to_string m) = Inr m \<longleftrightarrow>
    \<not> (permission_bits (Mode_user m) = 7 \<and> setuid m) \<and> \<not> (permission_bits (Mode_group m) = 7 \<and> setgid m) \<and>
    (permission_bits (Mode_group m) = 0 \<longrightarrow> (setuid m \<longleftrightarrow> setgid m))"
proof -
  have "mode_bits m AND 0xFFF = mode_bits m"
    using assms(2) by (simp add: Mode_new_def)
  then show ?thesis
    using parse_shown_mode [OF assms(1), of m] reread_mode_eq [of m]
    by (auto simp: unprintable_def printed_setgid_def)
qed

theorem mode_display_round_trip_witness:
  "Mode_from_str example_nom_mode (Mode_to_string (Mode_new 0x849)) = Inr (Mode_new 0x849)"
  using mode_display_round_trip [OF example_nom_mode_documented, of "Mode_new 0x849" "0x849"]
  by (simp add: Mode_user_def Mode_group_def Mode_new_def setuid_def setgid_def)

text \<open>The symbolic forms of the tests, and octal permissions: two digits reach the bits of another class, three
  can be more than a byte holds.\<close>

lemma mode_display_examples:
  "Mode_to_string (Mode_new 0x1EC) = ''u+rwx,g+rx,o+r''" "Mode_to_string (Mode_new 0x849) = ''u+xs,g+x,o+x''"
  "Mode_to_string (Mode_new 0x3A4) = ''u+rw,g+r,o+r,t''"
  by code_simp+

lemma octal_permissions:
  "Mode_from_str example_nom_mode ''o+77'' = Inr (FileMode 0x3F)"
  "Mode_from_str example_nom_mode ''u+777'' = Inl TextPanic"
  by code_simp+

end
