(* ===== verification/Userns.thy ===== *)
theory Userns
  imports Decimal
begin

text \<open>
  \<open>antlir2/antlir2_userns/src\<close>: ids and offsets (\<open>lib.rs\<close>), the mapping of ids between a user namespace and
  its parent (\<open>ns.rs\<close>), and the ranges of subordinate ids (\<open>subid.rs\<close>). \<open>Uid\<close> and \<open>Gid\<close> are transparent
  wrappers of \<open>u32\<close> with the same operations, so an id of the trait \<open>Id\<close> is a \<open>u32\<close>. The additions panic on
  overflow, as in a build with overflow checks.
\<close>

section \<open>Ids and offsets\<close>

type_synonym id_value = u32

datatype IdOffset = IdOffset u32

datatype userns_error = WrongFieldCount | BadUser | BadInner | BadOuter | BadStart | BadLen | Overflow

primrec IdOffset_as_u32 :: "IdOffset \<Rightarrow> u32" where
  "IdOffset_as_u32 (IdOffset n) = n"

definition Id_add :: "id_value \<Rightarrow> IdOffset \<Rightarrow> userns_error + id_value" where
  "Id_add i offset =
     (if unat i + unat (IdOffset_as_u32 offset) < 2 ^ 32 then Inr (i + IdOffset_as_u32 offset) else Inl Overflow)"

definition Id_sub :: "id_value \<Rightarrow> IdOffset \<Rightarrow> userns_error + id_value" where
  "Id_sub i offset = (if IdOffset_as_u32 offset \<le> i then Inr (i - IdOffset_as_u32 offset) else Inl Overflow)"

definition Id_from_str :: "userns_error \<Rightarrow> string \<Rightarrow> userns_error + id_value" where
  "Id_from_str context s = (case parse_u32 s of Some w \<Rightarrow> Inr w | None \<Rightarrow> Inl context)"

definition IdOffset_from_str :: "userns_error \<Rightarrow> string \<Rightarrow> userns_error + IdOffset" where
  "IdOffset_from_str context s = (case parse_u32 s of Some w \<Rightarrow> Inr (IdOffset w) | None \<Rightarrow> Inl context)"

definition ubind :: "userns_error + 'a \<Rightarrow> ('a \<Rightarrow> userns_error + 'b) \<Rightarrow> userns_error + 'b" where
  "ubind m f = (case m of Inl e \<Rightarrow> Inl e | Inr x \<Rightarrow> f x)"

lemma ubind_simps [simp]: "ubind (Inl e) f = Inl e" "ubind (Inr x) f = f x"
  by (simp_all add: ubind_def)

lemma ubind_eq_Inr_iff: "ubind m f = Inr y \<longleftrightarrow> (\<exists>x. m = Inr x \<and> f x = Inr y)"
  by (cases m) simp_all

section \<open>Namespace mappings\<close>

datatype Inner = Inner id_value

datatype Outer = Outer id_value

primrec Inner_as_id :: "Inner \<Rightarrow> id_value" where
  "Inner_as_id (Inner i) = i"

primrec Outer_as_id :: "Outer \<Rightarrow> id_value" where
  "Outer_as_id (Outer i) = i"

record ns_Range =
  nr_inner :: Inner
  nr_outer :: Outer
  nr_len :: IdOffset

record NsMapping =
  nm_ranges :: "ns_Range list"

definition Range_to_outer :: "ns_Range \<Rightarrow> Inner \<Rightarrow> userns_error + Outer option" where
  "Range_to_outer r inner =
     ubind (Id_add (Inner_as_id (nr_inner r)) (nr_len r)) (\<lambda>max.
     if Inner_as_id (nr_inner r) \<le> Inner_as_id inner \<and> Inner_as_id inner < max
     then let offset = IdOffset (Inner_as_id inner - Inner_as_id (nr_inner r))
          in ubind (Id_add (Outer_as_id (nr_outer r)) offset) (\<lambda>out. Inr (Some (Outer out)))
     else Inr None)"

definition Range_to_inner :: "ns_Range \<Rightarrow> Outer \<Rightarrow> userns_error + Inner option" where
  "Range_to_inner r outer =
     ubind (Id_add (Outer_as_id (nr_outer r)) (nr_len r)) (\<lambda>max.
     if Outer_as_id (nr_outer r) \<le> Outer_as_id outer \<and> Outer_as_id outer < max
     then let offset = IdOffset (Outer_as_id outer - Outer_as_id (nr_outer r))
          in ubind (Id_add (Inner_as_id (nr_inner r)) offset) (\<lambda>inn. Inr (Some (Inner inn)))
     else Inr None)"

definition Range_from_str :: "string \<Rightarrow> userns_error + ns_Range" where
  "Range_from_str s =
     (case split_spaces s of
        [inner, outer, len] \<Rightarrow>
          ubind (Id_from_str BadInner inner) (\<lambda>i.
          ubind (Id_from_str BadOuter outer) (\<lambda>out.
          ubind (IdOffset_from_str BadLen len) (\<lambda>n.
          Inr \<lparr>nr_inner = Inner i, nr_outer = Outer out, nr_len = n\<rparr>)))
      | _ \<Rightarrow> Inl WrongFieldCount)"

text \<open>\<open>collect::<Result<_>>\<close> stops at the first error.\<close>

fun collect_results :: "('a \<Rightarrow> userns_error + 'b) \<Rightarrow> 'a list \<Rightarrow> userns_error + 'b list" where
  "collect_results f [] = Inr []"
| "collect_results f (x # xs) = ubind (f x) (\<lambda>y. ubind (collect_results f xs) (\<lambda>ys. Inr (y # ys)))"

definition NsMapping_from_str :: "string \<Rightarrow> userns_error + NsMapping" where
  "NsMapping_from_str s = ubind (collect_results Range_from_str (lines_of s)) (\<lambda>ranges. Inr \<lparr>nm_ranges = ranges\<rparr>)"

text \<open>\<open>filter_map(f).next()\<close>: the first range that gives a result, and no call after it.\<close>

fun first_some :: "('r \<Rightarrow> userns_error + 'a option) \<Rightarrow> 'r list \<Rightarrow> userns_error + 'a option" where
  "first_some f [] = Inr None"
| "first_some f (r # rs) = ubind (f r) (\<lambda>x. case x of Some y \<Rightarrow> Inr (Some y) | None \<Rightarrow> first_some f rs)"

definition NsMapping_to_outer :: "NsMapping \<Rightarrow> Inner \<Rightarrow> userns_error + Outer option" where
  "NsMapping_to_outer m inner = first_some (\<lambda>r. Range_to_outer r inner) (nm_ranges m)"

definition NsMapping_to_inner :: "NsMapping \<Rightarrow> Outer \<Rightarrow> userns_error + Inner option" where
  "NsMapping_to_inner m outer = first_some (\<lambda>r. Range_to_inner r outer) (nm_ranges m)"

definition proc_map_line :: "ns_Range \<Rightarrow> string" where
  "proc_map_line r =
     show_u32 (Inner_as_id (nr_inner r)) @ '' '' @ show_u32 (Outer_as_id (nr_outer r)) @ '' '' @
     show_u32 (IdOffset_as_u32 (nr_len r))"

definition to_proc_map :: "NsMapping \<Rightarrow> string" where
  "to_proc_map m = concat (map (\<lambda>r. proc_map_line r @ [CHR 0x0A]) (nm_ranges m))"

section \<open>Subordinate ids\<close>

datatype User = UserWithId id_value | UserWithName string

record sub_Range =
  sr_start :: id_value
  sr_len :: IdOffset

record SubMapping =
  sm_user :: User
  sm_range :: sub_Range

definition SubMapping_from_str :: "string \<Rightarrow> userns_error + SubMapping" where
  "SubMapping_from_str s =
     (case split_at CHR '':'' s of
        [user, start, len] \<Rightarrow>
          let user = (case parse_u32 user of Some i \<Rightarrow> UserWithId i | None \<Rightarrow> UserWithName user)
          in ubind (Id_from_str BadStart start) (\<lambda>first.
             ubind (IdOffset_from_str BadLen len) (\<lambda>n.
             Inr \<lparr>sm_user = user, sm_range = \<lparr>sr_start = first, sr_len = n\<rparr>\<rparr>))
      | _ \<Rightarrow> Inl WrongFieldCount)"

definition Range_identity :: sub_Range where
  "Range_identity = \<lparr>sr_start = 0, sr_len = IdOffset 65536\<rparr>"

record IdMap =
  im_users :: "User \<rightharpoonup> sub_Range list"

fun insert_mappings :: "string list \<Rightarrow> (User \<rightharpoonup> sub_Range list) \<Rightarrow> userns_error + (User \<rightharpoonup> sub_Range list)" where
  "insert_mappings [] users = Inr users"
| "insert_mappings (line # ls) users =
     ubind (SubMapping_from_str line) (\<lambda>m.
     let ranges = (case users (sm_user m) of Some rs \<Rightarrow> rs | None \<Rightarrow> [])
     in insert_mappings ls (users(sm_user m \<mapsto> ranges @ [sm_range m])))"

definition IdMap_from_str :: "string \<Rightarrow> userns_error + IdMap" where
  "IdMap_from_str s = ubind (insert_mappings (lines_of s) Map.empty) (\<lambda>users. Inr \<lparr>im_users = users\<rparr>)"

definition IdMap_ranges :: "IdMap \<Rightarrow> User \<Rightarrow> sub_Range list option" where
  "IdMap_ranges m user = im_users m user"

definition IdMap_best :: "IdMap \<Rightarrow> User \<Rightarrow> sub_Range option" where
  "IdMap_best m user =
     (case IdMap_ranges m user of
        Some ranges \<Rightarrow> find (\<lambda>range. IdOffset_as_u32 (sr_len range) = 65536) ranges
      | None \<Rightarrow> None)"

section \<open>The proc map\<close>

lemma digit_not_space: "is_digit c \<Longrightarrow> \<not> is_space c"
  unfolding is_digit_def is_space_def by (elim set_ConsD [elim_format] disjE) simp_all

lemma show_u32_no_space: "\<forall>c \<in> set (show_u32 w). \<not> is_space c"
  using show_u32_digits [of w] by (simp add: list_all_iff digit_not_space)

lemma Range_from_proc_map: "Range_from_str (proc_map_line r) = Inr r"
proof -
  obtain i out n where r: "nr_inner r = Inner i" "nr_outer r = Outer out" "nr_len r = IdOffset n"
    by (cases "nr_inner r"; cases "nr_outer r"; cases "nr_len r")
  have "split_spaces (proc_map_line r) = [show_u32 i, show_u32 out, show_u32 n]"
    using show_u32_no_space
    by (simp add: r proc_map_line_def split_spaces_append split_spaces_word is_space_def)
  then show ?thesis
    by (simp add: Range_from_str_def Id_from_str_def IdOffset_from_str_def parse_u32_show flip: r)
qed

lemma proc_map_line_free: "CHR 0x0A \<notin> set (proc_map_line r)" "last (proc_map_line r) \<noteq> CHR 0x0D"
proof -
  have "\<not> is_digit (CHR 0x0A)" "\<not> is_digit (CHR 0x0D)"
    by (simp_all add: is_digit_def)
  then show "CHR 0x0A \<notin> set (proc_map_line r)"
    by (simp add: proc_map_line_def show_u32_free)
  have "last (show_u32 w) \<noteq> CHR 0x0D" for w
    using last_in_set [of "show_u32 w"] show_u32_free [OF \<open>\<not> is_digit (CHR 0x0D)\<close>, of w] by force
  then show "last (proc_map_line r) \<noteq> CHR 0x0D"
    by (simp add: proc_map_line_def)
qed

lemma collect_results_map: "(\<And>x. f (g x) = Inr x) \<Longrightarrow> collect_results f (map g xs) = Inr xs"
  by (induction xs) simp_all

text \<open>The map that is written to \<open>/proc\<close> is read back as the same mapping, whatever the ranges are.\<close>

theorem proc_map_round_trip: "NsMapping_from_str (to_proc_map m) = Inr m"
proof -
  have "lines_of (to_proc_map m) = map proc_map_line (nm_ranges m)"
    using lines_of_lines [of "map proc_map_line (nm_ranges m)"] proc_map_line_free
    by (simp add: to_proc_map_def comp_def)
  then show ?thesis
    by (simp add: NsMapping_from_str_def collect_results_map Range_from_proc_map)
qed

section \<open>The two directions of a mapping\<close>

definition range_ids :: "id_value \<Rightarrow> IdOffset \<Rightarrow> nat set" where
  "range_ids start len = {unat start ..< unat start + unat (IdOffset_as_u32 len)}"

definition inner_ids :: "ns_Range \<Rightarrow> nat set" where
  "inner_ids r = range_ids (Inner_as_id (nr_inner r)) (nr_len r)"

definition outer_ids :: "ns_Range \<Rightarrow> nat set" where
  "outer_ids r = range_ids (Outer_as_id (nr_outer r)) (nr_len r)"

text \<open>No range ends above the ids, and no two ranges share an id, on either side: what the kernel demands
  of a map.\<close>

definition range_in_bounds :: "ns_Range \<Rightarrow> bool" where
  "range_in_bounds r \<longleftrightarrow>
     unat (Inner_as_id (nr_inner r)) + unat (IdOffset_as_u32 (nr_len r)) < 2 ^ 32 \<and>
     unat (Outer_as_id (nr_outer r)) + unat (IdOffset_as_u32 (nr_len r)) < 2 ^ 32"

definition kernel_map :: "NsMapping \<Rightarrow> bool" where
  "kernel_map m \<longleftrightarrow>
     list_all range_in_bounds (nm_ranges m) \<and>
     sorted_wrt (\<lambda>r s. inner_ids r \<inter> inner_ids s = {} \<and> outer_ids r \<inter> outer_ids s = {}) (nm_ranges m)"

lemma Id_add_small: "unat i + unat n < 2 ^ 32 \<Longrightarrow> Id_add i (IdOffset n) = Inr (i + n)"
  by (simp add: Id_add_def)

lemma unat_add_small: "unat (i :: u32) + unat n < 2 ^ 32 \<Longrightarrow> unat (i + n) = unat i + unat n"
  by (simp add: unat_add_lem [THEN iffD1])

text \<open>What both directions of a range describe: the two ids have the same distance from its starts.\<close>

definition linked :: "ns_Range \<Rightarrow> Inner \<Rightarrow> Outer \<Rightarrow> bool" where
  "linked r i out \<longleftrightarrow>
     unat (Inner_as_id i) \<in> inner_ids r \<and> unat (Outer_as_id out) \<in> outer_ids r \<and>
     unat (Inner_as_id i) + unat (Outer_as_id (nr_outer r)) = unat (Outer_as_id out) + unat (Inner_as_id (nr_inner r))"

lemma translate_id:
  fixes x a b n :: u32
  assumes "unat a + unat n < 2 ^ 32" and "unat b + unat n < 2 ^ 32"
  shows "a \<le> x \<and> x < a + n \<longleftrightarrow> unat x \<in> {unat a ..< unat a + unat n}"
    and "unat x \<in> {unat a ..< unat a + unat n} \<Longrightarrow>
      unat b + unat (x - a) < 2 ^ 32 \<and>
      (w = b + (x - a) \<longleftrightarrow> unat w \<in> {unat b ..< unat b + unat n} \<and> unat x + unat b = unat w + unat a)"
proof -
  show "a \<le> x \<and> x < a + n \<longleftrightarrow> unat x \<in> {unat a ..< unat a + unat n}"
    using assms(1) by (simp add: word_le_nat_alt word_less_nat_alt unat_add_small)
  assume x: "unat x \<in> {unat a ..< unat a + unat n}"
  then have s: "unat (x - a) = unat x - unat a"
    by (simp add: unat_sub word_le_nat_alt)
  then have f: "unat b + unat (x - a) < 2 ^ 32"
    using x assms(2) by simp linarith
  have "w = b + (x - a) \<longleftrightarrow> unat w = unat b + (unat x - unat a)"
    using unat_add_small [OF f] s by (metis word_unat_eq_iff)
  then show "unat b + unat (x - a) < 2 ^ 32 \<and>
      (w = b + (x - a) \<longleftrightarrow> unat w \<in> {unat b ..< unat b + unat n} \<and> unat x + unat b = unat w + unat a)"
    using f x by auto
qed

lemma range_translates:
  assumes "range_in_bounds r"
  shows "\<exists>y. Range_to_outer r i = Inr y \<and> (\<forall>out. y = Some out \<longleftrightarrow> linked r i out)"
    and "\<exists>y. Range_to_inner r out = Inr y \<and> (\<forall>i. y = Some i \<longleftrightarrow> linked r i out)"
proof -
  obtain a b n where r: "nr_inner r = Inner a" "nr_outer r = Outer b" "nr_len r = IdOffset n"
    by (cases "nr_inner r"; cases "nr_outer r"; cases "nr_len r")
  have bounds: "unat a + unat n < 2 ^ 32" "unat b + unat n < 2 ^ 32"
    using assms by (simp_all add: range_in_bounds_def r)
  have link: "linked r (Inner x) (Outer w) \<longleftrightarrow> unat x \<in> {unat a ..< unat a + unat n} \<and>
      unat w \<in> {unat b ..< unat b + unat n} \<and> unat x + unat b = unat w + unat a" for x w
    by (simp add: linked_def inner_ids_def outer_ids_def range_ids_def r)
  show "\<exists>y. Range_to_outer r i = Inr y \<and> (\<forall>out. y = Some out \<longleftrightarrow> linked r i out)"
  proof (cases i)
    case (Inner x)
    have "Some (Outer (b + (x - a))) = Some out \<longleftrightarrow> linked r i out" if "unat x \<in> {unat a ..< unat a + unat n}" for out
      using translate_id(2) [OF bounds that, of "Outer_as_id out"] that Inner link by (cases out) auto
    moreover have "\<not> linked r i out" if "unat x \<notin> {unat a ..< unat a + unat n}" for out
      using that Inner link by (cases out) auto
    ultimately show ?thesis
      using translate_id [OF bounds, of x] Inner
      by (simp add: Range_to_outer_def r Id_add_small [OF bounds(1)] Id_add_small Let_def)
  qed
  show "\<exists>y. Range_to_inner r out = Inr y \<and> (\<forall>i. y = Some i \<longleftrightarrow> linked r i out)"
  proof (cases out)
    case (Outer z)
    have "Some (Inner (a + (z - b))) = Some i \<longleftrightarrow> linked r i out" if "unat z \<in> {unat b ..< unat b + unat n}" for i
      using translate_id(2) [OF bounds(2,1) that, of "Inner_as_id i"] that Outer link by (cases i) auto
    moreover have "\<not> linked r i out" if "unat z \<notin> {unat b ..< unat b + unat n}" for i
      using that Outer link by (cases i) auto
    ultimately show ?thesis
      using translate_id [OF bounds(2,1), of z] Outer
      by (simp add: Range_to_inner_def r Id_add_small [OF bounds(2)] Id_add_small Let_def)
  qed
qed

text \<open>With disjoint ranges the first range that gives a result is the only one.\<close>

lemma first_some_unique:
  assumes "\<forall>r \<in> set rs. \<exists>y. f r = Inr y \<and> (\<forall>x. y = Some x \<longleftrightarrow> R r x)"
    and "sorted_wrt (\<lambda>r s. \<not> ((\<exists>x. R r x) \<and> (\<exists>x. R s x))) rs"
  shows "\<exists>y. first_some f rs = Inr y \<and> (\<forall>x. y = Some x \<longleftrightarrow> (\<exists>r \<in> set rs. R r x))"
  using assms
proof (induction rs)
  case (Cons r rs)
  obtain y where y: "f r = Inr y" "\<forall>x. y = Some x \<longleftrightarrow> R r x"
    using Cons.prems by auto
  show ?case
  proof (cases y)
    case None
    then show ?thesis
      using Cons y by auto
  next
    case (Some x)
    then have "\<forall>x'. R r x' \<longleftrightarrow> x' = x"
      using y(2) by (metis option.inject)
    then show ?thesis
      using Cons.prems(2) y(1) Some by (intro exI [of _ "Some x"]) auto
  qed
qed simp

lemma mapping_translates:
  assumes "kernel_map m"
  shows "\<exists>y. NsMapping_to_outer m i = Inr y \<and> (\<forall>out. y = Some out \<longleftrightarrow> (\<exists>r \<in> set (nm_ranges m). linked r i out))"
    and "\<exists>y. NsMapping_to_inner m out = Inr y \<and> (\<forall>i. y = Some i \<longleftrightarrow> (\<exists>r \<in> set (nm_ranges m). linked r i out))"
proof -
  have bounds: "\<forall>r \<in> set (nm_ranges m). range_in_bounds r"
    using assms by (simp add: kernel_map_def list_all_iff)
  have "sorted_wrt (\<lambda>r s. inner_ids r \<inter> inner_ids s = {} \<and> outer_ids r \<inter> outer_ids s = {}) (nm_ranges m)"
    using assms by (simp add: kernel_map_def)
  then have disj: "sorted_wrt (\<lambda>r s. \<not> ((\<exists>out. linked r i out) \<and> (\<exists>out. linked s i out))) (nm_ranges m)"
    "sorted_wrt (\<lambda>r s. \<not> ((\<exists>i. linked r i out) \<and> (\<exists>i. linked s i out))) (nm_ranges m)"
    by (rule sorted_wrt_mono_rel [rotated]; auto simp: linked_def)+
  show "\<exists>y. NsMapping_to_outer m i = Inr y \<and> (\<forall>out. y = Some out \<longleftrightarrow> (\<exists>r \<in> set (nm_ranges m). linked r i out))"
    unfolding NsMapping_to_outer_def using bounds range_translates(1) disj(1) by (intro first_some_unique) blast+
  show "\<exists>y. NsMapping_to_inner m out = Inr y \<and> (\<forall>i. y = Some i \<longleftrightarrow> (\<exists>r \<in> set (nm_ranges m). linked r i out))"
    unfolding NsMapping_to_inner_def using bounds range_translates(2) disj(2) by (intro first_some_unique) blast+
qed

text \<open>C27. For a mapping as the kernel accepts it, no lookup panics and the two directions are inverse to each
  other: an inner id is mapped to an outer id exactly if that outer id is mapped back to it.\<close>

theorem ns_directions_inverse:
  assumes "kernel_map m"
  shows "(\<exists>y. NsMapping_to_outer m i = Inr y) \<and> (\<exists>y. NsMapping_to_inner m out = Inr y) \<and>
    (NsMapping_to_outer m i = Inr (Some out) \<longleftrightarrow> NsMapping_to_inner m out = Inr (Some i))"
  using mapping_translates(1) [OF assms, of i] mapping_translates(2) [OF assms, of out] by auto

theorem ns_directions_inverse_witness:
  "NsMapping_to_outer
     \<lparr>nm_ranges = [\<lparr>nr_inner = Inner 0, nr_outer = Outer 100, nr_len = IdOffset 1000\<rparr>,
        \<lparr>nr_inner = Inner 5000, nr_outer = Outer 10000, nr_len = IdOffset 42\<rparr>]\<rparr> (Inner 5041) = Inr (Some (Outer 10041))"
proof -
  let ?m = "\<lparr>nm_ranges = [\<lparr>nr_inner = Inner 0, nr_outer = Outer 100, nr_len = IdOffset 1000\<rparr>,
        \<lparr>nr_inner = Inner 5000, nr_outer = Outer 10000, nr_len = IdOffset 42\<rparr>]\<rparr>"
  have "kernel_map ?m"
    by (auto simp: kernel_map_def range_in_bounds_def inner_ids_def outer_ids_def range_ids_def)
  moreover have "NsMapping_to_inner ?m (Outer 10041) = Inr (Some (Inner 5041))"
    by (simp add: NsMapping_to_inner_def Range_to_inner_def Id_add_def)
  ultimately show ?thesis
    using ns_directions_inverse [of ?m "Inner 5041" "Outer 10041"] by blast
qed

text \<open>The end of a range is computed even where the range ends with the last id: such a range panics on every
  lookup.\<close>

lemma last_id_overflows:
  "NsMapping_to_outer \<lparr>nm_ranges = [\<lparr>nr_inner = Inner 1, nr_outer = Outer 0, nr_len = IdOffset 0xFFFFFFFF\<rparr>]\<rparr> (Inner 5) = Inl Overflow"
  by (simp add: NsMapping_to_outer_def Range_to_outer_def Id_add_def)

section \<open>The ranges of a user\<close>

lemma insert_mappings_ranges:
  assumes "insert_mappings ls users = Inr users'"
  shows "\<exists>ms. map SubMapping_from_str ls = map Inr ms \<and>
    users' u = (let new = map sm_range (filter (\<lambda>m. sm_user m = u) ms)
      in if new = [] then users u else Some (case_option [] id (users u) @ new))"
  using assms
proof (induction ls arbitrary: users)
  case (Cons l ls)
  obtain m where m: "SubMapping_from_str l = Inr m"
    using Cons.prems by (auto simp: ubind_eq_Inr_iff)
  let ?users = "users(sm_user m \<mapsto> case_option [] id (users (sm_user m)) @ [sm_range m])"
  have "insert_mappings ls ?users = Inr users'"
    using Cons.prems m by (simp add: Let_def id_def split: option.splits)
  then obtain ms where "map SubMapping_from_str ls = map Inr ms"
    "users' u = (let new = map sm_range (filter (\<lambda>m. sm_user m = u) ms)
      in if new = [] then ?users u else Some (case_option [] id (?users u) @ new))"
    using Cons.IH by blast
  then show ?case
    using m by (intro exI [of _ "m # ms"]) (auto simp: Let_def)
qed simp

text \<open>The ranges of a user are those of the lines of the file for that user, in the order of the lines; a user
  has ranges exactly if it has a line; and every line of an accepted file is well-formed.\<close>

theorem subid_ranges_in_order:
  assumes "IdMap_from_str s = Inr m"
  shows "\<exists>ms. map SubMapping_from_str (lines_of s) = map Inr ms \<and>
    (\<forall>u. IdMap_ranges m u =
      (if \<exists>x \<in> set ms. sm_user x = u then Some (map sm_range (filter (\<lambda>x. sm_user x = u) ms)) else None))"
proof -
  obtain users where users: "insert_mappings (lines_of s) Map.empty = Inr users" "m = \<lparr>im_users = users\<rparr>"
    using assms by (auto simp: IdMap_from_str_def ubind_eq_Inr_iff)
  obtain ms where ms: "map SubMapping_from_str (lines_of s) = map Inr ms"
    using insert_mappings_ranges [OF users(1)] by blast
  have "ms' = ms" if "map SubMapping_from_str (lines_of s) = map Inr ms'" for ms'
    using that ms by (metis inj_map_eq_map inj_Inr)
  then show ?thesis
    using ms users insert_mappings_ranges [OF users(1)]
    by (intro exI [of _ ms]) (fastforce simp: IdMap_ranges_def Let_def filter_empty_conv)
qed

theorem subid_ranges_in_order_witness:
  "\<exists>m ms. IdMap_from_str (''foo:5:9'' @ [CHR 0x0A] @ ''7:6:2'') = Inr m \<and>
     map SubMapping_from_str (lines_of (''foo:5:9'' @ [CHR 0x0A] @ ''7:6:2'')) = map Inr ms \<and>
     IdMap_ranges m (UserWithId 8) =
       (if \<exists>x \<in> set ms. sm_user x = UserWithId 8 then Some (map sm_range (filter (\<lambda>x. sm_user x = UserWithId 8) ms)) else None)"
proof -
  let ?s = "''foo:5:9'' @ [CHR 0x0A] @ ''7:6:2''"
  have "lines_of ?s = [''foo:5:9'', ''7:6:2'']"
    by (simp add: lines_of_def strip_cr_def)
  then have "\<exists>m. IdMap_from_str ?s = Inr m"
    by (simp add: IdMap_from_str_def SubMapping_from_str_def Id_from_str_def IdOffset_from_str_def parse_u32_def parse_digits_def
        decimal_value_def digit_value_def is_digit_def)
  then obtain m where "IdMap_from_str ?s = Inr m" ..
  then show ?thesis
    using subid_ranges_in_order [of ?s m] by blast
qed

end
