(* ===== verification/Accounts_Properties.thy ===== *)
theory Accounts_Properties
  imports Accounts
begin

text \<open>
  What the features leave in the files of the layer, read back through the parsers: the databases before and after a feature
  are those that the next feature reads.
\<close>

section \<open>Databases of a layer\<close>

lemma default_fits:
  "\<forall>r \<in> set (EtcPasswd_records EtcPasswd_new). user_fits r" "\<forall>r \<in> set (EtcGroup_records EtcGroup_new). group_fits r"
  "\<forall>r \<in> set (EtcShadow_records EtcShadow_new). shadow_fits r"
  by (simp_all add: EtcPasswd_new_def EtcGroup_new_def EtcShadow_new_def user_fits_def group_fits_def member_fits_def)

lemma read_db_eq_Inr:
  "read_db from_str d f = Inr x \<longleftrightarrow> f = NotFound \<and> x = d \<or> (\<exists>s. f = Content s \<and> from_str s = Inr x)"
  by (auto simp: read_db_def split: file_state.splits sum.splits)

lemma user_db_fits: "users_nom_documented N \<Longrightarrow> user_db N L = Inr p \<Longrightarrow> r \<in> set (EtcPasswd_records p) \<Longrightarrow> user_fits r"
  using passwd_parsed_fits default_fits(1) by (auto simp: user_db_def read_db_eq_Inr users_nom_documented_def)

lemma groups_db_fits: "users_nom_documented N \<Longrightarrow> groups_db N L = Inr g \<Longrightarrow> r \<in> set (EtcGroup_records g) \<Longrightarrow> group_fits r"
  using group_parsed_fits default_fits(2) by (auto simp: groups_db_def read_db_eq_Inr users_nom_documented_def)

lemma shadow_db_fits: "users_nom_documented N \<Longrightarrow> shadow_db N L = Inr s \<Longrightarrow> r \<in> set (EtcShadow_records s) \<Longrightarrow> shadow_fits r"
  using shadow_parsed_fits default_fits(3) by (auto simp: shadow_db_def read_db_eq_Inr users_nom_documented_def)

lemma db_written:
  assumes "users_nom_documented N"
  shows "ly_files L PasswdFile = Content (EtcPasswd_to_string p) \<Longrightarrow> \<forall>r \<in> set (EtcPasswd_records p). user_fits r \<Longrightarrow> user_db N L = Inr p"
    and "ly_files L ShadowFile = Content (EtcShadow_to_string s) \<Longrightarrow> \<forall>r \<in> set (EtcShadow_records s). shadow_fits r \<Longrightarrow> shadow_db N L = Inr s"
    and "ly_files L GroupFile = Content (EtcGroup_to_string g) \<Longrightarrow> \<forall>r \<in> set (EtcGroup_records g). group_fits r \<Longrightarrow> groups_db N L = Inr g"
  using assms passwd_parses shadow_parses group_parses
  by (simp_all add: user_db_def shadow_db_def groups_db_def read_db_def users_nom_documented_def)

section \<open>Members of groups\<close>

definition with_member :: "string \<Rightarrow> nat \<Rightarrow> GroupRecord \<Rightarrow> GroupRecord" where
  "with_member u n r = r\<lparr>gr_users := gr_users r @ replicate n u\<rparr>"

lemma update_first_None: "update_first P f rs = None \<longleftrightarrow> (\<forall>r \<in> set rs. \<not> P r)"
  by (induction rs) auto

lemma find_eq_None: "find P rs = None \<longleftrightarrow> (\<forall>r \<in> set rs. \<not> P r)"
  by (auto simp: find_None_iff)

lemma update_first_find:
  assumes "update_first (\<lambda>r. gr_name r = n) f rs = Some rs'" and "\<And>r. gr_name (f r) = gr_name r"
  shows "find (\<lambda>r. gr_name r = m) rs' = map_option (if m = n then f else (\<lambda>r. r)) (find (\<lambda>r. gr_name r = m) rs)"
  using assms(1)
proof (induction rs arbitrary: rs')
  case (Cons r rs)
  then show ?case
    using assms(2) by (auto split: if_splits) (simp add: option.map_ident)
qed simp

abbreviation append_member :: "string \<Rightarrow> GroupRecord \<Rightarrow> GroupRecord" where
  "append_member u r \<equiv> r\<lparr>gr_users := gr_users r @ [u]\<rparr>"

lemma get_mut_find:
  assumes "get_group_by_name_mut g n (append_member u) = Some g'"
  shows "get_group_by_name g' m = map_option (if m = n then append_member u else (\<lambda>r. r)) (get_group_by_name g m)"
proof -
  obtain rs where "update_first (\<lambda>r. gr_name r = n) (append_member u) (EtcGroup_records g) = Some rs" "g' = EtcGroup rs"
    using assms by (auto simp: get_group_by_name_mut_def)
  then show ?thesis
    using update_first_find [of n "append_member u" "EtcGroup_records g" rs m] by (simp add: get_group_by_name_def)
qed

lemma get_mut_None: "get_group_by_name_mut g n f = None \<longleftrightarrow> get_group_by_name g n = None"
  by (simp add: get_group_by_name_mut_def get_group_by_name_def find_eq_None update_first_None)

lemma update_first_set: "update_first P f rs = Some rs' \<Longrightarrow> set rs' \<subseteq> set rs \<union> f ` set rs"
proof (induction rs arbitrary: rs')
  case (Cons r rs)
  then show ?case
    by (fastforce split: if_splits)
qed simp

lemma add_to_groups_missing:
  assumes "\<exists>n \<in> set names. get_group_by_name g n = None"
  shows "add_to_groups u names g = Inl Other"
  using assms
proof (induction names arbitrary: g)
  case (Cons n names)
  show ?case
  proof (cases "get_group_by_name_mut g n (\<lambda>r. r\<lparr>gr_users := gr_users r @ [u]\<rparr>)")
    case (Some g')
    then have "get_group_by_name g n \<noteq> None"
      using get_mut_None [of g n "append_member u"] by simp
    then have "\<exists>n \<in> set names. get_group_by_name g' n = None"
      using Cons.prems get_mut_find [OF Some] by auto
    then show ?thesis
      using Cons.IH Some by simp
  qed simp
qed simp

lemma add_to_groups_adds:
  assumes "\<forall>n \<in> set names. get_group_by_name g n \<noteq> None" and "member_fits u" and "\<forall>r \<in> set (EtcGroup_records g). group_fits r"
  shows "\<exists>g'. add_to_groups u names g = Inr g' \<and> (\<forall>r \<in> set (EtcGroup_records g'). group_fits r) \<and>
    (\<forall>m. get_group_by_name g' m = map_option (with_member u (count_list names m)) (get_group_by_name g m))"
  using assms
proof (induction names arbitrary: g)
  case Nil
  then show ?case
    by (simp add: with_member_def option.map_ident)
next
  case (Cons n names)
  obtain g1 where g1: "get_group_by_name_mut g n (append_member u) = Some g1"
    using Cons.prems(1) get_mut_None [of g n "append_member u"] by auto
  note find = get_mut_find [OF g1]
  have "\<forall>r \<in> set (EtcGroup_records g1). group_fits r"
    using g1 update_first_set Cons.prems(2,3) by (fastforce simp: get_group_by_name_mut_def group_fits_def)
  then obtain g' where "add_to_groups u names g1 = Inr g'" "\<forall>r \<in> set (EtcGroup_records g'). group_fits r"
    "\<forall>m. get_group_by_name g' m = map_option (with_member u (count_list names m)) (get_group_by_name g1 m)"
    using Cons.IH [of g1] Cons.prems find by fastforce
  then show ?case
    using g1 find by (auto simp: option.map_comp comp_def with_member_def fun_eq_iff intro!: option.map_cong)
qed

section \<open>Users\<close>

text \<open>The texts of a user feature fit the formats of the files that they are written to.\<close>

definition feature_fits :: "UserFeature \<Rightarrow> bool" where
  "feature_fits u \<longleftrightarrow> user_fits (user_record u (UserId 0) (GroupId 0)) \<and> member_fits (uf_username u)"

lemma pushed_fits:
  assumes "users_nom_documented N" and "feature_fits u"
  shows "user_db N L = Inr p \<Longrightarrow> \<forall>r \<in> set (EtcPasswd_records (EtcPasswd_push p (user_record u uid gid))). user_fits r"
    and "shadow_db N L = Inr s \<Longrightarrow>
      \<forall>r \<in> set (EtcShadow_records (EtcShadow_push s (new_shadow_record (user_record u uid gid)))). shadow_fits r"
  using assms user_db_fits [of N L p] shadow_db_fits [of N L s]
  by (auto simp: EtcPasswd_push_def EtcShadow_push_def feature_fits_def user_fits_def shadow_fits_def user_record_def
      new_shadow_record_def)

text \<open>The run of a user feature up to the loop over the groups.\<close>

definition with_user :: "EtcPasswd \<Rightarrow> EtcShadow \<Rightarrow> UserRecord \<Rightarrow> layer \<Rightarrow> layer" where
  "with_user p s r L =
     L\<lparr>ly_files := (ly_files L)(PasswdFile := Content (EtcPasswd_to_string (EtcPasswd_push p r)),
         ShadowFile := Content (EtcShadow_to_string (EtcShadow_push s (new_shadow_record r)))),
       ly_shadow_mode := Some 0\<rparr>"

lemma User_compile_start:
  assumes "user_db N L = Inr p" and "shadow_db N L = Inr s" and "groups_db N L = Inr g"
    and "user_get_uid load (uf_uid u) (uf_uidmap u) (uf_username u) = Inr uid"
    and "get_group_by_name g (uf_primary_group u) = Some pg" and "\<forall>f. ly_writable L f"
  shows "User_compile N load u L =
    (let L' = with_user p s (user_record u uid (gr_gid pg)) L
     in attempt (add_to_groups (uf_username u) (uf_supplementary_groups u @ [uf_primary_group u]) g) L' (\<lambda>groups.
        write_file GroupFile (EtcGroup_to_string groups) L' (\<lambda>L. (Inr (), L))))"
  using assms unfolding groups_db_def
  by (simp add: User_compile_def attempt_def ctx_gid_def groups_db_def write_file_def Let_def with_user_def split: sum.split)

lemma with_user_dbs:
  assumes "users_nom_documented N" and "feature_fits u" and "user_db N L = Inr p" and "shadow_db N L = Inr s"
    and "ly_files L' PasswdFile = ly_files (with_user p s (user_record u uid gid) L) PasswdFile"
    and "ly_files L' ShadowFile = ly_files (with_user p s (user_record u uid gid) L) ShadowFile"
  shows "user_db N L' = Inr (EtcPasswd_push p (user_record u uid gid))"
    and "shadow_db N L' = Inr (EtcShadow_push s (new_shadow_record (user_record u uid gid)))"
  using db_written(1,2) [OF assms(1), of L'] pushed_fits [OF assms(1,2), of L] assms(3-6) by (simp_all add: with_user_def)

text \<open>A layer without the three files, and a user in the default group.\<close>

definition empty_layer :: layer where
  "empty_layer = \<lparr>ly_files = (\<lambda>_. NotFound), ly_writable = (\<lambda>_. True), ly_shadow_mode = None\<rparr>"

definition example_user :: "string list \<Rightarrow> UserFeature" where
  "example_user groups =
     \<lparr>uf_username = ''a'', uf_uid = Some 5, uf_uidmap = [], uf_primary_group = ''root'', uf_supplementary_groups = groups,
      uf_home_dir = ''/'', uf_shell = ''/sh'', uf_comment = None\<rparr>"

lemma example_user_db:
  "user_db N empty_layer = Inr EtcPasswd_new" "shadow_db N empty_layer = Inr EtcShadow_new" "groups_db N empty_layer = Inr EtcGroup_new"
  "\<forall>f. ly_writable empty_layer f" "feature_fits (example_user groups)"
  "get_group_by_name EtcGroup_new ''root'' = Some \<lparr>gr_name = ''root'', gr_password = Shadow, gr_gid = GroupId 0, gr_users = [''root'']\<rparr>"
  "get_group_by_name EtcGroup_new ''x'' = None"
  by (simp_all add: user_db_def shadow_db_def groups_db_def read_db_def empty_layer_def feature_fits_def example_user_def user_record_def
      user_fits_def member_fits_def get_group_by_name_def EtcGroup_new_def)

text \<open>C24. If the files of the layer can be read and written, the id and the groups of the user are known and its texts fit the
  formats, the user feature succeeds; read back from the files that it has written, the user is the last record of the password
  file and has a shadow record, \<open>/etc/shadow\<close> has no permissions, and its name has been appended to each of its groups, once for
  every time the group is named, with every other group unchanged.\<close>

theorem user_feature_adds_user:
  assumes "users_nom_documented N" and "user_db N L = Inr p" and "shadow_db N L = Inr s" and "groups_db N L = Inr g"
    and "user_get_uid load (uf_uid u) (uf_uidmap u) (uf_username u) = Inr uid"
    and "get_group_by_name g (uf_primary_group u) = Some pg"
    and "\<forall>n \<in> set (uf_supplementary_groups u). get_group_by_name g n \<noteq> None"
    and "\<forall>f. ly_writable L f" and "feature_fits u"
  shows "\<exists>L' g'. User_compile N load u L = (Inr (), L') \<and>
    user_db N L' = Inr (EtcPasswd_push p (user_record u uid (gr_gid pg))) \<and>
    shadow_db N L' = Inr (EtcShadow_push s (new_shadow_record (user_record u uid (gr_gid pg)))) \<and>
    ly_shadow_mode L' = Some 0 \<and> groups_db N L' = Inr g' \<and>
    (\<forall>m. get_group_by_name g' m =
       map_option (with_member (uf_username u) (count_list (uf_supplementary_groups u @ [uf_primary_group u]) m)) (get_group_by_name g m))"
proof -
  let ?L = "with_user p s (user_record u uid (gr_gid pg)) L" and ?names = "uf_supplementary_groups u @ [uf_primary_group u]"
  obtain g' where g': "add_to_groups (uf_username u) ?names g = Inr g'" "\<forall>r \<in> set (EtcGroup_records g'). group_fits r"
    "\<forall>m. get_group_by_name g' m = map_option (with_member (uf_username u) (count_list ?names m)) (get_group_by_name g m)"
    using add_to_groups_adds [of ?names g "uf_username u"] assms(6,7,9) groups_db_fits [OF assms(1,4)]
    by (auto simp: feature_fits_def)
  let ?L' = "?L\<lparr>ly_files := (ly_files ?L)(GroupFile := Content (EtcGroup_to_string g'))\<rparr>"
  have "User_compile N load u L = (Inr (), ?L')"
    using User_compile_start [OF assms(2-6,8)] g'(1) assms(8) by (simp add: attempt_def write_file_def with_user_def)
  moreover have "groups_db N ?L' = Inr g'"
    using db_written(3) [OF assms(1)] g'(2) by simp
  ultimately show ?thesis
    using with_user_dbs [OF assms(1,9,2,3), of ?L'] g'(3) by (intro exI [of _ ?L'] exI [of _ g']) (auto simp: with_user_def)
qed

theorem user_feature_adds_user_witness:
  "\<exists>L' g'. User_compile example_users_nom (\<lambda>_. Inl ParseError) (example_user []) empty_layer = (Inr (), L') \<and>
    user_db example_users_nom L' = Inr (EtcPasswd_push EtcPasswd_new (user_record (example_user []) (UserId 5) (GroupId 0))) \<and>
    groups_db example_users_nom L' = Inr g' \<and>
    get_group_by_name g' ''root'' = Some \<lparr>gr_name = ''root'', gr_password = Shadow, gr_gid = GroupId 0, gr_users = [''root'', ''a'']\<rparr>"
proof -
  have u: "user_get_uid (\<lambda>_. Inl ParseError) (uf_uid (example_user [])) (uf_uidmap (example_user [])) (uf_username (example_user [])) = Inr (UserId 5)"
    "uf_primary_group (example_user []) = ''root''" "uf_supplementary_groups (example_user []) = []" "uf_username (example_user []) = ''a''"
    by (simp_all add: example_user_def user_get_uid_def)
  have "get_group_by_name EtcGroup_new (uf_primary_group (example_user [])) =
      Some \<lparr>gr_name = ''root'', gr_password = Shadow, gr_gid = GroupId 0, gr_users = [''root'']\<rparr>"
    by (simp add: u example_user_db)
  from user_feature_adds_user [OF example_users_nom_documented example_user_db(1-3) u(1) this _ example_user_db(4,5)]
  show ?thesis
    by (auto simp: u example_user_db(6) with_member_def)
qed

text \<open>If only a supplementary group is missing, the feature fails, but the user is already in the password and shadow
  files; the group file is as before.\<close>

theorem user_feature_missing_group:
  assumes "users_nom_documented N" and "user_db N L = Inr p" and "shadow_db N L = Inr s" and "groups_db N L = Inr g"
    and "user_get_uid load (uf_uid u) (uf_uidmap u) (uf_username u) = Inr uid"
    and "get_group_by_name g (uf_primary_group u) = Some pg"
    and "\<exists>n \<in> set (uf_supplementary_groups u). get_group_by_name g n = None"
    and "\<forall>f. ly_writable L f" and "feature_fits u"
  shows "\<exists>L'. User_compile N load u L = (Inl Other, L') \<and>
    user_db N L' = Inr (EtcPasswd_push p (user_record u uid (gr_gid pg))) \<and>
    shadow_db N L' = Inr (EtcShadow_push s (new_shadow_record (user_record u uid (gr_gid pg)))) \<and> groups_db N L' = groups_db N L"
proof -
  let ?L = "with_user p s (user_record u uid (gr_gid pg)) L"
  have "add_to_groups (uf_username u) (uf_supplementary_groups u @ [uf_primary_group u]) g = Inl Other"
    using assms(7) by (intro add_to_groups_missing) auto
  then have "User_compile N load u L = (Inl Other, ?L)"
    using User_compile_start [OF assms(2-6,8)] by (simp add: attempt_def)
  moreover have "groups_db N ?L = groups_db N L"
    by (simp add: groups_db_def with_user_def)
  ultimately show ?thesis
    using with_user_dbs [OF assms(1,9,2,3), of ?L] by (intro exI [of _ ?L]) simp
qed

theorem user_feature_missing_group_witness:
  "\<exists>L'. User_compile example_users_nom (\<lambda>_. Inl ParseError) (example_user [''x'']) empty_layer = (Inl Other, L') \<and>
    user_db example_users_nom L' = Inr (EtcPasswd_push EtcPasswd_new (user_record (example_user [''x'']) (UserId 5) (GroupId 0)))"
proof -
  have u: "user_get_uid (\<lambda>_. Inl ParseError) (uf_uid (example_user [''x''])) (uf_uidmap (example_user [''x''])) (uf_username (example_user [''x''])) = Inr (UserId 5)"
    "uf_primary_group (example_user [''x'']) = ''root''" "uf_supplementary_groups (example_user [''x'']) = [''x'']"
    by (simp_all add: example_user_def user_get_uid_def)
  have "get_group_by_name EtcGroup_new (uf_primary_group (example_user [''x''])) =
      Some \<lparr>gr_name = ''root'', gr_password = Shadow, gr_gid = GroupId 0, gr_users = [''root'']\<rparr>"
    by (simp add: u example_user_db)
  from user_feature_missing_group [OF example_users_nom_documented example_user_db(1-3) u(1) this _ example_user_db(4,5)]
  show ?thesis
    by (auto simp: u example_user_db(7))
qed

section \<open>Groups and changes of users\<close>

text \<open>A group feature appends a group without members, as read back from the file.\<close>

lemma group_feature_adds_group:
  assumes "users_nom_documented N" and "groups_db N L = Inr g" and "ly_writable L GroupFile"
    and "group_get_gid load (gf_gid f) (gf_uidmap f) (gf_groupname f) = Inr gid"
    and "gf_groupname f \<noteq> []" and "CHR '':'' \<notin> set (gf_groupname f)"
  shows "\<exists>L'. Group_compile N load f L = (Inr (), L') \<and>
    groups_db N L' = Inr (EtcGroup_push g \<lparr>gr_name = gf_groupname f, gr_password = Shadow, gr_gid = gid, gr_users = []\<rparr>)"
proof -
  let ?g = "EtcGroup_push g \<lparr>gr_name = gf_groupname f, gr_password = Shadow, gr_gid = gid, gr_users = []\<rparr>"
  have "\<forall>r \<in> set (EtcGroup_records ?g). group_fits r"
    using groups_db_fits [OF assms(1,2)] assms(5,6) by (auto simp: EtcGroup_push_def group_fits_def)
  then show ?thesis
    using assms db_written(3) [OF assms(1), of _ ?g]
    by (simp add: Group_compile_def attempt_def write_file_def Let_def)
qed

text \<open>A change of a user appends its name to the groups that it names and leaves every other group unchanged, as read back
  from the file.\<close>

lemma usermod_adds_members:
  assumes "users_nom_documented N" and "groups_db N L = Inr g" and "ly_writable L GroupFile"
    and "\<forall>n \<in> set (md_add_supplementary_groups m). get_group_by_name g n \<noteq> None" and "member_fits (md_username m)"
  shows "\<exists>L' g'. UserMod_compile N m L = (Inr (), L') \<and> groups_db N L' = Inr g' \<and>
    (\<forall>n. get_group_by_name g' n =
       map_option (with_member (md_username m) (count_list (md_add_supplementary_groups m) n)) (get_group_by_name g n))"
proof -
  obtain g' where "add_to_groups (md_username m) (md_add_supplementary_groups m) g = Inr g'"
    "\<forall>r \<in> set (EtcGroup_records g'). group_fits r"
    "\<forall>n. get_group_by_name g' n =
       map_option (with_member (md_username m) (count_list (md_add_supplementary_groups m) n)) (get_group_by_name g n)"
    using add_to_groups_adds [OF assms(4,5)] groups_db_fits [OF assms(1,2)] by blast
  then show ?thesis
    using assms db_written(3) [OF assms(1), of _ g']
    by (simp add: UserMod_compile_def attempt_def write_file_def)
qed

end
