(* ===== verification/Depgraph.thy ===== *)
theory Depgraph
  imports Depgraph_Items
begin

text \<open>
  \<open>antlir2/antlir2_depgraph/src\<close>: the dependency graph of the features of a layer (\<open>lib.rs\<close>), the resolution of
  symbolic links in it (\<open>resolve.rs\<close>) and the order in which the features are built (\<open>toposort.rs\<close>).

  The tables of the SQLite database are lists of rows in the order of their insertion, and each SQL statement of the
  source is written out on them. The columns \<open>fact_kind\<close> and \<open>fact_key\<close> of a row are always those of its key and are
  not stored. What SQLite leaves open, the row that stands for a group in an aggregate query, is a parameter, and so are
  the algorithms of petgraph. Errors of SQLite and of the serialisation are not modelled.
\<close>

section \<open>The database\<close>

record feature_row =
  fr_id :: nat
  fr_value :: Feature
  fr_pending :: bool

record item_row =
  ir_id :: nat
  ir_key :: ItemKey
  ir_value :: Item

record requires_row =
  rr_feature :: nat
  rr_item_key :: ItemKey
  rr_ordered :: bool
  rr_validator :: Validator

record facts =
  fs_dir_entry :: "string \<rightharpoonup> DirEntry"
  fs_user :: "string \<Rightarrow> bool"
  fs_group :: "string \<Rightarrow> bool"

record graph_db =
  gd_feature :: "feature_row list"
  gd_item :: "item_row list"
  gd_provides :: "(nat \<times> nat) list"
  gd_requires :: "requires_row list"
  gd_facts :: facts

datatype graph_error =
    Cycle "Feature list"
  | Conflict Item "Feature set"
  | MissingItem ItemKey Feature
  | Unsatisfied Item Validator Feature
  | GraphPanic

text \<open>\<open>facts.kind = fact_kind AND facts.key = fact_key\<close> has a row.\<close>

fun has_fact :: "facts \<Rightarrow> ItemKey \<Rightarrow> bool" where
  "has_fact F (KeyPath p) \<longleftrightarrow> fs_dir_entry F p \<noteq> None"
| "has_fact F (KeyUser u) \<longleftrightarrow> fs_user F u"
| "has_fact F (KeyGroup g) \<longleftrightarrow> fs_group F g"

text \<open>An \<open>INTEGER PRIMARY KEY\<close> that is not given is one more than the largest.\<close>

definition next_id :: "nat list \<Rightarrow> nat" where
  "next_id ids = (if ids = [] then 1 else Suc (Max (set ids)))"

section \<open>Setting up the graph\<close>

definition ambient_items :: "Item list" where
  "ambient_items =
     [ItemPath (Entry \<lparr>fe_path = ''/'', fe_file_type = Directory, fe_mode = 0x1ED\<rparr>), ItemUser ''root'', ItemGroup ''root'']"

definition insert_or_ignore :: "item_row list \<Rightarrow> nat \<times> Item \<Rightarrow> item_row list" where
  "insert_or_ignore items new =
     (case new of (i, item) \<Rightarrow>
        if \<exists>row \<in> set items. ir_id row = i then items
        else items @ [\<lparr>ir_id = i, ir_key = Item_key item, ir_value = item\<rparr>])"

definition GraphBuilder_new :: "graph_db \<Rightarrow> graph_db" where
  "GraphBuilder_new db =
     (let features = map (\<lambda>row. row\<lparr>fr_pending := False\<rparr>) (gd_feature db);
          items = filter (\<lambda>row. has_fact (gd_facts db) (ir_key row)) (gd_item db);
          provides = filter (\<lambda>(f, i). \<exists>row \<in> set items. ir_id row = i) (gd_provides db)
      in db\<lparr>gd_feature := features, gd_item := foldl insert_or_ignore items (enumerate 0 ambient_items),
            gd_provides := provides\<rparr>)"

section \<open>Adding features\<close>

definition add_provides :: "nat \<Rightarrow> graph_db \<Rightarrow> Item \<Rightarrow> graph_db" where
  "add_provides feature_id db item =
     (let item_id = next_id (map ir_id (gd_item db))
      in db\<lparr>gd_item := gd_item db @ [\<lparr>ir_id = item_id, ir_key = Item_key item, ir_value = item\<rparr>],
            gd_provides := gd_provides db @ [(feature_id, item_id)]\<rparr>)"

definition add_requires :: "nat \<Rightarrow> graph_db \<Rightarrow> Requirement \<Rightarrow> graph_db" where
  "add_requires feature_id db req =
     db\<lparr>gd_requires := gd_requires db @
       [\<lparr>rr_feature = feature_id, rr_item_key = rq_key req, rr_ordered = rq_ordered req, rr_validator = rq_validator req\<rparr>]\<rparr>"

definition add_feature :: "graph_db \<Rightarrow> AnalyzedFeature \<Rightarrow> graph_db" where
  "add_feature db feature =
     (let feature_id = next_id (map fr_id (gd_feature db));
          db = db\<lparr>gd_feature := gd_feature db @ [\<lparr>fr_id = feature_id, fr_value = af_feature feature, fr_pending = True\<rparr>]\<rparr>;
          db = foldl (add_provides feature_id) db (af_provides feature)
      in foldl (add_requires feature_id) db (af_requires feature))"

section \<open>Resolving paths\<close>

definition get_path_item :: "graph_db \<Rightarrow> string \<Rightarrow> PathItem option" where
  "get_path_item db path =
     (case find (\<lambda>row. ir_key row = KeyPath path) (gd_item db) of
        Some row \<Rightarrow> (case ir_value row of ItemPath p \<Rightarrow> Some p | _ \<Rightarrow> None)
      | None \<Rightarrow> None)"

definition get_fact :: "graph_db \<Rightarrow> string \<Rightarrow> DirEntry option" where
  "get_fact db path = fs_dir_entry (gd_facts db) path"

definition item_at :: "graph_db \<Rightarrow> string \<Rightarrow> PathItem option" where
  "item_at db path =
     (case get_path_item db path of Some p \<Rightarrow> Some p | None \<Rightarrow> map_option DirEntry_to_item (get_fact db path))"

fun resolve_step :: "string \<Rightarrow> Component \<Rightarrow> string" where
  "resolve_step canonical RootDir = path_push [] ''/''"
| "resolve_step canonical CurDir = canonical"
| "resolve_step canonical ParentDir = path_pop canonical"
| "resolve_step canonical (Normal c) = path_push canonical c"

text \<open>The loop over the components, with the recursive call on the target of a link. \<open>None\<close> is a call that does not
  return; \<open>Some None\<close> is the result \<open>Ok(None)\<close>.\<close>

partial_function (option) resolve_loop :: "graph_db \<Rightarrow> Component list \<Rightarrow> string \<Rightarrow> string option option" where
  "resolve_loop db cs canonical =
     (case cs of
        [] \<Rightarrow> Some (Some canonical)
      | component # rest \<Rightarrow>
          let canonical = resolve_step canonical component
          in case item_at db canonical of
               None \<Rightarrow> Some None
             | Some item \<Rightarrow>
                 (case item of
                    SymlinkItem link target \<Rightarrow>
                      Option.bind (resolve_loop db (components (path_push (path_pop canonical) target)) []) (\<lambda>result.
                      case result of
                        None \<Rightarrow> Some None
                      | Some p \<Rightarrow> resolve_loop db rest p)
                  | _ \<Rightarrow> resolve_loop db rest canonical))"

declare resolve_loop.simps [code]

definition resolve :: "graph_db \<Rightarrow> string \<Rightarrow> string option option" where
  "resolve db path = resolve_loop db (components path) []"

section \<open>Requirements on symbolic links\<close>

definition pending_ids :: "graph_db \<Rightarrow> nat list" where
  "pending_ids db = map fr_id (filter fr_pending (gd_feature db))"

text \<open>The rows of the query; \<open>feature.id\<close> is a primary key.\<close>

definition pending_path_requirements :: "graph_db \<Rightarrow> requires_row list" where
  "pending_path_requirements db =
     filter (\<lambda>row. rr_feature row \<in> set (pending_ids db) \<and> (case rr_item_key row of KeyPath _ \<Rightarrow> True | _ \<Rightarrow> False))
       (gd_requires db)"

definition is_symlink :: "Item option \<Rightarrow> bool" where
  "is_symlink item = (case item of Some (ItemPath (SymlinkItem _ _)) \<Rightarrow> True | _ \<Rightarrow> False)"

definition bare_item :: "graph_db \<Rightarrow> ItemKey \<Rightarrow> string \<Rightarrow> Item option" where
  "bare_item db key path =
     (case find (\<lambda>row. ir_key row = key) (gd_item db) of
        Some row \<Rightarrow> Some (ir_value row)
      | None \<Rightarrow> map_option (\<lambda>de. ItemPath (DirEntry_to_item de)) (get_fact db path))"

definition fixup_row :: "graph_db \<Rightarrow> requires_row \<Rightarrow> graph_db option" where
  "fixup_row db row =
     (case rr_item_key row of
        KeyPath path \<Rightarrow>
          Option.bind (resolve db path) (\<lambda>resolved.
          case resolved of
            None \<Rightarrow> Some db
          | Some canonical \<Rightarrow>
              if is_symlink (bare_item db (rr_item_key row) path)
              then let requires = gd_requires db @ [row\<lparr>rr_item_key := KeyPath canonical\<rparr>]
                   in Some (db\<lparr>gd_requires :=
                        map (\<lambda>r. if rr_item_key r = rr_item_key row then r\<lparr>rr_validator := Exists\<rparr> else r) requires\<rparr>)
              else Some (db\<lparr>gd_requires :=
                     map (\<lambda>r. if rr_item_key r = rr_item_key row then r\<lparr>rr_item_key := KeyPath canonical\<rparr> else r)
                       (gd_requires db)\<rparr>))
      | _ \<Rightarrow> Some db)"

fun fixup_rows :: "graph_db \<Rightarrow> requires_row list \<Rightarrow> graph_db option" where
  "fixup_rows db [] = Some db"
| "fixup_rows db (row # rows) = Option.bind (fixup_row db row) (\<lambda>db. fixup_rows db rows)"

definition fixup_symlinks :: "graph_db \<Rightarrow> graph_db option" where
  "fixup_symlinks db = fixup_rows db (pending_path_requirements db)"

section \<open>Checks\<close>

text \<open>\<open>feature INNER JOIN requires ON feature.id = requires.feature WHERE feature.pending = 1\<close>\<close>

definition pending_requirements :: "graph_db \<Rightarrow> (Feature \<times> requires_row) list" where
  "pending_requirements db =
     concat (map (\<lambda>f. map (Pair (fr_value f)) (filter (\<lambda>r. rr_feature r = fr_id f) (gd_requires db)))
       (filter fr_pending (gd_feature db)))"

definition verify_no_missing_deps :: "graph_db \<Rightarrow> graph_error + unit" where
  "verify_no_missing_deps db =
     (case find (\<lambda>(f, r). (\<forall>i \<in> set (gd_item db). ir_key i \<noteq> rr_item_key r) \<and> \<not> has_fact (gd_facts db) (rr_item_key r))
             (pending_requirements db) of
        Some (f, r) \<Rightarrow> Inl (MissingItem (rr_item_key r) f)
      | None \<Rightarrow> Inr ())"

definition required_items :: "graph_db \<Rightarrow> (Item \<times> Validator \<times> Feature) list" where
  "required_items db =
     concat (map (\<lambda>(f, r). map (\<lambda>i. (ir_value i, rr_validator r, f)) (filter (\<lambda>i. ir_key i = rr_item_key r) (gd_item db)))
       (pending_requirements db))"

definition verify_no_invalid_deps :: "graph_db \<Rightarrow> graph_error + unit" where
  "verify_no_invalid_deps db =
     (case find (\<lambda>(item, validator, f). \<not> satisfies validator item) (required_items db) of
        Some (item, validator, f) \<Rightarrow> Inl (Unsatisfied item validator f)
      | None \<Rightarrow> Inr ())"

text \<open>
  The query for conflicts: the groups of items with the same key and more than one row; \<open>pick\<close> is the row of the group
  from which SQLite takes the column \<open>item\<close>. Every row of the result is joined with the features that provide an item
  of the key.
\<close>

definition rows_of_key :: "graph_db \<Rightarrow> ItemKey \<Rightarrow> item_row list" where
  "rows_of_key db key = filter (\<lambda>i. ir_key i = key) (gd_item db)"

definition providers :: "graph_db \<Rightarrow> ItemKey \<Rightarrow> Feature list" where
  "providers db key =
     concat (map (\<lambda>i. concat (map (\<lambda>(f, j). if j = ir_id i then map fr_value (filter (\<lambda>r. fr_id r = f) (gd_feature db)) else [])
       (gd_provides db))) (rows_of_key db key))"

definition conflict_rows :: "(item_row list \<Rightarrow> item_row) \<Rightarrow> graph_db \<Rightarrow> (ItemKey \<times> Item \<times> Feature) list" where
  "conflict_rows pick db =
     concat (map (\<lambda>key. if 1 < length (rows_of_key db key)
                       then map (\<lambda>f. (key, ir_value (pick (rows_of_key db key)), f)) (providers db key) else [])
       (remdups (map ir_key (gd_item db))))"

text \<open>The items and the features of a key, as the loop over the rows collects them.\<close>

definition conflict_of :: "(ItemKey \<times> Item \<times> Feature) list \<Rightarrow> ItemKey \<Rightarrow> Item set \<times> Feature set" where
  "conflict_of rows key =
     (set (map (\<lambda>(k, i, f). i) (filter (\<lambda>(k, i, f). k = key) rows)), set (map (\<lambda>(k, i, f). f) (filter (\<lambda>(k, i, f). k = key) rows)))"

definition allowed_conflict :: "Item \<Rightarrow> bool \<Rightarrow> Feature set \<Rightarrow> bool" where
  "allowed_conflict item only_one_version features \<longleftrightarrow>
     (case item of ItemPath (Entry fse) \<Rightarrow> fe_file_type fse = Directory \<and> only_one_version | _ \<Rightarrow> False) \<or>
     card (ft_data ` features) \<le> 1"

text \<open>\<open>least\<close> is the first item in the order of the \<open>BTreeSet\<close>. The order in which the hash map of the source gives its
  keys, which only decides which of several conflicts is reported, is here that of the rows.\<close>

definition verify_no_conflicts :: "(item_row list \<Rightarrow> item_row) \<Rightarrow> (Item set \<Rightarrow> Item) \<Rightarrow> graph_db \<Rightarrow> graph_error + unit" where
  "verify_no_conflicts pick least db =
     (let rows = conflict_rows pick db
      in case find (\<lambda>key. let (items, features) = conflict_of rows key
                        in \<not> allowed_conflict (least items) (items - {least items} = {}) features)
                (remdups (map fst rows)) of
           Some key \<Rightarrow> (let (items, features) = conflict_of rows key in Inl (Conflict (least items) features))
         | None \<Rightarrow> Inr ())"

section \<open>The order of the features\<close>

text \<open>The rows of the query of \<open>toposort\<close>: a pending feature, and the feature that provides what it requires, if there is
  one and the requirement is ordered. A left join gives a row with no partner where there is none.\<close>

definition left_join :: "'b list \<Rightarrow> 'b option list" where
  "left_join rows = (if rows = [] then [None] else map Some rows)"

definition provider_ids :: "graph_db \<Rightarrow> item_row option \<Rightarrow> nat option list" where
  "provider_ids db i =
     (case i of
        None \<Rightarrow> [None]
      | Some i \<Rightarrow>
          concat (map (\<lambda>p. case p of
                 None \<Rightarrow> [None]
               | Some (f, _) \<Rightarrow> left_join (map fr_id (filter (\<lambda>r. fr_id r = f) (gd_feature db))))
            (left_join (filter (\<lambda>(f, j). j = ir_id i) (gd_provides db)))))"

definition required_providers :: "graph_db \<Rightarrow> requires_row option \<Rightarrow> nat option list" where
  "required_providers db r =
     (case r of
        None \<Rightarrow> [None]
      | Some r \<Rightarrow>
          concat (map (\<lambda>i. map (\<lambda>g. if rr_ordered r then g else None) (provider_ids db i))
            (left_join (filter (\<lambda>i. ir_key i = rr_item_key r) (gd_item db)))))"

definition toposort_rows :: "graph_db \<Rightarrow> (nat \<times> nat option) list" where
  "toposort_rows db =
     concat (map (\<lambda>f. map (Pair f)
         (concat (map (required_providers db) (left_join (filter (\<lambda>r. rr_feature r = f) (gd_requires db))))))
       (pending_ids db))"

text \<open>The nodes in the order in which they are added, and the edges.\<close>

definition add_node :: "nat list \<Rightarrow> nat \<Rightarrow> nat list" where
  "add_node nodes n = (if n \<in> set nodes then nodes else nodes @ [n])"

definition add_row :: "nat list \<times> (nat \<times> nat) list \<Rightarrow> nat \<times> nat option \<Rightarrow> nat list \<times> (nat \<times> nat) list" where
  "add_row graph row =
     (case (graph, row) of ((nodes, edges), (f, g)) \<Rightarrow>
        let nodes = add_node nodes f
        in case g of
             None \<Rightarrow> (nodes, edges)
           | Some g \<Rightarrow> (add_node nodes g, if (g, f) \<in> set edges then edges else edges @ [(g, f)]))"

definition toposort_graph :: "graph_db \<Rightarrow> nat list \<times> (nat \<times> nat) list" where
  "toposort_graph db = foldl add_row ([], []) (toposort_rows db)"

text \<open>What is used of petgraph: \<open>toposort\<close> gives all nodes in an order that the edges respect, or a node on a cycle; a
  depth-first search gives the nodes that can be reached from its start, in some order.\<close>

record petgraph =
  pg_toposort :: "nat list \<times> (nat \<times> nat) list \<Rightarrow> nat + nat list"
  pg_dfs :: "nat list \<times> (nat \<times> nat) list \<Rightarrow> nat \<Rightarrow> nat list"

definition feature_of :: "graph_db \<Rightarrow> nat \<Rightarrow> Feature option" where
  "feature_of db i = map_option fr_value (find (\<lambda>r. fr_id r = i) (filter fr_pending (gd_feature db)))"

text \<open>\<open>filter_map(|nx| features.remove(..))\<close>: each pending feature at its first occurrence.\<close>

definition take_features :: "graph_db \<Rightarrow> nat list \<Rightarrow> Feature list" where
  "take_features db ids = List.map_filter (feature_of db) (rev (remdups (rev ids)))"

text \<open>The nodes of the search up to the first one with an edge back to the start, after the start itself; then rotated so
  that the node that was added first comes first.\<close>

fun take_until_closed :: "(nat \<Rightarrow> bool) \<Rightarrow> nat list \<Rightarrow> nat list option" where
  "take_until_closed closes [] = None"
| "take_until_closed closes (n # ns) = (if closes n then Some [n] else map_option ((#) n) (take_until_closed closes ns))"

fun index_of :: "nat list \<Rightarrow> nat \<Rightarrow> nat" where
  "index_of [] x = 0"
| "index_of (y # ys) x = (if x = y then 0 else Suc (index_of ys x))"

definition first_minimum :: "nat list \<Rightarrow> nat" where
  "first_minimum xs = index_of xs (Min (set xs))"

definition toposort :: "petgraph \<Rightarrow> graph_db \<Rightarrow> graph_error + Feature list" where
  "toposort G db =
     (let graph = toposort_graph db
      in case pg_toposort G graph of
           Inr order \<Rightarrow> Inr (take_features db order)
         | Inl n \<Rightarrow>
             (case take_until_closed (\<lambda>x. (x, n) \<in> set (snd graph)) (pg_dfs G graph n) of
                Some visited \<Rightarrow>
                  let cycle = n # visited
                  in Inl (Cycle (take_features db (rotate (first_minimum (map (index_of (fst graph)) cycle)) cycle)))
              | None \<Rightarrow> Inl GraphPanic))"

section \<open>Building the graph\<close>

definition ebind :: "graph_error + 'a \<Rightarrow> ('a \<Rightarrow> graph_error + 'b) \<Rightarrow> graph_error + 'b" where
  "ebind m f = (case m of Inl e \<Rightarrow> Inl e | Inr x \<Rightarrow> f x)"

definition GraphBuilder_build ::
    "(item_row list \<Rightarrow> item_row) \<Rightarrow> (Item set \<Rightarrow> Item) \<Rightarrow> petgraph \<Rightarrow> graph_db \<Rightarrow> (graph_error + graph_db) option" where
  "GraphBuilder_build pick least G db =
     map_option (\<lambda>db.
       ebind (verify_no_missing_deps db) (\<lambda>_.
       ebind (verify_no_invalid_deps db) (\<lambda>_.
       ebind (verify_no_conflicts pick least db) (\<lambda>_.
       ebind (toposort G db) (\<lambda>_. Inr db)))))
     (fixup_symlinks db)"

definition pending_features :: "petgraph \<Rightarrow> graph_db \<Rightarrow> graph_error + Feature list" where
  "pending_features G db = toposort G db"

section \<open>Example graphs\<close>

text \<open>A new layer; a feature that needs a directory behind a link, with the features that provide the link and the directory; two
  links to each other; a directory and a file at the same path.\<close>

definition new_graph :: graph_db where
  "new_graph = GraphBuilder_new
     \<lparr>gd_feature = [], gd_item = [], gd_provides = [], gd_requires = [],
      gd_facts = \<lparr>fs_dir_entry = Map.empty, fs_user = (\<lambda>_. False), fs_group = (\<lambda>_. False)\<rparr>\<rparr>"

definition example_feature :: "string \<Rightarrow> Requirement list \<Rightarrow> Item list \<Rightarrow> AnalyzedFeature" where
  "example_feature data requires provides =
     \<lparr>af_feature = \<lparr>ft_label = ''l'', ft_feature_type = ''t'', ft_data = data\<rparr>, af_requires = requires, af_provides = provides\<rparr>"

definition example_graph :: graph_db where
  "example_graph = foldl add_feature new_graph
     [example_feature ''user'' [Requirement_ordered (KeyPath ''/a'') (HasFileType Directory)] [],
      example_feature ''link'' [] [ItemPath (SymlinkItem ''/a'' ''/b'')],
      example_feature ''dir'' [Requirement_ordered (KeyPath ''/'') Exists]
        [ItemPath (Entry \<lparr>fe_path = ''/b'', fe_file_type = Directory, fe_mode = 0x1ED\<rparr>)]]"

definition loop_graph :: graph_db where
  "loop_graph = foldl add_feature new_graph
     [example_feature ''a'' [] [ItemPath (SymlinkItem ''/a'' ''/b'')], example_feature ''b'' [] [ItemPath (SymlinkItem ''/b'' ''/a'')]]"

definition conflict_graph :: graph_db where
  "conflict_graph = foldl add_feature new_graph
     [example_feature ''dir'' [] [ItemPath (Entry \<lparr>fe_path = ''/b'', fe_file_type = Directory, fe_mode = 0x1ED\<rparr>)],
      example_feature ''file'' [] [ItemPath (Entry \<lparr>fe_path = ''/b'', fe_file_type = File, fe_mode = 0x1A4\<rparr>)]]"

end
