(* ===== verification/Depgraph_Order.thy ===== *)
theory Depgraph_Order
  imports Depgraph
begin

text \<open>
  The order of the features: what the query of \<open>toposort\<close> makes of the tables, what petgraph documents of its algorithms,
  and what follows for the features of a graph.
\<close>

section \<open>The documented behaviour of petgraph\<close>

definition before :: "'a list \<Rightarrow> 'a \<Rightarrow> 'a \<Rightarrow> bool" where
  "before xs a b \<longleftrightarrow> (\<exists>ys zs. xs = ys @ zs \<and> a \<in> set ys \<and> b \<in> set zs)"

definition petgraph_documented :: "petgraph \<Rightarrow> bool" where
  "petgraph_documented G \<longleftrightarrow>
     (\<forall>nodes edges. distinct nodes \<and> (\<forall>(a, b) \<in> set edges. a \<in> set nodes \<and> b \<in> set nodes) \<longrightarrow>
        (case pg_toposort G (nodes, edges) of
           Inr order \<Rightarrow> distinct order \<and> set order = set nodes \<and> (\<forall>(a, b) \<in> set edges. before order a b)
         | Inl n \<Rightarrow> n \<in> set nodes \<and> (n, n) \<in> (set edges)\<^sup>+) \<and>
        (\<forall>n \<in> set nodes. set (pg_dfs G (nodes, edges) n) = {m. (n, m) \<in> (set edges)\<^sup>*}))"

lemma before_map_filter:
  assumes "before xs a b" and "f a = Some x" and "f b = Some y"
  shows "before (List.map_filter f xs) x y"
proof -
  obtain ys zs where "xs = ys @ zs" "a \<in> set ys" "b \<in> set zs"
    using assms(1) by (auto simp: before_def)
  then show ?thesis
    using assms(2,3) unfolding before_def
    by (intro exI [of _ "List.map_filter f ys"] exI [of _ "List.map_filter f zs"]) (force simp: map_filter_def)
qed

lemma before_filter: "before xs a b \<Longrightarrow> P a \<Longrightarrow> P b \<Longrightarrow> before (filter P xs) a b"
  unfolding before_def
proof (elim exE conjE)
  fix ys zs
  assume "xs = ys @ zs" "a \<in> set ys" "b \<in> set zs" "P a" "P b"
  then show "\<exists>ys zs. filter P xs = ys @ zs \<and> a \<in> set ys \<and> b \<in> set zs"
    by (intro exI [of _ "filter P ys"] exI [of _ "filter P zs"]) simp
qed

lemma before_irrefl: "distinct xs \<Longrightarrow> \<not> before xs a a"
  by (auto simp: before_def)

lemma before_trans: "distinct xs \<Longrightarrow> before xs a b \<Longrightarrow> before xs b c \<Longrightarrow> before xs a c"
  unfolding before_def
proof (elim exE conjE)
  fix ys zs us vs
  assume xs: "distinct xs" "xs = ys @ zs" "a \<in> set ys" "b \<in> set zs" "xs = us @ vs" "b \<in> set us" "c \<in> set vs"
  have "\<exists>ws. us = ys @ ws"
    using xs by (auto simp: append_eq_append_conv2)
  then show "\<exists>ys zs. xs = ys @ zs \<and> a \<in> set ys \<and> c \<in> set zs"
    using xs by (intro exI [of _ us] exI [of _ vs]) auto
qed

text \<open>An order that the edges respect excludes cycles.\<close>

lemma order_acyclic:
  assumes "distinct order" and "\<forall>(a, b) \<in> set edges. before order a b"
  shows "acyclic (set edges)"
proof -
  have "before order a b" if "(a, b) \<in> (set edges)\<^sup>+" for a b
    using that
  proof (induction rule: trancl_induct)
    case (base b)
    then show ?case
      using assms(2) by auto
  next
    case (step b c)
    then show ?case
      using assms before_trans by (metis (no_types, lifting) case_prodD)
  qed
  then show ?thesis
    using before_irrefl [OF assms(1)] by (auto simp: acyclic_def)
qed

section \<open>The graph of the query\<close>

lemma left_join_iff: "Some x \<in> set (left_join xs) \<longleftrightarrow> x \<in> set xs"
  by (auto simp: left_join_def)

lemma Bex_left_join: "(\<exists>x \<in> set (left_join xs). P x) \<longleftrightarrow> xs = [] \<and> P None \<or> (\<exists>x \<in> set xs. P (Some x))"
  by (auto simp: left_join_def)

lemma left_join_not_Nil: "left_join xs \<noteq> []"
  by (simp add: left_join_def)

definition provides_key :: "graph_db \<Rightarrow> nat \<Rightarrow> ItemKey \<Rightarrow> bool" where
  "provides_key db g key \<longleftrightarrow>
     (\<exists>i \<in> set (gd_item db). ir_key i = key \<and> (g, ir_id i) \<in> set (gd_provides db)) \<and> g \<in> fr_id ` set (gd_feature db)"

text \<open>Feature \<open>f\<close> has an ordered requirement on something that \<open>g\<close> provides.\<close>

definition needs :: "graph_db \<Rightarrow> nat \<Rightarrow> nat \<Rightarrow> bool" where
  "needs db f g \<longleftrightarrow>
     f \<in> set (pending_ids db) \<and>
     (\<exists>r \<in> set (gd_requires db). rr_feature r = f \<and> rr_ordered r \<and> provides_key db g (rr_item_key r))"

lemma provider_ids_iff:
  "Some g \<in> set (provider_ids db (Some i)) \<longleftrightarrow> (g, ir_id i) \<in> set (gd_provides db) \<and> g \<in> fr_id ` set (gd_feature db)"
proof -
  have "Some g \<in> set (case p of None \<Rightarrow> [None] | Some (f, _) \<Rightarrow> left_join (map fr_id (filter (\<lambda>r. fr_id r = f) (gd_feature db)))) \<longleftrightarrow>
      (\<exists>j. p = Some (g, j)) \<and> g \<in> fr_id ` set (gd_feature db)" for p :: "(nat \<times> nat) option"
    by (cases p) (auto simp: left_join_iff)
  then show ?thesis
    by (simp add: provider_ids_def) (auto simp: left_join_iff)
qed

lemma provider_ids_not_Nil: "provider_ids db i \<noteq> []"
  by (auto simp: provider_ids_def left_join_not_Nil ex_in_conv split: option.split)

lemma required_providers_iff:
  "Some g \<in> set (required_providers db (Some r)) \<longleftrightarrow> rr_ordered r \<and> provides_key db g (rr_item_key r)"
  "Some g \<notin> set (required_providers db None)"
proof -
  have "Some g \<in> set (map (\<lambda>g. if rr_ordered r then g else None) (provider_ids db i)) \<longleftrightarrow>
      rr_ordered r \<and> Some g \<in> set (provider_ids db i)" for i
    by auto
  moreover have "Some g \<notin> set (provider_ids db None)"
    by (simp add: provider_ids_def)
  ultimately show "Some g \<in> set (required_providers db (Some r)) \<longleftrightarrow> rr_ordered r \<and> provides_key db g (rr_item_key r)"
    by (auto simp only: required_providers_def option.case set_concat set_map Union_iff bex_simps Bex_left_join provider_ids_iff
        provides_key_def set_filter)
qed (simp add: required_providers_def)

lemma toposort_rows_iff: "(f, Some g) \<in> set (toposort_rows db) \<longleftrightarrow> needs db f g"
proof -
  have "(f, Some g) \<in> set (toposort_rows db) \<longleftrightarrow> f \<in> set (pending_ids db) \<and>
      (\<exists>r \<in> set (left_join (filter (\<lambda>r. rr_feature r = f) (gd_requires db))). Some g \<in> set (required_providers db r))"
    by (auto simp: toposort_rows_def)
  then show ?thesis
    by (auto simp: needs_def Bex_left_join required_providers_iff)
qed

lemma toposort_rows_pending: "fst ` set (toposort_rows db) = set (pending_ids db)"
proof -
  have "required_providers db r \<noteq> []" for r
    by (auto simp: required_providers_def provider_ids_not_Nil left_join_not_Nil ex_in_conv split: option.split)
  then have "concat (map (required_providers db) (left_join xs)) \<noteq> []" for xs
    by (simp add: left_join_not_Nil)
  then have some: "\<exists>x. x \<in> set (concat (map (required_providers db) (left_join xs)))" for xs
    by (simp only: ex_in_conv set_empty) simp
  have "(f, x) \<in> set (toposort_rows db) \<longleftrightarrow> f \<in> set (pending_ids db) \<and>
      x \<in> set (concat (map (required_providers db) (left_join (filter (\<lambda>r. rr_feature r = f) (gd_requires db)))))" for f x
    by (auto simp: toposort_rows_def)
  then have "(\<exists>x. (f, x) \<in> set (toposort_rows db)) \<longleftrightarrow> f \<in> set (pending_ids db)" for f
    using some [of "filter (\<lambda>r. rr_feature r = f) (gd_requires db)"] by simp
  moreover have "f \<in> fst ` A \<longleftrightarrow> (\<exists>x. (f, x) \<in> A)" for f and A :: "(nat \<times> nat option) set"
    by force
  ultimately show ?thesis
    by blast
qed

lemma set_add_node: "set (add_node nodes n) = insert n (set nodes)" "distinct nodes \<Longrightarrow> distinct (add_node nodes n)"
  by (auto simp: add_node_def)

lemma foldl_add_row:
  assumes "distinct nodes"
  shows "distinct (fst (foldl add_row (nodes, edges) rows)) \<and>
    set (fst (foldl add_row (nodes, edges) rows)) = set nodes \<union> fst ` set rows \<union> {g. \<exists>f. (f, Some g) \<in> set rows} \<and>
    set (snd (foldl add_row (nodes, edges) rows)) = set edges \<union> {(g, f). (f, Some g) \<in> set rows}"
  using assms
proof (induction rows arbitrary: nodes edges)
  case (Cons row rows)
  obtain f x where row: "row = (f, x)"
    by (cases row)
  obtain nodes' edges' where step: "add_row (nodes, edges) row = (nodes', edges')"
    by fastforce
  have "distinct nodes'" "set nodes' = set nodes \<union> {f} \<union> {g. x = Some g}"
    "set edges' = set edges \<union> {(g, f') |g f'. f' = f \<and> x = Some g}"
    using step Cons.prems by (auto simp: row add_row_def Let_def set_add_node split: option.splits if_splits)
  then show ?case
    using Cons.IH [of nodes' edges'] step by (auto simp: row)
qed simp

lemma toposort_graph_nodes:
  "distinct (fst (toposort_graph db))"
  "set (fst (toposort_graph db)) = set (pending_ids db) \<union> {g. \<exists>f. needs db f g}"
  "set (snd (toposort_graph db)) = {(g, f). needs db f g}"
  using foldl_add_row [of "[]" "[]" "toposort_rows db"]
  by (auto simp: toposort_graph_def toposort_rows_pending toposort_rows_iff)

lemma graph_edges: "\<forall>(a, b) \<in> set (snd (toposort_graph db)). a \<in> set (fst (toposort_graph db)) \<and> b \<in> set (fst (toposort_graph db))"
  by (auto simp: toposort_graph_nodes needs_def)

section \<open>The result of the sort\<close>

lemma feature_of_eq_None: "feature_of db i = None \<longleftrightarrow> i \<notin> set (pending_ids db)"
  by (auto simp: feature_of_def pending_ids_def find_None_iff)

definition order_of :: "graph_db \<Rightarrow> nat list \<Rightarrow> nat list" where
  "order_of db ids = filter (\<lambda>i. i \<in> set (pending_ids db)) ids"

lemma take_features_map: "distinct ids \<Longrightarrow> take_features db ids = map (the \<circ> feature_of db) (order_of db ids)"
proof -
  assume "distinct ids"
  then have "take_features db ids = List.map_filter (feature_of db) ids"
    by (simp add: take_features_def distinct_remdups_id)
  also have "\<dots> = map (the \<circ> feature_of db) (order_of db ids)"
    by (simp add: map_filter_def order_of_def feature_of_eq_None)
  finally show ?thesis .
qed

text \<open>The features in an order that has every pending feature once, and what it needs before it.\<close>

definition built_in_order :: "graph_db \<Rightarrow> Feature list \<Rightarrow> bool" where
  "built_in_order db fs \<longleftrightarrow>
     (\<exists>ids. distinct ids \<and> set ids = set (pending_ids db) \<and> fs = map (the \<circ> feature_of db) ids \<and>
        (\<forall>f g. needs db f g \<and> g \<in> set (pending_ids db) \<longrightarrow> before ids g f))"

lemma take_until_closed_Some: "(\<exists>x \<in> set xs. P x) \<Longrightarrow> \<exists>ys. take_until_closed P xs = Some ys"
  by (induction xs) auto

lemma needs_acyclic_iff: "acyclic {(g, f). needs db f g} \<longleftrightarrow> (\<nexists>n. (n, n) \<in> (set (snd (toposort_graph db)))\<^sup>+)"
  by (auto simp: acyclic_def toposort_graph_nodes)

lemma toposort_outcome:
  assumes "petgraph_documented G"
  shows "if acyclic {(g, f). needs db f g} then \<exists>fs. toposort G db = Inr fs \<and> built_in_order db fs
    else \<exists>fs. toposort G db = Inl (Cycle fs)"
proof -
  let ?nodes = "fst (toposort_graph db)" and ?edges = "snd (toposort_graph db)"
  have documented: "case pg_toposort G (toposort_graph db) of
      Inr order \<Rightarrow> distinct order \<and> set order = set ?nodes \<and> (\<forall>(a, b) \<in> set ?edges. before order a b)
    | Inl n \<Rightarrow> n \<in> set ?nodes \<and> (n, n) \<in> (set ?edges)\<^sup>+"
    "\<forall>n \<in> set ?nodes. set (pg_dfs G (toposort_graph db) n) = {m. (n, m) \<in> (set ?edges)\<^sup>*}"
    using assms [unfolded petgraph_documented_def, rule_format, of ?nodes ?edges] toposort_graph_nodes(1) [of db] graph_edges [of db]
    by simp_all
  show ?thesis
  proof (cases "pg_toposort G (toposort_graph db)")
    case (Inr order)
    then have order: "distinct order" "set order = set ?nodes" "\<forall>(a, b) \<in> set ?edges. before order a b"
      using documented(1) by auto
    have "acyclic {(g, f). needs db f g}"
      using order_acyclic [OF order(1,3)] by (simp add: toposort_graph_nodes)
    moreover have "built_in_order db (take_features db order)"
      unfolding built_in_order_def take_features_map [OF order(1)]
    proof (intro exI [of _ "order_of db order"] conjI allI impI)
      show "set (order_of db order) = set (pending_ids db)"
        using order(2) by (auto simp: order_of_def toposort_graph_nodes)
      fix f g
      assume "needs db f g \<and> g \<in> set (pending_ids db)"
      then show "before (order_of db order) g f"
        using order(3) unfolding order_of_def
        by (intro before_filter) (auto simp: toposort_graph_nodes needs_def)
    qed (use order(1) in \<open>simp_all add: order_of_def\<close>)
    ultimately show ?thesis
      using Inr by (simp add: toposort_def Let_def)
  next
    case (Inl n)
    then have n: "n \<in> set ?nodes" "(n, n) \<in> (set ?edges)\<^sup>+"
      using documented(1) by auto
    then obtain x where "(n, x) \<in> (set ?edges)\<^sup>*" "(x, n) \<in> set ?edges"
      by (meson tranclD2)
    then obtain ys where "take_until_closed (\<lambda>x. (x, n) \<in> set ?edges) (pg_dfs G (toposort_graph db) n) = Some ys"
      using take_until_closed_Some [of "pg_dfs G (toposort_graph db) n" "\<lambda>x. (x, n) \<in> set ?edges"] documented(2) n(1) by blast
    then show ?thesis
      using Inl n(2) needs_acyclic_iff [of db] by (auto simp: toposort_def Let_def)
  qed
qed

section \<open>The documented behaviour is consistent\<close>

definition rank :: "(nat \<times> nat) set \<Rightarrow> nat \<Rightarrow> nat" where
  "rank E n = card {m. (m, n) \<in> E\<^sup>+}"

definition example_petgraph :: petgraph where
  "example_petgraph =
     \<lparr>pg_toposort = (\<lambda>(nodes, edges).
        case find (\<lambda>n. (n, n) \<in> (set edges)\<^sup>+) nodes of Some n \<Rightarrow> Inl n | None \<Rightarrow> Inr (sort_key (rank (set edges)) nodes)),
      pg_dfs = (\<lambda>(nodes, edges) n. filter (\<lambda>m. (n, m) \<in> (set edges)\<^sup>*) nodes)\<rparr>"

lemma rank_less:
  assumes "finite E" and "(a, b) \<in> E" and "(a, a) \<notin> E\<^sup>+"
  shows "rank E a < rank E b"
  unfolding rank_def
proof (rule psubset_card_mono)
  show "finite {m. (m, b) \<in> E\<^sup>+}"
  proof (rule finite_subset)
    show "{m. (m, b) \<in> E\<^sup>+} \<subseteq> fst ` E"
      by (auto dest!: tranclD simp: image_iff Bex_def)
  qed (use assms(1) in simp)
  show "{m. (m, a) \<in> E\<^sup>+} \<subset> {m. (m, b) \<in> E\<^sup>+}"
    using assms(2,3) by (auto intro: trancl_into_trancl)
qed

lemma before_sorted:
  assumes "sorted (map f xs)" and "a \<in> set xs" and "b \<in> set xs" and "f a < f b"
  shows "before xs a (b :: 'a)"
proof -
  have "\<forall>x \<in> set (dropWhile (\<lambda>x. f x \<le> f a) xs). \<not> f x \<le> f a"
    using assms(1)
  proof (induction xs)
    case (Cons x xs)
    show ?case
    proof (cases "f x \<le> f a")
      case False
      moreover have "\<forall>y \<in> set xs. f x \<le> f y"
        using Cons.prems by simp
      ultimately show ?thesis
        by fastforce
    next
      case True
      then have "dropWhile (\<lambda>x. f x \<le> f a) (x # xs) = dropWhile (\<lambda>x. f x \<le> f a) xs"
        by simp
      moreover have "sorted (map f xs)"
        using Cons.prems by simp
      ultimately show ?thesis
        using Cons.IH by metis
    qed
  qed simp
  moreover have parts: "set xs = set (takeWhile (\<lambda>x. f x \<le> f a) xs) \<union> set (dropWhile (\<lambda>x. f x \<le> f a) xs)"
    by (metis set_append takeWhile_dropWhile_id)
  ultimately have "a \<in> set (takeWhile (\<lambda>x. f x \<le> f a) xs)"
    using assms(2) by blast
  moreover have "b \<in> set (dropWhile (\<lambda>x. f x \<le> f a) xs)"
    using assms(3,4) parts by (auto dest: set_takeWhileD)
  ultimately show ?thesis
    unfolding before_def
    by (intro exI [of _ "takeWhile (\<lambda>x. f x \<le> f a) xs"] exI [of _ "dropWhile (\<lambda>x. f x \<le> f a) xs"]) simp
qed

lemma example_petgraph_documented: "petgraph_documented example_petgraph"
  unfolding petgraph_documented_def
proof (intro allI impI conjI ballI)
  fix nodes :: "nat list" and edges :: "(nat \<times> nat) list"
  assume G: "distinct nodes \<and> (\<forall>(a, b) \<in> set edges. a \<in> set nodes \<and> b \<in> set nodes)"
  show "case pg_toposort example_petgraph (nodes, edges) of
      Inr order \<Rightarrow> distinct order \<and> set order = set nodes \<and> (\<forall>(a, b) \<in> set edges. before order a b)
    | Inl n \<Rightarrow> n \<in> set nodes \<and> (n, n) \<in> (set edges)\<^sup>+"
  proof (cases "find (\<lambda>n. (n, n) \<in> (set edges)\<^sup>+) nodes")
    case None
    then have "\<forall>n \<in> set nodes. (n, n) \<notin> (set edges)\<^sup>+"
      by (simp add: find_None_iff)
    then have "\<forall>(a, b) \<in> set edges. before (sort_key (rank (set edges)) nodes) a b"
      using G by (auto intro!: before_sorted [where f = "rank (set edges)"] rank_less)
    then show ?thesis
      using None G by (simp add: example_petgraph_def)
  next
    case (Some n)
    then have "n \<in> set nodes" "(n, n) \<in> (set edges)\<^sup>+"
      by (auto simp: find_Some_iff)
    then show ?thesis
      using Some by (simp add: example_petgraph_def)
  qed
  fix n
  assume "n \<in> set nodes"
  moreover have "m \<in> set nodes" if "(n, m) \<in> (set edges)\<^sup>*" for m
    using that \<open>n \<in> set nodes\<close> G by (induction rule: rtrancl_induct) auto
  ultimately show "set (pg_dfs example_petgraph (nodes, edges) n) = {m. (n, m) \<in> (set edges)\<^sup>*}"
    by (auto simp: example_petgraph_def)
qed

end
