(* ===== verification/Depgraph_Resolve.thy ===== *)
theory Depgraph_Resolve
  imports Depgraph
begin

text \<open>
  Resolving a path in the graph: a path that is returned is canonical, resolving it again does not change it, and a cycle of
  links is never left.
\<close>

section \<open>Paths\<close>

definition plain_name :: "string \<Rightarrow> bool" where
  "plain_name n \<longleftrightarrow> n \<noteq> [] \<and> CHR ''/'' \<notin> set n \<and> n \<noteq> ''.'' \<and> n \<noteq> ''..''"

lemma split_at_parts_free: "p \<in> set (split_at c s) \<Longrightarrow> c \<notin> set p"
  by (induction s arbitrary: p) (auto split: list.splits if_splits)

lemma split_at_append_last: "c \<notin> set n \<Longrightarrow> split_at c (s @ c # n) = split_at c s @ [n]"
proof (induction s)
  case Nil
  then show ?case
    by (simp add: split_at_free)
next
  case (Cons x s)
  then show ?case
    by (cases "split_at c s") simp_all
qed

lemma components_plain: "Normal n \<in> set (components s) \<Longrightarrow> plain_name n"
  using split_at_parts_free [of n "CHR ''/''" s]
  by (auto simp: components_def Let_def List.map_filter_def component_of_def plain_name_def split: if_splits)

lemma path_pop_push:
  assumes "c = [] \<or> c = ''/'' \<or> last c \<noteq> CHR ''/''" and "plain_name n"
  shows "path_pop (path_push c n) = c"
proof -
  have n: "n \<noteq> []" "CHR ''/'' \<notin> set n" "hd n \<noteq> CHR ''/''"
    using assms(2) by (auto simp: plain_name_def) (metis hd_in_set)
  have drop: "dropWhile (\<lambda>c. c \<noteq> CHR ''/'') (rev n @ xs) = dropWhile (\<lambda>c. c \<noteq> CHR ''/'') xs" for xs
    using n(2) by (intro dropWhile_append2) auto
  have "n \<noteq> ''/''"
    using n(2) by auto
  consider "c = []" | "c = ''/''" | "c \<noteq> []" "last c \<noteq> CHR ''/''"
    using assms(1) by auto
  then show ?thesis
  proof cases
    case 1
    then show ?thesis
      using n drop [of "[]"] \<open>n \<noteq> ''/''\<close> by (simp add: path_push_def path_pop_def)
  next
    case 2
    then show ?thesis
      using n drop [of "''/''"] by (simp add: path_push_def path_pop_def)
  next
    case 3
    then have "c @ ''/'' @ n \<noteq> ''/''" "c @ ''/'' \<noteq> ''/''"
      by (cases c; simp)+
    then show ?thesis
      using 3 n drop [of "CHR ''/'' # rev c"] by (simp add: path_push_def path_pop_def Let_def)
  qed
qed

section \<open>Canonical paths\<close>

definition plain_item :: "PathItem option \<Rightarrow> bool" where
  "plain_item item \<longleftrightarrow> (\<exists>p. item = Some p \<and> \<not> is_symlink (Some (ItemPath p)))"

text \<open>Every prefix of the path is in the layer and is not a link.\<close>

inductive canonical :: "graph_db \<Rightarrow> string \<Rightarrow> bool" for db where
  canonical_Nil: "canonical db []"
| canonical_root: "plain_item (item_at db ''/'') \<Longrightarrow> canonical db ''/''"
| canonical_push: "canonical db c \<Longrightarrow> plain_name n \<Longrightarrow> plain_item (item_at db (path_push c n)) \<Longrightarrow> canonical db (path_push c n)"

lemma canonical_last: "canonical db c \<Longrightarrow> c = [] \<or> c = ''/'' \<or> last c \<noteq> CHR ''/''"
proof (induction rule: canonical.induct)
  case (canonical_push c n)
  then have "last n \<noteq> CHR ''/''" "n \<noteq> []"
    by (metis last_in_set plain_name_def)+
  then show ?case
    by (auto simp: path_push_def)
qed simp_all

lemma canonical_pop: "canonical db c \<Longrightarrow> canonical db (path_pop c)"
proof (induction rule: canonical.induct)
  case (canonical_push c n)
  then show ?case
    using path_pop_push canonical_last by metis
qed (simp_all add: path_pop_def canonical.intros)

lemma canonical_step:
  assumes "canonical db c" and "plain_item (item_at db (resolve_step c component))"
    and "\<And>n. component = Normal n \<Longrightarrow> plain_name n"
  shows "canonical db (resolve_step c component)"
  using assms
  by (cases component) (auto simp: path_push_def [of "[]"] intro: canonical_root canonical_push canonical_pop)

lemma plain_item_iff: "plain_item (Some p) \<longleftrightarrow> (\<nexists>l t. p = SymlinkItem l t)" "\<not> plain_item None"
  by (auto simp: plain_item_def is_symlink_def split: PathItem.split)

lemma item_cases:
  obtains (missing) "item_at db c = None" | (link) l t where "item_at db c = Some (SymlinkItem l t)" | (plain) "plain_item (item_at db c)"
proof (cases "item_at db c")
  case (Some p)
  then show ?thesis
    using link plain plain_item_iff by (cases p) auto
qed (rule missing)

text \<open>One turn of the loop, with an arbitrary function for the recursive calls.\<close>

definition resolve_turn ::
    "(graph_db \<Rightarrow> Component list \<Rightarrow> string \<Rightarrow> string option option) \<Rightarrow> graph_db \<Rightarrow> Component list \<Rightarrow> string \<Rightarrow> string option option" where
  "resolve_turn f db cs path =
     (case cs of
        [] \<Rightarrow> Some (Some path)
      | component # rest \<Rightarrow>
          let path = resolve_step path component
          in case item_at db path of
               None \<Rightarrow> Some None
             | Some item \<Rightarrow>
                 (case item of
                    SymlinkItem link target \<Rightarrow>
                      Option.bind (f db (components (path_push (path_pop path) target)) []) (\<lambda>result.
                      case result of None \<Rightarrow> Some None | Some p \<Rightarrow> f db rest p)
                  | _ \<Rightarrow> f db rest path))"

lemma resolve_turn_simps:
  "resolve_turn f db [] c = Some (Some c)"
  "item_at db (resolve_step c component) = None \<Longrightarrow> resolve_turn f db (component # rest) c = Some None"
  "plain_item (item_at db (resolve_step c component)) \<Longrightarrow>
    resolve_turn f db (component # rest) c = f db rest (resolve_step c component)"
  "item_at db (resolve_step c component) = Some (SymlinkItem l t) \<Longrightarrow>
    resolve_turn f db (component # rest) c =
      Option.bind (f db (components (path_push (path_pop (resolve_step c component)) t)) []) (\<lambda>result.
      case result of None \<Rightarrow> Some None | Some p \<Rightarrow> f db rest p)"
proof -
  assume "plain_item (item_at db (resolve_step c component))"
  then obtain p where "item_at db (resolve_step c component) = Some p" "\<nexists>l t. p = SymlinkItem l t"
    using plain_item_iff by (cases "item_at db (resolve_step c component)") auto
  then show "resolve_turn f db (component # rest) c = f db rest (resolve_step c component)"
    by (cases p) (simp_all add: resolve_turn_def)
qed (simp_all add: resolve_turn_def)

lemma resolve_loop_turn: "resolve_loop db cs c = resolve_turn resolve_loop db cs c"
  unfolding resolve_turn_def by (rule resolve_loop.simps)

lemma resolve_loop_induct [consumes 1, case_names turn]:
  assumes "resolve_loop db cs c = Some r"
    and "\<And>f db cs c r. (\<And>db cs c r. f db cs c = Some r \<Longrightarrow> P db cs c r) \<Longrightarrow> resolve_turn f db cs c = Some r \<Longrightarrow> P db cs c r"
  shows "P db cs c r"
  using assms(2) unfolding resolve_turn_def by (rule resolve_loop.raw_induct [OF _ assms(1)])

lemma resolve_loop_canonical:
  "resolve_loop db cs c = Some r \<Longrightarrow> canonical db c \<Longrightarrow> (\<And>n. Normal n \<in> set cs \<Longrightarrow> plain_name n) \<Longrightarrow>
   r = Some p \<Longrightarrow> canonical db p"
proof (induction arbitrary: p rule: resolve_loop_induct)
  case (turn f db cs c r)
  note IH = turn(1)
  show ?case
  proof (cases cs)
    case Nil
    then show ?thesis
      using turn by (simp add: resolve_turn_simps)
  next
    case (Cons component rest)
    show ?thesis
    proof (cases rule: item_cases [of db "resolve_step c component"])
      case missing
      then show ?thesis
        using turn Cons by (simp add: resolve_turn_simps)
    next
      case (link l t)
      then obtain q where q: "f db (components (path_push (path_pop (resolve_step c component)) t)) [] = Some (Some q)"
        "f db rest q = Some r"
        using turn(2) turn.prems(3) Cons by (auto simp: resolve_turn_simps bind_eq_Some_conv split: option.splits)
      have "canonical db q"
        using IH [OF q(1)] canonical_Nil components_plain by blast
      then show ?thesis
        using IH [OF q(2)] turn.prems Cons by simp
    next
      case plain
      then have "f db rest (resolve_step c component) = Some r"
        using turn(2) Cons by (simp add: resolve_turn_simps)
      moreover have "canonical db (resolve_step c component)"
        using canonical_step [OF turn.prems(1) plain] turn.prems(2) Cons by simp
      ultimately show ?thesis
        using IH turn.prems Cons by simp
    qed
  qed
qed

lemma components_push:
  assumes "c = [] \<or> c = ''/'' \<or> last c \<noteq> CHR ''/''" and "plain_name n"
  shows "components (path_push c n) = components c @ [Normal n]"
proof -
  have n: "n \<noteq> []" "CHR ''/'' \<notin> set n" "hd n \<noteq> CHR ''/''" "component_of n = Some (Normal n)" "n \<noteq> ''.''"
    using assms(2) by (auto simp: plain_name_def component_of_def) (metis hd_in_set)
  have empty: "component_of [] = None"
    by (simp add: component_of_def)
  consider "c = []" | "c = ''/''" | "c \<noteq> []" "last c \<noteq> CHR ''/''"
    using assms(1) by auto
  then show ?thesis
  proof cases
    case 3
    have "hd (split_at CHR ''/'' c @ [n]) = hd (split_at CHR ''/'' c)"
      by simp
    then show ?thesis
      using 3 n split_at_append_last [of "CHR ''/''" n c] by (simp add: path_push_def components_def Let_def map_filter_def hd_append)
  qed (use n empty in \<open>simp_all add: path_push_def components_def Let_def List.map_filter_simps split_at_free\<close>)
qed

lemma resolve_loop_prefix: "canonical db c \<Longrightarrow> resolve_loop db (components c @ rest) [] = resolve_loop db rest c"
proof (induction arbitrary: rest rule: canonical.induct)
  case canonical_Nil
  then show ?case
    by (simp add: components_def List.map_filter_simps component_of_def)
next
  case canonical_root
  moreover have "components ''/'' = [RootDir]"
    by (simp add: components_def List.map_filter_simps component_of_def)
  ultimately show ?case
    by (subst resolve_loop_turn) (simp add: resolve_turn_simps path_push_def)
next
  case (canonical_push c n)
  then show ?case
    using components_push [OF canonical_last [OF canonical_push(1)] canonical_push(2)]
    by simp (subst resolve_loop_turn, simp add: resolve_turn_simps)
qed

lemma resolve_canonical_path: "canonical db c \<Longrightarrow> resolve db c = Some (Some c)"
  using resolve_loop_prefix [of db c "[]"] by (simp add: resolve_def resolve_loop_turn [of db "[]"] resolve_turn_simps)

text \<open>C23. A path that is returned is canonical: all its prefixes are in the layer and none of them is a link; and resolving it
  again returns it unchanged.\<close>

theorem resolve_gives_canonical:
  assumes "resolve db path = Some (Some c)"
  shows "canonical db c \<and> resolve db c = Some (Some c)"
proof -
  have "canonical db c"
    using resolve_loop_canonical [OF assms [unfolded resolve_def] canonical_Nil components_plain] by simp
  then show ?thesis
    by (simp add: resolve_canonical_path)
qed

theorem resolve_gives_canonical_witness: "canonical example_graph ''/b'' \<and> resolve example_graph ''/b'' = Some (Some ''/b'')"
proof -
  have "resolve example_graph ''/a'' = Some (Some ''/b'')"
    by code_simp
  then show ?thesis
    by (rule resolve_gives_canonical)
qed

section \<open>Cycles of links\<close>

lemma root_push: "plain_name n \<Longrightarrow> path_push ''/'' n = CHR ''/'' # n"
  by (auto simp: path_push_def plain_name_def) (metis hd_in_set)

lemma root_components: "plain_name n \<Longrightarrow> components (CHR ''/'' # n) = [RootDir, Normal n]"
  using components_push [of "''/''" n]
  by (simp add: root_push) (simp add: components_def List.map_filter_simps component_of_def)

lemma link_turns:
  assumes "plain_name n" and "plain_name m" and "plain_item (item_at db ''/'')"
    and "item_at db (CHR ''/'' # n) = Some (SymlinkItem l (CHR ''/'' # m))"
  shows "resolve_turn f db [RootDir, Normal n] [] = f db [Normal n] ''/''"
    and "resolve_turn f db [Normal n] ''/'' =
      Option.bind (f db [RootDir, Normal m] []) (\<lambda>result. case result of None \<Rightarrow> Some None | Some p \<Rightarrow> f db [] p)"
proof -
  have "path_push (path_pop (CHR ''/'' # n)) (CHR ''/'' # m) = CHR ''/'' # m" "path_push [] ''/'' = ''/''"
    by (simp_all add: path_push_def)
  then show "resolve_turn f db [RootDir, Normal n] [] = f db [Normal n] ''/''"
    "resolve_turn f db [Normal n] ''/'' =
      Option.bind (f db [RootDir, Normal m] []) (\<lambda>result. case result of None \<Rightarrow> Some None | Some p \<Rightarrow> f db [] p)"
    using assms by (simp_all add: resolve_turn_simps root_push root_components)
qed

text \<open>Links that only lead to one another are never left: if every name of a set is a link in the root directory to a name of
  the set, then resolving one of them does not return.\<close>

theorem resolve_follows_cycles:
  assumes "plain_item (item_at db ''/'')" and "\<forall>n \<in> S. plain_name n"
    and "\<forall>n \<in> S. \<exists>m \<in> S. \<exists>l. item_at db (CHR ''/'' # n) = Some (SymlinkItem l (CHR ''/'' # m))"
    and "n \<in> S"
  shows "resolve db (CHR ''/'' # n) = None"
proof -
  have stuck: "\<not> (\<exists>n \<in> S. cs = [RootDir, Normal n] \<and> c = [] \<or> cs = [Normal n] \<and> c = ''/'')"
    if "resolve_loop db' cs c = Some r" "db' = db" for db' cs c r
    using that
  proof (induction rule: resolve_loop_induct)
    case (turn f db' cs c r)
    show ?case
    proof (rule notI, elim bexE)
      fix n
      assume n: "n \<in> S" "cs = [RootDir, Normal n] \<and> c = [] \<or> cs = [Normal n] \<and> c = ''/''"
      obtain m l where m: "m \<in> S" "item_at db (CHR ''/'' # n) = Some (SymlinkItem l (CHR ''/'' # m))"
        using assms(3) n(1) by blast
      note turns = link_turns [of n m db l f] 
      show False
        using n(2)
      proof
        assume "cs = [RootDir, Normal n] \<and> c = []"
        then have "f db [Normal n] ''/'' = Some r"
          using turn(2,3) turns(1) assms(1,2) n(1) m by simp
        then show False
          using turn(1) n(1) turn(3) by blast
      next
        assume "cs = [Normal n] \<and> c = ''/''"
        then obtain q where "f db [RootDir, Normal m] [] = Some q"
          using turn(2,3) turns(2) assms(1,2) n(1) m by (auto simp: bind_eq_Some_conv)
        then show False
          using turn(1) m(1) turn(3) by blast
      qed
    qed
  qed
  have "resolve db (CHR ''/'' # n) = resolve_loop db [RootDir, Normal n] []"
    using assms(2,4) by (simp add: resolve_def root_components)
  then show ?thesis
    using stuck [of db "[RootDir, Normal n]" "[]"] assms(4) by (cases "resolve_loop db [RootDir, Normal n] []") auto
qed

theorem resolve_follows_cycles_witness: "resolve loop_graph ''/a'' = None"
proof (rule resolve_follows_cycles [where S = "{''a'', ''b''}"])
  have "item_at loop_graph ''/'' = Some (Entry \<lparr>fe_path = ''/'', fe_file_type = Directory, fe_mode = 0x1ED\<rparr>)"
    by code_simp
  then show "plain_item (item_at loop_graph ''/'')"
    by (simp add: plain_item_iff)
  have "item_at loop_graph ''/a'' = Some (SymlinkItem ''/a'' ''/b'')" "item_at loop_graph ''/b'' = Some (SymlinkItem ''/b'' ''/a'')"
    by code_simp+
  then show "\<forall>n \<in> {''a'', ''b''}. \<exists>m \<in> {''a'', ''b''}. \<exists>l.
      item_at loop_graph (CHR ''/'' # n) = Some (SymlinkItem l (CHR ''/'' # m))"
    by auto
qed (simp_all add: plain_name_def)

section \<open>Requirements on links\<close>

lemma resolve_cong:
  assumes "item_at db' = item_at db"
  shows "resolve db' path = resolve db path"
proof -
  have "resolve_loop b cs c = Some r" if "resolve_loop a cs c = Some r" "item_at b = item_at a" for a b cs c r
    using that
  proof (induction rule: resolve_loop_induct)
    case (turn f a cs c r)
    show ?case
    proof (cases cs)
      case Nil
      then show ?thesis
        using turn by (simp add: resolve_loop_turn [of b] resolve_turn_simps)
    next
      case (Cons component rest)
      show ?thesis
      proof (cases rule: item_cases [of a "resolve_step c component"])
        case (link l t)
        let ?target = "components (path_push (path_pop (resolve_step c component)) t)"
        obtain q where q: "f a ?target [] = Some q" "(case q of None \<Rightarrow> Some None | Some p \<Rightarrow> f a rest p) = Some r"
          using turn(2) Cons link by (auto simp: resolve_turn_simps bind_eq_Some_conv)
        have "resolve_loop b ?target [] = Some q"
          using turn(1) [OF q(1)] turn(3) by simp
        moreover have "(case q of None \<Rightarrow> Some None | Some p \<Rightarrow> resolve_loop b rest p) = Some r"
          using q(2) turn(1) turn(3) by (cases q) auto
        ultimately show ?thesis
          using link turn(3) unfolding Cons resolve_loop_turn [of b "component # rest" c]
          by (simp add: resolve_turn_simps)
      qed (use turn in \<open>auto simp: resolve_turn_simps Cons resolve_loop_turn [of b "component # rest" c]\<close>)
    qed
  qed
  then show ?thesis
    unfolding resolve_def using assms
    by (cases "resolve_loop db (components path) []"; cases "resolve_loop db' (components path) []") (metis option.distinct(1) option.inject)+
qed

lemma fixup_row_frame:
  assumes "fixup_row db row = Some db'"
  shows "db' = db\<lparr>gd_requires := gd_requires db'\<rparr>"
  using assms by (auto simp: fixup_row_def bind_eq_Some_conv Let_def split: ItemKey.splits option.splits if_splits)

lemma requires_frame:
  "item_at (db\<lparr>gd_requires := rs\<rparr>) = item_at db" "bare_item (db\<lparr>gd_requires := rs\<rparr>) = bare_item db"
  by (auto simp: fun_eq_iff item_at_def get_path_item_def get_fact_def bare_item_def split: option.split)

lemma canonical_not_link: "canonical db c \<Longrightarrow> c \<noteq> [] \<Longrightarrow> \<not> is_symlink (bare_item db (KeyPath c) c)"
proof -
  assume "canonical db c" "c \<noteq> []"
  then have "plain_item (item_at db c)"
    by (cases rule: canonical.cases) auto
  then show ?thesis
    by (auto simp: plain_item_def bare_item_def item_at_def get_path_item_def is_symlink_def split: option.splits Item.splits PathItem.splits)
qed

text \<open>A row of the table with the feature, the order and the validator of a requirement, on the given keys.\<close>

definition served :: "requires_row list \<Rightarrow> requires_row \<Rightarrow> ItemKey set \<Rightarrow> bool" where
  "served rows row keys \<longleftrightarrow>
     (\<exists>r \<in> set rows. rr_feature r = rr_feature row \<and> rr_ordered r = rr_ordered row \<and> rr_validator r = rr_validator row \<and>
        rr_item_key r \<in> keys)"

definition on_link :: "graph_db \<Rightarrow> requires_row \<Rightarrow> bool" where
  "on_link db row \<longleftrightarrow> (\<exists>p. rr_item_key row = KeyPath p \<and> is_symlink (bare_item db (KeyPath p) p))"

lemma served_append: "served rows row keys \<Longrightarrow> served (rows @ rows') row keys"
  by (auto simp: served_def)

lemma served_map:
  assumes "served rows row keys"
    and "\<And>r. rr_item_key r \<in> keys \<Longrightarrow> rr_feature (h r) = rr_feature r \<and> rr_ordered (h r) = rr_ordered r \<and>
      rr_validator (h r) = rr_validator r \<and> rr_item_key (h r) \<in> keys'"
  shows "served (map h rows) row keys'"
proof -
  obtain r where "r \<in> set rows" "rr_feature r = rr_feature row" "rr_ordered r = rr_ordered row"
    "rr_validator r = rr_validator row" "rr_item_key r \<in> keys"
    using assms(1) by (auto simp: served_def)
  then show ?thesis
    using assms(2) [of r] unfolding served_def by (intro bexI [of _ "h r"]) auto
qed

text \<open>What one turn of the loop does to the table.\<close>

lemma fixup_row_cases:
  assumes "fixup_row db row = Some db'" and "rr_item_key row = KeyPath p" and "resolve db p = Some (Some c)"
  shows "on_link db row \<Longrightarrow> gd_requires db' =
      map (\<lambda>r. if rr_item_key r = KeyPath p then r\<lparr>rr_validator := Exists\<rparr> else r) (gd_requires db @ [row\<lparr>rr_item_key := KeyPath c\<rparr>])"
    and "\<not> on_link db row \<Longrightarrow> gd_requires db' =
      map (\<lambda>r. if rr_item_key r = KeyPath p then r\<lparr>rr_item_key := KeyPath c\<rparr> else r) (gd_requires db)"
  using assms by (auto simp: fixup_row_def on_link_def)

lemma fixup_row_unresolved:
  assumes "fixup_row db row = Some db'" and "\<nexists>p c. rr_item_key row = KeyPath p \<and> resolve db p = Some (Some c)"
  shows "db' = db"
  using assms by (auto simp: fixup_row_def bind_eq_Some_conv split: ItemKey.splits option.splits)

text \<open>A row that is on a canonical path, or on a path that is not a link, is kept until its own turn.\<close>

lemma fixup_row_keeps:
  assumes turned: "fixup_row db other = Some db'" and c: "resolve db p = Some (Some c)" "c \<noteq> []"
    and "\<not> is_symlink (bare_item db (KeyPath p) p)"
    and "served (gd_requires db) row {KeyPath p, KeyPath c}"
  shows "served (gd_requires db') row {KeyPath p, KeyPath c}"
proof (cases "\<exists>q d. rr_item_key other = KeyPath q \<and> resolve db q = Some (Some d)")
  case True
  then obtain q d where q: "rr_item_key other = KeyPath q" "resolve db q = Some (Some d)"
    by blast
  have c': "resolve db c = Some (Some c)" "\<not> is_symlink (bare_item db (KeyPath c) c)"
    using resolve_gives_canonical [OF c(1)] canonical_not_link c(2) by auto
  show ?thesis
  proof (cases "on_link db other")
    case True
    then have "q \<noteq> p" "q \<noteq> c"
      using q(1) c'(2) assms(4) by (auto simp: on_link_def)
    then show ?thesis
      unfolding fixup_row_cases(1) [OF turned q True] by (intro served_map [OF served_append [OF assms(5)]]) auto
  next
    case False
    have "q = p \<Longrightarrow> d = c" "q = c \<Longrightarrow> d = c"
      using q(2) c(1) c'(1) by auto
    then show ?thesis
      unfolding fixup_row_cases(2) [OF turned q False] by (intro served_map [OF assms(5)]) auto
  qed
next
  case False
  then show ?thesis
    using fixup_row_unresolved [OF turned] assms(5) by simp
qed

lemma fixup_row_serves:
  assumes turned: "fixup_row db row = Some db'" and p: "rr_item_key row = KeyPath p" "resolve db p = Some (Some c)" "c \<noteq> []"
    and "\<not> on_link db row \<Longrightarrow> served (gd_requires db) row {KeyPath p, KeyPath c}"
  shows "served (gd_requires db') row {KeyPath c}"
proof (cases "on_link db row")
  case True
  moreover have "\<not> is_symlink (bare_item db (KeyPath c) c)"
    using resolve_gives_canonical [OF p(2)] canonical_not_link p(3) by auto
  ultimately have "p \<noteq> c"
    using p(1) by (auto simp: on_link_def)
  have "served (gd_requires db @ [row\<lparr>rr_item_key := KeyPath c\<rparr>]) row {KeyPath c}"
    by (auto simp: served_def)
  then show ?thesis
    unfolding fixup_row_cases(1) [OF turned p(1,2) True] by (rule served_map) (use \<open>p \<noteq> c\<close> in auto)
next
  case False
  then show ?thesis
    unfolding fixup_row_cases(2) [OF turned p(1,2) False] using assms(5) by (intro served_map [of _ _ "{KeyPath p, KeyPath c}"]) auto
qed

lemma fixup_rows_serve:
  assumes "fixup_rows db rows = Some db'" and p: "rr_item_key row = KeyPath p" "resolve db p = Some (Some c)" "c \<noteq> []"
    and "\<not> on_link db row \<Longrightarrow> served (gd_requires db) row {KeyPath p, KeyPath c}"
    and "row \<in> set rows \<or> served (gd_requires db) row {KeyPath c}"
  shows "served (gd_requires db') row {KeyPath c}"
  using assms
proof (induction rows arbitrary: db)
  case (Cons other rows)
  obtain db1 where db1: "fixup_row db other = Some db1" "fixup_rows db1 rows = Some db'"
    using Cons.prems(1) by (auto simp: bind_eq_Some_conv)
  have frame: "item_at db1 = item_at db" "bare_item db1 = bare_item db"
    using requires_frame fixup_row_frame [OF db1(1)] by metis+
  have c: "resolve db1 p = Some (Some c)" "resolve db c = Some (Some c)" "\<not> is_symlink (bare_item db (KeyPath c) c)"
    using Cons.prems(3,4) resolve_cong [OF frame(1)] resolve_gives_canonical canonical_not_link by auto
  show ?case
  proof (rule Cons.IH [OF db1(2) Cons.prems(2) c(1) Cons.prems(4)])
    show "served (gd_requires db1) row {KeyPath p, KeyPath c}" if "\<not> on_link db1 row"
      using that Cons.prems(2,5) fixup_row_keeps [OF db1(1) Cons.prems(3,4)] frame(2) by (simp add: on_link_def)
    show "row \<in> set rows \<or> served (gd_requires db1) row {KeyPath c}"
    proof (cases "other = row")
      case True
      then show ?thesis
        using fixup_row_serves [of db row db1 p c] db1(1) Cons.prems by simp
    next
      case False
      then show ?thesis
        using Cons.prems(6) fixup_row_keeps [OF db1(1) c(2) Cons.prems(4) c(3), of row] by auto
    qed
  qed
qed simp

lemma fixup_symlinks_serves:
  assumes "fixup_symlinks db = Some db'" and "row \<in> set (gd_requires db)" and "rr_feature row \<in> set (pending_ids db)"
    and "rr_item_key row = KeyPath p" and "resolve db p = Some (Some c)" and "c \<noteq> []"
  shows "served (gd_requires db') row {KeyPath c}"
proof -
  have "row \<in> set (pending_path_requirements db)" "served (gd_requires db) row {KeyPath p, KeyPath c}"
    using assms by (auto simp: pending_path_requirements_def served_def)
  then show ?thesis
    using fixup_rows_serve assms unfolding fixup_symlinks_def by blast
qed

end
