(* ===== verification/Depgraph_Properties.thy ===== *)
theory Depgraph_Properties
  imports Depgraph_Order Depgraph_Resolve
begin

text \<open>
  What a graph that has been built guarantees: the features come in an order in which everything they need is there, all
  requirements are met, cycles are reported; and what the check for conflicts lets through.
\<close>

section \<open>The checks\<close>

lemma pending_requirements_iff:
  "(\<exists>f. (f, r) \<in> set (pending_requirements db)) \<longleftrightarrow> r \<in> set (gd_requires db) \<and> rr_feature r \<in> set (pending_ids db)"
  by (auto simp: pending_requirements_def pending_ids_def)

definition key_present :: "graph_db \<Rightarrow> ItemKey \<Rightarrow> bool" where
  "key_present db key \<longleftrightarrow> (\<exists>i \<in> set (gd_item db). ir_key i = key) \<or> has_fact (gd_facts db) key"

definition key_valid :: "graph_db \<Rightarrow> ItemKey \<Rightarrow> Validator \<Rightarrow> bool" where
  "key_valid db key validator \<longleftrightarrow> (\<forall>i \<in> set (gd_item db). ir_key i = key \<longrightarrow> satisfies validator (ir_value i))"

lemma find_check:
  assumes "\<And>x. h x \<noteq> Inr ()"
  shows "(case find P xs of None \<Rightarrow> Inr () | Some x \<Rightarrow> h x) = Inr () \<longleftrightarrow> (\<forall>x \<in> set xs. \<not> P x)"
proof (cases "find P xs")
  case (Some x)
  then have "x \<in> set xs" "P x"
    by (auto simp: find_Some_iff)
  then show ?thesis
    using assms Some by auto
next
  case None
  then show ?thesis
    using find_None_iff [of P xs] by auto
qed

lemma no_missing_deps_iff:
  "verify_no_missing_deps db = Inr () \<longleftrightarrow>
     (\<forall>r \<in> set (gd_requires db). rr_feature r \<in> set (pending_ids db) \<longrightarrow> key_present db (rr_item_key r))"
proof -
  have "verify_no_missing_deps db = Inr () \<longleftrightarrow> (\<forall>(f, r) \<in> set (pending_requirements db). key_present db (rr_item_key r))"
    unfolding verify_no_missing_deps_def by (subst find_check) (auto simp: key_present_def)
  also have "\<dots> \<longleftrightarrow> (\<forall>r. (\<exists>f. (f, r) \<in> set (pending_requirements db)) \<longrightarrow> key_present db (rr_item_key r))"
    by auto
  finally show ?thesis
    unfolding pending_requirements_iff by blast
qed

lemma no_invalid_deps_iff:
  "verify_no_invalid_deps db = Inr () \<longleftrightarrow>
     (\<forall>r \<in> set (gd_requires db). rr_feature r \<in> set (pending_ids db) \<longrightarrow> key_valid db (rr_item_key r) (rr_validator r))"
proof -
  have "verify_no_invalid_deps db = Inr () \<longleftrightarrow> (\<forall>(item, validator, f) \<in> set (required_items db). satisfies validator item)"
    unfolding verify_no_invalid_deps_def by (subst find_check) auto
  also have "\<dots> \<longleftrightarrow> (\<forall>(f, r) \<in> set (pending_requirements db). key_valid db (rr_item_key r) (rr_validator r))"
    unfolding required_items_def key_valid_def set_concat by (simp add: case_prod_beta ball_Un) blast
  also have "\<dots> \<longleftrightarrow> (\<forall>r. (\<exists>f. (f, r) \<in> set (pending_requirements db)) \<longrightarrow> key_valid db (rr_item_key r) (rr_validator r))"
    by auto
  finally show ?thesis
    unfolding pending_requirements_iff by blast
qed

lemma fixup_rows_frame: "fixup_rows db rows = Some db' \<Longrightarrow> db' = db\<lparr>gd_requires := gd_requires db'\<rparr>"
proof (induction rows arbitrary: db)
  case (Cons row rows)
  then obtain db1 where "fixup_row db row = Some db1" "fixup_rows db1 rows = Some db'"
    by (auto simp: bind_eq_Some_conv)
  then show ?case
    using Cons.IH [of db1] fixup_row_frame [of db row db1] by (metis graph_db.update_convs(4) graph_db.surjective graph_db.select_convs)
qed simp

lemma fixup_symlinks_frame:
  assumes "fixup_symlinks db = Some db'"
  shows "gd_item db' = gd_item db" "gd_facts db' = gd_facts db" "pending_ids db' = pending_ids db"
    "key_present db' = key_present db" "key_valid db' = key_valid db"
proof -
  have db': "db' = db\<lparr>gd_requires := gd_requires db'\<rparr>"
    using assms fixup_rows_frame by (simp add: fixup_symlinks_def)
  show "gd_item db' = gd_item db" "gd_facts db' = gd_facts db" "pending_ids db' = pending_ids db"
    by (subst db', simp add: pending_ids_def)+
  then show "key_present db' = key_present db" "key_valid db' = key_valid db"
    by (simp_all add: fun_eq_iff key_present_def key_valid_def)
qed

lemma ebind_eq_Inr_iff: "ebind m f = Inr y \<longleftrightarrow> (\<exists>x. m = Inr x \<and> f x = Inr y)"
  by (cases m) (simp_all add: ebind_def)

lemma build_succeeds_iff:
  "GraphBuilder_build pick least G db = Some (Inr db') \<longleftrightarrow>
     fixup_symlinks db = Some db' \<and> verify_no_missing_deps db' = Inr () \<and> verify_no_invalid_deps db' = Inr () \<and>
     verify_no_conflicts pick least db' = Inr () \<and> (\<exists>fs. toposort G db' = Inr fs)"
  by (auto simp: GraphBuilder_build_def ebind_eq_Inr_iff)

section \<open>An example\<close>

lemma example_fixup:
  "map_option gd_requires (fixup_symlinks example_graph) = Some
     [\<lparr>rr_feature = 1, rr_item_key = KeyPath ''/a'', rr_ordered = True, rr_validator = Exists\<rparr>,
      \<lparr>rr_feature = 3, rr_item_key = KeyPath ''/'', rr_ordered = True, rr_validator = Exists\<rparr>,
      \<lparr>rr_feature = 1, rr_item_key = KeyPath ''/b'', rr_ordered = True, rr_validator = HasFileType Directory\<rparr>]"
  by code_simp

lemma example_checks:
  "map_option verify_no_missing_deps (fixup_symlinks example_graph) = Some (Inr ())"
  "map_option verify_no_invalid_deps (fixup_symlinks example_graph) = Some (Inr ())"
  "map_option (verify_no_conflicts hd the_elem) (fixup_symlinks example_graph) = Some (Inr ())"
  "map_option (\<lambda>db. snd (toposort_graph db)) (fixup_symlinks example_graph) = Some [(2, 1), (3, 1)]"
  by code_simp+

lemma example_builds: "\<exists>db'. GraphBuilder_build hd the_elem example_petgraph example_graph = Some (Inr db')"
proof -
  obtain db' where db': "fixup_symlinks example_graph = Some db'"
    using example_fixup by auto
  have edges: "set (snd (toposort_graph db')) = {(2, 1), (3, 1)}"
    using example_checks(4) db' by simp
  have "acyclic {(2, 1), (3, 1 :: nat)}"
  proof (rule acyclicI, rule allI, rule notI)
    fix x :: nat
    assume "(x, x) \<in> {(2, 1), (3, 1)}\<^sup>+"
    then obtain y where "(x, y) \<in> {(2, 1), (3, 1)}" "(y, x) \<in> {(2, 1), (3, 1 :: nat)}\<^sup>*"
      by (meson tranclD)
    then show False
      by (auto elim: converse_rtranclE)
  qed
  then have "acyclic {(g, f). needs db' f g}"
    using edges toposort_graph_nodes(3) [of db'] by simp
  then have "\<exists>fs. toposort example_petgraph db' = Inr fs"
    using toposort_outcome [OF example_petgraph_documented, of db'] by (auto split: if_splits)
  then show ?thesis
    using example_checks db' build_succeeds_iff [of hd the_elem example_petgraph example_graph db'] by auto
qed
section \<open>Built graphs\<close>

text \<open>C20. The features of a graph that has been built are returned in an order that has every pending feature exactly once and
  in which the pending features that provide what a feature needs come before it.\<close>

theorem build_orders_features:
  assumes "petgraph_documented G" and "GraphBuilder_build pick least G db = Some (Inr db')"
  shows "\<exists>fs. pending_features G db' = Inr fs \<and> built_in_order db' fs"
  using assms toposort_outcome [OF assms(1), of db'] by (auto simp: build_succeeds_iff pending_features_def split: if_splits)

theorem build_orders_features_witness:
  "\<exists>db' fs. GraphBuilder_build hd the_elem example_petgraph example_graph = Some (Inr db') \<and>
     pending_features example_petgraph db' = Inr fs \<and> built_in_order db' fs"
  using example_builds build_orders_features [OF example_petgraph_documented] by blast

text \<open>C21. The sort fails exactly if the ordered requirements of the pending features have a cycle, and then with the error
  for a cycle; the code behind the search is never reached.\<close>

theorem cycles_are_reported:
  assumes "petgraph_documented G"
  shows "((\<exists>e. pending_features G db = Inl e) \<longleftrightarrow> \<not> acyclic {(g, f). needs db f g}) \<and>
    pending_features G db \<noteq> Inl GraphPanic"
  using toposort_outcome [OF assms, of db] by (auto simp: pending_features_def split: if_splits)

theorem cycles_are_reported_witness: "pending_features example_petgraph example_graph \<noteq> Inl GraphPanic"
  using cycles_are_reported [OF example_petgraph_documented, of example_graph] by (rule conjunct2)

text \<open>C22. In a graph that has been built, what a pending feature requires of a path is there and valid at the end of all links: an
  item or a fact of the canonical path exists, and all its items satisfy the validator.\<close>

theorem build_checks_targets:
  assumes "GraphBuilder_build pick least G db = Some (Inr db')"
    and "row \<in> set (gd_requires db)" and "rr_feature row \<in> set (pending_ids db)"
    and "rr_item_key row = KeyPath p" and "resolve db p = Some (Some c)" and "c \<noteq> []"
  shows "key_present db (KeyPath c) \<and> key_valid db (KeyPath c) (rr_validator row)"
proof -
  have built: "fixup_symlinks db = Some db'" "verify_no_missing_deps db' = Inr ()" "verify_no_invalid_deps db' = Inr ()"
    using assms(1) by (simp_all add: build_succeeds_iff)
  have served: "served (gd_requires db') row {KeyPath c}"
    using fixup_symlinks_serves [OF built(1) assms(2-)] .
  then obtain r where "r \<in> set (gd_requires db')" "rr_feature r = rr_feature row" "rr_validator r = rr_validator row"
    "rr_item_key r = KeyPath c"
    by (auto simp: served_def)
  then show ?thesis
    using built(2,3) assms(3) fixup_symlinks_frame [OF built(1)] by (metis no_invalid_deps_iff no_missing_deps_iff)
qed

theorem build_checks_targets_witness:
  "key_present example_graph (KeyPath ''/b'') \<and> key_valid example_graph (KeyPath ''/b'') (HasFileType Directory)"
proof -
  let ?row = "\<lparr>rr_feature = 1, rr_item_key = KeyPath ''/a'', rr_ordered = True, rr_validator = HasFileType Directory\<rparr>"
  obtain db' where "GraphBuilder_build hd the_elem example_petgraph example_graph = Some (Inr db')"
    using example_builds ..
  moreover have "?row \<in> set (gd_requires example_graph)" "rr_feature ?row \<in> set (pending_ids example_graph)"
    "resolve example_graph ''/a'' = Some (Some ''/b'')"
    by code_simp+
  ultimately show ?thesis
    using build_checks_targets [of hd the_elem example_petgraph example_graph db' ?row "''/a''" "''/b''"] by simp
qed

section \<open>Conflicts\<close>

lemma conflict_rows_iff:
  "(k, i, f) \<in> set (conflict_rows pick db) \<longleftrightarrow>
     1 < length (rows_of_key db k) \<and> i = ir_value (pick (rows_of_key db k)) \<and> f \<in> set (providers db k)"
proof -
  have "k \<in> ir_key ` set (gd_item db)" if "1 < length (rows_of_key db k)"
    using that by (cases "rows_of_key db k") (auto simp: rows_of_key_def filter_eq_Cons_iff)
  then show ?thesis
    by (auto simp: conflict_rows_def split: if_splits)
qed

lemma conflict_of_key:
  assumes "1 < length (rows_of_key db key)" and "providers db key \<noteq> []"
  shows "conflict_of (conflict_rows pick db) key = ({ir_value (pick (rows_of_key db key))}, set (providers db key))"
proof -
  let ?rows = "filter (\<lambda>(k, i, f). k = key) (conflict_rows pick db)"
  have "set ?rows = (\<lambda>f. (key, ir_value (pick (rows_of_key db key)), f)) ` set (providers db key)"
    using assms(1) by (auto simp: conflict_rows_iff)
  then show ?thesis
    using assms(2) unfolding conflict_of_def set_map by (simp add: image_image image_constant_conv)
qed

lemma allowed_single:
  "allowed_conflict item True features \<longleftrightarrow>
     (\<exists>e. item = ItemPath (Entry e) \<and> fe_file_type e = Directory) \<or> card (ft_data ` features) \<le> 1"
  by (auto simp: allowed_conflict_def split: Item.splits PathItem.splits)

text \<open>The check for conflicts looks at one row per key only: it accepts a graph exactly if for every key with several items
  and a provider that one row is a directory or the data of all providers are the same. Whether the other items are equal to it
  makes no difference.\<close>

theorem conflicts_by_one_row:
  assumes "\<And>x. least {x} = x"
  shows "verify_no_conflicts pick least db = Inr () \<longleftrightarrow>
    (\<forall>key. 1 < length (rows_of_key db key) \<and> providers db key \<noteq> [] \<longrightarrow>
      (\<exists>e. ir_value (pick (rows_of_key db key)) = ItemPath (Entry e) \<and> fe_file_type e = Directory) \<or>
      card (ft_data ` set (providers db key)) \<le> 1)"
proof -
  let ?rows = "conflict_rows pick db"
  have keys: "key \<in> set (remdups (map fst ?rows)) \<longleftrightarrow> 1 < length (rows_of_key db key) \<and> providers db key \<noteq> []" for key
  proof -
    have "key \<in> set (remdups (map fst ?rows)) \<longleftrightarrow> (\<exists>i f. (key, i, f) \<in> set ?rows)"
      by force
    then show ?thesis
      by (auto simp: conflict_rows_iff ex_in_conv)
  qed
  have "verify_no_conflicts pick least db = Inr () \<longleftrightarrow>
      (\<forall>key \<in> set (remdups (map fst ?rows)). case conflict_of ?rows key of (items, features) \<Rightarrow>
        allowed_conflict (least items) (items - {least items} = {}) features)"
    unfolding verify_no_conflicts_def Let_def by (subst find_check) (auto split: prod.splits)
  also have "\<dots> \<longleftrightarrow> (\<forall>key. 1 < length (rows_of_key db key) \<and> providers db key \<noteq> [] \<longrightarrow>
      allowed_conflict (ir_value (pick (rows_of_key db key))) True (set (providers db key)))"
    unfolding Ball_def keys using assms by (simp add: conflict_of_key)
  finally show ?thesis
    unfolding allowed_single .
qed

theorem conflicts_by_one_row_witness:
  "verify_no_conflicts hd the_elem conflict_graph = Inr () \<and>
   map (\<lambda>i. ir_value i) (rows_of_key conflict_graph (KeyPath ''/b'')) =
     [ItemPath (Entry \<lparr>fe_path = ''/b'', fe_file_type = Directory, fe_mode = 0x1ED\<rparr>),
      ItemPath (Entry \<lparr>fe_path = ''/b'', fe_file_type = File, fe_mode = 0x1A4\<rparr>)]"
proof
  have rows: "rows_of_key conflict_graph (KeyPath ''/b'') =
     [\<lparr>ir_id = 3, ir_key = KeyPath ''/b'', ir_value = ItemPath (Entry \<lparr>fe_path = ''/b'', fe_file_type = Directory, fe_mode = 0x1ED\<rparr>)\<rparr>,
      \<lparr>ir_id = 4, ir_key = KeyPath ''/b'', ir_value = ItemPath (Entry \<lparr>fe_path = ''/b'', fe_file_type = File, fe_mode = 0x1A4\<rparr>)\<rparr>]"
    by code_simp
  have "map ir_key (gd_item conflict_graph) = [KeyPath ''/'', KeyUser ''root'', KeyGroup ''root'', KeyPath ''/b'', KeyPath ''/b'']"
    by code_simp
  moreover have "length (rows_of_key conflict_graph key) = length (filter (\<lambda>k. k = key) (map ir_key (gd_item conflict_graph)))" for key
    by (simp add: rows_of_key_def filter_map comp_def)
  ultimately have "key = KeyPath ''/b''" if "1 < length (rows_of_key conflict_graph key)" for key
    using that by (auto split: if_splits)
  then show "verify_no_conflicts hd the_elem conflict_graph = Inr ()"
    using rows by (subst conflicts_by_one_row) auto
  show "map (\<lambda>i. ir_value i) (rows_of_key conflict_graph (KeyPath ''/b'')) =
     [ItemPath (Entry \<lparr>fe_path = ''/b'', fe_file_type = Directory, fe_mode = 0x1ED\<rparr>),
      ItemPath (Entry \<lparr>fe_path = ''/b'', fe_file_type = File, fe_mode = 0x1A4\<rparr>)]"
    by (simp add: rows)
qed

end
