(* ===== verification/Spec2Isabelle.thy ===== *)
theory Spec2Isabelle
  imports Facts_Queries Oci_Properties Packager_Properties Pipeline_Properties Sync_Properties Sendstream_Properties File_Mode_Text Userns Accounts_Properties Depgraph_Properties
begin

text \<open>
  A verification of the core of antlir, a builder of operating system images: the tool that upgrades btrfs
  send streams (\<open>src/antlir/btrfs_send_stream_upgrade\<close>), the parser of send streams
  (\<open>antlir2/sendstream_parser\<close>), the packager that writes a layer as a send stream
  (\<open>antlir2/antlir2_packager/src/sendstream/userspace\<close>), the stream of changes between two trees with the OCI layers
  made of it (\<open>antlir2/antlir2_change_stream\<close>, \<open>antlir2/antlir2_packager/make_oci_layer\<close>), the dependency graph that orders the features of an image
  (\<open>antlir2/antlir2_depgraph\<close>), the user, group and shadow files with the features that write them
  (\<open>antlir2/antlir2_users\<close>, \<open>antlir2/features\<close>), the database of facts about a layer
  (\<open>antlir2/antlir2_facts\<close>), the maps of user namespaces (\<open>antlir2/antlir2_userns\<close>) and
  file modes (\<open>antlir2/antlir2_mode\<close>).

  \<^bold>\<open>Send streams.\<close> A btrfs send stream is a header (magic, version) and a sequence of commands; a
  command is a header (payload size, type, CRC32C) and a list of typed attributes. The tool reads
  a version 1 or version 2 stream and writes a version 2 stream: it re-encodes the data attributes
  (version 2 drops their 16-bit size), merges adjacent writes into larger ones, compresses them with
  zstd when that saves space, and can insert pad commands so that data starts on a block boundary.
  It must not change what the stream does when it is received. The parser of send streams, a library of
  its own, reads version 1 streams from an asynchronous reader and hands the commands to a callback. The
  userspace packager walks a layer and pipes a version 1 stream of it, in full or as the difference to a
  parent layer, into the upgrade tool.

  \<^bold>\<open>Differences.\<close> The change stream compares two directory trees with a stack of instructions and yields the
  changes that turn the old tree into the new one; the maker of OCI layers collects them by path and writes
  them as a tar archive.

  \<^bold>\<open>Images.\<close> A layer of an image is described by features. Each feature says which items (paths, users,
  groups) it provides and requires; the dependency graph, which is kept in a SQLite database beside the
  facts of the parent layer, follows the symbolic links in the requirements, checks that each is met and
  valid and that no two features are in conflict, and returns the features in an order in which every
  feature finds what it needs. Compiling a user, group or usermod feature edits \<open>/etc/passwd\<close>,
  \<open>/etc/shadow\<close> and \<open>/etc/group\<close> of the layer. When a layer has been built, \<open>new_facts_db\<close> copies the database of its
  parent and brings its facts (directory entries, users, groups, rpms, unit files) up to date in one transaction.

  \<^bold>\<open>Theories of the upgrade tool and their sources\<close> (all paths below the tool's \<open>src/\<close> directory):

    \<^item> \<open>Prelude\<close>: errors as values, checked machine arithmetic, slices, little-endian words, UTF-8.
    \<^item> \<open>Blocking\<close>, \<open>Read_Once_Cache\<close>: \<open>mp/sync/blocking_sync_primitive.rs\<close>, \<open>read_buffer.rs\<close> and
      \<open>read_once_buffer_cache.rs\<close>.
    \<^item> \<open>Context\<close>: \<open>upgrade/send_stream_upgrade_{source,destination,options,context}.rs\<close> and
      \<open>send_elements/send_version.rs\<close>.
    \<^item> \<open>Command_Header\<close>, \<open>Attribute_Header\<close>, \<open>Attribute\<close>, \<open>Command\<close>: the files of the same names in
      \<open>send_elements/\<close>; \<open>Command_Header\<close> also holds \<open>send_header.rs\<close>.
    \<^item> \<open>Send_Stream\<close>: \<open>upgrade/send_stream.rs\<close>, with the termination of the main loop.
    \<^item> \<open>Slice_Context\<close>, \<open>Wire\<close>, \<open>Command_Wire\<close>, \<open>Command_Codec\<close>: the abstract syntax of attributes and
      commands, their encodings, and the evaluation of the parser, the printer and the serialisation
      check on encodings.
    \<^item> \<open>Write_Command\<close>, \<open>Command_Ops\<close>, \<open>Output\<close>: writes while they are batched (append, truncate,
      flush), upgrade and compression of single commands, padding and persistence.
    \<^item> \<open>Upgrade_Spec\<close>: the specification \<open>upgrade_spec\<close>, a function on lists of abstract commands, and
      the simulation that shows the main loop implements it.
    \<^item> \<open>Upgrade_Effects\<close>: the meaning of a stream as a list of effects, and what the specification
      preserves.
    \<^item> \<open>Stream_Upgrade\<close>: whole runs, from opening the files to the last command.
    \<^item> \<open>Queues\<close>: \<open>mp/sync/{ordered,unordered}_element_queue.rs\<close>, both interpretations of the locale
      \<open>blocking_queue\<close>, and the order in which they deliver.
    \<^item> \<open>Batch\<close>, \<open>Workers\<close>: \<open>mp/send_elements/\<close> and, for \<open>mp/threads/\<close>, what each worker does with an
      element. \<open>Batch_Spec\<close>, \<open>Batch_Plan\<close> and \<open>Batch_Output\<close>: the write a batch of pointers stands for,
      the batches the batcher makes of a stream and their ids, and what compression and writing
      make of a batch.
    \<^item> \<open>Cache_Reads\<close>: the prefetcher, and the buffer cache under interleaved readers.
    \<^item> \<open>Pipeline\<close>: the multi-threaded upgrade as a system of threads that interleave between queue
      operations. \<open>Pipeline_Input\<close>, \<open>Pipeline_Proof\<close>, \<open>Pipeline_Scene\<close>: its invariant, the measure that
      every step decreases, and that a step is always possible.
    \<^item> \<open>Coordinator\<close>: \<open>mp/threads/{coordinator,worker_thread}.rs\<close>, \<open>mp/sync/sync_container.rs\<close>.
    \<^item> \<open>Element_Properties\<close>, \<open>Pipeline_Properties\<close>, \<open>Sync_Properties\<close> and this theory: the properties,
      numbered C1, C2, ... in the manifest.

  \<^bold>\<open>Other theories and their sources\<close> (all paths below \<open>src/antlir/antlir2/\<close>):

    \<^item> \<open>Nom\<close>, \<open>Nom_Text\<close>, \<open>Decimal\<close>: the parser combinators of nom as predicates that state their documented
      behaviour, with implementations that satisfy them; decimal numbers, lines and fields.
    \<^item> \<open>Sendstream_Types\<close>, \<open>Sendstream_Wire\<close>, \<open>Sendstream_Parse\<close>: \<open>sendstream_parser/src/lib.rs\<close>, \<open>wire/cmd.rs\<close> with
      \<open>wire/tlv.rs\<close>, and \<open>wire/mod.rs\<close>. \<open>Sendstream_Codec\<close>, \<open>Sendstream_Streams\<close> and \<open>Sendstream_Properties\<close>: the
      encoding of commands, the parser on encodings, on streams cut into reads, and the agreement with
      the upgrade tool on the same bytes.
    \<^item> \<open>Sendstream_Writer\<close>, \<open>Sendstream_Packager\<close>: \<open>antlir2_packager/src/sendstream/userspace/{tlv,writer,command}.rs\<close> and
      \<open>userspace/mod.rs\<close>. \<open>Sendstream_Receive\<close>: what receiving a command does to a file system of names and inodes.
      \<open>Sendstream_Rebuild\<close>: the induction over the walk. \<open>Packager_Properties\<close>: layers come back, through the
      parser as well, and what the incremental mode sends.
    \<^item> \<open>Change_Stream\<close>: \<open>antlir2_change_stream/src\<close>. \<open>Change_Apply\<close>: what a change does to a file system of paths, and the
      calculus of effects at a path. \<open>Change_Diff\<close>: adding, removing and comparing trees, proved in the locales
      \<open>comparable_contents\<close> and \<open>faithful_contents\<close>, the contract of the contents of files. \<open>Change_Properties\<close>: their
      interpretations for vectors, files and buffered files.
    \<^item> \<open>Oci_Layer\<close>, \<open>Oci_Properties\<close>: \<open>antlir2_packager/make_oci_layer/src/main.rs\<close>, the archive of a tree and of a changed
      file.
    \<^item> \<open>File_Mode\<close>, \<open>File_Mode_Text\<close>: \<open>antlir2_mode/src/lib.rs\<close>, and which modes survive printing and parsing.
    \<^item> \<open>Users\<close>, \<open>Users_Text\<close>: \<open>antlir2_users/src/{lib,passwd,group,shadow,uidmaps}.rs\<close>; the three formats are
      instances of the locale \<open>etc_file\<close>, from which their round trips follow.
    \<^item> \<open>Userns\<close>: \<open>antlir2_userns/src/{lib,ns,subid}.rs\<close>.
    \<^item> \<open>Depgraph_Items\<close>: \<open>antlir2_depgraph_if/src\<close>, the directory entries of \<open>antlir2_facts/src/fact\<close> and
      \<open>antlir2_depgraph/src/fact_interop.rs\<close>, with the path functions of the standard library.
    \<^item> \<open>Depgraph\<close>: \<open>antlir2_depgraph/src/{lib,resolve,toposort,error}.rs\<close>. \<open>Depgraph_Order\<close>: the order of the
      features. \<open>Depgraph_Resolve\<close>: what the resolution of links returns and when it does not return.
      \<open>Depgraph_Properties\<close>: what a successful build guarantees.
    \<^item> \<open>Accounts\<close>, \<open>Accounts_Properties\<close>: \<open>features/{user,group,usermod}/*.rs\<close> with the databases of
      \<open>antlir2_compile/src/lib.rs\<close>; what the features leave in the files, read back through the parsers.
    \<^item> \<open>Facts_Db\<close>: \<open>antlir2_facts/src/lib.rs\<close>, \<open>src/fact/{mod,user,rpm,systemd,dir_entry}.rs\<close> and \<open>antlir2_systemd/src/lib.rs\<close>.
      \<open>Facts_Populate\<close>: \<open>antlir2_facts/bin/new_facts_db.rs\<close>. \<open>Facts_Store\<close>: the locale \<open>keyed_store\<close>, in which the loops
      that insert and delete are shown to leave exactly what was inserted, interpreted for the rows of every kind of fact.
      \<open>Facts_Properties\<close>, \<open>Facts_Queries\<close>: what a new database holds, what is left after a failure, iteration by prefix,
      the listing of rpms and their keys.

  \<^bold>\<open>How the code is modelled.\<close> A method that takes \<open>&mut self\<close> or \<open>&mut context\<close> returns the
  updated value. \<open>anyhow::Result\<close> is \<open>result\<close>: \<open>Inl (Bail r)\<close> for \<open>bail!\<close> and \<open>ensure!\<close>,
  \<open>Inl (Panic r)\<close> for an index, overflow or division panic, and a constructor of its own for the one
  error the callers downcast to (\<open>SendAttributeFailedToShrinkPayloadError\<close>). \<open>usize\<close> is \<open>nat\<close> with
  the subtractions and the additions that can leave 64 bits checked; integers of the stream format
  are words of their width. A child context over slices of a buffer returns the slice, which is
  spliced into the parent's buffer. The input file is a list of the chunks the operating system
  delivers (short reads, end of file, failures), the output file a \<open>BufWriter\<close> over a device with
  optionally limited space. The parts with locks are modelled at the granularity of their critical
  sections; an operation whose condition variable would wait gives \<open>Inl Blocked\<close>.

  The multi-threaded mode is the relation \<open>mp_run\<close>: in every step one thread, whichever the scheduler
  picks, goes from one queue operation to the next. Its reads go to a cache that holds the input
  (\<open>loaded_cache\<close>), as \<open>Cache_Reads\<close> justifies at the finer granularity of the cache's critical
  sections. The results of the thread handles, which the coordinator polls, are a parameter of
  \<open>coordinate\<close>, and so is the number of passes it may look at; \<open>None\<close> says that it has not ended
  within them. An \<open>Arc\<close> of a command that two batches share is a mark on both pointers.

  The CRC32C routine and zstd are not part of the sources: they are the fields of \<open>externs\<close>. Nothing
  is assumed of them, except that \<open>upgrade_preserves_effects\<close> needs a decoder that inverts the encoder
  (\<open>zstd_inverts\<close>) and \<open>upgrade_needs_end\<close> that the encoder does not fail.

  The tables of the dependency graph are lists of rows in the order of insertion, and every SQL statement
  of the source is written out on them. The features of a graph are seen by their label, type and data.
  Parsers that are written with nom take a record of its combinators; the theorems assume the documented
  behaviour of those they use (\<open>nom_documented\<close>, \<open>nom_mode_documented\<close>, \<open>nom_users_documented\<close>). Likewise
  petgraph's topological sort and depth-first search are parameters with the hypothesis
  \<open>petgraph_documented\<close>: an order that respects the edges if there is one, a node on a cycle otherwise, and
  the nodes that can be reached from the start. Each of these hypotheses is shown to hold of a concrete
  instance. The row that SQLite takes for a group of an aggregate query and the least item of an ordered
  set are arbitrary functions, and so is the loading of a uidmap file.

  The packager sees a layer as the list of the entries of the walk, with what the operating system says of each;
  the names that \<open>Uuid::new_v4\<close> gives and blake3 are parameters, of which the theorems assume that the names
  are not in the layer and that the hash tells the two contents of a file apart. The meaning of the
  commands is that of the system calls they stand for; a command that the packager does not write has none.

  The trees of the change stream are values, with the entries of a directory in the order of reading. Every change is
  given the meaning of the system call that it is named after, without times. The tar crate is seen by the
  calls of its builder.

  The table of facts is a list of rows in the order of insertion. The JSON text of a fact is a parameter, of which the
  theorems assume that it reads back as the fact (\<open>json_documented\<close>); the walk of the layer and the output of \<open>rpm\<close> and
  \<open>systemctl\<close> are the record \<open>layer_view\<close>.

  \<^bold>\<open>What is shown.\<close> For the single-threaded mode: refinement of the specification, preservation of the
  effects, the outcome on every well-formed stream, round trips and errors of the elements. For the
  multi-threaded mode: no schedule makes it fail, deadlock, run forever or write anything else than
  the single-threaded mode; the cache returns the input; the queues deliver in order and release
  their threads at the shutdown; the coordinator reports success only if every worker returned. The
  properties that describe misbehaviour (a full device, a prefetcher that is late, a backlog below
  one buffer, a limit below a write, an attribute that overruns) are listed as findings.
  For the send stream parser: the commands and their number on any streams and any reads, the error on
  streams that are cut off, and agreement with the upgrade tool. For the packager: the stream of a layer,
  parsed and received, gives the layer back with its hard links, and an incremental update of a file is
  complete, but that of a directory is not. For the change stream: the difference turns the old tree into the
  new one, up to what it is shown to lose, and the archive of a new tree has exactly its entries, but that of a
  changed file can be cut off. For the graph: the order, the report of
  cycles, the checks at the end of links, and how conflicts are decided. For the facts: a new database describes the
  layer and nothing of its parent, but for the rpms of a layer that cannot list them, and which queries and keys are exact. For the texts (modes, user files,
  maps of namespaces): round trips, and exactly where they fail.

  \<^bold>\<open>Termination.\<close> Every loop of the code is a total function: the attribute loops by the bytes left
  in the slice, the main loop because each command consumes bytes of the source, the stack machine of the
  change stream by a weight of its instructions. The multi-threaded
  mode takes at most ten steps per command. Only the coordinator, which polls until its threads end,
  has a bound on its passes, and \<open>coordinator_teardown_ends\<close> says how many are enough. Two loops of the
  code do not always end: the parser of send streams on an input that ends inside a header, and the
  resolution of links on a cycle. They are partial functions in which \<open>None\<close> is a run that does not
  return, and \<open>sendstream_parse_spins\<close> and \<open>resolve_follows_cycles\<close> say when that happens.

  \<^bold>\<open>What is not modelled.\<close> Logging, \<open>Display\<close> and \<open>Debug\<close>, times and statistics, which no decision
  of the program reads; lock poisoning; the command line parser; sleeping; errors of SQLite and of JSON;
  the loading of feature plugins. The rest of the repository (features that run external tools,
  packagers, virtual machines) is listed in the manifest.
\<close>

section \<open>The upgrade of a whole stream\<close>

definition example_reader :: reader where
  "example_reader =
     [Chunk (enc_stream_header SendVersion1),
      Chunk (enc_commands example_externs SendVersion1 example_commands)]"

lemma example_stream:
  "holds_stream example_externs example_reader SendVersion1 example_commands []"
  "\<forall>a \<in> set example_commands. stream_wf SendVersion1 (maximum_batched_extent_size example_options) a"
proof -
  show "holds_stream example_externs example_reader SendVersion1 example_commands []"
    by (simp add: holds_stream_def chunk_bytes_def example_commands_def example_reader_def)
  have "stream_wf SendVersion1 m (example_write o' d)" if "m < 2 ^ 31" "o' < 2 ^ 32" "length d < 2 ^ 16" for m o' d
    using that example_write_wf [of o' d m] by (simp add: stream_wf_def input_wf_def)
  moreover have "stream_wf SendVersion1 m end_command" for m
    using end_command_wf by (simp add: stream_wf_def input_wf_def) (simp add: end_command_def)
  ultimately show "\<forall>a \<in> set example_commands.
      stream_wf SendVersion1 (maximum_batched_extent_size example_options) a"
    by (simp add: example_commands_def example_options_def SendStreamUpgradeOptions_default_def)
qed

lemma example_zstd: "zstd_inverts example_externs example_options example_decoder"
  by (auto simp: zstd_inverts_def zstd_def example_externs_def example_decoder_def split: if_splits)

text \<open>C1. The single-threaded upgrade implements its specification: on an input that holds a
  well-formed stream, read in pieces of any size, the run ends with the error the specification
  gives, or it succeeds and the bytes handed to the output are a version 2 stream header followed
  by the version 2 encoding of the commands the specification gives.\<close>

theorem upgrade_refines_spec:
  assumes "holds_stream x r sv cmds tail"
    and "\<forall>a \<in> set cmds. stream_wf sv (maximum_batched_extent_size options) a"
  shows "case upgrade_spec x options 17 None cmds of
      Inl e \<Rightarrow> SendStream_upgrade_single_threaded x options (Inr r) (Inr ([], None)) = Inl e
    | Inr out \<Rightarrow> \<exists>c. SendStream_upgrade_single_threaded x options (Inr r) (Inr ([], None)) = Inr c \<and>
        written c = enc_stream_header SendVersion2 @ enc_commands x SendVersion2 out"
  using assms by (rule SendStream_upgrade_refines)

theorem upgrade_refines_spec_witness:
  "case upgrade_spec example_externs example_options 17 None example_commands of
      Inl e \<Rightarrow> SendStream_upgrade_single_threaded example_externs example_options (Inr example_reader)
        (Inr ([], None)) = Inl e
    | Inr out \<Rightarrow> \<exists>c. SendStream_upgrade_single_threaded example_externs example_options (Inr example_reader)
        (Inr ([], None)) = Inr c \<and>
        written c = enc_stream_header SendVersion2 @ enc_commands example_externs SendVersion2 out"
  by (rule upgrade_refines_spec [OF example_stream])

text \<open>C2. The upgrade preserves what the stream does: a successful run has written a sequence of
  well-formed version 2 commands with the same effects as the input up to its end command. Every
  byte is written to the same offset of the same file, in the same order, and every other command
  is executed unchanged at the same point. The hypothesis on zstd is that decoding inverts
  encoding.\<close>

theorem upgrade_preserves_effects:
  assumes "holds_stream x r sv cmds tail"
    and "\<forall>a \<in> set cmds. stream_wf sv (maximum_batched_extent_size options) a"
    and "zstd_inverts x options dec"
    and "SendStream_upgrade_single_threaded x options (Inr r) (Inr ([], None)) = Inr c"
  shows "\<exists>out. written c = enc_stream_header SendVersion2 @ enc_commands x SendVersion2 out \<and>
    (\<forall>a \<in> set out. acmd_wf SendVersion2 a) \<and>
    stream_effects dec out = stream_effects dec (until_end cmds)"
proof -
  from SendStream_upgrade_refines [OF assms(1,2)] assms(4) obtain out where
    out: "upgrade_spec x options 17 None cmds = Inr out"
    "written c = enc_stream_header SendVersion2 @ enc_commands x SendVersion2 out"
    by (auto split: sum.splits)
  then show ?thesis
    using upgrade_spec_effects [OF assms(3) refl assms(2) _ out(1)] upgrade_spec_wf [OF refl assms(2) _ out(1)]
    by (auto simp: pending_ok_def pending_effects_def)
qed

lemma example_run:
  "\<exists>c. SendStream_upgrade_single_threaded example_externs example_options (Inr example_reader)
     (Inr ([], None)) = Inr c"
proof -
  have "\<forall>d. zstd example_externs example_options d \<noteq> None"
    by (simp add: zstd_def example_externs_def)
  moreover have "BTRFS_SEND_C_END \<in> ac_type ` set example_commands"
    by (simp add: example_commands_def end_command_wf)
  ultimately obtain out where "upgrade_spec example_externs example_options 17 None example_commands = Inr out"
    using upgrade_spec_end by blast
  with SendStream_upgrade_refines [OF example_stream] show ?thesis by auto
qed

theorem upgrade_preserves_effects_witness:
  "\<exists>c out. SendStream_upgrade_single_threaded example_externs example_options (Inr example_reader)
      (Inr ([], None)) = Inr c \<and>
    written c = enc_stream_header SendVersion2 @ enc_commands example_externs SendVersion2 out \<and>
    stream_effects example_decoder out = stream_effects example_decoder example_commands"
proof -
  obtain c where c: "SendStream_upgrade_single_threaded example_externs example_options (Inr example_reader)
      (Inr ([], None)) = Inr c"
    using example_run by blast
  have "until_end example_commands = example_commands"
    by (simp add: example_commands_def end_command_wf)
  with c upgrade_preserves_effects [OF example_stream example_zstd c] show ?thesis by auto
qed

text \<open>C7. The end command decides: if zstd does not fail, a well-formed stream with an end command
  is upgraded, and one without it is rejected because the input is too short, even when it ends
  between two commands.\<close>

theorem upgrade_needs_end:
  assumes "holds_stream x r sv cmds tail"
    and "\<forall>a \<in> set cmds. stream_wf sv (maximum_batched_extent_size options) a"
    and "\<forall>d. zstd x options d \<noteq> None"
  shows "if BTRFS_SEND_C_END \<in> ac_type ` set cmds
    then \<exists>c. SendStream_upgrade_single_threaded x options (Inr r) (Inr ([], None)) = Inr c
    else SendStream_upgrade_single_threaded x options (Inr r) (Inr ([], None)) = Inl (Bail (Io ShortRead))"
proof (cases "BTRFS_SEND_C_END \<in> ac_type ` set cmds")
  case True
  then obtain out where "upgrade_spec x options 17 None cmds = Inr out"
    using upgrade_spec_end assms(3) by blast
  with True SendStream_upgrade_refines [OF assms(1,2)] show ?thesis by auto
next
  case False
  with upgrade_spec_no_end [OF False assms(3)] SendStream_upgrade_refines [OF assms(1,2)] show ?thesis by simp
qed

theorem upgrade_needs_end_witness:
  "SendStream_upgrade_single_threaded example_externs example_options
     (Inr [Chunk (enc_stream_header SendVersion1)]) (Inr ([], None)) = Inl (Bail (Io ShortRead))"
  using upgrade_needs_end [of example_externs "[Chunk (enc_stream_header SendVersion1)]" SendVersion1 "[]" "[]"
      example_options]
  by (simp add: holds_stream_def chunk_bytes_def zstd_def example_externs_def)





end
